(* ===== verification/Prelude.thy ===== *)
theory Prelude
  imports Main "HOL-Library.Word"
begin

text \<open>
  Shared vocabulary of the development: the faults a C operation can run into, the
  result type with its bind, the byte and integer types of the target (ARMv6-M, ILP32),
  and generic lemmas on lists, results and words that the components use.
\<close>

unbundle bit_operations_syntax

section \<open>Faults and results\<close>

text \<open>
  Every point where the source has undefined behaviour, or does not come back, is an
  explicit value: \<open>Inl f\<close> with the fault, \<open>Inr x\<close> with the result.
  \<^item> \<open>NullPointer\<close>: a null pointer is dereferenced or used in arithmetic;
  \<^item> \<open>OutOfBounds\<close>: a read past the end of an object;
  \<^item> \<open>BufferOverflow\<close>: a write past the end of an object;
  \<^item> \<open>Uninitialised\<close>: an indeterminate byte is read;
  \<^item> \<open>BadConversion\<close>: a floating value outside the range of the integer type;
  \<^item> \<open>BadVarArg\<close>: \<open>va_arg\<close> finds no argument or one of another type;
  \<^item> \<open>SignedOverflow\<close>: signed arithmetic overflows;
  \<^item> \<open>DivisionByZero\<close>: an integer division by zero;
  \<^item> \<open>BadShift\<close>: a shift by the width of the type or more;
  \<^item> \<open>Panic\<close>: the code stops itself (\<open>panic\<close>, \<open>hard_assert\<close>);
  \<^item> \<open>Blocked\<close>: the code waits for an event that the state does not provide;
  \<^item> \<open>Bootsel\<close>: the chip restarts in its boot loader, with the two arguments of \<open>reset_usb_boot\<close>;
  \<^item> \<open>Exhausted\<close>: an unrolled recursion was not unrolled far enough.
\<close>

datatype fault =
    NullPointer | OutOfBounds | BufferOverflow | Uninitialised | BadConversion
  | BadVarArg | SignedOverflow | DivisionByZero | BadShift | Panic | Blocked
  | Bootsel "32 word" "32 word" | Exhausted

fun rbind :: "'e + 'a \<Rightarrow> ('a \<Rightarrow> 'e + 'b) \<Rightarrow> 'e + 'b" where
  "rbind (Inl e) f = Inl e"
| "rbind (Inr x) f = f x"

lemma rbind_assoc: "rbind (rbind m f) g = rbind m (\<lambda>x. rbind (f x) g)"
  by (cases m) simp_all

lemma rbind_Inr_right [simp]: "rbind m Inr = m"
  by (cases m) simp_all

lemma rbind_eq_Inr_iff: "rbind m f = Inr y \<longleftrightarrow> (\<exists>x. m = Inr x \<and> f x = Inr y)"
  by (cases m) simp_all

lemma rbind_eq_InrE:
  assumes "rbind m f = Inr y"
  obtains x where "m = Inr x" and "f x = Inr y"
  using assms by (auto simp: rbind_eq_Inr_iff)

lemma rbind_split:
  "P (rbind m f) \<longleftrightarrow> (\<forall>e. m = Inl e \<longrightarrow> P (Inl e)) \<and> (\<forall>x. m = Inr x \<longrightarrow> P (f x))"
  by (cases m) simp_all

lemma rbind_cong [fundef_cong]:
  "m = m' \<Longrightarrow> (\<And>x. m' = Inr x \<Longrightarrow> f x = g x) \<Longrightarrow> rbind m f = rbind m' g"
  by (cases m') simp_all

section \<open>Integer types of the target\<close>

type_synonym u8 = "8 word"
type_synonym u16 = "16 word"
type_synonym u32 = "32 word"
type_synonym u64 = "64 word"

abbreviation NUL :: char where
  "NUL \<equiv> CHR 0x00"

text \<open>Facts that evaluate the C library on concrete buffers, and facts about packets.\<close>

named_theorems cstr_simps \<open>rewrite rules for the C string functions\<close>
named_theorems reg_simps \<open>rewrite rules for register operations\<close>
named_theorems printf_simps \<open>rewrite rules for formatted output\<close>
named_theorems packet_simps \<open>rewrite rules for packet formatting and parsing\<close>

section \<open>Lists\<close>

lemma takeWhile_neq_append:
  "c \<notin> set xs \<Longrightarrow> takeWhile (\<lambda>x. x \<noteq> c) (xs @ c # ys) = xs"
  by (induction xs) auto

lemma dropWhile_neq_append:
  "c \<notin> set xs \<Longrightarrow> dropWhile (\<lambda>x. x \<noteq> c) (xs @ c # ys) = c # ys"
  by (induction xs) auto

lemma in_set_split_first:
  assumes "c \<in> set xs"
  obtains ys zs where "xs = ys @ c # zs" and "c \<notin> set ys"
  using assms by (metis split_list_first)

lemma drop_eq_append: "drop n (xs @ ys) = drop n xs @ drop (n - length xs) ys"
  by simp

section \<open>Words\<close>

lemma fold_xor_word:
  "fold (\<lambda>c a. a XOR f c) cs (a :: 'a::len word) = a XOR fold (\<lambda>c a. a XOR f c) cs 0"
proof (induction cs arbitrary: a)
  case Nil
  show ?case by simp
next
  case (Cons c cs)
  have "fold (\<lambda>c a. a XOR f c) (c # cs) a = (a XOR f c) XOR fold (\<lambda>c a. a XOR f c) cs 0"
    using Cons.IH [of "a XOR f c"] by simp
  moreover have "fold (\<lambda>c a. a XOR f c) (c # cs) 0 = f c XOR fold (\<lambda>c a. a XOR f c) cs 0"
    using Cons.IH [of "f c"] by simp
  ultimately show ?case
    by (simp add: xor.assoc)
qed

end
