(* ===== verification/C_Strings.thy ===== *)
theory C_Strings
  imports Prelude
begin

text \<open>
  The C string library as the firmware uses it: \<open>strncpy\<close>, \<open>strcat\<close>, \<open>strchr\<close>, \<open>strlen\<close>,
  \<open>strtok\<close>, \<open>strtol\<close> and \<open>strtoul\<close> on the 32-bit target. The memory behind a pointer, up to
  the end of the object, is a list of cells; a cell whose byte is indeterminate is \<open>None\<close>.
  Functions of the library that want a string get its contents from \<open>c_string\<close>, which faults
  when there is no terminating null in the object.
\<close>

section \<open>Memory\<close>

type_synonym cell = "char option"

definition uninit :: "nat \<Rightarrow> cell list" where
  "uninit n = replicate n None"

definition zeroed :: "nat \<Rightarrow> cell list" where
  "zeroed n = replicate n (Some NUL)"

text \<open>A string literal, and a string followed by other memory.\<close>

definition lit :: "char list \<Rightarrow> cell list" where
  "lit s = map Some s @ [Some NUL]"

lemma length_uninit [simp]: "length (uninit n) = n"
  by (simp add: uninit_def)

lemma length_zeroed [simp]: "length (zeroed n) = n"
  by (simp add: zeroed_def)

fun read_cell :: "cell list \<Rightarrow> nat \<Rightarrow> fault + char" where
  "read_cell [] i = Inl OutOfBounds"
| "read_cell (x # xs) 0 = (case x of None \<Rightarrow> Inl Uninitialised | Some c \<Rightarrow> Inr c)"
| "read_cell (x # xs) (Suc i) = read_cell xs i"

text \<open>The contents of the string that starts at the beginning of the memory.\<close>

fun c_string :: "cell list \<Rightarrow> fault + char list" where
  "c_string [] = Inl OutOfBounds"
| "c_string (None # xs) = Inl Uninitialised"
| "c_string (Some c # xs) =
     (if c = NUL then Inr [] else rbind (c_string xs) (\<lambda>cs. Inr (c # cs)))"

definition deref_string :: "cell list \<Rightarrow> nat option \<Rightarrow> fault + char list" where
  "deref_string buf p =
     (case p of None \<Rightarrow> Inl NullPointer | Some i \<Rightarrow> c_string (drop i buf))"

definition strlen :: "cell list \<Rightarrow> fault + nat" where
  "strlen m = rbind (c_string m) (\<lambda>s. Inr (length s))"

lemma c_string_append [cstr_simps]:
  "NUL \<notin> set s \<Longrightarrow> c_string (map Some s @ Some NUL # r) = Inr s"
  by (induction s) auto

lemma c_string_lit [cstr_simps]: "NUL \<notin> set s \<Longrightarrow> c_string (lit s) = Inr s"
  by (simp add: lit_def c_string_append)

lemma c_string_zeroed [cstr_simps]:
  "NUL \<notin> set s \<Longrightarrow> 0 < n \<Longrightarrow> c_string (map Some s @ zeroed n) = Inr s"
  by (cases n) (auto simp: c_string_append zeroed_def)

lemma c_string_InrD:
  "c_string xs = Inr s \<Longrightarrow> NUL \<notin> set s \<and> (\<exists>r. xs = map Some s @ Some NUL # r)"
proof (induction xs arbitrary: s rule: c_string.induct)
  case (3 c xs)
  show ?case
  proof (cases "c = NUL")
    case True
    with "3.prems" show ?thesis by simp
  next
    case False
    with "3.prems" obtain cs where cs: "c_string xs = Inr cs" and s: "s = c # cs"
      by (auto simp: rbind_eq_Inr_iff)
    from "3.IH" [OF False cs] s False show ?thesis by auto
  qed
qed simp_all

lemma c_stringE:
  assumes "c_string xs = Inr s"
  obtains r where "xs = map Some s @ Some NUL # r" and "NUL \<notin> set s"
  using c_string_InrD [OF assms] by blast

section \<open>strncpy, strcat\<close>

text \<open>
  \<open>strncpy_cells n src\<close> is the block of exactly \<open>n\<close> bytes that \<open>strncpy(dst, src, n)\<close>
  stores: the string, padded with null bytes, or its first \<open>n\<close> characters with no
  terminator. A store past the end of the destination is a fault.
\<close>

fun strncpy_cells :: "nat \<Rightarrow> cell list \<Rightarrow> fault + cell list" where
  "strncpy_cells 0 src = Inr []"
| "strncpy_cells (Suc n) [] = Inl OutOfBounds"
| "strncpy_cells (Suc n) (None # src) = Inl Uninitialised"
| "strncpy_cells (Suc n) (Some c # src) =
     (if c = NUL then Inr (zeroed (Suc n))
      else rbind (strncpy_cells n src) (\<lambda>cs. Inr (Some c # cs)))"

definition strncpy :: "cell list \<Rightarrow> cell list \<Rightarrow> int \<Rightarrow> fault + cell list" where
  "strncpy dst src n =
     (if int (length dst) < n then Inl BufferOverflow
      else rbind (strncpy_cells (nat n) src) (\<lambda>b. Inr (b @ drop (length b) dst)))"

text \<open>\<open>strncat(dst, src, n)\<close> and \<open>strcat\<close>: at most \<open>n\<close> characters, then a null.\<close>

definition append_string :: "cell list \<Rightarrow> char list \<Rightarrow> fault + cell list" where
  "append_string dst cs =
     rbind (c_string dst) (\<lambda>d.
       if length dst < length d + length cs + 1 then Inl BufferOverflow
       else Inr (map Some d @ map Some cs @ Some NUL # drop (length d + length cs + 1) dst))"

definition strcat :: "cell list \<Rightarrow> cell list \<Rightarrow> fault + cell list" where
  "strcat dst src = rbind (c_string src) (append_string dst)"

fun strncat_chars :: "nat \<Rightarrow> cell list \<Rightarrow> fault + char list" where
  "strncat_chars 0 src = Inr []"
| "strncat_chars (Suc n) [] = Inl OutOfBounds"
| "strncat_chars (Suc n) (None # src) = Inl Uninitialised"
| "strncat_chars (Suc n) (Some c # src) =
     (if c = NUL then Inr [] else rbind (strncat_chars n src) (\<lambda>cs. Inr (c # cs)))"

definition strncat :: "cell list \<Rightarrow> cell list \<Rightarrow> nat \<Rightarrow> fault + cell list" where
  "strncat dst src n = rbind (strncat_chars n src) (append_string dst)"

lemma strncpy_cells_pad [cstr_simps]:
  "NUL \<notin> set s \<Longrightarrow> length s < n \<Longrightarrow>
     strncpy_cells n (map Some s @ Some NUL # r) = Inr (map Some s @ zeroed (n - length s))"
proof (induction s arbitrary: n)
  case Nil
  then show ?case by (cases n) auto
next
  case (Cons c s)
  then show ?case by (cases n) auto
qed

lemma strncpy_cells_trunc [cstr_simps]:
  "NUL \<notin> set s \<Longrightarrow> n \<le> length s \<Longrightarrow>
     strncpy_cells n (map Some s @ r) = Inr (map Some (take n s))"
proof (induction s arbitrary: n)
  case Nil
  then show ?case by simp
next
  case (Cons c s)
  then show ?case by (cases n) auto
qed

lemma strncpy_cells_length: "strncpy_cells n src = Inr b \<Longrightarrow> length b = n"
  by (induction n src arbitrary: b rule: strncpy_cells.induct)
    (auto simp: rbind_eq_Inr_iff split: if_splits)

lemma strncpy_length: "strncpy dst src n = Inr b \<Longrightarrow> length b = length dst"
  by (auto simp: strncpy_def rbind_eq_Inr_iff dest: strncpy_cells_length split: if_splits)

lemma strncpy_pad [cstr_simps]:
  assumes "NUL \<notin> set s" and "int (length s) < n" and "n \<le> int (length dst)"
  shows "strncpy dst (map Some s @ Some NUL # r) n =
    Inr (map Some s @ zeroed (nat n - length s) @ drop (nat n) dst)"
  using assms by (simp add: strncpy_def strncpy_cells_pad)

lemma strncpy_trunc [cstr_simps]:
  assumes "NUL \<notin> set s" and "0 \<le> n" and "n \<le> int (length s)" and "n \<le> int (length dst)"
  shows "strncpy dst (map Some s @ r) n = Inr (map Some (take (nat n) s) @ drop (nat n) dst)"
proof -
  have "nat n \<le> length s" using assms by simp
  then show ?thesis using assms by (simp add: strncpy_def strncpy_cells_trunc min_absorb2)
qed

text \<open>Copying a whole buffer over one of the same size does not depend on what was there.\<close>

lemma strncpy_whole:
  assumes "length dst = 200" and "NUL \<notin> set s" and "length s < 200"
  shows "strncpy dst (map Some s @ Some NUL # r) 200 = Inr (map Some s @ zeroed (200 - length s))"
  using assms by (simp add: strncpy_pad)

section \<open>strchr, strtol and strtoul on the contents of a string\<close>

fun strchr :: "char \<Rightarrow> char list \<Rightarrow> nat option" where
  "strchr c [] = None"
| "strchr c (x # xs) = (if x = c then Some 0 else map_option Suc (strchr c xs))"

lemma strchr_append [cstr_simps]: "c \<notin> set s \<Longrightarrow> strchr c (s @ c # r) = Some (length s)"
  by (induction s) auto

lemma strchr_None [cstr_simps]: "strchr c s = None \<longleftrightarrow> c \<notin> set s"
  by (induction s) auto

lemma strchr_SomeD:
  "strchr c s = Some i \<Longrightarrow> i < length s \<and> s ! i = c \<and> c \<notin> set (take i s)"
  by (induction s arbitrary: i) (auto split: if_splits)

lemma strchr_SomeE:
  assumes "strchr c s = Some i"
  obtains r where "s = take i s @ c # r" and "c \<notin> set (take i s)" and "i < length s"
  using strchr_SomeD [OF assms] id_take_nth_drop [of i s] by metis

definition isspace :: "char \<Rightarrow> bool" where
  "isspace c \<longleftrightarrow> c \<in> {CHR '' '', CHR 0x09, CHR 0x0A, CHR 0x0B, CHR 0x0C, CHR 0x0D}"

definition digit_value :: "int \<Rightarrow> char \<Rightarrow> int option" where
  "digit_value base c =
     (let n = of_char c :: int;
          v = (if 48 \<le> n \<and> n \<le> 57 then n - 48
               else if 65 \<le> n \<and> n \<le> 90 then n - 55
               else if 97 \<le> n \<and> n \<le> 122 then n - 87
               else base)
      in if v < base then Some v else None)"

fun skip_space :: "char list \<Rightarrow> char list" where
  "skip_space [] = []"
| "skip_space (c # cs) = (if isspace c then skip_space cs else c # cs)"

fun scan_digits :: "int \<Rightarrow> int \<Rightarrow> char list \<Rightarrow> int" where
  "scan_digits base acc [] = acc"
| "scan_digits base acc (c # cs) =
     (case digit_value base c of
        None \<Rightarrow> acc
      | Some d \<Rightarrow> scan_digits base (acc * base + d) cs)"

text \<open>White space, the sign, for base 16 an optional \<open>0x\<close>, then the digits.\<close>

definition scan_sign :: "char list \<Rightarrow> bool \<times> char list" where
  "scan_sign cs =
     (case cs of
        c # r \<Rightarrow> if c = CHR ''-'' then (True, r) else if c = CHR ''+'' then (False, r) else (False, cs)
      | [] \<Rightarrow> (False, cs))"

definition scan_prefix :: "int \<Rightarrow> char list \<Rightarrow> char list" where
  "scan_prefix base cs =
     (case cs of
        a # b # r \<Rightarrow> if base = 16 \<and> a = CHR ''0'' \<and> (b = CHR ''x'' \<or> b = CHR ''X'') then r else cs
      | _ \<Rightarrow> cs)"

definition scan_number :: "int \<Rightarrow> char list \<Rightarrow> bool \<times> int" where
  "scan_number base s =
     (let (neg, cs) = scan_sign (skip_space s) in (neg, scan_digits base 0 (scan_prefix base cs)))"

definition strtoul :: "char list \<Rightarrow> int \<Rightarrow> u32" where
  "strtoul s base =
     (let (neg, n) = scan_number base s
      in if 2 ^ 32 \<le> n then - 1 else if neg then word_of_int (- n) else word_of_int n)"

definition strtol :: "char list \<Rightarrow> int \<Rightarrow> int" where
  "strtol s base =
     (let (neg, n) = scan_number base s
      in if neg then max (- (2 ^ 31)) (- n) else min (2 ^ 31 - 1) n)"

text \<open>A run of digits, most significant first, and its value.\<close>

definition digits_value :: "int \<Rightarrow> char list \<Rightarrow> int" where
  "digits_value base cs = foldl (\<lambda>a c. a * base + the (digit_value base c)) 0 cs"

definition all_digits :: "int \<Rightarrow> char list \<Rightarrow> bool" where
  "all_digits base cs \<longleftrightarrow> (\<forall>c \<in> set cs. digit_value base c \<noteq> None)"

text \<open>What follows a number in the text is nothing, or not a digit of the base.\<close>

definition no_digit :: "int \<Rightarrow> char list \<Rightarrow> bool" where
  "no_digit base r \<longleftrightarrow> (case r of [] \<Rightarrow> True | c # _ \<Rightarrow> digit_value base c = None)"

lemma scan_digits_run:
  assumes "all_digits base ds" and "no_digit base r"
  shows "scan_digits base a (ds @ r) = foldl (\<lambda>a c. a * base + the (digit_value base c)) a ds"
  using assms
proof (induction ds arbitrary: a)
  case Nil
  then show ?case by (auto simp: no_digit_def split: list.splits)
next
  case (Cons d ds)
  then obtain v where "digit_value base d = Some v" by (auto simp: all_digits_def)
  with Cons show ?case by (simp add: all_digits_def)
qed

section \<open>strtok\<close>

text \<open>
  \<open>strtok\<close> with a one-character delimiter set, as newlib's \<open>__strtok_r\<close> has it: skip
  delimiters, stop with null at the end of the string, otherwise cut the token off by
  storing a null byte over the delimiter that ends it and remember where to go on. The
  results are the token (a position in the buffer or null), the buffer and the saved
  position (null when the string is used up).
\<close>

fun skip_delim :: "char \<Rightarrow> cell list \<Rightarrow> fault + nat" where
  "skip_delim d [] = Inl OutOfBounds"
| "skip_delim d (None # xs) = Inl Uninitialised"
| "skip_delim d (Some c # xs) =
     (if c = d then rbind (skip_delim d xs) (\<lambda>n. Inr (Suc n)) else Inr 0)"

fun token_length :: "char \<Rightarrow> cell list \<Rightarrow> fault + nat" where
  "token_length d [] = Inl OutOfBounds"
| "token_length d (None # xs) = Inl Uninitialised"
| "token_length d (Some c # xs) =
     (if c = d \<or> c = NUL then Inr 0 else rbind (token_length d xs) (\<lambda>n. Inr (Suc n)))"

definition strtok_at :: "char \<Rightarrow> cell list \<Rightarrow> nat \<Rightarrow> fault + (nat option \<times> cell list \<times> nat option)" where
  "strtok_at d buf p =
     rbind (skip_delim d (drop p buf)) (\<lambda>k.
       let t = p + k
       in if buf ! t = Some NUL then Inr (None, buf, None)
          else rbind (token_length d (drop t buf)) (\<lambda>n.
            if buf ! (t + n) = Some NUL then Inr (Some t, buf, None)
            else Inr (Some t, buf[t + n := Some NUL], Some (Suc (t + n)))))"

definition strtok_next ::
    "char \<Rightarrow> cell list \<Rightarrow> nat option \<Rightarrow> fault + (nat option \<times> cell list \<times> nat option)" where
  "strtok_next d buf save =
     (case save of None \<Rightarrow> Inr (None, buf, None) | Some p \<Rightarrow> strtok_at d buf p)"

end
