(* ===== verification/Floats.thy ===== *)
theory Floats
  imports Prelude Complex_Main
begin

text \<open>
  The floating-point arithmetic of the language, as the firmware (\<open>float\<close>) and the SDK's
  printf (\<open>double\<close>) use it: IEEE 754 binary32 and binary64, rounding to nearest with ties to
  even, over exact rationals. A value is NaN, an infinity, a signed zero, or a nonzero
  rational; every operation computes exactly and rounds once. Sections: powers of two and
  binary logarithm, rounding to an integer, rounding to a format (monotone, exact on
  representable values, error at most half a quantum), the operations, conversions.
\<close>

section \<open>Powers of two and the binary logarithm\<close>

definition pow2 :: "int \<Rightarrow> rat" where
  "pow2 e = (if 0 \<le> e then of_int (2 ^ nat e) else 1 / of_int (2 ^ nat (- e)))"

lemma pow2_powi: "pow2 e = 2 powi e"
  by (simp add: pow2_def power_int_def power_one_over inverse_eq_divide)

lemma pow2_pos [simp]: "0 < pow2 e"
  by (simp add: pow2_powi)

lemma pow2_nonneg [simp]: "0 \<le> pow2 e"
  using pow2_pos [of e] by (rule less_imp_le)

lemma pow2_nz [simp]: "pow2 e \<noteq> 0"
  using pow2_pos [of e] by (metis less_irrefl)

lemma pow2_add: "pow2 (a + b) = pow2 a * pow2 b"
  by (simp add: pow2_powi power_int_add)

lemma pow2_0 [simp]: "pow2 0 = 1"
  by (simp add: pow2_def)

lemma pow2_of_nat: "pow2 (int n) = 2 ^ n"
  by (simp add: pow2_def)

lemma pow2_Suc: "pow2 (e + 1) = 2 * pow2 e"
  by (simp add: pow2_add pow2_def [of 1])

lemma pow2_mono: "a \<le> b \<Longrightarrow> pow2 a \<le> pow2 b"
  by (simp add: pow2_powi power_int_increasing)

lemma pow2_diff_int:
  assumes "a \<le> b"
  shows "pow2 b / pow2 a = of_int (2 ^ nat (b - a))"
proof -
  have "pow2 b = pow2 (b - a) * pow2 a" by (simp flip: pow2_add)
  with assms show ?thesis by (simp add: pow2_def [of "b - a"])
qed

function bit_length :: "int \<Rightarrow> int" where
  "bit_length n = (if n \<le> 0 then 0 else 1 + bit_length (n div 2))"
  by pat_completeness auto
termination
  by (relation "measure nat") auto

declare bit_length.simps [simp del]

lemma bit_length_nonneg: "0 \<le> bit_length n"
proof (induction n rule: bit_length.induct)
  case (1 n)
  then show ?case by (subst bit_length.simps) auto
qed

lemma bit_length_bounds:
  "0 < n \<Longrightarrow> 0 < bit_length n \<and> 2 ^ nat (bit_length n - 1) \<le> n \<and> n < 2 ^ nat (bit_length n)"
proof (induction n rule: bit_length.induct)
  case (1 n)
  show ?case
  proof (cases "n = 1")
    case True
    then show ?thesis by (simp add: bit_length.simps [of 1] bit_length.simps [of 0])
  next
    case False
    with "1.prems" have h: "0 < n div 2" by (simp add: pos_imp_zdiv_pos_iff)
    let ?b = "bit_length (n div 2)"
    from "1.IH" "1.prems" h have b: "0 < ?b" "2 ^ nat (?b - 1) \<le> n div 2" "n div 2 < 2 ^ nat ?b"
      by auto
    have eq: "bit_length n = 1 + ?b" using "1.prems" by (subst bit_length.simps) simp
    have s: "nat (1 + ?b) = Suc (nat ?b)" "nat ?b = Suc (nat (?b - 1))"
      using b(1) by auto
    have "2 ^ nat ?b = (2::int) * 2 ^ nat (?b - 1)" by (subst s(2)) simp
    with b have "2 ^ nat ?b \<le> n" "n < 2 * 2 ^ nat ?b" by linarith+
    then show ?thesis using b(1) s(1) by (simp add: eq)
  qed
qed

definition ilog2 :: "rat \<Rightarrow> int" where
  "ilog2 a =
     (let (n, d) = quotient_of a; k = bit_length n - bit_length d
      in if pow2 k \<le> a then k else k - 1)"

lemma ilog2_bounds:
  assumes "0 < a"
  shows "pow2 (ilog2 a) \<le> a" and "a < pow2 (ilog2 a + 1)"
proof -
  obtain n d where q: "quotient_of a = (n, d)" by (cases "quotient_of a")
  from quotient_of_denom_pos [OF q] have d: "0 < d" .
  from quotient_of_div [OF q] have a: "a = of_int n / of_int d" .
  with assms d have n: "0 < n" by (simp add: zero_less_divide_iff)
  let ?k = "bit_length n - bit_length d"
  have bn: "0 < bit_length n" "2 ^ nat (bit_length n - 1) \<le> n" "n < 2 ^ nat (bit_length n)"
    using bit_length_bounds [OF n] by auto
  have bd: "0 < bit_length d" "2 ^ nat (bit_length d - 1) \<le> d" "d < 2 ^ nat (bit_length d)"
    using bit_length_bounds [OF d] by auto
  have pn: "pow2 (bit_length n - 1) \<le> of_int n" "of_int n < pow2 (bit_length n)"
    using bn by (simp_all add: pow2_def flip: of_int_le_iff of_int_less_iff)
  have pd: "pow2 (bit_length d - 1) \<le> of_int d" "of_int d < pow2 (bit_length d)"
    using bd by (simp_all add: pow2_def flip: of_int_le_iff of_int_less_iff)
  have up: "a < pow2 (?k + 1)"
  proof -
    have "pow2 (?k + 1) * of_int d \<ge> pow2 (?k + 1) * pow2 (bit_length d - 1)"
      using pd(1) by (intro mult_left_mono) auto
    also have "pow2 (?k + 1) * pow2 (bit_length d - 1) = pow2 (bit_length n)"
      by (simp flip: pow2_add)
    finally show ?thesis using pn(2) d by (simp add: a divide_less_eq)
  qed
  have lo: "pow2 (?k - 1) \<le> a"
  proof -
    have "pow2 (?k - 1) * of_int d \<le> pow2 (?k - 1) * pow2 (bit_length d)"
      using pd(2) by (intro mult_left_mono) auto
    also have "\<dots> = pow2 (bit_length n - 1)" by (simp flip: pow2_add)
    finally show ?thesis using pn(1) d by (simp add: a le_divide_eq)
  qed
  show "pow2 (ilog2 a) \<le> a" and "a < pow2 (ilog2 a + 1)"
    using up lo by (auto simp: ilog2_def q Let_def)
qed

lemma ilog2_unique:
  assumes "0 < a" and "pow2 k \<le> a" and "a < pow2 (k + 1)"
  shows "ilog2 a = k"
proof -
  have less: "i < j + 1" if "pow2 i < pow2 (j + 1)" for i j
    using that pow2_mono [of "j + 1" i] by (cases "i < j + 1") auto
  from ilog2_bounds [OF assms(1)] assms(2,3)
  have "pow2 (ilog2 a) < pow2 (k + 1)" and "pow2 k < pow2 (ilog2 a + 1)" by linarith+
  then have "ilog2 a < k + 1" and "k < ilog2 a + 1" using less by blast+
  then show ?thesis by simp
qed

lemma ilog2_mono:
  assumes "0 < a" and "a \<le> b"
  shows "ilog2 a \<le> ilog2 b"
proof (rule ccontr)
  assume "\<not> ilog2 a \<le> ilog2 b"
  then have "pow2 (ilog2 b + 1) \<le> pow2 (ilog2 a)" by (intro pow2_mono) simp
  with ilog2_bounds [of a] ilog2_bounds [of b] assms show False by simp
qed

section \<open>Rounding to an integer, ties to even\<close>

definition rne :: "rat \<Rightarrow> int" where
  "rne x =
     (let f = \<lfloor>x\<rfloor>; d = x - of_int f
      in if d < 1 / 2 then f else if 1 / 2 < d then f + 1 else if even f then f else f + 1)"

lemma rne_int [simp]: "rne (of_int k) = k"
  by (simp add: rne_def)

lemma rne_error: "\<bar>of_int (rne x) - x\<bar> \<le> 1 / 2"
proof -
  have "of_int \<lfloor>x\<rfloor> \<le> x" "x < of_int \<lfloor>x\<rfloor> + 1" using floor_correct [of x] by simp_all
  then show ?thesis by (auto simp: rne_def Let_def abs_le_iff)
qed

lemma rne_mono:
  assumes "x \<le> y"
  shows "rne x \<le> rne y"
proof (cases "\<lfloor>x\<rfloor> = \<lfloor>y\<rfloor>")
  case True
  with assms show ?thesis by (auto simp: rne_def Let_def)
next
  case False
  with assms have "\<lfloor>x\<rfloor> + 1 \<le> \<lfloor>y\<rfloor>" using floor_mono [OF assms] by simp
  moreover have "rne x \<le> \<lfloor>x\<rfloor> + 1" and "\<lfloor>y\<rfloor> \<le> rne y" by (auto simp: rne_def Let_def)
  ultimately show ?thesis by simp
qed

lemma rne_minus: "rne (- x) = - rne x"
proof (cases "x \<in> \<int>")
  case True
  then obtain k where "x = of_int k" by (auto elim: Ints_cases)
  then have "- x = of_int (- k)" by simp
  then show ?thesis using \<open>x = of_int k\<close> rne_int by metis
next
  case False
  then have "\<lfloor>- x\<rfloor> = - \<lfloor>x\<rfloor> - 1"
    by (metis ceiling_altdef ceiling_def add.inverse_inverse diff_conv_add_uminus floor_of_int
        Ints_of_int minus_add_distrib of_int_floor_le)
  then show ?thesis by (auto simp: rne_def Let_def)
qed

lemma rne_le_int: "x \<le> of_int k \<Longrightarrow> rne x \<le> k"
  using rne_mono [of x "of_int k"] by simp

lemma rne_ge_int: "of_int k \<le> x \<Longrightarrow> k \<le> rne x"
  using rne_mono [of "of_int k" x] by simp

section \<open>Rounding to a format\<close>

datatype fformat = Binary32 | Binary64

fun precision :: "fformat \<Rightarrow> int" where
  "precision Binary32 = 24"
| "precision Binary64 = 53"

fun emax :: "fformat \<Rightarrow> int" where
  "emax Binary32 = 127"
| "emax Binary64 = 1023"

definition emin :: "fformat \<Rightarrow> int" where
  "emin f = 1 - emax f"

definition quantum_exp :: "fformat \<Rightarrow> rat \<Rightarrow> int" where
  "quantum_exp f a = max (ilog2 a) (emin f) - (precision f - 1)"

definition rnd :: "fformat \<Rightarrow> rat \<Rightarrow> rat" where
  "rnd f x =
     (if x = 0 then 0
      else let q = pow2 (quantum_exp f \<bar>x\<bar>) in of_int (rne (x / q)) * q)"

definition representable :: "fformat \<Rightarrow> rat \<Rightarrow> bool" where
  "representable f x \<longleftrightarrow>
     (\<exists>m e. x = of_int m * pow2 e \<and> \<bar>m\<bar> < 2 ^ nat (precision f) \<and> emin f - (precision f - 1) \<le> e)"

lemma precision_pos: "1 < precision f"
  by (cases f) simp_all

lemma rnd_0 [simp]: "rnd f 0 = 0"
  by (simp add: rnd_def)

lemma rnd_minus: "rnd f (- x) = - rnd f x"
  by (simp add: rnd_def Let_def rne_minus)

lemma rnd_error: "x \<noteq> 0 \<Longrightarrow> \<bar>rnd f x - x\<bar> \<le> pow2 (quantum_exp f \<bar>x\<bar>) / 2"
proof -
  assume x: "x \<noteq> 0"
  let ?q = "pow2 (quantum_exp f \<bar>x\<bar>)"
  have "rnd f x - x = (of_int (rne (x / ?q)) - x / ?q) * ?q"
    using x by (simp add: rnd_def Let_def left_diff_distrib)
  then have "\<bar>rnd f x - x\<bar> = \<bar>of_int (rne (x / ?q)) - x / ?q\<bar> * ?q"
    by (simp add: abs_mult)
  also have "\<dots> \<le> 1 / 2 * ?q" by (intro mult_right_mono rne_error) simp
  finally show ?thesis by simp
qed

lemma rnd_multiple:
  assumes "x = of_int k * pow2 (quantum_exp f \<bar>x\<bar>)"
  shows "rnd f x = x"
proof (cases "x = 0")
  case False
  then have "x / pow2 (quantum_exp f \<bar>x\<bar>) = of_int k" using assms by (simp add: field_simps)
  then show ?thesis using assms False by (simp add: rnd_def Let_def)
qed simp

lemma rnd_representable:
  assumes "representable f x"
  shows "rnd f x = x"
proof (cases "x = 0")
  case False
  obtain m e where x: "x = of_int m * pow2 e" and m: "\<bar>m\<bar> < 2 ^ nat (precision f)"
    and e: "emin f - (precision f - 1) \<le> e"
    using assms by (auto simp: representable_def)
  let ?qe = "quantum_exp f \<bar>x\<bar>"
  have "\<bar>x\<bar> < pow2 (precision f) * pow2 e"
  proof -
    have "of_int \<bar>m\<bar> < (of_int (2 ^ nat (precision f)) :: rat)" using m by (simp only: of_int_less_iff)
    then have "of_int \<bar>m\<bar> < pow2 (precision f)" using precision_pos [of f] by (simp add: pow2_def)
    then show ?thesis by (simp add: x abs_mult)
  qed
  then have "\<bar>x\<bar> < pow2 (precision f + e)" by (simp add: pow2_add)
  with ilog2_bounds(1) [of "\<bar>x\<bar>"] False have "pow2 (ilog2 \<bar>x\<bar>) < pow2 (precision f + e)" by simp
  then have "ilog2 \<bar>x\<bar> < precision f + e"
    using pow2_mono [of "precision f + e" "ilog2 \<bar>x\<bar>"] by (cases "ilog2 \<bar>x\<bar> < precision f + e") auto
  with e have le: "?qe \<le> e" by (simp add: quantum_exp_def)
  have "pow2 e = pow2 (e - ?qe) * pow2 ?qe" by (simp flip: pow2_add)
  also have "pow2 (e - ?qe) = of_int (2 ^ nat (e - ?qe))" using le by (simp add: pow2_def)
  finally have "x = of_int (m * 2 ^ nat (e - ?qe)) * pow2 ?qe" using x by simp
  then show ?thesis by (rule rnd_multiple)
qed simp

lemma representable_int:
  assumes "\<bar>k\<bar> < 2 ^ nat (precision f)"
  shows "representable f (of_int k)"
proof -
  have "emin f - (precision f - 1) \<le> 0" by (cases f) (simp_all add: emin_def)
  with assms show ?thesis
    unfolding representable_def by (intro exI [of _ k] exI [of _ 0]) simp
qed

lemma rnd_int: "\<bar>k\<bar> < 2 ^ nat (precision f) \<Longrightarrow> rnd f (of_int k) = of_int k"
  by (intro rnd_representable representable_int)

lemma rnd_nonneg: "0 \<le> x \<Longrightarrow> 0 \<le> rnd f x"
  using rne_ge_int [of 0 "x / pow2 (quantum_exp f \<bar>x\<bar>)"] by (simp add: rnd_def Let_def)

text \<open>A power of two that lies between two numbers of different binades separates their roundings.\<close>

lemma rnd_below_pow2:
  assumes "0 < x" and "x \<le> pow2 k" and "quantum_exp f x \<le> k"
  shows "rnd f x \<le> pow2 k"
proof -
  let ?q = "pow2 (quantum_exp f x)"
  from assms(2) have "x / ?q \<le> pow2 k / ?q" by (intro divide_right_mono) auto
  also have "\<dots> = of_int (2 ^ nat (k - quantum_exp f x))" by (rule pow2_diff_int [OF assms(3)])
  finally have "rne (x / ?q) \<le> 2 ^ nat (k - quantum_exp f x)" by (rule rne_le_int)
  then have "(of_int (rne (x / ?q)) :: rat) \<le> of_int (2 ^ nat (k - quantum_exp f x))"
    by (simp only: of_int_le_iff)
  then have "(of_int (rne (x / ?q)) :: rat) \<le> pow2 k / ?q"
    by (simp only: pow2_diff_int [OF assms(3)])
  then show ?thesis using assms(1) by (simp add: rnd_def Let_def pos_le_divide_eq)
qed

lemma rnd_above_pow2:
  assumes "pow2 k \<le> x" and "quantum_exp f x \<le> k"
  shows "pow2 k \<le> rnd f x"
proof -
  let ?q = "pow2 (quantum_exp f x)"
  have x: "0 < x" using assms(1) pow2_pos [of k] by linarith
  from assms(1) have "pow2 k / ?q \<le> x / ?q" by (intro divide_right_mono) auto
  then have "of_int (2 ^ nat (k - quantum_exp f x)) \<le> x / ?q"
    by (simp only: pow2_diff_int [OF assms(2)])
  then have "2 ^ nat (k - quantum_exp f x) \<le> rne (x / ?q)" by (rule rne_ge_int)
  then have "(of_int (2 ^ nat (k - quantum_exp f x)) :: rat) \<le> of_int (rne (x / ?q))"
    by (simp only: of_int_le_iff)
  then have "pow2 k / ?q \<le> of_int (rne (x / ?q))"
    by (simp only: pow2_diff_int [OF assms(2)])
  then show ?thesis using x by (simp add: rnd_def Let_def pos_divide_le_eq)
qed

lemma rnd_mono_pos:
  assumes "0 < x" and "x \<le> y"
  shows "rnd f x \<le> rnd f y"
proof (cases "quantum_exp f x = quantum_exp f y")
  case True
  have "rne (x / pow2 (quantum_exp f y)) \<le> rne (y / pow2 (quantum_exp f y))"
    using assms(2) by (intro rne_mono divide_right_mono) auto
  then show ?thesis using assms True by (simp add: rnd_def Let_def)
next
  case False
  have y: "0 < y" using assms by simp
  have le: "ilog2 x \<le> ilog2 y" by (rule ilog2_mono [OF assms])
  with False have k: "ilog2 x < ilog2 y" "emin f < ilog2 y"
    by (auto simp: quantum_exp_def max_def split: if_splits)
  have "x < pow2 (ilog2 x + 1)" by (rule ilog2_bounds(2) [OF assms(1)])
  also have "\<dots> \<le> pow2 (ilog2 y)" using k by (intro pow2_mono) simp
  finally have "rnd f x \<le> pow2 (ilog2 y)"
    using k precision_pos [of f] assms(1) by (intro rnd_below_pow2) (auto simp: quantum_exp_def)
  also have "pow2 (ilog2 y) \<le> rnd f y"
    using k precision_pos [of f] ilog2_bounds(1) [OF y]
    by (intro rnd_above_pow2) (auto simp: quantum_exp_def)
  finally show ?thesis .
qed

lemma rnd_mono: "x \<le> y \<Longrightarrow> rnd f x \<le> rnd f y"
proof (cases "0 < x")
  case True
  then show "x \<le> y \<Longrightarrow> rnd f x \<le> rnd f y" by (rule rnd_mono_pos)
next
  case False
  assume le: "x \<le> y"
  show ?thesis
  proof (cases "0 \<le> y")
    case True
    have "rnd f x \<le> 0" using rnd_nonneg [of "- x" f] False by (simp add: rnd_minus)
    also have "0 \<le> rnd f y" by (rule rnd_nonneg [OF True])
    finally show ?thesis .
  next
    case False
    then have "rnd f (- y) \<le> rnd f (- x)" using le by (intro rnd_mono_pos) auto
    then show ?thesis by (simp add: rnd_minus)
  qed
qed

text \<open>Rounding lands on a representable value, so rounding twice is rounding once.\<close>

lemma rnd_significand:
  assumes "x \<noteq> 0"
  shows "\<bar>rne (x / pow2 (quantum_exp f \<bar>x\<bar>))\<bar> \<le> 2 ^ nat (precision f)"
proof -
  let ?q = "pow2 (quantum_exp f \<bar>x\<bar>)"
  have "\<bar>x\<bar> < pow2 (ilog2 \<bar>x\<bar> + 1)" using assms by (intro ilog2_bounds(2)) simp
  also have "\<dots> \<le> pow2 (precision f + quantum_exp f \<bar>x\<bar>)"
    by (intro pow2_mono) (simp add: quantum_exp_def)
  finally have "\<bar>x\<bar> < pow2 (precision f) * ?q" by (simp add: pow2_add)
  then have "\<bar>x / ?q\<bar> \<le> pow2 (precision f)" by (simp add: divide_le_eq)
  then have "\<bar>x / ?q\<bar> \<le> of_int (2 ^ nat (precision f))"
    using precision_pos [of f] by (simp add: pow2_def)
  then have "x / ?q \<le> of_int (2 ^ nat (precision f))" and
    "of_int (- (2 ^ nat (precision f))) \<le> x / ?q"
    using abs_ge_self [of "x / ?q"] abs_ge_minus_self [of "x / ?q"]
    unfolding of_int_minus by linarith+
  then show ?thesis using rne_le_int rne_ge_int by (simp only: abs_le_iff) fastforce
qed

lemma representable_rnd: "representable f (rnd f x)"
proof (cases "x = 0")
  case True
  have "emin f - (precision f - 1) \<le> 0" by (cases f) (simp_all add: emin_def)
  with True show ?thesis
    unfolding representable_def by (intro exI [of _ 0] exI [of _ 0]) simp
next
  case False
  let ?qe = "quantum_exp f \<bar>x\<bar>" and ?m = "rne (x / pow2 (quantum_exp f \<bar>x\<bar>))"
  have r: "rnd f x = of_int ?m * pow2 ?qe" using False by (simp add: rnd_def Let_def)
  have qe: "emin f - (precision f - 1) \<le> ?qe" by (simp add: quantum_exp_def)
  show ?thesis
  proof (cases "\<bar>?m\<bar> < 2 ^ nat (precision f)")
    case True
    with r qe show ?thesis unfolding representable_def by blast
  next
    case False
    with rnd_significand [OF \<open>x \<noteq> 0\<close>, of f] have "\<bar>?m\<bar> = 2 ^ nat (precision f)" by simp
    then obtain s :: int where s: "?m = s * 2 ^ nat (precision f)" and "\<bar>s\<bar> = 1"
      by (cases "0 \<le> ?m") (auto intro: that [of 1] that [of "- 1"])
    have "(of_int (2 ^ nat (precision f)) :: rat) = pow2 (precision f)"
      using precision_pos [of f] by (simp add: pow2_def)
    then have "rnd f x = of_int s * pow2 (precision f + ?qe)" using r s by (simp add: pow2_add)
    moreover have "\<bar>s\<bar> < 2 ^ nat (precision f)" using \<open>\<bar>s\<bar> = 1\<close> by (cases f) simp_all
    moreover have "emin f - (precision f - 1) \<le> precision f + ?qe" using qe precision_pos [of f] by simp
    ultimately show ?thesis unfolding representable_def by blast
  qed
qed

lemma rnd_idem [simp]: "rnd f (rnd f x) = rnd f x"
  by (rule rnd_representable [OF representable_rnd])

text \<open>
  What clients rely on: a rounding is monotone and leaves the integers below a limit alone,
  so it never crosses an integer bound.
\<close>

locale rounding =
  fixes r :: "rat \<Rightarrow> rat" and lim :: int
  assumes mono: "x \<le> y \<Longrightarrow> r x \<le> r y"
    and exact: "\<bar>k\<bar> < lim \<Longrightarrow> r (of_int k) = of_int k"
begin

lemma le_int: "x \<le> of_int k \<Longrightarrow> \<bar>k\<bar> < lim \<Longrightarrow> r x \<le> of_int k"
  using mono [of x "of_int k"] exact [of k] by simp

lemma ge_int: "of_int k \<le> x \<Longrightarrow> \<bar>k\<bar> < lim \<Longrightarrow> of_int k \<le> r x"
  using mono [of "of_int k" x] exact [of k] by simp

lemma between: "of_int a \<le> x \<Longrightarrow> x \<le> of_int b \<Longrightarrow> \<bar>a\<bar> < lim \<Longrightarrow> \<bar>b\<bar> < lim \<Longrightarrow>
    of_int a \<le> r x \<and> r x \<le> of_int b"
  by (intro conjI ge_int le_int)

lemma scaled:
  assumes "0 \<le> x" and "x \<le> of_int b" and "0 < b" and "0 \<le> c" and "c < lim" and "1 < lim"
  shows "0 \<le> r (r (x / of_int b) * of_int c) \<and> r (r (x / of_int b) * of_int c) \<le> of_int c"
proof -
  have b: "0 \<le> x / of_int b" "x / of_int b \<le> 1"
    using assms(1,2,3) by (simp_all add: divide_le_eq)
  have "0 \<le> r (x / of_int b)" "r (x / of_int b) \<le> 1"
    using between [of 0 "x / of_int b" 1] b assms(6) by auto
  then have "0 \<le> r (x / of_int b) * of_int c" "r (x / of_int b) * of_int c \<le> of_int c"
    using assms(4) by (simp_all add: mult_left_le_one_le)
  then show ?thesis using between [of 0 _ c] assms(4,5,6) by auto
qed

end

interpretation b32: rounding "rnd Binary32" "2 ^ 24"
  by unfold_locales (auto intro: rnd_mono rnd_int [of _ Binary32, simplified])

interpretation b64: rounding "rnd Binary64" "2 ^ 53"
  by unfold_locales (auto intro: rnd_mono rnd_int [of _ Binary64, simplified])

section \<open>Floating-point values and operations\<close>

datatype fp = NaN | Inf bool | Zero bool | Num rat

fun fp_sign :: "fp \<Rightarrow> bool" where
  "fp_sign NaN = False"
| "fp_sign (Inf s) = s"
| "fp_sign (Zero s) = s"
| "fp_sign (Num q) = (q < 0)"

fun fp_val :: "fp \<Rightarrow> rat" where
  "fp_val (Num q) = q"
| "fp_val _ = 0"

fun fp_finite :: "fp \<Rightarrow> bool" where
  "fp_finite NaN = False"
| "fp_finite (Inf s) = False"
| "fp_finite _ = True"

text \<open>Rounding an exact result; \<open>s\<close> is the sign of an exact zero.\<close>

definition fp_round :: "fformat \<Rightarrow> bool \<Rightarrow> rat \<Rightarrow> fp" where
  "fp_round f s x =
     (let r = rnd f x
      in if r = 0 then Zero (if x = 0 then s else x < 0)
         else if pow2 (emax f + 1) \<le> \<bar>r\<bar> then Inf (r < 0)
         else Num r)"

fun fp_neg :: "fp \<Rightarrow> fp" where
  "fp_neg NaN = NaN"
| "fp_neg (Inf s) = Inf (\<not> s)"
| "fp_neg (Zero s) = Zero (\<not> s)"
| "fp_neg (Num q) = Num (- q)"

fun fp_add :: "fformat \<Rightarrow> fp \<Rightarrow> fp \<Rightarrow> fp" where
  "fp_add f NaN b = NaN"
| "fp_add f a NaN = NaN"
| "fp_add f (Inf s) (Inf t) = (if s = t then Inf s else NaN)"
| "fp_add f (Inf s) b = Inf s"
| "fp_add f a (Inf t) = Inf t"
| "fp_add f (Zero s) (Zero t) = Zero (s \<and> t)"
| "fp_add f a b = fp_round f False (fp_val a + fp_val b)"

definition fp_sub :: "fformat \<Rightarrow> fp \<Rightarrow> fp \<Rightarrow> fp" where
  "fp_sub f a b = fp_add f a (fp_neg b)"

definition fp_mul :: "fformat \<Rightarrow> fp \<Rightarrow> fp \<Rightarrow> fp" where
  "fp_mul f a b =
     (if a = NaN \<or> b = NaN then NaN
      else if fp_finite a \<and> fp_finite b
        then fp_round f (fp_sign a \<noteq> fp_sign b) (fp_val a * fp_val b)
      else if fp_finite a \<and> fp_val a = 0 \<or> fp_finite b \<and> fp_val b = 0 then NaN
      else Inf (fp_sign a \<noteq> fp_sign b))"

definition fp_div :: "fformat \<Rightarrow> fp \<Rightarrow> fp \<Rightarrow> fp" where
  "fp_div f a b =
     (if a = NaN \<or> b = NaN then NaN
      else if fp_finite a \<and> fp_finite b then
        (if fp_val b = 0 then (if fp_val a = 0 then NaN else Inf (fp_sign a \<noteq> fp_sign b))
         else fp_round f (fp_sign a \<noteq> fp_sign b) (fp_val a / fp_val b))
      else if fp_finite a then Zero (fp_sign a \<noteq> fp_sign b)
      else if fp_finite b then Inf (fp_sign a \<noteq> fp_sign b)
      else NaN)"

definition fp_lt :: "fp \<Rightarrow> fp \<Rightarrow> bool" where
  "fp_lt a b =
     (if a = NaN \<or> b = NaN then False
      else if fp_finite a \<and> fp_finite b then fp_val a < fp_val b
      else if fp_finite a then \<not> fp_sign b
      else if fp_finite b then fp_sign a
      else fp_sign a \<and> \<not> fp_sign b)"

definition fp_le :: "fp \<Rightarrow> fp \<Rightarrow> bool" where
  "fp_le a b = (a \<noteq> NaN \<and> b \<noteq> NaN \<and> \<not> fp_lt b a)"

section \<open>Conversions\<close>

text \<open>An integer, or a decimal literal of the source, to the nearest value of a format.\<close>

definition fp_of_int :: "fformat \<Rightarrow> int \<Rightarrow> fp" where
  "fp_of_int f k = fp_round f False (of_int k)"

definition fp_lit :: "fformat \<Rightarrow> rat \<Rightarrow> fp" where
  "fp_lit f q = fp_round f (q < 0) q"

text \<open>
  A floating value to an integer type with range \<open>lo .. hi\<close>: truncation towards zero;
  undefined behaviour outside the range.
\<close>

definition trunc_rat :: "rat \<Rightarrow> int" where
  "trunc_rat q = (if 0 \<le> q then \<lfloor>q\<rfloor> else - \<lfloor>- q\<rfloor>)"

definition fp_to_int :: "int \<Rightarrow> int \<Rightarrow> fp \<Rightarrow> fault + int" where
  "fp_to_int lo hi v =
     (if fp_finite v \<and> lo \<le> trunc_rat (fp_val v) \<and> trunc_rat (fp_val v) \<le> hi
      then Inr (trunc_rat (fp_val v)) else Inl BadConversion)"

text \<open>A binary32 value is a binary64 value: the promotion is the identity.\<close>

definition fp_ok :: "fformat \<Rightarrow> fp \<Rightarrow> bool" where
  "fp_ok f v \<longleftrightarrow>
     (case v of Num q \<Rightarrow> q \<noteq> 0 \<and> rnd f q = q \<and> \<bar>q\<bar> < pow2 (emax f + 1) | _ \<Rightarrow> True)"

lemma fp_ok_simps [simp]:
  "fp_ok f NaN" "fp_ok f (Inf s)" "fp_ok f (Zero s)"
  by (simp_all add: fp_ok_def)

lemma fp_round_ok: "fp_ok f (fp_round f s x)"
  by (auto simp: fp_round_def Let_def fp_ok_def)

lemma fp_neg_ok: "fp_ok f v \<Longrightarrow> fp_ok f (fp_neg v)"
  by (cases v) (auto simp: fp_ok_def rnd_minus)

lemma fp_add_ok: "fp_ok f (fp_add f a b)"
  by (cases a; cases b) (auto intro: fp_round_ok)

lemma fp_mul_ok: "fp_ok f (fp_mul f a b)"
  by (auto simp: fp_mul_def intro: fp_round_ok)

lemma fp_div_ok: "fp_ok f (fp_div f a b)"
  by (auto simp: fp_div_def intro: fp_round_ok)

text \<open>Values of finite operations when nothing overflows.\<close>

lemma fp_round_finite:
  assumes "\<bar>rnd f x\<bar> < pow2 (emax f + 1)"
  shows "fp_finite (fp_round f s x)" and "fp_val (fp_round f s x) = rnd f x"
  using assms by (auto simp: fp_round_def Let_def)

lemma fp_round_num: "fp_ok f (Num q) \<Longrightarrow> fp_round f s q = Num q"
  by (auto simp: fp_round_def fp_ok_def Let_def)

section \<open>The binary64 encoding\<close>

text \<open>
  The bits of a \<open>double\<close>, for code that looks at them through a union. NaN has many
  encodings; the quiet one stands for all.
\<close>

definition fp_bits64 :: "fp \<Rightarrow> u64" where
  "fp_bits64 v =
     (case v of
        NaN \<Rightarrow> 0x7FF8000000000000
      | Inf s \<Rightarrow> (if s then 0xFFF0000000000000 else 0x7FF0000000000000)
      | Zero s \<Rightarrow> (if s then 0x8000000000000000 else 0)
      | Num q \<Rightarrow>
          (let a = \<bar>q\<bar>; e = ilog2 a; sgn = (if q < 0 then 2 ^ 63 else 0)
           in if emin Binary64 \<le> e
              then word_of_int (sgn + (e + 1023) * 2 ^ 52 + (\<lfloor>a * pow2 (52 - e)\<rfloor> - 2 ^ 52))
              else word_of_int (sgn + \<lfloor>a * pow2 1074\<rfloor>)))"

definition fp_of_bits64 :: "u64 \<Rightarrow> fp" where
  "fp_of_bits64 w =
     (let n = uint w; s = (2 ^ 63 \<le> n); e = n div 2 ^ 52 mod 2 ^ 11; m = n mod 2 ^ 52
      in if e = 2047 then (if m = 0 then Inf s else NaN)
         else if e = 0 then
           (if m = 0 then Zero s else Num ((if s then - 1 else 1) * of_int m * pow2 (- 1074)))
         else Num ((if s then - 1 else 1) * of_int (2 ^ 52 + m) * pow2 (e - 1075)))"

end
