(* ===== verification/Printf.thy ===== *)
theory Printf
  imports C_Strings Floats
begin

text \<open>
  The SDK's printf (\<open>pico_printf/printf.c\<close>, configured with its defaults: buffers of 32
  characters, float and exponential formats, \<open>long long\<close> and \<open>ptrdiff_t\<close> supported), which
  is what \<open>snprintf\<close> and \<open>printf\<close> of the firmware are linked to. An output function takes
  the character, the destination, the index and the limit, as in the source; \<open>emit\<close> is a run
  of calls \<open>out(c, buffer, idx++, maxlen)\<close>. Counters are integers; where \<open>unsigned\<close>
  wrap-around can happen it is written out. The first part holds the definitions in the
  order of the source, the second what the conversions produce.
\<close>

unbundle bit_operations_syntax

section \<open>Configuration and flags\<close>

definition PICO_PRINTF_NTOA_BUFFER_SIZE :: int where
  "PICO_PRINTF_NTOA_BUFFER_SIZE = 32"

definition PICO_PRINTF_FTOA_BUFFER_SIZE :: int where
  "PICO_PRINTF_FTOA_BUFFER_SIZE = 32"

definition PICO_PRINTF_DEFAULT_FLOAT_PRECISION :: int where
  "PICO_PRINTF_DEFAULT_FLOAT_PRECISION = 6"

definition PICO_PRINTF_MAX_FLOAT :: fp where
  "PICO_PRINTF_MAX_FLOAT = Num 1000000000"

definition DBL_MAX :: fp where
  "DBL_MAX = Num ((2 - pow2 (- 52)) * pow2 1023)"

abbreviation FLAGS_ZEROPAD :: u32 where "FLAGS_ZEROPAD \<equiv> 0x001"
abbreviation FLAGS_LEFT :: u32 where "FLAGS_LEFT \<equiv> 0x002"
abbreviation FLAGS_PLUS :: u32 where "FLAGS_PLUS \<equiv> 0x004"
abbreviation FLAGS_SPACE :: u32 where "FLAGS_SPACE \<equiv> 0x008"
abbreviation FLAGS_HASH :: u32 where "FLAGS_HASH \<equiv> 0x010"
abbreviation FLAGS_UPPERCASE :: u32 where "FLAGS_UPPERCASE \<equiv> 0x020"
abbreviation FLAGS_CHAR :: u32 where "FLAGS_CHAR \<equiv> 0x040"
abbreviation FLAGS_SHORT :: u32 where "FLAGS_SHORT \<equiv> 0x080"
abbreviation FLAGS_LONG :: u32 where "FLAGS_LONG \<equiv> 0x100"
abbreviation FLAGS_LONG_LONG :: u32 where "FLAGS_LONG_LONG \<equiv> 0x200"
abbreviation FLAGS_PRECISION :: u32 where "FLAGS_PRECISION \<equiv> 0x400"
abbreviation FLAGS_ADAPT_EXP :: u32 where "FLAGS_ADAPT_EXP \<equiv> 0x800"

abbreviation flag_set :: "u32 \<Rightarrow> u32 \<Rightarrow> bool" where
  "flag_set flags f \<equiv> flags AND f \<noteq> 0"

section \<open>Output functions\<close>

type_synonym 's out_fct = "char \<Rightarrow> 's \<Rightarrow> int \<Rightarrow> int \<Rightarrow> fault + 's"

definition out_buffer :: "cell list out_fct" where
  "out_buffer character buffer idx maxlen =
     (if idx < maxlen
      then (if nat idx < length buffer then Inr (buffer[nat idx := Some character])
            else Inl BufferOverflow)
      else Inr buffer)"

definition out_null :: "'s out_fct" where
  "out_null character buffer idx maxlen = Inr buffer"

text \<open>\<open>_out_char\<close> writes to the console, \<open>_out_fct\<close> calls the wrapped function.\<close>

definition out_char :: "char list out_fct" where
  "out_char character console idx maxlen =
     (if character \<noteq> NUL then Inr (console @ [character]) else Inr console)"

definition out_fct :: "(char \<Rightarrow> 's \<Rightarrow> 's) \<Rightarrow> 's out_fct" where
  "out_fct fct character arg idx maxlen =
     (if character \<noteq> NUL then Inr (fct character arg) else Inr arg)"

fun emit :: "'s out_fct \<Rightarrow> int \<Rightarrow> char list \<Rightarrow> int \<Rightarrow> 's \<Rightarrow> fault + (int \<times> 's)" where
  "emit out maxlen [] idx s = Inr (idx, s)"
| "emit out maxlen (c # cs) idx s =
     rbind (out c s idx maxlen) (\<lambda>s'. emit out maxlen cs (idx + 1) s')"

fun strnlen_s :: "cell list \<Rightarrow> int \<Rightarrow> fault + int" where
  "strnlen_s [] maxsize = Inl OutOfBounds"
| "strnlen_s (None # cs) maxsize = Inl Uninitialised"
| "strnlen_s (Some c # cs) maxsize =
     (if c = NUL then Inr 0 else if maxsize = 0 then Inr 0
      else rbind (strnlen_s cs (maxsize - 1)) (\<lambda>n. Inr (n + 1)))"

definition is_digit :: "char \<Rightarrow> bool" where
  "is_digit ch = (let n = of_char ch :: int in 48 \<le> n \<and> n \<le> 57)"

fun atoi :: "int \<Rightarrow> char list \<Rightarrow> int \<times> char list" where
  "atoi i [] = (i, [])"
| "atoi i (c # cs) =
     (if is_digit c then atoi ((i * 10 + (of_char c - 48)) mod 2 ^ 32) cs else (i, c # cs))"

text \<open>The text in \<open>buf\<close> is stored last character first; its length is \<open>len\<close> of the source.\<close>

definition out_rev ::
    "'s out_fct \<Rightarrow> int \<Rightarrow> char list \<Rightarrow> int \<Rightarrow> u32 \<Rightarrow> int \<Rightarrow> 's \<Rightarrow> fault + (int \<times> 's)" where
  "out_rev out maxlen buf width flags idx s =
     rbind (if \<not> flag_set flags FLAGS_LEFT \<and> \<not> flag_set flags FLAGS_ZEROPAD
            then emit out maxlen (replicate (nat (width - int (length buf))) CHR '' '') idx s
            else Inr (idx, s))
       (\<lambda>(i1, s1). rbind (emit out maxlen (rev buf) i1 s1)
         (\<lambda>(i2, s2).
           if flag_set flags FLAGS_LEFT
           then emit out maxlen (replicate (nat (width - (i2 - idx))) CHR '' '') i2 s2
           else Inr (i2, s2)))"

section \<open>Integers\<close>

text \<open>\<open>while (len < n && len < size) buf[len++] = '0'\<close>\<close>

definition pad_zeros :: "int \<Rightarrow> int \<Rightarrow> char list \<Rightarrow> char list" where
  "pad_zeros n cap buf = buf @ replicate (nat (min n cap - int (length buf))) CHR ''0''"

definition push_if :: "int \<Rightarrow> char \<Rightarrow> char list \<Rightarrow> char list" where
  "push_if cap c buf = (if int (length buf) < cap then buf @ [c] else buf)"

definition push_sign :: "int \<Rightarrow> bool \<Rightarrow> u32 \<Rightarrow> char list \<Rightarrow> char list" where
  "push_sign cap negative flags buf =
     (if negative then push_if cap CHR ''-'' buf
      else if flag_set flags FLAGS_PLUS then push_if cap CHR ''+'' buf
      else if flag_set flags FLAGS_SPACE then push_if cap CHR '' '' buf
      else buf)"

definition ntoa_width :: "bool \<Rightarrow> int \<Rightarrow> u32 \<Rightarrow> int" where
  "ntoa_width negative width flags =
     (if \<not> flag_set flags FLAGS_LEFT \<and> width \<noteq> 0 \<and> flag_set flags FLAGS_ZEROPAD
         \<and> (negative \<or> flag_set flags (FLAGS_PLUS OR FLAGS_SPACE))
      then width - 1 else width)"

definition ntoa_hash :: "int \<Rightarrow> int \<Rightarrow> int \<Rightarrow> u32 \<Rightarrow> char list \<Rightarrow> char list" where
  "ntoa_hash base prec width flags buf =
     (let len = int (length buf); cap = PICO_PRINTF_NTOA_BUFFER_SIZE;
          buf1 = (if \<not> flag_set flags FLAGS_PRECISION \<and> len \<noteq> 0 \<and> (len = prec \<or> len = width)
                  then (if len - 1 \<noteq> 0 \<and> base = 16 then butlast (butlast buf) else butlast buf)
                  else buf);
          buf2 = (if base = 16 \<and> \<not> flag_set flags FLAGS_UPPERCASE then push_if cap CHR ''x'' buf1
                  else if base = 16 \<and> flag_set flags FLAGS_UPPERCASE then push_if cap CHR ''X'' buf1
                  else if base = 2 then push_if cap CHR ''b'' buf1
                  else buf1)
      in push_if cap CHR ''0'' buf2)"

definition ntoa_format ::
    "'s out_fct \<Rightarrow> int \<Rightarrow> char list \<Rightarrow> bool \<Rightarrow> int \<Rightarrow> int \<Rightarrow> int \<Rightarrow> u32 \<Rightarrow> int \<Rightarrow> 's \<Rightarrow>
     fault + (int \<times> 's)" where
  "ntoa_format out maxlen buf negative base prec width flags idx s =
     (let cap = PICO_PRINTF_NTOA_BUFFER_SIZE;
          width1 = ntoa_width negative width flags;
          buf1 = (if flag_set flags FLAGS_LEFT then buf
                  else (let b = pad_zeros prec cap buf
                        in if flag_set flags FLAGS_ZEROPAD then pad_zeros width1 cap b else b));
          buf2 = (if flag_set flags FLAGS_HASH then ntoa_hash base prec width1 flags buf1 else buf1)
      in out_rev out maxlen (push_sign cap negative flags buf2) width1 flags idx s)"

definition digit_char :: "bool \<Rightarrow> int \<Rightarrow> char" where
  "digit_char upper d =
     (if d < 10 then char_of (48 + d) else char_of ((if upper then 65 else 97) + d - 10))"

text \<open>The \<open>do \<dots> while\<close> loop that stores the digits, least significant first.\<close>

function ntoa_digits :: "int \<Rightarrow> bool \<Rightarrow> int \<Rightarrow> char list \<Rightarrow> char list" where
  "ntoa_digits base upper value buf =
     (let buf' = buf @ [digit_char upper (value mod base)]; value' = value div base
      in if value' \<noteq> 0 \<and> int (length buf') < 32
         then ntoa_digits base upper value' buf' else buf')"
  by pat_completeness auto
termination
  by (relation "measure (\<lambda>(base, upper, value, buf). 32 - length buf)") auto

declare ntoa_digits.simps [simp del]

definition ntoa_buf :: "int \<Rightarrow> int \<Rightarrow> u32 \<Rightarrow> char list" where
  "ntoa_buf value base flags =
     (if \<not> flag_set flags FLAGS_PRECISION \<or> value \<noteq> 0
      then ntoa_digits base (flag_set flags FLAGS_UPPERCASE) value [] else [])"

definition ntoa_long ::
    "'s out_fct \<Rightarrow> int \<Rightarrow> u32 \<Rightarrow> bool \<Rightarrow> int \<Rightarrow> int \<Rightarrow> int \<Rightarrow> u32 \<Rightarrow> int \<Rightarrow> 's \<Rightarrow>
     fault + (int \<times> 's)" where
  "ntoa_long out maxlen value negative base prec width flags idx s =
     (let flags1 = (if value = 0 then flags AND NOT FLAGS_HASH else flags)
      in ntoa_format out maxlen (ntoa_buf (uint value) base flags1) negative base prec width flags1 idx s)"

definition ntoa_long_long ::
    "'s out_fct \<Rightarrow> int \<Rightarrow> u64 \<Rightarrow> bool \<Rightarrow> int \<Rightarrow> int \<Rightarrow> int \<Rightarrow> u32 \<Rightarrow> int \<Rightarrow> 's \<Rightarrow>
     fault + (int \<times> 's)" where
  "ntoa_long_long out maxlen value negative base prec width flags idx s =
     (let flags1 = (if value = 0 then flags AND NOT FLAGS_HASH else flags)
      in ntoa_format out maxlen (ntoa_buf (uint value) base flags1) negative base prec width flags1 idx s)"

section \<open>Floating point, fixed notation\<close>

abbreviation d_lit :: "rat \<Rightarrow> fp" where "d_lit \<equiv> fp_lit Binary64"
abbreviation d_int :: "int \<Rightarrow> fp" where "d_int \<equiv> fp_of_int Binary64"
abbreviation d_add :: "fp \<Rightarrow> fp \<Rightarrow> fp" where "d_add \<equiv> fp_add Binary64"
abbreviation d_sub :: "fp \<Rightarrow> fp \<Rightarrow> fp" where "d_sub \<equiv> fp_sub Binary64"
abbreviation d_mul :: "fp \<Rightarrow> fp \<Rightarrow> fp" where "d_mul \<equiv> fp_mul Binary64"
abbreviation d_div :: "fp \<Rightarrow> fp \<Rightarrow> fp" where "d_div \<equiv> fp_div Binary64"

definition to_int32 :: "fp \<Rightarrow> fault + int" where
  "to_int32 = fp_to_int (- (2 ^ 31)) (2 ^ 31 - 1)"

definition to_uint32 :: "fp \<Rightarrow> fault + int" where
  "to_uint32 = fp_to_int 0 (2 ^ 32 - 1)"

text \<open>The table \<open>pow10[]\<close> has ten entries; the precision indexes it.\<close>

definition pow10_table :: "int \<Rightarrow> fault + fp" where
  "pow10_table prec =
     (if 0 \<le> prec \<and> prec \<le> 9 then Inr (Num (of_int (10 ^ nat prec))) else Inl OutOfBounds)"

text \<open>\<open>while ((len < size) && (prec > 9U)) { buf[len++] = '0'; prec--; }\<close>\<close>

definition ftoa_limit_prec :: "int \<Rightarrow> char list \<times> int" where
  "ftoa_limit_prec prec =
     (let k = max 0 (min PICO_PRINTF_FTOA_BUFFER_SIZE (prec - 9))
      in (replicate (nat k) CHR ''0'', prec - k))"

text \<open>The whole and fractional parts of \<open>value\<close>, rounded at \<open>prec\<close> decimals.\<close>

definition ftoa_split :: "fp \<Rightarrow> int \<Rightarrow> fault + (int \<times> int)" where
  "ftoa_split v prec =
     rbind (to_int32 v) (\<lambda>whole.
     rbind (pow10_table prec) (\<lambda>p10.
       let tmp = d_mul (d_sub v (d_int whole)) p10
       in rbind (to_uint32 tmp) (\<lambda>fr.
         let diff = d_sub tmp (d_int fr)
         in Inr (if fp_lt (d_lit (1 / 2)) diff
                 then (let frac1 = (fr + 1) mod 2 ^ 32
                       in if fp_le p10 (d_int frac1) then (whole + 1, 0) else (whole, frac1))
                 else if fp_lt diff (d_lit (1 / 2)) then (whole, fr)
                 else if fr = 0 \<or> odd fr then (whole, (fr + 1) mod 2 ^ 32)
                 else (whole, fr)))))"

text \<open>The loop over the fraction's digits with its unsigned digit counter.\<close>

function ftoa_frac_digits :: "int \<Rightarrow> int \<Rightarrow> char list \<Rightarrow> int \<times> char list" where
  "ftoa_frac_digits count fr buf =
     (if int (length buf) < 32
      then (let count1 = (count - 1) mod 2 ^ 32; buf1 = buf @ [char_of (48 + fr mod 10)]
            in if fr div 10 = 0 then (count1, buf1) else ftoa_frac_digits count1 (fr div 10) buf1)
      else (count, buf))"
  by pat_completeness auto
termination
  by (relation "measure (\<lambda>(count, fr, buf). 32 - length buf)") auto

declare ftoa_frac_digits.simps [simp del]

function ftoa_whole_digits :: "int \<Rightarrow> char list \<Rightarrow> char list" where
  "ftoa_whole_digits whole buf =
     (if int (length buf) < 32
      then (let buf1 = buf @ [char_of (48 + whole mod 10)]
            in if whole div 10 = 0 then buf1 else ftoa_whole_digits (whole div 10) buf1)
      else buf)"
  by pat_completeness auto
termination
  by (relation "measure (\<lambda>(whole, buf). 32 - length buf)") auto

declare ftoa_whole_digits.simps [simp del]

definition ftoa_frac :: "int \<Rightarrow> int \<Rightarrow> char list \<Rightarrow> char list" where
  "ftoa_frac prec fr buf =
     (let cap = PICO_PRINTF_FTOA_BUFFER_SIZE;
          (count, buf1) = ftoa_frac_digits prec fr buf;
          buf2 = buf1 @ replicate (nat (min (cap - int (length buf1)) count)) CHR ''0''
      in push_if cap CHR ''.'' buf2)"

text \<open>Halfway case without decimals: round the whole part to even.\<close>

definition ftoa_round_whole :: "fp \<Rightarrow> int \<Rightarrow> int" where
  "ftoa_round_whole v whole =
     (let diff = d_sub v (d_int whole); half = d_lit (1 / 2)
      in if \<not> (fp_lt diff half \<or> fp_lt half diff) \<and> odd whole then whole + 1 else whole)"

text \<open>The characters of a finite value whose sign has been taken off, last one first.\<close>

definition ftoa_buf :: "fp \<Rightarrow> int \<Rightarrow> bool \<Rightarrow> int \<Rightarrow> u32 \<Rightarrow> fault + char list" where
  "ftoa_buf v prec negative width flags =
     (let (buf0, prec1) = ftoa_limit_prec prec; cap = PICO_PRINTF_FTOA_BUFFER_SIZE
      in rbind (ftoa_split v prec1) (\<lambda>(whole, fr).
        let (whole1, buf1) = (if prec1 = 0 then (ftoa_round_whole v whole, buf0)
                              else (whole, ftoa_frac prec1 fr buf0));
            buf2 = ftoa_whole_digits whole1 buf1;
            buf3 = (if \<not> flag_set flags FLAGS_LEFT \<and> flag_set flags FLAGS_ZEROPAD
                    then pad_zeros (ntoa_width negative width flags) cap buf2 else buf2)
        in Inr (push_sign cap negative flags buf3)))"

type_synonym 's float_conv =
  "'s out_fct \<Rightarrow> int \<Rightarrow> fp \<Rightarrow> int \<Rightarrow> int \<Rightarrow> u32 \<Rightarrow> int \<Rightarrow> 's \<Rightarrow> fault + (int \<times> 's)"

definition ftoa_with :: "'s float_conv \<Rightarrow> 's float_conv" where
  "ftoa_with etoa_rec out maxlen v prec width flags idx s =
     (if v = NaN then out_rev out maxlen ''nan'' width flags idx s
      else if fp_lt v (fp_neg DBL_MAX) then out_rev out maxlen ''fni-'' width flags idx s
      else if fp_lt DBL_MAX v then
        out_rev out maxlen (if flag_set flags FLAGS_PLUS then ''fni+'' else ''fni'') width flags idx s
      else if fp_lt PICO_PRINTF_MAX_FLOAT v \<or> fp_lt v (fp_neg PICO_PRINTF_MAX_FLOAT) then
        etoa_rec out maxlen v prec width flags idx s
      else
        (let negative = fp_lt v (Zero False);
             v1 = (if negative then d_sub (Zero False) v else v);
             prec1 = (if flag_set flags FLAGS_PRECISION then prec
                      else PICO_PRINTF_DEFAULT_FLOAT_PRECISION)
         in rbind (ftoa_buf v1 prec1 negative width flags) (\<lambda>buf.
              out_rev out maxlen buf (ntoa_width negative width flags) flags idx s)))"

section \<open>Floating point, exponential notation\<close>

text \<open>
  The decimal exponent and the power of ten, from the bits of the value: an approximate
  logarithm, then a power of two times a continued fraction, then one correction step.
\<close>

definition etoa_log10 :: "u64 \<Rightarrow> fault + int" where
  "etoa_log10 U =
     (let exp2 = uint (drop_bit 52 U AND 0x07FF) - 1023;
          F = fp_of_bits64 ((U AND (2 ^ 52 - 1)) OR push_bit 52 1023)
      in to_int32 (d_add (d_add (d_lit (1760912590558 / 10 ^ 13))
                               (d_mul (d_int exp2) (d_lit (301029995663981 / 10 ^ 15))))
                        (d_mul (d_sub F (d_lit (3 / 2))) (d_lit (289529654602168 / 10 ^ 15)))))"

definition etoa_exp10 :: "int \<Rightarrow> fault + fp" where
  "etoa_exp10 expval =
     rbind (to_int32 (d_add (d_mul (d_int expval) (d_lit (3321928094887362 / 10 ^ 15))) (d_lit (1 / 2))))
       (\<lambda>exp2.
         let z = d_sub (d_mul (d_int expval) (d_lit (2302585092994046 / 10 ^ 15)))
                       (d_mul (d_int exp2) (d_lit (6931471805599453 / 10 ^ 16)));
             z2 = d_mul z z;
             F = fp_of_bits64 (push_bit 52 (word_of_int (exp2 + 1023)));
             q = d_add (d_int 6) (d_div z2 (d_add (d_int 10) (d_div z2 (d_int 14))));
             cf = d_add (d_int 1) (d_div (d_mul (d_int 2) z) (d_add (d_sub (d_int 2) z) (d_div z2 q)))
         in Inr (d_mul F cf))"

definition etoa_exponent :: "fp \<Rightarrow> fault + (int \<times> fp)" where
  "etoa_exponent v =
     (if fp_bits64 v \<noteq> 0 then
        rbind (etoa_log10 (fp_bits64 v)) (\<lambda>expval.
        rbind (etoa_exp10 expval) (\<lambda>F.
          Inr (if fp_lt v F then (expval - 1, d_div F (d_int 10)) else (expval, F))))
      else Inr (0, Zero False))"

text \<open>\<open>(int) prec\<close> and \<open>(unsigned) x\<close>\<close>

definition int_of_unsigned :: "int \<Rightarrow> int" where
  "int_of_unsigned n = (if n < 2 ^ 31 then n else n - 2 ^ 32)"

text \<open>\<open>%g\<close>: precision, flags, width of the exponent and exponent after adaptation.\<close>

definition etoa_adapt ::
    "fp \<Rightarrow> fp \<Rightarrow> int \<Rightarrow> int \<Rightarrow> int \<Rightarrow> u32 \<Rightarrow> int \<times> u32 \<times> int \<times> int" where
  "etoa_adapt v F expval minwidth prec flags =
     (if flag_set flags FLAGS_ADAPT_EXP then
        (if fp_bits64 F = 0 \<or> (fp_le (d_lit (1 / 10 ^ 4)) v \<and> fp_lt v (d_lit (10 ^ 6))) then
           ((if expval < int_of_unsigned prec
             then (int_of_unsigned prec - expval - 1) mod 2 ^ 32 else 0),
            flags OR FLAGS_PRECISION, 0, 0)
         else ((if 0 < prec \<and> flag_set flags FLAGS_PRECISION then prec - 1 else prec),
               flags, minwidth, expval))
      else (prec, flags, minwidth, expval))"

definition etoa_with :: "'s float_conv \<Rightarrow> 's float_conv" where
  "etoa_with ftoa_rec out maxlen v prec width flags idx s =
     (if v = NaN \<or> fp_lt DBL_MAX v \<or> fp_lt v (fp_neg DBL_MAX) then
        ftoa_rec out maxlen v prec width flags idx s
      else
        (let negative = fp_lt v (Zero False);
             v1 = (if negative then fp_neg v else v);
             prec1 = (if flag_set flags FLAGS_PRECISION then prec
                      else PICO_PRINTF_DEFAULT_FLOAT_PRECISION)
         in rbind (etoa_exponent v1) (\<lambda>(expval0, F).
           let minwidth0 = (if expval0 < 100 \<and> - 100 < expval0 then 4 else 5);
               (prec2, flags1, minwidth, expval) =
                 etoa_adapt v1 F expval0 minwidth0 prec1 flags;
               fwidth = (if flag_set flags1 FLAGS_LEFT \<and> minwidth \<noteq> 0 then 0
                         else if minwidth < width then width - minwidth else 0);
               v2 = (if expval \<noteq> 0 then d_div v1 F else v1)
           in rbind (ftoa_rec out maxlen (if negative then fp_neg v2 else v2) prec2 fwidth
                       (flags1 AND NOT FLAGS_ADAPT_EXP) idx s) (\<lambda>(i1, s1).
             if minwidth = 0 then Inr (i1, s1)
             else rbind (emit out maxlen
                     [if flag_set flags1 FLAGS_UPPERCASE then CHR ''E'' else CHR ''e''] i1 s1)
               (\<lambda>(i2, s2). rbind (ntoa_long out maxlen (word_of_int \<bar>expval\<bar>) (expval < 0) 10 0
                     (minwidth - 1) (FLAGS_ZEROPAD OR FLAGS_PLUS) i2 s2)
               (\<lambda>(i3, s3).
                 if flag_set flags1 FLAGS_LEFT
                 then emit out maxlen (replicate (nat (width - (i3 - idx))) CHR '' '') i3 s3
                 else Inr (i3, s3)))))))"

text \<open>
  \<open>_ftoa\<close> and \<open>_etoa\<close> call each other: \<open>_ftoa\<close> for a value beyond 1e9, \<open>_etoa\<close> for the
  scaled value, which is small. The recursion is unrolled that far; a third round would be
  the fault \<open>Exhausted\<close>.
\<close>

definition float_stop :: "'s float_conv" where
  "float_stop out maxlen v prec width flags idx s = Inl Exhausted"

definition etoa :: "'s float_conv" where
  "etoa = etoa_with (ftoa_with float_stop)"

definition ftoa :: "'s float_conv" where
  "ftoa = ftoa_with etoa"

section \<open>Arguments\<close>

text \<open>
  A variable argument, after the default promotions: \<open>int\<close> and \<open>long\<close> and pointers are one
  32-bit word on the target.
\<close>

datatype va_arg = VInt u32 | VLongLong u64 | VDouble fp | VStr "cell list"

fun va_int :: "va_arg list \<Rightarrow> fault + (u32 \<times> va_arg list)" where
  "va_int (VInt w # va) = Inr (w, va)"
| "va_int _ = Inl BadVarArg"

fun va_long_long :: "va_arg list \<Rightarrow> fault + (u64 \<times> va_arg list)" where
  "va_long_long (VLongLong w # va) = Inr (w, va)"
| "va_long_long _ = Inl BadVarArg"

fun va_double :: "va_arg list \<Rightarrow> fault + (fp \<times> va_arg list)" where
  "va_double (VDouble d # va) = Inr (d, va)"
| "va_double _ = Inl BadVarArg"

fun va_str :: "va_arg list \<Rightarrow> fault + (cell list \<times> va_arg list)" where
  "va_str (VStr p # va) = Inr (p, va)"
| "va_str _ = Inl BadVarArg"

section \<open>Format specifiers\<close>

text \<open>The format is the rest of the string literal; its end is the terminating null.\<close>

fun parse_flags :: "u32 \<Rightarrow> char list \<Rightarrow> u32 \<times> char list" where
  "parse_flags flags [] = (flags, [])"
| "parse_flags flags (c # cs) =
     (if c = CHR ''0'' then parse_flags (flags OR FLAGS_ZEROPAD) cs
      else if c = CHR ''-'' then parse_flags (flags OR FLAGS_LEFT) cs
      else if c = CHR ''+'' then parse_flags (flags OR FLAGS_PLUS) cs
      else if c = CHR '' '' then parse_flags (flags OR FLAGS_SPACE) cs
      else if c = CHR ''#'' then parse_flags (flags OR FLAGS_HASH) cs
      else (flags, c # cs))"

definition parse_width ::
    "u32 \<Rightarrow> char list \<Rightarrow> va_arg list \<Rightarrow> fault + (u32 \<times> int \<times> char list \<times> va_arg list)" where
  "parse_width flags fmt va =
     (case fmt of
        [] \<Rightarrow> Inr (flags, 0, fmt, va)
      | c # cs \<Rightarrow>
          if is_digit c then (let (w, r) = atoi 0 fmt in Inr (flags, w, r, va))
          else if c = CHR ''*'' then
            rbind (va_int va) (\<lambda>(w, va').
              if w = 0x80000000 then Inl SignedOverflow
              else if sint w < 0 then Inr (flags OR FLAGS_LEFT, - sint w, cs, va')
              else Inr (flags, sint w, cs, va'))
          else Inr (flags, 0, fmt, va))"

definition parse_precision ::
    "u32 \<Rightarrow> char list \<Rightarrow> va_arg list \<Rightarrow> fault + (u32 \<times> int \<times> char list \<times> va_arg list)" where
  "parse_precision flags fmt va =
     (case fmt of
        [] \<Rightarrow> Inr (flags, 0, fmt, va)
      | c # cs \<Rightarrow>
          if c = CHR ''.'' then
            (let flags1 = flags OR FLAGS_PRECISION
             in case cs of
                  [] \<Rightarrow> Inr (flags1, 0, cs, va)
                | d # ds \<Rightarrow>
                    if is_digit d then (let (p, r) = atoi 0 cs in Inr (flags1, p, r, va))
                    else if d = CHR ''*'' then
                      rbind (va_int va) (\<lambda>(w, va').
                        Inr (flags1, (if 0 < sint w then sint w else 0), ds, va'))
                    else Inr (flags1, 0, cs, va))
          else Inr (flags, 0, fmt, va))"

definition parse_length :: "u32 \<Rightarrow> char list \<Rightarrow> u32 \<times> char list" where
  "parse_length flags fmt =
     (case fmt of
        [] \<Rightarrow> (flags, fmt)
      | c # cs \<Rightarrow>
          if c = CHR ''l'' then
            (case cs of
               [] \<Rightarrow> (flags OR FLAGS_LONG, cs)
             | d # ds \<Rightarrow> if d = CHR ''l'' then (flags OR FLAGS_LONG OR FLAGS_LONG_LONG, ds)
                         else (flags OR FLAGS_LONG, cs))
          else if c = CHR ''h'' then
            (case cs of
               [] \<Rightarrow> (flags OR FLAGS_SHORT, cs)
             | d # ds \<Rightarrow> if d = CHR ''h'' then (flags OR FLAGS_SHORT OR FLAGS_CHAR, ds)
                         else (flags OR FLAGS_SHORT, cs))
          else if c = CHR ''t'' \<or> c = CHR ''z'' then (flags OR FLAGS_LONG, cs)
          else if c = CHR ''j'' then (flags OR FLAGS_LONG_LONG, cs)
          else (flags, fmt))"

section \<open>Conversions\<close>

definition int_base :: "char \<Rightarrow> int" where
  "int_base c =
     (if c = CHR ''x'' \<or> c = CHR ''X'' then 16
      else if c = CHR ''o'' then 8
      else if c = CHR ''b'' then 2
      else 10)"

definition int_flags :: "char \<Rightarrow> u32 \<Rightarrow> u32" where
  "int_flags c flags =
     (let f1 = (if int_base c = 10 then flags AND NOT FLAGS_HASH else flags);
          f2 = (if c = CHR ''X'' then f1 OR FLAGS_UPPERCASE else f1);
          f3 = (if c \<noteq> CHR ''i'' \<and> c \<noteq> CHR ''d'' then f2 AND NOT (FLAGS_PLUS OR FLAGS_SPACE) else f2)
      in if flag_set f3 FLAGS_PRECISION then f3 AND NOT FLAGS_ZEROPAD else f3)"

text \<open>
  \<open>value > 0 ? value : 0 - value\<close> in a signed type overflows for the least value. A \<open>char\<close>
  argument is zero-extended (plain \<open>char\<close> is unsigned on the target), a \<open>short\<close> is
  sign-extended.
\<close>

definition signed_arg :: "u32 \<Rightarrow> u32 \<Rightarrow> u32" where
  "signed_arg flags w =
     (if flag_set flags FLAGS_LONG then w
      else if flag_set flags FLAGS_CHAR then w AND 0xFF
      else if flag_set flags FLAGS_SHORT then word_of_int (signed_take_bit 15 (uint w))
      else w)"

definition unsigned_arg :: "u32 \<Rightarrow> u32 \<Rightarrow> u32" where
  "unsigned_arg flags w =
     (if flag_set flags FLAGS_LONG then w
      else if flag_set flags FLAGS_CHAR then w AND 0xFF
      else if flag_set flags FLAGS_SHORT then w AND 0xFFFF
      else w)"

definition conv_int ::
    "'s out_fct \<Rightarrow> int \<Rightarrow> char \<Rightarrow> u32 \<Rightarrow> int \<Rightarrow> int \<Rightarrow> va_arg list \<Rightarrow> int \<Rightarrow> 's \<Rightarrow>
     fault + (int \<times> 's \<times> va_arg list)" where
  "conv_int out maxlen c flags0 width prec va idx s =
     (let base = int_base c; flags = int_flags c flags0;
          ret = (\<lambda>va' r. rbind r (\<lambda>(i, s'). Inr (i, s', va')))
      in if c = CHR ''i'' \<or> c = CHR ''d'' then
           (if flag_set flags FLAGS_LONG_LONG then
              rbind (va_long_long va) (\<lambda>(w, va').
                if w = 0x8000000000000000 then Inl SignedOverflow
                else ret va' (ntoa_long_long out maxlen (if sint w < 0 then - w else w) (sint w < 0)
                                base prec width flags idx s))
            else
              rbind (va_int va) (\<lambda>(w0, va').
                let w = signed_arg flags w0
                in if w = 0x80000000 then Inl SignedOverflow
                   else ret va' (ntoa_long out maxlen (if sint w < 0 then - w else w) (sint w < 0)
                                   base prec width flags idx s)))
         else
           (if flag_set flags FLAGS_LONG_LONG then
              rbind (va_long_long va) (\<lambda>(w, va').
                ret va' (ntoa_long_long out maxlen w False base prec width flags idx s))
            else
              rbind (va_int va) (\<lambda>(w, va').
                ret va' (ntoa_long out maxlen (unsigned_arg flags w) False base prec width flags idx s))))"

definition conv_float ::
    "'s out_fct \<Rightarrow> int \<Rightarrow> char \<Rightarrow> u32 \<Rightarrow> int \<Rightarrow> int \<Rightarrow> va_arg list \<Rightarrow> int \<Rightarrow> 's \<Rightarrow>
     fault + (int \<times> 's \<times> va_arg list)" where
  "conv_float out maxlen c flags0 width prec va idx s =
     rbind (va_double va) (\<lambda>(d, va').
       let flags1 = (if c = CHR ''g'' \<or> c = CHR ''G'' then flags0 OR FLAGS_ADAPT_EXP else flags0);
           flags = (if c = CHR ''F'' \<or> c = CHR ''E'' \<or> c = CHR ''G''
                    then flags1 OR FLAGS_UPPERCASE else flags1)
       in rbind (if c = CHR ''f'' \<or> c = CHR ''F'' then ftoa out maxlen d prec width flags idx s
                 else etoa out maxlen d prec width flags idx s)
            (\<lambda>(i, s'). Inr (i, s', va')))"

text \<open>\<open>while (l++ < width) out(' ', buffer, idx++, maxlen)\<close>, before or after the text.\<close>

definition pad_text :: "int \<Rightarrow> int \<Rightarrow> char list" where
  "pad_text l width = replicate (nat (width - l)) CHR '' ''"

definition conv_char ::
    "'s out_fct \<Rightarrow> int \<Rightarrow> u32 \<Rightarrow> int \<Rightarrow> va_arg list \<Rightarrow> int \<Rightarrow> 's \<Rightarrow>
     fault + (int \<times> 's \<times> va_arg list)" where
  "conv_char out maxlen flags width va idx s =
     (let pad = pad_text 1 width; left = flag_set flags FLAGS_LEFT
      in rbind (if left then Inr (idx, s) else emit out maxlen pad idx s) (\<lambda>(i1, s1).
         rbind (va_int va) (\<lambda>(w, va').
         rbind (emit out maxlen [char_of (uint w mod 256)] i1 s1) (\<lambda>(i2, s2).
         rbind (if left then emit out maxlen pad i2 s2 else Inr (i2, s2)) (\<lambda>(i3, s3).
           Inr (i3, s3, va'))))))"

text \<open>\<open>while ((*p != 0) && (!(flags & FLAGS_PRECISION) || precision--)) out(*(p++), \<dots>)\<close>\<close>

fun emit_string ::
    "'s out_fct \<Rightarrow> int \<Rightarrow> bool \<Rightarrow> int \<Rightarrow> cell list \<Rightarrow> int \<Rightarrow> 's \<Rightarrow> fault + (int \<times> 's)" where
  "emit_string out maxlen limited prec [] idx s = Inl OutOfBounds"
| "emit_string out maxlen limited prec (None # p) idx s = Inl Uninitialised"
| "emit_string out maxlen limited prec (Some c # p) idx s =
     (if c = NUL \<or> (limited \<and> prec = 0) then Inr (idx, s)
      else rbind (out c s idx maxlen) (\<lambda>s'. emit_string out maxlen limited (prec - 1) p (idx + 1) s'))"

definition conv_string ::
    "'s out_fct \<Rightarrow> int \<Rightarrow> u32 \<Rightarrow> int \<Rightarrow> int \<Rightarrow> va_arg list \<Rightarrow> int \<Rightarrow> 's \<Rightarrow>
     fault + (int \<times> 's \<times> va_arg list)" where
  "conv_string out maxlen flags width prec va idx s =
     rbind (va_str va) (\<lambda>(p, va').
     rbind (strnlen_s p (if prec \<noteq> 0 then prec else 2 ^ 32 - 1)) (\<lambda>l0.
       let limited = flag_set flags FLAGS_PRECISION; left = flag_set flags FLAGS_LEFT;
           l = (if limited then min l0 prec else l0); pad = pad_text l width
       in rbind (if left then Inr (idx, s) else emit out maxlen pad idx s) (\<lambda>(i1, s1).
          rbind (emit_string out maxlen limited prec p i1 s1) (\<lambda>(i2, s2).
          rbind (if left then emit out maxlen pad i2 s2 else Inr (i2, s2)) (\<lambda>(i3, s3). Inr (i3, s3, va'))))))"

definition conv_pointer ::
    "'s out_fct \<Rightarrow> int \<Rightarrow> u32 \<Rightarrow> int \<Rightarrow> va_arg list \<Rightarrow> int \<Rightarrow> 's \<Rightarrow>
     fault + (int \<times> 's \<times> va_arg list)" where
  "conv_pointer out maxlen flags prec va idx s =
     rbind (va_int va) (\<lambda>(w, va').
       rbind (ntoa_long out maxlen w False 16 prec 8 (flags OR FLAGS_ZEROPAD OR FLAGS_UPPERCASE) idx s)
         (\<lambda>(i, s'). Inr (i, s', va')))"

definition convert ::
    "'s out_fct \<Rightarrow> int \<Rightarrow> char \<Rightarrow> u32 \<Rightarrow> int \<Rightarrow> int \<Rightarrow> va_arg list \<Rightarrow> int \<Rightarrow> 's \<Rightarrow>
     fault + (int \<times> 's \<times> va_arg list)" where
  "convert out maxlen c flags width prec va idx s =
     (if c \<in> set ''diuxXob'' then conv_int out maxlen c flags width prec va idx s
      else if c \<in> set ''fFeEgG'' then conv_float out maxlen c flags width prec va idx s
      else if c = CHR ''c'' then conv_char out maxlen flags width va idx s
      else if c = CHR ''s'' then conv_string out maxlen flags width prec va idx s
      else if c = CHR ''p'' then conv_pointer out maxlen flags prec va idx s
      else rbind (emit out maxlen [c] idx s) (\<lambda>(i, s'). Inr (i, s', va)))"

section \<open>The formatter\<close>

definition parse_spec ::
    "char list \<Rightarrow> va_arg list \<Rightarrow> fault + (u32 \<times> int \<times> int \<times> char list \<times> va_arg list)" where
  "parse_spec fmt va =
     (let (flags, f1) = parse_flags 0 fmt
      in rbind (parse_width flags f1 va) (\<lambda>(flags, width, f2, va).
         rbind (parse_precision flags f2 va) (\<lambda>(flags, prec, f3, va).
           let (flags, f4) = parse_length flags f3
           in Inr (flags, width, prec, f4, va))))"

lemma parse_flags_length: "length (snd (parse_flags flags fmt)) \<le> length fmt"
  by (induction flags fmt rule: parse_flags.induct) auto

lemma atoi_length: "length (snd (atoi i fmt)) \<le> length fmt"
  by (induction i fmt rule: atoi.induct) auto

lemma parse_width_length:
  "parse_width flags fmt va = Inr (flags', w, fmt', va') \<Longrightarrow> length fmt' \<le> length fmt"
  using atoi_length [of 0 fmt]
  by (auto simp: parse_width_def rbind_eq_Inr_iff split: list.splits if_splits prod.splits)

lemma parse_precision_length:
  "parse_precision flags fmt va = Inr (flags', w, fmt', va') \<Longrightarrow> length fmt' \<le> length fmt"
  using atoi_length [of 0 "tl fmt"]
  by (auto simp: parse_precision_def rbind_eq_Inr_iff Let_def split: list.splits if_splits prod.splits)

lemma parse_length_length: "length (snd (parse_length flags fmt)) \<le> length fmt"
  by (auto simp: parse_length_def split: list.splits if_splits)

lemma parse_spec_length:
  assumes "parse_spec fmt va = Inr (flags, w, p, fmt', va')"
  shows "length fmt' \<le> length fmt"
proof -
  obtain fl f1 where 1: "parse_flags 0 fmt = (fl, f1)" by (cases "parse_flags 0 fmt")
  with assms obtain fl2 f2 w2 va2 fl3 f3 p3 va3 where
    2: "parse_width fl f1 va = Inr (fl2, w2, f2, va2)" and
    3: "parse_precision fl2 f2 va2 = Inr (fl3, p3, f3, va3)" and
    4: "fmt' = snd (parse_length fl3 f3)"
    by (fastforce simp: parse_spec_def rbind_eq_Inr_iff case_prod_beta)
  show ?thesis
    using parse_flags_length [of 0 fmt] parse_width_length [OF 2] parse_precision_length [OF 3]
      parse_length_length [of fl3 f3] 1 4 by simp
qed

function vsn_loop ::
    "'s out_fct \<Rightarrow> int \<Rightarrow> char list \<Rightarrow> va_arg list \<Rightarrow> int \<Rightarrow> 's \<Rightarrow> fault + (int \<times> 's)" where
  "vsn_loop out maxlen [] va idx s = Inr (idx, s)"
| "vsn_loop out maxlen (c # fmt) va idx s =
     (if c \<noteq> CHR ''%'' then
        rbind (out c s idx maxlen) (\<lambda>s'. vsn_loop out maxlen fmt va (idx + 1) s')
      else
        rbind (parse_spec fmt va) (\<lambda>(flags, width, prec, fmt', va').
          case fmt' of
            [] \<Rightarrow> Inl OutOfBounds
          | d # fmt'' \<Rightarrow>
              rbind (convert out maxlen d flags width prec va' idx s) (\<lambda>(idx', s', va'').
                vsn_loop out maxlen fmt'' va'' idx' s')))"
  by pat_completeness auto
termination
  by (relation "measure (\<lambda>(out, maxlen, fmt, va, idx, s). length fmt)")
    (auto dest!: parse_spec_length)

declare vsn_loop.simps(2) [simp del]

definition vsnprintf :: "'s out_fct \<Rightarrow> int \<Rightarrow> char list \<Rightarrow> va_arg list \<Rightarrow> 's \<Rightarrow> fault + (int \<times> 's)" where
  "vsnprintf out maxlen fmt va s =
     rbind (vsn_loop out maxlen fmt va 0 s) (\<lambda>(idx, s1).
     rbind (out NUL s1 (if idx < maxlen then idx else (maxlen - 1) mod 2 ^ 32) maxlen) (\<lambda>s2.
       Inr (idx, s2)))"

text \<open>\<open>snprintf\<close> into a buffer; with a null buffer only the length is computed.\<close>

definition snprintf :: "cell list \<Rightarrow> int \<Rightarrow> char list \<Rightarrow> va_arg list \<Rightarrow> fault + cell list" where
  "snprintf buffer count fmt va =
     rbind (vsnprintf out_buffer count fmt va buffer) (\<lambda>(n, b). Inr b)"

definition snprintf_null :: "int \<Rightarrow> char list \<Rightarrow> va_arg list \<Rightarrow> fault + int" where
  "snprintf_null count fmt va = rbind (vsnprintf out_null count fmt va ()) (\<lambda>(n, u). Inr n)"

definition sprintf :: "cell list \<Rightarrow> char list \<Rightarrow> va_arg list \<Rightarrow> fault + (int \<times> cell list)" where
  "sprintf buffer fmt va = vsnprintf out_buffer (2 ^ 32 - 1) fmt va buffer"

definition vfctprintf ::
    "(char \<Rightarrow> 's \<Rightarrow> 's) \<Rightarrow> 's \<Rightarrow> char list \<Rightarrow> va_arg list \<Rightarrow> fault + (int \<times> 's)" where
  "vfctprintf fct arg fmt va = vsnprintf (out_fct fct) (2 ^ 32 - 1) fmt va arg"

text \<open>
  The console printf: \<open>lazy\<close> tells whether the formatter has been linked in and registered;
  without it the format itself is put on the console.
\<close>

definition weak_raw_vprintf ::
    "bool \<Rightarrow> char list \<Rightarrow> va_arg list \<Rightarrow> char list \<Rightarrow> fault + (bool \<times> char list)" where
  "weak_raw_vprintf lazy fmt va console =
     (if lazy then
        rbind (vsnprintf out_char (2 ^ 32 - 1) fmt va console) (\<lambda>(n, console'). Inr (True, console'))
      else Inr (False, console @ fmt @ [CHR 0x0A]))"

end
