(* ===== verification/BSPacket.thy ===== *)
theory BSPacket
  imports Printf
begin

text \<open>
  The packet base class (\<open>BSPacket\<close> of \<open>scbs_comms.cc\<close> and \<open>scbs_comms.hh\<close>): a frame is
  \<open>$\<close>, a five-letter header, comma-separated contents, \<open>*\<close> and the XOR checksum of what is
  between the two tokens, in hexadecimal. The six packet classes extend the record
  \<open>bs_packet\<close>. Console messages are not part of the model.
\<close>

unbundle bit_operations_syntax

section \<open>Types and constants\<close>

datatype packet_type = DIS | MRD | MWR | SRD | SWR | SRS | UNKNOWN

definition kMaxPacketLen :: nat where "kMaxPacketLen = 200"
definition kMaxPacketFieldLen :: nat where "kMaxPacketFieldLen = 20"
definition kPacketHeaderLen :: nat where "kPacketHeaderLen = 6"
definition kPacketTailLen :: nat where "kPacketTailLen = 3"

definition kMaxPacketContentsLen :: nat where
  "kMaxPacketContentsLen = kMaxPacketLen - kPacketHeaderLen - kPacketTailLen"

definition kNumPacketTypes :: nat where "kNumPacketTypes = 6"

lemmas packet_consts =
  kMaxPacketLen_def kMaxPacketFieldLen_def kPacketHeaderLen_def kPacketTailLen_def
  kMaxPacketContentsLen_def kNumPacketTypes_def

definition packet_header_strs :: "char list list" where
  "packet_header_strs =
     [''BSDIS'', ''BSMRD'', ''BSMWR'', ''BSSRD'', ''BSSWR'', ''BSSRS'', ''?????'']"

definition packet_types :: "packet_type list" where
  "packet_types = [DIS, MRD, MWR, SRD, SWR, SRS, UNKNOWN]"

fun type_index :: "packet_type \<Rightarrow> nat" where
  "type_index DIS = 0"
| "type_index MRD = 1"
| "type_index MWR = 2"
| "type_index SRD = 3"
| "type_index SWR = 4"
| "type_index SRS = 5"
| "type_index UNKNOWN = 6"

record bs_packet =
  packet_str :: "cell list"
  is_valid :: bool
  packet_type :: packet_type

definition BSPacket_default :: bs_packet where
  "BSPacket_default =
     \<lparr>packet_str = zeroed kMaxPacketLen, is_valid = False, packet_type = UNKNOWN\<rparr>"

section \<open>Operations\<close>

definition IsValid :: "'a bs_packet_scheme \<Rightarrow> bool" where
  "IsValid p = is_valid p"

definition GetPacketType :: "'a bs_packet_scheme \<Rightarrow> packet_type" where
  "GetPacketType p = packet_type p"

definition CalculateChecksum :: "'a bs_packet_scheme \<Rightarrow> fault + u8" where
  "CalculateChecksum p =
     rbind (c_string (packet_str p)) (\<lambda>s.
       case strchr CHR ''$'' s of
         None \<Rightarrow> Inr 0
       | Some start_token \<Rightarrow>
           (case strchr CHR ''*'' s of
              None \<Rightarrow> Inr 0
            | Some end_token \<Rightarrow>
                Inr (foldl (\<lambda>checksum i. checksum XOR of_char (s ! i)) 0
                       [start_token + 1 ..< min end_token kMaxPacketLen])))"

text \<open>The loop over the known headers; the type is the index of the first that matches.\<close>

definition find_header :: "char list \<Rightarrow> packet_type option" where
  "find_header h =
     map_option (\<lambda>i. packet_types ! i)
       (List.find (\<lambda>i. h = packet_header_strs ! i) [0 ..< kNumPacketTypes])"

definition BSPacket_FromString ::
    "cell list \<Rightarrow> 'a bs_packet_scheme \<Rightarrow> fault + 'a bs_packet_scheme" where
  "BSPacket_FromString from_buf p =
     rbind (strncpy (packet_str p) from_buf (int kMaxPacketLen)) (\<lambda>ps.
       let p1 = p\<lparr>is_valid := False, packet_str := ps\<rparr>
       in rbind (c_string ps) (\<lambda>s.
         case strchr CHR ''*'' s of
           None \<Rightarrow> Inr p1
         | Some e \<Rightarrow>
             (let transmitted = word_of_int (strtol (drop (e + 1) s) 16)
              in rbind (CalculateChecksum p1) (\<lambda>expected.
                if expected \<noteq> transmitted then Inr p1
                else
                  rbind (strncpy (uninit kMaxPacketLen) from_buf (int kMaxPacketFieldLen)) (\<lambda>tb.
                  rbind (strtok_at CHR '','' tb 0) (\<lambda>(header, tb', save).
                    case header of
                      None \<Rightarrow> Inl NullPointer
                    | Some h \<Rightarrow>
                        rbind (c_string (drop (h + 1) tb')) (\<lambda>header_str.
                          case find_header header_str of
                            None \<Rightarrow> Inr p1
                          | Some t \<Rightarrow> Inr (p1\<lparr>packet_type := t, is_valid := True\<rparr>))))))))"

definition BSPacket_of_string :: "cell list \<Rightarrow> fault + bs_packet" where
  "BSPacket_of_string from_buf =
     BSPacket_FromString from_buf
       \<lparr>packet_str = uninit kMaxPacketLen, is_valid = False, packet_type = UNKNOWN\<rparr>"

definition BSPacket_ToString ::
    "cell list \<Rightarrow> 'a bs_packet_scheme \<Rightarrow> fault + (u16 \<times> cell list)" where
  "BSPacket_ToString to_buf p =
     rbind (strncpy to_buf (packet_str p) (int kMaxPacketLen)) (\<lambda>to_buf'.
     rbind (strlen (packet_str p)) (\<lambda>n. Inr (of_nat n, to_buf')))"

text \<open>The copy to the caller's buffer, skipped when the pointer is null.\<close>

definition copy_out :: "cell list option \<Rightarrow> cell list \<Rightarrow> fault + cell list option" where
  "copy_out to_buf ps =
     (case to_buf of
        None \<Rightarrow> Inr None
      | Some t \<Rightarrow> rbind (strncpy t ps (int kMaxPacketLen)) (\<lambda>t'. Inr (Some t')))"

definition PacketizeContents ::
    "cell list \<Rightarrow> cell list option \<Rightarrow> 'a bs_packet_scheme \<Rightarrow>
     fault + (u16 \<times> 'a bs_packet_scheme \<times> cell list option)" where
  "PacketizeContents contents to_buf p =
     rbind (snprintf (packet_str p) (int (kMaxPacketLen - kPacketTailLen)) ''$%s,%s*''
              [VStr (lit (packet_header_strs ! type_index (packet_type p))), VStr contents])
       (\<lambda>ps.
     rbind (CalculateChecksum (p\<lparr>packet_str := ps\<rparr>)) (\<lambda>checksum.
     rbind (snprintf (uninit kPacketTailLen) (int kPacketTailLen) ''%02X'' [VInt (ucast checksum)])
       (\<lambda>checksum_str.
     rbind (strcat ps checksum_str) (\<lambda>ps'.
     rbind (copy_out to_buf ps') (\<lambda>to_buf'.
     rbind (strlen ps') (\<lambda>n. Inr (of_nat n, p\<lparr>packet_str := ps'\<rparr>, to_buf')))))))"

end
