(* ===== verification/Packets.thy ===== *)
theory Packets
  imports BSPacket
begin

text \<open>
  The six packet classes of \<open>scbs_comms.cc\<close>: cell discover (DIS), multiple write (MWR),
  multiple read (MRD), single write (SWR), single read (SRD) and single response (SRS). Each
  has its fields, a constructor from values, a parser \<open>FromString\<close> and a formatter
  \<open>ToString\<close>; the constructors from a string start from an object whose character arrays
  are indeterminate.
\<close>

section \<open>Shared steps\<close>

text \<open>
  A value field: \<open>strncpy(value, value_str, MIN(end_token_ptr - value_str, kMaxPacketFieldLen-1))\<close>
  with \<open>end_token_ptr = strchr(value_str, '*')\<close>; the difference with a null pointer is undefined.
\<close>

definition copy_value :: "cell list \<Rightarrow> cell list \<Rightarrow> nat option \<Rightarrow> fault + cell list" where
  "copy_value value tb value_str =
     (case value_str of
        None \<Rightarrow> Inl NullPointer
      | Some v \<Rightarrow>
          rbind (c_string (drop v tb)) (\<lambda>vs.
            case strchr CHR ''*'' vs of
              None \<Rightarrow> Inl NullPointer
            | Some i \<Rightarrow> strncpy value (drop v tb) (min (int i) (int kMaxPacketFieldLen - 1))))"

text \<open>A value given to a constructor: cleared, then at most 19 characters, so terminated.\<close>

definition set_value :: "cell list \<Rightarrow> fault + cell list" where
  "set_value value_in = strncpy (zeroed kMaxPacketFieldLen) value_in (int kMaxPacketFieldLen - 1)"

section \<open>DISPacket\<close>

record dis_packet = bs_packet +
  last_cell_id :: u16

definition DISPacket_ToString ::
    "cell list option \<Rightarrow> dis_packet \<Rightarrow> fault + (u16 \<times> dis_packet \<times> cell list option)" where
  "DISPacket_ToString to_buf p =
     rbind (snprintf (uninit kMaxPacketContentsLen) (int kMaxPacketContentsLen) ''%d''
              [VInt (ucast (last_cell_id p))]) (\<lambda>contents.
       PacketizeContents contents to_buf p)"

definition DISPacket_of_values :: "u16 \<Rightarrow> fault + dis_packet" where
  "DISPacket_of_values last_cell_id_in =
     rbind (DISPacket_ToString None
              \<lparr>packet_str = zeroed kMaxPacketLen, is_valid = False, packet_type = DIS,
               last_cell_id = last_cell_id_in\<rparr>) (\<lambda>(n, p, b). Inr p)"

definition DISPacket_FromString :: "cell list \<Rightarrow> dis_packet \<Rightarrow> fault + dis_packet" where
  "DISPacket_FromString from_buf p =
     rbind (BSPacket_FromString from_buf p) (\<lambda>p1.
       if \<not> is_valid p1 then Inr p1
       else
         rbind (strncpy (uninit kMaxPacketLen) from_buf (int kMaxPacketLen)) (\<lambda>tb.
         rbind (strtok_at CHR '','' tb 0) (\<lambda>(header, tb, save).
         rbind (deref_string tb header) (\<lambda>header_str.
           if header_str \<noteq> ''$BSDIS'' then Inr p1
           else
             rbind (strtok_next CHR '','' tb save) (\<lambda>(id, tb, save).
             rbind (deref_string tb id) (\<lambda>last_cell_id_str.
               Inr (p1\<lparr>last_cell_id := ucast (strtoul last_cell_id_str 10), is_valid := True\<rparr>)))))))"

definition DISPacket_of_string :: "cell list \<Rightarrow> fault + dis_packet" where
  "DISPacket_of_string from_buf =
     DISPacket_FromString from_buf
       \<lparr>packet_str = zeroed kMaxPacketLen, is_valid = False, packet_type = DIS, last_cell_id = 0\<rparr>"

section \<open>MWRPacket\<close>

record mwr_packet = bs_packet +
  mwr_reg_addr :: u32
  mwr_value :: "cell list"

definition MWRPacket_ToString ::
    "cell list option \<Rightarrow> mwr_packet \<Rightarrow> fault + (u16 \<times> mwr_packet \<times> cell list option)" where
  "MWRPacket_ToString to_buf p =
     rbind (snprintf (uninit kMaxPacketContentsLen) (int kMaxPacketContentsLen) ''%X,%s''
              [VInt (mwr_reg_addr p), VStr (mwr_value p)]) (\<lambda>contents.
       PacketizeContents contents to_buf p)"

definition MWRPacket_of_values :: "u32 \<Rightarrow> cell list \<Rightarrow> fault + mwr_packet" where
  "MWRPacket_of_values reg_addr_in value_in =
     rbind (set_value value_in) (\<lambda>v.
     rbind (MWRPacket_ToString None
              \<lparr>packet_str = zeroed kMaxPacketLen, is_valid = False, packet_type = MWR,
               mwr_reg_addr = reg_addr_in, mwr_value = v\<rparr>) (\<lambda>(n, p, b). Inr p))"

definition MWRPacket_FromString :: "cell list \<Rightarrow> mwr_packet \<Rightarrow> fault + mwr_packet" where
  "MWRPacket_FromString from_buf p0 =
     (let p = p0\<lparr>mwr_value := zeroed kMaxPacketFieldLen\<rparr>
      in rbind (BSPacket_FromString from_buf p) (\<lambda>p1.
       if \<not> is_valid p1 then Inr p1
       else
         rbind (strncpy (uninit kMaxPacketLen) from_buf (int kMaxPacketLen)) (\<lambda>tb.
         rbind (strtok_at CHR '','' tb 0) (\<lambda>(header, tb, save).
         rbind (deref_string tb header) (\<lambda>header_str.
           if header_str \<noteq> ''$BSMWR'' then Inr p1
           else
             rbind (strtok_next CHR '','' tb save) (\<lambda>(addr, tb, save).
             rbind (deref_string tb addr) (\<lambda>reg_addr_str.
             let p2 = p1\<lparr>mwr_reg_addr := strtoul reg_addr_str 16\<rparr>
             in rbind (strtok_next CHR '','' tb save) (\<lambda>(value_str, tb, save).
                rbind (copy_value (mwr_value p2) tb value_str) (\<lambda>v.
                  Inr (p2\<lparr>mwr_value := v, is_valid := True\<rparr>)))))))))) "

definition MWRPacket_of_string :: "cell list \<Rightarrow> fault + mwr_packet" where
  "MWRPacket_of_string from_buf =
     MWRPacket_FromString from_buf
       \<lparr>packet_str = zeroed kMaxPacketLen, is_valid = False, packet_type = MWR,
        mwr_reg_addr = 0, mwr_value = uninit kMaxPacketFieldLen\<rparr>"

section \<open>MRDPacket\<close>

definition kMaxNumValues :: nat where "kMaxNumValues = 20"

record mrd_packet = bs_packet +
  mrd_reg_addr :: u32
  mrd_values :: "cell list list"
  mrd_num_values :: u16

text \<open>
  The loop that appends the values; it stops early when the contents buffer might not hold
  another field.
\<close>

fun mrd_append_values :: "cell list list \<Rightarrow> nat list \<Rightarrow> cell list \<Rightarrow> fault + cell list" where
  "mrd_append_values values [] contents = Inr contents"
| "mrd_append_values values (i # is) contents =
     rbind (strlen contents) (\<lambda>n.
       if kMaxPacketContentsLen - kMaxPacketFieldLen - 1 \<le> n then Inr contents
       else if length values \<le> i then Inl OutOfBounds
       else
         rbind (snprintf (uninit (kMaxPacketFieldLen + 1)) (int (kMaxPacketFieldLen + 1)) '',%s''
                  [VStr (values ! i)]) (\<lambda>value_str.
         rbind (strncat contents value_str (kMaxPacketFieldLen + 1)) (\<lambda>contents'.
           mrd_append_values values is contents')))"

definition MRDPacket_ToString ::
    "cell list option \<Rightarrow> mrd_packet \<Rightarrow> fault + (u16 \<times> mrd_packet \<times> cell list option)" where
  "MRDPacket_ToString to_buf p =
     rbind (snprintf (uninit kMaxPacketContentsLen) (int kMaxPacketContentsLen) ''%X''
              [VInt (mrd_reg_addr p)]) (\<lambda>contents0.
     rbind (mrd_append_values (mrd_values p) [0 ..< unat (mrd_num_values p)] contents0) (\<lambda>contents.
       PacketizeContents contents to_buf p))"

fun mrd_set_values :: "cell list list \<Rightarrow> nat list \<Rightarrow> cell list list \<Rightarrow> fault + cell list list" where
  "mrd_set_values values_in [] values = Inr values"
| "mrd_set_values values_in (i # is) values =
     (if length values \<le> i then Inl BufferOverflow
      else if length values_in \<le> i then Inl OutOfBounds
      else rbind (set_value (values_in ! i)) (\<lambda>v.
             mrd_set_values values_in is (values[i := v])))"

definition MRDPacket_of_values ::
    "u32 \<Rightarrow> cell list list \<Rightarrow> u16 \<Rightarrow> fault + mrd_packet" where
  "MRDPacket_of_values reg_addr_in values_in num_values_in =
     rbind (mrd_set_values values_in [0 ..< unat num_values_in]
              (replicate kMaxNumValues (uninit kMaxPacketFieldLen))) (\<lambda>vs.
     rbind (MRDPacket_ToString None
              \<lparr>packet_str = zeroed kMaxPacketLen, is_valid = False, packet_type = MRD,
               mrd_reg_addr = reg_addr_in, mrd_values = vs, mrd_num_values = num_values_in\<rparr>)
       (\<lambda>(n, p, b). Inr p))"

text \<open>
  The loop over the value tokens. The size given to \<open>strncpy\<close> is converted to \<open>size_t\<close>: a
  token behind the end token has a negative difference and a huge size. The first result
  tells whether the loop ran to the end of the packet.
\<close>

function mrd_parse_values ::
    "cell list \<Rightarrow> nat \<Rightarrow> nat option \<Rightarrow> nat option \<Rightarrow> cell list list \<Rightarrow> nat \<Rightarrow>
     fault + (bool \<times> cell list list \<times> nat)" where
  "mrd_parse_values tb end_token value_str save values num =
     (case value_str of
        None \<Rightarrow> Inr (True, values, num)
      | Some v \<Rightarrow>
          if kMaxNumValues \<le> num then Inr (False, values, num)
          else
            rbind (strncpy (values ! num) (drop v tb)
                     (min (int end_token - int v) (int kMaxPacketFieldLen - 1) mod 2 ^ 32)) (\<lambda>b.
            rbind (strtok_next CHR '','' tb save) (\<lambda>(value_str', tb', save').
              mrd_parse_values tb' end_token value_str' save' (values[num := b]) (num + 1))))"
  by pat_completeness auto
termination
  by (relation "measure (\<lambda>(tb, e, v, save, values, num). kMaxNumValues - num)")
    (auto simp: kMaxNumValues_def)

declare mrd_parse_values.simps [simp del]

definition MRDPacket_FromString :: "cell list \<Rightarrow> mrd_packet \<Rightarrow> fault + mrd_packet" where
  "MRDPacket_FromString from_buf p0 =
     (let p = p0\<lparr>mrd_values := replicate kMaxNumValues (zeroed kMaxPacketFieldLen), mrd_num_values := 0\<rparr>
      in rbind (BSPacket_FromString from_buf p) (\<lambda>p1.
       if \<not> is_valid p1 then Inr p1
       else
         (let p2 = p1\<lparr>is_valid := False\<rparr>
          in rbind (strncpy (uninit kMaxPacketLen) from_buf (int kMaxPacketLen)) (\<lambda>tb.
             rbind (c_string tb) (\<lambda>text.
             let end_token = strchr CHR ''*'' text
             in rbind (strtok_at CHR '','' tb 0) (\<lambda>(header, tb, save).
                rbind (deref_string tb header) (\<lambda>header_str.
                  if header_str \<noteq> ''$BSMRD'' then Inr p2
                  else
                    rbind (strtok_next CHR '','' tb save) (\<lambda>(addr, tb, save).
                    rbind (deref_string tb addr) (\<lambda>reg_addr_str.
                    let p3 = p2\<lparr>mrd_reg_addr := strtoul reg_addr_str 16\<rparr>
                    in rbind (strtok_next CHR '','' tb save) (\<lambda>(value_str, tb, save).
                       rbind (if value_str = None then Inr (True, mrd_values p3, 0)
                              else case end_token of
                                     None \<Rightarrow> Inl NullPointer
                                   | Some e \<Rightarrow> mrd_parse_values tb e value_str save (mrd_values p3) 0)
                         (\<lambda>(complete, vs, n).
                           Inr (p3\<lparr>mrd_values := vs, mrd_num_values := of_nat n,
                                   is_valid := complete\<rparr>)))))))))))) "

definition MRDPacket_of_string :: "cell list \<Rightarrow> fault + mrd_packet" where
  "MRDPacket_of_string from_buf =
     MRDPacket_FromString from_buf
       \<lparr>packet_str = zeroed kMaxPacketLen, is_valid = False, packet_type = MRD,
        mrd_reg_addr = 0, mrd_values = replicate kMaxNumValues (uninit kMaxPacketFieldLen),
        mrd_num_values = 0\<rparr>"

section \<open>SWRPacket\<close>

record swr_packet = bs_packet +
  swr_cell_id :: u16
  swr_reg_addr :: u32
  swr_value :: "cell list"

definition SWRPacket_ToString ::
    "cell list option \<Rightarrow> swr_packet \<Rightarrow> fault + (u16 \<times> swr_packet \<times> cell list option)" where
  "SWRPacket_ToString to_buf p =
     rbind (snprintf (uninit kMaxPacketContentsLen) (int kMaxPacketContentsLen) ''%d,%X,%s''
              [VInt (ucast (swr_cell_id p)), VInt (swr_reg_addr p), VStr (swr_value p)])
       (\<lambda>contents. PacketizeContents contents to_buf p)"

definition SWRPacket_of_values :: "u16 \<Rightarrow> u32 \<Rightarrow> cell list \<Rightarrow> fault + swr_packet" where
  "SWRPacket_of_values cell_id_in reg_addr_in value_in =
     rbind (set_value value_in) (\<lambda>v.
     rbind (SWRPacket_ToString None
              \<lparr>packet_str = zeroed kMaxPacketLen, is_valid = False, packet_type = SWR,
               swr_cell_id = cell_id_in, swr_reg_addr = reg_addr_in, swr_value = v\<rparr>)
       (\<lambda>(n, p, b). Inr p))"

definition SWRPacket_FromString :: "cell list \<Rightarrow> swr_packet \<Rightarrow> fault + swr_packet" where
  "SWRPacket_FromString from_buf p0 =
     (let p = p0\<lparr>swr_value := zeroed kMaxPacketFieldLen\<rparr>
      in rbind (BSPacket_FromString from_buf p) (\<lambda>p1.
       if \<not> is_valid p1 then Inr p1
       else
         rbind (strncpy (uninit kMaxPacketLen) from_buf (int kMaxPacketLen)) (\<lambda>tb.
         rbind (strtok_at CHR '','' tb 0) (\<lambda>(header, tb, save).
         rbind (deref_string tb header) (\<lambda>header_str.
           if header_str \<noteq> ''$BSSWR'' then Inr p1
           else
             rbind (strtok_next CHR '','' tb save) (\<lambda>(id, tb, save).
             rbind (deref_string tb id) (\<lambda>cell_id_str.
             let p2 = p1\<lparr>swr_cell_id := ucast (strtoul cell_id_str 10)\<rparr>
             in rbind (strtok_next CHR '','' tb save) (\<lambda>(addr, tb, save).
                rbind (deref_string tb addr) (\<lambda>reg_addr_str.
                let p3 = p2\<lparr>swr_reg_addr := strtoul reg_addr_str 16\<rparr>
                in rbind (strtok_next CHR '','' tb save) (\<lambda>(value_str, tb, save).
                   rbind (copy_value (swr_value p3) tb value_str) (\<lambda>v.
                     Inr (p3\<lparr>swr_value := v, is_valid := True\<rparr>)))))))))))) "

definition SWRPacket_of_string :: "cell list \<Rightarrow> fault + swr_packet" where
  "SWRPacket_of_string from_buf =
     SWRPacket_FromString from_buf
       \<lparr>packet_str = zeroed kMaxPacketLen, is_valid = False, packet_type = SWR,
        swr_cell_id = 0, swr_reg_addr = 0, swr_value = uninit kMaxPacketFieldLen\<rparr>"

section \<open>SRDPacket\<close>

record srd_packet = bs_packet +
  srd_cell_id :: u16
  srd_reg_addr :: u32

definition SRDPacket_ToString ::
    "cell list option \<Rightarrow> srd_packet \<Rightarrow> fault + (u16 \<times> srd_packet \<times> cell list option)" where
  "SRDPacket_ToString to_buf p =
     rbind (snprintf (uninit kMaxPacketContentsLen) (int kMaxPacketContentsLen) ''%d,%X''
              [VInt (ucast (srd_cell_id p)), VInt (srd_reg_addr p)])
       (\<lambda>contents. PacketizeContents contents to_buf p)"

definition SRDPacket_of_values :: "u16 \<Rightarrow> u32 \<Rightarrow> fault + srd_packet" where
  "SRDPacket_of_values cell_id_in reg_addr_in =
     rbind (SRDPacket_ToString None
              \<lparr>packet_str = zeroed kMaxPacketLen, is_valid = False, packet_type = SRD,
               srd_cell_id = cell_id_in, srd_reg_addr = reg_addr_in\<rparr>)
       (\<lambda>(n, p, b). Inr p)"

definition SRDPacket_FromString :: "cell list \<Rightarrow> srd_packet \<Rightarrow> fault + srd_packet" where
  "SRDPacket_FromString from_buf p =
     rbind (BSPacket_FromString from_buf p) (\<lambda>p1.
       if \<not> is_valid p1 then Inr p1
       else
         (let p2 = p1\<lparr>is_valid := False\<rparr>
          in rbind (strncpy (uninit kMaxPacketLen) from_buf (int kMaxPacketLen)) (\<lambda>tb.
             rbind (strtok_at CHR '','' tb 0) (\<lambda>(header, tb, save).
             rbind (deref_string tb header) (\<lambda>header_str.
               if header_str \<noteq> ''$BSSRD'' then Inr p2
               else
                 rbind (strtok_next CHR '','' tb save) (\<lambda>(id, tb, save).
                 rbind (deref_string tb id) (\<lambda>cell_id_str.
                 let p3 = p2\<lparr>srd_cell_id := ucast (strtoul cell_id_str 10)\<rparr>
                 in rbind (strtok_next CHR '','' tb save) (\<lambda>(addr, tb, save).
                    rbind (deref_string tb addr) (\<lambda>reg_addr_str.
                      Inr (p3\<lparr>srd_reg_addr := strtoul reg_addr_str 16,
                              is_valid := True\<rparr>)))))))))) "

definition SRDPacket_of_string :: "cell list \<Rightarrow> fault + srd_packet" where
  "SRDPacket_of_string from_buf =
     SRDPacket_FromString from_buf
       \<lparr>packet_str = zeroed kMaxPacketLen, is_valid = False, packet_type = SRD,
        srd_cell_id = 0, srd_reg_addr = 0\<rparr>"

section \<open>SRSPacket\<close>

record srs_packet = bs_packet +
  srs_cell_id :: u16
  srs_value :: "cell list"

definition SRSPacket_ToString ::
    "cell list option \<Rightarrow> srs_packet \<Rightarrow> fault + (u16 \<times> srs_packet \<times> cell list option)" where
  "SRSPacket_ToString to_buf p =
     rbind (snprintf (uninit kMaxPacketContentsLen) (int kMaxPacketContentsLen) ''%d,%s''
              [VInt (ucast (srs_cell_id p)), VStr (srs_value p)])
       (\<lambda>contents. PacketizeContents contents to_buf p)"

definition SRSPacket_of_values :: "u16 \<Rightarrow> cell list \<Rightarrow> fault + srs_packet" where
  "SRSPacket_of_values cell_id_in value_in =
     rbind (set_value value_in) (\<lambda>v.
     rbind (SRSPacket_ToString None
              \<lparr>packet_str = zeroed kMaxPacketLen, is_valid = False, packet_type = SRS,
               srs_cell_id = cell_id_in, srs_value = v\<rparr>)
       (\<lambda>(n, p, b). Inr p))"

definition SRSPacket_FromString :: "cell list \<Rightarrow> srs_packet \<Rightarrow> fault + srs_packet" where
  "SRSPacket_FromString from_buf p0 =
     (let p = p0\<lparr>srs_value := zeroed kMaxPacketFieldLen\<rparr>
      in rbind (BSPacket_FromString from_buf p) (\<lambda>p1.
       if \<not> is_valid p1 then Inr p1
       else
         rbind (strncpy (uninit kMaxPacketLen) from_buf (int kMaxPacketLen)) (\<lambda>tb.
         rbind (strtok_at CHR '','' tb 0) (\<lambda>(header, tb, save).
         rbind (deref_string tb header) (\<lambda>header_str.
           if header_str \<noteq> ''$BSSRS'' then Inr p1
           else
             rbind (strtok_next CHR '','' tb save) (\<lambda>(id, tb, save).
             rbind (deref_string tb id) (\<lambda>cell_id_str.
             let p2 = p1\<lparr>srs_cell_id := ucast (strtoul cell_id_str 10)\<rparr>
             in rbind (strtok_next CHR '','' tb save) (\<lambda>(value_str, tb, save).
                rbind (copy_value (srs_value p2) tb value_str) (\<lambda>v.
                  Inr (p2\<lparr>srs_value := v, is_valid := True\<rparr>)))))))))) "

definition SRSPacket_of_string :: "cell list \<Rightarrow> fault + srs_packet" where
  "SRSPacket_of_string from_buf =
     SRSPacket_FromString from_buf
       \<lparr>packet_str = zeroed kMaxPacketLen, is_valid = False, packet_type = SRS,
        srs_cell_id = 0, srs_value = uninit kMaxPacketFieldLen\<rparr>"

end
