(* ===== verification/Strtof.thy ===== *)
theory Strtof
  imports C_Strings Floats
begin

text \<open>
  \<open>strtof\<close> of the C library, on the contents of a null-terminated string: optional white
  space and sign, then \<open>inf\<close>, \<open>infinity\<close> or \<open>nan\<close> in any case, a hexadecimal number with
  an optional binary exponent, or a decimal number with an optional decimal exponent; the
  exact value is rounded once to binary32. Text that is none of these gives zero. The
  firmware reads the voltage of a write with it.
\<close>

definition lower :: "char \<Rightarrow> char" where
  "lower c =
     (let n = of_char c :: int in if 65 \<le> n \<and> n \<le> 90 then char_of (n + 32) else c)"

text \<open>A run of digits: the mantissa so far, the number of digits read, the rest.\<close>

fun read_digits :: "int \<Rightarrow> int \<Rightarrow> int \<Rightarrow> char list \<Rightarrow> int \<times> int \<times> char list" where
  "read_digits base m k [] = (m, k, [])"
| "read_digits base m k (c # cs) =
     (case digit_value base c of
        None \<Rightarrow> (m, k, c # cs)
      | Some d \<Rightarrow> read_digits base (m * base + d) (k + 1) cs)"

text \<open>Digits, optionally a point and more digits: mantissa, digits read, digits after the point.\<close>

definition read_mantissa :: "int \<Rightarrow> char list \<Rightarrow> int \<times> int \<times> int \<times> char list" where
  "read_mantissa base cs =
     (let (m, k, r) = read_digits base 0 0 cs
      in case r of
           c # r' \<Rightarrow>
             if c = CHR ''.'' then
               (let (m', k', r'') = read_digits base m 0 r'
                in if k + k' = 0 then (0, 0, 0, cs) else (m', k + k', k', r''))
             else (m, k, 0, r)
         | [] \<Rightarrow> (m, k, 0, r))"

text \<open>An exponent mark with an optional sign and at least one digit; otherwise no exponent.\<close>

definition read_exponent :: "char \<Rightarrow> char list \<Rightarrow> int" where
  "read_exponent mark cs =
     (case cs of
        [] \<Rightarrow> 0
      | c # r \<Rightarrow>
          if lower c = mark then
            (let (neg, r') = scan_sign r; (e, k, r'') = read_digits 10 0 0 r'
             in if k = 0 then 0 else if neg then - min e 19999 else min e 19999)
          else 0)"

definition pow10 :: "int \<Rightarrow> rat" where
  "pow10 e = (if 0 \<le> e then of_int (10 ^ nat e) else 1 / of_int (10 ^ nat (- e)))"

definition signed_round :: "bool \<Rightarrow> rat \<Rightarrow> fp" where
  "signed_round neg q = fp_round Binary32 neg (if neg then - q else q)"

definition is_prefix :: "char list \<Rightarrow> char list \<Rightarrow> bool" where
  "is_prefix p s = (take (length p) (map lower s) = p)"

definition strtof_decimal :: "bool \<Rightarrow> char list \<Rightarrow> fp" where
  "strtof_decimal neg cs =
     (let (m, k, k', r) = read_mantissa 10 cs
      in if k = 0 then Zero False
         else signed_round neg (of_int m * pow10 (read_exponent (CHR ''e'') r - k')))"

definition strtof_hex :: "bool \<Rightarrow> char list \<Rightarrow> fp" where
  "strtof_hex neg cs =
     (let (m, k, k', r) = read_mantissa 16 cs
      in if k = 0 then Zero neg
         else signed_round neg (of_int m * pow2 (read_exponent (CHR ''p'') r - 4 * k')))"

definition strtof :: "char list \<Rightarrow> fp" where
  "strtof s =
     (let (neg, cs) = scan_sign (skip_space s)
      in if is_prefix ''inf'' cs then Inf neg
         else if is_prefix ''nan'' cs then NaN
         else if is_prefix ''0x'' cs then strtof_hex neg (drop 2 cs)
         else strtof_decimal neg cs)"

lemma signed_round_ok: "fp_ok Binary32 (signed_round neg q)"
  by (simp add: signed_round_def fp_round_ok)

lemma strtof_ok: "fp_ok Binary32 (strtof s)"
  by (simp add: strtof_def strtof_hex_def strtof_decimal_def signed_round_ok Let_def split: prod.splits)

end
