(* ===== verification/Registers.thy ===== *)
theory Registers
  imports Prelude
begin

text \<open>
  Memory-mapped registers (\<open>hardware/address_mapped.h\<close>). A register is a 32-bit word; the atomic
  set, clear and xor aliases of the bus are functions from its old contents to its new
  contents, and \<open>hw_write_masked\<close> is built from them as the header does.
\<close>

unbundle bit_operations_syntax

definition hw_set_bits :: "u32 \<Rightarrow> u32 \<Rightarrow> u32" where
  "hw_set_bits reg msk = reg OR msk"

definition hw_clear_bits :: "u32 \<Rightarrow> u32 \<Rightarrow> u32" where
  "hw_clear_bits reg msk = reg AND NOT msk"

definition hw_xor_bits :: "u32 \<Rightarrow> u32 \<Rightarrow> u32" where
  "hw_xor_bits reg msk = reg XOR msk"

definition hw_write_masked :: "u32 \<Rightarrow> u32 \<Rightarrow> u32 \<Rightarrow> u32" where
  "hw_write_masked reg values write_mask = hw_xor_bits reg ((reg XOR values) AND write_mask)"

definition bool_to_bit :: "bool \<Rightarrow> u32" where
  "bool_to_bit b = (if b then 1 else 0)"

lemmas hw_bits_defs = hw_set_bits_def hw_clear_bits_def hw_xor_bits_def hw_write_masked_def

lemma bit_hw_write_masked [reg_simps]:
  "bit (hw_write_masked reg v m) n \<longleftrightarrow> (if bit m n then bit v n else bit reg n)"
  by (auto simp: hw_bits_defs bit_simps dest: bit_imp_le_length)

lemma bit_hw_set_bits [reg_simps]: "bit (hw_set_bits reg m) n \<longleftrightarrow> bit reg n \<or> bit m n"
  by (simp add: hw_bits_defs bit_simps)

lemma bit_hw_clear_bits [reg_simps]: "bit (hw_clear_bits reg m) n \<longleftrightarrow> bit reg n \<and> \<not> bit m n"
  by (auto simp: hw_bits_defs bit_simps dest: bit_imp_le_length)

lemma hw_write_masked_inside [reg_simps]: "hw_write_masked reg v m AND m = v AND m"
  by (rule bit_eqI) (auto simp: reg_simps bit_simps)

lemma hw_write_masked_outside [reg_simps]:
  "hw_write_masked reg v m AND NOT m = reg AND NOT m"
  by (rule bit_eqI) (auto simp: reg_simps bit_simps)

lemma hw_write_masked_disjoint [reg_simps]:
  "m AND k = 0 \<Longrightarrow> hw_write_masked reg v m AND k = reg AND k"
  by (rule bit_eqI) (metis bit_0_eq bit_and_iff bit_hw_write_masked bot_apply bot_bool_def)

lemma hw_write_masked_idem [reg_simps]:
  "hw_write_masked (hw_write_masked reg v m) w m = hw_write_masked reg w m"
  by (rule bit_eqI) (auto simp: reg_simps)

lemma hw_write_masked_eq:
  assumes "v AND NOT m = 0"
  shows "hw_write_masked reg v m = (reg AND NOT m) OR v"
proof (rule bit_eqI)
  fix n
  have "\<not> bit (v AND NOT m) n" using assms by simp
  then show "bit (hw_write_masked reg v m) n = bit ((reg AND NOT m) OR v) n"
    by (auto simp: reg_simps bit_simps dest: bit_imp_le_length)
qed

lemma or_and_absorb_word [reg_simps]: "(r OR m) AND m = (m :: u32)"
  by (rule bit_eqI) (auto simp: bit_simps)

lemma hw_clear_and [reg_simps]: "hw_clear_bits r m AND m = 0"
  by (rule bit_eqI) (auto simp: reg_simps bit_simps)

lemma and_mask_cong: "r AND k = s AND k \<Longrightarrow> k AND m = m \<Longrightarrow> r AND m = s AND (m :: u32)"
  by (metis and.assoc)

lemma small_word:
  fixes w :: "'a::len word"
  assumes "w < 2 ^ n" "n < LENGTH('a)"
  shows "take_bit n w = w" "w AND mask n = w"
  using assms by (simp_all add: less_mask_eq take_bit_eq_mask)

lemma drop_push_small:
  fixes w :: "'a::len word"
  assumes "w < 2 ^ n" "n + k \<le> LENGTH('a)" "n < LENGTH('a)"
  shows "drop_bit k (push_bit k w) = w"
proof (rule bit_eqI)
  fix i
  have "bit w i \<Longrightarrow> i < n"
    using small_word(1) [OF assms(1,3)] by (metis bit_take_bit_iff)
  then show "bit (drop_bit k (push_bit k w)) i = bit w i"
    using assms(2) by (auto simp: bit_simps dest: bit_imp_le_length)
qed

text \<open>Bit \<open>n\<close> of the word \<open>1 << k\<close>.\<close>

lemma bit_push_one [reg_simps]: "bit (push_bit k (1 :: u32)) n \<longleftrightarrow> n = k \<and> k < 32"
  by (auto simp: bit_simps)

end
