(* ===== verification/Uart.thy ===== *)
theory Uart
  imports Registers C_Strings
begin

text \<open>
  The UART driver (\<open>hardware_uart/uart.c\<close> and the inline functions of \<open>hardware/uart.h\<close>) over a
  model of the PL011: its control registers, the two FIFOs and the line. The flag register is
  computed from the FIFOs. A busy-wait polls it; between two polls the transmitter moves one
  character from the FIFO to the line, so a wait for space ends. A wait for input that nobody
  sends is \<open>Blocked\<close>.
\<close>

unbundle bit_operations_syntax

section \<open>The peripheral\<close>

record uart_hw =
  ibrd :: u32
  fbrd :: u32
  lcr_h :: u32
  cr :: u32
  ifls :: u32
  imsc :: u32
  dmacr :: u32
  rx_fifo :: "u32 list"
  tx_fifo :: "u8 list"
  tx_line :: "u8 list"
  char_to_line_feed :: int

definition CR_UARTEN_BITS :: u32 where "CR_UARTEN_BITS = 0x1"
definition CR_TXE_BITS :: u32 where "CR_TXE_BITS = 0x100"
definition CR_RXE_BITS :: u32 where "CR_RXE_BITS = 0x200"
definition CR_RTSEN_BITS :: u32 where "CR_RTSEN_BITS = 0x4000"
definition CR_CTSEN_BITS :: u32 where "CR_CTSEN_BITS = 0x8000"
definition LCR_H_BRK_BITS :: u32 where "LCR_H_BRK_BITS = 0x1"
definition LCR_H_PEN_BITS :: u32 where "LCR_H_PEN_BITS = 0x2"
definition LCR_H_EPS_BITS :: u32 where "LCR_H_EPS_BITS = 0x4"
definition LCR_H_STP2_BITS :: u32 where "LCR_H_STP2_BITS = 0x8"
definition LCR_H_FEN_BITS :: u32 where "LCR_H_FEN_BITS = 0x10"
definition LCR_H_WLEN_BITS :: u32 where "LCR_H_WLEN_BITS = 0x60"
definition FR_BUSY_BITS :: u32 where "FR_BUSY_BITS = 0x8"
definition FR_RXFE_BITS :: u32 where "FR_RXFE_BITS = 0x10"
definition FR_TXFF_BITS :: u32 where "FR_TXFF_BITS = 0x20"
definition IFLS_TXIFLSEL_BITS :: u32 where "IFLS_TXIFLSEL_BITS = 0x7"
definition IFLS_RXIFLSEL_BITS :: u32 where "IFLS_RXIFLSEL_BITS = 0x38"

lemmas uart_consts =
  CR_UARTEN_BITS_def CR_TXE_BITS_def CR_RXE_BITS_def CR_RTSEN_BITS_def CR_CTSEN_BITS_def
  LCR_H_BRK_BITS_def LCR_H_PEN_BITS_def LCR_H_EPS_BITS_def LCR_H_STP2_BITS_def
  LCR_H_FEN_BITS_def LCR_H_WLEN_BITS_def FR_BUSY_BITS_def FR_RXFE_BITS_def FR_TXFF_BITS_def
  IFLS_TXIFLSEL_BITS_def IFLS_RXIFLSEL_BITS_def

datatype uart_parity = UART_PARITY_NONE | UART_PARITY_EVEN | UART_PARITY_ODD

text \<open>The reset values of the registers (\<open>hardware/regs/uart.h\<close>); both FIFOs are emptied.\<close>

definition uart_reset :: "uart_hw \<Rightarrow> uart_hw" where
  "uart_reset u =
     u\<lparr>ibrd := 0, fbrd := 0, lcr_h := 0, cr := 0x300, ifls := 0x12, imsc := 0, dmacr := 0,
       rx_fifo := [], tx_fifo := []\<rparr>"

text \<open>The FIFOs hold 32 characters, or one when they are disabled.\<close>

definition fifo_depth :: "uart_hw \<Rightarrow> nat" where
  "fifo_depth u = (if lcr_h u AND LCR_H_FEN_BITS \<noteq> 0 then 32 else 1)"

definition flag_register :: "uart_hw \<Rightarrow> u32" where
  "flag_register u =
     (if tx_fifo u \<noteq> [] then FR_BUSY_BITS else 0)
     OR (if rx_fifo u = [] then FR_RXFE_BITS else 0)
     OR (if fifo_depth u \<le> length (tx_fifo u) then FR_TXFF_BITS else 0)"

text \<open>One character leaves the transmit FIFO.\<close>

definition shift_out :: "uart_hw \<Rightarrow> uart_hw" where
  "shift_out u = u\<lparr>tx_line := tx_line u @ take 1 (tx_fifo u), tx_fifo := drop 1 (tx_fifo u)\<rparr>"

definition write_dr :: "u8 \<Rightarrow> uart_hw \<Rightarrow> uart_hw" where
  "write_dr b u = u\<lparr>tx_fifo := tx_fifo u @ [b]\<rparr>"

text \<open>A character arrives from the line; a full FIFO drops it.\<close>

definition arrive :: "char \<Rightarrow> uart_hw \<Rightarrow> uart_hw" where
  "arrive c u =
     (if length (rx_fifo u) < fifo_depth u then u\<lparr>rx_fifo := rx_fifo u @ [of_char c]\<rparr> else u)"

section \<open>Configuration\<close>

definition uart_set_translate_crlf :: "bool \<Rightarrow> uart_hw \<Rightarrow> uart_hw" where
  "uart_set_translate_crlf crlf u = u\<lparr>char_to_line_feed := (if crlf then 10 else 0x100)\<rparr>"

text \<open>The baud-rate divisor in 1/64 steps, from the clock rate and the rate wanted.\<close>

definition baud_divisor :: "u32 \<Rightarrow> u32 \<Rightarrow> u32 \<times> u32" where
  "baud_divisor hz baudrate =
     (let baud_rate_div = 8 * hz div baudrate;
          baud_ibrd = drop_bit 7 baud_rate_div
      in if baud_ibrd = 0 then (1, 0)
         else if 65535 \<le> baud_ibrd then (65535, 0)
         else (baud_ibrd, ((baud_rate_div AND 0x7f) + 1) div 2))"

definition uart_set_baudrate :: "u32 \<Rightarrow> u32 \<Rightarrow> uart_hw \<Rightarrow> fault + (u32 \<times> uart_hw)" where
  "uart_set_baudrate hz baudrate u =
     (if baudrate = 0 then Inl DivisionByZero
      else case baud_divisor hz baudrate of (i, f) \<Rightarrow>
        Inr (4 * hz div (64 * i + f),
             u\<lparr>ibrd := i, fbrd := f, lcr_h := hw_set_bits (lcr_h u) 0\<rparr>))"

definition uart_set_hw_flow :: "bool \<Rightarrow> bool \<Rightarrow> uart_hw \<Rightarrow> uart_hw" where
  "uart_set_hw_flow cts rts u =
     u\<lparr>cr := hw_write_masked (cr u)
        (push_bit 15 (bool_to_bit cts) OR push_bit 14 (bool_to_bit rts))
        (CR_RTSEN_BITS OR CR_CTSEN_BITS)\<rparr>"

definition uart_set_format :: "u32 \<Rightarrow> u32 \<Rightarrow> uart_parity \<Rightarrow> uart_hw \<Rightarrow> uart_hw" where
  "uart_set_format data_bits stop_bits parity u =
     u\<lparr>lcr_h := hw_write_masked (lcr_h u)
        (push_bit 5 (data_bits - 5) OR push_bit 3 (stop_bits - 1)
         OR push_bit 1 (bool_to_bit (parity \<noteq> UART_PARITY_NONE))
         OR push_bit 2 (bool_to_bit (parity = UART_PARITY_EVEN)))
        (LCR_H_WLEN_BITS OR LCR_H_STP2_BITS OR LCR_H_PEN_BITS OR LCR_H_EPS_BITS)\<rparr>"

definition uart_set_irq_enables :: "bool \<Rightarrow> bool \<Rightarrow> uart_hw \<Rightarrow> uart_hw" where
  "uart_set_irq_enables rx_has_data tx_needs_data u =
     (let u1 = u\<lparr>imsc := push_bit 5 (bool_to_bit tx_needs_data)
                  OR push_bit 4 (bool_to_bit rx_has_data) OR push_bit 6 (bool_to_bit rx_has_data)\<rparr>;
          u2 = (if rx_has_data
                then u1\<lparr>ifls := hw_write_masked (ifls u1) 0 IFLS_RXIFLSEL_BITS\<rparr> else u1)
      in if tx_needs_data
         then u2\<lparr>ifls := hw_write_masked (ifls u2) 0 IFLS_TXIFLSEL_BITS\<rparr> else u2)"

definition uart_is_enabled :: "uart_hw \<Rightarrow> bool" where
  "uart_is_enabled u = (cr u AND CR_UARTEN_BITS \<noteq> 0)"

definition uart_set_fifo_enabled :: "bool \<Rightarrow> uart_hw \<Rightarrow> uart_hw" where
  "uart_set_fifo_enabled enabled u =
     u\<lparr>lcr_h := hw_write_masked (lcr_h u) (push_bit 4 (bool_to_bit enabled)) LCR_H_FEN_BITS\<rparr>"

definition uart_set_break :: "bool \<Rightarrow> uart_hw \<Rightarrow> uart_hw" where
  "uart_set_break en u =
     (if en then u\<lparr>lcr_h := hw_set_bits (lcr_h u) LCR_H_BRK_BITS\<rparr>
      else u\<lparr>lcr_h := hw_clear_bits (lcr_h u) LCR_H_BRK_BITS\<rparr>)"

definition uart_init :: "u32 \<Rightarrow> u32 \<Rightarrow> uart_hw \<Rightarrow> fault + (u32 \<times> uart_hw)" where
  "uart_init hz baudrate u =
     (if hz = 0 then Inr (0, u)
      else
        rbind (uart_set_baudrate hz baudrate (uart_set_translate_crlf False (uart_reset u)))
          (\<lambda>(baud, u1).
           let u2 = uart_set_format 8 1 UART_PARITY_NONE u1;
               u3 = u2\<lparr>cr := CR_UARTEN_BITS OR CR_TXE_BITS OR CR_RXE_BITS\<rparr>;
               u4 = u3\<lparr>lcr_h := hw_set_bits (lcr_h u3) LCR_H_FEN_BITS\<rparr>
           in Inr (baud, u4\<lparr>dmacr := 0x3\<rparr>)))"

definition uart_deinit :: "uart_hw \<Rightarrow> uart_hw" where
  "uart_deinit u = uart_reset u"

section \<open>Input and output\<close>

definition uart_is_writable :: "uart_hw \<Rightarrow> bool" where
  "uart_is_writable u = (flag_register u AND FR_TXFF_BITS = 0)"

definition uart_is_readable :: "uart_hw \<Rightarrow> bool" where
  "uart_is_readable u = (flag_register u AND FR_RXFE_BITS = 0)"

lemma fifo_depth_pos: "0 < fifo_depth u"
  by (simp add: fifo_depth_def)

lemma uart_is_writable_iff [reg_simps]:
  "uart_is_writable u \<longleftrightarrow> length (tx_fifo u) < fifo_depth u"
  by (simp add: uart_is_writable_def flag_register_def uart_consts)

lemma uart_is_readable_iff [reg_simps]: "uart_is_readable u \<longleftrightarrow> rx_fifo u \<noteq> []"
  by (simp add: uart_is_readable_def flag_register_def uart_consts)

lemma busy_iff [reg_simps]: "flag_register u AND FR_BUSY_BITS \<noteq> 0 \<longleftrightarrow> tx_fifo u \<noteq> []"
  by (simp add: flag_register_def uart_consts)

function wait_writable :: "uart_hw \<Rightarrow> uart_hw" where
  "wait_writable u = (if uart_is_writable u then u else wait_writable (shift_out u))"
  by pat_completeness auto
termination
  by (relation "measure (\<lambda>u. length (tx_fifo u))")
    (auto simp: shift_out_def reg_simps not_less
      intro: diff_less dest: order_less_le_trans [OF fifo_depth_pos])

declare wait_writable.simps [simp del]

function uart_tx_wait_blocking :: "uart_hw \<Rightarrow> uart_hw" where
  "uart_tx_wait_blocking u =
     (if flag_register u AND FR_BUSY_BITS \<noteq> 0 then uart_tx_wait_blocking (shift_out u) else u)"
  by pat_completeness auto
termination
  by (relation "measure (\<lambda>u. length (tx_fifo u))") (auto simp: shift_out_def reg_simps)

declare uart_tx_wait_blocking.simps [simp del]

fun uart_write_blocking :: "u8 list \<Rightarrow> uart_hw \<Rightarrow> uart_hw" where
  "uart_write_blocking [] u = u"
| "uart_write_blocking (b # bs) u = uart_write_blocking bs (write_dr b (wait_writable u))"

fun uart_read_blocking :: "nat \<Rightarrow> uart_hw \<Rightarrow> fault + (u8 list \<times> uart_hw)" where
  "uart_read_blocking 0 u = Inr ([], u)"
| "uart_read_blocking (Suc n) u =
     (case rx_fifo u of
        [] \<Rightarrow> Inl Blocked
      | d # ds \<Rightarrow>
          rbind (uart_read_blocking n (u\<lparr>rx_fifo := ds\<rparr>)) (\<lambda>(bs, u'). Inr (ucast d # bs, u')))"

definition uart_putc_raw :: "char \<Rightarrow> uart_hw \<Rightarrow> uart_hw" where
  "uart_putc_raw c u = uart_write_blocking [of_char c] u"

definition uart_putc :: "char \<Rightarrow> uart_hw \<Rightarrow> uart_hw" where
  "uart_putc c u =
     uart_putc_raw c (if char_to_line_feed u = of_char c then uart_putc_raw CHR 0x0D u else u)"

fun uart_puts_loop :: "bool \<Rightarrow> char list \<Rightarrow> uart_hw \<Rightarrow> uart_hw" where
  "uart_puts_loop last_was_cr [] u = u"
| "uart_puts_loop last_was_cr (c # s) u =
     uart_puts_loop (c = CHR 0x0D) s (if last_was_cr then uart_putc_raw c u else uart_putc c u)"

definition uart_puts :: "cell list \<Rightarrow> uart_hw \<Rightarrow> fault + uart_hw" where
  "uart_puts s u = rbind (c_string s) (\<lambda>cs. Inr (uart_puts_loop False cs u))"

definition uart_getc :: "uart_hw \<Rightarrow> fault + (char \<times> uart_hw)" where
  "uart_getc u =
     rbind (uart_read_blocking 1 u) (\<lambda>(bs, u'). Inr (char_of (uint (hd bs)), u'))"

text \<open>The DREQ numbers: UART0 TX is 20, then RX and the second instance follow.\<close>

definition uart_get_dreq :: "u32 \<Rightarrow> bool \<Rightarrow> u32" where
  "uart_get_dreq index is_tx = 20 + index * 2 + bool_to_bit (\<not> is_tx)"

text \<open>
  The polling loop with a deadline. \<open>polls\<close> lists, for each iteration, what arrived before the
  poll and the clock read after it; the loop ends when something is there or the clock has
  moved on by more than \<open>us\<close>.
\<close>

fun readable_within :: "u32 \<Rightarrow> u32 \<Rightarrow> (char list \<times> u32) list \<Rightarrow> uart_hw \<Rightarrow> fault + (bool \<times> uart_hw)" where
  "readable_within t us [] u = Inl Blocked"
| "readable_within t us ((cs, now) # polls) u =
     (let u' = fold arrive cs u
      in if uart_is_readable u' then Inr (True, u')
         else if now - t \<le> us then readable_within t us polls u'
         else Inr (False, u'))"

definition uart_is_readable_within_us ::
    "u32 \<Rightarrow> u32 \<Rightarrow> (char list \<times> u32) list \<Rightarrow> uart_hw \<Rightarrow> fault + (bool \<times> uart_hw)" where
  "uart_is_readable_within_us t us polls u = readable_within t us polls u"

section \<open>What output does\<close>

text \<open>
  Everything sent, on the line or still in the FIFO. Output changes nothing else: two states
  that agree outside the transmitter are related by \<open>same_config\<close>.
\<close>

definition sent :: "uart_hw \<Rightarrow> u8 list" where
  "sent u = tx_line u @ tx_fifo u"

definition same_config :: "uart_hw \<Rightarrow> uart_hw \<Rightarrow> bool" where
  "same_config u v \<longleftrightarrow> v\<lparr>tx_line := tx_line u, tx_fifo := tx_fifo u\<rparr> = u"

lemma same_config_refl [simp]: "same_config u u"
  by (simp add: same_config_def)

lemma same_config_trans: "same_config u v \<Longrightarrow> same_config v w \<Longrightarrow> same_config u w"
  by (cases u; cases v; cases w) (simp add: same_config_def)

lemma same_configD:
  assumes "same_config u v"
  shows "rx_fifo v = rx_fifo u" "lcr_h v = lcr_h u" "cr v = cr u" "fifo_depth v = fifo_depth u"
    "char_to_line_feed v = char_to_line_feed u" "ibrd v = ibrd u" "fbrd v = fbrd u"
  using assms by (cases u; cases v; simp add: same_config_def fifo_depth_def)+

lemma same_config_shift_out [simp]: "same_config u (shift_out u)"
  by (simp add: same_config_def shift_out_def)

lemma same_config_shiftD: "same_config (shift_out u) v \<Longrightarrow> same_config u v"
  by (rule same_config_trans [OF same_config_shift_out])

lemma same_config_writeD: "same_config (write_dr b u) v \<Longrightarrow> same_config u v"
  by (rule same_config_trans [of u "write_dr b u"]) (simp add: same_config_def write_dr_def)

lemma sent_shift_out [simp]: "sent (shift_out u) = sent u"
  by (simp add: sent_def shift_out_def)

lemma same_config_write_dr [simp]: "same_config u (write_dr b u)"
  by (simp add: same_config_def write_dr_def)

lemma sent_write_dr [simp]: "sent (write_dr b u) = sent u @ [b]"
  by (simp add: sent_def write_dr_def)

lemma wait_writable_effect:
  "same_config u (wait_writable u)" "sent (wait_writable u) = sent u"
  "length (tx_fifo (wait_writable u)) < fifo_depth u"
proof (induction u rule: wait_writable.induct)
  case (1 u)
  show "same_config u (wait_writable u)"
    using 1(1) by (subst wait_writable.simps) (auto intro: same_config_shiftD)
  show "sent (wait_writable u) = sent u"
    using 1(2) by (subst wait_writable.simps) auto
  show "length (tx_fifo (wait_writable u)) < fifo_depth u"
    using 1(3) by (subst wait_writable.simps)
      (auto simp: reg_simps same_configD [OF same_config_shift_out])
qed

lemma uart_write_blocking_effect:
  "same_config u (uart_write_blocking bs u)"
  "sent (uart_write_blocking bs u) = sent u @ bs"
  by (induction bs arbitrary: u)
    (auto intro: same_config_trans [OF wait_writable_effect(1)] same_config_writeD
      simp: wait_writable_effect)

lemma tx_fifo_bound:
  "length (tx_fifo u) \<le> fifo_depth u \<Longrightarrow>
   length (tx_fifo (uart_write_blocking bs u)) \<le> fifo_depth u"
proof (induction bs arbitrary: u)
  case (Cons b bs)
  have "fifo_depth (write_dr b (wait_writable u)) = fifo_depth u"
    by (metis same_config_trans same_config_write_dr same_configD(4) wait_writable_effect(1))
  moreover have "length (tx_fifo (write_dr b (wait_writable u))) \<le> fifo_depth u"
    using wait_writable_effect(3) [of u] by (simp add: write_dr_def)
  ultimately show ?case using Cons.IH [of "write_dr b (wait_writable u)"] by simp
qed simp

text \<open>
  The characters a string is sent as: with translation on, a line feed gets a carriage return
  in front unless one is there already.
\<close>

fun crlf :: "bool \<Rightarrow> bool \<Rightarrow> char list \<Rightarrow> char list" where
  "crlf translate last_was_cr [] = []"
| "crlf translate last_was_cr (c # s) =
     (if translate \<and> c = CHR 0x0A \<and> \<not> last_was_cr then [CHR 0x0D, c] else [c])
     @ crlf translate (c = CHR 0x0D) s"

lemma crlf_off [simp]: "crlf False b s = s"
  by (induction s arbitrary: b) auto

lemma of_char_eq_nl: "(of_char c :: int) = 10 \<longleftrightarrow> c = CHR 0x0A"
proof -
  have "(of_char c :: int) = of_char (CHR 0x0A) \<longleftrightarrow> c = CHR 0x0A"
    by (rule of_char_eq_iff)
  then show ?thesis by (simp add: of_char_def)
qed

lemma of_char_not_256: "(of_char c :: int) \<noteq> 0x100"
  using of_char_mod_256 [where 'a = int, of c] by (metis less_irrefl pos_mod_bound zero_less_numeral)

lemma uart_putc_effect:
  assumes "char_to_line_feed u = (if t then 10 else 0x100)"
  shows "same_config u (uart_putc c u)"
    "sent (uart_putc c u) =
       sent u @ map of_char (if t \<and> c = CHR 0x0A then [CHR 0x0D, c] else [c])"
  using of_char_not_256 [of c]
  by (auto simp: uart_putc_def uart_putc_raw_def assms of_char_eq_nl uart_write_blocking_effect
      simp del: uart_write_blocking.simps split: if_splits
      intro: same_config_trans [OF uart_write_blocking_effect(1)] uart_write_blocking_effect)

lemma uart_puts_loop_effect:
  "char_to_line_feed u = (if t then 10 else 0x100) \<Longrightarrow>
   same_config u (uart_puts_loop b s u) \<and>
   sent (uart_puts_loop b s u) = sent u @ map of_char (crlf t b s)"
proof (induction s arbitrary: b u)
  case (Cons c s)
  let ?u = "if b then uart_putc_raw c u else uart_putc c u"
  have s: "same_config u ?u"
    using uart_putc_effect(1) [OF Cons.prems]
    by (simp add: uart_putc_raw_def uart_write_blocking_effect del: uart_write_blocking.simps)
  then have "char_to_line_feed ?u = (if t then 10 else 0x100)"
    using Cons.prems by (metis same_configD(5))
  then have "same_config ?u (uart_puts_loop (c = CHR 0x0D) s ?u) \<and>
      sent (uart_puts_loop (c = CHR 0x0D) s ?u) = sent ?u @ map of_char (crlf t (c = CHR 0x0D) s)"
    by (rule Cons.IH)
  moreover have "sent ?u =
      sent u @ map of_char (if t \<and> c = CHR 0x0A \<and> \<not> b then [CHR 0x0D, c] else [c])"
    using uart_putc_effect(2) [OF Cons.prems, of c]
    by (simp add: uart_putc_raw_def uart_write_blocking_effect del: uart_write_blocking.simps)
  ultimately show ?case using s by (auto intro: same_config_trans)
qed simp

end
