(* ===== verification/Gpio.thy ===== *)
theory Gpio
  imports Registers
begin

text \<open>
  The GPIO driver (\<open>hardware_gpio/gpio.c\<close> and the inline functions of \<open>hardware/gpio.h\<close>): pad
  controls, function selection, the single-cycle output registers and the per-core interrupt
  enables with the default interrupt handler. Pin numbers are natural numbers; the parameter
  checks of the source are compiled out by default and are not modelled.
\<close>

unbundle bit_operations_syntax

section \<open>Registers\<close>

text \<open>
  \<open>pads\<close> is \<open>padsbank0_hw->io[]\<close>, \<open>io_ctrl\<close> and \<open>io_status\<close> are \<open>iobank0_hw->io[].ctrl/status\<close>, the
  \<open>sio_\<close> fields are the single-cycle registers. \<open>intr\<close> holds four event bits per pin, eight
  pins to a word; \<open>proc_inte\<close> is indexed by core and word, \<open>dormant_inte\<close> by word. A callback is
  a number naming the registered function; \<open>calls\<close> logs its invocations and \<open>irq_requests\<close> the
  calls into the interrupt library.
\<close>

datatype gpio_handler = DefaultHandler | RawHandler nat

datatype irq_request =
    AddSharedHandler gpio_handler u8 | RemoveHandler gpio_handler | SetEnabled bool

definition GPIO_IRQ_CALLBACK_ORDER_PRIORITY :: u8 where "GPIO_IRQ_CALLBACK_ORDER_PRIORITY = 0"

definition GPIO_RAW_IRQ_HANDLER_DEFAULT_ORDER_PRIORITY :: u8 where
  "GPIO_RAW_IRQ_HANDLER_DEFAULT_ORDER_PRIORITY = 0x80"

record gpio_hw =
  pads :: "nat \<Rightarrow> u32"
  io_ctrl :: "nat \<Rightarrow> u32"
  io_status :: "nat \<Rightarrow> u32"
  sio_out :: u32
  sio_oe :: u32
  sio_in :: u32
  intr :: "nat \<Rightarrow> u32"
  proc_inte :: "nat \<Rightarrow> nat \<Rightarrow> u32"
  dormant_inte :: "nat \<Rightarrow> u32"
  callbacks :: "nat \<Rightarrow> nat option"
  raw_irq_mask :: "nat \<Rightarrow> u32"
  calls :: "(nat \<times> nat \<times> u32) list"
  irq_requests :: "irq_request list"

definition NUM_BANK0_GPIOS :: nat where "NUM_BANK0_GPIOS = 30"

definition PADS_OD_BITS :: u32 where "PADS_OD_BITS = 0x80"
definition PADS_IE_BITS :: u32 where "PADS_IE_BITS = 0x40"
definition PADS_DRIVE_BITS :: u32 where "PADS_DRIVE_BITS = 0x30"
definition PADS_PUE_BITS :: u32 where "PADS_PUE_BITS = 0x08"
definition PADS_PDE_BITS :: u32 where "PADS_PDE_BITS = 0x04"
definition PADS_SCHMITT_BITS :: u32 where "PADS_SCHMITT_BITS = 0x02"
definition PADS_SLEWFAST_BITS :: u32 where "PADS_SLEWFAST_BITS = 0x01"

definition CTRL_IRQOVER_BITS :: u32 where "CTRL_IRQOVER_BITS = 0x30000000"
definition CTRL_INOVER_BITS :: u32 where "CTRL_INOVER_BITS = 0x30000"
definition CTRL_OEOVER_BITS :: u32 where "CTRL_OEOVER_BITS = 0x3000"
definition CTRL_OUTOVER_BITS :: u32 where "CTRL_OUTOVER_BITS = 0x300"
definition CTRL_FUNCSEL_BITS :: u32 where "CTRL_FUNCSEL_BITS = 0x1f"
definition STATUS_INFROMPAD_BITS :: u32 where "STATUS_INFROMPAD_BITS = 0x20000"

lemmas pads_consts [reg_simps] =
  PADS_OD_BITS_def PADS_IE_BITS_def PADS_DRIVE_BITS_def PADS_PUE_BITS_def PADS_PDE_BITS_def
  PADS_SCHMITT_BITS_def PADS_SLEWFAST_BITS_def

lemmas ctrl_consts [reg_simps] =
  CTRL_IRQOVER_BITS_def CTRL_INOVER_BITS_def CTRL_OEOVER_BITS_def CTRL_OUTOVER_BITS_def
  CTRL_FUNCSEL_BITS_def STATUS_INFROMPAD_BITS_def

text \<open>The enumeration \<open>gpio_function\<close>, with its encoding.\<close>

datatype gpio_function =
    GPIO_FUNC_XIP | GPIO_FUNC_SPI | GPIO_FUNC_UART | GPIO_FUNC_I2C | GPIO_FUNC_PWM
  | GPIO_FUNC_SIO | GPIO_FUNC_PIO0 | GPIO_FUNC_PIO1 | GPIO_FUNC_GPCK | GPIO_FUNC_USB
  | GPIO_FUNC_NULL

fun funcsel :: "gpio_function \<Rightarrow> u32" where
  "funcsel GPIO_FUNC_XIP = 0" | "funcsel GPIO_FUNC_SPI = 1" | "funcsel GPIO_FUNC_UART = 2"
| "funcsel GPIO_FUNC_I2C = 3" | "funcsel GPIO_FUNC_PWM = 4" | "funcsel GPIO_FUNC_SIO = 5"
| "funcsel GPIO_FUNC_PIO0 = 6" | "funcsel GPIO_FUNC_PIO1 = 7" | "funcsel GPIO_FUNC_GPCK = 8"
| "funcsel GPIO_FUNC_USB = 9" | "funcsel GPIO_FUNC_NULL = 0x1f"

section \<open>Pad and function controls\<close>

definition write_pad :: "nat \<Rightarrow> (u32 \<Rightarrow> u32) \<Rightarrow> gpio_hw \<Rightarrow> gpio_hw" where
  "write_pad pin f g = g\<lparr>pads := (pads g)(pin := f (pads g pin))\<rparr>"

definition write_ctrl :: "nat \<Rightarrow> (u32 \<Rightarrow> u32) \<Rightarrow> gpio_hw \<Rightarrow> gpio_hw" where
  "write_ctrl pin f g = g\<lparr>io_ctrl := (io_ctrl g)(pin := f (io_ctrl g pin))\<rparr>"

definition gpio_get_pad :: "nat \<Rightarrow> gpio_hw \<Rightarrow> u32 \<times> gpio_hw" where
  "gpio_get_pad pin g =
     (let g' = write_pad pin (\<lambda>r. hw_set_bits r PADS_IE_BITS) g
      in (drop_bit 17 (io_status g' pin AND STATUS_INFROMPAD_BITS), g'))"

definition gpio_set_function :: "nat \<Rightarrow> gpio_function \<Rightarrow> gpio_hw \<Rightarrow> gpio_hw" where
  "gpio_set_function pin fn g =
     write_ctrl pin (\<lambda>_. push_bit 0 (funcsel fn))
       (write_pad pin (\<lambda>r. hw_write_masked r PADS_IE_BITS (PADS_IE_BITS OR PADS_OD_BITS)) g)"

definition gpio_get_function :: "nat \<Rightarrow> gpio_hw \<Rightarrow> u32" where
  "gpio_get_function pin g = drop_bit 0 (io_ctrl g pin AND CTRL_FUNCSEL_BITS)"

definition gpio_set_pulls :: "nat \<Rightarrow> bool \<Rightarrow> bool \<Rightarrow> gpio_hw \<Rightarrow> gpio_hw" where
  "gpio_set_pulls pin up down =
     write_pad pin (\<lambda>r. hw_write_masked r
       (push_bit 3 (bool_to_bit up) OR push_bit 2 (bool_to_bit down))
       (PADS_PUE_BITS OR PADS_PDE_BITS))"

definition gpio_pull_up :: "nat \<Rightarrow> gpio_hw \<Rightarrow> gpio_hw" where
  "gpio_pull_up pin = gpio_set_pulls pin True False"

definition gpio_is_pulled_up :: "nat \<Rightarrow> gpio_hw \<Rightarrow> bool" where
  "gpio_is_pulled_up pin g = (pads g pin AND PADS_PUE_BITS \<noteq> 0)"

definition gpio_pull_down :: "nat \<Rightarrow> gpio_hw \<Rightarrow> gpio_hw" where
  "gpio_pull_down pin = gpio_set_pulls pin False True"

definition gpio_is_pulled_down :: "nat \<Rightarrow> gpio_hw \<Rightarrow> bool" where
  "gpio_is_pulled_down pin g = (pads g pin AND PADS_PDE_BITS \<noteq> 0)"

definition gpio_disable_pulls :: "nat \<Rightarrow> gpio_hw \<Rightarrow> gpio_hw" where
  "gpio_disable_pulls pin = gpio_set_pulls pin False False"

definition gpio_set_irqover :: "nat \<Rightarrow> u32 \<Rightarrow> gpio_hw \<Rightarrow> gpio_hw" where
  "gpio_set_irqover pin v = write_ctrl pin (\<lambda>r. hw_write_masked r (push_bit 28 v) CTRL_IRQOVER_BITS)"

definition gpio_set_inover :: "nat \<Rightarrow> u32 \<Rightarrow> gpio_hw \<Rightarrow> gpio_hw" where
  "gpio_set_inover pin v = write_ctrl pin (\<lambda>r. hw_write_masked r (push_bit 16 v) CTRL_INOVER_BITS)"

definition gpio_set_outover :: "nat \<Rightarrow> u32 \<Rightarrow> gpio_hw \<Rightarrow> gpio_hw" where
  "gpio_set_outover pin v = write_ctrl pin (\<lambda>r. hw_write_masked r (push_bit 8 v) CTRL_OUTOVER_BITS)"

definition gpio_set_oeover :: "nat \<Rightarrow> u32 \<Rightarrow> gpio_hw \<Rightarrow> gpio_hw" where
  "gpio_set_oeover pin v = write_ctrl pin (\<lambda>r. hw_write_masked r (push_bit 12 v) CTRL_OEOVER_BITS)"

definition gpio_set_input_hysteresis_enabled :: "nat \<Rightarrow> bool \<Rightarrow> gpio_hw \<Rightarrow> gpio_hw" where
  "gpio_set_input_hysteresis_enabled pin enabled =
     (if enabled then write_pad pin (\<lambda>r. hw_set_bits r PADS_SCHMITT_BITS)
      else write_pad pin (\<lambda>r. hw_clear_bits r PADS_SCHMITT_BITS))"

definition gpio_is_input_hysteresis_enabled :: "nat \<Rightarrow> gpio_hw \<Rightarrow> bool" where
  "gpio_is_input_hysteresis_enabled pin g = (pads g pin AND PADS_SCHMITT_BITS \<noteq> 0)"

definition gpio_set_slew_rate :: "nat \<Rightarrow> u32 \<Rightarrow> gpio_hw \<Rightarrow> gpio_hw" where
  "gpio_set_slew_rate pin slew =
     write_pad pin (\<lambda>r. hw_write_masked r (push_bit 0 slew) PADS_SLEWFAST_BITS)"

definition gpio_get_slew_rate :: "nat \<Rightarrow> gpio_hw \<Rightarrow> u32" where
  "gpio_get_slew_rate pin g = drop_bit 0 (pads g pin AND PADS_SLEWFAST_BITS)"

definition gpio_set_drive_strength :: "nat \<Rightarrow> u32 \<Rightarrow> gpio_hw \<Rightarrow> gpio_hw" where
  "gpio_set_drive_strength pin drive =
     write_pad pin (\<lambda>r. hw_write_masked r (push_bit 4 drive) PADS_DRIVE_BITS)"

definition gpio_get_drive_strength :: "nat \<Rightarrow> gpio_hw \<Rightarrow> u32" where
  "gpio_get_drive_strength pin g = drop_bit 4 (pads g pin AND PADS_DRIVE_BITS)"

definition gpio_set_input_enabled :: "nat \<Rightarrow> bool \<Rightarrow> gpio_hw \<Rightarrow> gpio_hw" where
  "gpio_set_input_enabled pin enabled =
     (if enabled then write_pad pin (\<lambda>r. hw_set_bits r PADS_IE_BITS)
      else write_pad pin (\<lambda>r. hw_clear_bits r PADS_IE_BITS))"

section \<open>Output registers\<close>

definition gpio_get :: "nat \<Rightarrow> gpio_hw \<Rightarrow> bool" where
  "gpio_get pin g = (push_bit pin 1 AND sio_in g \<noteq> 0)"

definition gpio_get_all :: "gpio_hw \<Rightarrow> u32" where
  "gpio_get_all g = sio_in g"

definition gpio_set_mask :: "u32 \<Rightarrow> gpio_hw \<Rightarrow> gpio_hw" where
  "gpio_set_mask m g = g\<lparr>sio_out := hw_set_bits (sio_out g) m\<rparr>"

definition gpio_clr_mask :: "u32 \<Rightarrow> gpio_hw \<Rightarrow> gpio_hw" where
  "gpio_clr_mask m g = g\<lparr>sio_out := hw_clear_bits (sio_out g) m\<rparr>"

definition gpio_xor_mask :: "u32 \<Rightarrow> gpio_hw \<Rightarrow> gpio_hw" where
  "gpio_xor_mask m g = g\<lparr>sio_out := hw_xor_bits (sio_out g) m\<rparr>"

definition gpio_put_masked :: "u32 \<Rightarrow> u32 \<Rightarrow> gpio_hw \<Rightarrow> gpio_hw" where
  "gpio_put_masked m v g = g\<lparr>sio_out := hw_xor_bits (sio_out g) ((sio_out g XOR v) AND m)\<rparr>"

definition gpio_put_all :: "u32 \<Rightarrow> gpio_hw \<Rightarrow> gpio_hw" where
  "gpio_put_all v g = g\<lparr>sio_out := v\<rparr>"

definition gpio_put :: "nat \<Rightarrow> bool \<Rightarrow> gpio_hw \<Rightarrow> gpio_hw" where
  "gpio_put pin v =
     (let m = push_bit pin 1 in if v then gpio_set_mask m else gpio_clr_mask m)"

definition gpio_get_out_level :: "nat \<Rightarrow> gpio_hw \<Rightarrow> bool" where
  "gpio_get_out_level pin g = (sio_out g AND push_bit pin 1 \<noteq> 0)"

definition gpio_set_dir_out_masked :: "u32 \<Rightarrow> gpio_hw \<Rightarrow> gpio_hw" where
  "gpio_set_dir_out_masked m g = g\<lparr>sio_oe := hw_set_bits (sio_oe g) m\<rparr>"

definition gpio_set_dir_in_masked :: "u32 \<Rightarrow> gpio_hw \<Rightarrow> gpio_hw" where
  "gpio_set_dir_in_masked m g = g\<lparr>sio_oe := hw_clear_bits (sio_oe g) m\<rparr>"

definition gpio_set_dir_masked :: "u32 \<Rightarrow> u32 \<Rightarrow> gpio_hw \<Rightarrow> gpio_hw" where
  "gpio_set_dir_masked m v g = g\<lparr>sio_oe := hw_xor_bits (sio_oe g) ((sio_oe g XOR v) AND m)\<rparr>"

definition gpio_set_dir_all_bits :: "u32 \<Rightarrow> gpio_hw \<Rightarrow> gpio_hw" where
  "gpio_set_dir_all_bits v g = g\<lparr>sio_oe := v\<rparr>"

definition gpio_set_dir :: "nat \<Rightarrow> bool \<Rightarrow> gpio_hw \<Rightarrow> gpio_hw" where
  "gpio_set_dir pin out =
     (let m = push_bit pin 1 in
      if out then gpio_set_dir_out_masked m else gpio_set_dir_in_masked m)"

definition gpio_is_dir_out :: "nat \<Rightarrow> gpio_hw \<Rightarrow> bool" where
  "gpio_is_dir_out pin g = (sio_oe g AND push_bit pin 1 \<noteq> 0)"

definition gpio_get_dir :: "nat \<Rightarrow> gpio_hw \<Rightarrow> u32" where
  "gpio_get_dir pin g = bool_to_bit (gpio_is_dir_out pin g)"

section \<open>Initialisation\<close>

definition gpio_init :: "nat \<Rightarrow> gpio_hw \<Rightarrow> gpio_hw" where
  "gpio_init pin g =
     (let g1 = g\<lparr>sio_oe := hw_clear_bits (sio_oe g) (push_bit pin 1)\<rparr>;
          g2 = g1\<lparr>sio_out := hw_clear_bits (sio_out g1) (push_bit pin 1)\<rparr>
      in gpio_set_function pin GPIO_FUNC_SIO g2)"

definition gpio_deinit :: "nat \<Rightarrow> gpio_hw \<Rightarrow> gpio_hw" where
  "gpio_deinit pin = gpio_set_function pin GPIO_FUNC_NULL"

text \<open>The loop shifts the mask right once per pin.\<close>

fun gpio_init_loop :: "nat list \<Rightarrow> u32 \<Rightarrow> gpio_hw \<Rightarrow> gpio_hw" where
  "gpio_init_loop [] m g = g"
| "gpio_init_loop (i # is) m g =
     gpio_init_loop is (drop_bit 1 m) (if m AND 1 \<noteq> 0 then gpio_init i g else g)"

definition gpio_init_mask :: "u32 \<Rightarrow> gpio_hw \<Rightarrow> gpio_hw" where
  "gpio_init_mask m g = gpio_init_loop [0 ..< NUM_BANK0_GPIOS] m g"

definition DEBUG_PIN_MASK :: u32 where
  "DEBUG_PIN_MASK = push_bit 19 (push_bit 3 1 - 1)"

definition gpio_debug_pins_init :: "gpio_hw \<Rightarrow> gpio_hw" where
  "gpio_debug_pins_init g =
     gpio_set_dir_masked DEBUG_PIN_MASK DEBUG_PIN_MASK (gpio_init_mask DEBUG_PIN_MASK g)"

section \<open>Interrupts\<close>

text \<open>
  Writing a one to an edge bit of \<open>intr\<close> clears it; level bits follow the pin and are not
  cleared. The status word of a core is the raw word masked by its enables.
\<close>

definition EDGE_BITS :: u32 where "EDGE_BITS = 0xcccccccc"

definition ints :: "nat \<Rightarrow> nat \<Rightarrow> gpio_hw \<Rightarrow> u32" where
  "ints core k g = intr g k AND proc_inte g core k"

definition gpio_acknowledge_irq :: "nat \<Rightarrow> u32 \<Rightarrow> gpio_hw \<Rightarrow> gpio_hw" where
  "gpio_acknowledge_irq pin events g =
     g\<lparr>intr := (intr g)(pin div 8 :=
         hw_clear_bits (intr g (pin div 8)) (push_bit (4 * (pin mod 8)) events AND EDGE_BITS))\<rparr>"

definition gpio_get_irq_event_mask :: "nat \<Rightarrow> nat \<Rightarrow> gpio_hw \<Rightarrow> u32" where
  "gpio_get_irq_event_mask core pin g =
     drop_bit (4 * (pin AND 7)) (ints core (drop_bit 3 pin) g) AND 0xf"

definition irq_enable_word :: "nat \<Rightarrow> u32 \<Rightarrow> bool \<Rightarrow> u32 \<Rightarrow> u32" where
  "irq_enable_word pin events enabled r =
     (let e = push_bit (4 * (pin mod 8)) events
      in if enabled then hw_set_bits r e else hw_clear_bits r e)"

definition gpio_set_irq_enabled :: "nat \<Rightarrow> nat \<Rightarrow> u32 \<Rightarrow> bool \<Rightarrow> gpio_hw \<Rightarrow> gpio_hw" where
  "gpio_set_irq_enabled core pin events enabled g =
     (let g' = gpio_acknowledge_irq pin events g; k = pin div 8
      in g'\<lparr>proc_inte := (proc_inte g')(core := (proc_inte g' core)
            (k := irq_enable_word pin events enabled (proc_inte g' core k)))\<rparr>)"

definition gpio_set_dormant_irq_enabled :: "nat \<Rightarrow> u32 \<Rightarrow> bool \<Rightarrow> gpio_hw \<Rightarrow> gpio_hw" where
  "gpio_set_dormant_irq_enabled pin events enabled g =
     (let g' = gpio_acknowledge_irq pin events g; k = pin div 8
      in g'\<lparr>dormant_inte := (dormant_inte g')
            (k := irq_enable_word pin events enabled (dormant_inte g' k))\<rparr>)"

definition gpio_set_irq_callback :: "nat \<Rightarrow> nat option \<Rightarrow> gpio_hw \<Rightarrow> gpio_hw" where
  "gpio_set_irq_callback core callback g =
     (if callbacks g core \<noteq> None then
        (let g' = (if callback = None
                   then g\<lparr>irq_requests := irq_requests g @ [RemoveHandler DefaultHandler]\<rparr> else g)
         in g'\<lparr>callbacks := (callbacks g')(core := callback)\<rparr>)
      else if callback \<noteq> None then
        g\<lparr>callbacks := (callbacks g)(core := callback),
          irq_requests := irq_requests g @
            [AddSharedHandler DefaultHandler GPIO_IRQ_CALLBACK_ORDER_PRIORITY]\<rparr>
      else g)"

definition gpio_set_irq_enabled_with_callback ::
    "nat \<Rightarrow> nat \<Rightarrow> u32 \<Rightarrow> bool \<Rightarrow> nat option \<Rightarrow> gpio_hw \<Rightarrow> gpio_hw" where
  "gpio_set_irq_enabled_with_callback core pin events enabled callback g =
     (let g' = gpio_set_irq_callback core callback (gpio_set_irq_enabled core pin events enabled g)
      in if enabled then g'\<lparr>irq_requests := irq_requests g' @ [SetEnabled True]\<rparr> else g')"

definition gpio_add_raw_irq_handler_with_order_priority_masked ::
    "nat \<Rightarrow> u32 \<Rightarrow> nat \<Rightarrow> u8 \<Rightarrow> gpio_hw \<Rightarrow> fault + gpio_hw" where
  "gpio_add_raw_irq_handler_with_order_priority_masked core m handler order_priority g =
     (if raw_irq_mask g core AND m \<noteq> 0 then Inl Panic
      else Inr (g\<lparr>raw_irq_mask := (raw_irq_mask g)(core := raw_irq_mask g core OR m),
                  irq_requests := irq_requests g @
                    [AddSharedHandler (RawHandler handler) order_priority]\<rparr>))"

definition gpio_add_raw_irq_handler_masked ::
    "nat \<Rightarrow> u32 \<Rightarrow> nat \<Rightarrow> gpio_hw \<Rightarrow> fault + gpio_hw" where
  "gpio_add_raw_irq_handler_masked core m handler =
     gpio_add_raw_irq_handler_with_order_priority_masked core m handler
       GPIO_RAW_IRQ_HANDLER_DEFAULT_ORDER_PRIORITY"

definition gpio_remove_raw_irq_handler_masked :: "nat \<Rightarrow> u32 \<Rightarrow> nat \<Rightarrow> gpio_hw \<Rightarrow> gpio_hw" where
  "gpio_remove_raw_irq_handler_masked core m handler g =
     g\<lparr>irq_requests := irq_requests g @ [RemoveHandler (RawHandler handler)],
       raw_irq_mask := (raw_irq_mask g)(core := raw_irq_mask g core AND NOT m)\<rparr>"

text \<open>
  The default handler: the eight pins of a word are visited while events are left in it; a pin
  whose interrupt has a raw handler is skipped.
\<close>

definition dispatch_pin :: "nat \<Rightarrow> nat option \<Rightarrow> nat \<Rightarrow> u32 \<Rightarrow> gpio_hw \<Rightarrow> gpio_hw" where
  "dispatch_pin core callback i events g =
     (if events \<noteq> 0 \<and> raw_irq_mask g core AND push_bit i 1 = 0 then
        (let g' = gpio_acknowledge_irq i events g
         in case callback of
              None \<Rightarrow> g'
            | Some f \<Rightarrow> g'\<lparr>calls := calls g' @ [(f, i, events)]\<rparr>)
      else g)"

fun dispatch_word :: "nat \<Rightarrow> nat option \<Rightarrow> nat list \<Rightarrow> u32 \<Rightarrow> gpio_hw \<Rightarrow> gpio_hw" where
  "dispatch_word core callback [] events8 g = g"
| "dispatch_word core callback (i # is) events8 g =
     (if events8 = 0 then g
      else dispatch_word core callback is (drop_bit 4 events8)
             (dispatch_pin core callback i (events8 AND 0xf) g))"

definition gpio_default_irq_handler :: "nat \<Rightarrow> gpio_hw \<Rightarrow> gpio_hw" where
  "gpio_default_irq_handler core g =
     foldl (\<lambda>g pin. dispatch_word core (callbacks g core) [pin ..< pin + 8]
                     (ints core (drop_bit 3 pin) g) g)
       g [0, 8, 16, 24]"

end
