(* ===== verification/Pwm.thy ===== *)
theory Pwm
  imports Registers
begin

text \<open>
  The PWM driver (inline functions of \<open>hardware/pwm.h\<close>): eight slices with a counter, a wrap
  value, a divider and two compare levels each. Slice numbers are natural numbers; parameter
  checks are compiled out by default and are not modelled.
\<close>

unbundle bit_operations_syntax

record pwm_slice =
  pwm_csr :: u32
  pwm_div :: u32
  pwm_ctr :: u32
  pwm_cc :: u32
  pwm_top :: u32

record pwm_hw =
  slice :: "nat \<Rightarrow> pwm_slice"
  pwm_intr :: u32
  pwm_inte :: u32
  pwm_intf :: u32

record pwm_config =
  cfg_csr :: u32
  cfg_div :: u32
  cfg_top :: u32

definition CSR_EN_BITS :: u32 where "CSR_EN_BITS = 0x01"
definition CSR_PH_CORRECT_BITS :: u32 where "CSR_PH_CORRECT_BITS = 0x02"
definition CSR_A_INV_BITS :: u32 where "CSR_A_INV_BITS = 0x04"
definition CSR_B_INV_BITS :: u32 where "CSR_B_INV_BITS = 0x08"
definition CSR_DIVMODE_BITS :: u32 where "CSR_DIVMODE_BITS = 0x30"
definition CC_A_BITS :: u32 where "CC_A_BITS = 0xffff"
definition CC_B_BITS :: u32 where "CC_B_BITS = 0xffff0000"

lemmas pwm_consts =
  CSR_EN_BITS_def CSR_PH_CORRECT_BITS_def CSR_A_INV_BITS_def CSR_B_INV_BITS_def
  CSR_DIVMODE_BITS_def CC_A_BITS_def CC_B_BITS_def

datatype pwm_clkdiv_mode =
  PWM_DIV_FREE_RUNNING | PWM_DIV_B_HIGH | PWM_DIV_B_RISING | PWM_DIV_B_FALLING

fun clkdiv_mode_value :: "pwm_clkdiv_mode \<Rightarrow> u32" where
  "clkdiv_mode_value PWM_DIV_FREE_RUNNING = 0"
| "clkdiv_mode_value PWM_DIV_B_HIGH = 1"
| "clkdiv_mode_value PWM_DIV_B_RISING = 2"
| "clkdiv_mode_value PWM_DIV_B_FALLING = 3"

section \<open>Pins\<close>

definition pwm_gpio_to_slice_num :: "nat \<Rightarrow> nat" where
  "pwm_gpio_to_slice_num gpio = (drop_bit 1 gpio) AND 7"

definition pwm_gpio_to_channel :: "nat \<Rightarrow> nat" where
  "pwm_gpio_to_channel gpio = gpio AND 1"

section \<open>Configuration objects\<close>

definition pwm_config_set_phase_correct :: "bool \<Rightarrow> pwm_config \<Rightarrow> pwm_config" where
  "pwm_config_set_phase_correct b c =
     c\<lparr>cfg_csr := (cfg_csr c AND NOT CSR_PH_CORRECT_BITS) OR push_bit 1 (bool_to_bit b)\<rparr>"

definition pwm_config_set_clkdiv_int_frac :: "u8 \<Rightarrow> u8 \<Rightarrow> pwm_config \<Rightarrow> pwm_config" where
  "pwm_config_set_clkdiv_int_frac i f c =
     c\<lparr>cfg_div := push_bit 4 (ucast i) OR push_bit 0 (ucast f)\<rparr>"

definition pwm_config_set_clkdiv_int :: "u32 \<Rightarrow> pwm_config \<Rightarrow> pwm_config" where
  "pwm_config_set_clkdiv_int d c = pwm_config_set_clkdiv_int_frac (ucast d) 0 c"

definition pwm_config_set_clkdiv_mode :: "pwm_clkdiv_mode \<Rightarrow> pwm_config \<Rightarrow> pwm_config" where
  "pwm_config_set_clkdiv_mode m c =
     c\<lparr>cfg_csr := (cfg_csr c AND NOT CSR_DIVMODE_BITS) OR push_bit 4 (clkdiv_mode_value m)\<rparr>"

definition pwm_config_set_output_polarity :: "bool \<Rightarrow> bool \<Rightarrow> pwm_config \<Rightarrow> pwm_config" where
  "pwm_config_set_output_polarity a b c =
     c\<lparr>cfg_csr := (cfg_csr c AND NOT (CSR_A_INV_BITS OR CSR_B_INV_BITS))
        OR (push_bit 2 (bool_to_bit a) OR push_bit 3 (bool_to_bit b))\<rparr>"

definition pwm_config_set_wrap :: "u16 \<Rightarrow> pwm_config \<Rightarrow> pwm_config" where
  "pwm_config_set_wrap w c = c\<lparr>cfg_top := ucast w\<rparr>"

definition pwm_get_default_config :: pwm_config where
  "pwm_get_default_config =
     pwm_config_set_wrap 0xffff (pwm_config_set_output_polarity False False
       (pwm_config_set_clkdiv_mode PWM_DIV_FREE_RUNNING (pwm_config_set_clkdiv_int 1
         (pwm_config_set_phase_correct False \<lparr>cfg_csr = 0, cfg_div = 0, cfg_top = 0\<rparr>))))"

section \<open>Slices\<close>

definition on_slice :: "nat \<Rightarrow> (pwm_slice \<Rightarrow> pwm_slice) \<Rightarrow> pwm_hw \<Rightarrow> pwm_hw" where
  "on_slice n f p = p\<lparr>slice := (slice p)(n := f (slice p n))\<rparr>"

definition pwm_init :: "nat \<Rightarrow> pwm_config \<Rightarrow> bool \<Rightarrow> pwm_hw \<Rightarrow> pwm_hw" where
  "pwm_init n c start =
     on_slice n (\<lambda>s. s\<lparr>pwm_csr := cfg_csr c OR push_bit 0 (bool_to_bit start),
                       pwm_ctr := 0, pwm_cc := 0, pwm_top := cfg_top c, pwm_div := cfg_div c\<rparr>)"

definition pwm_set_wrap :: "nat \<Rightarrow> u16 \<Rightarrow> pwm_hw \<Rightarrow> pwm_hw" where
  "pwm_set_wrap n w = on_slice n (\<lambda>s. s\<lparr>pwm_top := ucast w\<rparr>)"

definition pwm_set_chan_level :: "nat \<Rightarrow> nat \<Rightarrow> u16 \<Rightarrow> pwm_hw \<Rightarrow> pwm_hw" where
  "pwm_set_chan_level n chan level =
     on_slice n (\<lambda>s. s\<lparr>pwm_cc := hw_write_masked (pwm_cc s)
       (push_bit (if chan \<noteq> 0 then 16 else 0) (ucast level))
       (if chan \<noteq> 0 then CC_B_BITS else CC_A_BITS)\<rparr>)"

definition pwm_set_both_levels :: "nat \<Rightarrow> u16 \<Rightarrow> u16 \<Rightarrow> pwm_hw \<Rightarrow> pwm_hw" where
  "pwm_set_both_levels n level_a level_b =
     on_slice n (\<lambda>s. s\<lparr>pwm_cc := push_bit 16 (ucast level_b) OR push_bit 0 (ucast level_a)\<rparr>)"

definition pwm_set_gpio_level :: "nat \<Rightarrow> u16 \<Rightarrow> pwm_hw \<Rightarrow> pwm_hw" where
  "pwm_set_gpio_level gpio level =
     pwm_set_chan_level (pwm_gpio_to_slice_num gpio) (pwm_gpio_to_channel gpio) level"

definition pwm_get_counter :: "nat \<Rightarrow> pwm_hw \<Rightarrow> u16" where
  "pwm_get_counter n p = ucast (pwm_ctr (slice p n))"

definition pwm_set_counter :: "nat \<Rightarrow> u16 \<Rightarrow> pwm_hw \<Rightarrow> pwm_hw" where
  "pwm_set_counter n c = on_slice n (\<lambda>s. s\<lparr>pwm_ctr := ucast c\<rparr>)"

definition pwm_set_clkdiv_int_frac :: "nat \<Rightarrow> u8 \<Rightarrow> u8 \<Rightarrow> pwm_hw \<Rightarrow> pwm_hw" where
  "pwm_set_clkdiv_int_frac n i f =
     on_slice n (\<lambda>s. s\<lparr>pwm_div := push_bit 4 (ucast i) OR push_bit 0 (ucast f)\<rparr>)"

definition pwm_set_output_polarity :: "nat \<Rightarrow> bool \<Rightarrow> bool \<Rightarrow> pwm_hw \<Rightarrow> pwm_hw" where
  "pwm_set_output_polarity n a b =
     on_slice n (\<lambda>s. s\<lparr>pwm_csr := hw_write_masked (pwm_csr s)
       (push_bit 2 (bool_to_bit a) OR push_bit 3 (bool_to_bit b))
       (CSR_A_INV_BITS OR CSR_B_INV_BITS)\<rparr>)"

definition pwm_set_clkdiv_mode :: "nat \<Rightarrow> pwm_clkdiv_mode \<Rightarrow> pwm_hw \<Rightarrow> pwm_hw" where
  "pwm_set_clkdiv_mode n m =
     on_slice n (\<lambda>s. s\<lparr>pwm_csr := hw_write_masked (pwm_csr s)
       (push_bit 4 (clkdiv_mode_value m)) CSR_DIVMODE_BITS\<rparr>)"

definition pwm_set_phase_correct :: "nat \<Rightarrow> bool \<Rightarrow> pwm_hw \<Rightarrow> pwm_hw" where
  "pwm_set_phase_correct n b =
     on_slice n (\<lambda>s. s\<lparr>pwm_csr := hw_write_masked (pwm_csr s)
       (push_bit 1 (bool_to_bit b)) CSR_PH_CORRECT_BITS\<rparr>)"

definition pwm_set_enabled :: "nat \<Rightarrow> bool \<Rightarrow> pwm_hw \<Rightarrow> pwm_hw" where
  "pwm_set_enabled n b =
     on_slice n (\<lambda>s. s\<lparr>pwm_csr := hw_write_masked (pwm_csr s)
       (push_bit 0 (bool_to_bit b)) CSR_EN_BITS\<rparr>)"

text \<open>The enable register aliases the enable bit of every slice.\<close>

definition pwm_set_mask_enabled :: "u32 \<Rightarrow> pwm_hw \<Rightarrow> pwm_hw" where
  "pwm_set_mask_enabled m p =
     p\<lparr>slice := (\<lambda>n. if n < 8
         then (slice p n)\<lparr>pwm_csr := hw_write_masked (pwm_csr (slice p n))
                 (bool_to_bit (bit m n)) CSR_EN_BITS\<rparr>
         else slice p n)\<rparr>"

section \<open>Interrupts\<close>

definition pwm_set_irq_enabled :: "nat \<Rightarrow> bool \<Rightarrow> pwm_hw \<Rightarrow> pwm_hw" where
  "pwm_set_irq_enabled n enabled p =
     p\<lparr>pwm_inte := (if enabled then hw_set_bits else hw_clear_bits) (pwm_inte p) (push_bit n 1)\<rparr>"

definition pwm_set_irq_mask_enabled :: "u32 \<Rightarrow> bool \<Rightarrow> pwm_hw \<Rightarrow> pwm_hw" where
  "pwm_set_irq_mask_enabled m enabled p =
     p\<lparr>pwm_inte := (if enabled then hw_set_bits else hw_clear_bits) (pwm_inte p) m\<rparr>"

text \<open>The raw status is cleared by writing ones; the status is what is pending or forced.\<close>

definition pwm_clear_irq :: "nat \<Rightarrow> pwm_hw \<Rightarrow> pwm_hw" where
  "pwm_clear_irq n p = p\<lparr>pwm_intr := hw_clear_bits (pwm_intr p) (push_bit n 1)\<rparr>"

definition pwm_force_irq :: "nat \<Rightarrow> pwm_hw \<Rightarrow> pwm_hw" where
  "pwm_force_irq n p = p\<lparr>pwm_intf := push_bit n 1\<rparr>"

definition pwm_get_irq_status_mask :: "pwm_hw \<Rightarrow> u32" where
  "pwm_get_irq_status_mask p = (pwm_intr p AND pwm_inte p) OR pwm_intf p"

section \<open>Levels\<close>

definition chan_level :: "nat \<Rightarrow> nat \<Rightarrow> pwm_hw \<Rightarrow> u16" where
  "chan_level n chan p = ucast (drop_bit (if chan \<noteq> 0 then 16 else 0) (pwm_cc (slice p n)))"

lemma bit_CC_A [reg_simps]: "bit CC_A_BITS n \<longleftrightarrow> n < 16"
proof -
  have h: "CC_A_BITS = mask 16" by (simp add: CC_A_BITS_def mask_eq_exp_minus_1)
  show ?thesis unfolding h by (auto simp: bit_simps)
qed

lemma bit_CC_B [reg_simps]: "bit CC_B_BITS n \<longleftrightarrow> 16 \<le> n \<and> n < 32"
proof -
  have h: "CC_B_BITS = push_bit 16 (mask 16)"
    by (simp add: CC_B_BITS_def mask_eq_exp_minus_1 push_bit_eq_mult)
  show ?thesis unfolding h by (auto simp: bit_simps)
qed

lemma chan_level_set: "chan_level n chan (pwm_set_chan_level n chan level p) = level"
  by (rule bit_eqI)
    (auto simp: chan_level_def pwm_set_chan_level_def on_slice_def reg_simps bit_simps)

lemma chan_level_other:
  "(n, chan \<noteq> 0) \<noteq> (m, c \<noteq> 0) \<Longrightarrow>
   chan_level m c (pwm_set_chan_level n chan level p) = chan_level m c p"
  by (rule bit_eqI)
    (auto simp: chan_level_def pwm_set_chan_level_def on_slice_def reg_simps bit_simps)

end
