(* ===== verification/Adc.thy ===== *)
theory Adc
  imports Gpio Floats
begin

text \<open>
  The ADC driver (\<open>hardware_adc/adc.c\<close> and the inline functions of \<open>hardware/adc.h\<close>) over a model
  of the converter: a conversion samples the selected input when it starts and is ready after
  96 polls; \<open>analog\<close> is the code each input would convert to. Only the low twelve bits of a
  result exist.
\<close>

unbundle bit_operations_syntax

record adc_hw =
  adc_cs :: u32
  adc_result :: u32
  adc_fcs :: u32
  adc_div :: u32
  adc_inte :: u32
  adc_fifo :: "u32 list"
  analog :: "nat \<Rightarrow> u16"
  conversion :: nat

definition CS_EN_BITS :: u32 where "CS_EN_BITS = 0x1"
definition CS_TS_EN_BITS :: u32 where "CS_TS_EN_BITS = 0x2"
definition CS_START_ONCE_BITS :: u32 where "CS_START_ONCE_BITS = 0x4"
definition CS_START_MANY_BITS :: u32 where "CS_START_MANY_BITS = 0x8"
definition CS_READY_BITS :: u32 where "CS_READY_BITS = 0x100"
definition CS_AINSEL_BITS :: u32 where "CS_AINSEL_BITS = 0x7000"
definition CS_RROBIN_BITS :: u32 where "CS_RROBIN_BITS = 0x1f0000"

lemmas adc_consts =
  CS_EN_BITS_def CS_TS_EN_BITS_def CS_START_ONCE_BITS_def CS_START_MANY_BITS_def
  CS_READY_BITS_def CS_AINSEL_BITS_def CS_RROBIN_BITS_def

definition conversion_time :: nat where "conversion_time = 96"

section \<open>The converter\<close>

definition selected_input :: "adc_hw \<Rightarrow> nat" where
  "selected_input a = unat (drop_bit 12 (adc_cs a AND CS_AINSEL_BITS))"

definition start_conversion :: "adc_hw \<Rightarrow> adc_hw" where
  "start_conversion a =
     a\<lparr>adc_cs := hw_clear_bits (adc_cs a) CS_READY_BITS,
       adc_result := ucast (analog a (selected_input a)) AND 0xfff,
       conversion := conversion_time\<rparr>"

text \<open>A poll of \<open>cs\<close>: the value read, and the converter one step further.\<close>

definition poll_cs :: "adc_hw \<Rightarrow> u32 \<times> adc_hw" where
  "poll_cs a =
     (case conversion a of
        0 \<Rightarrow> (adc_cs a OR CS_READY_BITS, a\<lparr>adc_cs := adc_cs a OR CS_READY_BITS\<rparr>)
      | Suc n \<Rightarrow> (hw_clear_bits (adc_cs a) CS_READY_BITS, a\<lparr>conversion := n\<rparr>))"

lemma CS_READY_nonzero: "CS_READY_BITS \<noteq> 0"
  by (simp add: adc_consts)

function wait_ready :: "adc_hw \<Rightarrow> adc_hw" where
  "wait_ready a =
     (case poll_cs a of (cs, a') \<Rightarrow> if cs AND CS_READY_BITS \<noteq> 0 then a' else wait_ready a')"
  by pat_completeness auto
termination
  by (relation "measure conversion")
    (auto simp: poll_cs_def reg_simps CS_READY_nonzero split: nat.splits)

declare wait_ready.simps [simp del]

section \<open>Operations\<close>

definition adc_reset :: "adc_hw \<Rightarrow> adc_hw" where
  "adc_reset a =
     a\<lparr>adc_cs := 0, adc_result := 0, adc_fcs := 0, adc_div := 0, adc_inte := 0, adc_fifo := [],
       conversion := 0\<rparr>"

definition adc_init :: "adc_hw \<Rightarrow> adc_hw" where
  "adc_init a = wait_ready ((adc_reset a)\<lparr>adc_cs := CS_EN_BITS\<rparr>)"

definition adc_gpio_init :: "nat \<Rightarrow> gpio_hw \<Rightarrow> gpio_hw" where
  "adc_gpio_init pin g =
     gpio_set_input_enabled pin False
       (gpio_disable_pulls pin (gpio_set_function pin GPIO_FUNC_NULL g))"

definition adc_select_input :: "u32 \<Rightarrow> adc_hw \<Rightarrow> adc_hw" where
  "adc_select_input input a =
     a\<lparr>adc_cs := hw_write_masked (adc_cs a) (push_bit 12 input) CS_AINSEL_BITS\<rparr>"

definition adc_get_selected_input :: "adc_hw \<Rightarrow> u32" where
  "adc_get_selected_input a = drop_bit 12 (adc_cs a AND CS_AINSEL_BITS)"

definition adc_set_round_robin :: "u32 \<Rightarrow> adc_hw \<Rightarrow> adc_hw" where
  "adc_set_round_robin input_mask a =
     a\<lparr>adc_cs := hw_write_masked (adc_cs a) (push_bit 16 input_mask) CS_RROBIN_BITS\<rparr>"

definition adc_set_temp_sensor_enabled :: "bool \<Rightarrow> adc_hw \<Rightarrow> adc_hw" where
  "adc_set_temp_sensor_enabled enable a =
     (if enable then a\<lparr>adc_cs := hw_set_bits (adc_cs a) CS_TS_EN_BITS\<rparr>
      else a\<lparr>adc_cs := hw_clear_bits (adc_cs a) CS_TS_EN_BITS\<rparr>)"

text \<open>The start bit clears itself.\<close>

definition adc_read :: "adc_hw \<Rightarrow> u16 \<times> adc_hw" where
  "adc_read a =
     (let a' = wait_ready (start_conversion a) in (ucast (adc_result a'), a'))"

definition adc_run :: "bool \<Rightarrow> adc_hw \<Rightarrow> adc_hw" where
  "adc_run run a =
     (if run then a\<lparr>adc_cs := hw_set_bits (adc_cs a) CS_START_MANY_BITS\<rparr>
      else a\<lparr>adc_cs := hw_clear_bits (adc_cs a) CS_START_MANY_BITS\<rparr>)"

definition adc_set_clkdiv :: "fp \<Rightarrow> adc_hw \<Rightarrow> fault + adc_hw" where
  "adc_set_clkdiv clkdiv a =
     rbind (fp_to_int 0 (2 ^ 32 - 1) (fp_mul Binary32 clkdiv (fp_of_int Binary32 256)))
       (\<lambda>d. Inr (a\<lparr>adc_div := word_of_int d\<rparr>))"

definition adc_irq_set_enabled :: "bool \<Rightarrow> adc_hw \<Rightarrow> adc_hw" where
  "adc_irq_set_enabled enabled a = a\<lparr>adc_inte := bool_to_bit enabled\<rparr>"

section \<open>Conversions\<close>

lemma AINSEL_shift: "CS_AINSEL_BITS = push_bit 12 7"
  by (simp add: adc_consts push_bit_eq_mult)

lemma selected_input_select:
  assumes "input < 8"
  shows "selected_input (adc_select_input input a) = unat input"
proof -
  have "push_bit 12 input AND CS_AINSEL_BITS = push_bit 12 (input AND 7)"
    unfolding AINSEL_shift by (simp add: push_bit_and)
  moreover have "input AND 7 = input"
    using small_word(2) [of input 3] assms by (simp add: mask_eq_exp_minus_1)
  moreover have "drop_bit 12 (push_bit 12 input) = input"
    using drop_push_small [of input 3 12] assms by simp
  ultimately show ?thesis
    by (simp add: selected_input_def adc_select_input_def reg_simps)
qed

lemma poll_cs_effect:
  "adc_result (snd (poll_cs a)) = adc_result a" "analog (snd (poll_cs a)) = analog a"
  "adc_cs (snd (poll_cs a)) AND CS_AINSEL_BITS = adc_cs a AND CS_AINSEL_BITS"
  by (auto simp: poll_cs_def adc_consts word_ao_dist split: nat.splits)

lemma wait_ready_effect:
  "adc_result (wait_ready a) = adc_result a" "analog (wait_ready a) = analog a"
  "adc_cs (wait_ready a) AND CS_AINSEL_BITS = adc_cs a AND CS_AINSEL_BITS"
  by (induction a rule: wait_ready.induct; subst wait_ready.simps;
      insert poll_cs_effect; auto split: prod.splits; metis snd_conv)+

lemma mask_12: "mask 12 = (0xfff :: 'a::len word)"
  by (simp add: mask_eq_exp_minus_1)

lemma adc_read_value:
  "adc_read a = (v, a') \<Longrightarrow> v = analog a (selected_input a) AND 0xfff"
  by (rule bit_eqI)
    (auto simp: adc_read_def Let_def wait_ready_effect start_conversion_def bit_simps
      simp flip: mask_12)

end
