(* ===== verification/Scbs.thy ===== *)
theory Scbs
  imports Packets Strtof Uart Gpio Pwm Adc
begin

text \<open>
  The cell simulator (class \<open>SCBS\<close> of \<open>scbs.cc\<close> and \<open>scbs.hh\<close>) and \<open>main.cpp\<close>. The object and
  the peripherals it drives are one record; every method is a function from that record to a
  fault or the new record. The messages printed on the USB console are not part of the model.
\<close>

unbundle bit_operations_syntax

section \<open>Constants and state\<close>

definition kMaxUARTBufLen :: nat where "kMaxUARTBufLen = 200"

definition kRegAddrSetOutputVoltage :: u32 where "kRegAddrSetOutputVoltage = 0x1000"
definition kRegAddrReadOutputCurrent :: u32 where "kRegAddrReadOutputCurrent = 0x2000"
definition kRegAddrReadFirmwareVersion :: u32 where "kRegAddrReadFirmwareVersion = 0x3000"

definition kErrCodeNone :: u16 where "kErrCodeNone = 0x00"
definition kErrCodeAddrNotRecognized :: u16 where "kErrCodeAddrNotRecognized = 0x01"
definition kErrCodePacketLengthExceeded :: u16 where "kErrCodePacketLengthExceeded = 0x02"
definition kErrCodeWriteNotSupported :: u16 where "kErrCodeWriteNotSupported = 0x03"
definition kErrCodeReceivedInvalidPacket :: u16 where "kErrCodeReceivedInvalidPacket = 0x0F"

lemmas reg_addrs =
  kRegAddrSetOutputVoltage_def kRegAddrReadOutputCurrent_def kRegAddrReadFirmwareVersion_def

lemmas err_codes =
  kErrCodeNone_def kErrCodeAddrNotRecognized_def kErrCodePacketLengthExceeded_def
  kErrCodeWriteNotSupported_def kErrCodeReceivedInvalidPacket_def

definition SCBS_FIRMWARE_VERSION :: "char list" where
  "SCBS_FIRMWARE_VERSION = ''scbs_pico-0.1.0''"

definition kMaxPWMCount :: u16 where "kMaxPWMCount = 1000"
definition kPWMDefaultDuty :: u16 where "kPWMDefaultDuty = 0"

definition kPowerSupplyVoltage5V :: fp where "kPowerSupplyVoltage5V = fp_lit Binary32 5"
definition kMaxOutputVoltage :: fp where "kMaxOutputVoltage = fp_lit Binary32 (9 / 2)"
definition kMinOutputVoltage :: fp where "kMinOutputVoltage = Zero False"

definition kOutputVoltageCalCoeffX3 :: fp where
  "kOutputVoltageCalCoeffX3 = fp_lit Binary32 (- 6624709 / 10 ^ 9)"
definition kOutputVoltageCalCoeffX2 :: fp where
  "kOutputVoltageCalCoeffX2 = fp_lit Binary32 (7218648 / 10 ^ 8)"
definition kOutputVoltageCalCoeffX :: fp where
  "kOutputVoltageCalCoeffX = fp_lit Binary32 (- 278278555 / 10 ^ 9)"
definition kOutputVoltageCalCoeffConst :: fp where
  "kOutputVoltageCalCoeffConst = fp_lit Binary32 (79586014 / 10 ^ 9)"

definition kPacketReceivedBlinkTimeMs :: u32 where "kPacketReceivedBlinkTimeMs = 10"
definition kRegisterWriteBlinkTimeMs :: u32 where "kRegisterWriteBlinkTimeMs = 500"
definition kRegisterReadBlinkTimeMs :: u32 where "kRegisterReadBlinkTimeMs = 100"

definition kMaxADCCount :: u16 where "kMaxADCCount = 4096"
definition kMaxCsenseCurrent :: fp where "kMaxCsenseCurrent = fp_lit Binary32 200"

record scbs_config =
  uart_id :: nat
  uart_baud :: u16
  uart_tx_pin :: u16
  uart_rx_pin :: u16
  uart_data_bits :: u16
  uart_stop_bits :: u16
  cfg_uart_parity :: uart_parity
  pwm_pin :: u16
  pwm_channel :: nat
  csense_pin :: u16
  csense_adc_input :: u16
  led_pin :: u16

definition default_config :: scbs_config where
  "default_config =
     \<lparr>uart_id = 1, uart_baud = 9600, uart_tx_pin = 4, uart_rx_pin = 5, uart_data_bits = 8,
      uart_stop_bits = 1, cfg_uart_parity = UART_PARITY_NONE, pwm_pin = 16, pwm_channel = 0,
      csense_pin = 28, csense_adc_input = 2, led_pin = 25\<rparr>"

text \<open>
  The peripherals: both UARTs, the pins, the PWM slices, the converter, the microsecond
  counter and the rate of the peripheral clock.
\<close>

record machine =
  uarts :: "nat \<Rightarrow> uart_hw"
  gpio :: gpio_hw
  pwm :: pwm_hw
  adc :: adc_hw
  now_us :: u64
  clk_peri_hz :: u32

record scbs = machine +
  config :: scbs_config
  uart_rx_buf :: "cell list"
  uart_rx_buf_len :: u16
  cell_id :: "u16 option"
  output_voltage :: fp
  output_current :: fp
  status_led_on :: bool
  status_led_off_timestamp :: u32

text \<open>The constructor; the buffer and the cell number have no initialiser.\<close>

definition SCBS_new :: "scbs_config \<Rightarrow> machine \<Rightarrow> scbs" where
  "SCBS_new c m =
     machine.extend m
       (scbs.fields c (uninit kMaxUARTBufLen) 0 None (Zero False) (Zero False) False 0)"

definition time_us_32 :: "'a machine_scheme \<Rightarrow> u32" where
  "time_us_32 s = ucast (now_us s)"

definition sleep_ms :: "u32 \<Rightarrow> 'a machine_scheme \<Rightarrow> 'a machine_scheme" where
  "sleep_ms ms s = s\<lparr>now_us := now_us s + ucast ms * 1000\<rparr>"

definition on_uart :: "(uart_hw \<Rightarrow> uart_hw) \<Rightarrow> scbs \<Rightarrow> scbs" where
  "on_uart f s =
     s\<lparr>uarts := (uarts s)(uart_id (config s) := f (uarts s (uart_id (config s))))\<rparr>"

definition my_uart :: "scbs \<Rightarrow> uart_hw" where
  "my_uart s = uarts s (uart_id (config s))"

definition set_my_uart :: "uart_hw \<Rightarrow> scbs \<Rightarrow> scbs" where
  "set_my_uart u = on_uart (\<lambda>_. u)"

definition on_gpio :: "(gpio_hw \<Rightarrow> gpio_hw) \<Rightarrow> scbs \<Rightarrow> scbs" where
  "on_gpio f s = s\<lparr>gpio := f (gpio s)\<rparr>"

definition on_pwm :: "(pwm_hw \<Rightarrow> pwm_hw) \<Rightarrow> scbs \<Rightarrow> scbs" where
  "on_pwm f s = s\<lparr>pwm := f (pwm s)\<rparr>"

definition on_adc :: "(adc_hw \<Rightarrow> adc_hw) \<Rightarrow> scbs \<Rightarrow> scbs" where
  "on_adc f s = s\<lparr>adc := f (adc s)\<rparr>"

text \<open>Reading the cell number before a discover packet has set it reads an indeterminate value.\<close>

definition GetCellID :: "scbs \<Rightarrow> fault + u16" where
  "GetCellID s = (case cell_id s of None \<Rightarrow> Inl Uninitialised | Some i \<Rightarrow> Inr i)"

definition GetOutputCurrent :: "scbs \<Rightarrow> fp" where
  "GetOutputCurrent s = output_current s"

section \<open>Initialisation\<close>

definition SCBS_Init :: "scbs \<Rightarrow> fault + scbs" where
  "SCBS_Init s0 =
     (let c = config s0;
          led = unat (led_pin c);
          slice_num = pwm_gpio_to_slice_num (unat (pwm_pin c));
          s1 = on_gpio (gpio_set_dir led True) (on_gpio (gpio_init led) s0)
      in rbind (uart_init (clk_peri_hz s1) (ucast (uart_baud c)) (my_uart s1)) (\<lambda>(baud, u).
           let s2 = set_my_uart u s1;
               s3 = on_gpio (gpio_set_function (unat (uart_rx_pin c)) GPIO_FUNC_UART)
                     (on_gpio (gpio_set_function (unat (uart_tx_pin c)) GPIO_FUNC_UART) s2);
               s4 = on_uart (uart_set_fifo_enabled True)
                     (on_uart (uart_set_format (ucast (uart_data_bits c)) (ucast (uart_stop_bits c))
                                (cfg_uart_parity c))
                       (on_uart (uart_set_hw_flow False False) s3));
               s5 = s4\<lparr>uart_rx_buf := zeroed kMaxUARTBufLen, uart_rx_buf_len := 0\<rparr>;
               s6 = on_gpio (gpio_set_function (unat (pwm_pin c)) GPIO_FUNC_PWM) s5;
               s7 = on_pwm (pwm_set_enabled slice_num True)
                     (on_pwm (pwm_set_chan_level slice_num (pwm_channel c) kPWMDefaultDuty)
                       (on_pwm (pwm_set_wrap slice_num kMaxPWMCount) s6));
               s8 = on_gpio (adc_gpio_init (unat (csense_pin c))) (on_adc adc_init s7);
               s9 = sleep_ms 100 (on_gpio (gpio_put led True) s8)
           in Inr (on_gpio (gpio_put led False) s9)))"

section \<open>Outputs\<close>

text \<open>The sum is a \<open>double\<close>, converted back to 32 bits: out of range it is undefined.\<close>

definition TurnOnStatusLED :: "u32 \<Rightarrow> scbs \<Rightarrow> fault + scbs" where
  "TurnOnStatusLED on_time_ms s =
     rbind (fp_to_int 0 (2 ^ 32 - 1)
              (fp_add Binary64 (fp_of_int Binary64 (uint (time_us_32 s)))
                (fp_mul Binary64 (fp_lit Binary64 1000) (fp_of_int Binary64 (uint on_time_ms)))))
       (\<lambda>t. Inr ((on_gpio (gpio_put (unat (led_pin (config s))) True) s)
                   \<lparr>status_led_on := True, status_led_off_timestamp := word_of_int t\<rparr>))"

definition clamp_output :: "fp \<Rightarrow> fp" where
  "clamp_output v =
     (if fp_lt kMaxOutputVoltage v then kMaxOutputVoltage
      else if fp_lt v kMinOutputVoltage then kMinOutputVoltage else v)"

definition estimated_offset :: "fp \<Rightarrow> fp" where
  "estimated_offset v =
     (let v2 = fp_mul Binary32 v v;
          v3 = fp_mul Binary32 v2 v
      in fp_add Binary32
           (fp_add Binary32
             (fp_add Binary32 (fp_mul Binary32 v3 kOutputVoltageCalCoeffX3)
               (fp_mul Binary32 v2 kOutputVoltageCalCoeffX2))
             (fp_mul Binary32 v kOutputVoltageCalCoeffX))
           kOutputVoltageCalCoeffConst)"

definition pwm_voltage :: "fp \<Rightarrow> fp" where
  "pwm_voltage v =
     (let p = fp_sub Binary32 v (estimated_offset v)
      in if fp_lt kPowerSupplyVoltage5V p then kPowerSupplyVoltage5V
         else if fp_lt p (Zero False) then Zero False else p)"

definition duty_of :: "fp \<Rightarrow> fault + u16" where
  "duty_of p =
     rbind (fp_to_int 0 (2 ^ 16 - 1)
              (fp_mul Binary32 (fp_div Binary32 p kPowerSupplyVoltage5V)
                (fp_of_int Binary32 (uint kMaxPWMCount))))
       (\<lambda>d. Inr (1000 - word_of_int d))"

definition SetOutputVoltage :: "fp \<Rightarrow> scbs \<Rightarrow> fault + (fp \<times> scbs)" where
  "SetOutputVoltage voltage s =
     (let v = clamp_output voltage; c = config s
      in rbind (duty_of (pwm_voltage v)) (\<lambda>duty.
           Inr (v, on_pwm (pwm_set_chan_level (pwm_gpio_to_slice_num (unat (pwm_pin c)))
                            (pwm_channel c) duty) s)))"

definition ReadOutputCurrent :: "scbs \<Rightarrow> scbs" where
  "ReadOutputCurrent s =
     (let s1 = on_adc (adc_select_input (ucast (csense_adc_input (config s)))) s
      in case adc_read (adc s1) of (adc_counts, a) \<Rightarrow>
           s1\<lparr>adc := a,
              output_current :=
                fp_div Binary32
                  (fp_mul Binary32 (fp_of_int Binary32 (uint adc_counts)) kMaxCsenseCurrent)
                  (fp_of_int Binary32 (uint kMaxADCCount))\<rparr>)"

section \<open>Registers\<close>

definition WriteRegister :: "u32 \<Rightarrow> cell list \<Rightarrow> scbs \<Rightarrow> fault + (u16 \<times> scbs)" where
  "WriteRegister reg_addr value_in s =
     (if reg_addr = kRegAddrSetOutputVoltage then
        rbind (c_string value_in) (\<lambda>text.
        rbind (SetOutputVoltage (strtof text) s) (\<lambda>(v, s1).
        rbind (TurnOnStatusLED kRegisterWriteBlinkTimeMs (s1\<lparr>output_voltage := v\<rparr>)) (\<lambda>s2.
          Inr (kErrCodeNone, s2))))
      else if reg_addr = kRegAddrReadOutputCurrent then Inr (kErrCodeWriteNotSupported, s)
      else Inr (kErrCodeAddrNotRecognized, s))"

definition ReadRegister :: "u32 \<Rightarrow> cell list \<Rightarrow> scbs \<Rightarrow> fault + (u16 \<times> cell list \<times> scbs)" where
  "ReadRegister reg_addr value_out s =
     (let done = (\<lambda>out. rbind (TurnOnStatusLED kRegisterReadBlinkTimeMs s)
                          (\<lambda>s1. Inr (kErrCodeNone, out, s1)))
      in if reg_addr = kRegAddrSetOutputVoltage then
           rbind (snprintf value_out (int (kMaxPacketFieldLen - 1)) ''%.2f''
                    [VDouble (output_voltage s)]) done
         else if reg_addr = kRegAddrReadOutputCurrent then
           rbind (snprintf value_out (int (kMaxPacketFieldLen - 1)) ''%.2f''
                    [VDouble (output_current s)]) done
         else if reg_addr = kRegAddrReadFirmwareVersion then
           rbind (snprintf value_out (int (kMaxPacketFieldLen - 1)) SCBS_FIRMWARE_VERSION []) done
         else Inr (kErrCodeAddrNotRecognized, value_out, s))"

section \<open>Sending\<close>

definition TransmitPacket ::
    "(cell list option \<Rightarrow> 'p \<Rightarrow> fault + (u16 \<times> 'p \<times> cell list option)) \<Rightarrow> 'p \<Rightarrow>
     scbs \<Rightarrow> fault + scbs" where
  "TransmitPacket ToString packet s =
     rbind (ToString (Some (uninit kMaxUARTBufLen)) packet) (\<lambda>(n, p, tx_buf).
     rbind (uart_puts (case tx_buf of None \<Rightarrow> [] | Some b \<Rightarrow> b) (my_uart s)) (\<lambda>u1.
     rbind (uart_puts (lit [CHR 0x0D, CHR 0x0A]) u1) (\<lambda>u2.
       Inr (set_my_uart u2 s))))"

definition TransmitError :: "u16 \<Rightarrow> scbs \<Rightarrow> fault + scbs" where
  "TransmitError err_code s =
     rbind (if err_code = kErrCodeNone
            then snprintf (zeroed kMaxPacketFieldLen) (int (kMaxPacketFieldLen - 1)) ''OK'' []
            else snprintf (zeroed kMaxPacketFieldLen) (int (kMaxPacketFieldLen - 1)) ''ERR:%X''
                   [VInt (ucast err_code)]) (\<lambda>err_str.
     rbind (GetCellID s) (\<lambda>id.
     rbind (SRSPacket_of_values id err_str) (\<lambda>packet_out.
       TransmitPacket SRSPacket_ToString packet_out s)))"

section \<open>Packet handlers\<close>

definition DISPacketHandler :: "dis_packet \<Rightarrow> scbs \<Rightarrow> fault + scbs" where
  "DISPacketHandler packet_in s =
     (if IsValid packet_in then
        (let id = last_cell_id packet_in + 1
         in rbind (DISPacket_of_values id) (\<lambda>packet_out.
              TransmitPacket DISPacket_ToString packet_out (s\<lparr>cell_id := Some id\<rparr>)))
      else TransmitError kErrCodeReceivedInvalidPacket s)"

definition MWRPacketHandler :: "mwr_packet \<Rightarrow> scbs \<Rightarrow> fault + scbs" where
  "MWRPacketHandler packet_in s =
     (if IsValid packet_in then
        rbind (WriteRegister (mwr_reg_addr packet_in) (mwr_value packet_in) s) (\<lambda>(err_code, s1).
          if err_code \<noteq> kErrCodeNone then TransmitError err_code s1
          else TransmitPacket MWRPacket_ToString packet_in s1)
      else TransmitError kErrCodeReceivedInvalidPacket s)"

definition MRDPacketHandler :: "mrd_packet \<Rightarrow> scbs \<Rightarrow> fault + scbs" where
  "MRDPacketHandler packet_in s =
     (if IsValid packet_in then
        (if kMaxNumValues \<le> unat (mrd_num_values packet_in)
         then TransmitError kErrCodePacketLengthExceeded s
         else
           rbind (ReadRegister (mrd_reg_addr packet_in) (zeroed kMaxPacketFieldLen) s)
             (\<lambda>(err_code, my_value, s1).
              if err_code \<noteq> kErrCodeNone then TransmitError err_code s1
              else
                (let vs = mrd_values packet_in; n = unat (mrd_num_values packet_in)
                 in rbind (strncpy (vs ! n) my_value (int kMaxPacketFieldLen)) (\<lambda>v.
                    rbind (MRDPacket_of_values (mrd_reg_addr packet_in) (vs[n := v])
                             (mrd_num_values packet_in + 1)) (\<lambda>packet_out.
                      TransmitPacket MRDPacket_ToString packet_out s1)))))
      else TransmitError kErrCodeReceivedInvalidPacket s)"

definition SWRPacketHandler :: "swr_packet \<Rightarrow> scbs \<Rightarrow> fault + scbs" where
  "SWRPacketHandler packet_in s =
     (if IsValid packet_in then
        rbind (GetCellID s) (\<lambda>id.
          if swr_cell_id packet_in = id then
            rbind (WriteRegister (swr_reg_addr packet_in) (swr_value packet_in) s)
              (\<lambda>(err_code, s1). TransmitError err_code s1)
          else TransmitPacket SWRPacket_ToString packet_in s)
      else TransmitError kErrCodeReceivedInvalidPacket s)"

definition SRDPacketHandler :: "srd_packet \<Rightarrow> scbs \<Rightarrow> fault + scbs" where
  "SRDPacketHandler packet_in s =
     (if IsValid packet_in then
        rbind (GetCellID s) (\<lambda>id.
          if srd_cell_id packet_in = id then
            rbind (ReadRegister (srd_reg_addr packet_in) (zeroed kMaxPacketFieldLen) s)
              (\<lambda>(err_code, my_value, s1).
               if err_code \<noteq> kErrCodeNone then TransmitError err_code s1
               else
                 rbind (SRSPacket_of_values id my_value) (\<lambda>packet_out.
                   TransmitPacket SRSPacket_ToString packet_out s1))
          else TransmitPacket SRDPacket_ToString packet_in s)
      else TransmitError kErrCodeReceivedInvalidPacket s)"

definition SRSPacketHandler :: "srs_packet \<Rightarrow> scbs \<Rightarrow> fault + scbs" where
  "SRSPacketHandler packet_in s =
     (if IsValid packet_in then TransmitPacket SRSPacket_ToString packet_in s
      else TransmitError kErrCodeReceivedInvalidPacket s)"

section \<open>Receiving\<close>

definition FlushUARTBuf :: "scbs \<Rightarrow> scbs" where
  "FlushUARTBuf s = s\<lparr>uart_rx_buf := zeroed kMaxUARTBufLen, uart_rx_buf_len := 0\<rparr>"

definition AppendCharToUARTBuf :: "char \<Rightarrow> scbs \<Rightarrow> fault + scbs" where
  "AppendCharToUARTBuf new_char s =
     rbind (strncat (uart_rx_buf s) [Some new_char] 1) (\<lambda>b.
       Inr (s\<lparr>uart_rx_buf := b, uart_rx_buf_len := uart_rx_buf_len s + 1\<rparr>))"

lemma uart_getc_consumes:
  "uart_getc u = Inr (c, u') \<Longrightarrow> length (rx_fifo u') < length (rx_fifo u)"
  by (auto simp: uart_getc_def elim!: rbind_eq_InrE split: list.splits)

lemma AppendCharToUARTBuf_uart:
  "AppendCharToUARTBuf c s = Inr s' \<Longrightarrow> my_uart s' = my_uart s"
  by (auto simp: AppendCharToUARTBuf_def my_uart_def elim!: rbind_eq_InrE)

lemma my_uart_simps [simp]:
  "my_uart (set_my_uart u s) = u" "my_uart (FlushUARTBuf s) = my_uart s"
  by (simp_all add: my_uart_def set_my_uart_def on_uart_def FlushUARTBuf_def)

text \<open>The result is the length of the packet, or zero while none is complete.\<close>

function ReceivePacket :: "scbs \<Rightarrow> fault + (u16 \<times> scbs)" where
  "ReceivePacket s =
     (if uart_is_readable (my_uart s) \<and> unat (uart_rx_buf_len s) < kMaxUARTBufLen - 1 then
        (case uart_getc (my_uart s) of
           Inl e \<Rightarrow> Inl e
         | Inr (new_char, u) \<Rightarrow>
             (let s1 = set_my_uart u s
              in if new_char = CHR 0x0A then
                   rbind (AppendCharToUARTBuf new_char s1) (\<lambda>s2.
                   rbind (strlen (uart_rx_buf s2)) (\<lambda>n. Inr (of_nat n, s2)))
                 else if kMaxUARTBufLen \<le> unat (uart_rx_buf_len s1) then
                   ReceivePacket (FlushUARTBuf s1)
                 else
                   (case AppendCharToUARTBuf new_char s1 of
                      Inl e \<Rightarrow> Inl e
                    | Inr s2 \<Rightarrow> ReceivePacket s2)))
      else Inr (0, s))"
  by pat_completeness auto
termination
  by (relation "measure (\<lambda>s. length (rx_fifo (my_uart s)))")
    (auto dest!: uart_getc_consumes AppendCharToUARTBuf_uart)

declare ReceivePacket.simps [simp del]

section \<open>The main loop\<close>

definition dispatch_packet :: "bs_packet \<Rightarrow> scbs \<Rightarrow> fault + scbs" where
  "dispatch_packet packet s =
     (let buf = uart_rx_buf s
      in case GetPacketType packet of
           DIS \<Rightarrow> rbind (DISPacket_of_string buf) (\<lambda>p. DISPacketHandler p s)
         | MRD \<Rightarrow> rbind (MRDPacket_of_string buf) (\<lambda>p. MRDPacketHandler p s)
         | MWR \<Rightarrow> rbind (MWRPacket_of_string buf) (\<lambda>p. MWRPacketHandler p s)
         | SRD \<Rightarrow> rbind (SRDPacket_of_string buf) (\<lambda>p. SRDPacketHandler p s)
         | SWR \<Rightarrow> rbind (SWRPacket_of_string buf) (\<lambda>p. SWRPacketHandler p s)
         | SRS \<Rightarrow> rbind (SRSPacket_of_string buf) (\<lambda>p. SRSPacketHandler p s)
         | UNKNOWN \<Rightarrow> Inr s)"

definition process_comms :: "scbs \<Rightarrow> fault + scbs" where
  "process_comms s =
     rbind (ReceivePacket s) (\<lambda>(n, s1).
       if n = 0 then Inr s1
       else
         rbind (TurnOnStatusLED kPacketReceivedBlinkTimeMs s1) (\<lambda>s2.
         rbind (BSPacket_of_string (uart_rx_buf s2)) (\<lambda>packet.
         rbind (if IsValid packet then dispatch_packet packet s2 else Inr s2) (\<lambda>s3.
           Inr (FlushUARTBuf s3)))))"

definition update_led :: "scbs \<Rightarrow> scbs" where
  "update_led s =
     (if status_led_on s \<and> status_led_off_timestamp s < time_us_32 s
      then (on_gpio (gpio_put (unat (led_pin (config s))) False) s)\<lparr>status_led_on := False\<rparr>
      else s)"

definition SCBS_Update :: "scbs \<Rightarrow> fault + scbs" where
  "SCBS_Update s =
     rbind (process_comms s) (\<lambda>s1.
     rbind (SetOutputVoltage (output_voltage s1) s1) (\<lambda>(v, s2).
       Inr (update_led (ReadOutputCurrent s2))))"

text \<open>
  \<open>main\<close>: construct, initialise, and update for ever; here for the rounds in which the given
  functions say what the outside does between two updates.
\<close>

fun main_loop :: "(scbs \<Rightarrow> scbs) list \<Rightarrow> scbs \<Rightarrow> fault + scbs" where
  "main_loop [] s = Inr s"
| "main_loop (env # envs) s = rbind (SCBS_Update (env s)) (main_loop envs)"

definition main :: "(scbs \<Rightarrow> scbs) list \<Rightarrow> machine \<Rightarrow> fault + scbs" where
  "main envs m = rbind (SCBS_Init (SCBS_new default_config m)) (main_loop envs)"

end
