(* ===== verification/Printf_Facts.thy ===== *)
theory Printf_Facts
  imports Printf
begin

text \<open>
  What the formatter produces. Every conversion is shown to be one \<open>emit\<close> of a list of
  characters, whatever the output function; for a buffer, \<open>snprintf\<close> then stores the longest
  prefix that fits and a terminating null. Decimal and hexadecimal numerals are read back by
  \<open>strtoul\<close>.
\<close>

unbundle bit_operations_syntax

section \<open>Runs of output\<close>

lemma emit_append:
  "emit out n (xs @ ys) idx s = rbind (emit out n xs idx s) (\<lambda>(i, s'). emit out n ys i s')"
  by (induction xs arbitrary: idx s) (auto simp: rbind_assoc intro!: rbind_cong)

lemma emit_index:
  "emit out n xs idx s = Inr (i, s') \<Longrightarrow> i = idx + int (length xs)"
  by (induction xs arbitrary: idx s) (fastforce elim!: rbind_eq_InrE)+

lemma emit_emit [printf_simps]:
  "rbind (emit out n xs idx s) (\<lambda>(i, s'). emit out n ys i s') = emit out n (xs @ ys) idx s"
  by (rule emit_append [symmetric])

lemma emit_single [printf_simps]:
  "rbind (out c s idx n) (\<lambda>s'. emit out n ys (idx + 1) s') = emit out n (c # ys) idx s"
  by simp

section \<open>Into a buffer\<close>

text \<open>The buffer after \<open>xs\<close> has been written from index \<open>i\<close> on with the limit \<open>n\<close>.\<close>

definition stored :: "int \<Rightarrow> char list \<Rightarrow> nat \<Rightarrow> cell list \<Rightarrow> cell list" where
  "stored n xs i b =
     (let k = min (length xs) (nat n - i) in take i b @ map Some (take k xs) @ drop (i + k) b)"

lemma out_full: "n \<le> i \<Longrightarrow> out_buffer c b i n = Inr b"
  by (simp add: out_buffer_def)

lemma emit_full:
  "n \<le> i \<Longrightarrow> emit out_buffer n xs i b = Inr (i + int (length xs), b)"
  by (induction xs arbitrary: i) (auto simp: out_full)

lemma emit_buffer:
  assumes "n \<le> int (length b)" "i \<le> length b"
  shows "emit out_buffer n xs (int i) b = Inr (int i + int (length xs), stored n xs i b)"
  using assms
proof (induction xs arbitrary: i b)
  case Nil
  then show ?case by (simp add: stored_def)
next
  case (Cons x xs)
  show ?case
  proof (cases "int i < n")
    case True
    then have "emit out_buffer n (x # xs) (int i) b =
        emit out_buffer n xs (int (Suc i)) (b[i := Some x])"
      using Cons.prems by (auto simp: out_buffer_def algebra_simps)
    also have "\<dots> = Inr (int (Suc i) + int (length xs), stored n xs (Suc i) (b[i := Some x]))"
      using Cons.prems True by (intro Cons.IH) auto
    also have "stored n xs (Suc i) (b[i := Some x]) = stored n (x # xs) i b"
    proof -
      have "i < length b" using True Cons.prems by auto
      then have "take (Suc i) (b[i := Some x]) = take i b @ [Some x]"
        by (simp add: take_Suc_conv_app_nth)
      moreover have "nat n - i = Suc (nat n - Suc i)" using True by auto
      ultimately show ?thesis by (simp add: stored_def Let_def)
    qed
    finally show ?thesis by simp
  next
    case False
    then have "emit out_buffer n xs (int i + 1) b = Inr (int i + 1 + int (length xs), b)"
      by (intro emit_full) simp
    then show ?thesis
      using False by (simp add: out_full stored_def)
  qed
qed

lemma length_stored [simp]:
  "i \<le> length b \<Longrightarrow> nat n \<le> length b \<Longrightarrow> length (stored n xs i b) = length b"
  by (simp add: stored_def Let_def)

text \<open>The text a format stands for, whatever it is sent to.\<close>

definition formats :: "char list \<Rightarrow> va_arg list \<Rightarrow> char list \<Rightarrow> bool" where
  "formats fmt va cs \<longleftrightarrow>
     (\<forall>n idx (b :: cell list). vsn_loop out_buffer n fmt va idx b = emit out_buffer n cs idx b)"

text \<open>\<open>snprintf\<close>: the prefix that fits, a null, and the rest of the buffer as it was.\<close>

lemma snprintf_stores:
  assumes "formats fmt va cs" "0 < n" "n \<le> length b" "n < 2 ^ 32"
  shows "snprintf b (int n) fmt va =
    Inr (map Some (take (n - 1) cs) @ Some NUL # drop (min (length cs + 1) n) b)"
proof -
  let ?k = "min (length cs) n" and ?b = "stored (int n) cs 0 b"
  have e: "vsn_loop out_buffer (int n) fmt va 0 b = Inr (int (length cs), ?b)"
    using assms emit_buffer [of "int n" b 0 cs] by (simp add: formats_def)
  have b: "?b = map Some (take ?k cs) @ drop ?k b"
    by (simp add: stored_def Let_def)
  have len: "length ?b = length b" using assms by simp
  have cap: "(int n - 1) mod 2 ^ 32 = int (n - 1)"
    using assms(2,4) by (simp add: of_nat_diff)
  have "snprintf b (int n) fmt va = Inr (?b[min (length cs) (n - 1) := Some NUL])"
    using assms(2,3) len cap
    by (auto simp: snprintf_def vsnprintf_def e out_buffer_def min_def nat_diff_distrib)
  also have "?b[min (length cs) (n - 1) := Some NUL] =
      map Some (take (n - 1) cs) @ Some NUL # drop (min (length cs + 1) n) b"
  proof (cases "length cs < n")
    case True
    then have "drop (length cs) b = b ! length cs # drop (Suc (length cs)) b"
      using assms(3) by (simp add: Cons_nth_drop_Suc)
    moreover have "length cs \<le> n - 1" using True by simp
    ultimately show ?thesis using True by (simp add: b list_update_append min_def)
  next
    case False
    then obtain m where m: "n = Suc m" "m < length cs" using assms(2) by (cases n) auto
    then have "take n cs = take m cs @ [cs ! m]" by (simp add: take_Suc_conv_app_nth)
    moreover have "min (length cs) n = Suc m" "min (length cs) (n - 1) = m" using m by auto
    ultimately show ?thesis unfolding b using m by (simp add: list_update_append)
  qed
  finally show ?thesis .
qed

section \<open>Numerals\<close>

text \<open>The numeral of a number, most significant digit first.\<close>

function numeral_of :: "int \<Rightarrow> bool \<Rightarrow> int \<Rightarrow> char list" where
  "numeral_of base upper v =
     (if v < base \<or> base < 2 then [digit_char upper v]
      else numeral_of base upper (v div base) @ [digit_char upper (v mod base)])"
  by pat_completeness auto
termination
  by (relation "measure (\<lambda>(base, upper, v). nat v)") (auto simp: int_div_less_self)

declare numeral_of.simps [simp del]

abbreviation decimal :: "int \<Rightarrow> char list" where
  "decimal \<equiv> numeral_of 10 False"

abbreviation hex :: "int \<Rightarrow> char list" where
  "hex \<equiv> numeral_of 16 True"

lemma numeral_of_nonempty [simp]: "numeral_of base upper v \<noteq> []"
  by (subst numeral_of.simps) simp

lemma int_div_less: "0 < b \<Longrightarrow> v < b * c \<Longrightarrow> v div b < (c :: int)"
proof (rule ccontr)
  assume b: "0 < b" "v < b * c" and "\<not> v div b < c"
  then have "b * c \<le> b * (v div b)" by simp
  also have "\<dots> \<le> v" using b by (metis mult.commute minus_mod_eq_div_mult pos_mod_sign diff_le_self le_add_same_cancel2 diff_add_cancel add.commute)
  finally show False using b by simp
qed

lemma numeral_of_length:
  "2 \<le> base \<Longrightarrow> 0 \<le> v \<Longrightarrow> v < base ^ k \<Longrightarrow> 0 < k \<Longrightarrow> length (numeral_of base upper v) \<le> k"
proof (induction k arbitrary: v)
  case (Suc k)
  show ?case
  proof (cases "v < base")
    case True
    then show ?thesis by (subst numeral_of.simps) simp
  next
    case False
    with Suc.prems have "0 < k" by (cases k) auto
    moreover have "v div base < base ^ k"
      using Suc.prems int_div_less [of base v "base ^ k"] by simp
    ultimately have "length (numeral_of base upper (v div base)) \<le> k"
      using Suc.prems by (intro Suc.IH) (auto simp: pos_imp_zdiv_nonneg_iff)
    then show ?thesis using False Suc.prems by (subst numeral_of.simps) simp
  qed
qed simp

lemma ntoa_digits_numeral:
  assumes "2 \<le> base" "0 \<le> v" "length buf + length (numeral_of base upper v) \<le> 32"
  shows "ntoa_digits base upper v buf = buf @ rev (numeral_of base upper v)"
  using assms
proof (induction base upper v arbitrary: buf rule: numeral_of.induct)
  case (1 base upper v)
  show ?case
  proof (cases "v < base")
    case True
    with 1 show ?thesis
      by (subst numeral_of.simps, subst ntoa_digits.simps) (simp add: Let_def div_pos_pos_trivial)
  next
    case False
    let ?d = "digit_char upper (v mod base)"
    have n: "numeral_of base upper v = numeral_of base upper (v div base) @ [?d]"
      using False 1 by (subst numeral_of.simps) simp
    have "0 < v div base"
      using False 1 by (simp add: pos_imp_zdiv_pos_iff)
    then have "v div base \<noteq> 0" by simp
    moreover have "int (length (buf @ [?d])) < 32"
      using 1(4) n by (cases "numeral_of base upper (v div base)") auto
    ultimately have "ntoa_digits base upper v buf = ntoa_digits base upper (v div base) (buf @ [?d])"
      by (subst ntoa_digits.simps) (simp add: Let_def)
    also have "\<dots> = (buf @ [?d]) @ rev (numeral_of base upper (v div base))"
      using 1 False n by (intro 1(1)) (auto simp: pos_imp_zdiv_nonneg_iff)
    finally show ?thesis by (simp add: n)
  qed
qed

lemma numeral_of_32 [printf_simps]:
  "ntoa_digits 10 upper (uint (w :: u32)) [] = rev (numeral_of 10 upper (uint w))"
  "ntoa_digits 16 upper (uint (w :: u32)) [] = rev (numeral_of 16 upper (uint w))"
proof -
  have w: "0 \<le> uint w" "uint w < 2 ^ 32" using uint_bounded [of w] by auto
  have "length (numeral_of 10 upper (uint w)) \<le> 10" "length (numeral_of 16 upper (uint w)) \<le> 8"
    using w by (auto intro!: numeral_of_length)
  then show "ntoa_digits 10 upper (uint w) [] = rev (numeral_of 10 upper (uint w))"
    "ntoa_digits 16 upper (uint w) [] = rev (numeral_of 16 upper (uint w))"
    using w by (simp_all add: ntoa_digits_numeral)
qed

section \<open>Conversions\<close>

lemma rbind_pair_right [simp]: "rbind m (\<lambda>(i, s). Inr (i, s)) = m"
  by (cases m) auto

lemma ntoa_digits_zero [printf_simps]:
  "ntoa_digits 10 upper 0 [] = rev (numeral_of 10 upper 0)"
  "ntoa_digits 16 upper 0 [] = rev (numeral_of 16 upper 0)"
  using numeral_of_32 [of upper 0] by simp_all

lemma out_rev_plain:
  "\<not> flag_set flags FLAGS_LEFT \<Longrightarrow> width \<le> int (length buf) \<Longrightarrow>
   out_rev out n buf width flags idx s = emit out n (rev buf) idx s"
  by (simp add: out_rev_def)

lemma ntoa_plain [printf_simps]:
  "ntoa_long out n w False 10 0 0 0 idx s = emit out n (decimal (uint w)) idx s"
  "ntoa_long out n w False 16 0 0 FLAGS_UPPERCASE idx s = emit out n (hex (uint w)) idx s"
  by (simp_all add: ntoa_long_def ntoa_format_def ntoa_width_def ntoa_buf_def pad_zeros_def
      push_sign_def out_rev_plain numeral_of_32 ntoa_digits_zero)

text \<open>Two hexadecimal digits, with a leading zero when one would do.\<close>

definition hex2 :: "int \<Rightarrow> char list" where
  "hex2 v = (if v < 16 then CHR ''0'' # hex v else hex v)"

lemma hex2_length: "0 \<le> v \<Longrightarrow> v < 256 \<Longrightarrow> length (hex2 v) = 2"
proof -
  assume v: "0 \<le> v" "v < 256"
  have "length (hex v) = (if v < 16 then 1 else 2)"
    using v by (subst numeral_of.simps; subst numeral_of.simps) auto
  then show ?thesis using v by (simp add: hex2_def)
qed

lemma ntoa_hex2:
  assumes "uint w < 256"
  shows "ntoa_long out n w False 16 0 2 (FLAGS_ZEROPAD OR FLAGS_UPPERCASE) idx s =
    emit out n (hex2 (uint w)) idx s"
proof -
  have "length (hex (uint w)) = (if uint w < 16 then 1 else 2)"
    using hex2_length [of "uint w"] assms by (simp add: hex2_def split: if_splits)
  moreover have "length (hex 0) = 1" by (subst numeral_of.simps) simp
  ultimately show ?thesis
    by (simp add: ntoa_long_def ntoa_format_def ntoa_width_def ntoa_buf_def pad_zeros_def
        push_sign_def out_rev_def PICO_PRINTF_NTOA_BUFFER_SIZE_def numeral_of_32 ntoa_digits_zero hex2_def)
qed

lemma strnlen_s_string:
  "c_string p = Inr t \<Longrightarrow> int (length t) \<le> m \<Longrightarrow> strnlen_s p m = Inr (int (length t))"
  by (induction p arbitrary: t m rule: c_string.induct)
    (auto split: if_splits elim!: rbind_eq_InrE)

lemma emit_string_all:
  "c_string p = Inr t \<Longrightarrow> emit_string out n False prec p idx s = emit out n t idx s"
  by (induction p arbitrary: t prec idx s rule: c_string.induct)
    (auto split: if_splits elim!: rbind_eq_InrE intro!: rbind_cong)

lemma conv_string_plain:
  assumes "c_string p = Inr t" "int (length t) < 2 ^ 32"
  shows "conv_string out n 0 0 0 (VStr p # va) idx s =
    rbind (emit out n t idx s) (\<lambda>(i, s'). Inr (i, s', va))"
  using assms
  by (simp add: conv_string_def strnlen_s_string emit_string_all pad_text_def rbind_assoc)

section \<open>Formats\<close>

lemma formatsD: "formats fmt va cs \<Longrightarrow>
    vsn_loop out_buffer n fmt va idx b = emit out_buffer n cs idx b"
  by (simp add: formats_def)

lemma formats_nil [printf_simps]: "formats [] va []"
  by (simp add: formats_def)

lemma formats_lit [printf_simps]:
  "c \<noteq> CHR ''%'' \<Longrightarrow> formats fmt va cs \<Longrightarrow> formats (c # fmt) va (c # cs)"
  by (auto simp: formats_def vsn_loop.simps(2) intro!: rbind_cong)

text \<open>A conversion that emits \<open>xs\<close> and leaves the arguments \<open>va'\<close>, then the rest.\<close>

lemma formats_conv:
  assumes "parse_spec (spec @ c # fmt) va = Inr (flags, width, prec, c # fmt, va)"
    and "\<And>n idx (b :: cell list). convert out_buffer n c flags width prec va idx b =
           rbind (emit out_buffer n xs idx b) (\<lambda>(i, s). Inr (i, s, va'))"
    and "formats fmt va' cs"
  shows "formats (CHR ''%'' # spec @ c # fmt) va (xs @ cs)"
  using assms(1,2) formatsD [OF assms(3)]
  by (simp add: formats_def vsn_loop.simps(2) emit_append rbind_assoc case_prod_unfold)

lemma parse_spec_plain:
  "c \<in> {CHR ''d'', CHR ''X'', CHR ''s'', CHR ''f''} \<Longrightarrow>
   parse_spec (c # fmt) va = Inr (0, 0, 0, c # fmt, va)"
  by (elim insertE emptyE;
      simp add: parse_spec_def parse_width_def parse_precision_def parse_length_def is_digit_def)

lemma formats_d [printf_simps]:
  assumes "uint w < 2 ^ 31" "formats fmt va cs"
  shows "formats (''%d'' @ fmt) (VInt w # va) (decimal (uint w) @ cs)"
proof -
  have "sint w = uint w"
    using assms(1) signed_take_bit_int_eq_self [of 31 "uint w"] uint_ge_0 [of w]
    by (simp add: sint_uint)
  then have "\<not> sint w < 0" by simp
  moreover have "w \<noteq> 0x80000000" using assms(1) by auto
  ultimately have "convert out_buffer n CHR ''d'' 0 0 0 (VInt w # va) idx b =
      rbind (emit out_buffer n (decimal (uint w)) idx b) (\<lambda>(i, s). Inr (i, s, va))" for n idx b
    by (simp add: convert_def conv_int_def int_flags_def int_base_def signed_arg_def printf_simps)
  from formats_conv [of "[]", OF _ this assms(2)] show ?thesis
    by (simp add: parse_spec_plain)
qed

lemma formats_X [printf_simps]:
  assumes "formats fmt va cs"
  shows "formats (''%X'' @ fmt) (VInt w # va) (hex (uint w) @ cs)"
proof -
  have "convert out_buffer n CHR ''X'' 0 0 0 (VInt w # va) idx b =
      rbind (emit out_buffer n (hex (uint w)) idx b) (\<lambda>(i, s). Inr (i, s, va))" for n idx b
    by (simp add: convert_def conv_int_def int_flags_def int_base_def unsigned_arg_def printf_simps)
  from formats_conv [of "[]", OF _ this assms] show ?thesis
    by (simp add: parse_spec_plain)
qed

lemma formats_02X [printf_simps]:
  assumes "uint w < 256" "formats fmt va cs"
  shows "formats (''%02X'' @ fmt) (VInt w # va) (hex2 (uint w) @ cs)"
proof -
  have "convert out_buffer n CHR ''X'' FLAGS_ZEROPAD 2 0 (VInt w # va) idx b =
      rbind (emit out_buffer n (hex2 (uint w)) idx b) (\<lambda>(i, s). Inr (i, s, va))" for n idx b
    using ntoa_hex2 [OF assms(1), of out_buffer n idx b]
    by (simp add: convert_def conv_int_def int_flags_def int_base_def unsigned_arg_def)
  from formats_conv [of "''02''", OF _ this assms(2)] show ?thesis
    by (simp add: parse_spec_def parse_width_def parse_precision_def parse_length_def is_digit_def)
qed

lemma formats_s [printf_simps]:
  assumes "c_string p = Inr t" "int (length t) < 2 ^ 32" "formats fmt va cs"
  shows "formats (''%s'' @ fmt) (VStr p # va) (t @ cs)"
proof -
  have "convert out_buffer n CHR ''s'' 0 0 0 (VStr p # va) idx b =
      rbind (emit out_buffer n t idx b) (\<lambda>(i, s). Inr (i, s, va))" for n idx b
    by (simp add: convert_def conv_string_plain [OF assms(1,2)])
  from formats_conv [of "[]", OF _ this assms(3)] show ?thesis
    by (simp add: parse_spec_plain)
qed

section \<open>Reading numerals back\<close>

lemma digit_value_char:
  "0 \<le> d \<Longrightarrow> d < base \<Longrightarrow> base \<le> 16 \<Longrightarrow> digit_value base (digit_char upper d) = Some d"
  by (auto simp: digit_char_def digit_value_def Let_def)

lemma numeral_of_all_digits:
  "2 \<le> base \<Longrightarrow> base \<le> 16 \<Longrightarrow> 0 \<le> v \<Longrightarrow> all_digits base (numeral_of base upper v)"
proof (induction base upper v rule: numeral_of.induct)
  case (1 base upper v)
  then show ?case
    by (subst numeral_of.simps)
      (auto simp: all_digits_def digit_value_char pos_imp_zdiv_nonneg_iff)
qed

lemma numeral_of_value:
  "2 \<le> base \<Longrightarrow> base \<le> 16 \<Longrightarrow> 0 \<le> v \<Longrightarrow> digits_value base (numeral_of base upper v) = v"
proof (induction base upper v rule: numeral_of.induct)
  case (1 base upper v)
  then show ?case
    by (subst numeral_of.simps)
      (auto simp: digits_value_def digit_value_char pos_imp_zdiv_nonneg_iff)
qed

lemma strtoul_digits:
  assumes "all_digits base ds" "ds \<noteq> []" "no_digit base r" "base \<le> 16"
    and "r = [] \<or> hd r \<notin> {CHR ''x'', CHR ''X''}" and "digits_value base ds < 2 ^ 32"
  shows "strtoul (ds @ r) base = word_of_int (digits_value base ds)"
proof -
  obtain d ds' where d: "ds = d # ds'" using assms(2) by (cases ds) auto
  then have "digit_value base d \<noteq> None" using assms(1) by (simp add: all_digits_def)
  then have "\<not> isspace d" "d \<noteq> CHR ''-''" "d \<noteq> CHR ''+''"
    by (auto simp: isspace_def digit_value_def)
  moreover have "scan_prefix base (ds @ r) = ds @ r"
    using assms(1,4,5)
    by (cases ds'; cases r) (auto simp: d scan_prefix_def all_digits_def digit_value_def)
  ultimately show ?thesis
    using assms(6) scan_digits_run [OF assms(1,3), of 0]
    by (simp add: strtoul_def scan_number_def scan_sign_def d digits_value_def)
qed

end
