(* ===== verification/Frames.thy ===== *)
theory Frames
  imports BSPacket Printf_Facts
begin

text \<open>
  Frames on the wire. \<open>frame t c\<close> is the text of a packet of type \<open>t\<close> with contents \<open>c\<close>; the
  base class turns contents into frames (\<open>PacketizeContents\<close>) and recognises them
  (\<open>BSPacket_FromString\<close>). The text-level functions here are specifications: the operations of
  the code are shown to compute them.
\<close>

unbundle bit_operations_syntax

section \<open>Checksums\<close>

definition checksum_text :: "char list \<Rightarrow> u8" where
  "checksum_text cs = foldl (\<lambda>a c. a XOR of_char c) 0 cs"

text \<open>What lies between the first start token and the first end token; empty without both.\<close>

definition checked_part :: "char list \<Rightarrow> char list" where
  "checked_part s =
     (case (strchr CHR ''$'' s, strchr CHR ''*'' s) of
        (Some i, Some j) \<Rightarrow> take (j - Suc i) (drop (Suc i) s)
      | _ \<Rightarrow> [])"

lemma strchr_less: "strchr c s = Some i \<Longrightarrow> i < length s"
  by (auto dest!: strchr_SomeD)

lemma foldl_upt_nth:
  "i \<le> j \<Longrightarrow> j \<le> length s \<Longrightarrow>
   foldl (\<lambda>a k. f a (s ! k)) a [i ..< j] = foldl f a (take (j - i) (drop i s))"
proof (induction "j - i" arbitrary: i a)
  case (Suc n)
  then have i: "i < j" by simp
  then have "[i ..< j] = i # [Suc i ..< j]" by (simp add: upt_conv_Cons)
  moreover have "take (j - i) (drop i s) = s ! i # take (j - Suc i) (drop (Suc i) s)"
    using i Suc.prems by (metis Cons_nth_drop_Suc Suc_diff_Suc order_less_le_trans take_Suc_Cons)
  ultimately show ?case using Suc i by simp
qed simp

lemma CalculateChecksum_text:
  assumes "c_string (packet_str p) = Inr s" "length s \<le> kMaxPacketLen"
  shows "CalculateChecksum p = Inr (checksum_text (checked_part s))"
proof (cases "strchr CHR ''$'' s")
  case None
  then show ?thesis
    by (simp add: CalculateChecksum_def assms(1) checked_part_def checksum_text_def)
next
  case (Some i)
  show ?thesis
  proof (cases "strchr CHR ''*'' s")
    case None
    with Some show ?thesis
      by (simp add: CalculateChecksum_def assms(1) checked_part_def checksum_text_def)
  next
    case Some': (Some j)
    have j: "j < length s" using Some' by (rule strchr_less)
    have "foldl (\<lambda>checksum i. checksum XOR of_char (s ! i)) (0 :: u8) [Suc i ..< j]
        = checksum_text (take (j - Suc i) (drop (Suc i) s))"
      using j foldl_upt_nth [of "Suc i" j s "\<lambda>a c. a XOR of_char c" "0 :: u8"]
      by (cases "Suc i \<le> j") (simp_all add: checksum_text_def)
    moreover have "min j kMaxPacketLen = j" using j assms(2) by simp
    ultimately show ?thesis
      using Some Some' by (simp add: CalculateChecksum_def assms(1) checked_part_def)
  qed
qed

lemma foldl_xor:
  "foldl (\<lambda>a c. a XOR of_char c) (b :: u8) zs = b XOR checksum_text zs"
proof (induction zs rule: rev_induct)
  case (snoc z zs)
  then show ?case by (simp add: checksum_text_def xor.assoc)
qed (simp add: checksum_text_def)

lemma checksum_append: "checksum_text (xs @ ys) = checksum_text xs XOR checksum_text ys"
  using foldl_xor [of "checksum_text xs" ys] by (simp add: checksum_text_def)

lemma checksum_Cons: "checksum_text (c # ys) = of_char c XOR checksum_text ys"
  using foldl_xor [of "of_char c" ys] by (simp add: checksum_text_def)

lemma of_char_bound: "0 \<le> (of_char c :: int)" "(of_char c :: int) < 256"
proof -
  have "(of_char c :: int) = of_char c mod 256" by (metis of_char_mod_256)
  then show "0 \<le> (of_char c :: int)" "(of_char c :: int) < 256"
    by (metis pos_mod_sign zero_less_numeral) (metis of_char_mod_256 pos_mod_bound zero_less_numeral)
qed

lemma uint_of_char:
  "8 \<le> LENGTH('a) \<Longrightarrow> uint (of_char c :: 'a::len word) = of_char c"
proof -
  assume l: "8 \<le> LENGTH('a)"
  have "(of_char c :: 'a word) = word_of_int (of_char c)"
    by (simp add: of_int_of_char)
  moreover have "(256 :: int) \<le> 2 ^ LENGTH('a)"
    using power_increasing [OF l, of "2 :: int"] by simp
  ultimately show ?thesis
    using of_char_bound [of c] by (simp add: uint_word_of_int)
qed

lemma char_of_of_char_word [simp]:
  "char_of (uint (of_char c :: u8)) = c" "char_of (uint (of_char c :: u32)) = c"
  by (simp_all add: uint_of_char)

lemma of_char_u8_inj: "(of_char c :: u8) = of_char d \<longleftrightarrow> c = d"
  by (metis char_of_of_char_word(1))

lemma xor_cancel:
  "a XOR b = a XOR c \<longleftrightarrow> b = (c :: u8)" "b XOR a = c XOR a \<longleftrightarrow> b = c"
  by (metis xor.assoc xor_self_eq xor.left_neutral) (metis xor.assoc xor_self_eq xor.right_neutral)

text \<open>Changing one character changes the checksum.\<close>

lemma checksum_one_change:
  "c \<noteq> d \<Longrightarrow> checksum_text (xs @ c # ys) \<noteq> checksum_text (xs @ d # ys)"
  by (simp add: checksum_append checksum_Cons xor_cancel of_char_u8_inj)

section \<open>From contents to a frame\<close>

definition header_of :: "packet_type \<Rightarrow> char list" where
  "header_of t = packet_header_strs ! type_index t"

definition body :: "packet_type \<Rightarrow> char list \<Rightarrow> char list" where
  "body t c = header_of t @ CHR '','' # c"

definition frame :: "packet_type \<Rightarrow> char list \<Rightarrow> char list" where
  "frame t c = CHR ''$'' # body t c @ CHR ''*'' # hex2 (uint (checksum_text (body t c)))"

lemma header_of_simps [simp]:
  "header_of DIS = ''BSDIS''" "header_of MRD = ''BSMRD''" "header_of MWR = ''BSMWR''"
  "header_of SRD = ''BSSRD''" "header_of SWR = ''BSSWR''" "header_of SRS = ''BSSRS''"
  "header_of UNKNOWN = ''?????''"
  by (simp_all add: header_of_def packet_header_strs_def)

lemma header_of_facts [simp]:
  "length (header_of t) = 5" "NUL \<notin> set (header_of t)" "CHR ''*'' \<notin> set (header_of t)"
  "CHR '','' \<notin> set (header_of t)" "CHR ''$'' \<notin> set (header_of t)"
  "CHR 0x0A \<notin> set (header_of t)"
  by (cases t; simp)+

lemmas format_rules =
  formats_nil formats_lit formats_d [unfolded append_Cons append_Nil]
  formats_X [unfolded append_Cons append_Nil] formats_s [unfolded append_Cons append_Nil]
  formats_02X [unfolded append_Cons append_Nil]

lemma formats_packet:
  assumes "c_string contents = Inr c" "int (length c) < 2 ^ 32"
  shows "formats ''$%s,%s*'' [VStr (lit (header_of t)), VStr contents]
    (CHR ''$'' # body t c @ ''*'')"
proof -
  have "formats ''$%s,%s*'' [VStr (lit (header_of t)), VStr contents]
      (CHR ''$'' # header_of t @ CHR '','' # c @ CHR ''*'' # [])"
    using assms by (intro format_rules) (simp_all add: cstr_simps)
  then show ?thesis by (simp add: body_def)
qed

text \<open>
  What \<open>PacketizeContents\<close> leaves in the packet, for contents of any length: the text is cut
  at 196 characters, and the checksum is that of what is left.
\<close>

definition packet_text :: "packet_type \<Rightarrow> char list \<Rightarrow> char list" where
  "packet_text t c =
     (let h = take 196 (CHR ''$'' # body t c @ ''*'')
      in h @ hex2 (uint (checksum_text (checked_part h))))"

lemma digit_char_not:
  assumes "all_digits base ds" "base \<le> 16"
  shows "c \<in> {NUL, CHR '','', CHR ''*'', CHR ''$'', CHR 0x0A, CHR 0x0D} \<Longrightarrow> c \<notin> set ds"
  using assms by (auto simp: all_digits_def digit_value_def)

lemma hex_plain:
  "0 \<le> v \<Longrightarrow> c \<in> {NUL, CHR '','', CHR ''*'', CHR ''$'', CHR 0x0A, CHR 0x0D} \<Longrightarrow> c \<notin> set (hex v)"
  by (rule digit_char_not [OF numeral_of_all_digits]) auto

lemma decimal_plain:
  "0 \<le> v \<Longrightarrow> c \<in> {NUL, CHR '','', CHR ''*'', CHR ''$'', CHR 0x0A, CHR 0x0D} \<Longrightarrow> c \<notin> set (decimal v)"
  by (rule digit_char_not [OF numeral_of_all_digits]) auto

lemma hex2_plain:
  "0 \<le> v \<Longrightarrow> c \<in> {NUL, CHR '','', CHR ''*'', CHR ''$'', CHR 0x0A, CHR 0x0D} \<Longrightarrow> c \<notin> set (hex2 v)"
  using hex_plain [of v c] by (auto simp: hex2_def)

lemma uint_u8_bound: "0 \<le> uint (w :: u8)" "uint (w :: u8) < 256"
  using uint_bounded [of w] by auto

lemma checked_part_frame:
  assumes "CHR ''*'' \<notin> set (body t c)"
  shows "checked_part (CHR ''$'' # body t c @ CHR ''*'' # r) = body t c"
proof -
  have "strchr CHR ''*'' (CHR ''$'' # body t c @ CHR ''*'' # r) = Some (Suc (length (body t c)))"
    using assms strchr_append [of "CHR ''*''" "CHR ''$'' # body t c" r] by simp
  then show ?thesis by (simp add: checked_part_def)
qed

lemma packet_text_frame:
  assumes "length c \<le> 188" "CHR ''*'' \<notin> set c"
  shows "packet_text t c = frame t c"
  using assms checked_part_frame [of t c "[]"]
  by (simp add: packet_text_def frame_def Let_def body_def)

lemma PacketizeContents_text:
  assumes c: "c_string contents = Inr c" "int (length c) < 2 ^ 32"
    and p: "length (packet_str p) = kMaxPacketLen"
  obtains ps where "length ps = kMaxPacketLen" "c_string ps = Inr (packet_text (packet_type p) c)"
    "\<And>tb. PacketizeContents contents tb p =
       rbind (copy_out tb ps) (\<lambda>tb'. Inr (of_nat (length (packet_text (packet_type p) c)),
         p\<lparr>packet_str := ps\<rparr>, tb'))"
proof -
  let ?t = "packet_type p"
  define h where "h = take 196 (CHR ''$'' # body ?t c @ ''*'')"
  define cs where "cs = hex2 (uint (checksum_text (checked_part h)))"
  have nul: "NUL \<notin> set c" using c(1) by (auto elim: c_stringE)
  then have nulh: "NUL \<notin> set h" by (auto simp: h_def body_def dest!: in_set_takeD)
  have lh: "length h \<le> 196" by (simp add: h_def)
  let ?r = "drop (min (length (CHR ''$'' # body ?t c @ ''*'') + 1) 197) (packet_str p)"
  have sn: "snprintf (packet_str p) (int (kMaxPacketLen - kPacketTailLen)) ''$%s,%s*''
      [VStr (lit (header_of ?t)), VStr contents] = Inr (map Some h @ Some NUL # ?r)"
    using snprintf_stores [OF formats_packet [OF c, of ?t], of 197 "packet_str p"] p
    by (simp add: packet_consts h_def)
  have lr: "length (map Some h @ Some NUL # ?r) = 200"
    using p by (simp add: packet_consts h_def min_def) arith
  have ck: "CalculateChecksum (p\<lparr>packet_str := map Some h @ Some NUL # ?r\<rparr>) =
      Inr (checksum_text (checked_part h))"
    using nulh lh by (intro CalculateChecksum_text) (simp_all add: cstr_simps packet_consts)
  let ?w = "checksum_text (checked_part h)"
  have "uint (ucast ?w :: u32) = uint ?w" by (simp add: uint_up_ucast is_up)
  then have fx: "formats ''%02X'' [VInt (ucast ?w)] (cs @ [])"
    using format_rules(6) [of "ucast ?w", OF _ formats_nil] uint_u8_bound [of ?w] by (simp add: cs_def)
  have lcs: "length cs = 2" unfolding cs_def by (rule hex2_length) (simp_all add: uint_u8_bound)
  have s2: "snprintf (uninit kPacketTailLen) (int kPacketTailLen) ''%02X'' [VInt (ucast ?w)]
      = Inr (map Some cs @ [Some NUL])"
    using snprintf_stores [OF fx, of 3 "uninit 3"] lcs by (simp add: packet_consts)
  have nulcs: "NUL \<notin> set cs" by (simp add: cs_def hex2_plain uint_u8_bound)
  define ps where "ps = map Some h @ map Some cs @ Some NUL # drop 2 ?r"
  have st: "strcat (map Some h @ Some NUL # ?r) (map Some cs @ [Some NUL]) = Inr ps"
    using nulh nulcs lh lr lcs
    by (simp add: strcat_def append_string_def cstr_simps ps_def drop_eq_append)
  have pt: "packet_text ?t c = h @ cs" by (simp add: packet_text_def h_def cs_def Let_def)
  have cps: "c_string ps = Inr (packet_text ?t c)"
    using nulh nulcs c_string_append [of "h @ cs"] by (simp add: ps_def pt)
  have "length ps = kMaxPacketLen"
    using lr lh lcs by (simp add: ps_def packet_consts)
  moreover note cps
  moreover have "PacketizeContents contents tb p =
       rbind (copy_out tb ps) (\<lambda>tb'. Inr (of_nat (length (packet_text ?t c)),
         p\<lparr>packet_str := ps\<rparr>, tb'))" for tb
    using sn ck s2 st cps
    by (simp add: PacketizeContents_def header_of_def strlen_def)
  ultimately show ?thesis by (rule that)
qed

section \<open>From text to a packet\<close>

text \<open>
  The test \<open>BSPacket_FromString\<close> makes on a text: an end token, behind it in hexadecimal the
  checksum of the checked part, and a known header. The header is what precedes the first
  comma, less its first character, whatever that is.
\<close>

definition transmitted_checksum :: "char list \<Rightarrow> u8" where
  "transmitted_checksum s =
     (case strchr CHR ''*'' s of
        None \<Rightarrow> 0 | Some e \<Rightarrow> word_of_int (strtol (drop (e + 1) s) 16))"

definition recognised :: "char list \<Rightarrow> packet_type option" where
  "recognised s =
     (if CHR ''*'' \<in> set s \<and> checksum_text (checked_part s) = transmitted_checksum s
      then find_header (drop 1 (takeWhile (\<lambda>c. c \<noteq> CHR '','') s)) else None)"

lemma strtok_mid:
  assumes "drop p tb = map Some tok @ Some d # rest" "tok \<noteq> []" "d \<notin> set tok" "NUL \<notin> set tok"
    and "d \<noteq> NUL"
  obtains tb' where "strtok_at d tb p = Inr (Some p, tb', Some (Suc (p + length tok)))"
    "c_string (drop p tb') = Inr tok" "drop (Suc (p + length tok)) tb' = rest"
    "length tb' = length tb"
proof -
  obtain c cs where tok: "tok = c # cs" using assms(2) by (cases tok) auto
  have len: "length (drop p tb) = length tok + Suc (length rest)" by (simp add: assms(1))
  then have p: "p < length tb" by simp
  have "skip_delim d (drop p tb) = Inr 0" using assms(3) by (auto simp: assms(1) tok)
  moreover have "tb ! p = Some c"
    using assms(1) p by (metis Cons_nth_drop_Suc append_Cons list.inject list.simps(9) tok)
  moreover have "token_length d (map Some xs @ Some d # rest) = Inr (length xs)"
    if "d \<notin> set xs" "NUL \<notin> set xs" for xs
    using that by (induction xs) auto
  then have "token_length d (drop p tb) = Inr (length tok)" using assms(1,3,4) by simp
  moreover have "tb ! (p + length tok) = Some d"
    using p nth_drop [of p tb "length tok"] by (simp add: assms(1) nth_append)
  ultimately have "strtok_at d tb p =
      Inr (Some p, tb[p + length tok := Some NUL], Some (Suc (p + length tok)))"
    using assms(4,5) tok by (auto simp: strtok_at_def)
  moreover have "drop p (tb[p + length tok := Some NUL]) = map Some tok @ Some NUL # rest"
    using assms(1) by (simp add: drop_update_swap list_update_append)
  then have "c_string (drop p (tb[p + length tok := Some NUL])) = Inr tok"
    using assms(4) by (simp add: c_string_append)
  moreover have "drop (Suc (p + length tok)) (tb[p + length tok := Some NUL]) = rest"
  proof -
    have "drop (Suc (p + length tok)) tb = drop (Suc (length tok)) (drop p tb)"
      by (simp add: add.commute)
    then show ?thesis by (simp add: assms(1))
  qed
  ultimately show ?thesis by (intro that [of "tb[p + length tok := Some NUL]"]) simp_all
qed

lemma strtok_end:
  assumes "drop p tb = map Some tok @ Some NUL # rest" "tok \<noteq> []" "d \<notin> set tok" "NUL \<notin> set tok"
    and "d \<noteq> NUL"
  shows "strtok_at d tb p = Inr (Some p, tb, None)"
proof -
  obtain c cs where tok: "tok = c # cs" using assms(2) by (cases tok) auto
  have len: "length (drop p tb) = length tok + Suc (length rest)" by (simp add: assms(1))
  then have p: "p < length tb" by simp
  have "skip_delim d (drop p tb) = Inr 0" using assms(3) by (auto simp: assms(1) tok)
  moreover have "tb ! p = Some c"
    using assms(1) p by (metis Cons_nth_drop_Suc append_Cons list.inject list.simps(9) tok)
  moreover have "token_length d (map Some xs @ Some NUL # rest) = Inr (length xs)"
    if "d \<notin> set xs" "NUL \<notin> set xs" for xs
    using that by (induction xs) auto
  then have "token_length d (drop p tb) = Inr (length tok)" using assms(1,3,4) by simp
  moreover have "tb ! (p + length tok) = Some NUL"
    using p nth_drop [of p tb "length tok"] by (simp add: assms(1) nth_append)
  ultimately show ?thesis
    using assms(4,5) tok by (auto simp: strtok_at_def)
qed

lemma BSPacket_FromString_text:
  assumes b: "c_string b = Inr s" and s: "length s < kMaxPacketLen"
    and p: "length (packet_str p) = kMaxPacketLen"
    and tok: "s = tok @ CHR '','' # r" "CHR '','' \<notin> set tok" "tok \<noteq> []"
      "length tok < kMaxPacketFieldLen"
  shows "BSPacket_FromString b p =
    (let p1 = p\<lparr>is_valid := False, packet_str := map Some s @ zeroed (kMaxPacketLen - length s)\<rparr>
     in Inr (case recognised s of
               None \<Rightarrow> p1 | Some t \<Rightarrow> p1\<lparr>packet_type := t, is_valid := True\<rparr>))"
proof -
  obtain r0 where b0: "b = map Some s @ Some NUL # r0" and nul: "NUL \<notin> set s"
    using b by (rule c_stringE)
  define ps where "ps = map Some s @ zeroed (kMaxPacketLen - length s)"
  define p1 where "p1 = p\<lparr>is_valid := False, packet_str := ps\<rparr>"
  have cp: "strncpy (packet_str p) b (int kMaxPacketLen) = Inr ps"
    using s p nul by (simp add: b0 strncpy_pad ps_def)
  have cps: "c_string ps = Inr s" using s nul by (simp add: ps_def c_string_zeroed)
  have ck: "CalculateChecksum p1 = Inr (checksum_text (checked_part s))"
    using cps s by (intro CalculateChecksum_text) (simp_all add: p1_def)
  obtain tb where tb: "strncpy (uninit kMaxPacketLen) b (int kMaxPacketFieldLen) = Inr tb"
      "\<exists>rest. tb = map Some tok @ Some CHR '','' # rest"
  proof (cases "length s < kMaxPacketFieldLen")
    case True
    have "strncpy (uninit kMaxPacketLen) b (int kMaxPacketFieldLen) =
        Inr (map Some s @ zeroed (kMaxPacketFieldLen - length s) @ drop kMaxPacketFieldLen (uninit kMaxPacketLen))"
      using True nul by (simp add: b0 strncpy_pad packet_consts)
    then show ?thesis using that tok(1) by auto
  next
    case False
    have "strncpy (uninit kMaxPacketLen) b (int kMaxPacketFieldLen) =
        Inr (map Some (take kMaxPacketFieldLen s) @ drop kMaxPacketFieldLen (uninit kMaxPacketLen))"
      using False nul by (simp add: b0 strncpy_trunc packet_consts)
    moreover have "take kMaxPacketFieldLen s =
        tok @ CHR '','' # take (kMaxPacketFieldLen - Suc (length tok)) r"
      using tok(1,4) by (simp add: take_Cons')
    ultimately show ?thesis using that by auto
  qed
  then obtain rest where "drop 0 tb = map Some tok @ Some CHR '','' # rest" by auto
  then obtain tb' where tk: "strtok_at CHR '','' tb 0 = Inr (Some 0, tb', Some (Suc (0 + length tok)))"
      "c_string (drop 0 tb') = Inr tok"
    by (rule strtok_mid) (use tok nul in auto)
  have dr: "c_string (drop 1 tb') = Inr (drop 1 tok)"
  proof -
    obtain r1 where "tb' = map Some tok @ Some NUL # r1" "NUL \<notin> set tok"
      using tk(2) by (auto elim: c_stringE)
    then show ?thesis using tok(3) c_string_append [of "drop 1 tok" r1]
      by (cases tok) auto
  qed
  have tw: "takeWhile (\<lambda>c. c \<noteq> CHR '','') s = tok"
    using tok by (auto simp: takeWhile_tail)
  show ?thesis
  proof (cases "strchr CHR ''*'' s")
    case None
    then have "recognised s = None" by (simp add: recognised_def strchr_None)
    then show ?thesis using None cps
      by (simp add: BSPacket_FromString_def cp Let_def ps_def [symmetric])
  next
    case (Some e)
    then have "CHR ''*'' \<in> set s" by (metis option.distinct(1) strchr_None)
    then show ?thesis
      using Some cps ck tb tk dr tw
      by (auto simp: BSPacket_FromString_def cp Let_def ps_def [symmetric] p1_def [symmetric]
          recognised_def transmitted_checksum_def split: option.splits)
  qed
qed

section \<open>A frame is recognised\<close>

text \<open>What may follow a frame in the buffer: not another digit. The line end is such a tail.\<close>

definition tail_ok :: "char list \<Rightarrow> bool" where
  "tail_ok r \<longleftrightarrow> no_digit 16 r \<and> (r = [] \<or> hd r \<notin> {CHR ''x'', CHR ''X''})
     \<and> NUL \<notin> set r \<and> CHR '','' \<notin> set r"

lemma tail_ok_crlf [simp]: "tail_ok [CHR 0x0D, CHR 0x0A]" "tail_ok [CHR 0x0A]" "tail_ok []"
  by (simp_all add: tail_ok_def no_digit_def digit_value_def)

lemma all_digits_hex2: "0 \<le> v \<Longrightarrow> all_digits 16 (hex2 v)"
  using numeral_of_all_digits [of 16 v True]
  by (auto simp: hex2_def all_digits_def digit_value_def)

lemma hex2_value: "0 \<le> v \<Longrightarrow> digits_value 16 (hex2 v) = v"
  using numeral_of_value [of 16 v True]
  by (auto simp: hex2_def digits_value_def digit_value_def)

lemma strtol_digits:
  assumes "all_digits 16 ds" "ds \<noteq> []" "tail_ok r" "digits_value 16 ds < 2 ^ 31"
  shows "strtol (ds @ r) 16 = digits_value 16 ds"
proof -
  obtain d ds' where d: "ds = d # ds'" using assms(2) by (cases ds) auto
  then have "digit_value 16 d \<noteq> None" using assms(1) by (simp add: all_digits_def)
  then have "\<not> isspace d" "d \<noteq> CHR ''-''" "d \<noteq> CHR ''+''"
    by (auto simp: isspace_def digit_value_def)
  moreover have "scan_prefix 16 (ds @ r) = ds @ r"
    using assms(1,3)
    by (cases ds'; cases r) (auto simp: d scan_prefix_def all_digits_def digit_value_def tail_ok_def)
  ultimately show ?thesis
    using assms(3,4) scan_digits_run [OF assms(1), of r 0]
    by (simp add: strtol_def scan_number_def scan_sign_def d digits_value_def tail_ok_def)
qed

lemma find_header_of: "t \<noteq> UNKNOWN \<Longrightarrow> find_header (header_of t) = Some t"
  by (cases t)
    (simp_all add: find_header_def packet_header_strs_def packet_types_def kNumPacketTypes_def upt_rec)

lemma recognised_frame:
  assumes "t \<noteq> UNKNOWN" "CHR ''*'' \<notin> set c" "tail_ok r"
  shows "recognised (frame t c @ r) = Some t"
proof -
  let ?v = "checksum_text (body t c)"
  have b: "CHR ''*'' \<notin> set (body t c)" using assms(2) by (simp add: body_def)
  have f: "frame t c @ r = CHR ''$'' # body t c @ CHR ''*'' # hex2 (uint ?v) @ r"
    by (simp add: frame_def)
  have "hex2 (uint ?v) \<noteq> []" by (simp add: hex2_def)
  then have "strtol (hex2 (uint ?v) @ r) 16 = uint ?v"
    using strtol_digits [of "hex2 (uint ?v)" r] assms(3) uint_u8_bound [of ?v]
    by (simp add: all_digits_hex2 hex2_value)
  moreover have "strchr CHR ''*'' (frame t c @ r) = Some (Suc (length (body t c)))"
    using b strchr_append [of "CHR ''*''" "CHR ''$'' # body t c"] by (simp add: f)
  ultimately have "transmitted_checksum (frame t c @ r) = ?v"
    by (simp add: transmitted_checksum_def f)
  moreover have "checked_part (frame t c @ r) = body t c"
    using checked_part_frame [OF b] by (simp add: f)
  moreover have "takeWhile (\<lambda>c. c \<noteq> CHR '','') (frame t c @ r) = CHR ''$'' # header_of t"
    by (simp add: f body_def takeWhile_tail)
      (metis (mono_tags, lifting) header_of_facts(4) takeWhile_append2 append_Nil2 takeWhile.simps(1))
  ultimately show ?thesis using assms(1)
    by (simp add: recognised_def find_header_of f)
qed

lemma BSPacket_FromString_frame:
  assumes "c_string b = Inr (frame t c @ r)" "length (frame t c @ r) < kMaxPacketLen"
    and "length (packet_str p) = kMaxPacketLen"
    and "t \<noteq> UNKNOWN" "CHR ''*'' \<notin> set c" "tail_ok r"
  shows "BSPacket_FromString b p = Inr (p\<lparr>packet_type := t, is_valid := True,
    packet_str := map Some (frame t c @ r) @ zeroed (kMaxPacketLen - length (frame t c @ r))\<rparr>)"
proof -
  have "frame t c @ r = (CHR ''$'' # header_of t) @ CHR '','' #
      c @ CHR ''*'' # hex2 (uint (checksum_text (body t c))) @ r"
    by (simp add: frame_def body_def)
  from BSPacket_FromString_text [OF assms(1,2,3) this] show ?thesis
    by (simp add: recognised_frame [OF assms(4-6)] packet_consts)
qed

end
