(* ===== verification/Messages.thy ===== *)
theory Messages
  imports Packets Frames
begin

text \<open>
  Messages: the abstract values the packets carry, and what each packet class does with them.
  For every class, the constructor from values makes a packet that formats to the message's
  frame, and the constructor from a string recovers the fields from a frame and formats it
  back to the same text.
\<close>

unbundle bit_operations_syntax

section \<open>Abstract messages\<close>

datatype message =
    MDIS u16 | MMRD u32 "char list list" | MMWR u32 "char list"
  | MSRD u16 u32 | MSWR u16 u32 "char list" | MSRS u16 "char list"

fun type_of :: "message \<Rightarrow> packet_type" where
  "type_of (MDIS i) = DIS"
| "type_of (MMRD a vs) = MRD"
| "type_of (MMWR a v) = MWR"
| "type_of (MSRD i a) = SRD"
| "type_of (MSWR i a v) = SWR"
| "type_of (MSRS i v) = SRS"

fun contents :: "message \<Rightarrow> char list" where
  "contents (MDIS i) = decimal (uint i)"
| "contents (MMRD a vs) = hex (uint a) @ concat (map (\<lambda>v. CHR '','' # v) vs)"
| "contents (MMWR a v) = hex (uint a) @ CHR '','' # v"
| "contents (MSRD i a) = decimal (uint i) @ CHR '','' # hex (uint a)"
| "contents (MSWR i a v) = decimal (uint i) @ CHR '','' # hex (uint a) @ CHR '','' # v"
| "contents (MSRS i v) = decimal (uint i) @ CHR '','' # v"

definition wire :: "message \<Rightarrow> char list" where
  "wire m = frame (type_of m) (contents m)"

text \<open>
  A value that survives the wire: not empty, at most 19 characters, and none of the
  characters that structure a frame.
\<close>

definition ok_value :: "char list \<Rightarrow> bool" where
  "ok_value v \<longleftrightarrow> v \<noteq> [] \<and> length v \<le> 19 \<and>
     (\<forall>c \<in> set v. c \<notin> {NUL, CHR '','', CHR ''*'', CHR 0x0A})"

text \<open>
  A multiple read fits if the last of its values starts before the contents get too long for
  the formatter's loop, and the line with its end is short enough for a receive buffer.
\<close>

definition fits :: "u32 \<Rightarrow> char list list \<Rightarrow> bool" where
  "fits a vs \<longleftrightarrow> length vs \<le> kMaxNumValues \<and> length (contents (MMRD a (butlast vs))) < 170
     \<and> length (contents (MMRD a vs)) \<le> 187"

fun ok_message :: "message \<Rightarrow> bool" where
  "ok_message (MDIS i) \<longleftrightarrow> True"
| "ok_message (MMRD a vs) \<longleftrightarrow> list_all ok_value vs \<and> fits a vs"
| "ok_message (MMWR a v) \<longleftrightarrow> ok_value v"
| "ok_message (MSRD i a) \<longleftrightarrow> True"
| "ok_message (MSWR i a v) \<longleftrightarrow> ok_value v"
| "ok_message (MSRS i v) \<longleftrightarrow> ok_value v"

lemma type_of_known [simp]: "type_of m \<noteq> UNKNOWN"
  by (cases m) auto

section \<open>Numerals of the fields\<close>

lemma decimal_u16_length: "length (decimal (uint (i :: u16))) \<le> 5"
  using uint_bounded [of i] by (intro numeral_of_length) auto

lemma hex_u32_length: "length (hex (uint (a :: u32))) \<le> 8"
  using uint_bounded [of a] by (intro numeral_of_length) auto

lemma uint_ucast_u16 [simp]: "uint (ucast (i :: u16) :: u32) = uint i"
  by (simp add: uint_up_ucast is_up)

lemma strtoul_decimal:
  assumes "no_digit 10 r" "r = [] \<or> hd r \<notin> {CHR ''x'', CHR ''X''}"
  shows "ucast (strtoul (decimal (uint (i :: u16)) @ r) 10) = i"
proof -
  have b: "0 \<le> uint i" "uint i < 2 ^ 16" using uint_bounded [of i] by auto
  have "strtoul (decimal (uint i) @ r) 10 = word_of_int (uint i)"
    using strtoul_digits [of 10 "decimal (uint i)" r] assms b
      numeral_of_all_digits [of 10 "uint i" False] numeral_of_value [of 10 "uint i" False]
    by simp
  then show ?thesis by (simp add: ucast_up_ucast_id is_up)
qed

lemma strtoul_hex:
  assumes "no_digit 16 r" "r = [] \<or> hd r \<notin> {CHR ''x'', CHR ''X''}"
  shows "strtoul (hex (uint (a :: u32)) @ r) 16 = a"
proof -
  have b: "0 \<le> uint a" "uint a < 2 ^ 32" using uint_bounded [of a] by auto
  show ?thesis
    using strtoul_digits [of 16 "hex (uint a)" r] assms b
      numeral_of_all_digits [of 16 "uint a" True] numeral_of_value [of 16 "uint a" True]
    by simp
qed

lemma no_digit_simps [simp]:
  "no_digit 10 []" "no_digit 16 []" "no_digit 10 (CHR ''*'' # r)" "no_digit 16 (CHR ''*'' # r)"
  by (simp_all add: no_digit_def digit_value_def)

section \<open>Formatting\<close>

text \<open>
  \<open>prints ToString p t\<close>: the formatter returns the length of \<open>t\<close>, leaves it in the packet and
  copies it to the caller's buffer.
\<close>

definition prints ::
    "(cell list option \<Rightarrow> 'a bs_packet_scheme \<Rightarrow> fault + (u16 \<times> 'a bs_packet_scheme \<times> cell list option))
     \<Rightarrow> 'a bs_packet_scheme \<Rightarrow> char list \<Rightarrow> bool" where
  "prints ToString p t \<longleftrightarrow> (\<exists>ps. length ps = kMaxPacketLen \<and> c_string ps = Inr t \<and>
     (\<forall>tb. ToString tb p =
        rbind (copy_out tb ps) (\<lambda>tb'. Inr (of_nat (length t), p\<lparr>packet_str := ps\<rparr>, tb'))))"

lemma snprintf_string:
  assumes "formats fmt va cs" "NUL \<notin> set cs" "0 < n" "n \<le> length b" "n < 2 ^ 32"
  obtains b' where "snprintf b (int n) fmt va = Inr b'" "c_string b' = Inr (take (n - 1) cs)"
    "length b' = length b"
proof -
  have "NUL \<notin> set (take (n - 1) cs)" using assms(2) by (auto dest: in_set_takeD)
  moreover have "length (map Some (take (n - 1) cs) @ Some NUL # drop (min (length cs + 1) n) b)
      = length b"
    using assms(3,4) by simp
  ultimately show ?thesis
    by (intro that [OF snprintf_stores [OF assms(1,3,4,5)] c_string_append])
qed

lemma prints_contents:
  assumes "formats fmt va cs" "NUL \<notin> set cs" "length cs \<le> 190"
    and "length (packet_str p) = kMaxPacketLen"
    and "\<And>tb. ToString tb p =
      rbind (snprintf (uninit kMaxPacketContentsLen) (int kMaxPacketContentsLen) fmt va)
        (\<lambda>contents. PacketizeContents contents tb p)"
  shows "prints ToString p (packet_text (packet_type p) cs)"
proof -
  obtain b where b: "snprintf (uninit kMaxPacketContentsLen) (int kMaxPacketContentsLen) fmt va = Inr b"
    "c_string b = Inr (take 190 cs)"
    using snprintf_string [OF assms(1,2), of kMaxPacketContentsLen "uninit kMaxPacketContentsLen"]
    by (auto simp: packet_consts)
  then have "c_string b = Inr cs" "int (length cs) < 2 ^ 32" using assms(3) by simp_all
  then obtain ps where "length ps = kMaxPacketLen"
    "c_string ps = Inr (packet_text (packet_type p) cs)"
    "\<And>tb. PacketizeContents b tb p =
       rbind (copy_out tb ps) (\<lambda>tb'. Inr (of_nat (length (packet_text (packet_type p) cs)),
         p\<lparr>packet_str := ps\<rparr>, tb'))"
    using PacketizeContents_text assms(4) by blast
  then show ?thesis by (auto simp: prints_def assms(5) b(1))
qed

lemma prints_contents_frame:
  assumes "formats fmt va cs" "NUL \<notin> set cs" "CHR ''*'' \<notin> set cs" "length cs \<le> 188"
    and "length (packet_str p) = kMaxPacketLen" "packet_type p = t"
    and "\<And>tb. ToString tb p =
      rbind (snprintf (uninit kMaxPacketContentsLen) (int kMaxPacketContentsLen) fmt va)
        (\<lambda>contents. PacketizeContents contents tb p)"
  shows "prints ToString p (frame t cs)"
  using prints_contents [OF assms(1,2) _ assms(5), of ToString] assms
  by (simp add: packet_text_frame)

lemma prints_None:
  assumes "prints ToString p t"
  obtains ps where "ToString None p = Inr (of_nat (length t), p\<lparr>packet_str := ps\<rparr>, None)"
    "length ps = kMaxPacketLen" "c_string ps = Inr t"
  using assms by (auto simp: prints_def copy_out_def)

lemma prints_Some:
  assumes "prints ToString p t" "length t < kMaxPacketLen" "kMaxPacketLen \<le> length b"
  obtains p' b' where "ToString (Some b) p = Inr (of_nat (length t), p', Some b')"
    "c_string b' = Inr t" "length b' = length b"
proof -
  obtain ps where ps: "length ps = kMaxPacketLen" "c_string ps = Inr t"
    "ToString (Some b) p =
       rbind (copy_out (Some b) ps) (\<lambda>tb'. Inr (of_nat (length t), p\<lparr>packet_str := ps\<rparr>, tb'))"
    using assms(1) by (auto simp: prints_def)
  obtain r where r: "ps = map Some t @ Some NUL # r" "NUL \<notin> set t"
    using ps(2) by (rule c_stringE)
  have "strncpy b ps (int kMaxPacketLen) =
      Inr (map Some t @ zeroed (kMaxPacketLen - length t) @ drop kMaxPacketLen b)"
    using assms r by (simp add: strncpy_pad)
  moreover have "c_string (map Some t @ zeroed (kMaxPacketLen - length t) @ drop kMaxPacketLen b) = Inr t"
    using assms(2) r(2)
    by (cases "kMaxPacketLen - length t") (auto simp: zeroed_def c_string_append)
  ultimately show ?thesis
    using ps(3) assms(2,3)
    by (intro that [of "p\<lparr>packet_str := ps\<rparr>"
            "map Some t @ zeroed (kMaxPacketLen - length t) @ drop kMaxPacketLen b"])
      (simp_all add: copy_out_def)
qed

section \<open>Parsing\<close>

lemmas packet_rules = format_rules decimal_plain hex_plain

text \<open>The header token, common to all classes: the contents follow at position 7.\<close>

lemma header_token:
  assumes "c_string b = Inr (frame t c @ r)" "length (frame t c @ r) < kMaxPacketLen"
  obtains tb tb' k where "strncpy (uninit kMaxPacketLen) b (int kMaxPacketLen) = Inr tb"
    "c_string tb = Inr (frame t c @ r)"
    "strtok_at CHR '','' tb 0 = Inr (Some 0, tb', Some 7)"
    "deref_string tb' (Some 0) = Inr (CHR ''$'' # header_of t)"
    "drop 7 tb' = map Some (c @ CHR ''*'' # hex2 (uint (checksum_text (body t c))) @ r) @ Some NUL # k"
    "NUL \<notin> set c" "NUL \<notin> set r"
proof -
  obtain r0 where b0: "b = map Some (frame t c @ r) @ Some NUL # r0" and nul: "NUL \<notin> set (frame t c @ r)"
    using assms(1) by (rule c_stringE)
  let ?k = "kMaxPacketLen - Suc (length (frame t c @ r))"
  define tb where "tb = map Some (frame t c @ r) @ Some NUL # zeroed ?k"
  have z: "zeroed (kMaxPacketLen - length (frame t c @ r)) = Some NUL # zeroed ?k"
    using assms(2) by (simp add: zeroed_def Suc_diff_Suc flip: replicate_Suc)
  have cp: "strncpy (uninit kMaxPacketLen) b (int kMaxPacketLen) = Inr tb"
    using strncpy_pad [OF nul, of "int kMaxPacketLen" "uninit kMaxPacketLen" r0] assms(2) z
    unfolding b0 tb_def by simp
  have ctb: "c_string tb = Inr (frame t c @ r)" unfolding tb_def using nul by (rule c_string_append)
  have d0: "drop 0 tb = map Some (CHR ''$'' # header_of t) @ Some CHR '','' #
      map Some (c @ CHR ''*'' # hex2 (uint (checksum_text (body t c))) @ r) @ Some NUL # zeroed ?k"
    by (simp add: tb_def frame_def body_def)
  have hd: "CHR ''$'' # header_of t \<noteq> []" "CHR '','' \<notin> set (CHR ''$'' # header_of t)"
    "NUL \<notin> set (CHR ''$'' # header_of t)" "CHR '','' \<noteq> NUL"
    by simp_all
  obtain tb' where
    t1: "strtok_at CHR '','' tb 0 = Inr (Some 0, tb', Some (Suc (0 + length (CHR ''$'' # header_of t))))"
    "c_string (drop 0 tb') = Inr (CHR ''$'' # header_of t)"
    "drop (Suc (0 + length (CHR ''$'' # header_of t))) tb' =
      map Some (c @ CHR ''*'' # hex2 (uint (checksum_text (body t c))) @ r) @ Some NUL # zeroed ?k"
    "length tb' = length tb"
    by (rule strtok_mid [OF d0 hd])
  have len: "Suc (0 + length (CHR ''$'' # header_of t)) = 7" by simp
  have "deref_string tb' (Some 0) = Inr (CHR ''$'' # header_of t)"
    using t1(2) by (simp add: deref_string_def)
  moreover have "NUL \<notin> set c" "NUL \<notin> set r" using nul by (simp_all add: frame_def body_def)
  ultimately show ?thesis
    using that [OF cp ctb t1(1) [unfolded len] _ t1(3) [unfolded len]] by blast
qed

text \<open>A field that is followed by another one, and the last field.\<close>

lemma field_token:
  assumes "drop p tb = map Some (f @ CHR '','' # rest) @ k" "f \<noteq> []"
    and "CHR '','' \<notin> set f" "NUL \<notin> set f"
  obtains tb' where "strtok_next CHR '','' tb (Some p) = Inr (Some p, tb', Some (Suc (p + length f)))"
    "deref_string tb' (Some p) = Inr f" "drop (Suc (p + length f)) tb' = map Some rest @ k"
proof -
  have "drop p tb = map Some f @ Some CHR '','' # map Some rest @ k" using assms(1) by simp
  moreover have "CHR '','' \<noteq> NUL" by simp
  ultimately obtain tb' where
    "strtok_at CHR '','' tb p = Inr (Some p, tb', Some (Suc (p + length f)))"
    "c_string (drop p tb') = Inr f" "drop (Suc (p + length f)) tb' = map Some rest @ k"
    "length tb' = length tb"
    using strtok_mid [OF _ assms(2-4)] by metis
  then show ?thesis
    using that [of tb'] by (simp add: strtok_next_def deref_string_def)
qed

lemma last_token:
  assumes "drop p tb = map Some f @ Some NUL # k" "f \<noteq> []"
    and "CHR '','' \<notin> set f" "NUL \<notin> set f"
  shows "strtok_next CHR '','' tb (Some p) = Inr (Some p, tb, None)"
    "deref_string tb (Some p) = Inr f"
  using strtok_end [OF assms(1-4)] c_string_append [OF assms(4), of k]
  by (simp_all add: strtok_next_def deref_string_def assms(1))

text \<open>Where the last field ends: the end token, the checksum and the line end follow.\<close>

definition trailer :: "packet_type \<Rightarrow> char list \<Rightarrow> char list \<Rightarrow> char list" where
  "trailer t c r = CHR ''*'' # hex2 (uint (checksum_text (body t c))) @ r"

lemma trailer_facts:
  assumes "tail_ok r"
  shows "CHR '','' \<notin> set (trailer t c r)" "NUL \<notin> set (trailer t c r)"
    "no_digit 10 (trailer t c r)" "no_digit 16 (trailer t c r)"
    "hd (trailer t c r) = CHR ''*''" "trailer t c r \<noteq> []"
proof -
  have "CHR '','' \<notin> set (hex2 (uint (checksum_text (body t c))))"
    "NUL \<notin> set (hex2 (uint (checksum_text (body t c))))"
    by (rule hex2_plain [OF uint_u8_bound(1)], simp)+
  then show "CHR '','' \<notin> set (trailer t c r)" "NUL \<notin> set (trailer t c r)"
    using assms by (simp_all add: trailer_def tail_ok_def)
qed (simp_all add: trailer_def)

lemma last_value:
  assumes "drop p tb = map Some (v @ trailer t c r) @ Some NUL # k" "ok_value v" "tail_ok r"
  obtains b where "copy_value (zeroed kMaxPacketFieldLen) tb (Some p) = Inr b"
    "c_string b = Inr v" "length b = kMaxPacketFieldLen"
proof -
  have nul: "NUL \<notin> set (v @ trailer t c r)" and star: "CHR ''*'' \<notin> set v"
    using assms(2,3) trailer_facts(2) by (auto simp: ok_value_def)
  have cs: "c_string (drop p tb) = Inr (v @ trailer t c r)"
    unfolding assms(1) using nul by (rule c_string_append)
  have sc: "strchr CHR ''*'' (v @ trailer t c r) = Some (length v)"
    using star by (simp add: trailer_def strchr_append)
  have lv: "length v \<le> 19" using assms(2) by (simp add: ok_value_def)
  have "strncpy (zeroed kMaxPacketFieldLen) (drop p tb) (int (length v)) =
      Inr (map Some (take (length v) (v @ trailer t c r)) @ drop (length v) (zeroed kMaxPacketFieldLen))"
    using strncpy_trunc [OF nul, of "int (length v)" "zeroed kMaxPacketFieldLen" "Some NUL # k"] lv
    by (simp add: assms(1) packet_consts)
  then have "copy_value (zeroed kMaxPacketFieldLen) tb (Some p) =
      Inr (map Some v @ zeroed (kMaxPacketFieldLen - length v))"
    using cs sc lv by (simp add: copy_value_def packet_consts min_def zeroed_def)
  moreover have "c_string (map Some v @ zeroed (kMaxPacketFieldLen - length v)) = Inr v"
    using nul lv by (intro c_string_zeroed) (auto simp: packet_consts)
  ultimately show ?thesis
    using lv by (intro that) (auto simp: packet_consts)
qed

end
