(* ===== verification/Codec.thy ===== *)
theory Codec
  imports Messages
begin

text \<open>
  The six packet classes as codecs of messages. The locale states the contract of a class; the
  interpretations discharge it for the code's constructors, parsers and formatters.
\<close>

section \<open>The contract of a packet class\<close>

text \<open>
  \<open>carries p m\<close>: the fields of \<open>p\<close> are those of \<open>m\<close>, and its text buffer has the right size.
\<close>

definition sized :: "packet_type \<Rightarrow> 'a bs_packet_scheme \<Rightarrow> bool" where
  "sized t p \<longleftrightarrow> length (packet_str p) = kMaxPacketLen \<and> packet_type p = t"

definition line_text :: "cell list \<Rightarrow> message \<Rightarrow> char list \<Rightarrow> bool" where
  "line_text b m r \<longleftrightarrow>
     c_string b = Inr (wire m @ r) \<and> length (wire m @ r) < kMaxPacketLen \<and> tail_ok r"

lemma contents_length:
  assumes "ok_message m"
  shows "length (contents m) \<le> 187"
proof (cases m)
  case (MDIS i)
  then show ?thesis using decimal_u16_length [of i] by simp
next
  case (MMRD a vs)
  then show ?thesis using assms by (simp add: fits_def del: contents.simps)
next
  case (MMWR a v)
  then show ?thesis using assms hex_u32_length [of a] by (simp add: ok_value_def)
next
  case (MSRD i a)
  then show ?thesis using decimal_u16_length [of i] hex_u32_length [of a] by simp
next
  case (MSWR i a v)
  then show ?thesis using assms decimal_u16_length [of i] hex_u32_length [of a]
    by (simp add: ok_value_def)
next
  case (MSRS i v)
  then show ?thesis using assms decimal_u16_length [of i] by (simp add: ok_value_def)
qed

lemma wire_length:
  assumes "ok_message m"
  shows "length (wire m) < kMaxPacketLen"
proof -
  have "length (hex2 (uint (w :: u8))) = 2" for w by (rule hex2_length) (simp_all add: uint_u8_bound)
  then have "length (wire m) = 10 + length (contents m)"
    by (simp add: wire_def frame_def body_def)
  then show ?thesis using contents_length [OF assms] by (simp add: packet_consts)
qed


text \<open>
  A class of packets: \<open>formats_as\<close> says what its formatter prints, \<open>parses\<close> that its
  constructor from a string recovers the message.
\<close>

locale packet_class =
  fixes t :: packet_type
    and carries :: "'a bs_packet_scheme \<Rightarrow> message \<Rightarrow> bool"
    and ToString :: "cell list option \<Rightarrow> 'a bs_packet_scheme \<Rightarrow>
          fault + (u16 \<times> 'a bs_packet_scheme \<times> cell list option)"
    and of_string :: "cell list \<Rightarrow> fault + 'a bs_packet_scheme"
  assumes formats_as: "carries p m \<Longrightarrow> ok_message m \<Longrightarrow> prints ToString p (wire m)"
    and parses: "line_text b m r \<Longrightarrow> ok_message m \<Longrightarrow> type_of m = t \<Longrightarrow>
          \<exists>p. of_string b = Inr p \<and> is_valid p \<and> carries p m"
begin

lemma forwards:
  assumes "line_text b m r" "ok_message m" "type_of m = t"
  obtains p where "of_string b = Inr p" "is_valid p" "carries p m" "prints ToString p (wire m)"
  using assms parses formats_as by blast

text \<open>What is printed is parsed back, as a packet that carries the same message.\<close>

lemma round_trip:
  assumes "carries p m" "ok_message m" "type_of m = t"
  shows "\<exists>p' os q. ToString (Some (uninit kMaxPacketLen)) p =
      Inr (of_nat (length (wire m)), p', Some os) \<and> c_string os = Inr (wire m) \<and>
      of_string os = Inr q \<and> is_valid q \<and> carries q m"
proof -
  note l = wire_length [OF assms(2)]
  obtain p' os where t: "ToString (Some (uninit kMaxPacketLen)) p =
      Inr (of_nat (length (wire m)), p', Some os)" "c_string os = Inr (wire m)"
    by (rule prints_Some [OF formats_as [OF assms(1,2)] l, of "uninit kMaxPacketLen"]) simp_all
  have "line_text os m []" using t(2) l by (simp add: line_text_def)
  then show ?thesis using forwards [OF _ assms(2,3)] t by metis
qed

end

lemma header_step:
  assumes "line_text b m r"
  obtains tb tb' k where "strncpy (uninit kMaxPacketLen) b (int kMaxPacketLen) = Inr tb"
    "c_string tb = Inr (wire m @ r)"
    "strtok_at CHR '','' tb 0 = Inr (Some 0, tb', Some 7)"
    "deref_string tb' (Some 0) = Inr (CHR ''$'' # header_of (type_of m))"
    "drop 7 tb' = map Some (contents m @ trailer (type_of m) (contents m) r) @ Some NUL # k"
    "NUL \<notin> set (contents m)"
proof -
  have "c_string b = Inr (frame (type_of m) (contents m) @ r)"
    "length (frame (type_of m) (contents m) @ r) < kMaxPacketLen"
    using assms by (simp_all add: line_text_def wire_def)
  then show ?thesis
    by (rule header_token) (rule that, auto simp: wire_def trailer_def)
qed

lemma base_step:
  assumes "line_text b m r" "length (packet_str p) = kMaxPacketLen" "CHR ''*'' \<notin> set (contents m)"
  shows "BSPacket_FromString b p = Inr (p\<lparr>packet_type := type_of m, is_valid := True,
    packet_str := map Some (wire m @ r) @ zeroed (kMaxPacketLen - length (wire m @ r))\<rparr>)"
  using assms unfolding line_text_def wire_def
  by (intro BSPacket_FromString_frame) auto

section \<open>DISPacket\<close>

definition dis_carries :: "dis_packet \<Rightarrow> message \<Rightarrow> bool" where
  "dis_carries p m \<longleftrightarrow> sized DIS p \<and> m = MDIS (last_cell_id p)"

lemma u16_as_int: "uint (ucast (i :: u16) :: u32) < 2 ^ 31"
  using uint_bounded [of i] by simp

lemma formats_DIS: "formats ''%d'' [VInt (ucast (i :: u16))] (contents (MDIS i))"
  using format_rules(3) [OF u16_as_int formats_nil] by simp

lemma contents_plain:
  "NUL \<notin> set (decimal (uint (i :: u16)))" "CHR ''*'' \<notin> set (decimal (uint i))"
  "CHR '','' \<notin> set (decimal (uint i))"
  "NUL \<notin> set (hex (uint (a :: u32)))" "CHR ''*'' \<notin> set (hex (uint a))"
  "CHR '','' \<notin> set (hex (uint a))"
  by (simp_all add: decimal_plain hex_plain)

lemma DIS_formats: "dis_carries p m \<Longrightarrow> prints DISPacket_ToString p (wire m)"
  using decimal_u16_length [of "last_cell_id p"]
  by (auto simp: wire_def dis_carries_def sized_def contents_plain DISPacket_ToString_def
      intro!: prints_contents_frame [OF formats_DIS, simplified])

lemma DIS_parses:
  assumes "line_text b m r" "type_of m = DIS"
  shows "\<exists>p. DISPacket_of_string b = Inr p \<and> is_valid p \<and> dis_carries p m"
proof -
  obtain i where m: "m = MDIS i" using assms(2) by (cases m) auto
  let ?p = "\<lparr>packet_str = zeroed kMaxPacketLen, is_valid = False, packet_type = DIS, last_cell_id = 0\<rparr>"
  have b1: "BSPacket_FromString b ?p = Inr (?p\<lparr>packet_type := DIS, is_valid := True,
    packet_str := map Some (wire m @ r) @ zeroed (kMaxPacketLen - length (wire m @ r))\<rparr>)"
    using base_step [OF assms(1), of ?p] by (simp add: m contents_plain)
  obtain tb tb' k where h: "strncpy (uninit kMaxPacketLen) b (int kMaxPacketLen) = Inr tb"
    "strtok_at CHR '','' tb 0 = Inr (Some 0, tb', Some 7)"
    "deref_string tb' (Some 0) = Inr (CHR ''$'' # header_of DIS)"
    "drop 7 tb' = map Some (decimal (uint i) @ trailer DIS (contents m) r) @ Some NUL # k"
    using assms(1) by (rule header_step) (simp add: m)
  have tr: "tail_ok r" using assms(1) by (simp add: line_text_def)
  note l = last_token [OF h(4)]
  have "strtok_next CHR '','' tb' (Some 7) = Inr (Some 7, tb', None)"
    "deref_string tb' (Some 7) = Inr (decimal (uint i) @ trailer DIS (contents m) r)"
    using l trailer_facts [OF tr] by (simp_all add: contents_plain)
  then have "DISPacket_of_string b = Inr (?p\<lparr>packet_type := DIS, is_valid := True,
      packet_str := map Some (wire m @ r) @ zeroed (kMaxPacketLen - length (wire m @ r)),
      last_cell_id := ucast (strtoul (decimal (uint i) @ trailer DIS (contents m) r) 10)\<rparr>)"
    using h b1 by (simp add: DISPacket_of_string_def DISPacket_FromString_def)
  moreover have "ucast (strtoul (decimal (uint i) @ trailer DIS (contents m) r) 10) = i"
    using trailer_facts [OF tr] by (intro strtoul_decimal) auto
  ultimately show ?thesis
    using assms(1) by (simp add: dis_carries_def sized_def m line_text_def)
qed

interpretation dis: packet_class DIS dis_carries DISPacket_ToString DISPacket_of_string
  by unfold_locales (auto intro: DIS_formats DIS_parses)

section \<open>SRDPacket\<close>

definition srd_carries :: "srd_packet \<Rightarrow> message \<Rightarrow> bool" where
  "srd_carries p m \<longleftrightarrow> sized SRD p \<and> m = MSRD (srd_cell_id p) (srd_reg_addr p)"

lemma formats_SRD:
  "formats ''%d,%X'' [VInt (ucast (i :: u16)), VInt a] (contents (MSRD i a))"
proof -
  have "formats ''%d,%X'' [VInt (ucast i), VInt a]
      (decimal (uint (ucast i :: u32)) @ CHR '','' # hex (uint a) @ [])"
    by (intro format_rules u16_as_int) simp
  then show ?thesis by simp
qed

lemma SRD_formats: "srd_carries p m \<Longrightarrow> prints SRDPacket_ToString p (wire m)"
  using decimal_u16_length [of "srd_cell_id p"] hex_u32_length [of "srd_reg_addr p"]
  by (auto simp: wire_def srd_carries_def sized_def contents_plain SRDPacket_ToString_def
      intro!: prints_contents_frame [OF formats_SRD, simplified])

lemma field_id:
  assumes "drop p tb = map Some (decimal (uint (i :: u16)) @ CHR '','' # rest) @ k"
  obtains tb' where "strtok_next CHR '','' tb (Some p) =
      Inr (Some p, tb', Some (Suc (p + length (decimal (uint i)))))"
    "deref_string tb' (Some p) = Inr (decimal (uint i))"
    "drop (Suc (p + length (decimal (uint i)))) tb' = map Some rest @ k"
    "ucast (strtoul (decimal (uint i)) 10) = i"
proof -
  have h: "ucast (strtoul (decimal (uint i)) 10) = i" using strtoul_decimal [of "[]" i] by simp
  show ?thesis
    by (rule field_token [OF assms numeral_of_nonempty contents_plain(3,1)], rule that [OF _ _ _ h])
qed

lemma field_addr:
  assumes "drop p tb = map Some (hex (uint (a :: u32)) @ CHR '','' # rest) @ k"
  obtains tb' where "strtok_next CHR '','' tb (Some p) =
      Inr (Some p, tb', Some (Suc (p + length (hex (uint a)))))"
    "deref_string tb' (Some p) = Inr (hex (uint a))"
    "drop (Suc (p + length (hex (uint a)))) tb' = map Some rest @ k"
    "strtoul (hex (uint a)) 16 = a"
proof -
  have h: "strtoul (hex (uint a)) 16 = a" using strtoul_hex [of "[]" a] by simp
  show ?thesis
    by (rule field_token [OF assms numeral_of_nonempty contents_plain(6,4)], rule that [OF _ _ _ h])
qed

lemma last_addr:
  assumes "drop p tb = map Some (hex (uint (a :: u32)) @ trailer t c r) @ Some NUL # k" "tail_ok r"
  shows "strtok_next CHR '','' tb (Some p) = Inr (Some p, tb, None)"
    "deref_string tb (Some p) = Inr (hex (uint a) @ trailer t c r)"
    "strtoul (hex (uint a) @ trailer t c r) 16 = a"
proof -
  note l = last_token [OF assms(1)]
  show "strtok_next CHR '','' tb (Some p) = Inr (Some p, tb, None)"
    "deref_string tb (Some p) = Inr (hex (uint a) @ trailer t c r)"
    using l trailer_facts [OF assms(2)] by (simp_all add: contents_plain)
  show "strtoul (hex (uint a) @ trailer t c r) 16 = a"
    using trailer_facts [OF assms(2)] by (intro strtoul_hex) auto
qed

lemma last_value_token:
  assumes "drop p tb = map Some (v @ trailer t c r) @ Some NUL # k" "ok_value v" "tail_ok r"
  shows "strtok_next CHR '','' tb (Some p) = Inr (Some p, tb, None)"
proof (rule last_token(1) [OF assms(1)])
  show "v @ trailer t c r \<noteq> []" using assms(2) by (simp add: ok_value_def)
  show "CHR '','' \<notin> set (v @ trailer t c r)" "NUL \<notin> set (v @ trailer t c r)"
    using assms(2) trailer_facts(1,2) [OF assms(3), of t c] by (auto simp: ok_value_def)
qed

lemma SRD_parses:
  assumes "line_text b m r" "type_of m = SRD"
  shows "\<exists>p. SRDPacket_of_string b = Inr p \<and> is_valid p \<and> srd_carries p m"
proof -
  obtain i a where m: "m = MSRD i a" using assms(2) by (cases m) auto
  have tr: "tail_ok r" using assms(1) by (simp add: line_text_def)
  let ?p = "\<lparr>packet_str = zeroed kMaxPacketLen, is_valid = False, packet_type = SRD,
    srd_cell_id = 0, srd_reg_addr = 0\<rparr>"
  let ?ps = "map Some (wire m @ r) @ zeroed (kMaxPacketLen - length (wire m @ r))"
  have b1: "BSPacket_FromString b ?p =
      Inr (?p\<lparr>packet_type := SRD, is_valid := True, packet_str := ?ps\<rparr>)"
    using base_step [OF assms(1), of ?p] by (simp add: m contents_plain)
  obtain tb tb1 k where h: "strncpy (uninit kMaxPacketLen) b (int kMaxPacketLen) = Inr tb"
    "strtok_at CHR '','' tb 0 = Inr (Some 0, tb1, Some 7)"
    "deref_string tb1 (Some 0) = Inr (CHR ''$'' # header_of SRD)"
    "drop 7 tb1 = map Some (decimal (uint i) @ CHR '','' # hex (uint a)
       @ trailer SRD (contents m) r) @ Some NUL # k"
    using assms(1) by (rule header_step) (simp add: m)
  obtain tb2 where f: "strtok_next CHR '','' tb1 (Some 7) =
      Inr (Some 7, tb2, Some (Suc (7 + length (decimal (uint i)))))"
    "deref_string tb2 (Some 7) = Inr (decimal (uint i))"
    "drop (Suc (7 + length (decimal (uint i)))) tb2 =
      map Some (hex (uint a) @ trailer SRD (contents m) r) @ Some NUL # k"
    "ucast (strtoul (decimal (uint i)) 10) = i"
    using h(4) by (rule field_id)
  have "SRDPacket_of_string b = Inr (?p\<lparr>packet_type := SRD, is_valid := True, packet_str := ?ps,
      srd_cell_id := i, srd_reg_addr := a\<rparr>)"
    using h(1-3) b1 f(1,2,4) last_addr [OF f(3) tr]
    by (simp add: SRDPacket_of_string_def SRDPacket_FromString_def Let_def)
  then show ?thesis
    using assms(1) by (simp add: srd_carries_def sized_def m line_text_def)
qed

interpretation srd: packet_class SRD srd_carries SRDPacket_ToString SRDPacket_of_string
  by unfold_locales (auto intro: SRD_formats SRD_parses)

section \<open>MWRPacket\<close>

text \<open>A value field that holds a text: at most 19 characters and terminated.\<close>

definition value_is :: "cell list \<Rightarrow> char list \<Rightarrow> bool" where
  "value_is b v \<longleftrightarrow> c_string b = Inr v \<and> length b = kMaxPacketFieldLen"

definition mwr_carries :: "mwr_packet \<Rightarrow> message \<Rightarrow> bool" where
  "mwr_carries p m \<longleftrightarrow> sized MWR p \<and> (\<exists>v. m = MMWR (mwr_reg_addr p) v \<and> value_is (mwr_value p) v)"

lemma ok_valueD:
  "ok_value v \<Longrightarrow> v \<noteq> [] \<and> length v \<le> 19 \<and> NUL \<notin> set v \<and> CHR '','' \<notin> set v
     \<and> CHR ''*'' \<notin> set v \<and> CHR 0x0A \<notin> set v"
  by (auto simp: ok_value_def)

lemma formats_MWR:
  "c_string b = Inr v \<Longrightarrow> int (length v) < 2 ^ 32 \<Longrightarrow>
   formats ''%X,%s'' [VInt a, VStr b] (contents (MMWR a v))"
proof -
  assume "c_string b = Inr v" "int (length v) < 2 ^ 32"
  then have "formats ''%X,%s'' [VInt a, VStr b] (hex (uint a) @ CHR '','' # v @ [])"
    by (intro format_rules) auto
  then show ?thesis by simp
qed

lemma MWR_formats:
  assumes "mwr_carries p m" "ok_message m"
  shows "prints MWRPacket_ToString p (wire m)"
proof -
  obtain v where m: "m = MMWR (mwr_reg_addr p) v" and v: "value_is (mwr_value p) v" "ok_value v"
    using assms by (auto simp: mwr_carries_def)
  have "formats ''%X,%s'' [VInt (mwr_reg_addr p), VStr (mwr_value p)] (contents m)"
    using v ok_valueD [OF v(2)] by (auto simp: m value_is_def simp del: contents.simps intro!: formats_MWR)
  then show ?thesis
    using assms(1) hex_u32_length [of "mwr_reg_addr p"] ok_valueD [OF v(2)]
    unfolding wire_def
    by (intro prints_contents_frame)
      (auto simp: m mwr_carries_def sized_def contents_plain MWRPacket_ToString_def)
qed

lemma MWR_parses:
  assumes "line_text b m r" "ok_message m" "type_of m = MWR"
  shows "\<exists>p. MWRPacket_of_string b = Inr p \<and> is_valid p \<and> mwr_carries p m"
proof -
  obtain a v where m: "m = MMWR a v" using assms(3) by (cases m) auto
  then have v: "ok_value v" using assms(2) by simp
  have tr: "tail_ok r" using assms(1) by (simp add: line_text_def)
  let ?p = "\<lparr>packet_str = zeroed kMaxPacketLen, is_valid = False, packet_type = MWR,
    mwr_reg_addr = 0, mwr_value = zeroed kMaxPacketFieldLen\<rparr>"
  let ?ps = "map Some (wire m @ r) @ zeroed (kMaxPacketLen - length (wire m @ r))"
  have b1: "BSPacket_FromString b ?p =
      Inr (?p\<lparr>packet_type := MWR, is_valid := True, packet_str := ?ps\<rparr>)"
    using base_step [OF assms(1), of ?p] ok_valueD [OF v] by (simp add: m contents_plain)
  obtain tb tb1 k where h: "strncpy (uninit kMaxPacketLen) b (int kMaxPacketLen) = Inr tb"
    "strtok_at CHR '','' tb 0 = Inr (Some 0, tb1, Some 7)"
    "deref_string tb1 (Some 0) = Inr (CHR ''$'' # header_of MWR)"
    "drop 7 tb1 = map Some (hex (uint a) @ CHR '','' # v @ trailer MWR (contents m) r) @ Some NUL # k"
    using assms(1) by (rule header_step) (simp add: m)
  obtain tb2 where f: "strtok_next CHR '','' tb1 (Some 7) =
      Inr (Some 7, tb2, Some (Suc (7 + length (hex (uint a)))))"
    "deref_string tb2 (Some 7) = Inr (hex (uint a))"
    "drop (Suc (7 + length (hex (uint a)))) tb2 =
      map Some (v @ trailer MWR (contents m) r) @ Some NUL # k"
    "strtoul (hex (uint a)) 16 = a"
    using h(4) by (rule field_addr)
  obtain vb where vb: "copy_value (zeroed kMaxPacketFieldLen) tb2 (Some (Suc (7 + length (hex (uint a))))) = Inr vb"
    "c_string vb = Inr v" "length vb = kMaxPacketFieldLen"
    using f(3) v tr by (rule last_value)
  have "MWRPacket_of_string b = Inr (?p\<lparr>packet_type := MWR, is_valid := True, packet_str := ?ps,
      mwr_reg_addr := a, mwr_value := vb\<rparr>)"
    using h(1-3) b1 f(1,2,4) last_value_token [OF f(3) v tr] vb(1)
    by (simp add: MWRPacket_of_string_def MWRPacket_FromString_def Let_def)
  then show ?thesis
    using assms(1) vb by (simp add: mwr_carries_def value_is_def sized_def m line_text_def)
qed

interpretation mwr: packet_class MWR mwr_carries MWRPacket_ToString MWRPacket_of_string
  by unfold_locales (auto intro: MWR_formats MWR_parses)

section \<open>SWRPacket\<close>

definition swr_carries :: "swr_packet \<Rightarrow> message \<Rightarrow> bool" where
  "swr_carries p m \<longleftrightarrow> sized SWR p \<and>
     (\<exists>v. m = MSWR (swr_cell_id p) (swr_reg_addr p) v \<and> value_is (swr_value p) v)"

lemma formats_SWR:
  "c_string b = Inr v \<Longrightarrow> int (length v) < 2 ^ 32 \<Longrightarrow>
   formats ''%d,%X,%s'' [VInt (ucast (i :: u16)), VInt a, VStr b] (contents (MSWR i a v))"
proof -
  assume "c_string b = Inr v" "int (length v) < 2 ^ 32"
  then have "formats ''%d,%X,%s'' [VInt (ucast i), VInt a, VStr b]
      (decimal (uint (ucast i :: u32)) @ CHR '','' # hex (uint a) @ CHR '','' # v @ [])"
    by (intro format_rules u16_as_int) auto
  then show ?thesis by simp
qed

lemma SWR_formats:
  assumes "swr_carries p m" "ok_message m"
  shows "prints SWRPacket_ToString p (wire m)"
proof -
  obtain v where m: "m = MSWR (swr_cell_id p) (swr_reg_addr p) v"
    and v: "value_is (swr_value p) v" "ok_value v"
    using assms by (auto simp: swr_carries_def)
  have "formats ''%d,%X,%s''
      [VInt (ucast (swr_cell_id p)), VInt (swr_reg_addr p), VStr (swr_value p)] (contents m)"
    using v ok_valueD [OF v(2)] by (auto simp: m value_is_def simp del: contents.simps intro!: formats_SWR)
  then show ?thesis
    using assms(1) hex_u32_length [of "swr_reg_addr p"] decimal_u16_length [of "swr_cell_id p"]
      ok_valueD [OF v(2)]
    unfolding wire_def
    by (intro prints_contents_frame)
      (auto simp: m swr_carries_def sized_def contents_plain SWRPacket_ToString_def)
qed

lemma SWR_parses:
  assumes "line_text b m r" "ok_message m" "type_of m = SWR"
  shows "\<exists>p. SWRPacket_of_string b = Inr p \<and> is_valid p \<and> swr_carries p m"
proof -
  obtain i a v where m: "m = MSWR i a v" using assms(3) by (cases m) auto
  then have v: "ok_value v" using assms(2) by simp
  have tr: "tail_ok r" using assms(1) by (simp add: line_text_def)
  let ?p = "\<lparr>packet_str = zeroed kMaxPacketLen, is_valid = False, packet_type = SWR,
    swr_cell_id = 0, swr_reg_addr = 0, swr_value = zeroed kMaxPacketFieldLen\<rparr>"
  let ?ps = "map Some (wire m @ r) @ zeroed (kMaxPacketLen - length (wire m @ r))"
  have b1: "BSPacket_FromString b ?p =
      Inr (?p\<lparr>packet_type := SWR, is_valid := True, packet_str := ?ps\<rparr>)"
    using base_step [OF assms(1), of ?p] ok_valueD [OF v] by (simp add: m contents_plain)
  obtain tb tb1 k where h: "strncpy (uninit kMaxPacketLen) b (int kMaxPacketLen) = Inr tb"
    "strtok_at CHR '','' tb 0 = Inr (Some 0, tb1, Some 7)"
    "deref_string tb1 (Some 0) = Inr (CHR ''$'' # header_of SWR)"
    "drop 7 tb1 = map Some (decimal (uint i) @ CHR '','' # hex (uint a) @ CHR '','' #
      v @ trailer SWR (contents m) r) @ Some NUL # k"
    using assms(1) by (rule header_step) (simp add: m)
  let ?q = "Suc (7 + length (decimal (uint i)))"
  obtain tb2 where f: "strtok_next CHR '','' tb1 (Some 7) = Inr (Some 7, tb2, Some ?q)"
    "deref_string tb2 (Some 7) = Inr (decimal (uint i))"
    "drop ?q tb2 = map Some (hex (uint a) @ CHR '','' # v @ trailer SWR (contents m) r) @ Some NUL # k"
    "ucast (strtoul (decimal (uint i)) 10) = i"
    using h(4) by (rule field_id)
  let ?q' = "Suc (?q + length (hex (uint a)))"
  obtain tb3 where g: "strtok_next CHR '','' tb2 (Some ?q) = Inr (Some ?q, tb3, Some ?q')"
    "deref_string tb3 (Some ?q) = Inr (hex (uint a))"
    "drop ?q' tb3 = map Some (v @ trailer SWR (contents m) r) @ Some NUL # k"
    "strtoul (hex (uint a)) 16 = a"
    using f(3) by (rule field_addr)
  obtain vb where vb: "copy_value (zeroed kMaxPacketFieldLen) tb3 (Some ?q') = Inr vb"
    "c_string vb = Inr v" "length vb = kMaxPacketFieldLen"
    using g(3) v tr by (rule last_value)
  have "SWRPacket_of_string b = Inr (?p\<lparr>packet_type := SWR, is_valid := True, packet_str := ?ps,
      swr_cell_id := i, swr_reg_addr := a, swr_value := vb\<rparr>)"
    using h(1-3) b1 f(1,2,4) g(1,2,4) last_value_token [OF g(3) v tr] vb(1)
    by (simp add: SWRPacket_of_string_def SWRPacket_FromString_def Let_def)
  then show ?thesis
    using assms(1) vb by (simp add: swr_carries_def value_is_def sized_def m line_text_def)
qed

interpretation swr: packet_class SWR swr_carries SWRPacket_ToString SWRPacket_of_string
  by unfold_locales (auto intro: SWR_formats SWR_parses)

section \<open>SRSPacket\<close>

definition srs_carries :: "srs_packet \<Rightarrow> message \<Rightarrow> bool" where
  "srs_carries p m \<longleftrightarrow> sized SRS p \<and> (\<exists>v. m = MSRS (srs_cell_id p) v \<and> value_is (srs_value p) v)"

lemma formats_SRS:
  "c_string b = Inr v \<Longrightarrow> int (length v) < 2 ^ 32 \<Longrightarrow>
   formats ''%d,%s'' [VInt (ucast (i :: u16)), VStr b] (contents (MSRS i v))"
proof -
  assume "c_string b = Inr v" "int (length v) < 2 ^ 32"
  then have "formats ''%d,%s'' [VInt (ucast i), VStr b]
      (decimal (uint (ucast i :: u32)) @ CHR '','' # v @ [])"
    by (intro format_rules u16_as_int) auto
  then show ?thesis by simp
qed

lemma SRS_formats:
  assumes "srs_carries p m" "ok_message m"
  shows "prints SRSPacket_ToString p (wire m)"
proof -
  obtain v where m: "m = MSRS (srs_cell_id p) v" and v: "value_is (srs_value p) v" "ok_value v"
    using assms by (auto simp: srs_carries_def)
  have "formats ''%d,%s'' [VInt (ucast (srs_cell_id p)), VStr (srs_value p)] (contents m)"
    using v ok_valueD [OF v(2)] by (auto simp: m value_is_def simp del: contents.simps intro!: formats_SRS)
  then show ?thesis
    using assms(1) decimal_u16_length [of "srs_cell_id p"] ok_valueD [OF v(2)]
    unfolding wire_def
    by (intro prints_contents_frame)
      (auto simp: m srs_carries_def sized_def contents_plain SRSPacket_ToString_def)
qed

lemma SRS_parses:
  assumes "line_text b m r" "ok_message m" "type_of m = SRS"
  shows "\<exists>p. SRSPacket_of_string b = Inr p \<and> is_valid p \<and> srs_carries p m"
proof -
  obtain i v where m: "m = MSRS i v" using assms(3) by (cases m) auto
  then have v: "ok_value v" using assms(2) by simp
  have tr: "tail_ok r" using assms(1) by (simp add: line_text_def)
  let ?p = "\<lparr>packet_str = zeroed kMaxPacketLen, is_valid = False, packet_type = SRS,
    srs_cell_id = 0, srs_value = zeroed kMaxPacketFieldLen\<rparr>"
  let ?ps = "map Some (wire m @ r) @ zeroed (kMaxPacketLen - length (wire m @ r))"
  have b1: "BSPacket_FromString b ?p =
      Inr (?p\<lparr>packet_type := SRS, is_valid := True, packet_str := ?ps\<rparr>)"
    using base_step [OF assms(1), of ?p] ok_valueD [OF v] by (simp add: m contents_plain)
  obtain tb tb1 k where h: "strncpy (uninit kMaxPacketLen) b (int kMaxPacketLen) = Inr tb"
    "strtok_at CHR '','' tb 0 = Inr (Some 0, tb1, Some 7)"
    "deref_string tb1 (Some 0) = Inr (CHR ''$'' # header_of SRS)"
    "drop 7 tb1 = map Some (decimal (uint i) @ CHR '','' # v @ trailer SRS (contents m) r)
       @ Some NUL # k"
    using assms(1) by (rule header_step) (simp add: m)
  let ?q = "Suc (7 + length (decimal (uint i)))"
  obtain tb2 where f: "strtok_next CHR '','' tb1 (Some 7) = Inr (Some 7, tb2, Some ?q)"
    "deref_string tb2 (Some 7) = Inr (decimal (uint i))"
    "drop ?q tb2 = map Some (v @ trailer SRS (contents m) r) @ Some NUL # k"
    "ucast (strtoul (decimal (uint i)) 10) = i"
    using h(4) by (rule field_id)
  obtain vb where vb: "copy_value (zeroed kMaxPacketFieldLen) tb2 (Some ?q) = Inr vb"
    "c_string vb = Inr v" "length vb = kMaxPacketFieldLen"
    using f(3) v tr by (rule last_value)
  have "SRSPacket_of_string b = Inr (?p\<lparr>packet_type := SRS, is_valid := True, packet_str := ?ps,
      srs_cell_id := i, srs_value := vb\<rparr>)"
    using h(1-3) b1 f(1,2,4) last_value_token [OF f(3) v tr] vb(1)
    by (simp add: SRSPacket_of_string_def SRSPacket_FromString_def Let_def)
  then show ?thesis
    using assms(1) vb by (simp add: srs_carries_def value_is_def sized_def m line_text_def)
qed

interpretation srs: packet_class SRS srs_carries SRSPacket_ToString SRSPacket_of_string
  by unfold_locales (auto intro: SRS_formats SRS_parses)

end
