(* ===== verification/Codec_Mrd.thy ===== *)
theory Codec_Mrd
  imports Codec
begin

text \<open>
  The multiple-read packet as a codec: its formatter and its parser loop over the values.
\<close>

section \<open>Formatting\<close>

definition mrd_carries :: "mrd_packet \<Rightarrow> message \<Rightarrow> bool" where
  "mrd_carries p m \<longleftrightarrow> sized MRD p \<and> (\<exists>vs. m = MMRD (mrd_reg_addr p) vs \<and>
     unat (mrd_num_values p) = length vs \<and> length (mrd_values p) = kMaxNumValues \<and>
     (\<forall>i < length vs. value_is (mrd_values p ! i) (vs ! i)))"

lemma strncat_string:
  assumes "c_string dst = Inr t" "c_string src = Inr v" "length v < n"
    and "length t + length v < length dst"
  obtains b where "strncat dst src n = Inr b" "c_string b = Inr (t @ v)" "length b = length dst"
proof -
  obtain r where d: "dst = map Some t @ Some NUL # r" "NUL \<notin> set t" using assms(1) by (rule c_stringE)
  have "NUL \<notin> set v" using assms(2) by (auto elim: c_stringE)
  have "strncat_chars n src = Inr v"
    using assms(2,3)
    by (induction src arbitrary: v n rule: c_string.induct)
      (auto split: if_splits elim!: rbind_eq_InrE; case_tac n; auto)+
  then have "strncat dst src n =
      Inr (map Some (t @ v) @ Some NUL # drop (length t + length v + 1) dst)"
    using assms(1,4) by (simp add: strncat_def append_string_def)
  moreover have "c_string (map Some (t @ v) @ Some NUL # drop (length t + length v + 1) dst) = Inr (t @ v)"
    using d(2) \<open>NUL \<notin> set v\<close> by (intro c_string_append) simp
  ultimately show ?thesis using assms(4) that by simp
qed

definition joined :: "char list list \<Rightarrow> char list" where
  "joined vs = concat (map (\<lambda>v. CHR '','' # v) vs)"

lemma joined_simps [simp]:
  "joined [] = []" "joined (v # vs) = CHR '','' # v @ joined vs" "joined (vs @ ws) = joined vs @ joined ws"
  by (simp_all add: joined_def)

lemma contents_MMRD: "contents (MMRD a vs) = hex (uint a) @ joined vs"
  by (simp add: joined_def)

lemma append_step:
  assumes "c_string c = Inr t" "length c = kMaxPacketContentsLen" "length t < 170"
    and "i < length vals" "value_is (vals ! i) v" "ok_value v"
  obtains c' where "mrd_append_values vals (i # is) c = mrd_append_values vals is c'"
    "c_string c' = Inr (t @ CHR '','' # v)" "length c' = kMaxPacketContentsLen"
proof -
  have v: "c_string (vals ! i) = Inr v" "length v \<le> 19" "NUL \<notin> set v"
    using assms(5) ok_valueD [OF assms(6)] by (auto simp: value_is_def)
  then have "formats '',%s'' [VStr (vals ! i)] (CHR '','' # v @ [])"
    by (intro format_rules) auto
  then obtain b where b: "snprintf (uninit 21) (int 21) '',%s'' [VStr (vals ! i)] = Inr b"
    "c_string b = Inr (take (21 - 1) (CHR '','' # v @ []))" "length b = length (uninit 21)"
    by (rule snprintf_string [where n = 21 and b = "uninit 21"]) (use v in auto)
  then have b2: "c_string b = Inr (CHR '','' # v)" using v(2) by simp
  obtain c' where "strncat c b 21 = Inr c'" "c_string c' = Inr (t @ CHR '','' # v)" "length c' = length c"
    using assms(1) b2 by (rule strncat_string [where n = 21]) (use v assms(2,3) in \<open>auto simp: packet_consts\<close>)
  then show ?thesis
    using assms(1-4) b(1) by (intro that) (simp_all add: strlen_def packet_consts)
qed

lemma mrd_append_text:
  assumes "c_string c = Inr t" "length c = kMaxPacketContentsLen"
    and "length (t @ joined (butlast vs)) < 170"
    and "\<And>i. i < length vs \<Longrightarrow> k + i < length vals \<and> value_is (vals ! (k + i)) (vs ! i) \<and> ok_value (vs ! i)"
  shows "\<exists>c'. mrd_append_values vals [k ..< k + length vs] c = Inr c' \<and>
    c_string c' = Inr (t @ joined vs) \<and> length c' = kMaxPacketContentsLen"
  using assms
proof (induction vs arbitrary: k c t)
  case (Cons v vs)
  have "length t < 170" using Cons.prems(3) by simp
  moreover have v: "k < length vals" "value_is (vals ! k) v" "ok_value v"
    using Cons.prems(4) [of 0] by auto
  ultimately obtain c1 where c1:
    "mrd_append_values vals (k # [Suc k ..< Suc k + length vs]) c =
       mrd_append_values vals [Suc k ..< Suc k + length vs] c1"
    "c_string c1 = Inr (t @ CHR '','' # v)" "length c1 = kMaxPacketContentsLen"
    using append_step [OF Cons.prems(1,2)] by metis
  have "length ((t @ CHR '','' # v) @ joined (butlast vs)) < 170 \<or> vs = []"
    using Cons.prems(3) by (cases "vs = []") auto
  moreover have "\<exists>c'. mrd_append_values vals [Suc k ..< Suc k + length vs] c1 = Inr c' \<and>
    c_string c' = Inr ((t @ CHR '','' # v) @ joined vs) \<and> length c' = kMaxPacketContentsLen"
  proof (cases "vs = []")
    case True
    then show ?thesis using c1 by simp
  next
    case False
    have "length ((t @ CHR '','' # v) @ joined (butlast vs)) < 170" using False Cons.prems(3) by simp
    moreover have "Suc k + i < length vals \<and> value_is (vals ! (Suc k + i)) (vs ! i) \<and> ok_value (vs ! i)"
      if "i < length vs" for i
      using Cons.prems(4) [of "Suc i"] that by simp
    ultimately show ?thesis by (rule Cons.IH [OF c1(2,3)])
  qed
  moreover have "[k ..< k + length (v # vs)] = k # [Suc k ..< Suc k + length vs]"
    by (simp add: upt_rec)
  ultimately show ?case using c1(1) by simp
qed auto

lemma joined_chars:
  assumes "list_all ok_value vs"
  shows "NUL \<notin> set (joined vs)" "CHR ''*'' \<notin> set (joined vs)"
  using assms by (induction vs) (auto dest: ok_valueD)

lemma MRD_formats:
  assumes "mrd_carries p m" "ok_message m"
  shows "prints MRDPacket_ToString p (wire m)"
proof -
  obtain vs where m: "m = MMRD (mrd_reg_addr p) vs" and n: "unat (mrd_num_values p) = length vs"
    and vs: "length (mrd_values p) = kMaxNumValues"
      "\<And>i. i < length vs \<Longrightarrow> value_is (mrd_values p ! i) (vs ! i)"
    and sz: "sized MRD p"
    using assms(1) by (auto simp: mrd_carries_def)
  let ?h = "hex (uint (mrd_reg_addr p))"
  have ok: "list_all ok_value vs" and fit: "length vs \<le> kMaxNumValues"
    "length (?h @ joined (butlast vs)) < 170" "length (?h @ joined vs) \<le> 187"
    using assms(2) by (auto simp: m fits_def contents_MMRD simp del: contents.simps)
  have "formats ''%X'' [VInt (mrd_reg_addr p)] (?h @ [])" by (intro format_rules)
  then obtain c0 where c0: "snprintf (uninit kMaxPacketContentsLen) (int kMaxPacketContentsLen) ''%X''
      [VInt (mrd_reg_addr p)] = Inr c0"
    "c_string c0 = Inr (take (kMaxPacketContentsLen - 1) (?h @ []))"
    "length c0 = length (uninit kMaxPacketContentsLen)"
    by (rule snprintf_string [where n = kMaxPacketContentsLen and b = "uninit kMaxPacketContentsLen"])
      (auto simp: contents_plain packet_consts)
  then have c0t: "c_string c0 = Inr ?h" "length c0 = kMaxPacketContentsLen"
    using hex_u32_length [of "mrd_reg_addr p"] by (simp_all add: packet_consts)
  have "\<exists>c'. mrd_append_values (mrd_values p) [0 ..< 0 + length vs] c0 = Inr c' \<and>
      c_string c' = Inr (?h @ joined vs) \<and> length c' = kMaxPacketContentsLen"
    using fit ok vs by (intro mrd_append_text [OF c0t]) (auto simp: list_all_length)
  then obtain c1 where c1: "mrd_append_values (mrd_values p) [0 ..< length vs] c0 = Inr c1"
    "c_string c1 = Inr (?h @ joined vs)" by auto
  have "packet_text MRD (?h @ joined vs) = wire m"
    using packet_text_frame [of "?h @ joined vs" MRD] fit joined_chars [OF ok]
    by (simp add: wire_def m contents_MMRD contents_plain del: contents.simps)
  moreover obtain ps where "length ps = kMaxPacketLen"
    "c_string ps = Inr (packet_text (packet_type p) (?h @ joined vs))"
    "\<And>tb. PacketizeContents c1 tb p =
       rbind (copy_out tb ps) (\<lambda>tb'. Inr (of_nat (length (packet_text (packet_type p) (?h @ joined vs))),
         p\<lparr>packet_str := ps\<rparr>, tb'))"
    using PacketizeContents_text [OF c1(2), of p] sz fit(3) by (auto simp: sized_def)
  ultimately show ?thesis
    using sz c0(1) c1(1) n
    by (auto simp: prints_def MRDPacket_ToString_def sized_def)
qed

section \<open>Parsing\<close>

text \<open>
  The loop stands at a value token: it is terminated in the buffer, and either it is the last
  one, which runs to the end of the text, or \<open>strtok\<close> goes on behind it.
\<close>

definition at_value ::
    "cell list \<Rightarrow> nat \<Rightarrow> nat option \<Rightarrow> char list \<Rightarrow> char list list \<Rightarrow> char list \<Rightarrow> bool" where
  "at_value tb q save v vs tx \<longleftrightarrow>
     (case vs of
        [] \<Rightarrow> save = None \<and> (\<exists>k. drop q tb = map Some (v @ tx) @ Some NUL # k)
      | w # ws \<Rightarrow> save = Some (Suc (q + length v)) \<and> c_string (drop q tb) = Inr v \<and>
          (\<exists>k. drop (Suc (q + length v)) tb = map Some (w @ joined ws @ tx) @ Some NUL # k))"

lemma token_at_value:
  assumes "drop q tb = map Some (v @ joined vs @ tx) @ Some NUL # k" "ok_value v"
    and "CHR '','' \<notin> set tx" "NUL \<notin> set tx"
  shows "\<exists>tb' save. strtok_next CHR '','' tb (Some q) = Inr (Some q, tb', save) \<and> at_value tb' q save v vs tx"
proof (cases vs)
  case Nil
  then have "drop q tb = map Some (v @ tx) @ Some NUL # k" using assms(1) by simp
  moreover from this have "strtok_next CHR '','' tb (Some q) = Inr (Some q, tb, None)"
    by (rule last_token) (use assms ok_valueD [OF assms(2)] in auto)
  ultimately show ?thesis by (simp add: Nil at_value_def)
next
  case (Cons w ws)
  then have "drop q tb = map Some (v @ CHR '','' # (w @ joined ws @ tx)) @ Some NUL # k"
    using assms(1) by simp
  then obtain tb' where "strtok_next CHR '','' tb (Some q) = Inr (Some q, tb', Some (Suc (q + length v)))"
    "deref_string tb' (Some q) = Inr v"
    "drop (Suc (q + length v)) tb' = map Some (w @ joined ws @ tx) @ Some NUL # k"
    by (rule field_token) (use ok_valueD [OF assms(2)] in auto)
  then show ?thesis by (simp add: Cons at_value_def deref_string_def)
qed

lemma store_value:
  assumes "at_value tb q save v vs tx" "ok_value v" "NUL \<notin> set tx"
    and "e = q + length v + length (joined vs)" "e < 200"
  shows "strncpy (zeroed kMaxPacketFieldLen) (drop q tb)
      (min (int e - int q) (int kMaxPacketFieldLen - 1) mod 2 ^ 32) =
    Inr (map Some v @ zeroed (kMaxPacketFieldLen - length v))"
proof -
  note v = ok_valueD [OF assms(2)]
  define n where "n = min (int e - int q) (int kMaxPacketFieldLen - 1) mod 2 ^ 32"
  have n: "n = min (int (length v) + int (length (joined vs))) 19"
    using assms(4) by (simp add: n_def packet_consts min_def)
  show ?thesis
  proof (cases vs)
    case Nil
    then have "n = int (length v)" using n v by simp
    moreover obtain k where "drop q tb = map Some (v @ tx) @ Some NUL # k"
      using assms(1) Nil by (auto simp: at_value_def)
    ultimately show ?thesis
      unfolding n_def [symmetric]
      using strncpy_trunc [of "v @ tx" "int (length v)" "zeroed kMaxPacketFieldLen" "Some NUL # k"]
        v assms(3) by (simp add: packet_consts zeroed_def)
  next
    case (Cons w ws)
    then obtain r where r: "drop q tb = map Some v @ Some NUL # r"
      using assms(1) by (auto simp: at_value_def elim: c_stringE)
    have len: "int (length v) \<le> n" "n \<le> 19" using n v by auto
    have "strncpy (zeroed kMaxPacketFieldLen) (map Some v @ Some NUL # r) n =
        Inr (map Some v @ zeroed (kMaxPacketFieldLen - length v))"
    proof (cases "int (length v) = n")
      case True
      then show ?thesis
        using strncpy_trunc [of v n "zeroed kMaxPacketFieldLen" "Some NUL # r"] v len
        by (simp add: packet_consts zeroed_def)
    next
      case False
      have "zeroed (nat n - length v) @ drop (nat n) (zeroed kMaxPacketFieldLen) =
          zeroed (kMaxPacketFieldLen - length v)"
        using len False by (simp add: packet_consts zeroed_def flip: replicate_add)
      then show ?thesis
        using strncpy_pad [of v n "zeroed kMaxPacketFieldLen" r] v len False
        by (simp add: packet_consts)
    qed
    then show ?thesis unfolding n_def [symmetric] r .
  qed
qed

lemma value_is_padded:
  "ok_value v \<Longrightarrow> value_is (map Some v @ zeroed (kMaxPacketFieldLen - length v)) v"
  by (auto dest!: ok_valueD simp: value_is_def packet_consts intro: c_string_zeroed)

lemma mrd_parse_loop:
  assumes "at_value tb q save v vs tx" "list_all ok_value (v # vs)"
    and "CHR '','' \<notin> set tx" "NUL \<notin> set tx"
    and "e = q + length v + length (joined vs)" "e < 200"
    and "num + length vs < kMaxNumValues" "length vals = kMaxNumValues"
    and "\<And>i. num \<le> i \<Longrightarrow> i < kMaxNumValues \<Longrightarrow> vals ! i = zeroed kMaxPacketFieldLen"
  shows "\<exists>vals'. mrd_parse_values tb e (Some q) save vals num =
      Inr (True, vals', num + length (v # vs)) \<and> length vals' = kMaxNumValues \<and>
    (\<forall>i < num. vals' ! i = vals ! i) \<and>
    (\<forall>i < length (v # vs). value_is (vals' ! (num + i)) ((v # vs) ! i))"
  using assms
proof (induction vs arbitrary: tb q save v vals num)
  case Nil
  let ?b = "map Some v @ zeroed (kMaxPacketFieldLen - length v)"
  have v: "ok_value v" using Nil.prems(2) by simp
  have "mrd_parse_values tb e (Some q) save vals num = Inr (True, vals[num := ?b], num + 1)"
    using store_value [OF Nil.prems(1) v Nil.prems(4-6)] Nil.prems
    by (simp add: mrd_parse_values.simps [of tb] mrd_parse_values.simps [of _ _ None]
        at_value_def strtok_next_def)
  then show ?case using Nil.prems(7,8) value_is_padded [OF v] by auto
next
  case (Cons w ws)
  let ?b = "map Some v @ zeroed (kMaxPacketFieldLen - length v)" and ?q = "Suc (q + length v)"
  have v: "ok_value v" "ok_value w" using Cons.prems(2) by auto
  obtain k where k: "drop ?q tb = map Some (w @ joined ws @ tx) @ Some NUL # k"
    and save: "save = Some ?q" using Cons.prems(1) by (auto simp: at_value_def)
  obtain tb' save' where nx: "strtok_next CHR '','' tb (Some ?q) = Inr (Some ?q, tb', save')"
    "at_value tb' ?q save' w ws tx"
    using token_at_value [OF k v(2) Cons.prems(3,4)] by blast
  have step: "mrd_parse_values tb e (Some q) save vals num =
      mrd_parse_values tb' e (Some ?q) save' (vals[num := ?b]) (Suc num)"
    using store_value [OF Cons.prems(1) v(1) Cons.prems(4-6)] Cons.prems(7-9) nx(1) save
    by (simp add: mrd_parse_values.simps [of tb])
  obtain vs' where vs': "mrd_parse_values tb' e (Some ?q) save' (vals[num := ?b]) (Suc num) =
      Inr (True, vs', Suc num + length (w # ws))" "length vs' = kMaxNumValues"
    "\<forall>i < Suc num. vs' ! i = vals[num := ?b] ! i"
    "\<forall>i < length (w # ws). value_is (vs' ! (Suc num + i)) ((w # ws) ! i)"
    using Cons.IH [OF nx(2), of "Suc num" "vals[num := ?b]"] Cons.prems by auto
  have "value_is (vs' ! (num + i)) ((v # w # ws) ! i)" if "i < length (v # w # ws)" for i
    using that vs'(3,4) Cons.prems(7,8) value_is_padded [OF v(1)] by (cases i) auto
  then show ?case using step vs' by auto
qed

lemma MRD_parses:
  assumes "line_text b m r" "ok_message m" "type_of m = MRD"
  shows "\<exists>p. MRDPacket_of_string b = Inr p \<and> is_valid p \<and> mrd_carries p m"
proof -
  obtain a vs where m: "m = MMRD a vs" using assms(3) by (cases m) auto
  then have ok: "list_all ok_value vs" "length vs \<le> kMaxNumValues" "length (hex (uint a) @ joined vs) \<le> 187"
    using assms(2) by (auto simp: fits_def contents_MMRD simp del: contents.simps)
  have cm: "contents m = hex (uint a) @ joined vs" by (simp only: m contents_MMRD)
  have tr: "tail_ok r" using assms(1) by (simp add: line_text_def)
  define zs where "zs = replicate kMaxNumValues (zeroed kMaxPacketFieldLen)"
  let ?p = "\<lparr>packet_str = zeroed kMaxPacketLen, is_valid = False, packet_type = MRD,
    mrd_reg_addr = 0, mrd_values = zs, mrd_num_values = 0\<rparr>"
  let ?ps = "map Some (wire m @ r) @ zeroed (kMaxPacketLen - length (wire m @ r))"
  let ?tx = "trailer MRD (contents m) r"
  have star: "CHR ''*'' \<notin> set (contents m)"
    using joined_chars [OF ok(1)] by (simp add: m contents_MMRD contents_plain del: contents.simps)
  have b1: "BSPacket_FromString b ?p =
      Inr (?p\<lparr>packet_type := MRD, is_valid := True, packet_str := ?ps\<rparr>)"
    using base_step [OF assms(1), of ?p] star by (simp add: m)
  obtain tb tb1 k where h: "strncpy (uninit kMaxPacketLen) b (int kMaxPacketLen) = Inr tb"
    "c_string tb = Inr (wire m @ r)"
    "strtok_at CHR '','' tb 0 = Inr (Some 0, tb1, Some 7)"
    "deref_string tb1 (Some 0) = Inr (CHR ''$'' # header_of MRD)"
    "drop 7 tb1 = map Some ((hex (uint a) @ joined vs) @ ?tx) @ Some NUL # k"
    using assms(1) by (rule header_step) (simp add: assms(3) cm)
  define e where "e = 7 + length (hex (uint a) @ joined vs)"
  have e: "strchr CHR ''*'' (wire m @ r) = Some e" "e < 200"
  proof -
    define bd where "bd = CHR ''$'' # body MRD (contents m)"
    have w: "wire m @ r = bd @ CHR ''*'' # hex2 (uint (checksum_text (body MRD (contents m)))) @ r"
      by (simp add: wire_def frame_def bd_def m del: contents.simps)
    have "CHR ''*'' \<notin> set bd" "length bd = e"
      using star by (simp_all add: bd_def body_def e_def cm)
    then show "strchr CHR ''*'' (wire m @ r) = Some e"
      unfolding w by (simp add: strchr_append)
    show "e < 200" using ok(3) by (simp add: e_def)
  qed
  note tx = trailer_facts [OF tr, of MRD "contents m"]
  obtain vals where "MRDPacket_of_string b = Inr (?p\<lparr>packet_type := MRD, is_valid := True,
      packet_str := ?ps, mrd_reg_addr := a, mrd_values := vals, mrd_num_values := of_nat (length vs)\<rparr>)"
    "length vals = kMaxNumValues" "\<forall>i < length vs. value_is (vals ! i) (vs ! i)"
  proof (cases vs)
    case Nil
    then have "drop 7 tb1 = map Some (hex (uint a) @ ?tx) @ Some NUL # k" using h(5) by simp
    note l = last_addr [OF this tr]
    have "MRDPacket_of_string b = Inr (?p\<lparr>packet_type := MRD, is_valid := True,
        packet_str := ?ps, mrd_reg_addr := a, mrd_values := zs, mrd_num_values := of_nat (length vs)\<rparr>)"
      using h(1-4) b1 l e(1) Nil
      by (simp add: MRDPacket_of_string_def MRDPacket_FromString_def Let_def zs_def strtok_next_def)
    then show ?thesis using that Nil by (simp add: zs_def)
  next
    case (Cons v ws)
    let ?q = "Suc (7 + length (hex (uint a)))"
    have "drop 7 tb1 = map Some (hex (uint a) @ CHR '','' # (v @ joined ws @ ?tx)) @ Some NUL # k"
      using h(5) Cons by simp
    then obtain tb2 where f: "strtok_next CHR '','' tb1 (Some 7) = Inr (Some 7, tb2, Some ?q)"
      "deref_string tb2 (Some 7) = Inr (hex (uint a))"
      "drop ?q tb2 = map Some (v @ joined ws @ ?tx) @ Some NUL # k" "strtoul (hex (uint a)) 16 = a"
      by (rule field_addr)
    have v: "ok_value v" "list_all ok_value (v # ws)" using ok(1) Cons by auto
    obtain tb3 save where g: "strtok_next CHR '','' tb2 (Some ?q) = Inr (Some ?q, tb3, save)"
      "at_value tb3 ?q save v ws ?tx"
      using token_at_value [OF f(3) v(1) tx(1,2)] by blast
    have "e = ?q + length v + length (joined ws)" "0 + length ws < kMaxNumValues"
      "length zs = kMaxNumValues"
      using ok(2) Cons by (simp_all add: e_def zs_def)
    from mrd_parse_loop [OF g(2) v(2) tx(1,2) this(1) e(2) this(2,3)]
    obtain vals where vals: "mrd_parse_values tb3 e (Some ?q) save zs 0 = Inr (True, vals, length vs)"
      "length vals = kMaxNumValues" "\<forall>i < length vs. value_is (vals ! i) (vs ! i)"
      by (auto simp: Cons zs_def)
    have "MRDPacket_of_string b = Inr (?p\<lparr>packet_type := MRD, is_valid := True, packet_str := ?ps,
        mrd_reg_addr := a, mrd_values := vals, mrd_num_values := of_nat (length vs)\<rparr>)"
      using h(1-4) b1 f(1,2,4) g(1) e(1) vals(1)
      by (simp add: MRDPacket_of_string_def MRDPacket_FromString_def Let_def flip: zs_def)
    then show ?thesis using that vals by blast
  qed
  moreover have "unat (of_nat (length vs) :: u16) = length vs"
    using ok(2) by (simp add: unat_of_nat kMaxNumValues_def take_bit_nat_eq_self)
  ultimately show ?thesis
    using assms(1) by (simp add: mrd_carries_def sized_def m line_text_def)
qed

interpretation mrd: packet_class MRD mrd_carries MRDPacket_ToString MRDPacket_of_string
  by unfold_locales (auto intro: MRD_formats MRD_parses)

end
