(* ===== verification/Constructors.thy ===== *)
theory Constructors
  imports Codec_Mrd
begin

text \<open>
  The constructors from values make packets that carry the message of their arguments, so
  that a packet that is built, sent and parsed again has the fields it was built with.
\<close>

lemma set_value_text:
  assumes "c_string b = Inr v" "ok_value v"
  obtains b' where "set_value b = Inr b'" "value_is b' v"
proof -
  note v = ok_valueD [OF assms(2)]
  obtain r where b: "b = map Some v @ Some NUL # r" using assms(1) by (rule c_stringE)
  have "set_value b = Inr (map Some v @ zeroed (kMaxPacketFieldLen - length v))"
  proof (cases "length v = 19")
    case True
    then show ?thesis
      using strncpy_trunc [of v 19 "zeroed kMaxPacketFieldLen" "Some NUL # r"] v
      by (simp add: set_value_def b packet_consts zeroed_def)
  next
    case False
    have "zeroed (19 - length v) @ drop 19 (zeroed 20) = zeroed (20 - length v)"
    proof -
      have "length v \<le> 19" using v by blast
      then have "20 - length v = Suc (19 - length v)" by arith
      then show ?thesis by (simp add: zeroed_def replicate_append_same)
    qed
    then show ?thesis
      using strncpy_pad [of v 19 "zeroed kMaxPacketFieldLen" r] v False
      by (simp add: set_value_def b packet_consts)
  qed
  then show ?thesis using value_is_padded [OF assms(2)] that by blast
qed

lemma DIS_of_values: "\<exists>p. DISPacket_of_values i = Inr p \<and> dis_carries p (MDIS i)"
proof -
  let ?p = "\<lparr>packet_str = zeroed kMaxPacketLen, is_valid = False, packet_type = DIS, last_cell_id = i\<rparr>"
  have "dis_carries ?p (MDIS i)" by (simp add: dis_carries_def sized_def)
  then have "prints DISPacket_ToString ?p (wire (MDIS i))" by (rule DIS_formats)
  then obtain ps where "DISPacket_ToString None ?p =
      Inr (of_nat (length (wire (MDIS i))), ?p\<lparr>packet_str := ps\<rparr>, None)" "length ps = kMaxPacketLen"
    by (rule prints_None)
  then show ?thesis by (simp add: DISPacket_of_values_def dis_carries_def sized_def)
qed

lemma SRD_of_values: "\<exists>p. SRDPacket_of_values i a = Inr p \<and> srd_carries p (MSRD i a)"
proof -
  let ?p = "\<lparr>packet_str = zeroed kMaxPacketLen, is_valid = False, packet_type = SRD,
    srd_cell_id = i, srd_reg_addr = a\<rparr>"
  have "srd_carries ?p (MSRD i a)" by (simp add: srd_carries_def sized_def)
  then have "prints SRDPacket_ToString ?p (wire (MSRD i a))" by (rule SRD_formats)
  then obtain ps where "SRDPacket_ToString None ?p =
      Inr (of_nat (length (wire (MSRD i a))), ?p\<lparr>packet_str := ps\<rparr>, None)" "length ps = kMaxPacketLen"
    by (rule prints_None)
  then show ?thesis by (simp add: SRDPacket_of_values_def srd_carries_def sized_def)
qed

lemma MWR_of_values:
  assumes "c_string b = Inr v" "ok_value v"
  shows "\<exists>p. MWRPacket_of_values a b = Inr p \<and> mwr_carries p (MMWR a v)"
proof -
  obtain b' where b': "set_value b = Inr b'" "value_is b' v" using assms by (rule set_value_text)
  let ?p = "\<lparr>packet_str = zeroed kMaxPacketLen, is_valid = False, packet_type = MWR,
    mwr_reg_addr = a, mwr_value = b'\<rparr>"
  have "mwr_carries ?p (MMWR a v)" using b'(2) by (simp add: mwr_carries_def sized_def)
  then have "prints MWRPacket_ToString ?p (wire (MMWR a v))" by (rule MWR_formats) (simp add: assms(2))
  then obtain ps where "MWRPacket_ToString None ?p =
      Inr (of_nat (length (wire (MMWR a v))), ?p\<lparr>packet_str := ps\<rparr>, None)" "length ps = kMaxPacketLen"
    by (rule prints_None)
  then show ?thesis using b' by (simp add: MWRPacket_of_values_def mwr_carries_def sized_def)
qed

lemma SWR_of_values:
  assumes "c_string b = Inr v" "ok_value v"
  shows "\<exists>p. SWRPacket_of_values i a b = Inr p \<and> swr_carries p (MSWR i a v)"
proof -
  obtain b' where b': "set_value b = Inr b'" "value_is b' v" using assms by (rule set_value_text)
  let ?p = "\<lparr>packet_str = zeroed kMaxPacketLen, is_valid = False, packet_type = SWR,
    swr_cell_id = i, swr_reg_addr = a, swr_value = b'\<rparr>"
  have "swr_carries ?p (MSWR i a v)" using b'(2) by (simp add: swr_carries_def sized_def)
  then have "prints SWRPacket_ToString ?p (wire (MSWR i a v))" by (rule SWR_formats) (simp add: assms(2))
  then obtain ps where "SWRPacket_ToString None ?p =
      Inr (of_nat (length (wire (MSWR i a v))), ?p\<lparr>packet_str := ps\<rparr>, None)" "length ps = kMaxPacketLen"
    by (rule prints_None)
  then show ?thesis using b' by (simp add: SWRPacket_of_values_def swr_carries_def sized_def)
qed

lemma SRS_of_values:
  assumes "c_string b = Inr v" "ok_value v"
  shows "\<exists>p. SRSPacket_of_values i b = Inr p \<and> srs_carries p (MSRS i v)"
proof -
  obtain b' where b': "set_value b = Inr b'" "value_is b' v" using assms by (rule set_value_text)
  let ?p = "\<lparr>packet_str = zeroed kMaxPacketLen, is_valid = False, packet_type = SRS,
    srs_cell_id = i, srs_value = b'\<rparr>"
  have "srs_carries ?p (MSRS i v)" using b'(2) by (simp add: srs_carries_def sized_def)
  then have "prints SRSPacket_ToString ?p (wire (MSRS i v))" by (rule SRS_formats) (simp add: assms(2))
  then obtain ps where "SRSPacket_ToString None ?p =
      Inr (of_nat (length (wire (MSRS i v))), ?p\<lparr>packet_str := ps\<rparr>, None)" "length ps = kMaxPacketLen"
    by (rule prints_None)
  then show ?thesis using b' by (simp add: SRSPacket_of_values_def srs_carries_def sized_def)
qed

lemma mrd_set_values_text:
  assumes "\<And>i. i < length vs \<Longrightarrow> k + i < length bufs \<and> c_string (bufs ! (k + i)) = Inr (vs ! i) \<and> ok_value (vs ! i)"
    and "k + length vs \<le> length vals"
  shows "\<exists>vals'. mrd_set_values bufs [k ..< k + length vs] vals = Inr vals' \<and>
    length vals' = length vals \<and> (\<forall>i < k. vals' ! i = vals ! i) \<and>
    (\<forall>i < length vs. value_is (vals' ! (k + i)) (vs ! i))"
  using assms
proof (induction vs arbitrary: k vals)
  case (Cons v vs)
  have h: "k < length bufs" "c_string (bufs ! k) = Inr v" "ok_value v" using Cons.prems(1) [of 0] by auto
  obtain b where b: "set_value (bufs ! k) = Inr b" "value_is b v" using h(2,3) by (rule set_value_text)
  have "Suc k + i < length bufs \<and> c_string (bufs ! (Suc k + i)) = Inr (vs ! i) \<and> ok_value (vs ! i)"
    if "i < length vs" for i using Cons.prems(1) [of "Suc i"] that by simp
  from Cons.IH [OF this, of "vals[k := b]"] Cons.prems(2)
  obtain vals' where v': "mrd_set_values bufs [Suc k ..< Suc k + length vs] (vals[k := b]) = Inr vals'"
    "length vals' = length vals" "\<forall>i < Suc k. vals' ! i = vals[k := b] ! i"
    "\<forall>i < length vs. value_is (vals' ! (Suc k + i)) (vs ! i)" by auto
  have "[k ..< k + length (v # vs)] = k # [Suc k ..< Suc k + length vs]" by (simp add: upt_rec)
  then have "mrd_set_values bufs [k ..< k + length (v # vs)] vals = Inr vals'"
    using b(1) h(1) v'(1) Cons.prems(2) by simp
  moreover have "value_is (vals' ! (k + i)) ((v # vs) ! i)" if "i < length (v # vs)" for i
    using that v'(3,4) b(2) Cons.prems(2) by (cases i) auto
  ultimately show ?case using v' by auto
qed auto

lemma MRD_of_values:
  assumes "ok_message (MMRD a vs)" "unat n = length vs"
    and "\<And>i. i < length vs \<Longrightarrow> i < length bufs \<and> c_string (bufs ! i) = Inr (vs ! i)"
  shows "\<exists>p. MRDPacket_of_values a bufs n = Inr p \<and> mrd_carries p (MMRD a vs)"
proof -
  have ok: "list_all ok_value vs" "length vs \<le> kMaxNumValues" using assms(1) by (auto simp: fits_def)
  have "0 + i < length bufs \<and> c_string (bufs ! (0 + i)) = Inr (vs ! i) \<and> ok_value (vs ! i)"
    if "i < length vs" for i using assms(3) [OF that] ok(1) that by (simp add: list_all_length)
  from mrd_set_values_text [OF this, of "replicate kMaxNumValues (uninit kMaxPacketFieldLen)"] ok(2)
  obtain vals where v: "mrd_set_values bufs [0 ..< length vs]
      (replicate kMaxNumValues (uninit kMaxPacketFieldLen)) = Inr vals"
    "length vals = kMaxNumValues" "\<forall>i < length vs. value_is (vals ! i) (vs ! i)" by auto
  let ?p = "\<lparr>packet_str = zeroed kMaxPacketLen, is_valid = False, packet_type = MRD,
    mrd_reg_addr = a, mrd_values = vals, mrd_num_values = n\<rparr>"
  have "mrd_carries ?p (MMRD a vs)" using v assms(2) by (simp add: mrd_carries_def sized_def)
  then have "prints MRDPacket_ToString ?p (wire (MMRD a vs))" by (rule MRD_formats) (rule assms(1))
  then obtain ps where "MRDPacket_ToString None ?p =
      Inr (of_nat (length (wire (MMRD a vs))), ?p\<lparr>packet_str := ps\<rparr>, None)" "length ps = kMaxPacketLen"
    by (rule prints_None)
  then show ?thesis using v assms(2) by (simp add: MRDPacket_of_values_def mrd_carries_def sized_def)
qed

end
