(* ===== verification/Receive.thy ===== *)
theory Receive
  imports Scbs Constructors
begin

text \<open>
  Reception and transmission of lines. The receive buffer holds the text of the line so far,
  padded with null bytes; \<open>ReceivePacket\<close> takes characters until a line is complete, and a
  line that does not fit leaves the cell deaf.
\<close>

section \<open>The receive buffer\<close>

definition buf :: "char list \<Rightarrow> cell list" where
  "buf t = map Some t @ zeroed (kMaxUARTBufLen - length t)"

definition holds :: "scbs \<Rightarrow> char list \<Rightarrow> bool" where
  "holds s t \<longleftrightarrow> uart_rx_buf s = buf t \<and> uart_rx_buf_len s = of_nat (length t) \<and>
     length t \<le> 199 \<and> NUL \<notin> set t"

lemma c_string_buf: "NUL \<notin> set t \<Longrightarrow> length t \<le> 199 \<Longrightarrow> c_string (buf t) = Inr t"
  unfolding buf_def by (rule c_string_zeroed) (simp_all add: kMaxUARTBufLen_def)

lemma small_u16: "n \<le> 65535 \<Longrightarrow> unat (of_nat n :: u16) = n"
  by (simp add: unat_of_nat take_bit_nat_eq_self)

text \<open>The state with other input: the receive FIFO, the buffer and its length.\<close>

definition with_rx :: "u32 list \<Rightarrow> char list \<Rightarrow> scbs \<Rightarrow> scbs" where
  "with_rx f t s =
     (on_uart (\<lambda>u. u\<lparr>rx_fifo := f\<rparr>) s)\<lparr>uart_rx_buf := buf t, uart_rx_buf_len := of_nat (length t)\<rparr>"

lemma with_rx_simps [simp]:
  "config (with_rx f t s) = config s" "rx_fifo (my_uart (with_rx f t s)) = f"
  "now_us (with_rx f t s) = now_us s" "gpio (with_rx f t s) = gpio s"
  "cell_id (with_rx f t s) = cell_id s" "output_voltage (with_rx f t s) = output_voltage s"
  "output_current (with_rx f t s) = output_current s"
  "uart_rx_buf (with_rx f t s) = buf t" "uart_rx_buf_len (with_rx f t s) = of_nat (length t)"
  "with_rx f t (with_rx g u s) = with_rx f t s"
  by (simp_all add: with_rx_def on_uart_def my_uart_def)

lemma holds_with_rx: "length t \<le> 199 \<Longrightarrow> NUL \<notin> set t \<Longrightarrow> holds (with_rx f t s) t"
  by (simp add: holds_def)

lemma with_rx_same: "holds s t \<Longrightarrow> with_rx (rx_fifo (my_uart s)) t s = s"
  by (simp add: holds_def with_rx_def on_uart_def my_uart_def)

lemma append_buf:
  assumes "NUL \<notin> set (t @ [c])" "length t < 199"
  shows "strncat (buf t) [Some c] 1 = Inr (buf (t @ [c]))"
proof -
  have c: "strncat_chars 1 [Some c] = Inr [c]" using assms(1) by auto
  have "drop (length t + 2) (buf t) = zeroed (198 - length t)"
    using assms(2) by (simp add: buf_def zeroed_def kMaxUARTBufLen_def)
  moreover have "Some NUL # zeroed (198 - length t) = zeroed (199 - length t)"
  proof -
    have "199 - length t = Suc (198 - length t)" using assms(2) by arith
    then show ?thesis by (simp add: zeroed_def)
  qed
  moreover have "c_string (buf t) = Inr t" "length (buf t) = 200"
    using assms c_string_buf [of t] by (simp_all add: buf_def kMaxUARTBufLen_def)
  ultimately have "append_string (buf t) [c] = Inr (buf (t @ [c]))"
    using assms(2) by (simp add: append_string_def buf_def kMaxUARTBufLen_def)
  then show ?thesis using c by (simp add: strncat_def)
qed

lemma ucast_of_char: "ucast (of_char c :: u32) = (of_char c :: u8)"
proof -
  have "ucast (of_char c :: u32) = (word_of_int (of_char c) :: u8)"
    by (simp only: ucast_eq uint_of_char [where 'a = 32, simplified])
  also have "\<dots> = of_char c" by (rule of_int_of_char)
  finally show ?thesis .
qed

lemma uart_getc_char:
  "rx_fifo u = of_char c # f \<Longrightarrow> uart_getc u = Inr (c, u\<lparr>rx_fifo := f\<rparr>)"
  by (simp add: uart_getc_def numeral_eq_Suc ucast_of_char)

lemma set_my_uart_rx:
  "holds s t \<Longrightarrow> set_my_uart (my_uart s\<lparr>rx_fifo := f\<rparr>) s = with_rx f t s"
  by (simp add: holds_def with_rx_def set_my_uart_def on_uart_def my_uart_def)

lemma append_with_rx:
  assumes "holds s t" "NUL \<notin> set (t @ [c])" "length t < 199"
  shows "AppendCharToUARTBuf c (with_rx f t s) = Inr (with_rx f (t @ [c]) s)"
  using append_buf [OF assms(2,3)]
  by (simp add: AppendCharToUARTBuf_def with_rx_def on_uart_def add.commute)

section \<open>Receiving\<close>

lemma ReceivePacket_char:
  assumes "holds s t" "rx_fifo (my_uart s) = of_char c # f" "c \<noteq> NUL" "length t < 199"
  shows "ReceivePacket s =
    (if c = CHR 0x0A then Inr (of_nat (Suc (length t)), with_rx f (t @ [c]) s)
     else ReceivePacket (with_rx f (t @ [c]) s))"
proof -
  have t: "NUL \<notin> set (t @ [c])" using assms by (auto simp: holds_def)
  have len: "unat (uart_rx_buf_len s) = length t"
    using assms(1,4) by (simp add: holds_def small_u16)
  have a: "AppendCharToUARTBuf c (set_my_uart (my_uart s\<lparr>rx_fifo := f\<rparr>) s) = Inr (with_rx f (t @ [c]) s)"
    using append_with_rx [OF assms(1) t assms(4)] by (simp add: set_my_uart_rx [OF assms(1)])
  have l: "unat (uart_rx_buf_len (set_my_uart (my_uart s\<lparr>rx_fifo := f\<rparr>) s)) = length t"
    using len by (simp add: set_my_uart_def on_uart_def)
  have str: "strlen (buf (t @ [c])) = Inr (Suc (length t))"
    using c_string_buf [OF t] assms(4) by (simp add: strlen_def)
  have "ReceivePacket s = (if c = CHR 0x0A
      then rbind (AppendCharToUARTBuf c (set_my_uart (my_uart s\<lparr>rx_fifo := f\<rparr>) s)) (\<lambda>s2.
             rbind (strlen (uart_rx_buf s2)) (\<lambda>n. Inr (of_nat n, s2)))
      else ReceivePacket (with_rx f (t @ [c]) s))"
    using assms(2,4) len a l uart_getc_char [OF assms(2)]
    by (subst ReceivePacket.simps) (simp add: reg_simps kMaxUARTBufLen_def Let_def)
  then show ?thesis unfolding a using str by (cases "c = CHR 0x0A") auto
qed

lemma ReceivePacket_empty:
  "rx_fifo (my_uart s) = [] \<Longrightarrow> ReceivePacket s = Inr (0, s)"
  by (subst ReceivePacket.simps) (simp add: reg_simps)

text \<open>A complete line.\<close>

lemma ReceivePacket_line:
  assumes "holds s t" "rx_fifo (my_uart s) = map of_char (cs @ [CHR 0x0A]) @ f"
    and "NUL \<notin> set cs" "CHR 0x0A \<notin> set cs" "length t + length cs < 199"
  shows "ReceivePacket s =
    Inr (of_nat (length (t @ cs @ [CHR 0x0A])), with_rx f (t @ cs @ [CHR 0x0A]) s)"
  using assms
proof (induction cs arbitrary: s t)
  case Nil
  then show ?case using ReceivePacket_char [of s t "CHR 0x0A" f] by simp
next
  case (Cons c cs)
  let ?f = "map of_char (cs @ [CHR 0x0A]) @ f"
  have "ReceivePacket s = ReceivePacket (with_rx ?f (t @ [c]) s)"
    using ReceivePacket_char [OF Cons.prems(1), of c ?f] Cons.prems by auto
  also have "\<dots> = Inr (of_nat (length ((t @ [c]) @ cs @ [CHR 0x0A])),
      with_rx f ((t @ [c]) @ cs @ [CHR 0x0A]) (with_rx ?f (t @ [c]) s))"
    using Cons.prems by (intro Cons.IH) (auto simp: holds_def)
  finally show ?case by simp
qed

text \<open>Part of a line: kept for the next call.\<close>

lemma ReceivePacket_partial:
  assumes "holds s t" "rx_fifo (my_uart s) = map of_char cs"
    and "NUL \<notin> set cs" "CHR 0x0A \<notin> set cs" "length t + length cs \<le> 199"
  shows "ReceivePacket s = Inr (0, with_rx [] (t @ cs) s)"
  using assms
proof (induction cs arbitrary: s t)
  case Nil
  then show ?case using ReceivePacket_empty [of s] with_rx_same [OF Nil.prems(1)] by simp
next
  case (Cons c cs)
  have "ReceivePacket s = ReceivePacket (with_rx (map of_char cs) (t @ [c]) s)"
    using ReceivePacket_char [OF Cons.prems(1), of c "map of_char cs"] Cons.prems by auto
  also have "\<dots> = Inr (0, with_rx [] ((t @ [c]) @ cs) (with_rx (map of_char cs) (t @ [c]) s))"
    using Cons.prems by (intro Cons.IH) (auto simp: holds_def)
  finally show ?case by simp
qed

text \<open>With 199 characters and no line end the buffer is never read again.\<close>

lemma ReceivePacket_deaf:
  "199 \<le> unat (uart_rx_buf_len s) \<Longrightarrow> ReceivePacket s = Inr (0, s)"
  by (subst ReceivePacket.simps) (simp add: kMaxUARTBufLen_def)

section \<open>Transmitting\<close>

definition crlf_end :: "char list" where
  "crlf_end = [CHR 0x0D, CHR 0x0A]"

text \<open>The state after sending: only the transmitter has changed, and it has sent the text.\<close>

definition sends :: "scbs \<Rightarrow> char list \<Rightarrow> scbs \<Rightarrow> bool" where
  "sends s t s' \<longleftrightarrow> (\<exists>u. s' = set_my_uart u s \<and> same_config (my_uart s) u \<and>
     sent u = sent (my_uart s) @ map of_char t)"

lemma TransmitPacket_sends:
  assumes "prints ToString p t" "length t < kMaxPacketLen" "char_to_line_feed (my_uart s) = 0x100"
  shows "\<exists>s'. TransmitPacket ToString p s = Inr s' \<and> sends s (t @ crlf_end) s'"
proof -
  obtain p' b where b: "ToString (Some (uninit kMaxUARTBufLen)) p = Inr (of_nat (length t), p', Some b)"
    "c_string b = Inr t"
    "length b = length (uninit kMaxUARTBufLen)"
    by (rule prints_Some [OF assms(1,2), of "uninit kMaxUARTBufLen"])
      (simp_all add: packet_consts kMaxUARTBufLen_def)
  define u1 where "u1 = uart_puts_loop False t (my_uart s)"
  define u2 where "u2 = uart_puts_loop False crlf_end u1"
  have c: "char_to_line_feed (my_uart s) = (if False then 10 else 0x100)" using assms(3) by simp
  note e1 = uart_puts_loop_effect [OF c, of False t, folded u1_def]
  have "char_to_line_feed u1 = (if False then 10 else 0x100)"
    using e1 c same_configD(5) by metis
  note e2 = uart_puts_loop_effect [OF this, of False crlf_end, folded u2_def]
  have "c_string (lit crlf_end) = Inr crlf_end" by (rule c_string_lit) (simp add: crlf_end_def)
  then have "TransmitPacket ToString p s = Inr (set_my_uart u2 s)"
    using b by (simp add: TransmitPacket_def uart_puts_def crlf_end_def [symmetric] u1_def u2_def)
  moreover have "sends s (t @ crlf_end) (set_my_uart u2 s)"
    using e1 e2 same_config_trans unfolding sends_def by (intro exI [of _ u2]) auto
  ultimately show ?thesis by blast
qed

end
