(* ===== verification/Analog.thy ===== *)
theory Analog
  imports Scbs
begin

text \<open>
  The analog side of the cell: the set voltage is railed to 0 .. 4.5 V, the PWM level derived
  from it is in range and its conversion is defined, the measured current is exact, and the
  LED's deadline is the sum it is meant to be unless the microsecond counter is about to wrap.
\<close>

section \<open>Intervals\<close>

text \<open>A finite value between two integers.\<close>

definition inside :: "int \<Rightarrow> int \<Rightarrow> fp \<Rightarrow> bool" where
  "inside a b v \<longleftrightarrow> fp_finite v \<and> of_int a \<le> fp_val v \<and> fp_val v \<le> of_int b"

lemma insideD: "inside a b v \<Longrightarrow> fp_finite v" "inside a b v \<Longrightarrow> v \<noteq> NaN"
  by (auto simp: inside_def)

lemma inside_weaken: "inside a b v \<Longrightarrow> c \<le> a \<Longrightarrow> b \<le> d \<Longrightarrow> inside c d v"
  by (auto simp: inside_def intro: order_trans [of "of_int c" "of_int a"] order_trans [of _ "of_int b"])

lemma round32_finite:
  assumes "\<bar>rnd Binary32 x\<bar> \<le> 2 ^ 24"
  shows "fp_finite (fp_round Binary32 s x)" "fp_val (fp_round Binary32 s x) = rnd Binary32 x"
proof -
  have "(2 :: rat) ^ 24 < pow2 (emax Binary32 + 1)" by (simp add: pow2_def)
  then have "\<bar>rnd Binary32 x\<bar> < pow2 (emax Binary32 + 1)" using assms by simp
  then show "fp_finite (fp_round Binary32 s x)" "fp_val (fp_round Binary32 s x) = rnd Binary32 x"
    by (rule fp_round_finite)+
qed

lemma inside_round:
  assumes "of_int a \<le> x" "x \<le> of_int b" "\<bar>a\<bar> < 2 ^ 24" "\<bar>b\<bar> < 2 ^ 24"
  shows "inside a b (fp_round Binary32 s x)"
proof -
  have r: "of_int a \<le> rnd Binary32 x \<and> rnd Binary32 x \<le> of_int b"
    using b32.between [OF assms] .
  have "(of_int \<bar>a\<bar> :: rat) \<le> of_int (2 ^ 24)" "(of_int \<bar>b\<bar> :: rat) \<le> of_int (2 ^ 24)"
    unfolding of_int_le_iff using assms(3,4) by simp_all
  then have "\<bar>rnd Binary32 x\<bar> \<le> 2 ^ 24" using r by auto
  then show ?thesis using r round32_finite by (simp add: inside_def)
qed

lemma fp_add_finite:
  "fp_finite x \<Longrightarrow> fp_finite y \<Longrightarrow>
   \<exists>s. fp_add f x y = fp_round f s (fp_val x + fp_val y)"
  by (cases x; cases y) (auto simp: fp_round_def)

lemma inside_add:
  assumes "inside a b x" "inside c d y" "\<bar>a + c\<bar> < 2 ^ 24" "\<bar>b + d\<bar> < 2 ^ 24"
  shows "inside (a + c) (b + d) (fp_add Binary32 x y)"
proof -
  obtain s where "fp_add Binary32 x y = fp_round Binary32 s (fp_val x + fp_val y)"
    using fp_add_finite assms(1,2) insideD(1) by blast
  then show ?thesis using assms by (auto simp: inside_def [of a] inside_def [of c] intro!: inside_round)
qed

lemma inside_neg: "inside a b x \<Longrightarrow> inside (- b) (- a) (fp_neg x)"
  by (cases x) (auto simp: inside_def)

lemma inside_sub:
  assumes "inside a b x" "inside c d y" "\<bar>a - d\<bar> < 2 ^ 24" "\<bar>b - c\<bar> < 2 ^ 24"
  shows "inside (a - d) (b - c) (fp_sub Binary32 x y)"
  using inside_add [OF assms(1) inside_neg [OF assms(2)]] assms(3,4) by (simp add: fp_sub_def)

lemma inside_mul:
  assumes "inside 0 a x" "inside 0 b y" "a * b < 2 ^ 24" "0 \<le> a" "0 \<le> b"
  shows "inside 0 (a * b) (fp_mul Binary32 x y)"
proof -
  have "0 \<le> fp_val x * fp_val y" "fp_val x * fp_val y \<le> of_int (a * b)"
    using assms by (auto simp: inside_def intro!: mult_mono)
  moreover have "\<bar>a * b\<bar> < 2 ^ 24" using assms(3-5) by simp
  ultimately show ?thesis
    using assms(1,2) inside_round [of 0 "fp_val x * fp_val y" "a * b"]
    by (auto simp: fp_mul_def inside_def [of 0 a] inside_def [of 0 b])
qed

lemma inside_mul_neg:
  assumes "inside 0 a x" "inside (- b) 0 y" "a * b < 2 ^ 24" "0 \<le> a" "0 \<le> b"
  shows "inside (- (a * b)) 0 (fp_mul Binary32 x y)"
proof -
  have "fp_val x * fp_val y \<le> 0"
    using assms by (auto simp: inside_def mult_nonneg_nonpos)
  moreover have "fp_val x * - fp_val y \<le> of_int (a * b)"
    using assms by (auto simp: inside_def simp del: mult_minus_right intro!: mult_mono)
  then have "of_int (- (a * b)) \<le> fp_val x * fp_val y" by simp
  moreover have "\<bar>a * b\<bar> < 2 ^ 24" using assms(3-5) by simp
  ultimately show ?thesis
    using assms(1,2) inside_round [of "- (a * b)" "fp_val x * fp_val y" 0]
    by (auto simp: fp_mul_def inside_def [of 0 a] inside_def [of "- b"])
qed

lemma inside_lit:
  "of_int a \<le> q \<Longrightarrow> q \<le> of_int b \<Longrightarrow> \<bar>a\<bar> < 2 ^ 24 \<Longrightarrow> \<bar>b\<bar> < 2 ^ 24 \<Longrightarrow> inside a b (fp_lit Binary32 q)"
  by (simp add: fp_lit_def inside_round)

lemma fp_lt_finite: "fp_finite x \<Longrightarrow> fp_finite y \<Longrightarrow> fp_lt x y \<longleftrightarrow> fp_val x < fp_val y"
  by (auto simp: fp_lt_def)

section \<open>The output voltage\<close>

lemma rails: "kMaxOutputVoltage = Num (9 / 2)" "kPowerSupplyVoltage5V = Num 5"
  by code_simp+

text \<open>A voltage the code may be asked for: anything but NaN.\<close>

lemma clamp_output_range:
  assumes "v \<noteq> NaN"
  shows "fp_finite (clamp_output v)" "0 \<le> fp_val (clamp_output v)" "fp_val (clamp_output v) \<le> 9 / 2"
  using assms
  by (cases v; auto simp: clamp_output_def rails kMinOutputVoltage_def fp_lt_def)+

lemma clamp_output_inside:
  "fp_finite v \<Longrightarrow> 0 \<le> fp_val v \<Longrightarrow> fp_val v \<le> 9 / 2 \<Longrightarrow> clamp_output v = v"
  by (auto simp: clamp_output_def rails kMinOutputVoltage_def fp_lt_finite)

lemma offset_range:
  assumes "inside 0 5 v"
  shows "inside (- 130) 26 (estimated_offset v)"
proof -
  have v2: "inside 0 25 (fp_mul Binary32 v v)" using inside_mul [OF assms assms] by simp
  have v3: "inside 0 125 (fp_mul Binary32 (fp_mul Binary32 v v) v)" using inside_mul [OF v2 assms] by simp
  have c3: "inside (- 1) 0 kOutputVoltageCalCoeffX3"
    unfolding kOutputVoltageCalCoeffX3_def by (rule inside_lit) simp_all
  have c2: "inside 0 1 kOutputVoltageCalCoeffX2"
    unfolding kOutputVoltageCalCoeffX2_def by (rule inside_lit) simp_all
  have c1: "inside (- 1) 0 kOutputVoltageCalCoeffX"
    unfolding kOutputVoltageCalCoeffX_def by (rule inside_lit) simp_all
  have c0: "inside 0 1 kOutputVoltageCalCoeffConst"
    unfolding kOutputVoltageCalCoeffConst_def by (rule inside_lit) simp_all
  have t3: "inside (- 125) 0 (fp_mul Binary32 (fp_mul Binary32 (fp_mul Binary32 v v) v) kOutputVoltageCalCoeffX3)"
    using inside_mul_neg [OF v3 c3] by simp
  have t2: "inside 0 25 (fp_mul Binary32 (fp_mul Binary32 v v) kOutputVoltageCalCoeffX2)"
    using inside_mul [OF v2 c2] by simp
  have t1: "inside (- 5) 0 (fp_mul Binary32 v kOutputVoltageCalCoeffX)"
    using inside_mul_neg [OF assms c1] by simp
  note s1 = inside_add [OF t3 t2, simplified]
  note s2 = inside_add [OF s1 t1, simplified]
  note s3 = inside_add [OF s2 c0, simplified]
  then show ?thesis by (simp add: estimated_offset_def Let_def)
qed

lemma pwm_voltage_range:
  assumes "inside 0 5 v"
  shows "inside 0 5 (pwm_voltage v)"
proof -
  have "inside (- 26) 135 (fp_sub Binary32 v (estimated_offset v))"
    using inside_sub [OF assms offset_range [OF assms]] by simp
  then show ?thesis
    by (auto simp: pwm_voltage_def Let_def rails fp_lt_finite inside_def)
qed

lemma duty_of_range:
  assumes "inside 0 5 p"
  obtains d where "duty_of p = Inr d" "unat d \<le> 1000"
    "d = 1000 - word_of_int (trunc_rat (rnd Binary32 (rnd Binary32 (fp_val p / 5) * 1000)))"
proof -
  let ?x = "rnd Binary32 (fp_val p / 5)"
  have p: "fp_finite p" "0 \<le> fp_val p" "fp_val p \<le> 5" using assms by (auto simp: inside_def)
  have "inside 0 1 (fp_div Binary32 p kPowerSupplyVoltage5V)"
    "fp_val (fp_div Binary32 p kPowerSupplyVoltage5V) = ?x"
  proof -
    have q: "of_int 0 \<le> fp_val p / 5" "fp_val p / 5 \<le> of_int 1" using p by simp_all
    have "fp_div Binary32 p (Num 5) = fp_round Binary32 (fp_sign p) (fp_val p / 5)"
      using p by (auto simp: fp_div_def)
    moreover have "fp_val (fp_round Binary32 (fp_sign p) (fp_val p / 5)) = ?x"
      using b32.between [OF q] by (intro round32_finite) auto
    ultimately show "inside 0 1 (fp_div Binary32 p kPowerSupplyVoltage5V)"
      "fp_val (fp_div Binary32 p kPowerSupplyVoltage5V) = ?x"
      using inside_round [OF q] by (simp_all add: rails)
  qed
  then have d: "fp_finite (fp_div Binary32 p kPowerSupplyVoltage5V)" "0 \<le> ?x" "?x \<le> 1"
    "fp_val (fp_div Binary32 p kPowerSupplyVoltage5V) = ?x"
    by (auto simp: inside_def)
  have k: "fp_of_int Binary32 (uint kMaxPWMCount) = Num 1000" by code_simp
  let ?m = "fp_mul Binary32 (fp_div Binary32 p kPowerSupplyVoltage5V) (fp_of_int Binary32 (uint kMaxPWMCount))"
  have m: "inside 0 1000 ?m" "fp_val ?m = rnd Binary32 (?x * 1000)"
  proof -
    have q: "of_int 0 \<le> ?x * 1000" "?x * 1000 \<le> of_int 1000" using d by simp_all
    have "fp_val (fp_round Binary32 s (?x * 1000)) = rnd Binary32 (?x * 1000)" for s
      using b32.between [OF q] by (intro round32_finite) auto
    moreover have "inside 0 1000 (fp_round Binary32 s (?x * 1000))" for s
      using inside_round [OF q] by simp
    ultimately show "inside 0 1000 ?m" "fp_val ?m = rnd Binary32 (?x * 1000)"
      unfolding k using d by (auto simp: fp_mul_def)
  qed
  let ?d = "trunc_rat (rnd Binary32 (?x * 1000))"
  have t: "0 \<le> ?d" "?d \<le> 1000"
    using m by (auto simp: inside_def trunc_rat_def floor_le_iff le_floor_iff)
  have "duty_of p = Inr (1000 - word_of_int ?d)"
    using m t by (simp add: duty_of_def fp_to_int_def inside_def)
  moreover have "unat (1000 - word_of_int ?d :: u16) \<le> 1000"
  proof -
    have "(1000 - word_of_int ?d :: u16) = word_of_int (1000 - ?d)" by simp
    moreover have "uint (word_of_int (1000 - ?d) :: u16) = 1000 - ?d"
      using t by (intro word_of_int_inverse [OF refl]) simp_all
    ultimately have "uint (1000 - word_of_int ?d :: u16) = 1000 - ?d" by metis
    then show ?thesis using t unat_eq_nat_uint [of "1000 - word_of_int ?d :: u16"] by linarith
  qed
  ultimately show ?thesis by (rule that) simp
qed

definition set_level :: "u16 \<Rightarrow> scbs \<Rightarrow> scbs" where
  "set_level duty s =
     on_pwm (pwm_set_chan_level (pwm_gpio_to_slice_num (unat (pwm_pin (config s))))
       (pwm_channel (config s)) duty) s"

lemma SetOutputVoltage_defined:
  assumes "v \<noteq> NaN"
  obtains d where "SetOutputVoltage v s = Inr (clamp_output v, set_level d s)" "unat d \<le> 1000"
proof -
  have "inside 0 5 (clamp_output v)"
    using clamp_output_range [OF assms] by (auto simp: inside_def)
  then obtain d where "duty_of (pwm_voltage (clamp_output v)) = Inr d" "unat d \<le> 1000"
    using duty_of_range [OF pwm_voltage_range] by metis
  then show ?thesis using that by (simp add: SetOutputVoltage_def set_level_def Let_def)
qed

text \<open>\<open>strtof\<close> accepts \<open>nan\<close>; the comparisons let it through and the conversion is undefined.\<close>

lemma SetOutputVoltage_NaN: "SetOutputVoltage NaN s = Inl BadConversion"
proof -
  have "clamp_output NaN = NaN" by (simp add: clamp_output_def fp_lt_def)
  moreover have "pwm_voltage NaN = NaN"
    by (simp add: pwm_voltage_def Let_def fp_lt_def fp_sub_def)
  moreover have "duty_of NaN = Inl BadConversion"
    by (simp add: duty_of_def fp_div_def fp_mul_def fp_to_int_def)
  ultimately show ?thesis by (simp add: SetOutputVoltage_def Let_def)
qed

section \<open>The status LED\<close>

lemma round64_int:
  assumes "\<bar>k\<bar> < 2 ^ 53"
  shows "fp_finite (fp_round Binary64 s (of_int k))" "fp_val (fp_round Binary64 s (of_int k)) = of_int k"
proof -
  have r: "rnd Binary64 (of_int k) = of_int k" using assms by (rule b64.exact)
  have "(of_int \<bar>k\<bar> :: rat) < of_int (2 ^ 53)" using assms unfolding of_int_less_iff .
  moreover have "(of_int (2 ^ 53) :: rat) \<le> pow2 (emax Binary64 + 1)" by (simp add: pow2_def)
  ultimately have "\<bar>rnd Binary64 (of_int k)\<bar> < pow2 (emax Binary64 + 1)"
    unfolding r by (simp only: of_int_abs) 
  from fp_round_finite [OF this, of s] show "fp_finite (fp_round Binary64 s (of_int k))"
    "fp_val (fp_round Binary64 s (of_int k)) = of_int k" by (simp_all add: r)
qed

lemma led_sum:
  fixes t ms :: u32
  defines "v \<equiv> fp_add Binary64 (fp_of_int Binary64 (uint t))
    (fp_mul Binary64 (fp_lit Binary64 1000) (fp_of_int Binary64 (uint ms)))"
  shows "fp_finite v \<and> fp_val v = of_int (uint t + 1000 * uint ms)"
proof -
  have b: "0 \<le> uint t" "uint t < 2 ^ 32" "0 \<le> uint ms" "uint ms < 2 ^ 32"
    using uint_bounded [of t] uint_bounded [of ms] by auto
  have t: "fp_finite (fp_of_int Binary64 (uint t))" "fp_val (fp_of_int Binary64 (uint t)) = of_int (uint t)"
    using round64_int [of "uint t" False] b by (simp_all add: fp_of_int_def)
  have m: "fp_finite (fp_of_int Binary64 (uint ms))" "fp_val (fp_of_int Binary64 (uint ms)) = of_int (uint ms)"
    using round64_int [of "uint ms" False] b by (simp_all add: fp_of_int_def)
  have k: "fp_finite (fp_lit Binary64 1000)" "fp_val (fp_lit Binary64 1000) = 1000"
    using round64_int [of 1000 False] by (simp_all add: fp_lit_def)
  let ?p = "fp_mul Binary64 (fp_lit Binary64 1000) (fp_of_int Binary64 (uint ms))"
  have p: "fp_finite ?p" "fp_val ?p = of_int (1000 * uint ms)"
  proof -
    have "fp_lit Binary64 1000 \<noteq> NaN" "fp_of_int Binary64 (uint ms) \<noteq> NaN" using k m by auto
    then have "\<exists>s. ?p = fp_round Binary64 s (of_int (1000 * uint ms))"
      using k m by (auto simp: fp_mul_def)
    then show "fp_finite ?p" "fp_val ?p = of_int (1000 * uint ms)"
      using round64_int [of "1000 * uint ms"] b by auto
  qed
  obtain s where "v = fp_round Binary64 s (of_int (uint t + 1000 * uint ms))"
    using fp_add_finite [OF t(1) p(1), of Binary64] t(2) p(2) unfolding v_def by auto
  then show ?thesis using round64_int [of "uint t + 1000 * uint ms" s] b by simp
qed

definition led_lit :: "u32 \<Rightarrow> scbs \<Rightarrow> scbs" where
  "led_lit deadline s =
     (on_gpio (gpio_put (unat (led_pin (config s))) True) s)
       \<lparr>status_led_on := True, status_led_off_timestamp := deadline\<rparr>"

lemma TurnOnStatusLED_result:
  "TurnOnStatusLED ms s =
     (if uint (time_us_32 s) + 1000 * uint ms < 2 ^ 32
      then Inr (led_lit (time_us_32 s + 1000 * ms) s) else Inl BadConversion)"
proof -
  have "trunc_rat (of_int k) = k" for k by (simp add: trunc_rat_def)
  moreover have "word_of_int (uint (time_us_32 s) + 1000 * uint ms) = time_us_32 s + 1000 * ms"
    by simp
  moreover have "0 \<le> uint (time_us_32 s) + 1000 * uint ms" by simp
  ultimately show ?thesis
    using led_sum [of "time_us_32 s" ms]
    by (auto simp: TurnOnStatusLED_def fp_to_int_def led_lit_def simp del: of_int_add of_int_mult)
qed

section \<open>The output current\<close>

lemma rnd_quotient:
  assumes "\<bar>k\<bar> < 2 ^ 24" "n \<le> 100"
  shows "rnd Binary32 (of_int k / 2 ^ n) = of_int k / 2 ^ n"
proof (rule rnd_representable)
  have "(of_int k / 2 ^ n :: rat) = of_int k * pow2 (- int n)" by (simp add: pow2_def divide_inverse)
  then show "representable Binary32 (of_int k / 2 ^ n)"
    unfolding representable_def using assms by (intro exI [of _ k] exI [of _ "- int n"]) (simp add: emin_def)
qed

lemma round32_int:
  assumes "\<bar>k\<bar> < 2 ^ 24"
  shows "fp_finite (fp_round Binary32 s (of_int k))" "fp_val (fp_round Binary32 s (of_int k)) = of_int k"
proof -
  have r: "rnd Binary32 (of_int k) = of_int k" using assms by (rule b32.exact)
  have "(of_int \<bar>k\<bar> :: rat) \<le> of_int (2 ^ 24)" unfolding of_int_le_iff using assms by simp
  then have "\<bar>rnd Binary32 (of_int k)\<bar> \<le> 2 ^ 24" by (simp add: r)
  from round32_finite [OF this, of s] show "fp_finite (fp_round Binary32 s (of_int k))"
    "fp_val (fp_round Binary32 s (of_int k)) = of_int k" by (simp_all add: r)
qed

definition current_of :: "u16 \<Rightarrow> fp" where
  "current_of c = fp_div Binary32 (fp_mul Binary32 (fp_of_int Binary32 (uint c)) kMaxCsenseCurrent)
     (fp_of_int Binary32 (uint kMaxADCCount))"

lemma current_value:
  "fp_finite (current_of c)" "fp_val (current_of c) = of_int (uint c) * 200 / 4096"
proof -
  have b: "0 \<le> uint c" "uint c < 2 ^ 16" using uint_bounded [of c] by auto
  have i: "fp_finite (fp_of_int Binary32 (uint c))" "fp_val (fp_of_int Binary32 (uint c)) = of_int (uint c)"
    using round32_int [of "uint c" False] b by (simp_all add: fp_of_int_def)
  have k: "kMaxCsenseCurrent = Num 200" "fp_of_int Binary32 (uint kMaxADCCount) = Num 4096" by code_simp+
  let ?p = "fp_mul Binary32 (fp_of_int Binary32 (uint c)) (Num 200)"
  have p: "fp_finite ?p" "fp_val ?p = of_int (uint c * 200)"
  proof -
    have "fp_of_int Binary32 (uint c) \<noteq> NaN" using i by auto
    then have "\<exists>s. ?p = fp_round Binary32 s (of_int (uint c * 200))"
      using i by (auto simp: fp_mul_def)
    then show "fp_finite ?p" "fp_val ?p = of_int (uint c * 200)"
      using round32_int [of "uint c * 200"] b by auto
  qed
  have r: "rnd Binary32 (of_int (uint c * 200) / 4096) = of_int (uint c * 200) / 4096"
    using rnd_quotient [of "uint c * 200" 12] b by simp
  have "?p \<noteq> NaN" using p by auto
  then have "\<exists>s. current_of c = fp_round Binary32 s (of_int (uint c * 200) / 4096)"
    using p by (auto simp: current_of_def k fp_div_def)
  moreover have "\<bar>rnd Binary32 (of_int (uint c * 200) / 4096)\<bar> \<le> 2 ^ 24"
  proof -
    have "of_int 0 \<le> (of_int (uint c * 200) :: rat)" "(of_int (uint c * 200) :: rat) \<le> of_int (2 ^ 24)"
      unfolding of_int_le_iff using b by simp_all
    then show ?thesis unfolding r by simp
  qed
  ultimately show "fp_finite (current_of c)" "fp_val (current_of c) = of_int (uint c) * 200 / 4096"
    using round32_finite [of "of_int (uint c * 200) / 4096"] r by auto
qed

lemma is_up_16_32: "is_up (ucast :: u16 \<Rightarrow> u32)"
  by (simp add: is_up)

lemma ReadOutputCurrent_value:
  assumes "csense_adc_input (config s) < 8"
  shows "output_current (ReadOutputCurrent s) =
    current_of (analog (adc s) (unat (csense_adc_input (config s))) AND 0xfff)"
proof -
  let ?i = "csense_adc_input (config s)" and ?a = "adc_select_input (ucast (csense_adc_input (config s))) (adc s)"
  have u: "unat (ucast ?i :: u32) = unat ?i"
    by (simp only: unat_eq_nat_uint uint_up_ucast [OF is_up_16_32])
  then have "ucast ?i < (8 :: u32)"
    using assms by (simp add: word_less_nat_alt)
  then have "selected_input ?a = unat ?i"
    by (simp add: selected_input_select u)
  moreover have "analog ?a = analog (adc s)" by (simp add: adc_select_input_def)
  ultimately have "fst (adc_read ?a) = analog (adc s) (unat ?i) AND 0xfff"
    using adc_read_value [of ?a "fst (adc_read ?a)" "snd (adc_read ?a)"] by simp
  then show ?thesis
    by (simp add: ReadOutputCurrent_def on_adc_def current_of_def case_prod_beta Let_def)
qed

end
