(* ===== verification/Show_Fixed.thy ===== *)
theory Show_Fixed
  imports Analog Printf_Facts
begin

text \<open>
  Two decimals: \<open>%.2f\<close> of a finite value between 0 and 1000 never leaves the formatter's
  buffer, and prints only digits and a point. This is the format of the registers that read
  the voltage and the current.
\<close>

unbundle bit_operations_syntax

section \<open>The split into whole and hundredths is defined\<close>

lemma round64_between:
  assumes "of_int a \<le> x" "x \<le> of_int b" "\<bar>a\<bar> < 2 ^ 53" "\<bar>b\<bar> < 2 ^ 53"
  shows "fp_finite (fp_round Binary64 s x)" "fp_val (fp_round Binary64 s x) = rnd Binary64 x"
    "of_int a \<le> rnd Binary64 x" "rnd Binary64 x \<le> of_int b"
proof -
  show r: "of_int a \<le> rnd Binary64 x" "rnd Binary64 x \<le> of_int b" using b64.between [OF assms] by auto
  have "(of_int \<bar>a\<bar> :: rat) < of_int (2 ^ 53)" "(of_int \<bar>b\<bar> :: rat) < of_int (2 ^ 53)"
    using assms(3,4) unfolding of_int_less_iff by auto
  then have "\<bar>rnd Binary64 x\<bar> < of_int (2 ^ 53)" using r by (simp add: abs_less_iff)
  moreover have "(of_int (2 ^ 53) :: rat) \<le> pow2 (emax Binary64 + 1)" by (simp add: pow2_def)
  ultimately have "\<bar>rnd Binary64 x\<bar> < pow2 (emax Binary64 + 1)" by simp
  then show "fp_finite (fp_round Binary64 s x)" "fp_val (fp_round Binary64 s x) = rnd Binary64 x"
    by (rule fp_round_finite)+
qed

definition printable :: "fp \<Rightarrow> bool" where
  "printable v \<longleftrightarrow> fp_finite v \<and> 0 \<le> fp_val v \<and> fp_val v \<le> 1000"

lemma d_int_small:
  "\<bar>k\<bar> < 2 ^ 53 \<Longrightarrow> fp_finite (d_int k) \<and> fp_val (d_int k) = of_int k"
  using round64_int [of k False] by (simp add: fp_of_int_def)

lemma ftoa_split_defined:
  assumes "printable v"
  obtains whole fr where "ftoa_split v 2 = Inr (whole, fr)" "0 \<le> whole" "whole \<le> 1001" "0 \<le> fr" "fr \<le> 101"
proof -
  have v: "fp_finite v" "0 \<le> fp_val v" "fp_val v \<le> 1000" using assms by (auto simp: printable_def)
  define w where "w = \<lfloor>fp_val v\<rfloor>"
  have tw: "trunc_rat (fp_val v) = w" using v by (simp add: trunc_rat_def w_def)
  have w: "0 \<le> w" "w \<le> 1000" "of_int w \<le> fp_val v" "fp_val v \<le> of_int w + 1"
    using v by (auto simp: w_def floor_le_iff) linarith
  have "to_int32 v = Inr w" using v w tw by (simp add: to_int32_def fp_to_int_def)
  moreover
  have dw: "fp_finite (d_int w)" "fp_val (d_int w) = of_int w" using d_int_small [of w] w by auto
  have dn: "fp_finite (fp_neg (d_int w))" "fp_val (fp_neg (d_int w)) = - of_int w"
    using dw by (cases "d_int w"; auto)+
  obtain s where s: "d_sub v (d_int w) = fp_round Binary64 s (fp_val v - of_int w)"
    using fp_add_finite [OF v(1) dn(1), of Binary64] dn(2) by (auto simp: fp_sub_def)
  have d: "fp_finite (d_sub v (d_int w))" "0 \<le> fp_val (d_sub v (d_int w))" "fp_val (d_sub v (d_int w)) \<le> 1"
    using round64_between [of 0 "fp_val v - of_int w" 1] w by (auto simp: s)
  define t where "t = d_mul (d_sub v (d_int w)) (Num 100)"
  have "d_sub v (d_int w) \<noteq> NaN" using d(1) by auto
  then obtain s' where s': "t = fp_round Binary64 s' (fp_val (d_sub v (d_int w)) * 100)"
    using d(1) by (auto simp: t_def fp_mul_def)
  have t: "fp_finite t" "0 \<le> fp_val t" "fp_val t \<le> 100"
    using round64_between [of 0 "fp_val (d_sub v (d_int w)) * 100" 100] d by (auto simp: s')
  define fr where "fr = \<lfloor>fp_val t\<rfloor>"
  have fr: "to_uint32 t = Inr fr" "0 \<le> fr" "fr \<le> 100"
    using t by (auto simp: to_uint32_def fp_to_int_def trunc_rat_def fr_def floor_le_iff)
  moreover have "pow10_table 2 = Inr (Num 100)" by (simp add: pow10_table_def)
  ultimately have "\<exists>whole fr. ftoa_split v 2 = Inr (whole, fr) \<and> 0 \<le> whole \<and> whole \<le> 1001
      \<and> 0 \<le> fr \<and> fr \<le> 101"
    using w by (auto simp: ftoa_split_def Let_def t_def [symmetric])
  then show ?thesis using that by blast
qed

section \<open>The characters\<close>

definition number_chars :: "char list" where
  "number_chars = ''0123456789.''"

lemma digit_in: "char_of (48 + n mod 10 :: int) \<in> set number_chars"
proof -
  have "n mod 10 = 0 \<or> n mod 10 = 1 \<or> n mod 10 = 2 \<or> n mod 10 = 3 \<or> n mod 10 = 4
    \<or> n mod 10 = 5 \<or> n mod 10 = 6 \<or> n mod 10 = 7 \<or> n mod 10 = 8 \<or> n mod 10 = 9"
    by presburger
  then show ?thesis by (elim disjE) (simp_all add: number_chars_def char_of_def)
qed

lemma last_digit_in: "n div 10 = 0 \<Longrightarrow> char_of (48 + n :: int) \<in> set number_chars"
  using digit_in [of n] by (metis add_0 mult_zero_right mult_div_mod_eq)

lemma frac_digits_chars:
  "set buf \<subseteq> set number_chars \<Longrightarrow> set (snd (ftoa_frac_digits count fr buf)) \<subseteq> set number_chars"
  by (induction count fr buf rule: ftoa_frac_digits.induct, subst ftoa_frac_digits.simps)
    (auto simp: Let_def digit_in last_digit_in)

lemma whole_digits_chars:
  "set buf \<subseteq> set number_chars \<Longrightarrow> set (ftoa_whole_digits whole buf) \<subseteq> set number_chars"
  by (induction whole buf rule: ftoa_whole_digits.induct, subst ftoa_whole_digits.simps)
    (auto simp: Let_def digit_in last_digit_in)

lemma whole_digits_extends: "length buf \<le> length (ftoa_whole_digits whole buf)"
  by (induction whole buf rule: ftoa_whole_digits.induct, subst ftoa_whole_digits.simps)
    (auto simp: Let_def)

lemma frac_digits_nonempty: "snd (ftoa_frac_digits count fr []) \<noteq> []"
proof -
  have "length buf \<le> length (snd (ftoa_frac_digits count fr buf))" for count fr buf
    by (induction count fr buf rule: ftoa_frac_digits.induct, subst ftoa_frac_digits.simps)
      (fastforce simp: Let_def dest: Suc_leD)
  from this [of "[char_of (48 + fr mod 10)]" "(count - 1) mod 2 ^ 32" "fr div 10"]
  show ?thesis by (subst ftoa_frac_digits.simps) (auto simp: Let_def)
qed

definition show2 :: "fp \<Rightarrow> char list" where
  "show2 v = (case ftoa_buf v 2 False 0 FLAGS_PRECISION of Inr b \<Rightarrow> rev b | Inl e \<Rightarrow> [])"

lemma ftoa_buf_defined:
  assumes "printable v"
  shows "ftoa_buf v 2 False 0 FLAGS_PRECISION = Inr (rev (show2 v))"
    "show2 v \<noteq> []" "set (show2 v) \<subseteq> set number_chars"
proof -
  obtain whole fr where s: "ftoa_split v 2 = Inr (whole, fr)"
    using ftoa_split_defined [OF assms] by metis
  obtain count b1 where f: "ftoa_frac_digits 2 fr [] = (count, b1)" by (cases "ftoa_frac_digits 2 fr []")
  define b2 where "b2 = ftoa_frac 2 fr []"
  have b1: "b1 \<noteq> []" "set b1 \<subseteq> set number_chars"
    using frac_digits_nonempty [of 2 fr] frac_digits_chars [of "[]" 2 fr] f by auto
  then have b2: "b2 \<noteq> []" "set b2 \<subseteq> set number_chars"
    by (auto simp: b2_def ftoa_frac_def f push_if_def Let_def number_chars_def split: if_splits)
  have lim: "ftoa_limit_prec 2 = ([], 2)"
    by (simp add: ftoa_limit_prec_def PICO_PRINTF_FTOA_BUFFER_SIZE_def)
  have e: "ftoa_buf v 2 False 0 FLAGS_PRECISION = Inr (ftoa_whole_digits whole b2)"
    by (simp add: ftoa_buf_def lim s b2_def push_sign_def Let_def)
  then show "ftoa_buf v 2 False 0 FLAGS_PRECISION = Inr (rev (show2 v))" by (simp add: show2_def)
  show "show2 v \<noteq> []" "set (show2 v) \<subseteq> set number_chars"
    using e b2 whole_digits_extends [of b2 whole] whole_digits_chars [of b2 whole]
    by (auto simp: show2_def)
qed

section \<open>The conversion\<close>

lemma ftoa_printable:
  assumes "printable v"
  shows "ftoa out n v 2 0 FLAGS_PRECISION idx s = emit out n (show2 v) idx s"
proof -
  have v: "v \<noteq> NaN" "fp_finite v" "0 \<le> fp_val v" "fp_val v \<le> 1000" using assms by (auto simp: printable_def)
  have big: "1000 < fp_val DBL_MAX" "fp_finite DBL_MAX" "fp_finite (fp_neg DBL_MAX)"
      "fp_val (fp_neg DBL_MAX) < 0"
    by (simp_all add: DBL_MAX_def pow2_def)
  have "\<not> fp_lt v (fp_neg DBL_MAX)" "\<not> fp_lt DBL_MAX v" "\<not> fp_lt PICO_PRINTF_MAX_FLOAT v"
    "\<not> fp_lt v (fp_neg PICO_PRINTF_MAX_FLOAT)" "\<not> fp_lt v (Zero False)"
    using v big by (auto simp: fp_lt_finite PICO_PRINTF_MAX_FLOAT_def)
  then show ?thesis
    using v ftoa_buf_defined(1) [OF assms]
    by (simp add: ftoa_def ftoa_with_def Let_def ntoa_width_def out_rev_def)
qed

lemma formats_2f:
  assumes "printable v"
  shows "formats ''%.2f'' [VDouble v] (show2 v)"
proof -
  have "convert out_buffer n CHR ''f'' FLAGS_PRECISION 0 2 [VDouble v] idx b =
      rbind (emit out_buffer n (show2 v) idx b) (\<lambda>(i, s). Inr (i, s, []))" for n idx b
    by (simp add: convert_def conv_float_def ftoa_printable [OF assms])
  from formats_conv [of "''.2''", OF _ this formats_nil] show ?thesis
    by (simp add: parse_spec_def parse_width_def parse_precision_def parse_length_def is_digit_def)
qed

end
