(* ===== verification/Node.thy ===== *)
theory Node
  imports Receive Show_Fixed
begin

text \<open>
  What a cell promises, over abstract messages: a node is a cell number, a voltage and a
  current, and reacts to a message with a reply and a new node. The lemmas show that every
  packet handler of the simulator implements \<open>react\<close>.
\<close>

section \<open>The abstract node\<close>

record node =
  node_id :: "u16 option"
  volts :: fp
  amps :: fp

definition err_text :: "u16 \<Rightarrow> char list" where
  "err_text e = (if e = 0 then ''OK'' else ''ERR:'' @ hex (uint e))"

text \<open>Writing a register: an error code and the new node, or nothing defined (\<open>nan\<close>).\<close>

definition write_reg :: "u32 \<Rightarrow> char list \<Rightarrow> node \<Rightarrow> (u16 \<times> node) option" where
  "write_reg a v n =
     (if a = 0x1000 then
        (if strtof v = NaN then None else Some (0, n\<lparr>volts := clamp_output (strtof v)\<rparr>))
      else if a = 0x2000 then Some (3, n) else Some (1, n))"

text \<open>Reading a register: its text, cut to 18 characters, or nothing at another address.\<close>

definition read_reg :: "u32 \<Rightarrow> node \<Rightarrow> char list option" where
  "read_reg a n =
     (if a = 0x1000 then Some (take 18 (show2 (volts n)))
      else if a = 0x2000 then Some (take 18 (show2 (amps n)))
      else if a = 0x3000 then Some ''scbs_pico-0.1.0'' else None)"

text \<open>A reply with the cell's own number, which has to be known.\<close>

definition status :: "char list \<Rightarrow> node \<Rightarrow> (message \<times> node) option" where
  "status t n = map_option (\<lambda>i. (MSRS i t, n)) (node_id n)"

fun react :: "message \<Rightarrow> node \<Rightarrow> (message \<times> node) option" where
  "react (MDIS i) n = Some (MDIS (i + 1), n\<lparr>node_id := Some (i + 1)\<rparr>)"
| "react (MMWR a v) n =
     (case write_reg a v n of
        None \<Rightarrow> None
      | Some (e, n') \<Rightarrow> if e = 0 then Some (MMWR a v, n') else status (err_text e) n')"
| "react (MMRD a vs) n =
     (if kMaxNumValues \<le> length vs then status (err_text 2) n
      else case read_reg a n of
             None \<Rightarrow> status (err_text 1) n
           | Some t \<Rightarrow> Some (MMRD a (vs @ [t]), n))"
| "react (MSWR i a v) n =
     (case node_id n of
        None \<Rightarrow> None
      | Some k \<Rightarrow>
          if i = k then (case write_reg a v n of None \<Rightarrow> None | Some (e, n') \<Rightarrow> status (err_text e) n')
          else Some (MSWR i a v, n))"
| "react (MSRD i a) n =
     (case node_id n of
        None \<Rightarrow> None
      | Some k \<Rightarrow>
          if i = k then status (case read_reg a n of None \<Rightarrow> err_text 1 | Some t \<Rightarrow> t) n
          else Some (MSRD i a, n))"
| "react (MSRS i v) n = Some (MSRS i v, n)"

text \<open>Both registers can be printed.\<close>

definition able :: "node \<Rightarrow> bool" where
  "able n \<longleftrightarrow> printable (volts n) \<and> printable (amps n)"

definition node_of :: "scbs \<Rightarrow> node" where
  "node_of s = \<lparr>node_id = cell_id s, volts = output_voltage s, amps = output_current s\<rparr>"

lemma node_of_simps [simp]:
  "node_id (node_of s) = cell_id s" "volts (node_of s) = output_voltage s"
  "amps (node_of s) = output_current s"
  by (simp_all add: node_of_def)

section \<open>States of the cell\<close>

text \<open>
  Everything the handlers leave alone: the configuration, the clock, the converter, the
  input and the other UART.
\<close>

definition keeps :: "scbs \<Rightarrow> scbs \<Rightarrow> bool" where
  "keeps s s' \<longleftrightarrow> config s' = config s \<and> now_us s' = now_us s \<and> adc s' = adc s \<and>
     clk_peri_hz s' = clk_peri_hz s \<and>
     uart_rx_buf s' = uart_rx_buf s \<and> uart_rx_buf_len s' = uart_rx_buf_len s \<and>
     same_config (my_uart s) (my_uart s') \<and> (\<forall>j. j \<noteq> uart_id (config s) \<longrightarrow> uarts s' j = uarts s j)"

lemma keeps_refl [simp]: "keeps s s"
  by (simp add: keeps_def)

lemma keeps_trans: "keeps s s' \<Longrightarrow> keeps s' s'' \<Longrightarrow> keeps s s''"
  by (auto simp: keeps_def intro: same_config_trans)

text \<open>The microsecond counter does not wrap within the longest blink.\<close>

definition early :: "scbs \<Rightarrow> bool" where
  "early s \<longleftrightarrow> uint (time_us_32 s) + 500000 < 2 ^ 32"

text \<open>A step that sends a line and leaves the node \<open>n\<close>.\<close>

definition replies :: "scbs \<Rightarrow> message \<Rightarrow> node \<Rightarrow> scbs \<Rightarrow> bool" where
  "replies s m n s' \<longleftrightarrow> keeps s s' \<and> node_of s' = n \<and>
     sent (my_uart s') = sent (my_uart s) @ map of_char (wire m @ crlf_end)"

text \<open>A step that sends nothing.\<close>

definition silent :: "scbs \<Rightarrow> node \<Rightarrow> scbs \<Rightarrow> bool" where
  "silent s n s' \<longleftrightarrow> keeps s s' \<and> node_of s' = n \<and> sent (my_uart s') = sent (my_uart s)"

lemma silent_replies: "silent s n s' \<Longrightarrow> replies s' m n' s'' \<Longrightarrow> replies s m n' s''"
  by (auto simp: silent_def replies_def intro: keeps_trans)

lemma silent_trans: "silent s n s' \<Longrightarrow> silent s' n' s'' \<Longrightarrow> silent s n' s''"
  by (auto simp: silent_def intro: keeps_trans)

lemma silentD:
  assumes "silent s n s'"
  shows "node_of s' = n" "char_to_line_feed (my_uart s') = char_to_line_feed (my_uart s)"
    "early s' = early s" "config s' = config s" "uart_rx_buf s' = uart_rx_buf s"
  using assms same_configD(5) [of "my_uart s" "my_uart s'"]
  by (auto simp: silent_def keeps_def early_def time_us_32_def)

lemma silent_led_lit: "silent s (node_of s) (led_lit d s)"
  by (simp add: silent_def keeps_def led_lit_def on_gpio_def my_uart_def node_of_def)

lemma silent_set_level: "silent s (node_of s) (set_level d s)"
  by (simp add: silent_def keeps_def set_level_def on_pwm_def my_uart_def node_of_def)

lemma silent_volts:
  "silent s ((node_of s)\<lparr>volts := v\<rparr>) (s\<lparr>output_voltage := v\<rparr>)"
  by (simp add: silent_def keeps_def my_uart_def node_of_def)

lemma TransmitPacket_replies:
  assumes "prints ToString p (wire m)" "length (wire m) < kMaxPacketLen"
    and "char_to_line_feed (my_uart s) = 0x100"
  shows "\<exists>s'. TransmitPacket ToString p s = Inr s' \<and> replies s m (node_of s) s'"
proof -
  obtain s' where s': "TransmitPacket ToString p s = Inr s'" "sends s (wire m @ crlf_end) s'"
    using TransmitPacket_sends [OF assms] by blast
  obtain u where u: "s' = set_my_uart u s" "same_config (my_uart s) u"
    "sent u = sent (my_uart s) @ map of_char (wire m @ crlf_end)"
    using s'(2) by (auto simp: sends_def)
  have "replies s m (node_of s) s'"
    using u by (simp add: replies_def keeps_def) (simp add: set_my_uart_def on_uart_def node_of_def)
  then show ?thesis using s'(1) by blast
qed

lemma blink:
  assumes "early s" "ms \<in> {10, 100, 500}"
  shows "\<exists>d. TurnOnStatusLED ms s = Inr (led_lit d s)"
proof -
  have "uint ms \<le> 500" using assms(2) by auto
  then have "uint (time_us_32 s) + 1000 * uint ms < 2 ^ 32" using assms(1) by (simp add: early_def)
  then have "TurnOnStatusLED ms s = Inr (led_lit (time_us_32 s + 1000 * ms) s)"
    by (simp add: TurnOnStatusLED_result)
  then show ?thesis by blast
qed

section \<open>Messages and their lengths\<close>

lemma ok_valueI:
  "v \<noteq> [] \<Longrightarrow> length v \<le> 19 \<Longrightarrow> NUL \<notin> set v \<Longrightarrow> CHR '','' \<notin> set v \<Longrightarrow> CHR ''*'' \<notin> set v
   \<Longrightarrow> CHR 0x0A \<notin> set v \<Longrightarrow> ok_value v"
  by (auto simp: ok_value_def)

lemma hex_u16_length: "length (hex (uint (e :: u16))) \<le> 4"
  using uint_bounded [of e] by (intro numeral_of_length) auto

lemma ok_err_text: "ok_value (err_text e)"
  using hex_u16_length [of e] by (intro ok_valueI) (simp_all add: err_text_def hex_plain)

lemma ok_show2:
  assumes "printable v"
  shows "ok_value (take 18 (show2 v))"
proof -
  note f = ftoa_buf_defined(2,3) [OF assms]
  have "set (take 18 (show2 v)) \<subseteq> set number_chars"
    using f(2) set_take_subset [of 18 "show2 v"] by blast
  moreover have "NUL \<notin> set number_chars" "CHR '','' \<notin> set number_chars"
    "CHR ''*'' \<notin> set number_chars" "CHR 0x0A \<notin> set number_chars"
    by (simp_all add: number_chars_def)
  ultimately show ?thesis using f(1) by (intro ok_valueI) auto
qed

lemma read_reg_ok:
  assumes "able n" "read_reg a n = Some t"
  shows "ok_value t"
proof -
  have "ok_value ''scbs_pico-0.1.0''" by (rule ok_valueI) simp_all
  then show ?thesis
    using assms ok_show2 by (auto simp: read_reg_def able_def split: if_splits)
qed

section \<open>Registers\<close>

lemma WriteRegister_node:
  assumes "write_reg a v (node_of s) = Some (e, n')" "c_string b = Inr v" "early s"
  shows "\<exists>s'. WriteRegister a b s = Inr (e, s') \<and> silent s n' s'"
proof (cases "a = 0x1000")
  case True
  then have v: "strtof v \<noteq> NaN" "e = 0" "n' = (node_of s)\<lparr>volts := clamp_output (strtof v)\<rparr>"
    using assms(1) by (auto simp: write_reg_def split: if_splits)
  obtain d where d: "SetOutputVoltage (strtof v) s = Inr (clamp_output (strtof v), set_level d s)"
    using SetOutputVoltage_defined [OF v(1)] by metis
  define s2 where "s2 = set_level d s\<lparr>output_voltage := clamp_output (strtof v)\<rparr>"
  have sil: "silent s n' s2"
    using silent_trans [OF silent_set_level [of s d] silent_volts]
      silentD(1) [OF silent_set_level [of s d]] by (simp add: s2_def v(3))
  then have "early s2" using silentD(3) assms(3) by blast
  then obtain t where t: "TurnOnStatusLED 500 s2 = Inr (led_lit t s2)" using blink [of s2 500] by auto
  have "WriteRegister a b s = Inr (e, led_lit t s2)"
    using d t assms(2) True
    by (simp add: WriteRegister_def reg_addrs err_codes kRegisterWriteBlinkTimeMs_def s2_def v(2))
  moreover have "silent s n' (led_lit t s2)"
    using silent_trans [OF sil silent_led_lit] silentD(1) [OF sil] by simp
  ultimately show ?thesis by blast
next
  case False
  then have "WriteRegister a b s = Inr (e, s) \<and> n' = node_of s"
    using assms(1) by (auto simp: WriteRegister_def write_reg_def reg_addrs err_codes split: if_splits)
  then show ?thesis by (auto simp: silent_def)
qed

lemma show_register:
  assumes "printable v" "length b = kMaxPacketFieldLen"
  obtains b' where "snprintf b 19 ''%.2f'' [VDouble v] = Inr b'" "value_is b' (take 18 (show2 v))"
proof -
  have "NUL \<notin> set number_chars" by (simp add: number_chars_def)
  then have "NUL \<notin> set (show2 v)" using ftoa_buf_defined(3) [OF assms(1)] by auto
  from snprintf_string [OF formats_2f [OF assms(1)] this, of 19 b] assms(2) that
  show ?thesis by (auto simp: packet_consts value_is_def)
qed

lemma version_register:
  assumes "length b = kMaxPacketFieldLen"
  obtains b' where "snprintf b 19 ''scbs_pico-0.1.0'' [] = Inr b'" "value_is b' ''scbs_pico-0.1.0''"
proof -
  have "formats ''scbs_pico-0.1.0'' [] ''scbs_pico-0.1.0''" by (simp add: printf_simps)
  from snprintf_string [OF this, of 19 b] assms(1) that show ?thesis
    by (auto simp: packet_consts value_is_def)
qed

lemma ReadRegister_node:
  assumes "able (node_of s)" "early s"
  shows "read_reg a (node_of s) = Some t \<Longrightarrow>
      \<exists>b s'. ReadRegister a (zeroed kMaxPacketFieldLen) s = Inr (0, b, s') \<and> value_is b t
        \<and> silent s (node_of s) s'"
    "read_reg a (node_of s) = None \<Longrightarrow>
      ReadRegister a (zeroed kMaxPacketFieldLen) s = Inr (1, zeroed kMaxPacketFieldLen, s)"
proof -
  have p: "printable (output_voltage s)" "printable (output_current s)"
    using assms(1) by (simp_all add: able_def)
  have l: "length (zeroed kMaxPacketFieldLen) = kMaxPacketFieldLen" by (simp add: zeroed_def)
  obtain d where d: "TurnOnStatusLED 100 s = Inr (led_lit d s)" using blink [OF assms(2), of 100] by auto
  note k = ReadRegister_def reg_addrs err_codes kRegisterReadBlinkTimeMs_def packet_consts
    SCBS_FIRMWARE_VERSION_def Let_def
  note l' = l [unfolded packet_consts]
  show "\<exists>b s'. ReadRegister a (zeroed kMaxPacketFieldLen) s = Inr (0, b, s') \<and> value_is b t
        \<and> silent s (node_of s) s'" if "read_reg a (node_of s) = Some t"
  proof -
    consider "a = 0x1000" "t = take 18 (show2 (output_voltage s))"
      | "a = 0x2000" "t = take 18 (show2 (output_current s))" | "a = 0x3000" "t = ''scbs_pico-0.1.0''"
      using \<open>read_reg a (node_of s) = Some t\<close> by (auto simp: read_reg_def split: if_splits)
    then show ?thesis
    proof cases
      case 1
      obtain b where "snprintf (zeroed kMaxPacketFieldLen) 19 ''%.2f'' [VDouble (output_voltage s)] = Inr b" "value_is b t"
        using show_register [OF p(1) l] 1 by metis
      then show ?thesis using d silent_led_lit 1 by (simp add: k)
    next
      case 2
      obtain b where "snprintf (zeroed kMaxPacketFieldLen) 19 ''%.2f'' [VDouble (output_current s)] = Inr b" "value_is b t"
        using show_register [OF p(2) l] 2 by metis
      then show ?thesis using d silent_led_lit 2 by (simp add: k; blast)
    next
      case 3
      obtain b where "snprintf (zeroed kMaxPacketFieldLen) 19 ''scbs_pico-0.1.0'' [] = Inr b" "value_is b t"
        using version_register [OF l] 3 by metis
      then show ?thesis using d silent_led_lit 3 by (simp add: k; blast)
    qed
  qed
  show "ReadRegister a (zeroed kMaxPacketFieldLen) s = Inr (1, zeroed kMaxPacketFieldLen, s)"
    if "read_reg a (node_of s) = None"
    using that by (auto simp: read_reg_def k split: if_splits)
qed


section \<open>The handlers\<close>

text \<open>What a reply needs: the line feed translation is off and the clock is not about to wrap.\<close>

definition ready :: "scbs \<Rightarrow> bool" where
  "ready s \<longleftrightarrow> char_to_line_feed (my_uart s) = 0x100 \<and> early s \<and> able (node_of s)"

lemma silent_ready:
  "silent s n s' \<Longrightarrow> ready s \<Longrightarrow> able n \<Longrightarrow> ready s'"
  using silentD [of s n s'] by (simp add: ready_def)

lemma TransmitError_status:
  assumes "status (err_text e) (node_of s) = Some (m', n')" "ready s"
  shows "\<exists>s'. TransmitError e s = Inr s' \<and> replies s m' n' s'"
proof -
  obtain i where i: "cell_id s = Some i" "m' = MSRS i (err_text e)" "n' = node_of s"
    using assms(1) by (auto simp: status_def)
  let ?z = "zeroed kMaxPacketFieldLen"
  let ?snp = "if e = kErrCodeNone then snprintf ?z (int (kMaxPacketFieldLen - 1)) ''OK'' []
      else snprintf ?z (int (kMaxPacketFieldLen - 1)) ''ERR:%X'' [VInt (ucast e)]"
  have "NUL \<notin> set (err_text e)" "length (err_text e) < 19" "ok_value (err_text e)"
    using ok_valueD [OF ok_err_text [of e]] ok_err_text [of e] hex_u16_length [of e]
    by (simp_all add: err_text_def)
  note t = this
  have "formats (if e = 0 then ''OK'' else ''ERR:%X'') (if e = 0 then [] else [VInt (ucast e)]) (err_text e)"
  proof (cases "e = 0")
    case False
    have "formats ''ERR:%X'' [VInt (ucast e)] (''ERR:'' @ hex (uint (ucast e :: u32)) @ [])"
      unfolding append.simps by (intro format_rules) simp_all
    then show ?thesis using False by (simp add: err_text_def)
  qed (simp add: err_text_def printf_simps)
  then obtain b where b: "snprintf ?z (int 19) (if e = 0 then ''OK'' else ''ERR:%X'')
      (if e = 0 then [] else [VInt (ucast e)]) = Inr b" "c_string b = Inr (take (19 - 1) (err_text e))"
    "length b = length ?z"
    by (rule snprintf_string [OF _ t(1), where n = 19 and b = ?z]) (simp_all add: packet_consts)
  then have "?snp = Inr b" by (simp add: packet_consts err_codes split: if_splits)
  moreover have "c_string b = Inr (err_text e)" using b(2) t(2) by simp
  moreover obtain p where p: "SRSPacket_of_values i b = Inr p" "srs_carries p m'"
    using SRS_of_values [OF calculation(2) t(3), of i] i(2) by auto
  moreover have "ok_message m'" using t(3) by (simp add: i(2))
  then have "prints SRSPacket_ToString p (wire m')" "length (wire m') < kMaxPacketLen"
    using srs.formats_as [OF p(2)] wire_length by auto
  then obtain s' where "TransmitPacket SRSPacket_ToString p s = Inr s'" "replies s m' n' s'"
    using TransmitPacket_replies [of SRSPacket_ToString p m' s] assms(2) i(3) by (auto simp: ready_def)
  ultimately show ?thesis
    by (simp add: TransmitError_def GetCellID_def i(1))
qed

lemma forwarded:
  assumes "prints ToString p (wire m)" "ok_message m" "ready s"
  shows "\<exists>s'. TransmitPacket ToString p s = Inr s' \<and> replies s m (node_of s) s'"
  using TransmitPacket_replies [OF assms(1) wire_length [OF assms(2)]] assms(3) by (simp add: ready_def)

lemma DISPacketHandler_react:
  assumes "dis_carries p m" "is_valid p" "ready s"
  shows "\<exists>m' n' s'. react m (node_of s) = Some (m', n') \<and> DISPacketHandler p s = Inr s' \<and> replies s m' n' s'"
proof -
  let ?i = "last_cell_id p + 1" and ?s = "s\<lparr>cell_id := Some (last_cell_id p + 1)\<rparr>"
  have m: "m = MDIS (last_cell_id p)" using assms(1) by (simp add: dis_carries_def)
  obtain q where q: "DISPacket_of_values ?i = Inr q" "dis_carries q (MDIS ?i)"
    using DIS_of_values by blast
  have sil: "silent s ((node_of s)\<lparr>node_id := Some ?i\<rparr>) ?s"
    by (simp add: silent_def keeps_def my_uart_def node_of_def)
  have "ready ?s" using silent_ready [OF sil assms(3)] assms(3) by (simp add: ready_def able_def)
  from forwarded [OF dis.formats_as [OF q(2)] _ this]
  obtain s' where s': "TransmitPacket DISPacket_ToString q ?s = Inr s'"
    "replies ?s (MDIS ?i) (node_of ?s) s'" by auto
  have "replies s (MDIS ?i) (node_of ?s) s'"
    using silent_replies [OF sil s'(2)] .
  moreover have "DISPacketHandler p s = Inr s'"
    using assms(2) q(1) s'(1) by (simp add: DISPacketHandler_def IsValid_def)
  ultimately show ?thesis using silentD(1) [OF sil] by (simp add: m)
qed

lemma write_reg_able:
  "write_reg a v n = Some (e, n') \<Longrightarrow> able n \<Longrightarrow> able n'"
  using clamp_output_range [of "strtof v"]
  by (auto simp: write_reg_def able_def printable_def split: if_splits)

lemma MWRPacketHandler_react:
  assumes "mwr_carries p m" "ok_message m" "is_valid p" "ready s" "prints MWRPacket_ToString p (wire m)"
    and "react m (node_of s) = Some (m', n')"
  shows "\<exists>s'. MWRPacketHandler p s = Inr s' \<and> replies s m' n' s'"
proof -
  obtain v where m: "m = MMWR (mwr_reg_addr p) v" and v: "c_string (mwr_value p) = Inr v"
    using assms(1) by (auto simp: mwr_carries_def value_is_def)
  obtain e n1 where w: "write_reg (mwr_reg_addr p) v (node_of s) = Some (e, n1)"
    using assms(6) by (auto simp: m split: option.splits)
  obtain s1 where s1: "WriteRegister (mwr_reg_addr p) (mwr_value p) s = Inr (e, s1)" "silent s n1 s1"
    using WriteRegister_node [OF w v] assms(4) by (auto simp: ready_def)
  have r1: "ready s1" using silent_ready [OF s1(2) assms(4)] write_reg_able [OF w] assms(4)
    by (simp add: ready_def)
  have n1: "node_of s1 = n1" using silentD(1) [OF s1(2)] .
  have "\<exists>s'. (if e \<noteq> 0 then TransmitError e s1 else TransmitPacket MWRPacket_ToString p s1) = Inr s'
      \<and> replies s1 m' n' s'"
  proof (cases "e = 0")
    case True
    then have "m' = m" "n' = n1" using assms(6) w by (simp_all add: m)
    then show ?thesis using forwarded [OF assms(5,2) r1] True n1 by simp
  next
    case False
    then have "status (err_text e) (node_of s1) = Some (m', n')" using assms(6) w by (simp add: m n1)
    then show ?thesis using TransmitError_status r1 False by simp
  qed
  then obtain s' where "(if e \<noteq> 0 then TransmitError e s1 else TransmitPacket MWRPacket_ToString p s1) = Inr s'"
    "replies s1 m' n' s'" by blast
  then show ?thesis
    using s1 assms(3) silent_replies [OF s1(2)]
    by (auto simp: MWRPacketHandler_def IsValid_def err_codes split: if_splits)
qed

lemma SWRPacketHandler_react:
  assumes "swr_carries p m" "ok_message m" "is_valid p" "ready s" "prints SWRPacket_ToString p (wire m)"
    and "react m (node_of s) = Some (m', n')"
  shows "\<exists>s'. SWRPacketHandler p s = Inr s' \<and> replies s m' n' s'"
proof -
  obtain v where m: "m = MSWR (swr_cell_id p) (swr_reg_addr p) v" and v: "c_string (swr_value p) = Inr v"
    using assms(1) by (auto simp: swr_carries_def value_is_def)
  obtain k where k: "cell_id s = Some k" using assms(6) by (auto simp: m split: option.splits)
  show ?thesis
  proof (cases "swr_cell_id p = k")
    case True
    then obtain e n1 where w: "write_reg (swr_reg_addr p) v (node_of s) = Some (e, n1)"
      and st: "status (err_text e) n1 = Some (m', n')"
      using assms(6) by (auto simp: m k split: option.splits)
    obtain s1 where s1: "WriteRegister (swr_reg_addr p) (swr_value p) s = Inr (e, s1)" "silent s n1 s1"
      using WriteRegister_node [OF w v] assms(4) by (auto simp: ready_def)
    have r1: "ready s1" using silent_ready [OF s1(2) assms(4)] write_reg_able [OF w] assms(4)
      by (simp add: ready_def)
    obtain s' where "TransmitError e s1 = Inr s'" "replies s1 m' n' s'"
      using TransmitError_status [of e s1] st r1 silentD(1) [OF s1(2)] by auto
    then show ?thesis
      using s1 assms(3) True silent_replies [OF s1(2)] k
      by (simp add: SWRPacketHandler_def IsValid_def GetCellID_def)
  next
    case False
    then have "m' = m" "n' = node_of s" using assms(6) by (simp_all add: m k)
    then show ?thesis using forwarded [OF assms(5,2,4)] False assms(3) k
      by (simp add: SWRPacketHandler_def IsValid_def GetCellID_def)
  qed
qed

lemma SRSPacketHandler_react:
  assumes "srs_carries p m" "ok_message m" "is_valid p" "ready s" "prints SRSPacket_ToString p (wire m)"
  shows "\<exists>s'. SRSPacketHandler p s = Inr s' \<and> replies s m (node_of s) s' \<and> react m (node_of s) = Some (m, node_of s)"
  using forwarded [OF assms(5,2,4)] assms(1,3)
  by (auto simp: SRSPacketHandler_def IsValid_def srs_carries_def)


text \<open>The slots of a parsed multiple read keep their size.\<close>

definition slots_ok :: "cell list list \<Rightarrow> bool" where
  "slots_ok vs \<longleftrightarrow> list_all (\<lambda>b. length b = kMaxPacketFieldLen) vs"

lemma mrd_parse_values_slots:
  "mrd_parse_values tb e v save vs num = Inr (ok, vs', num') \<Longrightarrow> slots_ok vs \<Longrightarrow>
   length vs = kMaxNumValues \<Longrightarrow> slots_ok vs'"
proof (induction tb e v save vs num arbitrary: vs' num' rule: mrd_parse_values.induct)
  case (1 tb e v save vs num)
  show ?case
  proof (cases "v = None \<or> kMaxNumValues \<le> num")
    case True
    then show ?thesis using 1(2,3) by (subst (asm) mrd_parse_values.simps) (auto split: option.splits)
  next
    case False
    then obtain w where v: "v = Some w" "num < kMaxNumValues" by auto
    let ?k = "min (int e - int w) (int kMaxPacketFieldLen - 1) mod 2 ^ 32"
    obtain b1 w' tb1 save1 where b1: "strncpy (vs ! num) (drop w tb) ?k = Inr b1"
      and t: "strtok_next CHR '','' tb save = Inr (w', tb1, save1)"
      and r: "mrd_parse_values tb1 e w' save1 (vs[num := b1]) (num + 1) = Inr (ok, vs', num')"
      using 1(2) v by (subst (asm) mrd_parse_values.simps) (auto elim!: rbind_eq_InrE)
    have "slots_ok (vs[num := b1])"
      using v(2) 1(3,4) strncpy_length [OF b1]
      by (auto simp: slots_ok_def list_all_length nth_list_update)
    then show ?thesis using 1(1) [OF v(1) _ b1 t refl refl r] v(2) 1(4) by simp
  qed
qed

lemma BSPacket_FromString_more:
  "BSPacket_FromString b p = Inr p' \<Longrightarrow> bs_packet.more p' = bs_packet.more p"
  by (auto simp: BSPacket_FromString_def Let_def elim!: rbind_eq_InrE split: option.splits if_splits)

lemma MRDPacket_of_string_slots:
  assumes "MRDPacket_of_string b = Inr p"
  shows "slots_ok (mrd_values p)"
proof -
  have "slots_ok (replicate kMaxNumValues (zeroed kMaxPacketFieldLen))"
    by (auto simp: slots_ok_def zeroed_def list_all_iff)
  moreover have "mrd_values p1 = mrd_values p0"
    if "BSPacket_FromString b p0 = Inr p1" for p0 p1 :: mrd_packet
    using BSPacket_FromString_more [OF that] by (cases p0; cases p1) simp
  ultimately show ?thesis
    using assms
    by (auto simp: MRDPacket_of_string_def MRDPacket_FromString_def Let_def elim!: rbind_eq_InrE
        split: option.splits if_splits dest!: mrd_parse_values_slots)
qed


lemma MRDPacketHandler_react:
  assumes "mrd_carries p m" "slots_ok (mrd_values p)" "is_valid p" "ready s" "ok_message m'"
    and "react m (node_of s) = Some (m', n')"
  shows "\<exists>s'. MRDPacketHandler p s = Inr s' \<and> replies s m' n' s'"
proof -
  obtain vs where m: "m = MMRD (mrd_reg_addr p) vs" and n: "unat (mrd_num_values p) = length vs"
    "length (mrd_values p) = kMaxNumValues"
    and vals: "\<And>i. i < length vs \<Longrightarrow> c_string (mrd_values p ! i) = Inr (vs ! i)"
    using assms(1) by (auto simp: mrd_carries_def value_is_def)
  have ab: "able (node_of s)" "early s" using assms(4) by (simp_all add: ready_def)
  show ?thesis
  proof (cases "kMaxNumValues \<le> length vs")
    case True
    then have "status (err_text 2) (node_of s) = Some (m', n')" using assms(6) by (simp add: m)
    from TransmitError_status [OF this assms(4)] show ?thesis
      using True n assms(3) by (simp add: MRDPacketHandler_def IsValid_def err_codes)
  next
    case few: False
    show ?thesis
    proof (cases "read_reg (mrd_reg_addr p) (node_of s)")
      case None
      then have "status (err_text 1) (node_of s) = Some (m', n')" using assms(6) few by (simp add: m)
      from TransmitError_status [OF this assms(4)] show ?thesis
        using few n assms(3) ReadRegister_node(2) [OF ab None]
        by (simp add: MRDPacketHandler_def IsValid_def err_codes)
    next
      case (Some t)
      let ?n = "length vs" and ?a = "mrd_reg_addr p"
      have m': "m' = MMRD ?a (vs @ [t])" "n' = node_of s" using assms(6) few Some by (simp_all add: m)
      obtain b s1 where r: "ReadRegister ?a (zeroed kMaxPacketFieldLen) s = Inr (0, b, s1)"
        "value_is b t" "silent s (node_of s) s1"
        using ReadRegister_node(1) [OF ab Some] by blast
      have t: "ok_value t" using read_reg_ok [OF ab(1) Some] .
      have slot: "length (mrd_values p ! ?n) = kMaxPacketFieldLen"
        using assms(2) few n(2) by (simp add: slots_ok_def list_all_length)
      obtain q where q: "b = map Some t @ Some NUL # q" "NUL \<notin> set t"
        using r(2) by (auto simp: value_is_def elim: c_stringE)
      have "strncpy (mrd_values p ! ?n) b (int kMaxPacketFieldLen) =
          Inr (map Some t @ zeroed (nat (int kMaxPacketFieldLen) - length t) @ drop (nat (int kMaxPacketFieldLen)) (mrd_values p ! ?n))"
        unfolding q(1) using q(2) t slot by (intro strncpy_pad) (auto simp: packet_consts dest: ok_valueD)
      then obtain v where v: "strncpy (mrd_values p ! ?n) b (int kMaxPacketFieldLen) = Inr v"
        "c_string v = Inr t"
        using slot q(2) t c_string_zeroed [of t "kMaxPacketFieldLen - length t"]
        by (auto simp: packet_consts dest!: ok_valueD)
      have "c_string ((mrd_values p)[?n := v] ! i) = Inr ((vs @ [t]) ! i)" if "i < Suc ?n" for i
        using that vals [of i] v(2) few n(2) by (auto simp: nth_list_update nth_append less_Suc_eq)
      moreover have "unat (mrd_num_values p + 1) = Suc ?n"
        using n(1) few unat_word_ariths(1) [of "mrd_num_values p" 1] by (simp add: kMaxNumValues_def)
      ultimately obtain q' where q': "MRDPacket_of_values ?a ((mrd_values p)[?n := v]) (mrd_num_values p + 1) = Inr q'"
        "mrd_carries q' m'"
        using MRD_of_values [of ?a "vs @ [t]" "mrd_num_values p + 1" "(mrd_values p)[?n := v]"]
          assms(5) few n(2) by (auto simp: m')
      have r1: "ready s1" using silent_ready [OF r(3) assms(4) ab(1)] .
      obtain s' where s': "TransmitPacket MRDPacket_ToString q' s1 = Inr s'" "replies s1 m' (node_of s1) s'"
        using forwarded [OF mrd.formats_as [OF q'(2) assms(5)] assms(5) r1] by blast
      have "MRDPacketHandler p s = Inr s'"
        using few n assms(3) r(1) v(1) q'(1) s'(1) by (simp add: MRDPacketHandler_def IsValid_def err_codes)
      moreover have "replies s m' n' s'"
        using silent_replies [OF r(3) s'(2)] silentD(1) [OF r(3)] m'(2) by simp
      ultimately show ?thesis by blast
    qed
  qed
qed

lemma SRDPacketHandler_react:
  assumes "srd_carries p m" "is_valid p" "ready s" "prints SRDPacket_ToString p (wire m)"
    and "react m (node_of s) = Some (m', n')"
  shows "\<exists>s'. SRDPacketHandler p s = Inr s' \<and> replies s m' n' s'"
proof -
  have m: "m = MSRD (srd_cell_id p) (srd_reg_addr p)" using assms(1) by (simp add: srd_carries_def)
  obtain k where k: "cell_id s = Some k" using assms(5) by (auto simp: m split: option.splits)
  have ab: "able (node_of s)" "early s" using assms(3) by (simp_all add: ready_def)
  show ?thesis
  proof (cases "srd_cell_id p = k")
    case False
    then have "m' = m" "n' = node_of s" using assms(5) by (simp_all add: m k)
    moreover have "ok_message m" by (simp add: m)
    ultimately show ?thesis using forwarded [OF assms(4) _ assms(3)] False assms(2) k
      by (simp add: SRDPacketHandler_def IsValid_def GetCellID_def)
  next
    case own: True
    show ?thesis
    proof (cases "read_reg (srd_reg_addr p) (node_of s)")
      case None
      then have "status (err_text 1) (node_of s) = Some (m', n')" using assms(5) own k by (simp add: m)
      from TransmitError_status [OF this assms(3)] show ?thesis
        using own k assms(2) ReadRegister_node(2) [OF ab None]
        by (simp add: SRDPacketHandler_def IsValid_def GetCellID_def err_codes)
    next
      case (Some t)
      then have m': "m' = MSRS k t" "n' = node_of s" using assms(5) own k by (simp_all add: m status_def)
      obtain b s1 where r: "ReadRegister (srd_reg_addr p) (zeroed kMaxPacketFieldLen) s = Inr (0, b, s1)"
        "value_is b t" "silent s (node_of s) s1"
        using ReadRegister_node(1) [OF ab Some] by blast
      have t: "ok_value t" "ok_message m'" using read_reg_ok [OF ab(1) Some] by (simp_all add: m')
      obtain q where q: "SRSPacket_of_values k b = Inr q" "srs_carries q m'"
        using SRS_of_values [of b t k] r(2) t by (auto simp: value_is_def m')
      have r1: "ready s1" using silent_ready [OF r(3) assms(3) ab(1)] .
      obtain s' where s': "TransmitPacket SRSPacket_ToString q s1 = Inr s'" "replies s1 m' (node_of s1) s'"
        using forwarded [OF srs.formats_as [OF q(2) t(2)] t(2) r1] by blast
      have "SRDPacketHandler p s = Inr s'"
        using own k assms(2) r(1) q(1) s'(1)
        by (simp add: SRDPacketHandler_def IsValid_def GetCellID_def err_codes)
      moreover have "replies s m' n' s'"
        using silent_replies [OF r(3) s'(2)] silentD(1) [OF r(3)] m'(2) by simp
      ultimately show ?thesis by blast
    qed
  qed
qed

section \<open>A line is answered\<close>

text \<open>
  The reply fits: the only reply that may not is a multiple read, which grows at every cell.
\<close>

lemma status_ok: "status t n = Some (m', n') \<Longrightarrow> ok_value t \<Longrightarrow> ok_message m' \<and> n' = n"
  by (auto simp: status_def)

lemma react_ok:
  assumes "react m n = Some (m', n')" "ok_message m" "able n"
    and "\<And>a vs. m' = MMRD a vs \<Longrightarrow> fits a vs"
  shows "ok_message m' \<and> able n'"
proof (cases m)
  case (MMRD a vs)
  then show ?thesis using assms read_reg_ok [OF assms(3)] ok_err_text status_ok
    by (fastforce split: option.splits if_splits)
next
  case (MSRD i a)
  then show ?thesis using assms(1,3) read_reg_ok [OF assms(3)] ok_err_text status_ok
    by (fastforce split: option.splits if_splits)
next
  case (MMWR a v)
  then show ?thesis using assms(1-3) write_reg_able ok_err_text status_ok
    by (fastforce split: option.splits if_splits)
next
  case (MSWR i a v)
  then show ?thesis using assms(1-3) write_reg_able ok_err_text status_ok
    by (fastforce split: option.splits if_splits)
qed (use assms in \<open>auto simp: able_def\<close>)


lemma wire_length_bound: "ok_message m \<Longrightarrow> length (wire m) \<le> 197"
proof -
  assume "ok_message m"
  moreover have "length (hex2 (uint (w :: u8))) = 2" for w by (rule hex2_length) (simp_all add: uint_u8_bound)
  ultimately show ?thesis using contents_length [of m] by (simp add: wire_def frame_def body_def)
qed

lemma ok_value_not: "ok_value v \<Longrightarrow> c \<in> {NUL, CHR ''*'', CHR 0x0A} \<Longrightarrow> c \<notin> set v"
  by (auto simp: ok_value_def)

lemma message_plain:
  assumes "ok_message m" "c \<in> {NUL, CHR ''*'', CHR 0x0A}"
  shows "c \<notin> set (contents m)"
proof -
  have c: "c \<noteq> CHR '',''" "c \<in> {NUL, CHR '','', CHR ''*'', CHR ''$'', CHR 0x0A, CHR 0x0D}"
    using assms(2) by auto
  have n: "c \<notin> set (decimal (uint (i :: u16)))" "c \<notin> set (hex (uint (a :: u32)))" for i a
    by (simp_all only: decimal_plain hex_plain uint_ge_0 c(2) not_False_eq_True)
  show ?thesis
  proof (cases m)
    case (MMRD a vs)
    then have "\<forall>v \<in> set vs. c \<notin> set v" using assms ok_value_not by (auto simp: list_all_iff)
    then show ?thesis using MMRD n c(1) by simp
  qed (use assms n c(1) ok_value_not [OF _ assms(2)] in simp_all)
qed

lemma wire_plain:
  assumes "ok_message m"
  shows "NUL \<notin> set (wire m)" "CHR 0x0A \<notin> set (wire m)"
  using message_plain [OF assms]
  by (simp_all add: wire_def frame_def body_def hex2_plain uint_u8_bound)

lemma buf_line:
  assumes "ok_message m"
  shows "line_text (buf (wire m @ crlf_end)) m crlf_end" "holds (with_rx f (wire m @ crlf_end) s) (wire m @ crlf_end)"
proof -
  have l: "length (wire m @ crlf_end) \<le> 199" "NUL \<notin> set (wire m @ crlf_end)"
    using wire_length_bound [OF assms] wire_plain(1) [OF assms] by (simp_all add: crlf_end_def)
  then show "line_text (buf (wire m @ crlf_end)) m crlf_end"
    using c_string_buf [OF l(2,1)] by (simp add: line_text_def packet_consts crlf_end_def)
  show "holds (with_rx f (wire m @ crlf_end) s) (wire m @ crlf_end)" using l by (intro holds_with_rx)
qed

lemma dispatch_packet_react:
  assumes "uart_rx_buf s = buf (wire m @ crlf_end)" "ok_message m" "ready s"
    and "react m (node_of s) = Some (m', n')" "ok_message m'" "packet_type p = type_of m"
  shows "\<exists>s'. dispatch_packet p s = Inr s' \<and> replies s m' n' s'"
proof -
  have l: "line_text (uart_rx_buf s) m crlf_end" using buf_line(1) [OF assms(2)] assms(1) by simp
  show ?thesis
  proof (cases m)
    case (MDIS i)
    obtain q where q: "DISPacket_of_string (uart_rx_buf s) = Inr q" "is_valid q" "dis_carries q m"
      using dis.forwards [OF l assms(2)] MDIS by auto
    then show ?thesis using DISPacketHandler_react [OF q(3,2) assms(3)] assms(4,6) MDIS
      by (auto simp: dispatch_packet_def GetPacketType_def)
  next
    case (MMRD a vs)
    obtain q where q: "MRDPacket_of_string (uart_rx_buf s) = Inr q" "is_valid q" "mrd_carries q m"
      using mrd.forwards [OF l assms(2)] MMRD by auto
    then show ?thesis
      using MRDPacketHandler_react [OF q(3) MRDPacket_of_string_slots [OF q(1)] q(2) assms(3,5,4)] assms(6) MMRD
      by (auto simp: dispatch_packet_def GetPacketType_def)
  next
    case (MMWR a v)
    obtain q where q: "MWRPacket_of_string (uart_rx_buf s) = Inr q" "is_valid q" "mwr_carries q m"
      "prints MWRPacket_ToString q (wire m)"
      using mwr.forwards [OF l assms(2)] MMWR by auto
    then show ?thesis using MWRPacketHandler_react [OF q(3) assms(2) q(2) assms(3) q(4) assms(4)] assms(6) MMWR
      by (auto simp: dispatch_packet_def GetPacketType_def)
  next
    case (MSRD i a)
    obtain q where q: "SRDPacket_of_string (uart_rx_buf s) = Inr q" "is_valid q" "srd_carries q m"
      "prints SRDPacket_ToString q (wire m)"
      using srd.forwards [OF l assms(2)] MSRD by auto
    then show ?thesis using SRDPacketHandler_react [OF q(3,2) assms(3) q(4) assms(4)] assms(6) MSRD
      by (auto simp: dispatch_packet_def GetPacketType_def)
  next
    case (MSWR i a v)
    obtain q where q: "SWRPacket_of_string (uart_rx_buf s) = Inr q" "is_valid q" "swr_carries q m"
      "prints SWRPacket_ToString q (wire m)"
      using swr.forwards [OF l assms(2)] MSWR by auto
    then show ?thesis using SWRPacketHandler_react [OF q(3) assms(2) q(2) assms(3) q(4) assms(4)] assms(6) MSWR
      by (auto simp: dispatch_packet_def GetPacketType_def)
  next
    case (MSRS i v)
    obtain q where q: "SRSPacket_of_string (uart_rx_buf s) = Inr q" "is_valid q" "srs_carries q m"
      "prints SRSPacket_ToString q (wire m)"
      using srs.forwards [OF l assms(2)] MSRS by auto
    then show ?thesis using SRSPacketHandler_react [OF q(3) assms(2) q(2) assms(3) q(4)] assms(4,6) MSRS
      by (auto simp: dispatch_packet_def GetPacketType_def)
  qed
qed

lemma flushed:
  "replies (with_rx f t s) m n s' \<Longrightarrow> replies (with_rx f [] s) m n (FlushUARTBuf s')"
  by (simp add: replies_def keeps_def)
    (auto simp: FlushUARTBuf_def with_rx_def on_uart_def my_uart_def node_of_def buf_def)

lemma with_rx_ready [simp]: "ready (with_rx f t s) = ready s" "node_of (with_rx f t s) = node_of s"
  by (simp_all add: ready_def early_def time_us_32_def node_of_def)
    (simp add: with_rx_def on_uart_def my_uart_def)

lemma process_comms_react:
  assumes "holds s []" "rx_fifo (my_uart s) = map of_char (wire m @ crlf_end) @ f"
    and "ok_message m" "ready s" "react m (node_of s) = Some (m', n')" "ok_message m'"
  shows "\<exists>s'. process_comms s = Inr s' \<and> replies (with_rx f [] s) m' n' s'"
proof -
  let ?t = "wire m @ crlf_end"
  define s1 where "s1 = with_rx f ?t s"
  have "ReceivePacket s = Inr (of_nat (length ?t), s1)"
    using ReceivePacket_line [OF assms(1), of "wire m @ [CHR 0x0D]" f] assms(2)
      wire_plain [OF assms(3)] wire_length_bound [OF assms(3)]
    by (simp add: crlf_end_def s1_def)
  moreover have "of_nat (length ?t) \<noteq> (0 :: u16)"
  proof
    assume "of_nat (length ?t) = (0 :: u16)"
    then have "unat (of_nat (length ?t) :: u16) = 0" by simp
    then show False using wire_length_bound [OF assms(3)] small_u16 [of "length ?t"] by (simp add: crlf_end_def)
  qed
  moreover have r1: "ready s1" "node_of s1 = node_of s" using assms(4) by (simp_all add: s1_def)
  moreover obtain d where d: "TurnOnStatusLED 10 s1 = Inr (led_lit d s1)"
    using blink [of s1 10] r1 by (auto simp: ready_def)
  moreover
  note sil = silent_led_lit [of s1 d]
  have b2: "uart_rx_buf (led_lit d s1) = buf ?t" using silentD(5) [OF sil] by (simp add: s1_def)
  have r2: "ready (led_lit d s1)" "node_of (led_lit d s1) = node_of s"
    using silent_ready [OF sil r1(1)] silentD(1) [OF sil] r1 by (simp_all add: ready_def)
  moreover have "\<exists>p. BSPacket_of_string (uart_rx_buf (led_lit d s1)) = Inr p \<and> is_valid p \<and> packet_type p = type_of m"
  proof -
    have "CHR ''*'' \<notin> set (contents m)" using message_plain [OF assms(3)] by simp
    from base_step [OF buf_line(1) [OF assms(3)] _ this,
        of "\<lparr>packet_str = uninit kMaxPacketLen, is_valid = False, packet_type = UNKNOWN\<rparr>"]
    show ?thesis by (simp add: BSPacket_of_string_def b2)
  qed
  then obtain p where p: "BSPacket_of_string (uart_rx_buf (led_lit d s1)) = Inr p" "is_valid p"
    "packet_type p = type_of m" by blast
  moreover obtain s3 where s3: "dispatch_packet p (led_lit d s1) = Inr s3" "replies (led_lit d s1) m' n' s3"
    using dispatch_packet_react [OF b2 assms(3) r2(1) _ assms(6) p(3)] r2(2) assms(5) by auto
  ultimately have "process_comms s = Inr (FlushUARTBuf s3)"
    by (simp add: process_comms_def kPacketReceivedBlinkTimeMs_def IsValid_def)
  moreover have "replies s1 m' n' s3" using silent_replies [OF sil s3(2)] .
  then have "replies (with_rx f [] s) m' n' (FlushUARTBuf s3)" unfolding s1_def by (rule flushed)
  ultimately show ?thesis by blast
qed

end
