(* ===== verification/Cell.thy ===== *)
theory Cell
  imports Node
begin

text \<open>
  The cell as a state machine: what one call of \<open>SCBS::Update\<close> does, the invariant that holds
  whatever bytes arrive, and the runs of the main loop.
\<close>

unbundle bit_operations_syntax

section \<open>The safe states\<close>

definition duty_level :: "scbs \<Rightarrow> u16" where
  "duty_level s = chan_level (pwm_gpio_to_slice_num (unat (pwm_pin (config s)))) (pwm_channel (config s)) (pwm s)"

text \<open>The voltage is within the rails and the PWM level within the counter's range.\<close>

definition railed :: "scbs \<Rightarrow> bool" where
  "railed s \<longleftrightarrow> fp_finite (output_voltage s) \<and> 0 \<le> fp_val (output_voltage s) \<and>
     fp_val (output_voltage s) \<le> 9 / 2 \<and> unat (duty_level s) \<le> 1000"

text \<open>
  The receive buffer holds a terminated text, no longer than the number of characters counted;
  a received null byte is counted and does not lengthen the text.
\<close>

definition buffered :: "scbs \<Rightarrow> bool" where
  "buffered s \<longleftrightarrow> (\<exists>t. uart_rx_buf s = buf t \<and> NUL \<notin> set t \<and> length t \<le> unat (uart_rx_buf_len s))
     \<and> unat (uart_rx_buf_len s) \<le> 199"

definition metered :: "scbs \<Rightarrow> bool" where
  "metered s \<longleftrightarrow> csense_adc_input (config s) < 8 \<and> inside 0 200 (output_current s)"

definition safe :: "scbs \<Rightarrow> bool" where
  "safe s \<longleftrightarrow> railed s \<and> buffered s \<and> metered s"

lemma railed_able: "railed s \<Longrightarrow> metered s \<Longrightarrow> able (node_of s)"
  by (auto simp: railed_def metered_def able_def printable_def inside_def)

section \<open>Operations keep the rails\<close>

text \<open>What an operation may do to the state, whatever packet it handles.\<close>

definition lawful :: "scbs \<Rightarrow> scbs \<Rightarrow> bool" where
  "lawful s s' \<longleftrightarrow> config s' = config s \<and> uart_rx_buf s' = uart_rx_buf s \<and>
     uart_rx_buf_len s' = uart_rx_buf_len s \<and> output_current s' = output_current s \<and>
     (railed s \<longrightarrow> railed s')"

lemma lawful_refl [simp]: "lawful s s"
  by (simp add: lawful_def)

lemma lawful_trans: "lawful s s' \<Longrightarrow> lawful s' s'' \<Longrightarrow> lawful s s''"
  by (auto simp: lawful_def)

lemma lawful_uart [simp]: "lawful s (set_my_uart u s)"
  by (simp add: lawful_def set_my_uart_def on_uart_def railed_def duty_level_def)

lemma lawful_cell_id [simp]: "lawful s (s\<lparr>cell_id := i\<rparr>)"
  by (simp add: lawful_def railed_def duty_level_def)

lemma lawful_led_lit [simp]: "lawful s (led_lit d s)"
  by (simp add: lawful_def led_lit_def on_gpio_def railed_def duty_level_def)

lemma lawful_set_voltage:
  assumes "v \<noteq> NaN" "unat d \<le> 1000"
  shows "lawful s (set_level d s\<lparr>output_voltage := clamp_output v\<rparr>)"
  using clamp_output_range [OF assms(1)] assms(2)
  by (simp add: lawful_def set_level_def on_pwm_def railed_def duty_level_def chan_level_set)

named_theorems lawfulD \<open>operations that keep the rails\<close>

lemma TurnOnStatusLED_lawful [lawfulD]: "TurnOnStatusLED ms s = Inr s' \<Longrightarrow> lawful s s'"
  by (auto simp: TurnOnStatusLED_result split: if_splits)

lemma TransmitPacket_lawful [lawfulD]: "TransmitPacket f p s = Inr s' \<Longrightarrow> lawful s s'"
  by (auto simp: TransmitPacket_def elim!: rbind_eq_InrE)

lemma TransmitError_lawful [lawfulD]: "TransmitError e s = Inr s' \<Longrightarrow> lawful s s'"
  by (auto simp: TransmitError_def elim!: rbind_eq_InrE dest!: lawfulD)

lemma WriteRegister_lawful [lawfulD]:
  assumes "WriteRegister a b s = Inr (e, s')"
  shows "lawful s s'"
proof (cases "a = kRegAddrSetOutputVoltage")
  case True
  then obtain t v s1 where "SetOutputVoltage (strtof t) s = Inr (v, s1)"
    "TurnOnStatusLED kRegisterWriteBlinkTimeMs (s1\<lparr>output_voltage := v\<rparr>) = Inr s'"
    using assms by (auto simp: WriteRegister_def elim!: rbind_eq_InrE)
  moreover from this have nan: "strtof t \<noteq> NaN" by (auto simp: SetOutputVoltage_NaN)
  moreover obtain d where "SetOutputVoltage (strtof t) s = Inr (clamp_output (strtof t), set_level d s)"
    "unat d \<le> 1000"
    using SetOutputVoltage_defined [OF nan] by metis
  ultimately show ?thesis
    using lawful_trans [OF lawful_set_voltage TurnOnStatusLED_lawful] by auto
next
  case False
  then show ?thesis using assms by (auto simp: WriteRegister_def split: if_splits)
qed

lemma ReadRegister_lawful [lawfulD]:
  "ReadRegister a b s = Inr (e, c, s') \<Longrightarrow> lawful s s'"
  by (auto simp: ReadRegister_def Let_def elim!: rbind_eq_InrE dest!: lawfulD split: if_splits)

lemma DISPacketHandler_lawful [lawfulD]: "DISPacketHandler p s = Inr s' \<Longrightarrow> lawful s s'"
  by (auto simp: DISPacketHandler_def Let_def elim!: rbind_eq_InrE split: if_splits
      dest!: lawfulD intro: lawful_trans [OF lawful_cell_id])

lemma MWRPacketHandler_lawful [lawfulD]: "MWRPacketHandler p s = Inr s' \<Longrightarrow> lawful s s'"
  by (auto simp: MWRPacketHandler_def elim!: rbind_eq_InrE split: if_splits
      dest!: lawfulD intro: lawful_trans)

lemma MRDPacketHandler_lawful [lawfulD]: "MRDPacketHandler p s = Inr s' \<Longrightarrow> lawful s s'"
  by (auto simp: MRDPacketHandler_def Let_def elim!: rbind_eq_InrE split: if_splits
      dest!: lawfulD intro: lawful_trans)

lemma SWRPacketHandler_lawful [lawfulD]: "SWRPacketHandler p s = Inr s' \<Longrightarrow> lawful s s'"
  by (auto simp: SWRPacketHandler_def elim!: rbind_eq_InrE split: if_splits
      dest!: lawfulD intro: lawful_trans)

lemma SRDPacketHandler_lawful [lawfulD]: "SRDPacketHandler p s = Inr s' \<Longrightarrow> lawful s s'"
  by (auto simp: SRDPacketHandler_def elim!: rbind_eq_InrE split: if_splits
      dest!: lawfulD; blast intro: lawful_trans)

lemma SRSPacketHandler_lawful [lawfulD]: "SRSPacketHandler p s = Inr s' \<Longrightarrow> lawful s s'"
  by (auto simp: SRSPacketHandler_def split: if_splits dest!: lawfulD)

lemma dispatch_packet_lawful [lawfulD]: "dispatch_packet p s = Inr s' \<Longrightarrow> lawful s s'"
  by (auto simp: dispatch_packet_def Let_def elim!: rbind_eq_InrE split: packet_type.splits dest!: lawfulD)


section \<open>Reception keeps the buffer\<close>

text \<open>What reception may do: the buffer, the count and the input change, nothing else.\<close>

definition same_but_rx :: "scbs \<Rightarrow> scbs \<Rightarrow> bool" where
  "same_but_rx s s' \<longleftrightarrow> config s' = config s \<and> pwm s' = pwm s \<and> adc s' = adc s \<and>
     output_voltage s' = output_voltage s \<and> output_current s' = output_current s \<and>
     cell_id s' = cell_id s \<and> now_us s' = now_us s \<and> gpio s' = gpio s"

lemma same_but_rx_trans: "same_but_rx s s' \<Longrightarrow> same_but_rx s' s'' \<Longrightarrow> same_but_rx s s''"
  by (simp add: same_but_rx_def)

lemma same_but_rx_set_my_uart [simp]: "same_but_rx s (set_my_uart u s)"
  by (simp add: same_but_rx_def set_my_uart_def on_uart_def)

lemma same_but_rx_railed: "same_but_rx s s' \<Longrightarrow> railed s' = railed s \<and> metered s' = metered s"
  by (simp add: same_but_rx_def railed_def metered_def duty_level_def)

lemma append_any:
  assumes "buffered s" "unat (uart_rx_buf_len s) < 199"
  shows "\<exists>s'. AppendCharToUARTBuf c s = Inr s' \<and> buffered s' \<and> same_but_rx s s' \<and> uart_rx_buf_len s' \<noteq> 0"
proof -
  obtain t where t: "uart_rx_buf s = buf t" "NUL \<notin> set t" "length t \<le> unat (uart_rx_buf_len s)"
    using assms(1) by (auto simp: buffered_def)
  have n: "unat (uart_rx_buf_len s + 1) = Suc (unat (uart_rx_buf_len s))"
    using assms(2) unat_word_ariths(1) [of "uart_rx_buf_len s" 1] by simp
  have "\<exists>t'. strncat (buf t) [Some c] 1 = Inr (buf t') \<and> NUL \<notin> set t' \<and> length t' \<le> Suc (length t)"
  proof (cases "c = NUL")
    case True
    have "strncat (buf t) [Some c] 1 = append_string (buf t) []" using True by (simp add: strncat_def numeral_eq_Suc)
    moreover have "append_string (buf t) [] = Inr (buf t)"
    proof -
      have "drop (Suc (length t)) (buf t) = zeroed (199 - length t)" "200 - length t = Suc (199 - length t)"
        using t(3) assms(2) by (simp_all add: buf_def zeroed_def kMaxUARTBufLen_def)
      then show ?thesis using t(2,3) assms(2) c_string_buf [of t]
        by (simp add: append_string_def buf_def kMaxUARTBufLen_def zeroed_def)
    qed
    ultimately show ?thesis using t(2) by (intro exI [of _ t]) simp
  next
    case False
    then show ?thesis using append_buf [of t c] t assms(2) by (intro exI [of _ "t @ [c]"]) auto
  qed
  then obtain t' where t': "strncat (buf t) [Some c] 1 = Inr (buf t')" "NUL \<notin> set t'"
    "length t' \<le> Suc (length t)" by blast
  have "uart_rx_buf_len s + 1 \<noteq> 0" using n by auto
  then show ?thesis
    using t t' n assms(2) by (auto simp: AppendCharToUARTBuf_def buffered_def same_but_rx_def intro: exI [of _ t'])
qed

lemma buffered_text:
  assumes "buffered s"
  obtains t where "c_string (uart_rx_buf s) = Inr t" "length t \<le> 199"
  using assms c_string_buf by (fastforce simp: buffered_def)

lemma buffered_set_my_uart [simp]: "buffered (set_my_uart u s) = buffered s"
  "uart_rx_buf_len (set_my_uart u s) = uart_rx_buf_len s"
  by (simp_all add: buffered_def set_my_uart_def on_uart_def)

text \<open>Whatever bytes are waiting, reception returns and stays in its buffer.\<close>

lemma uart_getc_readable:
  "rx_fifo u \<noteq> [] \<Longrightarrow> \<exists>c u'. uart_getc u = Inr (c, u')"
  by (cases "rx_fifo u") (auto simp: uart_getc_def numeral_eq_Suc)

lemma ReceivePacket_buffered:
  "buffered s \<Longrightarrow> \<exists>n s'. ReceivePacket s = Inr (n, s') \<and> buffered s' \<and> same_but_rx s s'"
proof (induction s rule: ReceivePacket.induct)
  case (1 s)
  show ?case
  proof (cases "uart_is_readable (my_uart s) \<and> unat (uart_rx_buf_len s) < kMaxUARTBufLen - 1")
    case False
    then have "ReceivePacket s = Inr (0, s)" by (subst ReceivePacket.simps) (simp only: if_False)
    then show ?thesis using 1(3) by (simp add: same_but_rx_def)
  next
    case True
    then obtain c u where g: "uart_getc (my_uart s) = Inr (c, u)"
      using uart_getc_readable [of "my_uart s"] by (auto simp: reg_simps)
    have l: "unat (uart_rx_buf_len s) < 199" using True by (simp add: kMaxUARTBufLen_def)
    let ?s1 = "set_my_uart u s"
    obtain s2 where a: "AppendCharToUARTBuf c ?s1 = Inr s2" "buffered s2" "same_but_rx ?s1 s2"
      using append_any [of ?s1 c] 1(3) l by auto
    have s2: "same_but_rx s s2" using same_but_rx_trans [OF same_but_rx_set_my_uart a(3)] .
    obtain t where t: "c_string (uart_rx_buf s2) = Inr t" using buffered_text [OF a(2)] by metis
    show ?thesis
    proof (cases "c = CHR 0x0A")
      case nl: True
      have "ReceivePacket s = Inr (of_nat (length t), s2)"
        using True g a(1) t nl by (subst ReceivePacket.simps) (simp add: strlen_def)
      then show ?thesis using a(2) s2 by simp
    next
      case False
      have "ReceivePacket s = ReceivePacket s2"
        using True g a(1) False l by (subst ReceivePacket.simps) (simp add: kMaxUARTBufLen_def)
      moreover have "\<exists>n s'. ReceivePacket s2 = Inr (n, s') \<and> buffered s' \<and> same_but_rx s2 s'"
        using 1(2) [OF True g refl refl False _ a(1,2)] l by (simp add: kMaxUARTBufLen_def)
      ultimately show ?thesis using same_but_rx_trans [OF s2] by auto
    qed
  qed
qed


section \<open>One update\<close>

lemma lawful_safe: "lawful s s' \<Longrightarrow> safe s \<Longrightarrow> safe s'"
  by (simp add: lawful_def safe_def buffered_def metered_def)

lemma buffered_flush: "safe s \<Longrightarrow> safe (FlushUARTBuf s)"
  by (auto simp: safe_def buffered_def FlushUARTBuf_def railed_def metered_def duty_level_def buf_def
      intro: exI [of _ "[]"])

lemma process_comms_safe:
  assumes "safe s" "process_comms s = Inr s'"
  shows "safe s'"
proof -
  obtain n s1 where r: "ReceivePacket s = Inr (n, s1)" "buffered s1" "same_but_rx s s1"
    using ReceivePacket_buffered [of s] assms(1) by (auto simp: safe_def)
  have s1: "safe s1" using r assms(1) same_but_rx_railed by (simp add: safe_def)
  show ?thesis
  proof (cases "n = 0")
    case True
    then show ?thesis using assms(2) r(1) s1 by (simp add: process_comms_def)
  next
    case False
    then obtain s2 p s3 where "TurnOnStatusLED kPacketReceivedBlinkTimeMs s1 = Inr s2"
      "(if IsValid p then dispatch_packet p s2 else Inr s2) = Inr s3" "s' = FlushUARTBuf s3"
      using assms(2) r(1) by (auto simp: process_comms_def elim!: rbind_eq_InrE)
    then have "lawful s1 s2" "lawful s2 s3" by (auto dest: lawfulD split: if_splits)
    then show ?thesis using lawful_safe s1 buffered_flush \<open>s' = FlushUARTBuf s3\<close> by blast
  qed
qed

definition amps_read :: "scbs \<Rightarrow> fp" where
  "amps_read s = current_of (analog (adc s) (unat (csense_adc_input (config s))) AND 0xfff)"

lemma amps_range: "inside 0 200 (amps_read s)"
proof -
  let ?c = "analog (adc s) (unat (csense_adc_input (config s))) AND 0xfff"
  have "?c \<le> 0xfff" by (rule word_and_le1)
  then have "uint ?c \<le> 4095" by (simp add: word_le_def)
  then have "0 \<le> uint ?c" "uint ?c \<le> 4096" by simp_all
  then have "(of_int 0 :: rat) \<le> of_int (uint ?c)" "(of_int (uint ?c) :: rat) \<le> of_int 4096"
    unfolding of_int_le_iff .
  then have "0 \<le> fp_val (current_of ?c)" "fp_val (current_of ?c) \<le> 200"
    unfolding current_value(2) by simp_all
  then show ?thesis using current_value [of ?c] by (simp add: inside_def amps_read_def)
qed

lemma update_led_state [simp]:
  "config (update_led s) = config s" "uarts (update_led s) = uarts s" "pwm (update_led s) = pwm s"
  "uart_rx_buf (update_led s) = uart_rx_buf s" "uart_rx_buf_len (update_led s) = uart_rx_buf_len s"
  "cell_id (update_led s) = cell_id s" "output_voltage (update_led s) = output_voltage s"
  "output_current (update_led s) = output_current s" "now_us (update_led s) = now_us s"
  by (simp_all add: update_led_def on_gpio_def)

lemma ReadOutputCurrent_state [simp]:
  "config (ReadOutputCurrent s) = config s" "uarts (ReadOutputCurrent s) = uarts s"
  "pwm (ReadOutputCurrent s) = pwm s" "uart_rx_buf (ReadOutputCurrent s) = uart_rx_buf s"
  "uart_rx_buf_len (ReadOutputCurrent s) = uart_rx_buf_len s"
  "cell_id (ReadOutputCurrent s) = cell_id s" "output_voltage (ReadOutputCurrent s) = output_voltage s"
  "now_us (ReadOutputCurrent s) = now_us s"
  by (simp_all add: ReadOutputCurrent_def on_adc_def Let_def split: prod.splits)

text \<open>The second half of an update: the outputs are set again and the current is read.\<close>

definition refreshed :: "scbs \<Rightarrow> scbs \<Rightarrow> bool" where
  "refreshed s s' \<longleftrightarrow> config s' = config s \<and> uarts s' = uarts s \<and> uart_rx_buf s' = uart_rx_buf s \<and>
     uart_rx_buf_len s' = uart_rx_buf_len s \<and> cell_id s' = cell_id s \<and> now_us s' = now_us s \<and>
     output_voltage s' = output_voltage s \<and> output_current s' = amps_read s \<and>
     unat (duty_level s') \<le> 1000"

lemma SCBS_Update_refreshes:
  assumes "process_comms s = Inr s1" "output_voltage s1 \<noteq> NaN" "csense_adc_input (config s1) < 8"
  shows "\<exists>s'. SCBS_Update s = Inr s' \<and> refreshed s1 s'"
proof -
  obtain d where d: "SetOutputVoltage (output_voltage s1) s1 = Inr (clamp_output (output_voltage s1), set_level d s1)"
    "unat d \<le> 1000" using SetOutputVoltage_defined [OF assms(2)] by metis
  let ?s = "update_led (ReadOutputCurrent (set_level d s1))"
  have "output_current (ReadOutputCurrent (set_level d s1)) = amps_read s1"
    using ReadOutputCurrent_value [of "set_level d s1"] assms(3)
    by (simp add: set_level_def on_pwm_def amps_read_def)
  then have "refreshed s1 ?s"
    using d(2) by (simp add: refreshed_def duty_level_def)
      (simp add: set_level_def on_pwm_def chan_level_set)
  moreover have "SCBS_Update s = Inr ?s" using assms(1) d(1) by (simp add: SCBS_Update_def)
  ultimately show ?thesis by blast
qed

lemma refreshed_safe: "refreshed s s' \<Longrightarrow> safe s \<Longrightarrow> safe s'"
  by (simp add: refreshed_def safe_def railed_def buffered_def metered_def amps_range)

lemma safe_update_args: "safe s \<Longrightarrow> output_voltage s \<noteq> NaN \<and> csense_adc_input (config s) < 8"
  by (auto simp: safe_def railed_def metered_def)

lemma Update_safe:
  assumes "safe s" "SCBS_Update s = Inr s'"
  shows "safe s'"
proof -
  obtain s1 where s1: "process_comms s = Inr s1" using assms(2) by (auto simp: SCBS_Update_def elim!: rbind_eq_InrE)
  have "safe s1" using process_comms_safe [OF assms(1) s1] .
  then show ?thesis
    using SCBS_Update_refreshes [OF s1] refreshed_safe safe_update_args assms(2) by fastforce
qed

section \<open>Reachable states\<close>

text \<open>
  Between two updates a byte may arrive, the transmitter may shift out, time passes and the
  analog inputs change. Runs start after \<open>SCBS::Init\<close> on a machine in any state.
\<close>

inductive cell_step :: "scbs \<Rightarrow> scbs \<Rightarrow> bool" where
  arrive: "cell_step s (on_uart (\<lambda>u. u\<lparr>rx_fifo := rx_fifo u @ [b]\<rparr>) s)"
| shift: "cell_step s (on_uart shift_out s)"
| tick: "cell_step s (s\<lparr>now_us := now_us s + d\<rparr>)"
| sample: "cell_step s (s\<lparr>adc := (adc s)\<lparr>analog := f\<rparr>\<rparr>)"
| update: "SCBS_Update s = Inr s' \<Longrightarrow> cell_step s s'"

inductive reachable :: "scbs \<Rightarrow> bool" where
  init: "SCBS_Init (SCBS_new default_config m) = Inr s \<Longrightarrow> reachable s"
| step: "reachable s \<Longrightarrow> cell_step s s' \<Longrightarrow> reachable s'"

lemma Init_safe:
  assumes "SCBS_Init (SCBS_new default_config m) = Inr s"
  shows "safe s"
proof -
  have d: "chan_level 0 0 (pwm_set_enabled 0 True p) = chan_level 0 0 p" for p
    by (simp add: pwm_set_enabled_def chan_level_def on_slice_def)
  have "uart_rx_buf s = buf []" "uart_rx_buf_len s = 0" "output_voltage s = Zero False"
    "output_current s = Zero False" "csense_adc_input (config s) = 2" "duty_level s = 0"
    using assms
    by (auto simp: SCBS_Init_def Let_def SCBS_new_def default_config_def machine.defs scbs.defs
        on_gpio_def on_pwm_def on_adc_def set_my_uart_def on_uart_def sleep_ms_def duty_level_def buf_def
        pwm_gpio_to_slice_num_def chan_level_set d kPWMDefaultDuty_def elim!: rbind_eq_InrE)
  then show ?thesis
    by (auto simp: safe_def railed_def buffered_def metered_def inside_def intro: exI [of _ "[]"])
qed

lemma cell_step_safe:
  assumes "cell_step s s'" "safe s"
  shows "safe s'"
  using assms
proof cases
  case update
  then show ?thesis using Update_safe assms(2) by blast
qed (use assms(2) in \<open>simp_all add: safe_def railed_def buffered_def metered_def duty_level_def on_uart_def\<close>)

lemma reachable_safe: "reachable s \<Longrightarrow> safe s"
  by (induction rule: reachable.induct) (auto intro: Init_safe cell_step_safe)


section \<open>A message is answered\<close>

lemma rx_with_rx [simp]: "sent (my_uart (with_rx f t s)) = sent (my_uart s)"
  "amps_read (with_rx f t s) = amps_read s"
  by (simp_all add: with_rx_def on_uart_def my_uart_def sent_def amps_read_def)

lemma SCBS_Update_after:
  assumes "safe s" "process_comms s = Inr s1" "keeps (with_rx f [] s) s1"
  shows "\<exists>s'. SCBS_Update s = Inr s' \<and> node_of s' = (node_of s1)\<lparr>amps := amps_read s\<rparr> \<and>
    my_uart s' = my_uart s1 \<and> holds s' [] \<and> rx_fifo (my_uart s') = f \<and> safe s'"
proof -
  have safe1: "safe s1" using process_comms_safe [OF assms(1,2)] .
  obtain s' where s': "SCBS_Update s = Inr s'" "refreshed s1 s'"
    using SCBS_Update_refreshes [OF assms(2)] safe_update_args [OF safe1] by blast
  have u: "my_uart s' = my_uart s1" using s'(2) by (simp add: refreshed_def my_uart_def)
  have "amps_read s1 = amps_read s"
    using assms(3) by (simp add: keeps_def amps_read_def with_rx_def on_uart_def)
  then have "node_of s' = (node_of s1)\<lparr>amps := amps_read s\<rparr>"
    using s'(2) by (simp add: refreshed_def node_of_def)
  moreover have "holds s' []" using assms(3) s'(2) by (simp add: holds_def keeps_def refreshed_def)
  moreover have "rx_fifo (my_uart s') = f"
    using assms(3) same_configD(1) [of "my_uart (with_rx f [] s)" "my_uart s1"] by (simp add: u keeps_def)
  ultimately show ?thesis using s'(1) u refreshed_safe [OF s'(2) safe1] by auto
qed

lemma SCBS_Update_reacts:
  assumes "safe s" "ready s" "holds s []" "rx_fifo (my_uart s) = map of_char (wire m @ crlf_end) @ f"
    and "ok_message m" "react m (node_of s) = Some (m', n')" "ok_message m'"
  shows "\<exists>s'. SCBS_Update s = Inr s' \<and> node_of s' = n'\<lparr>amps := amps_read s\<rparr> \<and>
    sent (my_uart s') = sent (my_uart s) @ map of_char (wire m' @ crlf_end) \<and>
    holds s' [] \<and> rx_fifo (my_uart s') = f \<and> safe s'"
proof -
  obtain s1 where s1: "process_comms s = Inr s1" "replies (with_rx f [] s) m' n' s1"
    using process_comms_react [OF assms(3,4,5,2,6,7)] by blast
  then show ?thesis using SCBS_Update_after [OF assms(1) s1(1), of f] by (auto simp: replies_def)
qed

text \<open>Nothing waiting: the update sends nothing, and cannot fault.\<close>

lemma process_comms_idle: "rx_fifo (my_uart s) = [] \<Longrightarrow> process_comms s = Inr s"
  by (simp add: process_comms_def ReceivePacket_empty)

lemma SCBS_Update_idle:
  assumes "safe s" "rx_fifo (my_uart s) = []"
  shows "\<exists>s'. SCBS_Update s = Inr s' \<and> my_uart s' = my_uart s \<and>
    node_of s' = (node_of s)\<lparr>amps := amps_read s\<rparr> \<and> safe s'"
proof -
  obtain s' where s': "SCBS_Update s = Inr s'" "refreshed s s'"
    using SCBS_Update_refreshes [OF process_comms_idle [OF assms(2)]] safe_update_args [OF assms(1)] by blast
  then show ?thesis using refreshed_safe [OF s'(2) assms(1)]
    by (auto simp: refreshed_def my_uart_def node_of_def)
qed

text \<open>A deaf cell: once 199 characters have come without a line end, no update listens again.\<close>

lemma SCBS_Update_deaf:
  assumes "safe s" "unat (uart_rx_buf_len s) = 199"
  shows "\<exists>s'. SCBS_Update s = Inr s' \<and> unat (uart_rx_buf_len s') = 199 \<and> my_uart s' = my_uart s
    \<and> cell_id s' = cell_id s \<and> output_voltage s' = output_voltage s \<and> safe s'"
proof -
  have "process_comms s = Inr s" using assms(2) by (simp add: process_comms_def ReceivePacket_deaf)
  then obtain s' where s': "SCBS_Update s = Inr s'" "refreshed s s'"
    using SCBS_Update_refreshes safe_update_args [OF assms(1)] by blast
  then show ?thesis using refreshed_safe [OF s'(2) assms(1)] assms(2)
    by (auto simp: refreshed_def my_uart_def)
qed

lemma deaf_for_ever:
  assumes "safe s" "unat (uart_rx_buf_len s) = 199" "cell_step\<^sup>*\<^sup>* s s'"
  shows "unat (uart_rx_buf_len s') = 199 \<and> cell_id s' = cell_id s \<and>
    output_voltage s' = output_voltage s \<and> sent (my_uart s') = sent (my_uart s)"
proof -
  have "safe s' \<and> unat (uart_rx_buf_len s') = 199 \<and> cell_id s' = cell_id s \<and>
    output_voltage s' = output_voltage s \<and> sent (my_uart s') = sent (my_uart s)"
    using assms(3)
  proof (induction rule: rtranclp_induct)
    case base
    then show ?case using assms by simp
  next
    case (step y z)
    have "sent (my_uart z) = sent (my_uart y) \<and> unat (uart_rx_buf_len z) = 199 \<and>
        cell_id z = cell_id y \<and> output_voltage z = output_voltage y"
      using step(2)
    proof cases
      case update
      then show ?thesis using SCBS_Update_deaf [of y] step(3) by auto
    qed (use step(3) in \<open>simp_all add: my_uart_def on_uart_def sent_def shift_out_def\<close>)
    then show ?case using cell_step_safe [OF step(2)] step(3) by simp
  qed
  then show ?thesis by simp
qed

section \<open>A damaged line is dropped\<close>

lemma BSPacket_FromString_mismatch:
  assumes "c_string b = Inr s" "length s < kMaxPacketLen" "length (packet_str p) = kMaxPacketLen"
    and "CHR ''*'' \<in> set s \<Longrightarrow> checksum_text (checked_part s) \<noteq> transmitted_checksum s"
  shows "\<exists>p'. BSPacket_FromString b p = Inr p' \<and> \<not> is_valid p'"
proof -
  obtain r where b: "b = map Some s @ Some NUL # r" "NUL \<notin> set s" using assms(1) by (rule c_stringE)
  define ps where "ps = map Some s @ zeroed (kMaxPacketLen - length s)"
  have cp: "strncpy (packet_str p) b (int kMaxPacketLen) = Inr ps"
    using assms(2,3) b by (simp add: strncpy_pad ps_def)
  have cps: "c_string ps = Inr s" using assms(2) b by (simp add: ps_def c_string_zeroed)
  let ?p1 = "p\<lparr>is_valid := False, packet_str := ps\<rparr>"
  have ck: "CalculateChecksum ?p1 = Inr (checksum_text (checked_part s))"
    using cps assms(2) by (intro CalculateChecksum_text) simp_all
  show ?thesis
  proof (cases "strchr CHR ''*'' s")
    case None
    then show ?thesis using cp cps by (simp add: BSPacket_FromString_def Let_def)
  next
    case (Some e)
    then have "CHR ''*'' \<in> set s" by (metis option.distinct(1) strchr_None)
    then show ?thesis using assms(4) cp cps ck Some
      by (simp add: BSPacket_FromString_def Let_def transmitted_checksum_def)
  qed
qed

lemma process_comms_dropped:
  assumes "holds s []" "rx_fifo (my_uart s) = map of_char (cs @ [CHR 0x0A]) @ f"
    and "NUL \<notin> set cs" "CHR 0x0A \<notin> set cs" "length cs < 199" "early s"
    and "CHR ''*'' \<in> set cs \<Longrightarrow>
      checksum_text (checked_part (cs @ [CHR 0x0A])) \<noteq> transmitted_checksum (cs @ [CHR 0x0A])"
  shows "\<exists>s'. process_comms s = Inr s' \<and> silent (with_rx f [] s) (node_of s) s'"
proof -
  let ?t = "cs @ [CHR 0x0A]"
  define s1 where "s1 = with_rx f ?t s"
  have r: "ReceivePacket s = Inr (of_nat (length ?t), s1)"
    using ReceivePacket_line [OF assms(1,2)] assms(3-5) by (simp add: s1_def)
  have nz: "of_nat (length ?t) \<noteq> (0 :: u16)"
  proof
    assume "of_nat (length ?t) = (0 :: u16)"
    then have "unat (of_nat (length ?t) :: u16) = 0" by simp
    then show False using assms(5) small_u16 [of "length ?t"] by simp
  qed
  have "early s1" using assms(6) by (simp add: s1_def early_def time_us_32_def)
  then obtain d where d: "TurnOnStatusLED 10 s1 = Inr (led_lit d s1)" using blink [of s1 10] by auto
  note sil = silent_led_lit [of s1 d]
  have b2: "uart_rx_buf (led_lit d s1) = buf ?t" using silentD(5) [OF sil] by (simp add: s1_def)
  have c: "c_string (buf ?t) = Inr ?t" using assms(3,5) by (intro c_string_buf) auto
  obtain p where p: "BSPacket_of_string (buf ?t) = Inr p" "\<not> is_valid p"
    using BSPacket_FromString_mismatch [OF c, of "\<lparr>packet_str = uninit kMaxPacketLen, is_valid = False, packet_type = UNKNOWN\<rparr>"]
      assms(5,7) by (auto simp: BSPacket_of_string_def packet_consts)
  have "process_comms s = Inr (FlushUARTBuf (led_lit d s1))"
    using r nz d p b2 by (simp add: process_comms_def kPacketReceivedBlinkTimeMs_def IsValid_def)
  moreover have "silent (with_rx f [] s) (node_of s) (FlushUARTBuf (led_lit d s1))"
    using sil unfolding s1_def silent_def keeps_def
    by (auto simp: FlushUARTBuf_def with_rx_def on_uart_def my_uart_def node_of_def buf_def)
  ultimately show ?thesis by blast
qed


text \<open>A frame whose body has been replaced by \<open>b\<close>, with the checksum \<open>v\<close> still in place.\<close>

lemma framed_parts:
  assumes "CHR ''*'' \<notin> set b" "tail_ok r"
  shows "checked_part (CHR ''$'' # b @ CHR ''*'' # hex2 (uint v) @ r) = b"
    "transmitted_checksum (CHR ''$'' # b @ CHR ''*'' # hex2 (uint v) @ r) = (v :: u8)"
proof -
  let ?s = "CHR ''$'' # b @ CHR ''*'' # hex2 (uint v) @ r"
  have sc: "strchr CHR ''*'' ?s = Some (Suc (length b))"
    using assms(1) strchr_append [of "CHR ''*''" "CHR ''$'' # b"] by simp
  then show "checked_part ?s = b" by (simp add: checked_part_def)
  have "hex2 (uint v) \<noteq> []" by (simp add: hex2_def)
  then have "strtol (hex2 (uint v) @ r) 16 = uint v"
    using strtol_digits [of "hex2 (uint v)" r] assms(2) uint_u8_bound [of v]
    by (simp add: all_digits_hex2 hex2_value)
  then show "transmitted_checksum ?s = v" unfolding transmitted_checksum_def sc by simp
qed

definition damaged :: "message \<Rightarrow> nat \<Rightarrow> char \<Rightarrow> char list" where
  "damaged m i y = (wire m)[Suc i := y]"

lemma damaged_parts:
  assumes "i < length (body (type_of m) (contents m))" "y \<noteq> body (type_of m) (contents m) ! i"
    and "y \<notin> {NUL, CHR ''*'', CHR 0x0A}" "ok_message m"
  obtains b where "damaged m i y = CHR ''$'' # b @ CHR ''*'' # hex2 (uint (checksum_text (body (type_of m) (contents m))))"
    "checksum_text b \<noteq> checksum_text (body (type_of m) (contents m))" "CHR ''*'' \<notin> set b"
    "NUL \<notin> set (damaged m i y)" "CHR 0x0A \<notin> set (damaged m i y)"
proof -
  let ?b = "body (type_of m) (contents m)"
  have sub: "set (xs[i := y]) \<subseteq> insert y (set xs)" for i and xs :: "char list" by (rule set_update_subset_insert)
  have d: "damaged m i y = CHR ''$'' # ?b[i := y] @ CHR ''*'' # hex2 (uint (checksum_text ?b))"
    using assms(1) by (simp add: damaged_def wire_def frame_def list_update_append)
  have b: "?b = take i ?b @ ?b ! i # drop (Suc i) ?b" using assms(1) by (rule id_take_nth_drop)
  have b': "?b[i := y] = take i ?b @ y # drop (Suc i) ?b" using assms(1) by (rule upd_conv_take_nth_drop)
  have "checksum_text (?b[i := y]) \<noteq> checksum_text ?b"
    using checksum_one_change [OF assms(2)] b b' by metis
  moreover have "CHR ''*'' \<notin> set (?b[i := y])"
    using sub [of ?b i] message_plain [OF assms(4), of "CHR ''*''"] assms(3) by (auto simp: body_def)
  moreover have "NUL \<notin> set (damaged m i y)" "CHR 0x0A \<notin> set (damaged m i y)"
    using sub [of "wire m" "Suc i"] wire_plain [OF assms(4)] assms(3) by (auto simp: damaged_def)
  ultimately show ?thesis using that d by blast
qed

lemma damaged_dropped:
  assumes "holds s []" "rx_fifo (my_uart s) = map of_char (damaged m i y @ crlf_end) @ f" "early s"
    and "i < length (body (type_of m) (contents m))" "y \<noteq> body (type_of m) (contents m) ! i"
    and "y \<notin> {NUL, CHR ''*'', CHR 0x0A}" "ok_message m"
  shows "\<exists>s'. process_comms s = Inr s' \<and> silent (with_rx f [] s) (node_of s) s'"
proof -
  let ?v = "checksum_text (body (type_of m) (contents m))"
  obtain b where b: "damaged m i y = CHR ''$'' # b @ CHR ''*'' # hex2 (uint ?v)"
    "checksum_text b \<noteq> ?v" "CHR ''*'' \<notin> set b"
    "NUL \<notin> set (damaged m i y)" "CHR 0x0A \<notin> set (damaged m i y)"
    using assms(4-7) by (rule damaged_parts)
  have l: "length (damaged m i y) \<le> 197" using wire_length_bound [OF assms(7)] by (simp add: damaged_def)
  have "(damaged m i y @ [CHR 0x0D]) @ [CHR 0x0A] = CHR ''$'' # b @ CHR ''*'' # hex2 (uint ?v) @ crlf_end"
    by (simp add: b(1) crlf_end_def)
  note p = framed_parts [OF b(3), of crlf_end ?v, folded this]
  have f: "rx_fifo (my_uart s) = map of_char ((damaged m i y @ [CHR 0x0D]) @ [CHR 0x0A]) @ f"
    using assms(2) by (simp add: crlf_end_def)
  show ?thesis
    by (rule process_comms_dropped [OF assms(1) f _ _ _ assms(3)])
      (use b(2,4,5) l p in \<open>simp_all add: crlf_end_def\<close>)
qed

lemma SCBS_Update_drops:
  assumes "safe s" "holds s []" "rx_fifo (my_uart s) = map of_char (damaged m i y @ crlf_end) @ f" "early s"
    and "i < length (body (type_of m) (contents m))" "y \<noteq> body (type_of m) (contents m) ! i"
    and "y \<notin> {NUL, CHR ''*'', CHR 0x0A}" "ok_message m"
  shows "\<exists>s'. SCBS_Update s = Inr s' \<and> node_of s' = (node_of s)\<lparr>amps := amps_read s\<rparr> \<and>
    sent (my_uart s') = sent (my_uart s) \<and> holds s' [] \<and> rx_fifo (my_uart s') = f \<and> safe s'"
proof -
  obtain s1 where s1: "process_comms s = Inr s1" "silent (with_rx f [] s) (node_of s) s1"
    using damaged_dropped [OF assms(2-8)] by blast
  then show ?thesis using SCBS_Update_after [OF assms(1) s1(1), of f] by (auto simp: silent_def)
qed

lemma Init_returns: "\<exists>s. SCBS_Init (SCBS_new default_config m) = Inr s"
  by (auto simp: SCBS_Init_def Let_def SCBS_new_def default_config_def machine.defs scbs.defs
      uart_init_def uart_set_baudrate_def on_gpio_def split: prod.splits)

end
