(* ===== verification/Chain.thy ===== *)
theory Chain
  imports Cell
begin

text \<open>
  Cells in a chain: the line a cell sends is what the next one receives. On abstract nodes the
  chain enumerates itself, forwards a broadcast, collects a multiple read and delivers what is
  addressed to one of its cells; a chain of simulators implements the chain of nodes.
\<close>

section \<open>The abstract chain\<close>

text \<open>A message runs through the nodes, as long as every reply fits on a line.\<close>

fun relay :: "message \<Rightarrow> node list \<Rightarrow> (message \<times> node list) option" where
  "relay m [] = Some (m, [])"
| "relay m (n # ns) =
     (case react m n of
        None \<Rightarrow> None
      | Some (m', n') \<Rightarrow>
          if ok_message m' then map_option (\<lambda>(q, ns'). (q, n' # ns')) (relay m' ns) else None)"

fun_cases relay_ConsE: "relay m (n # ns) = Some q"

text \<open>Discovery: the cells number themselves upwards from the number received.\<close>

lemma relay_discover:
  "relay (MDIS i) ns = Some (MDIS (i + of_nat (length ns)),
     map (\<lambda>(k, n). n\<lparr>node_id := Some (i + 1 + of_nat k)\<rparr>) (enumerate 0 ns))"
proof (induction ns arbitrary: i)
  case (Cons n ns)
  have e: "enumerate (Suc 0) ns = map (\<lambda>(k, n). (Suc k, n)) (enumerate 0 ns)"
    by (rule nth_equalityI) (simp_all add: nth_enumerate_eq)
  show ?case using Cons [of "i + 1"] by (simp add: e case_prod_unfold comp_def ac_simps)
qed simp

text \<open>A broadcast write reaches every cell and comes back as it was.\<close>

lemma relay_broadcast:
  assumes "ok_value v" "strtof v \<noteq> NaN"
  shows "relay (MMWR 0x1000 v) ns =
    Some (MMWR 0x1000 v, map (\<lambda>n. n\<lparr>volts := clamp_output (strtof v)\<rparr>) ns)"
  using assms by (induction ns) (simp_all add: write_reg_def)

text \<open>A status response is passed on by every cell.\<close>

lemma relay_status: "ok_value t \<Longrightarrow> relay (MSRS i t) ns = Some (MSRS i t, ns)"
  by (induction ns) simp_all

text \<open>A multiple read collects the register of every cell, in the order of the chain.\<close>

lemma fits_prefix:
  assumes "fits a (vs @ ws)"
  shows "fits a vs"
proof (cases ws rule: rev_cases)
  case (snoc us w)
  have l: "length (contents (MMRD a vs)) \<le> length (contents (MMRD a (vs @ us)))"
    "length (contents (MMRD a (butlast vs))) \<le> length (contents (MMRD a (vs @ us)))" for us
  proof -
    show "length (contents (MMRD a vs)) \<le> length (contents (MMRD a (vs @ us)))"
      by (simp add: contents_MMRD del: contents.simps)
    have "joined vs = joined (butlast vs) @ joined (drop (length vs - 1) vs)"
      by (metis append_take_drop_id butlast_conv_take joined_simps(3))
    then show "length (contents (MMRD a (butlast vs))) \<le> length (contents (MMRD a (vs @ us)))"
      by (simp add: contents_MMRD del: contents.simps)
  qed
  show ?thesis using assms l(1) [of us] l(2) [of us] l(1) [of ws]
    by (auto simp: fits_def snoc butlast_append simp del: contents.simps)
qed (use assms in simp)

lemma relay_collect:
  assumes "list_all2 (\<lambda>n t. able n \<and> read_reg a n = Some t) ns ts"
    and "fits a (vs @ ts)" "list_all ok_value vs"
  shows "relay (MMRD a vs) ns = Some (MMRD a (vs @ ts), ns)"
  using assms
proof (induction ns ts arbitrary: vs rule: list_all2_induct)
  case (Cons n ns t ts)
  have "fits a (vs @ [t])" using fits_prefix [of a "vs @ [t]" ts] Cons.prems by simp
  moreover have "length vs < kMaxNumValues" using Cons.prems by (simp add: fits_def)
  moreover have "ok_value t" using read_reg_ok Cons.hyps by blast
  ultimately show ?case using Cons.IH [of "vs @ [t]"] Cons.hyps Cons.prems by simp
qed simp

text \<open>
  Addressed messages: the cells before the addressee pass the message on, the addressee
  replaces it by its response, and the cells behind it pass that on.
\<close>

lemma relay_to:
  assumes "list_all (\<lambda>n. node_id n \<noteq> None \<and> node_id n \<noteq> Some k) ns"
    and "m = MSRD k a \<or> (m = MSWR k a v \<and> ok_value v)"
  shows "relay m (ns @ n # ns') =
    map_option (\<lambda>(q, xs). (q, ns @ xs)) (relay m (n # ns'))"
  using assms
proof (induction ns)
  case (Cons x ns)
  obtain j where j: "node_id x = Some j" "j \<noteq> k" using Cons.prems(1) by auto
  have "react m x = Some (m, x)" "ok_message m" using j Cons.prems(2) by auto
  then show ?case using Cons.IH Cons.prems
    by (simp del: relay.simps(2) add: relay.simps(2) [of _ x] option.map_comp comp_def case_prod_unfold)
qed (simp add: option.map_id case_prod_unfold option.map_ident)

lemma relay_read:
  assumes "list_all (\<lambda>n. node_id n \<noteq> None \<and> node_id n \<noteq> Some k) ns" "node_id n = Some k"
    and "read_reg a n = Some t" "able n"
  shows "relay (MSRD k a) (ns @ n # ns') = Some (MSRS k t, ns @ n # ns')"
  using relay_to [OF assms(1), of "MSRD k a" a] assms(2-4) read_reg_ok [OF assms(4,3)]
  by (simp add: status_def relay_status)

lemma relay_write:
  assumes "list_all (\<lambda>n. node_id n \<noteq> None \<and> node_id n \<noteq> Some k) ns" "node_id n = Some k"
    and "write_reg a v n = Some (e, n')" "ok_value v"
  shows "relay (MSWR k a v) (ns @ n # ns') = Some (MSRS k (err_text e), ns @ n' # ns')"
proof -
  have "node_id n' = Some k" using assms(2,3) by (auto simp: write_reg_def split: if_splits)
  then show ?thesis
    using relay_to [OF assms(1), of "MSWR k a v" a v] assms(2-4) ok_err_text [of e]
    by (simp add: status_def relay_status)
qed

section \<open>The chain of simulators\<close>

definition idle :: "scbs \<Rightarrow> bool" where
  "idle s \<longleftrightarrow> safe s \<and> ready s \<and> holds s [] \<and> rx_fifo (my_uart s) = []"

definition feed :: "u32 list \<Rightarrow> scbs \<Rightarrow> scbs" where
  "feed bs s = on_uart (\<lambda>u. u\<lparr>rx_fifo := rx_fifo u @ bs\<rparr>) s"

text \<open>The bytes a cell has sent since the state \<open>s\<close>, as the next one reads them.\<close>

definition sent_since :: "scbs \<Rightarrow> scbs \<Rightarrow> u32 list" where
  "sent_since s s' = map ucast (drop (length (sent (my_uart s))) (sent (my_uart s')))"

text \<open>Each cell is updated once, with what the previous one has sent.\<close>

fun pass_line :: "u32 list \<Rightarrow> scbs list \<Rightarrow> fault + (u32 list \<times> scbs list)" where
  "pass_line bs [] = Inr (bs, [])"
| "pass_line bs (s # ss) =
     rbind (SCBS_Update (feed bs s)) (\<lambda>s'.
     rbind (pass_line (sent_since s s') ss) (\<lambda>(out, ss'). Inr (out, s' # ss')))"

definition line :: "message \<Rightarrow> u32 list" where
  "line m = map of_char (wire m @ crlf_end)"

lemma ucast_of_char_u8: "ucast (of_char c :: u8) = (of_char c :: u32)"
proof -
  have "uint (ucast (of_char c :: u8) :: u32) = uint (of_char c :: u8)" by (simp add: uint_up_ucast is_up)
  also have "\<dots> = uint (of_char c :: u32)" by (simp add: uint_of_char)
  finally show ?thesis by (rule word_uint_eqI)
qed

lemma idle_feed:
  assumes "idle s"
  shows "safe (feed bs s)" "ready (feed bs s)" "holds (feed bs s) []" "rx_fifo (my_uart (feed bs s)) = bs"
    "node_of (feed bs s) = node_of s" "amps_read (feed bs s) = amps_read s" "sent (my_uart (feed bs s)) = sent (my_uart s)"
  using assms
  by (simp_all add: idle_def feed_def on_uart_def my_uart_def safe_def railed_def buffered_def metered_def
      duty_level_def ready_def early_def time_us_32_def node_of_def holds_def amps_read_def sent_def)

lemma pass_line_relays:
  assumes "list_all idle ss" "relay m (map node_of ss) = Some (m', ns)" "ok_message m"
  shows "\<exists>ss'. pass_line (line m) ss = Inr (line m', ss') \<and>
    map node_of ss' = map2 (\<lambda>n s. n\<lparr>amps := amps_read s\<rparr>) ns ss"
  using assms
proof (induction ss arbitrary: m ns)
  case (Cons s ss)
  obtain m1 n1 ns1 where r: "react m (node_of s) = Some (m1, n1)" "ok_message m1"
    "relay m1 (map node_of ss) = Some (m', ns1)" "ns = n1 # ns1"
    using Cons.prems(2) by (auto split: option.splits if_splits)
  have i: "idle s" "list_all idle ss" using Cons.prems(1) by simp_all
  note f = idle_feed [OF i(1), of "line m"]
  have "rx_fifo (my_uart (feed (line m) s)) = map of_char (wire m @ crlf_end) @ []"
    using f(4) by (simp add: line_def)
  from SCBS_Update_reacts [OF f(1-3) this Cons.prems(3) _ r(2)] r(1) f(5)
  obtain s' where s': "SCBS_Update (feed (line m) s) = Inr s'" "node_of s' = n1\<lparr>amps := amps_read s\<rparr>"
    "sent (my_uart s') = sent (my_uart s) @ map of_char (wire m1 @ crlf_end)"
    using f(6,7) by auto
  have o1: "sent_since s s' = line m1"
    using s'(3) by (simp add: sent_since_def line_def ucast_of_char_u8)
  obtain ss' where "pass_line (line m1) ss = Inr (line m', ss')"
    "map node_of ss' = map2 (\<lambda>n s. n\<lparr>amps := amps_read s\<rparr>) ns1 ss"
    using Cons.IH [OF i(2) r(3,2)] by blast
  then show ?case using s'(1,2) o1 r(4) by simp
qed simp

text \<open>A fresh chain is enumerated by one discover packet with the number zero.\<close>

lemma chain_discovers:
  assumes "list_all idle ss"
  shows "\<exists>ss'. pass_line (line (MDIS 0)) ss = Inr (line (MDIS (of_nat (length ss))), ss') \<and>
    length ss' = length ss \<and> (\<forall>k < length ss. cell_id (ss' ! k) = Some (1 + of_nat k))"
proof -
  let ?ns = "map (\<lambda>(k, n). n\<lparr>node_id := Some (0 + 1 + of_nat k)\<rparr>) (enumerate 0 (map node_of ss))"
  have "relay (MDIS 0) (map node_of ss) = Some (MDIS (of_nat (length ss)), ?ns)"
    using relay_discover [of 0 "map node_of ss"] by simp
  then obtain ss' where ss': "pass_line (line (MDIS 0)) ss = Inr (line (MDIS (of_nat (length ss))), ss')"
    "map node_of ss' = map2 (\<lambda>n s. n\<lparr>amps := amps_read s\<rparr>) ?ns ss"
    using pass_line_relays [OF assms] by fastforce
  have l: "length ss' = length ss" using arg_cong [OF ss'(2), of length] by simp
  have "cell_id (ss' ! k) = Some (1 + of_nat k)" if k: "k < length ss" for k
  proof -
    have "node_of (ss' ! k) = map node_of ss' ! k" using k l by simp
    also have "\<dots> = (?ns ! k)\<lparr>amps := amps_read (ss ! k)\<rparr>" unfolding ss'(2) using k by simp
    finally have "node_id (node_of (ss' ! k)) = Some (1 + of_nat k)" using k by (simp add: nth_enumerate_eq)
    then show ?thesis by simp
  qed
  then show ?thesis using ss'(1) l by blast
qed

lemma relay_length: "relay m ns = Some (m', ns') \<Longrightarrow> length ns' = length ns"
  by (induction m ns arbitrary: ns' rule: relay.induct) (auto split: option.splits if_splits)

lemma pass_line_effect:
  assumes "list_all idle ss" "relay m (map node_of ss) = Some (m', ns)" "ok_message m"
  shows "\<exists>ss'. pass_line (line m) ss = Inr (line m', ss') \<and>
    map cell_id ss' = map node_id ns \<and> map output_voltage ss' = map volts ns"
proof -
  obtain ss' where ss': "pass_line (line m) ss = Inr (line m', ss')"
    "map node_of ss' = map2 (\<lambda>n s. n\<lparr>amps := amps_read s\<rparr>) ns ss"
    using pass_line_relays [OF assms] by blast
  have l: "length ns = length ss" using relay_length [OF assms(2)] by simp
  have "map cell_id ss' = map node_id (map node_of ss')"
    "map output_voltage ss' = map volts (map node_of ss')" by simp_all
  moreover have "map node_id (map node_of ss') = map node_id ns" "map volts (map node_of ss') = map volts ns"
    unfolding ss'(2) using l by (intro nth_equalityI; simp)+
  ultimately show ?thesis using ss'(1) by metis
qed

end
