(* ===== verification/Example_Cells.thy ===== *)
theory Example_Cells
  imports Chain
begin

text \<open>
  A concrete cell, with all registers zero, nothing received, and a cell number: the state at
  which the witnesses of the root theory apply its theorems.
\<close>

definition example_cell :: "u16 \<Rightarrow> scbs" where
  "example_cell i =
     \<lparr>uarts = (\<lambda>_. \<lparr>ibrd = 0, fbrd = 0, lcr_h = 0, cr = 0, ifls = 0, imsc = 0, dmacr = 0,
                 rx_fifo = [], tx_fifo = [], tx_line = [], char_to_line_feed = 0x100\<rparr>),
      gpio = \<lparr>pads = (\<lambda>_. 0), io_ctrl = (\<lambda>_. 0), io_status = (\<lambda>_. 0), sio_out = 0, sio_oe = 0,
               sio_in = 0, intr = (\<lambda>_. 0), proc_inte = (\<lambda>_ _. 0), dormant_inte = (\<lambda>_. 0),
               callbacks = (\<lambda>_. None), raw_irq_mask = (\<lambda>_. 0), calls = [], irq_requests = []\<rparr>,
      pwm = \<lparr>slice = (\<lambda>_. \<lparr>pwm_csr = 0, pwm_div = 0, pwm_ctr = 0, pwm_cc = 0, pwm_top = 1000\<rparr>),
             pwm_intr = 0, pwm_inte = 0, pwm_intf = 0\<rparr>,
      adc = \<lparr>adc_cs = 0, adc_result = 0, adc_fcs = 0, adc_div = 0, adc_inte = 0, adc_fifo = [],
             analog = (\<lambda>_. 1024), conversion = 0\<rparr>,
      now_us = 0, clk_peri_hz = 125000000, config = default_config,
      uart_rx_buf = buf [], uart_rx_buf_len = 0, cell_id = Some i,
      output_voltage = Zero False, output_current = Zero False,
      status_led_on = False, status_led_off_timestamp = 0\<rparr>"

lemma example_idle [simp]: "idle (example_cell i)"
  by (auto simp: idle_def example_cell_def safe_def railed_def duty_level_def chan_level_def
      buffered_def metered_def inside_def default_config_def ready_def my_uart_def early_def
      time_us_32_def able_def printable_def holds_def buf_def intro: exI [of _ "[]"])

lemma example_node [simp]:
  "node_of (example_cell i) = \<lparr>node_id = Some i, volts = Zero False, amps = Zero False\<rparr>"
  by (simp add: node_of_def example_cell_def)

lemma example_input [simp]:
  "safe (feed bs (example_cell i))" "ready (feed bs (example_cell i))"
  "holds (feed bs (example_cell i)) []" "rx_fifo (my_uart (feed bs (example_cell i))) = bs"
  "node_of (feed bs (example_cell i)) = \<lparr>node_id = Some i, volts = Zero False, amps = Zero False\<rparr>"
  using idle_feed [OF example_idle, of bs i] by simp_all

lemma ok_version [simp]: "ok_value ''scbs_pico-0.1.0''"
  by (rule ok_valueI) simp_all

lemma example_fields [simp]:
  "cell_id (example_cell i) = Some i" "output_voltage (example_cell i) = Zero False"
  by (simp_all add: example_cell_def)

lemma example_buffered: "buffered (feed bs (example_cell i))"
  using example_input(1) [of bs i] by (simp add: safe_def)

end
