(* ===== verification/Round_Trips.thy ===== *)
theory Round_Trips
  imports Constructors
begin

text \<open>
  Round trips of the six packets: a packet built from values is printed as the frame of its
  message, and parsing that text gives a valid packet with the same values.
\<close>

lemma ok_12 [simp]: "ok_value ''1.2''"
  by (simp add: ok_value_def)

text \<open>
  A discover packet built from a cell number prints as the frame of its message, and the
  text parses back to a valid packet with the same fields.
\<close>

lemma DISPacket_round_trip:
  "\<exists>p p' os q. DISPacket_of_values i = Inr p \<and>
    DISPacket_ToString (Some (uninit kMaxPacketLen)) p = Inr (of_nat (length (wire (MDIS i))), p', Some os) \<and>
    c_string os = Inr (wire (MDIS i)) \<and> DISPacket_of_string os = Inr q \<and> is_valid q \<and>
    last_cell_id q = i"
proof -
  obtain p where p: "DISPacket_of_values i = Inr p" "dis_carries p (MDIS i)"
    using DIS_of_values by blast
  obtain p' os q where q:
    "DISPacket_ToString (Some (uninit kMaxPacketLen)) p = Inr (of_nat (length (wire (MDIS i))), p', Some os)"
    "c_string os = Inr (wire (MDIS i))" "DISPacket_of_string os = Inr q" "is_valid q" "dis_carries q (MDIS i)"
    using dis.round_trip [OF p(2)] by auto
  then have "last_cell_id q = i" by (simp add: dis_carries_def)
  then show ?thesis using p(1) q(1-4) by blast
qed

text \<open>
  A single read built from a cell number and an address prints as the frame of its message, and the
  text parses back to a valid packet with the same fields.
\<close>

lemma SRDPacket_round_trip:
  "\<exists>p p' os q. SRDPacket_of_values i a = Inr p \<and>
    SRDPacket_ToString (Some (uninit kMaxPacketLen)) p = Inr (of_nat (length (wire (MSRD i a))), p', Some os) \<and>
    c_string os = Inr (wire (MSRD i a)) \<and> SRDPacket_of_string os = Inr q \<and> is_valid q \<and>
    srd_cell_id q = i \<and> srd_reg_addr q = a"
proof -
  obtain p where p: "SRDPacket_of_values i a = Inr p" "srd_carries p (MSRD i a)"
    using SRD_of_values by blast
  obtain p' os q where q:
    "SRDPacket_ToString (Some (uninit kMaxPacketLen)) p = Inr (of_nat (length (wire (MSRD i a))), p', Some os)"
    "c_string os = Inr (wire (MSRD i a))" "SRDPacket_of_string os = Inr q" "is_valid q" "srd_carries q (MSRD i a)"
    using srd.round_trip [OF p(2)] by auto
  then have "srd_cell_id q = i \<and> srd_reg_addr q = a" by (simp add: srd_carries_def)
  then show ?thesis using p(1) q(1-4) by blast
qed

text \<open>
  A multiple write built from an address and a value prints as the frame of its message, and the
  text parses back to a valid packet with the same fields.
\<close>

lemma MWRPacket_round_trip:
  assumes "c_string b = Inr v" "ok_value v"
  shows "\<exists>p p' os q. MWRPacket_of_values a b = Inr p \<and>
    MWRPacket_ToString (Some (uninit kMaxPacketLen)) p = Inr (of_nat (length (wire (MMWR a v))), p', Some os) \<and>
    c_string os = Inr (wire (MMWR a v)) \<and> MWRPacket_of_string os = Inr q \<and> is_valid q \<and>
    mwr_reg_addr q = a \<and> c_string (mwr_value q) = Inr v"
proof -
  obtain p where p: "MWRPacket_of_values a b = Inr p" "mwr_carries p (MMWR a v)"
    using MWR_of_values [OF assms] by blast
  obtain p' os q where q:
    "MWRPacket_ToString (Some (uninit kMaxPacketLen)) p = Inr (of_nat (length (wire (MMWR a v))), p', Some os)"
    "c_string os = Inr (wire (MMWR a v))" "MWRPacket_of_string os = Inr q" "is_valid q" "mwr_carries q (MMWR a v)"
    using mwr.round_trip [OF p(2)] assms(2) by auto
  then have "mwr_reg_addr q = a \<and> c_string (mwr_value q) = Inr v" by (simp add: mwr_carries_def value_is_def)
  then show ?thesis using p(1) q(1-4) by blast
qed

text \<open>
  C12: a single write built from a cell number, an address and a value prints as the frame of its message, and the
  text parses back to a valid packet with the same fields.
\<close>

theorem SWRPacket_round_trip:
  assumes "c_string b = Inr v" "ok_value v"
  shows "\<exists>p p' os q. SWRPacket_of_values i a b = Inr p \<and>
    SWRPacket_ToString (Some (uninit kMaxPacketLen)) p = Inr (of_nat (length (wire (MSWR i a v))), p', Some os) \<and>
    c_string os = Inr (wire (MSWR i a v)) \<and> SWRPacket_of_string os = Inr q \<and> is_valid q \<and>
    swr_cell_id q = i \<and> swr_reg_addr q = a \<and> c_string (swr_value q) = Inr v"
proof -
  obtain p where p: "SWRPacket_of_values i a b = Inr p" "swr_carries p (MSWR i a v)"
    using SWR_of_values [OF assms] by blast
  obtain p' os q where q:
    "SWRPacket_ToString (Some (uninit kMaxPacketLen)) p = Inr (of_nat (length (wire (MSWR i a v))), p', Some os)"
    "c_string os = Inr (wire (MSWR i a v))" "SWRPacket_of_string os = Inr q" "is_valid q" "swr_carries q (MSWR i a v)"
    using swr.round_trip [OF p(2)] assms(2) by auto
  then have "swr_cell_id q = i \<and> swr_reg_addr q = a \<and> c_string (swr_value q) = Inr v" by (simp add: swr_carries_def value_is_def)
  then show ?thesis using p(1) q(1-4) by blast
qed

theorem SWRPacket_round_trip_witness:
  "\<exists>p os q. SWRPacket_of_values 5 0x1000 (lit ''1.2'') = Inr p \<and> SWRPacket_of_string os = Inr q \<and>
    c_string (swr_value q) = Inr ''1.2''"
proof -
  have "c_string (lit ''1.2'') = Inr ''1.2''" by (rule c_string_lit) simp
  from SWRPacket_round_trip [OF this ok_12] show ?thesis by blast
qed

text \<open>
  A single response built from a cell number and a value prints as the frame of its message, and the
  text parses back to a valid packet with the same fields.
\<close>

lemma SRSPacket_round_trip:
  assumes "c_string b = Inr v" "ok_value v"
  shows "\<exists>p p' os q. SRSPacket_of_values i b = Inr p \<and>
    SRSPacket_ToString (Some (uninit kMaxPacketLen)) p = Inr (of_nat (length (wire (MSRS i v))), p', Some os) \<and>
    c_string os = Inr (wire (MSRS i v)) \<and> SRSPacket_of_string os = Inr q \<and> is_valid q \<and>
    srs_cell_id q = i \<and> c_string (srs_value q) = Inr v"
proof -
  obtain p where p: "SRSPacket_of_values i b = Inr p" "srs_carries p (MSRS i v)"
    using SRS_of_values [OF assms] by blast
  obtain p' os q where q:
    "SRSPacket_ToString (Some (uninit kMaxPacketLen)) p = Inr (of_nat (length (wire (MSRS i v))), p', Some os)"
    "c_string os = Inr (wire (MSRS i v))" "SRSPacket_of_string os = Inr q" "is_valid q" "srs_carries q (MSRS i v)"
    using srs.round_trip [OF p(2)] assms(2) by auto
  then have "srs_cell_id q = i \<and> c_string (srs_value q) = Inr v" by (simp add: srs_carries_def value_is_def)
  then show ?thesis using p(1) q(1-4) by blast
qed

text \<open>
  C11: a multiple read built from an address and a list of values that fits on a line prints as
  the frame of its message, and the text parses back to a valid packet with the same address
  and the same values.
\<close>

theorem MRDPacket_round_trip:
  assumes "ok_message (MMRD a vs)" "unat n = length vs"
    and "list_all2 (\<lambda>b v. c_string b = Inr v) bufs vs"
  shows "\<exists>p p' os q. MRDPacket_of_values a bufs n = Inr p \<and>
    MRDPacket_ToString (Some (uninit kMaxPacketLen)) p = Inr (of_nat (length (wire (MMRD a vs))), p', Some os) \<and>
    c_string os = Inr (wire (MMRD a vs)) \<and> MRDPacket_of_string os = Inr q \<and> is_valid q \<and>
    mrd_reg_addr q = a \<and> mrd_num_values q = n \<and>
    (\<forall>i < length vs. c_string (mrd_values q ! i) = Inr (vs ! i))"
proof -
  have "i < length bufs \<and> c_string (bufs ! i) = Inr (vs ! i)" if "i < length vs" for i
    using assms(3) that by (simp add: list_all2_conv_all_nth)
  then obtain p where p: "MRDPacket_of_values a bufs n = Inr p" "mrd_carries p (MMRD a vs)"
    using MRD_of_values [OF assms(1,2)] by blast
  obtain p' os q where q:
    "MRDPacket_ToString (Some (uninit kMaxPacketLen)) p = Inr (of_nat (length (wire (MMRD a vs))), p', Some os)"
    "c_string os = Inr (wire (MMRD a vs))" "MRDPacket_of_string os = Inr q" "is_valid q"
    "mrd_carries q (MMRD a vs)"
    using mrd.round_trip [OF p(2) assms(1)] by auto
  then have "mrd_reg_addr q = a \<and> unat (mrd_num_values q) = unat n \<and>
    (\<forall>i < length vs. c_string (mrd_values q ! i) = Inr (vs ! i))"
    using assms(2) by (auto simp: mrd_carries_def value_is_def)
  then show ?thesis using p(1) q(1-4) unfolding word_unat_eq_iff by blast
qed

theorem MRDPacket_round_trip_witness:
  "\<exists>p os q. MRDPacket_of_values 0x2000 [lit ''1.2'', lit ''1.2''] 2 = Inr p \<and>
    MRDPacket_of_string os = Inr q \<and> mrd_num_values q = 2 \<and> c_string (mrd_values q ! 1) = Inr ''1.2''"
proof -
  have l: "c_string (lit ''1.2'') = Inr ''1.2''" by (rule c_string_lit) simp
  have h: "length (hex (uint (0x2000 :: u32))) \<le> 8" by (rule hex_u32_length)
  then have "ok_message (MMRD 0x2000 [''1.2'', ''1.2''])" by (simp add: fits_def kMaxNumValues_def)
  from MRDPacket_round_trip [OF this, of 2 "[lit ''1.2'', lit ''1.2'']"] l
  show ?thesis by fastforce
qed

end
