(* ===== verification/Guarantees.thy ===== *)
theory Guarantees
  imports Example_Cells
begin

text \<open>
  Properties of the layers below the protocol: checksum and framing, the analog outputs, the
  LED, formatted output, and the UART, PWM and pin drivers.
\<close>

unbundle bit_operations_syntax

lemma uart_puts_loop_bound:
  "length (tx_fifo u) \<le> fifo_depth u \<Longrightarrow>
   length (tx_fifo (uart_puts_loop b s u)) \<le> fifo_depth (uart_puts_loop b s u)"
proof (induction s arbitrary: b u)
  case (Cons c s)
  have w: "length (tx_fifo (uart_write_blocking bs v)) \<le> fifo_depth (uart_write_blocking bs v)"
    if "length (tx_fifo v) \<le> fifo_depth v" for bs v
    using tx_fifo_bound [OF that] same_configD(4) [OF uart_write_blocking_effect(1) [of v bs]] by simp
  have "length (tx_fifo (uart_putc_raw c u)) \<le> fifo_depth (uart_putc_raw c u)"
    "length (tx_fifo (uart_putc c u)) \<le> fifo_depth (uart_putc c u)"
    using w Cons.prems by (simp_all add: uart_putc_raw_def uart_putc_def del: uart_write_blocking.simps)
  then show ?case using Cons.IH by simp
qed simp

text \<open>
  C14: the checksum of a packet is the exclusive or of the characters between the first start
  token and the first end token of its text, and zero when one of them is missing.
\<close>

theorem checksum_is_xor:
  assumes "c_string (packet_str p) = Inr s" "length s \<le> kMaxPacketLen"
  shows "CalculateChecksum p = Inr (foldl (\<lambda>a c. a XOR of_char c) 0 (checked_part s))"
  using CalculateChecksum_text [OF assms] by (simp add: checksum_text_def)

theorem checksum_is_xor_witness:
  "CalculateChecksum \<lparr>packet_str = lit ''$ab*'', is_valid = False, packet_type = UNKNOWN\<rparr> = Inr 3"
proof -
  have "c_string (lit ''$ab*'') = Inr ''$ab*''" by (rule c_string_lit) simp
  moreover have "foldl (\<lambda>a c. a XOR of_char c) 0 (checked_part ''$ab*'') = (3 :: u8)" by code_simp
  ultimately show ?thesis
    using checksum_is_xor [of "\<lparr>packet_str = lit ''$ab*'', is_valid = False, packet_type = UNKNOWN\<rparr>" "''$ab*''"]
    by (simp add: packet_consts)
qed



text \<open>
  Packetizing contents of any length stays inside the packet's buffers: the text is the
  start token, header and contents with the end token, cut to 196 characters, and two digits.
\<close>

lemma packetizing_stays_in_buffer:
  assumes "c_string cb = Inr c" "int (length c) < 2 ^ 32" "length (packet_str p) = kMaxPacketLen"
    and "length tb = kMaxPacketLen"
  shows "\<exists>p' os. PacketizeContents cb (Some tb) p =
      Inr (of_nat (length (packet_text (packet_type p) c)), p', Some os) \<and>
    c_string os = Inr (packet_text (packet_type p) c) \<and> length (packet_text (packet_type p) c) \<le> 198"
proof -
  obtain ps where ps: "length ps = kMaxPacketLen" "c_string ps = Inr (packet_text (packet_type p) c)"
    "\<And>tb. PacketizeContents cb tb p =
       rbind (copy_out tb ps) (\<lambda>tb'. Inr (of_nat (length (packet_text (packet_type p) c)),
         p\<lparr>packet_str := ps\<rparr>, tb'))"
    using PacketizeContents_text [OF assms(1-3)] by metis
  have "length (hex2 (uint (w :: u8))) = 2" for w by (rule hex2_length) (simp_all add: uint_u8_bound)
  then have l: "length (packet_text (packet_type p) c) \<le> 198" by (simp add: packet_text_def Let_def)
  obtain r where r: "ps = map Some (packet_text (packet_type p) c) @ Some NUL # r"
    "NUL \<notin> set (packet_text (packet_type p) c)" using ps(2) by (rule c_stringE)
  have "strncpy tb ps (int kMaxPacketLen) = Inr (map Some (packet_text (packet_type p) c) @
      zeroed (kMaxPacketLen - length (packet_text (packet_type p) c)))"
    unfolding r(1) using r(2) l assms(4) by (simp add: strncpy_pad packet_consts)
  then show ?thesis using ps(3) [of "Some tb"] l r(2)
    by (auto simp: copy_out_def c_string_zeroed packet_consts)
qed



text \<open>
  Turning the LED on lights it and sets the deadline to the present time plus the given
  milliseconds, unless the sum exceeds 32 bits: then the conversion from \<open>double\<close> is undefined.
\<close>

lemma led_deadline:
  "TurnOnStatusLED ms s =
     (if uint (time_us_32 s) + 1000 * uint ms < 2 ^ 32
      then Inr (led_lit (time_us_32 s + 1000 * ms) s) else Inl BadConversion)"
  by (rule TurnOnStatusLED_result)

text \<open>
  The output current is computed without rounding: the 12 bits of the sense input times
  200 over 4096.
\<close>

lemma output_current_exact:
  assumes "csense_adc_input (config s) < 8"
  shows "fp_val (output_current (ReadOutputCurrent s)) =
    of_int (uint (analog (adc s) (unat (csense_adc_input (config s))) AND 0xfff)) * 200 / 4096"
  by (simp add: ReadOutputCurrent_value [OF assms] current_value(2))

text \<open>
  C17: a number printed with \<open>%d\<close> or \<open>%X\<close> into a buffer with room for it is read back by
  \<open>strtoul\<close> in that base.
\<close>

theorem printed_number_reads_back:
  assumes "length b = kMaxPacketFieldLen" "uint w < 2 ^ 31"
  shows "(\<exists>b' t. snprintf b (int kMaxPacketFieldLen) ''%d'' [VInt w] = Inr b' \<and>
      c_string b' = Inr t \<and> strtoul t 10 = w) \<and>
    (\<exists>b' t. snprintf b (int kMaxPacketFieldLen) ''%X'' [VInt v] = Inr b' \<and>
      c_string b' = Inr t \<and> strtoul t 16 = v)"
proof
  have nd: "NUL \<notin> set (decimal (uint w))" by (simp add: decimal_plain)
  have ld: "length (decimal (uint w)) \<le> 10" using assms(2) by (intro numeral_of_length) auto
  obtain b1 where b1: "snprintf b (int kMaxPacketFieldLen) ''%d'' [VInt w] = Inr b1"
    "c_string b1 = Inr (take (kMaxPacketFieldLen - 1) (decimal (uint w)))" "length b1 = length b"
    by (rule snprintf_string [OF format_rules(3) [OF assms(2) formats_nil, simplified] nd,
        where n = kMaxPacketFieldLen and b = b])
      (use assms(1) in \<open>simp_all add: packet_consts\<close>)
  have "strtoul (decimal (uint w)) 10 = w"
    using strtoul_digits [of 10 "decimal (uint w)" "[]"] assms(2)
      numeral_of_all_digits [of 10 "uint w" False] numeral_of_value [of 10 "uint w" False]
    by simp
  then show "\<exists>b' t. snprintf b (int kMaxPacketFieldLen) ''%d'' [VInt w] = Inr b' \<and>
      c_string b' = Inr t \<and> strtoul t 10 = w"
    using b1 ld by (simp add: packet_consts)
  have nh: "NUL \<notin> set (hex (uint v))" by (simp add: hex_plain)
  obtain b2 where b2: "snprintf b (int kMaxPacketFieldLen) ''%X'' [VInt v] = Inr b2"
    "c_string b2 = Inr (take (kMaxPacketFieldLen - 1) (hex (uint v)))" "length b2 = length b"
    by (rule snprintf_string [OF formats_X [OF formats_nil, simplified] nh,
        where n = kMaxPacketFieldLen and b = b])
      (use assms(1) in \<open>simp_all add: packet_consts\<close>)
  then show "\<exists>b' t. snprintf b (int kMaxPacketFieldLen) ''%X'' [VInt v] = Inr b' \<and>
      c_string b' = Inr t \<and> strtoul t 16 = v"
    using strtoul_hex [of "[]" v] hex_u32_length [of v] by (simp add: packet_consts)
qed

theorem printed_number_reads_back_witness:
  "\<exists>b' t. snprintf (zeroed kMaxPacketFieldLen) (int kMaxPacketFieldLen) ''%d'' [VInt 1234] = Inr b' \<and>
    c_string b' = Inr t \<and> strtoul t 10 = 1234"
  using printed_number_reads_back [of "zeroed kMaxPacketFieldLen" 1234] by (simp add: zeroed_def)



text \<open>
  Sending a string puts its characters, with a carriage return before each line feed that
  has none when the translation is on, behind what was sent before; nothing else changes, and
  the transmit FIFO is never filled beyond its depth.
\<close>

lemma uart_sends_string:
  assumes "c_string b = Inr t" "char_to_line_feed u = (if translate then 10 else 0x100)"
    and "length (tx_fifo u) \<le> fifo_depth u"
  shows "\<exists>u'. uart_puts b u = Inr u' \<and> sent u' = sent u @ map of_char (crlf translate False t) \<and>
    same_config u u' \<and> length (tx_fifo u') \<le> fifo_depth u'"
  using uart_puts_loop_effect [OF assms(2), of False t] uart_puts_loop_bound [OF assms(3), of False t] assms(1)
  by (simp add: uart_puts_def)

text \<open>
  The divisor for any clock and rate has an integer part that fits in 16 bits and is not
  zero; the fraction may be 64, one more than its 6 bits hold.
\<close>

lemma baud_divisor_range:
  "\<exists>i f. baud_divisor hz baudrate = (i, f) \<and> 1 \<le> i \<and> i \<le> 65535 \<and> f \<le> 64"
proof -
  let ?d = "8 * hz div baudrate"
  have "?d AND 0x7f \<le> 0x7f" by (rule word_and_le1)
  then have "unat (?d AND 0x7f) \<le> 127" by (simp add: word_le_nat_alt)
  then have "unat (((?d AND 0x7f) + 1) div 2) \<le> 64"
    using unat_word_ariths(1) [of "?d AND 0x7f" 1] by (simp add: unat_div)
  then have f: "((?d AND 0x7f) + 1) div 2 \<le> 64" by (simp add: word_le_nat_alt)
  show ?thesis
  proof (cases "drop_bit 7 ?d = 0 \<or> 65535 \<le> drop_bit 7 ?d")
    case True
    then show ?thesis by (auto simp: baud_divisor_def Let_def)
  next
    case False
    then have "1 \<le> drop_bit 7 ?d" "drop_bit 7 ?d \<le> 65535"
      by (simp_all add: word_le_nat_alt unat_gt_0 Suc_le_eq)
    then show ?thesis using False f by (auto simp: baud_divisor_def Let_def)
  qed
qed

text \<open>The fraction of 64 does occur; the register keeps its low six bits, which are zero.\<close>

lemma baud_fraction_overflow: "baud_divisor 125000000 3921568 = (1, 64)"
  by code_simp

text \<open>Setting the level of one PWM channel sets that channel and leaves every other one.\<close>

lemma pwm_level_set:
  "chan_level m c (pwm_set_chan_level n chan level p) =
     (if n = m \<and> (chan \<noteq> 0) = (c \<noteq> 0) then level else chan_level m c p)"
  using chan_level_other [of n chan m c] chan_level_set [of n chan level p]
  by (auto simp: chan_level_def)

text \<open>
  Driving a pin changes the level of that pin only, and its direction likewise.
\<close>

lemma pin_driven:
  assumes "p < 32" "q < 32"
  shows "gpio_get_out_level p (gpio_put q v g) = (if p = q then v else gpio_get_out_level p g) \<and>
    gpio_is_dir_out p (gpio_set_dir q v g) = (if p = q then v else gpio_is_dir_out p g) \<and>
    gpio_is_dir_out p (gpio_put q v g) = gpio_is_dir_out p g"
proof -
  have b: "x AND 2 ^ p = 0 \<longleftrightarrow> \<not> bit x p" for x :: u32
    by (rule and_exp_eq_0_iff_not_bit)
  have e: "push_bit k 1 = (2 :: u32) ^ k" for k by (simp add: push_bit_eq_mult)
  show ?thesis
    using assms
    by (simp add: gpio_get_out_level_def gpio_is_dir_out_def gpio_put_def gpio_set_dir_def Let_def
        gpio_set_mask_def gpio_clr_mask_def gpio_set_dir_out_masked_def gpio_set_dir_in_masked_def
        e b bit_hw_set_bits bit_hw_clear_bits bit_exp_iff)
qed

end
