(* ===== verification/Queue.thy ===== *)
theory Queue
  imports Prelude
begin

text \<open>
  The queue of the SDK (\<open>queue.c\<close>, \<open>queue.h\<close>): a ring of \<open>element_count + 1\<close> elements in a
  block of bytes, one of which is always unused. The spin lock makes each operation atomic, so an
  operation is one function of the state; where a blocking operation would wait for the other
  core, the result is \<open>Blocked\<close>. A buffer of the caller is the list of its bytes. The optional
  recording of the highest level is switched off in the default configuration.
\<close>

section \<open>State\<close>

record queue =
  data :: "u8 list"
  wptr :: u16
  rptr :: u16
  element_size :: u16
  element_count :: u16

definition queue_init_with_spinlock :: "u32 \<Rightarrow> u32 \<Rightarrow> queue" where
  "queue_init_with_spinlock esize cnt =
     \<lparr>data = replicate (unat (cnt + 1) * unat esize) 0, wptr = 0, rptr = 0,
      element_size = ucast esize, element_count = ucast cnt\<rparr>"

definition queue_init :: "u32 \<Rightarrow> u32 \<Rightarrow> queue" where
  "queue_init esize cnt = queue_init_with_spinlock esize cnt"

definition queue_get_level_unsafe :: "queue \<Rightarrow> u32" where
  "queue_get_level_unsafe q =
     (let rc = uint (wptr q) - uint (rptr q)
      in word_of_int (if rc < 0 then rc + (uint (element_count q) + 1) else rc))"

definition queue_get_level :: "queue \<Rightarrow> u32" where
  "queue_get_level q = queue_get_level_unsafe q"

definition queue_is_empty :: "queue \<Rightarrow> bool" where
  "queue_is_empty q \<longleftrightarrow> queue_get_level q = 0"

definition queue_is_full :: "queue \<Rightarrow> bool" where
  "queue_is_full q \<longleftrightarrow> queue_get_level q = ucast (element_count q)"

section \<open>Operations\<close>

text \<open>The offset of an element in the block.\<close>

definition element_ptr :: "queue \<Rightarrow> u16 \<Rightarrow> u32" where
  "element_ptr q i = ucast i * ucast (element_size q)"

definition inc_index :: "queue \<Rightarrow> u16 \<Rightarrow> u16" where
  "inc_index q i = (let i1 = i + 1 in if i1 > element_count q then 0 else i1)"

definition read_bytes :: "u8 list \<Rightarrow> nat \<Rightarrow> nat \<Rightarrow> fault + u8 list" where
  "read_bytes bs p n = (if p + n \<le> length bs then Inr (take n (drop p bs)) else Inl OutOfBounds)"

definition write_bytes :: "u8 list \<Rightarrow> nat \<Rightarrow> u8 list \<Rightarrow> fault + u8 list" where
  "write_bytes bs p d =
     (if p + length d \<le> length bs then Inr (take p bs @ d @ drop (p + length d) bs) else Inl BufferOverflow)"

definition queue_add_internal :: "queue \<Rightarrow> u8 list \<Rightarrow> bool \<Rightarrow> fault + (queue \<times> bool)" where
  "queue_add_internal q d block =
     (if queue_get_level_unsafe q \<noteq> ucast (element_count q) then
        rbind (read_bytes d 0 (unat (element_size q))) (\<lambda>e.
        rbind (write_bytes (data q) (unat (element_ptr q (wptr q))) e) (\<lambda>bs.
          Inr (q\<lparr>data := bs, wptr := inc_index q (wptr q)\<rparr>, True)))
      else if block then Inl Blocked
      else Inr (q, False))"

definition queue_remove_internal :: "queue \<Rightarrow> bool \<Rightarrow> fault + (queue \<times> u8 list option)" where
  "queue_remove_internal q block =
     (if queue_get_level_unsafe q \<noteq> 0 then
        rbind (read_bytes (data q) (unat (element_ptr q (rptr q))) (unat (element_size q))) (\<lambda>e.
          Inr (q\<lparr>rptr := inc_index q (rptr q)\<rparr>, Some e))
      else if block then Inl Blocked
      else Inr (q, None))"

definition queue_peek_internal :: "queue \<Rightarrow> bool \<Rightarrow> fault + u8 list option" where
  "queue_peek_internal q block =
     (if queue_get_level_unsafe q \<noteq> 0 then
        rbind (read_bytes (data q) (unat (element_ptr q (rptr q))) (unat (element_size q))) (\<lambda>e.
          Inr (Some e))
      else if block then Inl Blocked
      else Inr None)"

definition queue_try_add :: "queue \<Rightarrow> u8 list \<Rightarrow> fault + (queue \<times> bool)" where
  "queue_try_add q d = queue_add_internal q d False"

definition queue_try_remove :: "queue \<Rightarrow> fault + (queue \<times> u8 list option)" where
  "queue_try_remove q = queue_remove_internal q False"

definition queue_try_peek :: "queue \<Rightarrow> fault + u8 list option" where
  "queue_try_peek q = queue_peek_internal q False"

definition queue_add_blocking :: "queue \<Rightarrow> u8 list \<Rightarrow> fault + queue" where
  "queue_add_blocking q d = rbind (queue_add_internal q d True) (\<lambda>(q1, _). Inr q1)"

definition queue_remove_blocking :: "queue \<Rightarrow> fault + (queue \<times> u8 list option)" where
  "queue_remove_blocking q = queue_remove_internal q True"

definition queue_peek_blocking :: "queue \<Rightarrow> fault + u8 list option" where
  "queue_peek_blocking q = queue_peek_internal q True"

section \<open>The contents of the ring\<close>

lemma u16_nat: "unat (x :: u16) < 65536" "0 \<le> uint x" "uint x < 65536"
  using unsigned_less [of x, where 'a = nat] unsigned_less [of x, where 'a = int] by simp_all


definition queue_inv :: "queue \<Rightarrow> bool" where
  "queue_inv q \<longleftrightarrow> length (data q) = (unat (element_count q) + 1) * unat (element_size q) \<and>
     wptr q \<le> element_count q \<and> rptr q \<le> element_count q"

definition slot :: "queue \<Rightarrow> nat \<Rightarrow> u8 list" where
  "slot q i = take (unat (element_size q)) (drop (i * unat (element_size q)) (data q))"

definition queue_items :: "queue \<Rightarrow> u8 list list" where
  "queue_items q = map (\<lambda>k. slot q ((unat (rptr q) + k) mod (unat (element_count q) + 1)))
     [0 ..< unat (queue_get_level_unsafe q)]"

lemma ring_level:
  fixes w r n :: int
  shows "0 \<le> w \<Longrightarrow> w \<le> n \<Longrightarrow> 0 \<le> r \<Longrightarrow> r \<le> n \<Longrightarrow> n < 2 ^ 16 \<Longrightarrow>
    0 \<le> (if w - r < 0 then w - r + (n + 1) else w - r) \<and>
    (if w - r < 0 then w - r + (n + 1) else w - r) < 2 ^ 32"
  by auto

lemma ring_level_nat:
  "int l = (if int w - int r < 0 then int w - int r + (int n + 1) else int w - int r) \<Longrightarrow> r \<le> n \<Longrightarrow>
   l = (if r \<le> w then w - r else w + (n + 1) - r)"
  by (auto split: if_splits)

lemma level_nat:
  assumes "queue_inv q"
  shows "unat (queue_get_level_unsafe q) =
    (if rptr q \<le> wptr q then unat (wptr q) - unat (rptr q)
     else unat (wptr q) + (unat (element_count q) + 1) - unat (rptr q))"
proof -
  let ?w = "uint (wptr q)" and ?r = "uint (rptr q)" and ?n = "uint (element_count q)"
  let ?x = "if ?w - ?r < 0 then ?w - ?r + (?n + 1) else ?w - ?r"
  have b: "?w \<le> ?n" "?r \<le> ?n" "?n < 2 ^ 16" "0 \<le> ?w" "0 \<le> ?r"
    using assms u16_nat [of "element_count q"] u16_nat [of "wptr q"] u16_nat [of "rptr q"]
    by (auto simp: queue_inv_def word_le_def)
  have "0 \<le> ?x \<and> ?x < 2 ^ 32" using ring_level [OF b(4,1,5,2,3)] .
  then have "0 \<le> ?x" "?x < 2 ^ 32" by blast+
  then have "uint (word_of_int ?x :: u32) = ?x" by (simp add: uint_word_of_int)
  then have "int (unat (queue_get_level_unsafe q)) = ?x"
    by (simp add: queue_get_level_unsafe_def Let_def)
  from ring_level_nat [OF this [unfolded uint_nat]] show ?thesis
    using assms by (simp add: queue_inv_def word_le_nat_alt)
qed

lemma inc_index_nat:
  assumes "i \<le> element_count q"
  shows "unat (inc_index q i) = (unat i + 1) mod (unat (element_count q) + 1)"
    and "inc_index q i \<le> element_count q"
proof -
  have i: "unat i \<le> unat (element_count q)" using assms by (simp add: word_le_nat_alt)
  have "unat (element_count q) < 65536" by (rule u16_nat)
  moreover have "i + 1 = 0" if "unat i = 65535"
    using that by (simp add: word_unat_eq_iff unat_word_ariths)
  ultimately consider "unat i + 1 < 65536" "unat (i + 1) = unat i + 1" | "unat i = 65535" "i + 1 = 0"
    using i by (cases "unat i = 65535") (auto simp: unat_word_ariths)
  then show "unat (inc_index q i) = (unat i + 1) mod (unat (element_count q) + 1)"
  proof cases
    case 1
    then show ?thesis using i by (auto simp: inc_index_def word_less_nat_alt Let_def mod_if)
  next
    case 2
    then have "unat (element_count q) = 65535" using i \<open>unat (element_count q) < 65536\<close> by simp
    then show ?thesis using 2 by (simp add: inc_index_def)
  qed
  show "inc_index q i \<le> element_count q" by (auto simp: inc_index_def Let_def not_less)
qed

lemma element_ptr_nat: "unat (element_ptr q i) = unat i * unat (element_size q)"
proof -
  have "unat i < 2 ^ 16" "unat (element_size q) < 2 ^ 16" using u16_nat [of i] u16_nat [of "element_size q"] by simp_all
  then have "unat i * unat (element_size q) < 2 ^ 16 * 2 ^ 16" by (intro mult_strict_mono) auto
  moreover have "take_bit 32 (unat i) = unat i" "take_bit 32 (unat (element_size q)) = unat (element_size q)"
    using u16_nat [of i] u16_nat [of "element_size q"] by (simp_all add: take_bit_nat_eq_self)
  ultimately show ?thesis by (simp add: element_ptr_def unat_word_ariths unsigned_ucast_eq)
qed

lemma read_slot:
  assumes "queue_inv q" "i \<le> element_count q"
  shows "read_bytes (data q) (unat (element_ptr q i)) (unat (element_size q)) = Inr (slot q (unat i))"
proof -
  have "unat i + 1 \<le> unat (element_count q) + 1" using assms(2) by (simp add: word_le_nat_alt)
  then have "(unat i + 1) * unat (element_size q) \<le> length (data q)"
    using assms(1) by (simp only: queue_inv_def mult_le_mono1)
  then show ?thesis by (simp add: read_bytes_def element_ptr_nat slot_def algebra_simps)
qed

lemma slot_write:
  assumes "p = i * s" "length e = s" "j * s + s \<le> length bs" "p + s \<le> length bs"
  shows "take s (drop (j * s) (take p bs @ e @ drop (p + s) bs)) =
    (if j = i then e else take s (drop (j * s) bs))"
proof -
  consider "j = i" | "j < i" | "i < j" by linarith
  then show ?thesis
  proof cases
    case 2
    then have "(j + 1) * s \<le> i * s" by (intro mult_le_mono1) simp
    then have "j * s + s \<le> i * s" by simp
    then have "i * s = j * s + (s + (i * s - (j * s + s)))" by simp
    then obtain d where "i * s = j * s + (s + d)" by blast
    then show ?thesis using assms 2 by (simp add: drop_take)
  next
    case 3
    then have "(i + 1) * s \<le> j * s" by (intro mult_le_mono1) simp
    then show ?thesis using assms 3 by (simp add: algebra_simps)
  qed (use assms in simp)
qed


text \<open>What the invariant says of the numbers.\<close>

lemma items_length:
  "length (queue_items q) = unat (queue_get_level_unsafe q)"
  by (simp add: queue_items_def)

lemma level_bound: "queue_inv q \<Longrightarrow> length (queue_items q) \<le> unat (element_count q)"
  by (auto simp: items_length level_nat queue_inv_def word_le_nat_alt)

lemma full_iff:
  "queue_get_level_unsafe q = ucast (element_count q) \<longleftrightarrow> length (queue_items q) = unat (element_count q)"
  using u16_nat [of "element_count q"]
  by (simp add: items_length word_unat_eq_iff unsigned_ucast_eq take_bit_nat_eq_self)

lemma empty_iff: "queue_get_level_unsafe q = 0 \<longleftrightarrow> queue_items q = []"
  by (simp add: items_length word_unat_eq_iff flip: length_0_conv)

lemma mod_wrap:
  fixes a m :: nat
  assumes "a < 2 * m"
  shows "a mod m = (if a < m then a else a - m)"
  using assms mod_if [of a m] by simp

lemma ring_positions:
  fixes w r n l :: nat
  assumes "w \<le> n" "r \<le> n" "l = (if r \<le> w then w - r else w + (n + 1) - r)"
  shows "(r + l) mod (n + 1) = w" "k < l \<Longrightarrow> (r + k) mod (n + 1) \<noteq> w"
    "l < n \<Longrightarrow> (if r \<le> (w + 1) mod (n + 1) then (w + 1) mod (n + 1) - r else (w + 1) mod (n + 1) + (n + 1) - r) = l + 1"
    "0 < l \<Longrightarrow> (if (r + 1) mod (n + 1) \<le> w then w - (r + 1) mod (n + 1) else w + (n + 1) - (r + 1) mod (n + 1)) = l - 1"
proof -
  have "l \<le> n" using assms by (simp split: if_splits)
  then show "(r + l) mod (n + 1) = w"
    using assms mod_wrap [of "r + l" "n + 1"] by (simp split: if_splits)
  show "(r + k) mod (n + 1) \<noteq> w" if "k < l"
    using assms that \<open>l \<le> n\<close> mod_wrap [of "r + k" "n + 1"] by (simp split: if_splits)
  show "(if r \<le> (w + 1) mod (n + 1) then (w + 1) mod (n + 1) - r else (w + 1) mod (n + 1) + (n + 1) - r) = l + 1"
    if "l < n" using assms that mod_wrap [of "w + 1" "n + 1"] by (simp split: if_splits; linarith)
  show "(if (r + 1) mod (n + 1) \<le> w then w - (r + 1) mod (n + 1) else w + (n + 1) - (r + 1) mod (n + 1)) = l - 1"
    if "0 < l" using assms that mod_wrap [of "r + 1" "n + 1"] by (simp split: if_splits; linarith)
qed

lemma queue_add_items:
  assumes inv: "queue_inv q" and room: "length (queue_items q) < unat (element_count q)"
    and d: "unat (element_size q) \<le> length d"
  shows "\<exists>q'. queue_add_internal q d block = Inr (q', True) \<and> queue_inv q' \<and>
    queue_items q' = queue_items q @ [take (unat (element_size q)) d] \<and>
    element_size q' = element_size q \<and> element_count q' = element_count q"
proof -
  let ?s = "unat (element_size q)" and ?n = "unat (element_count q)" and ?w = "unat (wptr q)"
  let ?e = "take ?s d" and ?l = "length (queue_items q)"
  let ?bs = "take (?w * ?s) (data q) @ ?e @ drop (?w * ?s + ?s) (data q)"
  define q' where "q' = q\<lparr>data := ?bs, wptr := inc_index q (wptr q)\<rparr>"
  have w: "wptr q \<le> element_count q" "?w \<le> ?n" "unat (rptr q) \<le> ?n"
    using inv by (simp_all add: queue_inv_def word_le_nat_alt)
  have len: "length (data q) = (?n + 1) * ?s" using inv by (simp add: queue_inv_def)
  have fit: "i * ?s + ?s \<le> length (data q)" if "i \<le> ?n" for i
  proof -
    have "(i + 1) * ?s \<le> (?n + 1) * ?s" using that by (intro mult_le_mono1) simp
    then show ?thesis by (simp add: len)
  qed
  have nf: "queue_get_level_unsafe q \<noteq> ucast (element_count q)" using room by (simp add: full_iff)
  have add: "queue_add_internal q d block = Inr (q', True)"
    using nf d fit [OF w(2)]
    by (simp add: queue_add_internal_def read_bytes_def write_bytes_def element_ptr_nat q'_def min_absorb2)
  have inv': "queue_inv q'"
    using inv inc_index_nat(2) [OF w(1)] fit [OF w(2)] d by (simp add: queue_inv_def q'_def min_absorb2)
  have l: "?l = (if unat (rptr q) \<le> ?w then ?w - unat (rptr q) else ?w + (?n + 1) - unat (rptr q))"
    using level_nat [OF inv] by (simp add: items_length word_le_nat_alt)
  note ring = ring_positions [OF w(2,3) l]
  have f': "unat (wptr q') = (?w + 1) mod (?n + 1)" "rptr q' = rptr q" "element_count q' = element_count q"
    "element_size q' = element_size q" "data q' = ?bs"
    using inc_index_nat(1) [OF w(1)] by (simp_all add: q'_def)
  have "unat (queue_get_level_unsafe q') = ?l + 1"
    using level_nat [OF inv'] ring(3) [OF room] by (simp only: f' word_le_nat_alt)
  moreover have s': "slot q' i = (if i = ?w then ?e else slot q i)" if "i \<le> ?n" for i
    using slot_write [of "?w * ?s" ?w ?s ?e i "data q"] fit [OF that] fit [OF w(2)] d
    by (simp add: slot_def f')
  ultimately have "queue_items q' = map (\<lambda>k. slot q' ((unat (rptr q) + k) mod (?n + 1))) ([0 ..< ?l] @ [?l])"
    by (simp add: queue_items_def f')
  also have "\<dots> = map (\<lambda>k. slot q ((unat (rptr q) + k) mod (?n + 1))) [0 ..< ?l] @ [?e]"
  proof -
    have "slot q' ((unat (rptr q) + k) mod (?n + 1)) = slot q ((unat (rptr q) + k) mod (?n + 1))" if "k < ?l" for k
      using s' [of "(unat (rptr q) + k) mod (?n + 1)"] ring(2) [OF that] mod_less_divisor [of "?n + 1"]
      by (simp add: less_Suc_eq_le)
    moreover have "slot q' ((unat (rptr q) + ?l) mod (?n + 1)) = ?e" using s' [OF w(2)] ring(1) by simp
    ultimately show ?thesis by simp
  qed
  also have "\<dots> = queue_items q @ [?e]" by (simp add: items_length queue_items_def)
  finally show ?thesis using add inv' f' by blast
qed

lemma queue_remove_items:
  assumes inv: "queue_inv q" and ne: "queue_items q = x # xs"
  shows "\<exists>q'. queue_remove_internal q block = Inr (q', Some x) \<and> queue_inv q' \<and> queue_items q' = xs \<and>
    element_size q' = element_size q \<and> element_count q' = element_count q"
proof -
  let ?n = "unat (element_count q)" and ?w = "unat (wptr q)" and ?l = "length (queue_items q)"
  let ?r = "unat (rptr q)"
  define q' where "q' = q\<lparr>rptr := inc_index q (rptr q)\<rparr>"
  have w: "rptr q \<le> element_count q" "?w \<le> ?n" "?r \<le> ?n"
    using inv by (simp_all add: queue_inv_def word_le_nat_alt)
  have nz: "queue_get_level_unsafe q \<noteq> 0" "0 < ?l" using ne by (simp_all add: empty_iff)
  have l: "?l = (if ?r \<le> ?w then ?w - ?r else ?w + (?n + 1) - ?r)"
    using level_nat [OF inv] by (simp add: items_length word_le_nat_alt)
  note ring = ring_positions [OF w(2,3) l]
  have items: "queue_items q = map (\<lambda>k. slot q ((?r + k) mod (?n + 1))) (0 # [1 ..< ?l])"
    using nz(2) by (simp add: queue_items_def items_length upt_conv_Cons)
  then have x: "x = slot q ?r" using ne w(3) by (simp add: mod_if)
  have rem: "queue_remove_internal q block = Inr (q', Some x)"
    using nz(1) read_slot [OF inv w(1)] by (simp add: queue_remove_internal_def q'_def x)
  have inv': "queue_inv q'" using inv inc_index_nat(2) [OF w(1)] by (simp add: queue_inv_def q'_def)
  have f': "unat (rptr q') = (?r + 1) mod (?n + 1)" "wptr q' = wptr q" "element_count q' = element_count q"
    "element_size q' = element_size q" "\<And>i. slot q' i = slot q i"
    using inc_index_nat(1) [OF w(1)] by (simp_all add: q'_def slot_def)
  have "unat (queue_get_level_unsafe q') = ?l - 1"
    using level_nat [OF inv'] ring(4) [OF nz(2)] by (simp only: f' word_le_nat_alt)
  then have "queue_items q' = map (\<lambda>k. slot q (((?r + 1) mod (?n + 1) + k) mod (?n + 1))) [0 ..< ?l - 1]"
    by (simp add: queue_items_def f')
  also have "\<dots> = map (\<lambda>k. slot q ((?r + k) mod (?n + 1))) (map Suc [0 ..< ?l - 1])"
    by (simp add: mod_add_left_eq)
  also have "map Suc [0 ..< ?l - 1] = [1 ..< ?l]" using nz(2) by (simp add: map_Suc_upt)
  finally show ?thesis using rem inv' f' items ne by auto
qed

lemma queue_peek_items:
  assumes inv: "queue_inv q" and ne: "queue_items q = x # xs"
  shows "queue_peek_internal q block = Inr (Some x)"
proof -
  from queue_remove_items [OF assms, of block]
  show ?thesis
    by (auto simp: queue_remove_internal_def queue_peek_internal_def rbind_eq_Inr_iff split: if_splits)
qed

lemma queue_init_inv:
  assumes "cnt < 65536" "esize < 65536"
  shows "queue_inv (queue_init esize cnt)" "queue_items (queue_init esize cnt) = []"
proof -
  have c: "unat cnt < 65536" "unat esize < 65536" using assms by (simp_all add: word_less_nat_alt)
  then have "unat (cnt + 1) = unat cnt + 1" by (simp add: unat_word_ariths)
  moreover have "unat (ucast cnt :: u16) = unat cnt" "unat (ucast esize :: u16) = unat esize"
    using c by (simp_all add: unsigned_ucast_eq take_bit_nat_eq_self)
  ultimately show "queue_inv (queue_init esize cnt)"
    by (simp add: queue_inv_def queue_init_def queue_init_with_spinlock_def)
  show "queue_items (queue_init esize cnt) = []"
    by (simp add: queue_items_def queue_init_def queue_init_with_spinlock_def queue_get_level_unsafe_def)
qed


section \<open>First in, first out\<close>

text \<open>
  What any queue promises, and what follows for every sequence of operations: what came out and
  what is still inside is what was inside and what was accepted, in order.
\<close>

datatype 'x queue_op = Add 'x | Take

fun queue_run :: "('q \<Rightarrow> 'x \<Rightarrow> fault + ('q \<times> bool)) \<Rightarrow> ('q \<Rightarrow> fault + ('q \<times> 'x option)) \<Rightarrow>
    'x queue_op list \<Rightarrow> 'q \<Rightarrow> fault + ('q \<times> 'x list \<times> 'x list)" where
  "queue_run add remove [] q = Inr (q, [], [])"
| "queue_run add remove (Add x # ops) q =
     rbind (add q x) (\<lambda>(q1, ok).
     rbind (queue_run add remove ops q1) (\<lambda>(q2, accepted, taken).
       Inr (q2, if ok then x # accepted else accepted, taken)))"
| "queue_run add remove (Take # ops) q =
     rbind (remove q) (\<lambda>(q1, r).
     rbind (queue_run add remove ops q1) (\<lambda>(q2, accepted, taken).
       Inr (q2, accepted, case r of None \<Rightarrow> taken | Some x \<Rightarrow> x # taken)))"

fun op_fits :: "('x \<Rightarrow> bool) \<Rightarrow> 'x queue_op \<Rightarrow> bool" where
  "op_fits f (Add x) \<longleftrightarrow> f x"
| "op_fits f Take \<longleftrightarrow> True"

locale fifo =
  fixes good :: "'q \<Rightarrow> bool" and items :: "'q \<Rightarrow> 'x list" and room :: "'q \<Rightarrow> nat"
    and fits :: "'q \<Rightarrow> 'x \<Rightarrow> bool"
    and add :: "'q \<Rightarrow> 'x \<Rightarrow> fault + ('q \<times> bool)" and remove :: "'q \<Rightarrow> fault + ('q \<times> 'x option)"
  assumes within_room: "good q \<Longrightarrow> length (items q) \<le> room q"
    and add_accepts: "good q \<Longrightarrow> fits q x \<Longrightarrow> length (items q) < room q \<Longrightarrow>
      \<exists>q'. add q x = Inr (q', True) \<and> good q' \<and> items q' = items q @ [x] \<and> room q' = room q \<and> fits q' = fits q"
    and add_full: "good q \<Longrightarrow> length (items q) = room q \<Longrightarrow> add q x = Inr (q, False)"
    and remove_first: "good q \<Longrightarrow> items q = x # xs \<Longrightarrow>
      \<exists>q'. remove q = Inr (q', Some x) \<and> good q' \<and> items q' = xs \<and> room q' = room q \<and> fits q' = fits q"
    and remove_empty: "good q \<Longrightarrow> items q = [] \<Longrightarrow> remove q = Inr (q, None)"
begin

lemma run_in_order:
  "good q \<Longrightarrow> \<forall>op \<in> set ops. op_fits (fits q) op \<Longrightarrow>
   \<exists>q' accepted taken. queue_run add remove ops q = Inr (q', accepted, taken) \<and> good q' \<and>
     room q' = room q \<and> items q @ accepted = taken @ items q'"
proof (induction ops arbitrary: q)
  case (Cons op ops)
  show ?case
  proof (cases op)
    case (Add x)
    show ?thesis
    proof (cases "length (items q) < room q")
      case True
      obtain q1 where q1: "add q x = Inr (q1, True)" "good q1" "items q1 = items q @ [x]"
        "room q1 = room q" "fits q1 = fits q"
        using add_accepts [OF Cons.prems(1) _ True, of x] Cons.prems(2) Add by auto
      from Cons.IH [OF q1(2)] Cons.prems(2) q1 show ?thesis by (auto simp: Add)
    next
      case False
      then have "add q x = Inr (q, False)"
        using add_full [OF Cons.prems(1)] within_room [OF Cons.prems(1)] by simp
      then show ?thesis using Cons.IH [OF Cons.prems(1)] Cons.prems(2) by (auto simp: Add)
    qed
  next
    case Take
    show ?thesis
    proof (cases "items q")
      case Nil
      then show ?thesis
        using remove_empty [OF Cons.prems(1)] Cons.IH [OF Cons.prems(1)] Cons.prems(2) by (auto simp: Take)
    next
      case (Cons x xs)
      obtain q1 where q1: "remove q = Inr (q1, Some x)" "good q1" "items q1 = xs" "room q1 = room q"
        "fits q1 = fits q"
        using remove_first [OF Cons.prems(1) Cons] by blast
      from Cons.IH [OF q1(2)] Cons.prems(2) q1 Cons show ?thesis by (auto simp: Take)
    qed
  qed
qed simp

end

interpretation pico_queue: fifo queue_inv queue_items "\<lambda>q. unat (element_count q)"
  "\<lambda>q x. length x = unat (element_size q)" queue_try_add queue_try_remove
proof unfold_locales
  fix q :: queue and x :: "u8 list" and xs
  assume q: "queue_inv q"
  show "length (queue_items q) \<le> unat (element_count q)" using q by (rule level_bound)
  show "\<exists>q'. queue_try_add q x = Inr (q', True) \<and> queue_inv q' \<and> queue_items q' = queue_items q @ [x] \<and>
      unat (element_count q') = unat (element_count q) \<and>
      (\<lambda>x. length x = unat (element_size q')) = (\<lambda>x. length x = unat (element_size q))"
    if "length x = unat (element_size q)" "length (queue_items q) < unat (element_count q)"
    using queue_add_items [OF q that(2), of x False] that(1) by (auto simp: queue_try_add_def)
  show "queue_try_add q x = Inr (q, False)" if "length (queue_items q) = unat (element_count q)"
    using that full_iff by (simp add: queue_try_add_def queue_add_internal_def)
  show "\<exists>q'. queue_try_remove q = Inr (q', Some x) \<and> queue_inv q' \<and> queue_items q' = xs \<and>
      unat (element_count q') = unat (element_count q) \<and>
      (\<lambda>x. length x = unat (element_size q')) = (\<lambda>x. length x = unat (element_size q))"
    if "queue_items q = x # xs"
    using queue_remove_items [OF q that, of False] by (auto simp: queue_try_remove_def)
  show "queue_try_remove q = Inr (q, None)" if "queue_items q = []"
    using that empty_iff by (simp add: queue_try_remove_def queue_remove_internal_def)
qed

text \<open>
  C40: A new queue of n elements never faults under any sequence of non-blocking additions and
  removals of values of its element size; the values removed followed by those still inside
  are the values accepted, in order, and never more than n are inside.
\<close>

theorem queue_in_order:
  assumes "cnt < 65536" "esize < 65536"
    and "\<forall>op \<in> set ops. op_fits (\<lambda>x. length x = unat esize) op"
  shows "\<exists>q' accepted taken. queue_run queue_try_add queue_try_remove ops (queue_init esize cnt) =
      Inr (q', accepted, taken) \<and> accepted = taken @ queue_items q' \<and> length (queue_items q') \<le> unat cnt"
proof -
  let ?q = "queue_init esize cnt"
  have c: "unat (element_count ?q) = unat cnt" "unat (element_size ?q) = unat esize"
    using assms(1,2) by (simp_all add: queue_init_def queue_init_with_spinlock_def unsigned_ucast_eq
        take_bit_nat_eq_self word_less_nat_alt)
  note i = queue_init_inv [OF assms(1,2)]
  from pico_queue.run_in_order [OF i(1), of ops] assms(3) i(2) c show ?thesis
    using pico_queue.within_room by fastforce
qed

theorem queue_in_order_witness:
  "\<exists>q' accepted taken. queue_run queue_try_add queue_try_remove [Add [1, 2], Add [3, 4], Take, Add [5, 6], Take]
      (queue_init 2 1) = Inr (q', accepted, taken) \<and> accepted = taken @ queue_items q' \<and>
      length (queue_items q') \<le> unat (1 :: u32)"
  by (rule queue_in_order) simp_all

end
