(* ===== verification/Claim.thy ===== *)
theory Claim
  imports Prelude
begin

text \<open>
  Ownership of hardware resources (\<open>hardware_claim/claim.c\<close>) and of spin locks
  (\<open>hardware_sync/sync.c\<close>): a resource is claimed if its bit is set in an array of bytes. The
  functions run under the claim lock, so each is one step; the lock itself is not part of the
  state. The 32-bit word of the spin locks is accessed as its four bytes, as the source casts it.
\<close>

unbundle bit_operations_syntax

section \<open>Claim bits\<close>

definition hw_is_claimed :: "u8 list \<Rightarrow> u32 \<Rightarrow> fault + bool" where
  "hw_is_claimed bits bit_index =
     (let i = unat (drop_bit 3 bit_index)
      in if i < length bits
         then Inr ((ucast (bits ! i) :: u32) AND push_bit (unat (bit_index AND 7)) 1 \<noteq> 0)
         else Inl OutOfBounds)"

definition set_claim :: "u8 list \<Rightarrow> u32 \<Rightarrow> u8 list" where
  "set_claim bits bit_index =
     (let i = unat (drop_bit 3 bit_index)
      in bits[i := bits ! i OR ucast (push_bit (unat (bit_index AND 7)) 1 :: u32)])"

definition hw_claim_or_assert :: "u8 list \<Rightarrow> u32 \<Rightarrow> fault + u8 list" where
  "hw_claim_or_assert bits bit_index =
     rbind (hw_is_claimed bits bit_index) (\<lambda>c.
       if c then Inl Panic else Inr (set_claim bits bit_index))"

fun claim_first :: "nat \<Rightarrow> u8 list \<Rightarrow> u32 \<Rightarrow> u32 \<Rightarrow> fault + (u8 list \<times> int)" where
  "claim_first 0 bits b bit_msb = Inl Exhausted"
| "claim_first (Suc fuel) bits b bit_msb =
     (if b \<le> bit_msb then
        rbind (hw_is_claimed bits b) (\<lambda>c.
          if \<not> c then Inr (set_claim bits b, sint b) else claim_first fuel bits (b + 1) bit_msb)
      else Inr (bits, -1))"

definition hw_claim_unused_from_range :: "u8 list \<Rightarrow> bool \<Rightarrow> u32 \<Rightarrow> u32 \<Rightarrow> fault + (u8 list \<times> int)" where
  "hw_claim_unused_from_range bits required bit_lsb bit_msb =
     rbind (claim_first (unat bit_msb + 2 - unat bit_lsb) bits bit_lsb bit_msb) (\<lambda>(bits1, found_bit).
       if found_bit < 0 \<and> required then Inl Panic else Inr (bits1, found_bit))"

definition hw_claim_clear :: "u8 list \<Rightarrow> u32 \<Rightarrow> fault + u8 list" where
  "hw_claim_clear bits bit_index =
     (let i = unat (drop_bit 3 bit_index)
      in if i < length bits
         then Inr (bits[i := bits ! i AND ucast (NOT (push_bit (unat (bit_index AND 7)) 1 :: u32))])
         else Inl OutOfBounds)"

section \<open>Spin lock numbers\<close>

definition NUM_SPIN_LOCKS :: u32 where "NUM_SPIN_LOCKS = 32"
definition PICO_SPINLOCK_ID_STRIPED_FIRST :: u8 where "PICO_SPINLOCK_ID_STRIPED_FIRST = 16"
definition PICO_SPINLOCK_ID_STRIPED_LAST :: u8 where "PICO_SPINLOCK_ID_STRIPED_LAST = 23"
definition PICO_SPINLOCK_ID_CLAIM_FREE_FIRST :: u32 where "PICO_SPINLOCK_ID_CLAIM_FREE_FIRST = 24"
definition PICO_SPINLOCK_ID_CLAIM_FREE_LAST :: u32 where "PICO_SPINLOCK_ID_CLAIM_FREE_LAST = 31"

record sync_state =
  striped_spin_lock_num :: u8
  lock_claims :: "u8 list"
  lock_taken :: "u32 \<Rightarrow> bool"

definition sync_reset :: sync_state where
  "sync_reset = \<lparr>striped_spin_lock_num = PICO_SPINLOCK_ID_STRIPED_FIRST, lock_claims = [0, 0, 0, 0],
     lock_taken = (\<lambda>_. False)\<rparr>"

definition spin_unlock_unsafe :: "u32 \<Rightarrow> sync_state \<Rightarrow> sync_state" where
  "spin_unlock_unsafe lock_num s = s\<lparr>lock_taken := (lock_taken s)(lock_num := False)\<rparr>"

definition spin_lock_unsafe_blocking :: "u32 \<Rightarrow> sync_state \<Rightarrow> fault + sync_state" where
  "spin_lock_unsafe_blocking lock_num s =
     (if lock_taken s lock_num then Inl Blocked else Inr (s\<lparr>lock_taken := (lock_taken s)(lock_num := True)\<rparr>))"

definition is_spin_locked :: "u32 \<Rightarrow> sync_state \<Rightarrow> bool" where
  "is_spin_locked lock_num s = lock_taken s lock_num"

definition spin_locks_reset :: "sync_state \<Rightarrow> sync_state" where
  "spin_locks_reset s = fold (\<lambda>i. spin_unlock_unsafe (word_of_nat i)) [0 ..< unat NUM_SPIN_LOCKS] s"

definition spin_lock_init :: "u32 \<Rightarrow> sync_state \<Rightarrow> sync_state" where
  "spin_lock_init lock_num s = spin_unlock_unsafe lock_num s"

definition next_striped_spin_lock_num :: "sync_state \<Rightarrow> u32 \<times> sync_state" where
  "next_striped_spin_lock_num s =
     (let n = striped_spin_lock_num s + 1
      in (ucast (striped_spin_lock_num s),
          s\<lparr>striped_spin_lock_num := if n > PICO_SPINLOCK_ID_STRIPED_LAST then PICO_SPINLOCK_ID_STRIPED_FIRST else n\<rparr>))"

definition spin_lock_claim :: "u32 \<Rightarrow> sync_state \<Rightarrow> fault + sync_state" where
  "spin_lock_claim lock_num s =
     rbind (hw_claim_or_assert (lock_claims s) lock_num) (\<lambda>bits. Inr (s\<lparr>lock_claims := bits\<rparr>))"

fun claim_mask_loop :: "nat \<Rightarrow> u32 \<Rightarrow> u32 \<Rightarrow> sync_state \<Rightarrow> fault + sync_state" where
  "claim_mask_loop 0 i msk s = Inl Exhausted"
| "claim_mask_loop (Suc fuel) i msk s =
     (if msk = 0 then Inr s
      else rbind (if msk AND 1 \<noteq> 0 then spin_lock_claim i s else Inr s)
             (claim_mask_loop fuel (i + 1) (drop_bit 1 msk)))"

definition spin_lock_claim_mask :: "u32 \<Rightarrow> sync_state \<Rightarrow> fault + sync_state" where
  "spin_lock_claim_mask msk s = claim_mask_loop 33 0 msk s"

definition spin_lock_unclaim :: "u32 \<Rightarrow> sync_state \<Rightarrow> fault + sync_state" where
  "spin_lock_unclaim lock_num s =
     (let s1 = spin_unlock_unsafe lock_num s
      in rbind (hw_claim_clear (lock_claims s1) lock_num) (\<lambda>bits. Inr (s1\<lparr>lock_claims := bits\<rparr>)))"

definition spin_lock_claim_unused :: "bool \<Rightarrow> sync_state \<Rightarrow> fault + (sync_state \<times> int)" where
  "spin_lock_claim_unused required s =
     rbind (hw_claim_unused_from_range (lock_claims s) required
              PICO_SPINLOCK_ID_CLAIM_FREE_FIRST PICO_SPINLOCK_ID_CLAIM_FREE_LAST) (\<lambda>(bits, n).
       Inr (s\<lparr>lock_claims := bits\<rparr>, n))"

definition spin_lock_is_claimed :: "u32 \<Rightarrow> sync_state \<Rightarrow> fault + bool" where
  "spin_lock_is_claimed lock_num s = hw_is_claimed (lock_claims s) lock_num"

section \<open>The claim bits as a set\<close>

text \<open>Resource \<open>n\<close> is bit \<open>n mod 8\<close> of byte \<open>n div 8\<close>.\<close>

definition claims :: "u8 list \<Rightarrow> nat set" where
  "claims bits = {n. n < 8 * length bits \<and> bit (bits ! (n div 8)) (n mod 8)}"

lemma index_div_mod:
  "unat (drop_bit 3 (b :: u32)) = unat b div 8" "unat ((b :: u32) AND 7) = unat b mod 8"
proof -
  show "unat (drop_bit 3 b) = unat b div 8" by (simp add: drop_bit_eq_div unat_div)
  have "b AND 7 = take_bit 3 b" using take_bit_eq_mask [of 3 b] by (simp add: mask_eq_decr_exp)
  then show "unat (b AND 7) = unat b mod 8" by (simp add: unat_mod take_bit_eq_mod)
qed

lemma and_single_bit: "k < 8 \<Longrightarrow> ((ucast (x :: u8) :: u32) AND 2 ^ k \<noteq> 0) = bit x k"
  by (simp add: and_exp_eq_0_iff_not_bit bit_simps)

lemma is_claimed_set:
  "unat b < 8 * length bits \<Longrightarrow> hw_is_claimed bits b = Inr (unat b \<in> claims bits)"
  by (simp add: hw_is_claimed_def Let_def index_div_mod and_single_bit claims_def div_less_iff_less_mult mult.commute)

lemma length_set_claim [simp]: "length (set_claim bits b) = length bits"
  by (simp add: set_claim_def Let_def)

lemma bit_one_byte:
  "k < 8 \<Longrightarrow> bit (ucast (2 ^ k :: u32) :: u8) j = (j = k)"
  "k < 8 \<Longrightarrow> bit (ucast (NOT (2 ^ k :: u32)) :: u8) j = (j < 8 \<and> j \<noteq> k)"
  by (auto simp: bit_simps)

lemma div_mod_eq: "(n :: nat) div 8 = m div 8 \<Longrightarrow> n mod 8 = m mod 8 \<Longrightarrow> n = m"
  by (metis div_mult_mod_eq)

lemma claims_set_claim:
  assumes "unat b < 8 * length bits"
  shows "claims (set_claim bits b) = insert (unat b) (claims bits)"
proof -
  have i: "unat b div 8 < length bits" using assms by (simp add: div_less_iff_less_mult mult.commute)
  show ?thesis
    using assms i by (auto simp: claims_def set_claim_def Let_def index_div_mod bit_or_iff bit_one_byte
        nth_list_update dest: div_mod_eq)
qed

lemma claims_clear:
  assumes "unat b < 8 * length bits"
  shows "\<exists>bits'. hw_claim_clear bits b = Inr bits' \<and> length bits' = length bits \<and>
    claims bits' = claims bits - {unat b}"
proof -
  have i: "unat b div 8 < length bits" using assms by (simp add: div_less_iff_less_mult mult.commute)
  let ?c = "bits[unat b div 8 := bits ! (unat b div 8) AND ucast (NOT (2 ^ (unat b mod 8) :: u32))]"
  have "claims ?c = claims bits - {unat b}"
    using i by (auto simp: claims_def bit_and_iff bit_one_byte nth_list_update dest: div_mod_eq)
  then show ?thesis using i by (simp add: hw_claim_clear_def Let_def index_div_mod)
qed


lemma claim_first_result:
  "unat hi < 8 * length bits \<Longrightarrow> length bits \<le> 2 ^ 28 \<Longrightarrow> unat hi + 1 - unat lo < fuel \<Longrightarrow>
   claim_first fuel bits lo hi =
     (if \<exists>n. unat lo \<le> n \<and> n \<le> unat hi \<and> n \<notin> claims bits
      then let n = (LEAST n. unat lo \<le> n \<and> n \<le> unat hi \<and> n \<notin> claims bits)
           in Inr (set_claim bits (word_of_nat n), int n)
      else Inr (bits, -1))"
proof (induction fuel arbitrary: lo)
  case (Suc fuel)
  have hi: "unat hi < 2147483648" using Suc.prems(1,2) by simp
  show ?case
  proof (cases "lo \<le> hi")
    case False
    then have no: "\<not> (\<exists>n. unat lo \<le> n \<and> n \<le> unat hi \<and> n \<notin> claims bits)"
      by (simp add: word_le_nat_alt)
    show ?thesis unfolding if_not_P [OF no] using False by simp
  next
    case True
    then have lo: "unat lo \<le> unat hi" by (simp add: word_le_nat_alt)
    then have b: "unat lo < 8 * length bits" using Suc.prems(1) by simp
    show ?thesis
    proof (cases "unat lo \<in> claims bits")
      case False
      then have ex: "\<exists>n. unat lo \<le> n \<and> n \<le> unat hi \<and> n \<notin> claims bits" using lo by blast
      have "(LEAST n. unat lo \<le> n \<and> n \<le> unat hi \<and> n \<notin> claims bits) = unat lo"
        using False lo by (intro Least_equality) auto
      moreover have "sint lo = int (unat lo)"
      proof -
        have "int (unat lo) < 2147483648" using lo hi by linarith
        then have "uint lo < 2 ^ 31" by (simp only: uint_nat) simp
        then have "signed_take_bit 31 (uint lo) = uint lo"
          by (intro signed_take_bit_int_eq_self order_trans [OF _ uint_nonnegative]) simp_all
        then show ?thesis by (simp add: sint_uint)
      qed
      ultimately show ?thesis using True False b ex by (simp add: is_claimed_set)
    next
      case in_use: True
      have nx: "unat (lo + 1) = unat lo + 1" using lo hi by (simp add: unat_word_ariths)
      have eq: "(\<lambda>n. unat (lo + 1) \<le> n \<and> n \<le> unat hi \<and> n \<notin> claims bits) =
          (\<lambda>n. unat lo \<le> n \<and> n \<le> unat hi \<and> n \<notin> claims bits)"
        using in_use by (auto simp: fun_eq_iff nx Suc_le_eq le_less)
      have "claim_first (Suc fuel) bits lo hi = claim_first fuel bits (lo + 1) hi"
        using True in_use b by (simp add: is_claimed_set)
      also have "\<dots> = (if \<exists>n. (\<lambda>n. unat (lo + 1) \<le> n \<and> n \<le> unat hi \<and> n \<notin> claims bits) n
          then let n = Least (\<lambda>n. unat (lo + 1) \<le> n \<and> n \<le> unat hi \<and> n \<notin> claims bits)
               in Inr (set_claim bits (word_of_nat n), int n) else Inr (bits, -1))"
      proof (rule Suc.IH)
        show "unat hi + 1 - unat (lo + 1) < fuel" using Suc.prems(3) lo nx by linarith
      qed (rule Suc.prems)+
      finally show ?thesis unfolding eq .
    qed
  qed
qed simp

text \<open>
  Claiming any free resource of a range returns the lowest number of the range that nobody
  has claimed, and afterwards exactly that one is claimed in addition; when every number of the
  range is taken nothing changes and the result is -1, or the code panics if one is required.
\<close>

lemma claim_lowest_free:
  assumes "unat hi < 8 * length bits" "length bits \<le> 2 ^ 28" "unat lo \<le> unat hi"
  shows "if {unat lo .. unat hi} \<subseteq> claims bits
    then hw_claim_unused_from_range bits required lo hi = (if required then Inl Panic else Inr (bits, -1))
    else \<exists>bits' n. hw_claim_unused_from_range bits required lo hi = Inr (bits', int n) \<and>
      n \<in> {unat lo .. unat hi} \<and> n \<notin> claims bits \<and> claims bits' = insert n (claims bits) \<and>
      (\<forall>k. unat lo \<le> k \<and> k < n \<longrightarrow> k \<in> claims bits)"
proof -
  let ?P = "\<lambda>n. unat lo \<le> n \<and> n \<le> unat hi \<and> n \<notin> claims bits"
  have r: "claim_first (unat hi + 2 - unat lo) bits lo hi =
     (if Ex ?P then let n = Least ?P in Inr (set_claim bits (word_of_nat n), int n) else Inr (bits, -1))"
    using assms by (intro claim_first_result) simp_all
  show ?thesis
  proof (cases "{unat lo .. unat hi} \<subseteq> claims bits")
    case True
    then have no: "\<not> Ex ?P" by auto
    then show ?thesis using True r [unfolded if_not_P [OF no]] by (simp add: hw_claim_unused_from_range_def)
  next
    case False
    then have ex: "Ex ?P" by auto
    define n where "n = Least ?P"
    have n: "?P n" unfolding n_def using ex by (rule LeastI_ex)
    have least: "\<forall>k. unat lo \<le> k \<and> k < n \<longrightarrow> k \<in> claims bits"
      using n not_less_Least [of _ ?P] unfolding n_def by (meson less_imp_le less_le_trans)
    have "unat (word_of_nat n :: u32) = n"
      using n assms by (simp add: unat_of_nat take_bit_nat_eq_self unsigned_of_nat)
    then have "claims (set_claim bits (word_of_nat n)) = insert n (claims bits)"
      using n assms(1) claims_set_claim [of "word_of_nat n" bits] by simp
    moreover have "hw_claim_unused_from_range bits required lo hi = Inr (set_claim bits (word_of_nat n), int n)"
      using r ex by (simp add: hw_claim_unused_from_range_def n_def Let_def)
    ultimately show ?thesis using False n least by auto
  qed
qed

section \<open>Spin locks\<close>

text \<open>The striped numbers are handed out in rotation.\<close>

lemma next_striped_range:
  assumes "16 \<le> striped_spin_lock_num s" "striped_spin_lock_num s \<le> 23"
    and "next_striped_spin_lock_num s = (n, s')"
  shows "16 \<le> n \<and> n \<le> 23" "16 \<le> striped_spin_lock_num s' \<and> striped_spin_lock_num s' \<le> 23"
proof -
  have r: "16 \<le> unat (striped_spin_lock_num s)" "unat (striped_spin_lock_num s) \<le> 23"
    using assms(1,2) by (simp_all add: word_le_nat_alt)
  have n: "n = ucast (striped_spin_lock_num s)" using assms(3) by (simp add: next_striped_spin_lock_num_def Let_def)
  have "unat n = unat (striped_spin_lock_num s)" using r by (simp add: n unsigned_ucast_eq take_bit_nat_eq_self)
  then show "16 \<le> n \<and> n \<le> 23" using r by (simp add: word_le_nat_alt)
  have "unat (striped_spin_lock_num s + 1) = unat (striped_spin_lock_num s) + 1" using r by (simp add: unat_word_ariths)
  then show "16 \<le> striped_spin_lock_num s' \<and> striped_spin_lock_num s' \<le> 23"
    using assms(3) r by (auto simp: next_striped_spin_lock_num_def Let_def PICO_SPINLOCK_ID_STRIPED_LAST_def
        PICO_SPINLOCK_ID_STRIPED_FIRST_def word_le_nat_alt word_less_nat_alt)
qed

end
