(* ===== verification/Irq.thy ===== *)
theory Irq
  imports Claim
begin

text \<open>
  Interrupt control (\<open>hardware_irq/irq.c\<close>) of the executing core: the enable, pending and priority
  registers of the interrupt controller, the vector table in RAM with exclusive handlers, and the
  chains of shared handlers. A slot of a chain is executable code: three instructions, a link to
  the next slot and the handler; the vector of a shared interrupt is the address of its first
  slot. Addresses are 32-bit words; those the linker chooses are part of the state.
\<close>

unbundle bit_operations_syntax

section \<open>State\<close>

text \<open>\<open>link\<close> is the source's \<open>int8_t\<close>; together with \<open>priority\<close> it can be overwritten as \<open>inst4\<close>.\<close>

record irq_slot =
  inst1 :: u16
  inst2 :: u16
  inst3 :: u16
  link :: u8
  priority :: u8
  handler :: u32

record irq_state =
  unhandled_user_irq :: u32
  slots_base :: u32
  first_slot_code :: u32
  remove_tail_code :: u32
  slots :: "irq_slot list"
  free_slot_head :: u8
  vtable :: "nat \<Rightarrow> u32"
  nvic_enabled :: u32
  nvic_pending :: u32
  nvic_ipr :: "nat \<Rightarrow> u32"
  current_exception :: nat
  user_irq_claimed :: "u8 list"

definition NUM_IRQS :: nat where "NUM_IRQS = 32"
definition NUM_USER_IRQS :: nat where "NUM_USER_IRQS = 6"
definition PICO_MAX_SHARED_IRQ_HANDLERS :: nat where "PICO_MAX_SHARED_IRQ_HANDLERS = 4"

section \<open>The interrupt controller\<close>

definition irq_set_mask_enabled :: "u32 \<Rightarrow> bool \<Rightarrow> irq_state \<Rightarrow> irq_state" where
  "irq_set_mask_enabled msk enabled s =
     (if enabled
      then s\<lparr>nvic_pending := nvic_pending s AND NOT msk, nvic_enabled := nvic_enabled s OR msk\<rparr>
      else s\<lparr>nvic_enabled := nvic_enabled s AND NOT msk\<rparr>)"

definition irq_set_enabled :: "nat \<Rightarrow> bool \<Rightarrow> irq_state \<Rightarrow> irq_state" where
  "irq_set_enabled num enabled = irq_set_mask_enabled (push_bit num 1) enabled"

definition irq_is_enabled :: "nat \<Rightarrow> irq_state \<Rightarrow> bool" where
  "irq_is_enabled num s \<longleftrightarrow> push_bit num 1 AND nvic_enabled s \<noteq> 0"

definition irq_set_pending :: "nat \<Rightarrow> irq_state \<Rightarrow> irq_state" where
  "irq_set_pending num s = s\<lparr>nvic_pending := nvic_pending s OR push_bit num 1\<rparr>"

definition irq_clear :: "nat \<Rightarrow> irq_state \<Rightarrow> irq_state" where
  "irq_clear num s = s\<lparr>nvic_pending := nvic_pending s AND NOT (push_bit (num mod 32) 1)\<rparr>"

definition irq_set_priority :: "nat \<Rightarrow> u8 \<Rightarrow> irq_state \<Rightarrow> irq_state" where
  "irq_set_priority num hardware_priority s =
     (let w = num div 4; k = 8 * (num mod 4)
      in s\<lparr>nvic_ipr := (nvic_ipr s)(w :=
             (nvic_ipr s w AND NOT (push_bit k 0xff)) OR push_bit k (ucast hardware_priority))\<rparr>)"

definition irq_get_priority :: "nat \<Rightarrow> irq_state \<Rightarrow> u8" where
  "irq_get_priority num s = ucast (drop_bit (8 * (num mod 4)) (nvic_ipr s (num div 4)))"

definition PICO_DEFAULT_IRQ_PRIORITY :: u32 where "PICO_DEFAULT_IRQ_PRIORITY = 0x80"

definition irq_init_priorities :: "irq_state \<Rightarrow> irq_state" where
  "irq_init_priorities s =
     (let prio4 = (PICO_DEFAULT_IRQ_PRIORITY AND 0xff) * 0x1010101
      in fold (\<lambda>i s. s\<lparr>nvic_ipr := (nvic_ipr s)(i := prio4)\<rparr>) [0 ..< NUM_IRQS div 4] s)"

section \<open>The vector table\<close>

definition add_thumb_bit :: "u32 \<Rightarrow> u32" where
  "add_thumb_bit addr = addr OR 1"

definition remove_thumb_bit :: "u32 \<Rightarrow> u32" where
  "remove_thumb_bit addr = addr AND NOT 1"

definition slots_size :: "irq_state \<Rightarrow> u32" where
  "slots_size s = 12 * of_nat (length (slots s))"

definition is_shared_irq_raw_handler :: "irq_state \<Rightarrow> u32 \<Rightarrow> bool" where
  "is_shared_irq_raw_handler s raw_handler \<longleftrightarrow> raw_handler - slots_base s < slots_size s"

definition irq_get_vtable_handler :: "nat \<Rightarrow> irq_state \<Rightarrow> u32" where
  "irq_get_vtable_handler num s = vtable s (16 + num)"

definition irq_has_shared_handler :: "nat \<Rightarrow> irq_state \<Rightarrow> bool" where
  "irq_has_shared_handler num s \<longleftrightarrow>
     (let h = irq_get_vtable_handler num s in h \<noteq> 0 \<and> is_shared_irq_raw_handler s h)"

definition set_raw_irq_handler_and_unlock :: "nat \<Rightarrow> u32 \<Rightarrow> irq_state \<Rightarrow> irq_state" where
  "set_raw_irq_handler_and_unlock num h s = s\<lparr>vtable := (vtable s)(16 + num := h)\<rparr>"

definition irq_set_exclusive_handler :: "nat \<Rightarrow> u32 \<Rightarrow> irq_state \<Rightarrow> fault + irq_state" where
  "irq_set_exclusive_handler num h s =
     (let current = irq_get_vtable_handler num s
      in if current = unhandled_user_irq s \<or> current = h
         then Inr (set_raw_irq_handler_and_unlock num h s)
         else Inl Panic)"

definition irq_get_exclusive_handler :: "nat \<Rightarrow> irq_state \<Rightarrow> u32" where
  "irq_get_exclusive_handler num s =
     (let current = irq_get_vtable_handler num s
      in if current = unhandled_user_irq s \<or> is_shared_irq_raw_handler s current then 0 else current)"

section \<open>Instructions\<close>

definition make_branch :: "u32 \<Rightarrow> u32 \<Rightarrow> u16" where
  "make_branch from_addr to_addr =
     (let delta = to_addr - from_addr - 4
      in ucast (0xe000 OR (drop_bit 1 delta AND 0x7ff)))"

text \<open>The two half words that the call of the code that removes the tail writes.\<close>

definition insert_branch_and_link :: "u32 \<Rightarrow> u32 \<Rightarrow> u16 \<times> u16" where
  "insert_branch_and_link from_addr to_addr =
     (let delta = (to_addr - from_addr - 4) div 2
      in (ucast (0xf000 OR (drop_bit 11 delta AND 0x7ff)), ucast (0xf800 OR (delta AND 0x7ff))))"

text \<open>The division is exact; adding to a pointer to half words counts twice.\<close>

definition resolve_branch :: "u32 \<Rightarrow> u16 \<Rightarrow> u32" where
  "resolve_branch inst_addr inst =
     (let i_addr = sint (push_bit 21 (ucast inst) :: u32) div 2 ^ 21
      in inst_addr + 2 * (2 + word_of_int i_addr))"

text \<open>The subtraction sets the carry unless it borrows.\<close>

definition slot_diff :: "u32 \<Rightarrow> u32 \<Rightarrow> u8" where
  "slot_diff to_addr from_addr =
     (let d = to_addr - from_addr; c = (if from_addr \<le> to_addr then 1 else 0)
      in ucast (drop_bit 20 (0xaaaa * (d + d + c))))"

definition get_slot_index :: "irq_state \<Rightarrow> u32 \<Rightarrow> u8" where
  "get_slot_index s slot_addr = slot_diff slot_addr (slots_base s)"

definition slot_addr :: "irq_state \<Rightarrow> nat \<Rightarrow> u32" where
  "slot_addr s i = slots_base s + 12 * of_nat i"

text \<open>Following a pointer to a slot.\<close>

definition slot_at :: "irq_state \<Rightarrow> u32 \<Rightarrow> fault + nat" where
  "slot_at s addr =
     (let d = unat (addr - slots_base s)
      in if d mod 12 = 0 \<and> d div 12 < length (slots s) then Inr (d div 12) else Inl OutOfBounds)"

definition slot_index :: "irq_state \<Rightarrow> u8 \<Rightarrow> fault + nat" where
  "slot_index s l = (if 0 \<le> sint l \<and> unat l < length (slots s) then Inr (unat l) else Inl OutOfBounds)"

section \<open>Shared handlers\<close>

text \<open>The search for the last slot that goes before a new one of this priority.\<close>

fun chain_position :: "nat \<Rightarrow> irq_state \<Rightarrow> u8 \<Rightarrow> nat option \<Rightarrow> nat \<Rightarrow> fault + nat option" where
  "chain_position 0 s order_priority prev cur = Inl Exhausted"
| "chain_position (Suc fuel) s order_priority prev cur =
     (if priority (slots s ! cur) > order_priority then
        if sint (link (slots s ! cur)) < 0 then Inr (Some cur)
        else rbind (slot_index s (link (slots s ! cur))) (chain_position fuel s order_priority (Some cur))
      else Inr prev)"

definition irq_add_shared_handler :: "nat \<Rightarrow> u32 \<Rightarrow> u8 \<Rightarrow> irq_state \<Rightarrow> fault + irq_state" where
  "irq_add_shared_handler num h order_priority s =
     (if sint (free_slot_head s) < 0 then Inl Panic
      else rbind (slot_index s (free_slot_head s)) (\<lambda>i.
        let s1 = s\<lparr>free_slot_head := link (slots s ! i)\<rparr>;
            vtable_handler = vtable s1 (16 + num);
            a = slot_addr s1 i
        in if \<not> is_shared_irq_raw_handler s1 vtable_handler then
             if vtable_handler \<noteq> unhandled_user_irq s1 then Inl Panic
             else Inr (set_raw_irq_handler_and_unlock num (add_thumb_bit a)
                    (s1\<lparr>slots := (slots s1)[i :=
                       \<lparr>inst1 = 0xa100, inst2 = make_branch (a + 2) (first_slot_code s1), inst3 = 0xbd00,
                        link = -1, priority = order_priority, handler = h\<rparr>]\<rparr>))
           else
             rbind (slot_at s1 (remove_thumb_bit vtable_handler)) (\<lambda>e.
             rbind (chain_position (Suc (length (slots s1))) s1 order_priority None e) (\<lambda>prev.
               case prev of
                 Some p \<Rightarrow>
                   let ps = slots s1 ! p; pa = slot_addr s1 p;
                       i3 = (if sint (link ps) \<ge> 0
                             then make_branch (a + 4) (resolve_branch (pa + 4) (inst3 ps)) else 0xbd00);
                       slots1 = (slots s1)[p := ps\<lparr>inst3 := make_branch (pa + 4) a, link := of_nat i\<rparr>];
                       slots2 = slots1[i :=
                         \<lparr>inst1 = 0x4801, inst2 = 0x4780, inst3 = i3,
                          link = link ps, priority = order_priority, handler = h\<rparr>]
                   in Inr (set_raw_irq_handler_and_unlock num vtable_handler (s1\<lparr>slots := slots2\<rparr>))
               | None \<Rightarrow>
                   let ea = remove_thumb_bit vtable_handler;
                       slots1 = (slots s1)[i :=
                         \<lparr>inst1 = 0xa100, inst2 = make_branch (a + 2) (first_slot_code s1),
                          inst3 = make_branch (a + 4) ea, link = get_slot_index s1 ea,
                          priority = order_priority, handler = h\<rparr>];
                       slots2 = slots1[e := (slots1 ! e)\<lparr>inst1 := 0x4801, inst2 := 0x4780\<rparr>]
                   in Inr (set_raw_irq_handler_and_unlock num (add_thumb_bit a) (s1\<lparr>slots := slots2\<rparr>))))))"

fun find_handler :: "nat \<Rightarrow> irq_state \<Rightarrow> u32 \<Rightarrow> nat option \<Rightarrow> nat \<Rightarrow> fault + (nat option \<times> nat)" where
  "find_handler 0 s h prev cur = Inl Exhausted"
| "find_handler (Suc fuel) s h prev cur =
     (if handler (slots s ! cur) \<noteq> h then
        if sint (link (slots s ! cur)) < 0 then Inr (Some cur, cur)
        else rbind (slot_index s (link (slots s ! cur))) (find_handler fuel s h (Some cur))
      else Inr (prev, cur))"

text \<open>Taking a slot out of its chain, with the handler of the vector that results.\<close>

definition unlink_slot :: "nat option \<Rightarrow> nat \<Rightarrow> u32 \<Rightarrow> irq_state \<Rightarrow> fault + (irq_state \<times> u32)" where
  "unlink_slot prev t vtable_handler s =
     (let ts = slots s ! t; ta = slot_addr s t
      in if sint (link ts) \<ge> 0 then
           rbind (slot_index s (link ts)) (\<lambda>n.
             let ns = slots s ! n;
                 i3 = (if sint (link ns) \<ge> 0
                       then make_branch (ta + 4) (resolve_branch (slot_addr s n + 4) (inst3 ns)) else 0xbd00);
                 slots1 = (slots s)[t := ts\<lparr>handler := handler ns, priority := priority ns, link := link ns, inst3 := i3\<rparr>];
                 slots2 = slots1[n := (slots1 ! n)\<lparr>link := free_slot_head s\<rparr>]
             in Inr (s\<lparr>slots := slots2, free_slot_head := link ts\<rparr>, vtable_handler))
         else if current_exception s = 0 then
           let slots1 = (case prev of None \<Rightarrow> slots s
                 | Some p \<Rightarrow> (slots s)[p := (slots s ! p)\<lparr>link := -1, inst3 := 0xbd00\<rparr>]);
               slots2 = slots1[t := (slots1 ! t)\<lparr>link := free_slot_head s\<rparr>]
           in Inr (s\<lparr>slots := slots2, free_slot_head := get_slot_index s ta\<rparr>,
                   if prev = None then unhandled_user_irq s else vtable_handler)
         else
           let (i3, i4) = insert_branch_and_link (ta + 4) (remove_tail_code s)
           in Inr (s\<lparr>slots := (slots s)[t := ts\<lparr>inst3 := i3, link := ucast i4, priority := ucast (drop_bit 8 i4)\<rparr>]\<rparr>,
                   vtable_handler))"

definition irq_remove_handler :: "nat \<Rightarrow> u32 \<Rightarrow> irq_state \<Rightarrow> fault + irq_state" where
  "irq_remove_handler num h s =
     (let vtable_handler = vtable s (16 + num)
      in if vtable_handler \<noteq> unhandled_user_irq s \<and> vtable_handler \<noteq> h then
           if is_shared_irq_raw_handler s vtable_handler then
             let was_enabled = irq_is_enabled num s;
                 s1 = irq_set_enabled num False s
             in if \<not> (current_exception s1 = 0 \<or> current_exception s1 = num + 16) then Inl Panic
                else
                  rbind (slot_at s1 (remove_thumb_bit vtable_handler)) (\<lambda>e.
                  rbind (find_handler (Suc (length (slots s1))) s1 h None e) (\<lambda>(prev, t).
                  rbind (if handler (slots s1 ! t) = h then unlink_slot prev t vtable_handler s1
                         else Inr (s1, vtable_handler)) (\<lambda>(s2, vh).
                    Inr (set_raw_irq_handler_and_unlock num vh (irq_set_enabled num was_enabled s2)))))
           else Inr (set_raw_irq_handler_and_unlock num vtable_handler s)
         else Inr (set_raw_irq_handler_and_unlock num (unhandled_user_irq s) s))"

text \<open>The slots whose link is this one; the source stops at the first.\<close>

fun unlink_tail :: "u8 \<Rightarrow> irq_slot list \<Rightarrow> irq_slot list" where
  "unlink_tail i [] = []"
| "unlink_tail i (x # xs) =
     (if link x = i then x\<lparr>link := -1, inst3 := 0xbd00\<rparr> # xs else x # unlink_tail i xs)"

definition irq_add_tail_to_free_list :: "u32 \<Rightarrow> irq_state \<Rightarrow> fault + irq_state" where
  "irq_add_tail_to_free_list slot s =
     rbind (slot_at s slot) (\<lambda>t.
       let slot_handler = add_thumb_bit slot;
           i = get_slot_index s slot;
           s1 = (if slot_handler = vtable s (current_exception s)
                 then s\<lparr>vtable := (vtable s)(current_exception s := unhandled_user_irq s)\<rparr>
                 else s\<lparr>slots := unlink_tail i (slots s)\<rparr>)
       in Inr (s1\<lparr>slots := (slots s1)[t := (slots s1 ! t)\<lparr>link := free_slot_head s1\<rparr>], free_slot_head := i\<rparr>))"

section \<open>User interrupts\<close>

definition FIRST_USER_IRQ :: nat where "FIRST_USER_IRQ = NUM_IRQS - NUM_USER_IRQS"

definition get_user_irq_claim_index :: "nat \<Rightarrow> u32" where
  "get_user_irq_claim_index irq_num = of_nat NUM_IRQS - of_nat irq_num - 1"

definition user_irq_claim :: "nat \<Rightarrow> irq_state \<Rightarrow> fault + irq_state" where
  "user_irq_claim irq_num s =
     rbind (hw_claim_or_assert (user_irq_claimed s) (get_user_irq_claim_index irq_num)) (\<lambda>bits.
       Inr (s\<lparr>user_irq_claimed := bits\<rparr>))"

definition user_irq_unclaim :: "nat \<Rightarrow> irq_state \<Rightarrow> fault + irq_state" where
  "user_irq_unclaim irq_num s =
     rbind (hw_claim_clear (user_irq_claimed s) (get_user_irq_claim_index irq_num)) (\<lambda>bits.
       Inr (s\<lparr>user_irq_claimed := bits\<rparr>))"

definition user_irq_claim_unused :: "bool \<Rightarrow> irq_state \<Rightarrow> fault + (irq_state \<times> int)" where
  "user_irq_claim_unused required s =
     rbind (hw_claim_unused_from_range (user_irq_claimed s) required 0 (of_nat NUM_USER_IRQS - 1)) (\<lambda>(bits, b).
       Inr (s\<lparr>user_irq_claimed := bits\<rparr>, if b \<ge> 0 then int NUM_IRQS - b - 1 else b))"

definition user_irq_is_claimed :: "nat \<Rightarrow> irq_state \<Rightarrow> fault + bool" where
  "user_irq_is_claimed irq_num s = hw_is_claimed (user_irq_claimed s) (get_user_irq_claim_index irq_num)"

end
