(* ===== verification/Timer.thy ===== *)
theory Timer
  imports Irq
begin

text \<open>
  The timer (\<open>hardware_timer/timer.c\<close>, \<open>hardware/timer.h\<close>): the 64-bit microsecond counter, read
  as two 32-bit halves, and four alarms that compare with its low half. Time is given by the
  environment: \<open>clock k\<close> is the counter at the \<open>k\<close>-th access to the timer, and an alarm fires when
  the counter passes its value between two accesses. Code under the spin lock of the timer is one
  step. Loops that wait are given fuel; \<open>hardware_alarm_irq_handler\<close> returns the callback that it
  calls last.
\<close>

unbundle bit_operations_syntax

section \<open>The hardware\<close>

record timer_state =
  clock :: "nat \<Rightarrow> u64"
  ticks :: nat
  alarm :: "nat \<Rightarrow> u32"
  armed :: u32
  intr :: u32
  inte :: u32
  alarm_callbacks :: "nat \<Rightarrow> nat option"
  target_hi :: "nat \<Rightarrow> u32"
  timer_callbacks_pending :: u8
  alarm_claims :: "u8 list"
  irqs :: irq_state

definition NUM_TIMERS :: nat where "NUM_TIMERS = 4"
definition TIMER_IRQ_0 :: nat where "TIMER_IRQ_0 = 0"

text \<open>The code address of the interrupt handler.\<close>

definition alarm_irq_handler_code :: u32 where "alarm_irq_handler_code = 0x10000401"

text \<open>The halves of a 64-bit value, \<open>(uint32_t)(t >> 32)\<close> and \<open>(uint32_t) t\<close>.\<close>

definition hi_word :: "u64 \<Rightarrow> u32" where "hi_word v = ucast (drop_bit 32 v)"
definition lo_word :: "u64 \<Rightarrow> u32" where "lo_word v = ucast v"

definition now :: "timer_state \<Rightarrow> u64" where
  "now t = clock t (ticks t)"

text \<open>The counter takes the value \<open>a\<close> in its low half on its way from \<open>u\<close> to \<open>v\<close>.\<close>

definition passes :: "u64 \<Rightarrow> u64 \<Rightarrow> u32 \<Rightarrow> bool" where
  "passes u v a \<longleftrightarrow> unat (a - lo_word u - 1) < unat (v - u)"

definition fired :: "timer_state \<Rightarrow> u32" where
  "fired t = fold (\<lambda>i m. if bit (armed t) i \<and> passes (now t) (clock t (Suc (ticks t))) (alarm t i)
                         then m OR push_bit i 1 else m) [0 ..< NUM_TIMERS] 0"

definition pass_time :: "timer_state \<Rightarrow> timer_state" where
  "pass_time t = t\<lparr>ticks := Suc (ticks t), armed := armed t AND NOT (fired t), intr := intr t OR fired t\<rparr>"

definition timerawh :: "timer_state \<Rightarrow> u32 \<times> timer_state" where
  "timerawh t = (let t1 = pass_time t in (hi_word (now t1), t1))"

definition timerawl :: "timer_state \<Rightarrow> u32 \<times> timer_state" where
  "timerawl t = (let t1 = pass_time t in (lo_word (now t1), t1))"

definition read_armed :: "timer_state \<Rightarrow> u32 \<times> timer_state" where
  "read_armed t = (let t1 = pass_time t in (armed t1, t1))"

text \<open>Writing ones to the interrupt and the armed bits clears them; writing an alarm arms it.\<close>

definition write_intr :: "u32 \<Rightarrow> timer_state \<Rightarrow> timer_state" where
  "write_intr v t = (let t1 = pass_time t in t1\<lparr>intr := intr t1 AND NOT v\<rparr>)"

definition write_armed :: "u32 \<Rightarrow> timer_state \<Rightarrow> timer_state" where
  "write_armed v t = (let t1 = pass_time t in t1\<lparr>armed := armed t1 AND NOT v\<rparr>)"

definition write_alarm :: "nat \<Rightarrow> u32 \<Rightarrow> timer_state \<Rightarrow> timer_state" where
  "write_alarm n v t =
     (let t1 = pass_time t in t1\<lparr>alarm := (alarm t1)(n := v), armed := armed t1 OR push_bit n 1\<rparr>)"

section \<open>Reading the time\<close>

fun time_loop :: "nat \<Rightarrow> u32 \<Rightarrow> timer_state \<Rightarrow> fault + (u64 \<times> timer_state)" where
  "time_loop 0 hi t = Inl Exhausted"
| "time_loop (Suc fuel) hi t =
     (let (lo, t1) = timerawl t; (next_hi, t2) = timerawh t1
      in if hi = next_hi then Inr (push_bit 32 (ucast hi) OR ucast lo, t2)
         else time_loop fuel next_hi t2)"

definition time_us_64 :: "nat \<Rightarrow> timer_state \<Rightarrow> fault + (u64 \<times> timer_state)" where
  "time_us_64 fuel t = (let (hi, t1) = timerawh t in time_loop fuel hi t1)"

text \<open>The second half of the comparison is read only if the first allows it.\<close>

definition time_reached :: "u64 \<Rightarrow> timer_state \<Rightarrow> bool \<times> timer_state" where
  "time_reached target t =
     (let hi_target = hi_word target; (hi, t1) = timerawh t
      in if hi \<ge> hi_target
         then let (lo, t2) = timerawl t1 in (lo \<ge> lo_word target \<or> hi \<noteq> hi_target, t2)
         else (False, t1))"

section \<open>Busy waiting\<close>

fun wait_hi :: "nat \<Rightarrow> u32 \<Rightarrow> u32 \<Rightarrow> timer_state \<Rightarrow> fault + (u32 \<times> timer_state)" where
  "wait_hi 0 hi hi_target t = Inl Exhausted"
| "wait_hi (Suc fuel) hi hi_target t =
     (if hi < hi_target then let (hi1, t1) = timerawh t in wait_hi fuel hi1 hi_target t1
      else Inr (hi, t))"

fun wait_lo :: "nat \<Rightarrow> u32 \<Rightarrow> u64 \<Rightarrow> timer_state \<Rightarrow> fault + timer_state" where
  "wait_lo 0 hi target t = Inl Exhausted"
| "wait_lo (Suc fuel) hi target t =
     (if hi = hi_word target then
        let (lo, t1) = timerawl t
        in if lo < lo_word target then let (hi1, t2) = timerawh t1 in wait_lo fuel hi1 target t2
           else Inr t1
      else Inr t)"

definition busy_wait_until :: "nat \<Rightarrow> u64 \<Rightarrow> timer_state \<Rightarrow> fault + timer_state" where
  "busy_wait_until fuel target t =
     (let (hi, t1) = timerawh t
      in rbind (wait_hi fuel hi (hi_word target) t1) (\<lambda>(hi1, t2). wait_lo fuel hi1 target t2))"

definition busy_wait_us :: "nat \<Rightarrow> u64 \<Rightarrow> timer_state \<Rightarrow> fault + timer_state" where
  "busy_wait_us fuel delay_us t =
     rbind (time_us_64 fuel t) (\<lambda>(base, t1).
       let target = base + delay_us
       in busy_wait_until fuel (if target < base then -1 else target) t1)"

fun wait_delay :: "nat \<Rightarrow> u32 \<Rightarrow> u32 \<Rightarrow> timer_state \<Rightarrow> fault + timer_state" where
  "wait_delay 0 start delay_us t = Inl Exhausted"
| "wait_delay (Suc fuel) start delay_us t =
     (let (lo, t1) = timerawl t
      in if lo - start < delay_us then wait_delay fuel start delay_us t1 else Inr t1)"

definition busy_wait_us_32 :: "nat \<Rightarrow> u32 \<Rightarrow> timer_state \<Rightarrow> fault + timer_state" where
  "busy_wait_us_32 fuel delay_us t =
     (if 0 \<le> sint delay_us then let (start, t1) = timerawl t in wait_delay fuel start delay_us t1
      else busy_wait_us fuel (ucast delay_us) t)"

definition busy_wait_ms :: "nat \<Rightarrow> u32 \<Rightarrow> timer_state \<Rightarrow> fault + timer_state" where
  "busy_wait_ms fuel delay_ms t =
     (if delay_ms \<le> 0x7fffffff div 1000 then busy_wait_us_32 fuel (delay_ms * 1000) t
      else busy_wait_us fuel (ucast delay_ms * 1000) t)"

section \<open>Alarms\<close>

definition hardware_alarm_claim :: "nat \<Rightarrow> timer_state \<Rightarrow> fault + timer_state" where
  "hardware_alarm_claim alarm_num t =
     rbind (hw_claim_or_assert (alarm_claims t) (of_nat alarm_num)) (\<lambda>bits. Inr (t\<lparr>alarm_claims := bits\<rparr>))"

definition hardware_alarm_unclaim :: "nat \<Rightarrow> timer_state \<Rightarrow> fault + timer_state" where
  "hardware_alarm_unclaim alarm_num t =
     rbind (hw_claim_clear (alarm_claims t) (of_nat alarm_num)) (\<lambda>bits. Inr (t\<lparr>alarm_claims := bits\<rparr>))"

definition hardware_alarm_is_claimed :: "nat \<Rightarrow> timer_state \<Rightarrow> fault + bool" where
  "hardware_alarm_is_claimed alarm_num t = hw_is_claimed (alarm_claims t) (of_nat alarm_num)"

definition harware_alarm_irq_number :: "nat \<Rightarrow> nat" where
  "harware_alarm_irq_number alarm_num = TIMER_IRQ_0 + alarm_num"

definition pending_bit :: "nat \<Rightarrow> u8" where
  "pending_bit alarm_num = ucast (push_bit alarm_num 1 :: u32)"

text \<open>The alarm that raised the interrupt is known from the number of the exception.\<close>

definition hardware_alarm_irq_handler :: "timer_state \<Rightarrow> timer_state \<times> (nat \<times> nat) option" where
  "hardware_alarm_irq_handler t =
     (let alarm_num = current_exception (irqs t) - 16 - TIMER_IRQ_0;
          t1 = write_intr (push_bit alarm_num 1) t
      in if timer_callbacks_pending t1 AND pending_bit alarm_num \<noteq> 0 then
           let (hi, t2) = timerawh t1
           in if hi \<ge> target_hi t2 alarm_num then
                (t2\<lparr>timer_callbacks_pending := timer_callbacks_pending t2 AND NOT (pending_bit alarm_num)\<rparr>,
                 map_option (\<lambda>callback. (callback, alarm_num)) (alarm_callbacks t2 alarm_num))
              else let t3 = pass_time t2 in (write_alarm alarm_num (alarm t3 alarm_num) t3, None)
         else (t1, None))"

definition hardware_alarm_set_callback :: "nat \<Rightarrow> nat option \<Rightarrow> timer_state \<Rightarrow> fault + timer_state" where
  "hardware_alarm_set_callback alarm_num callback t =
     (let irq_num = harware_alarm_irq_number alarm_num
      in case callback of
           Some c \<Rightarrow>
             rbind (if alarm_irq_handler_code \<noteq> irq_get_vtable_handler irq_num (irqs t) then
                      rbind (irq_set_exclusive_handler irq_num alarm_irq_handler_code (irqs t)) (\<lambda>q.
                        Inr (t\<lparr>irqs := irq_set_enabled irq_num True q, inte := inte t OR push_bit alarm_num 1\<rparr>))
                    else Inr t) (\<lambda>t1.
               Inr (t1\<lparr>alarm_callbacks := (alarm_callbacks t1)(alarm_num := Some c)\<rparr>))
         | None \<Rightarrow>
             let t1 = t\<lparr>alarm_callbacks := (alarm_callbacks t)(alarm_num := None),
                        timer_callbacks_pending := timer_callbacks_pending t AND NOT (pending_bit alarm_num)\<rparr>
             in rbind (irq_remove_handler irq_num alarm_irq_handler_code (irqs t1)) (\<lambda>q.
                  Inr (t1\<lparr>irqs := irq_set_enabled irq_num False q\<rparr>)))"

definition hardware_alarm_set_target :: "nat \<Rightarrow> nat \<Rightarrow> u64 \<Rightarrow> timer_state \<Rightarrow> fault + (bool \<times> timer_state)" where
  "hardware_alarm_set_target fuel alarm_num target t =
     rbind (time_us_64 fuel t) (\<lambda>(now_us, t1).
       if now_us \<ge> target then Inr (True, t1)
       else
         let old_pending = timer_callbacks_pending t1;
             t2 = t1\<lparr>timer_callbacks_pending := timer_callbacks_pending t1 OR pending_bit alarm_num\<rparr>;
             t3 = write_intr (push_bit alarm_num 1) t2;
             t4 = write_alarm alarm_num (lo_word target) t3;
             t5 = t4\<lparr>target_hi := (target_hi t4)(alarm_num := hi_word target)\<rparr>;
             (a, t6) = read_armed t5
         in if a AND push_bit alarm_num 1 = 0 then Inr (False, t6)
            else
              rbind (time_us_64 fuel t6) (\<lambda>(now2, t7).
                if now2 \<ge> target then
                  if timer_callbacks_pending t7 \<noteq> old_pending then
                    let t8 = write_armed (push_bit alarm_num 1) t7;
                        t9 = write_intr (push_bit alarm_num 1) t8
                    in Inr (True, t9\<lparr>irqs := irq_clear (harware_alarm_irq_number alarm_num) (irqs t9),
                                     timer_callbacks_pending := old_pending\<rparr>)
                  else Inr (True, t7)
                else Inr (False, t7)))"

definition hardware_alarm_cancel :: "nat \<Rightarrow> timer_state \<Rightarrow> timer_state" where
  "hardware_alarm_cancel alarm_num t =
     (let t1 = write_armed (push_bit alarm_num 1) t
      in t1\<lparr>timer_callbacks_pending := timer_callbacks_pending t1 AND NOT (pending_bit alarm_num)\<rparr>)"

end
