(* ===== verification/Pheap.thy ===== *)
theory Pheap
  imports Prelude "HOL-Library.Tree"
begin

text \<open>
  The pairing heap of the SDK (\<open>pheap.c\<close>, \<open>pheap.h\<close>): nodes are numbered from 1 and linked by
  numbers; zero is no node. Nodes that are not in use form a list through \<open>sibling\<close>. The loops
  follow links and are given fuel, which runs out only on cyclic links.
\<close>

section \<open>The structure\<close>

record pheap_node =
  child :: nat
  sibling :: nat
  parent :: nat

record pheap =
  nodes :: "nat \<Rightarrow> pheap_node"
  max_nodes :: nat
  root_id :: nat
  free_head_id :: nat
  free_tail_id :: nat

type_synonym comparator = "nat \<Rightarrow> nat \<Rightarrow> bool"

definition is_node :: "pheap \<Rightarrow> nat \<Rightarrow> bool" where
  "is_node h i \<longleftrightarrow> i \<noteq> 0 \<and> i \<le> max_nodes h"

definition ph_get_node :: "pheap \<Rightarrow> nat \<Rightarrow> fault + pheap_node" where
  "ph_get_node h i = (if is_node h i then Inr (nodes h i) else Inl OutOfBounds)"

definition ph_put_node :: "nat \<Rightarrow> (pheap_node \<Rightarrow> pheap_node) \<Rightarrow> pheap \<Rightarrow> fault + pheap" where
  "ph_put_node i f h =
     (if is_node h i then Inr (h\<lparr>nodes := (nodes h)(i := f (nodes h i))\<rparr>) else Inl OutOfBounds)"

abbreviation set_child :: "nat \<Rightarrow> pheap_node \<Rightarrow> pheap_node" where
  "set_child j n \<equiv> n\<lparr>child := j\<rparr>"

abbreviation set_sibling :: "nat \<Rightarrow> pheap_node \<Rightarrow> pheap_node" where
  "set_sibling j n \<equiv> n\<lparr>sibling := j\<rparr>"

abbreviation set_parent :: "nat \<Rightarrow> pheap_node \<Rightarrow> pheap_node" where
  "set_parent j n \<equiv> n\<lparr>parent := j\<rparr>"

definition no_links :: pheap_node where
  "no_links = \<lparr>child = 0, sibling = 0, parent = 0\<rparr>"

section \<open>Set-up\<close>

fun link_free :: "nat list \<Rightarrow> pheap \<Rightarrow> fault + pheap" where
  "link_free [] h = Inr h"
| "link_free (i # is) h = rbind (ph_put_node i (set_sibling (i + 1)) h) (link_free is)"

definition ph_clear :: "pheap \<Rightarrow> fault + pheap" where
  "ph_clear h =
     (let h1 = h\<lparr>root_id := 0, free_head_id := 1, free_tail_id := max_nodes h\<rparr>
      in rbind (link_free [1 ..< max_nodes h] h1) (\<lambda>h2.
           ph_put_node (max_nodes h) (set_sibling 0) h2))"

definition ph_post_alloc_init :: "pheap \<Rightarrow> nat \<Rightarrow> fault + pheap" where
  "ph_post_alloc_init h n = ph_clear (h\<lparr>max_nodes := n\<rparr>)"

definition ph_create :: "nat \<Rightarrow> fault + pheap" where
  "ph_create n =
     ph_post_alloc_init
       \<lparr>nodes = (\<lambda>_. no_links), max_nodes = 0, root_id = 0, free_head_id = 0, free_tail_id = 0\<rparr> n"

section \<open>Merging\<close>

definition ph_add_child_node :: "pheap \<Rightarrow> nat \<Rightarrow> nat \<Rightarrow> fault + pheap" where
  "ph_add_child_node h p c =
     rbind (ph_get_node h p) (\<lambda>n.
     rbind (ph_put_node c (set_parent p) h) (\<lambda>h1.
       if child n = 0 then ph_put_node p (set_child c) h1
       else rbind (ph_put_node c (set_sibling (child n)) h1) (ph_put_node p (set_child c))))"

definition ph_merge_nodes :: "comparator \<Rightarrow> pheap \<Rightarrow> nat \<Rightarrow> nat \<Rightarrow> fault + (pheap \<times> nat)" where
  "ph_merge_nodes cmp h a b =
     (if a = 0 then Inr (h, b)
      else if b = 0 then Inr (h, a)
      else if cmp a b then rbind (ph_add_child_node h a b) (\<lambda>h1. Inr (h1, a))
      else rbind (ph_add_child_node h b a) (\<lambda>h1. Inr (h1, b)))"

text \<open>
  The two merges that are the arguments of the last one work on different nodes, so it does
  not matter which one is made first; C leaves that open.
\<close>

fun ph_merge_two_pass :: "nat \<Rightarrow> comparator \<Rightarrow> pheap \<Rightarrow> nat \<Rightarrow> fault + (pheap \<times> nat)" where
  "ph_merge_two_pass 0 cmp h i = Inl Exhausted"
| "ph_merge_two_pass (Suc fuel) cmp h i =
     (if i = 0 then Inr (h, i)
      else
        rbind (ph_get_node h i) (\<lambda>n.
          if sibling n = 0 then Inr (h, i)
          else
            rbind (ph_get_node h (sibling n)) (\<lambda>bn.
            rbind (ph_put_node (sibling n) (set_sibling 0) h) (\<lambda>h1.
            rbind (ph_put_node i (set_sibling 0) h1) (\<lambda>h2.
            rbind (ph_merge_nodes cmp h2 i (sibling n)) (\<lambda>(h3, ab).
            rbind (ph_merge_two_pass fuel cmp h3 (sibling bn)) (\<lambda>(h4, rest).
              ph_merge_nodes cmp h4 ab rest)))))))"

section \<open>Insertion and removal\<close>

definition ph_new_node :: "pheap \<Rightarrow> fault + (pheap \<times> nat)" where
  "ph_new_node h =
     (let i = free_head_id h
      in if i = 0 then Inr (h, 0)
         else
           rbind (ph_get_node h i) (\<lambda>hn.
             let h1 = h\<lparr>free_head_id := sibling hn\<rparr>;
                 h2 = (if free_head_id h1 = 0 then h1\<lparr>free_tail_id := 0\<rparr> else h1)
             in rbind (ph_put_node i (\<lambda>_. no_links) h2) (\<lambda>h3. Inr (h3, i))))"

definition ph_insert_node :: "comparator \<Rightarrow> pheap \<Rightarrow> nat \<Rightarrow> fault + (pheap \<times> nat)" where
  "ph_insert_node cmp h i =
     rbind (ph_put_node i (\<lambda>_. no_links) h) (\<lambda>h1.
     rbind (ph_merge_nodes cmp h1 (root_id h1) i) (\<lambda>(h2, r).
       Inr (h2\<lparr>root_id := r\<rparr>, r)))"

definition ph_peek_head :: "pheap \<Rightarrow> nat" where
  "ph_peek_head h = root_id h"

text \<open>Appending a node to the list of free ones, as both callers write it.\<close>

definition append_free :: "nat \<Rightarrow> pheap \<Rightarrow> fault + pheap" where
  "append_free i h =
     rbind (if free_tail_id h \<noteq> 0 then ph_put_node (free_tail_id h) (set_sibling i) h else Inr h)
       (\<lambda>h1. Inr (h1\<lparr>free_tail_id := i\<rparr>))"

definition ph_remove_any_head ::
    "comparator \<Rightarrow> pheap \<Rightarrow> nat \<Rightarrow> bool \<Rightarrow> fault + (pheap \<times> nat)" where
  "ph_remove_any_head cmp h r free =
     rbind (ph_get_node h r) (\<lambda>n.
     rbind (ph_merge_two_pass (Suc (max_nodes h)) cmp h (child n)) (\<lambda>(h1, new_root).
     rbind (if free then append_free r h1 else Inr h1) (\<lambda>h2.
     rbind (if new_root \<noteq> 0 then ph_put_node new_root (set_parent 0) h2 else Inr h2) (\<lambda>h3.
     rbind (ph_put_node r (set_sibling 0) h3) (\<lambda>h4.
       Inr (h4, new_root))))))"

definition ph_remove_head :: "comparator \<Rightarrow> pheap \<Rightarrow> bool \<Rightarrow> fault + (pheap \<times> nat)" where
  "ph_remove_head cmp h free =
     (let old_root = ph_peek_head h
      in rbind (ph_remove_any_head cmp h old_root free) (\<lambda>(h1, r).
           Inr (h1\<lparr>root_id := r\<rparr>, old_root)))"

definition ph_remove_and_free_head :: "comparator \<Rightarrow> pheap \<Rightarrow> fault + (pheap \<times> nat)" where
  "ph_remove_and_free_head cmp h = ph_remove_head cmp h True"

text \<open>The search for the previous sibling; it ends without an update if there is none.\<close>

fun unlink_sibling :: "nat \<Rightarrow> nat \<Rightarrow> nat \<Rightarrow> nat \<Rightarrow> pheap \<Rightarrow> fault + pheap" where
  "unlink_sibling 0 i next prev h = Inl Exhausted"
| "unlink_sibling (Suc fuel) i next prev h =
     rbind (ph_get_node h prev) (\<lambda>n.
       if sibling n = i then ph_put_node prev (set_sibling next) h
       else if sibling n = 0 then Inr h
       else unlink_sibling fuel i next (sibling n) h)"

definition ph_remove_and_free_node :: "comparator \<Rightarrow> pheap \<Rightarrow> nat \<Rightarrow> fault + (pheap \<times> bool)" where
  "ph_remove_and_free_node cmp h i =
     (if i = 0 then Inr (h, False)
      else if i = root_id h then rbind (ph_remove_and_free_head cmp h) (\<lambda>(h1, _). Inr (h1, True))
      else
        rbind (ph_get_node h i) (\<lambda>node.
          if parent node = 0 then Inr (h, False)
          else
            rbind (ph_get_node h (parent node)) (\<lambda>pn.
            rbind (if child pn = i then ph_put_node (parent node) (set_child (sibling node)) h
                   else unlink_sibling (Suc (max_nodes h)) i (sibling node) (child pn) h) (\<lambda>h1.
            rbind (ph_put_node i (\<lambda>n. n\<lparr>sibling := 0, parent := 0\<rparr>) h1) (\<lambda>h2.
            rbind (ph_remove_any_head cmp h2 i True) (\<lambda>(h3, new_sub_tree).
            rbind (ph_merge_nodes cmp h3 (root_id h3) new_sub_tree) (\<lambda>(h4, r).
              Inr (h4\<lparr>root_id := r\<rparr>, True))))))))"

definition ph_contains_node :: "pheap \<Rightarrow> nat \<Rightarrow> fault + bool" where
  "ph_contains_node h i =
     (if i = root_id h then Inr True else rbind (ph_get_node h i) (\<lambda>n. Inr (parent n \<noteq> 0)))"

definition ph_free_node :: "pheap \<Rightarrow> nat \<Rightarrow> fault + pheap" where
  "ph_free_node h i = append_free i h"

text \<open>The number of nodes that \<open>ph_dump\<close> prints.\<close>

fun ph_dump_node :: "nat \<Rightarrow> pheap \<Rightarrow> nat \<Rightarrow> fault + nat" where
  "ph_dump_node 0 h i = Inl Exhausted"
| "ph_dump_node (Suc fuel) h i =
     (if i = 0 then Inr 0
      else
        rbind (ph_get_node h i) (\<lambda>n.
        rbind (ph_dump_node fuel h (child n)) (\<lambda>c.
        rbind (ph_dump_node fuel h (sibling n)) (\<lambda>s.
          Inr (1 + c + s)))))"

definition ph_dump :: "pheap \<Rightarrow> fault + nat" where
  "ph_dump h = ph_dump_node (Suc (max_nodes h)) h (root_id h)"

end
