(* ===== verification/Alarms.thy ===== *)
theory Alarms
  imports Timer Pheap
begin

text \<open>
  Timestamps, alarm pools, repeating timers and sleeping (\<open>pico_time/time.c\<close>, \<open>pico/time.h\<close>).
  An alarm pool is a pairing heap of alarms ordered by their targets, served by one hardware
  alarm. A callback is a number, zero the null pointer; what it does is the parameter \<open>run\<close>, from
  the identifier of the alarm, the user data and the world to the time to repeat after and the new
  world. A section under a spin lock is one step. Reading the time needs fuel 2 on a ticking clock.
\<close>

unbundle bit_operations_syntax

section \<open>Timestamps\<close>

type_synonym absolute_time = u64
type_synonym alarm_id = u32

definition nil_time :: absolute_time where "nil_time = 0"
definition at_the_end_of_time :: absolute_time where "at_the_end_of_time = 0x7fffffffffffffff"

definition read_fuel :: nat where "read_fuel = 2"

definition get_absolute_time :: "timer_state \<Rightarrow> fault + (absolute_time \<times> timer_state)" where
  "get_absolute_time t = time_us_64 read_fuel t"

definition us_to_ms :: "u64 \<Rightarrow> u32" where
  "us_to_ms us = (if drop_bit 32 us \<noteq> 0 then ucast (us div 1000) else ucast us div 1000)"

definition to_ms_since_boot :: "absolute_time \<Rightarrow> u32" where
  "to_ms_since_boot t = us_to_ms t"

definition delayed_by_us :: "absolute_time \<Rightarrow> u64 \<Rightarrow> absolute_time" where
  "delayed_by_us t us = (let base = t; delayed = base + us in if delayed < base then -1 else delayed)"

definition delayed_by_ms :: "absolute_time \<Rightarrow> u32 \<Rightarrow> absolute_time" where
  "delayed_by_ms t ms = (let base = t; delayed = base + ucast ms * 1000 in if delayed < base then -1 else delayed)"

definition make_timeout_time_us :: "u64 \<Rightarrow> timer_state \<Rightarrow> fault + (absolute_time \<times> timer_state)" where
  "make_timeout_time_us us t = rbind (get_absolute_time t) (\<lambda>(n, t1). Inr (delayed_by_us n us, t1))"

definition make_timeout_time_ms :: "u32 \<Rightarrow> timer_state \<Rightarrow> fault + (absolute_time \<times> timer_state)" where
  "make_timeout_time_ms ms t = rbind (get_absolute_time t) (\<lambda>(n, t1). Inr (delayed_by_ms n ms, t1))"

definition absolute_time_diff_us :: "absolute_time \<Rightarrow> absolute_time \<Rightarrow> u64" where
  "absolute_time_diff_us from_time to_time = to_time - from_time"

definition is_at_the_end_of_time :: "absolute_time \<Rightarrow> bool" where
  "is_at_the_end_of_time t \<longleftrightarrow> t = at_the_end_of_time"

definition is_nil_time :: "absolute_time \<Rightarrow> bool" where
  "is_nil_time t \<longleftrightarrow> \<not> (t \<noteq> 0)"

section \<open>State\<close>

record alarm_pool_entry =
  entry_target :: absolute_time
  entry_callback :: nat
  entry_user_data :: nat

record alarm_pool =
  pool_heap :: pheap
  entries :: "nat \<Rightarrow> alarm_pool_entry"
  entry_ids_high :: "nat \<Rightarrow> u8"
  alarm_in_progress :: alarm_id
  hardware_alarm_num :: nat

record repeating_timer =
  rt_delay_us :: u64
  rt_pool :: nat
  rt_alarm_id :: alarm_id
  rt_callback :: nat
  rt_user_data :: nat

record time_world =
  timer :: timer_state
  alarm_pools :: "nat \<Rightarrow> alarm_pool"
  pools :: "nat \<Rightarrow> nat option"
  repeating :: "nat \<Rightarrow> repeating_timer"

type_synonym callbacks = "nat \<Rightarrow> alarm_id \<Rightarrow> nat \<Rightarrow> time_world \<Rightarrow> fault + (u64 \<times> time_world)"

text \<open>Names of the functions of this file that are passed as callbacks, and of the default pool.\<close>

definition alarm_pool_alarm_callback_code :: nat where "alarm_pool_alarm_callback_code = 1"
definition repeating_timer_callback_code :: nat where "repeating_timer_callback_code = 2"
definition sleep_until_callback_code :: nat where "sleep_until_callback_code = 3"
definition default_alarm_pool :: nat where "default_alarm_pool = 0"

definition PICO_TIME_DEFAULT_ALARM_POOL_MAX_TIMERS :: nat where "PICO_TIME_DEFAULT_ALARM_POOL_MAX_TIMERS = 16"
definition PICO_TIME_DEFAULT_ALARM_POOL_HARDWARE_ALARM_NUM :: nat where
  "PICO_TIME_DEFAULT_ALARM_POOL_HARDWARE_ALARM_NUM = 3"
definition PICO_TIME_SLEEP_OVERHEAD_ADJUST_US :: u64 where "PICO_TIME_SLEEP_OVERHEAD_ADJUST_US = 6"

definition get_entry :: "alarm_pool \<Rightarrow> nat \<Rightarrow> fault + alarm_pool_entry" where
  "get_entry p i = (if is_node (pool_heap p) i then Inr (entries p i) else Inl OutOfBounds)"

definition get_entry_id_high :: "alarm_pool \<Rightarrow> nat \<Rightarrow> fault + u8" where
  "get_entry_id_high p i = (if is_node (pool_heap p) i then Inr (entry_ids_high p i) else Inl OutOfBounds)"

definition timer_pool_entry_comparator :: "alarm_pool \<Rightarrow> nat \<Rightarrow> nat \<Rightarrow> bool" where
  "timer_pool_entry_comparator p a b \<longleftrightarrow> entry_target (entries p a) < entry_target (entries p b)"

definition make_public_id :: "u8 \<Rightarrow> nat \<Rightarrow> alarm_id" where
  "make_public_id id_high i = push_bit 8 (ucast id_high) OR of_nat i"

definition put_pool :: "nat \<Rightarrow> alarm_pool \<Rightarrow> time_world \<Rightarrow> time_world" where
  "put_pool n p w = w\<lparr>alarm_pools := (alarm_pools w)(n := p)\<rparr>"

section \<open>Adding an alarm\<close>

text \<open>The result is the node, whether the target was missed, and the world.\<close>

definition add_alarm_under_lock ::
    "nat \<Rightarrow> absolute_time \<Rightarrow> nat \<Rightarrow> nat \<Rightarrow> nat \<Rightarrow> bool \<Rightarrow> bool \<Rightarrow> time_world \<Rightarrow> fault + (nat \<times> bool \<times> time_world)" where
  "add_alarm_under_lock n time callback user_data reuse_id create_if_past missed w =
     (let p = alarm_pools w n
      in rbind (if reuse_id \<noteq> 0 then Inr (pool_heap p, reuse_id) else ph_new_node (pool_heap p)) (\<lambda>(h1, i).
         if i = 0 then Inr (i, missed, put_pool n (p\<lparr>pool_heap := h1\<rparr>) w)
         else
           rbind (get_entry (p\<lparr>pool_heap := h1\<rparr>) i) (\<lambda>_.
             let e = \<lparr>entry_target = time, entry_callback = callback, entry_user_data = user_data\<rparr>;
                 p1 = p\<lparr>pool_heap := h1, entries := (entries p)(i := e)\<rparr>;
                 cmp = timer_pool_entry_comparator p1
             in rbind (ph_insert_node cmp h1 i) (\<lambda>(h2, top).
                if i = top then
                  rbind (hardware_alarm_set_target read_fuel (hardware_alarm_num p1) time (timer w)) (\<lambda>(is_missed, tm).
                  rbind (if is_missed \<and> \<not> create_if_past
                         then rbind (ph_remove_and_free_node cmp h2 i) (\<lambda>(h3, _). Inr h3) else Inr h2) (\<lambda>h3.
                    Inr (i, is_missed, put_pool n (p1\<lparr>pool_heap := h3\<rparr>) (w\<lparr>timer := tm\<rparr>))))
                else Inr (i, missed, put_pool n (p1\<lparr>pool_heap := h2\<rparr>) w)))))"

text \<open>The loop of \<open>alarm_pool_add_alarm_at\<close>; the flag \<open>missed\<close> is declared outside it.\<close>

fun add_alarm_loop ::
    "nat \<Rightarrow> callbacks \<Rightarrow> nat \<Rightarrow> absolute_time \<Rightarrow> nat \<Rightarrow> nat \<Rightarrow> bool \<Rightarrow> bool \<Rightarrow> time_world \<Rightarrow> fault + (alarm_id \<times> time_world)" where
  "add_alarm_loop 0 run n time callback user_data fire_if_past missed w = Inl Exhausted"
| "add_alarm_loop (Suc fuel) run n time callback user_data fire_if_past missed w =
     rbind (add_alarm_under_lock n time callback user_data 0 False missed w) (\<lambda>(i, missed1, w1).
     rbind (if i \<noteq> 0 then get_entry_id_high (alarm_pools w1 n) i else Inr 0) (\<lambda>id_high.
       if i = 0 then Inr (-1, w1)
       else
         let public_id = (if missed1 then 0 else make_public_id id_high i)
         in if missed1 \<and> fire_if_past then
              rbind (run callback public_id user_data w1) (\<lambda>(repeat, w2).
                if repeat = 0 then Inr (0, w2)
                else if sint repeat < 0 then
                  add_alarm_loop fuel run n (delayed_by_us time (- repeat)) callback user_data fire_if_past missed1 w2
                else
                  rbind (get_absolute_time (timer w2)) (\<lambda>(now_us, tm).
                    add_alarm_loop fuel run n (delayed_by_us now_us repeat) callback user_data fire_if_past missed1
                      (w2\<lparr>timer := tm\<rparr>)))
            else Inr (public_id, w1)))"

definition alarm_pool_add_alarm_at ::
    "nat \<Rightarrow> callbacks \<Rightarrow> nat \<Rightarrow> absolute_time \<Rightarrow> nat \<Rightarrow> nat \<Rightarrow> bool \<Rightarrow> time_world \<Rightarrow> fault + (alarm_id \<times> time_world)" where
  "alarm_pool_add_alarm_at fuel run n time callback user_data fire_if_past w =
     add_alarm_loop fuel run n time callback user_data fire_if_past False w"

definition alarm_pool_add_alarm_in_us ::
    "nat \<Rightarrow> callbacks \<Rightarrow> nat \<Rightarrow> u64 \<Rightarrow> nat \<Rightarrow> nat \<Rightarrow> bool \<Rightarrow> time_world \<Rightarrow> fault + (alarm_id \<times> time_world)" where
  "alarm_pool_add_alarm_in_us fuel run n us callback user_data fire_if_past w =
     rbind (get_absolute_time (timer w)) (\<lambda>(now_us, tm).
       alarm_pool_add_alarm_at fuel run n (delayed_by_us now_us us) callback user_data fire_if_past (w\<lparr>timer := tm\<rparr>))"

definition alarm_pool_add_alarm_in_ms ::
    "nat \<Rightarrow> callbacks \<Rightarrow> nat \<Rightarrow> u32 \<Rightarrow> nat \<Rightarrow> nat \<Rightarrow> bool \<Rightarrow> time_world \<Rightarrow> fault + (alarm_id \<times> time_world)" where
  "alarm_pool_add_alarm_in_ms fuel run n ms callback user_data fire_if_past w =
     rbind (get_absolute_time (timer w)) (\<lambda>(now_us, tm).
       alarm_pool_add_alarm_at fuel run n (delayed_by_ms now_us ms) callback user_data fire_if_past (w\<lparr>timer := tm\<rparr>))"

definition add_alarm_at ::
    "nat \<Rightarrow> callbacks \<Rightarrow> absolute_time \<Rightarrow> nat \<Rightarrow> nat \<Rightarrow> bool \<Rightarrow> time_world \<Rightarrow> fault + (alarm_id \<times> time_world)" where
  "add_alarm_at fuel run time callback user_data fire_if_past w =
     alarm_pool_add_alarm_at fuel run default_alarm_pool time callback user_data fire_if_past w"

definition add_alarm_in_us ::
    "nat \<Rightarrow> callbacks \<Rightarrow> u64 \<Rightarrow> nat \<Rightarrow> nat \<Rightarrow> bool \<Rightarrow> time_world \<Rightarrow> fault + (alarm_id \<times> time_world)" where
  "add_alarm_in_us fuel run us callback user_data fire_if_past w =
     alarm_pool_add_alarm_in_us fuel run default_alarm_pool us callback user_data fire_if_past w"

definition add_alarm_in_ms ::
    "nat \<Rightarrow> callbacks \<Rightarrow> u32 \<Rightarrow> nat \<Rightarrow> nat \<Rightarrow> bool \<Rightarrow> time_world \<Rightarrow> fault + (alarm_id \<times> time_world)" where
  "add_alarm_in_ms fuel run ms callback user_data fire_if_past w =
     alarm_pool_add_alarm_in_ms fuel run default_alarm_pool ms callback user_data fire_if_past w"

section \<open>Cancelling an alarm\<close>

definition alarm_pool_cancel_alarm :: "nat \<Rightarrow> alarm_id \<Rightarrow> time_world \<Rightarrow> fault + (bool \<times> time_world)" where
  "alarm_pool_cancel_alarm n alarm_id w =
     (let p = alarm_pools w n; i = unat (ucast alarm_id :: u8)
      in rbind (ph_contains_node (pool_heap p) i) (\<lambda>c.
         if c then
           let id_high = ucast (drop_bit 8 alarm_id) :: u8
           in rbind (get_entry_id_high p i) (\<lambda>hi.
              if id_high = hi then
                rbind (ph_remove_and_free_node (timer_pool_entry_comparator p) (pool_heap p) i) (\<lambda>(h1, rc).
                  Inr (rc, put_pool n (p\<lparr>pool_heap := h1\<rparr>) w))
              else Inr (False, w))
         else if alarm_id = alarm_in_progress p then Inr (False, put_pool n (p\<lparr>alarm_in_progress := 0\<rparr>) w)
         else Inr (False, w)))"

definition cancel_alarm :: "alarm_id \<Rightarrow> time_world \<Rightarrow> fault + (bool \<times> time_world)" where
  "cancel_alarm alarm_id w = alarm_pool_cancel_alarm default_alarm_pool alarm_id w"


section \<open>The interrupt of a pool\<close>

text \<open>What is done with the identifier of an alarm after its callback: repeat it or free it.\<close>

definition finish_alarm ::
    "nat \<Rightarrow> nat \<Rightarrow> absolute_time \<Rightarrow> nat \<Rightarrow> nat \<Rightarrow> u64 \<Rightarrow> time_world \<Rightarrow> fault + time_world" where
  "finish_alarm n next_id target callback user_data repeat w =
     rbind (if sint repeat < 0 \<and> alarm_in_progress (alarm_pools w n) \<noteq> 0 then
              rbind (add_alarm_under_lock n (delayed_by_us target (- repeat)) callback user_data next_id True False w)
                (\<lambda>(_, _, w1). Inr w1)
            else if sint repeat > 0 \<and> alarm_in_progress (alarm_pools w n) \<noteq> 0 then
              rbind (get_absolute_time (timer w)) (\<lambda>(now_us, tm).
              rbind (add_alarm_under_lock n (delayed_by_us now_us repeat) callback user_data next_id True False
                       (w\<lparr>timer := tm\<rparr>)) (\<lambda>(_, _, w1). Inr w1))
            else
              let p = alarm_pools w n
              in rbind (ph_free_node (pool_heap p) next_id) (\<lambda>h1.
                 rbind (get_entry_id_high p next_id) (\<lambda>hi.
                   Inr (put_pool n (p\<lparr>pool_heap := h1, entry_ids_high := (entry_ids_high p)(next_id := hi + 1)\<rparr>) w))))
       (\<lambda>w2. Inr (put_pool n ((alarm_pools w2 n)\<lparr>alarm_in_progress := 0\<rparr>) w2))"

fun alarm_pool_alarm_callback :: "nat \<Rightarrow> callbacks \<Rightarrow> nat \<Rightarrow> time_world \<Rightarrow> fault + time_world" where
  "alarm_pool_alarm_callback 0 run alarm_num w = Inl Exhausted"
| "alarm_pool_alarm_callback (Suc fuel) run alarm_num w =
     (case pools w alarm_num of None \<Rightarrow> Inl NullPointer
      | Some n \<Rightarrow>
          rbind (get_absolute_time (timer w)) (\<lambda>(now_us, tm).
            let w1 = w\<lparr>timer := tm\<rparr>; p = alarm_pools w1 n; next_id = ph_peek_head (pool_heap p)
            in if next_id = 0 then Inr w1
               else
                 rbind (get_entry p next_id) (\<lambda>entry.
                   if sint (absolute_time_diff_us now_us (entry_target entry)) \<le> 0 then
                     rbind (ph_remove_head (timer_pool_entry_comparator p) (pool_heap p) False) (\<lambda>(h1, removed_id).
                     rbind (get_entry_id_high p next_id) (\<lambda>id_high.
                       let w2 = put_pool n (p\<lparr>pool_heap := h1, alarm_in_progress := make_public_id id_high removed_id\<rparr>) w1
                       in if entry_callback entry = 0 then Inr w2
                          else
                            rbind (run (entry_callback entry) (make_public_id id_high next_id) (entry_user_data entry) w2)
                              (\<lambda>(repeat, w3).
                            rbind (finish_alarm n next_id (entry_target entry) (entry_callback entry)
                                     (entry_user_data entry) repeat w3)
                              (alarm_pool_alarm_callback fuel run alarm_num))))
                   else
                     rbind (hardware_alarm_set_target read_fuel alarm_num (entry_target entry) (timer w1)) (\<lambda>(again, tm2).
                       if again then alarm_pool_alarm_callback fuel run alarm_num (w1\<lparr>timer := tm2\<rparr>)
                       else Inr (w1\<lparr>timer := tm2\<rparr>)))))"

section \<open>Pools\<close>

text \<open>A claimed alarm stops the code; the callback is the one above.\<close>

definition alarm_pool_post_alloc_init :: "nat \<Rightarrow> nat \<Rightarrow> time_world \<Rightarrow> fault + time_world" where
  "alarm_pool_post_alloc_init n alarm_num w =
     rbind (hardware_alarm_claim alarm_num (timer w)) (\<lambda>t1.
     rbind (hardware_alarm_set_callback alarm_num (Some alarm_pool_alarm_callback_code)
              (hardware_alarm_cancel alarm_num t1)) (\<lambda>t2.
       Inr (put_pool n ((alarm_pools w n)\<lparr>hardware_alarm_num := unat (of_nat alarm_num :: u8)\<rparr>)
              (w\<lparr>timer := t2, pools := (pools w)(alarm_num := Some n)\<rparr>))))"

text \<open>The new pool gets the number \<open>n\<close> for its address; its \<open>malloc\<close>ed fields that are not set are zero here.\<close>

definition alarm_pool_create :: "nat \<Rightarrow> nat \<Rightarrow> nat \<Rightarrow> time_world \<Rightarrow> fault + time_world" where
  "alarm_pool_create n alarm_num max_timers w =
     rbind (ph_create max_timers) (\<lambda>h.
       alarm_pool_post_alloc_init n alarm_num
         (put_pool n \<lparr>pool_heap = h, entries = (\<lambda>_. \<lparr>entry_target = 0, entry_callback = 0, entry_user_data = 0\<rparr>),
                      entry_ids_high = (\<lambda>_. 0), alarm_in_progress = 0, hardware_alarm_num = 0\<rparr> w))"

definition alarm_pool_init_default :: "time_world \<Rightarrow> fault + time_world" where
  "alarm_pool_init_default w =
     (if pools w PICO_TIME_DEFAULT_ALARM_POOL_HARDWARE_ALARM_NUM = Some default_alarm_pool then Inr w
      else
        let p = alarm_pools w default_alarm_pool
        in rbind (ph_post_alloc_init (pool_heap p) PICO_TIME_DEFAULT_ALARM_POOL_MAX_TIMERS) (\<lambda>h.
             alarm_pool_post_alloc_init default_alarm_pool PICO_TIME_DEFAULT_ALARM_POOL_HARDWARE_ALARM_NUM
               (put_pool default_alarm_pool (p\<lparr>pool_heap := h\<rparr>) w)))"

definition alarm_pool_destroy :: "nat \<Rightarrow> time_world \<Rightarrow> fault + time_world" where
  "alarm_pool_destroy n w =
     (if n = default_alarm_pool then Inr w
      else
        let a = hardware_alarm_num (alarm_pools w n)
        in rbind (hardware_alarm_set_callback a None (timer w)) (\<lambda>t1.
           rbind (hardware_alarm_unclaim a t1) (\<lambda>t2.
             Inr (w\<lparr>timer := t2, pools := (pools w)(a := None)\<rparr>))))"

definition alarm_pool_hardware_alarm_num :: "nat \<Rightarrow> time_world \<Rightarrow> nat" where
  "alarm_pool_hardware_alarm_num n w = hardware_alarm_num (alarm_pools w n)"

definition alarm_pool_dump :: "nat \<Rightarrow> time_world \<Rightarrow> fault + nat" where
  "alarm_pool_dump n w = ph_dump (pool_heap (alarm_pools w n))"

section \<open>Repeating timers\<close>

text \<open>The callback of a repeating timer says whether it goes on; \<open>again\<close> is the user's function.\<close>

definition repeating_timer_callback ::
    "(nat \<Rightarrow> nat \<Rightarrow> time_world \<Rightarrow> fault + (bool \<times> time_world)) \<Rightarrow> alarm_id \<Rightarrow> nat \<Rightarrow> time_world \<Rightarrow> fault + (u64 \<times> time_world)" where
  "repeating_timer_callback again alarm_id rt w =
     rbind (again (rt_callback (repeating w rt)) rt w) (\<lambda>(go_on, w1).
       if go_on then Inr (rt_delay_us (repeating w1 rt), w1)
       else Inr (0, w1\<lparr>repeating := (repeating w1)(rt := (repeating w1 rt)\<lparr>rt_alarm_id := 0\<rparr>)\<rparr>))"

definition sleep_until_callback :: "alarm_id \<Rightarrow> nat \<Rightarrow> time_world \<Rightarrow> fault + (u64 \<times> time_world)" where
  "sleep_until_callback alarm_id user_data w = Inr (0, w)"

definition alarm_pool_add_repeating_timer_us ::
    "nat \<Rightarrow> callbacks \<Rightarrow> nat \<Rightarrow> u64 \<Rightarrow> nat \<Rightarrow> nat \<Rightarrow> nat \<Rightarrow> time_world \<Rightarrow> fault + (bool \<times> time_world)" where
  "alarm_pool_add_repeating_timer_us fuel run n delay_us callback user_data out w =
     (let delay = (if delay_us = 0 then 1 else delay_us);
          rt = \<lparr>rt_delay_us = delay, rt_pool = n, rt_alarm_id = rt_alarm_id (repeating w out),
                rt_callback = callback, rt_user_data = user_data\<rparr>
      in rbind (make_timeout_time_us (if sint delay \<ge> 0 then delay else - delay) (timer w)) (\<lambda>(time, tm).
         rbind (alarm_pool_add_alarm_at fuel run n time repeating_timer_callback_code out True
                  (w\<lparr>timer := tm, repeating := (repeating w)(out := rt)\<rparr>)) (\<lambda>(alarm_id, w1).
           Inr (sint alarm_id \<ge> 0,
                w1\<lparr>repeating := (repeating w1)(out := (repeating w1 out)\<lparr>rt_alarm_id := alarm_id\<rparr>)\<rparr>))))"

definition alarm_pool_add_repeating_timer_ms ::
    "nat \<Rightarrow> callbacks \<Rightarrow> nat \<Rightarrow> u32 \<Rightarrow> nat \<Rightarrow> nat \<Rightarrow> nat \<Rightarrow> time_world \<Rightarrow> fault + (bool \<times> time_world)" where
  "alarm_pool_add_repeating_timer_ms fuel run n delay_ms callback user_data out w =
     alarm_pool_add_repeating_timer_us fuel run n (scast delay_ms * 1000) callback user_data out w"

definition add_repeating_timer_us ::
    "nat \<Rightarrow> callbacks \<Rightarrow> u64 \<Rightarrow> nat \<Rightarrow> nat \<Rightarrow> nat \<Rightarrow> time_world \<Rightarrow> fault + (bool \<times> time_world)" where
  "add_repeating_timer_us fuel run delay_us callback user_data out w =
     alarm_pool_add_repeating_timer_us fuel run default_alarm_pool delay_us callback user_data out w"

definition add_repeating_timer_ms ::
    "nat \<Rightarrow> callbacks \<Rightarrow> u32 \<Rightarrow> nat \<Rightarrow> nat \<Rightarrow> nat \<Rightarrow> time_world \<Rightarrow> fault + (bool \<times> time_world)" where
  "add_repeating_timer_ms fuel run delay_ms callback user_data out w =
     alarm_pool_add_repeating_timer_us fuel run default_alarm_pool (scast delay_ms * 1000) callback user_data out w"

definition cancel_repeating_timer :: "nat \<Rightarrow> time_world \<Rightarrow> fault + (bool \<times> time_world)" where
  "cancel_repeating_timer rt w =
     (if rt_alarm_id (repeating w rt) \<noteq> 0 then
        rbind (alarm_pool_cancel_alarm (rt_pool (repeating w rt)) (rt_alarm_id (repeating w rt)) w) (\<lambda>(rc, w1).
          Inr (rc, w1\<lparr>repeating := (repeating w1)(rt := (repeating w1 rt)\<lparr>rt_alarm_id := 0\<rparr>)\<rparr>))
      else Inr (False, w))"

section \<open>Sleeping\<close>

text \<open>
  Waiting for an event: \<open>wfe\<close> is what happens until the core wakes up, the interrupts it serves
  included.
\<close>

fun sleep_loop :: "nat \<Rightarrow> (time_world \<Rightarrow> fault + time_world) \<Rightarrow> absolute_time \<Rightarrow> time_world \<Rightarrow> fault + time_world" where
  "sleep_loop 0 wfe t_before w = Inl Exhausted"
| "sleep_loop (Suc fuel) wfe t_before w =
     (let (reached, tm) = time_reached t_before (timer w)
      in if reached then Inr (w\<lparr>timer := tm\<rparr>)
         else rbind (wfe (w\<lparr>timer := tm\<rparr>)) (sleep_loop fuel wfe t_before))"

definition sleep_until ::
    "nat \<Rightarrow> callbacks \<Rightarrow> (time_world \<Rightarrow> fault + time_world) \<Rightarrow> absolute_time \<Rightarrow> time_world \<Rightarrow> fault + time_world" where
  "sleep_until fuel run wfe t w =
     (let t_before0 = t - PICO_TIME_SLEEP_OVERHEAD_ADJUST_US;
          t_before = (if t_before0 > t then 0 else t_before0)
      in rbind (get_absolute_time (timer w)) (\<lambda>(now_us, tm).
         let w1 = w\<lparr>timer := tm\<rparr>
         in rbind (if sint (absolute_time_diff_us now_us t_before) > 0 then
                     rbind (add_alarm_at fuel run t_before sleep_until_callback_code 0 False w1) (\<lambda>(alarm_id, w2).
                       if sint alarm_id \<ge> 0 then sleep_loop fuel wfe t_before w2 else Inr w2)
                   else Inr w1) (\<lambda>w3.
            rbind (busy_wait_until fuel t (timer w3)) (\<lambda>tm3. Inr (w3\<lparr>timer := tm3\<rparr>)))))"

definition sleep_us ::
    "nat \<Rightarrow> callbacks \<Rightarrow> (time_world \<Rightarrow> fault + time_world) \<Rightarrow> u64 \<Rightarrow> time_world \<Rightarrow> fault + time_world" where
  "sleep_us fuel run wfe us w =
     rbind (make_timeout_time_us us (timer w)) (\<lambda>(t, tm). sleep_until fuel run wfe t (w\<lparr>timer := tm\<rparr>))"

definition best_effort_wfe_or_timeout ::
    "nat \<Rightarrow> callbacks \<Rightarrow> (time_world \<Rightarrow> fault + time_world) \<Rightarrow> absolute_time \<Rightarrow> time_world \<Rightarrow> fault + (bool \<times> time_world)" where
  "best_effort_wfe_or_timeout fuel run wfe timeout_timestamp w =
     rbind (add_alarm_at fuel run timeout_timestamp sleep_until_callback_code 0 False w) (\<lambda>(alarm_id, w1).
     rbind (if sint alarm_id \<le> 0 then Inr w1
            else rbind (wfe w1) (\<lambda>w2. rbind (cancel_alarm alarm_id w2) (\<lambda>(_, w3). Inr w3))) (\<lambda>w4.
       let (reached, tm) = time_reached timeout_timestamp (timer w4) in Inr (reached, w4\<lparr>timer := tm\<rparr>)))"

section \<open>Timeouts of the drivers\<close>

text \<open>
  The checks of \<open>timeout_helper.c\<close>: a state with the next timeout, and for one kind a parameter to
  set it anew after every check.
\<close>

record timeout_state =
  next_timeout :: absolute_time
  timeout_param :: u64

definition check_single_timeout_us :: "timeout_state \<Rightarrow> timer_state \<Rightarrow> bool \<times> timer_state" where
  "check_single_timeout_us ts t = time_reached (next_timeout ts) t"

definition init_single_timeout_until :: "timeout_state \<Rightarrow> absolute_time \<Rightarrow> timeout_state" where
  "init_single_timeout_until ts target = ts\<lparr>next_timeout := target\<rparr>"

definition check_per_iteration_timeout_us ::
    "timeout_state \<Rightarrow> timer_state \<Rightarrow> fault + (bool \<times> timeout_state \<times> timer_state)" where
  "check_per_iteration_timeout_us ts t =
     (let (reached, t1) = time_reached (next_timeout ts) t
      in if reached then Inr (True, ts, t1)
         else rbind (make_timeout_time_us (timeout_param ts) t1) (\<lambda>(n, t2).
                Inr (False, ts\<lparr>next_timeout := n\<rparr>, t2)))"

definition init_per_iteration_timeout_us ::
    "timeout_state \<Rightarrow> u64 \<Rightarrow> timer_state \<Rightarrow> fault + (timeout_state \<times> timer_state)" where
  "init_per_iteration_timeout_us ts per_iteration_timeout_us t =
     rbind (make_timeout_time_us per_iteration_timeout_us t) (\<lambda>(n, t1).
       Inr (ts\<lparr>next_timeout := n, timeout_param := per_iteration_timeout_us\<rparr>, t1))"

end
