(* ===== verification/Pheap_Facts.thy ===== *)
theory Pheap_Facts
  imports Pheap
begin

text \<open>
  The linked heap represents a tree: the left subtree of a tree node is its first child, the
  right subtree its next sibling. On trees the operations are those of a pairing heap; the
  lemmas show that the linked operations implement them and touch no other node.
\<close>

section \<open>Representation\<close>

fun repr :: "pheap \<Rightarrow> nat \<Rightarrow> nat \<Rightarrow> nat tree \<Rightarrow> bool" where
  "repr h p i Leaf \<longleftrightarrow> i = 0"
| "repr h p i (Node cs j ss) \<longleftrightarrow> i = j \<and> is_node h j \<and> parent (nodes h j) = p \<and>
     repr h j (child (nodes h j)) cs \<and> repr h p (sibling (nodes h j)) ss"

fun is_root :: "nat tree \<Rightarrow> bool" where
  "is_root Leaf \<longleftrightarrow> True"
| "is_root (Node cs j ss) \<longleftrightarrow> ss = Leaf"

text \<open>No node occurs twice.\<close>

fun dist :: "nat tree \<Rightarrow> bool" where
  "dist Leaf \<longleftrightarrow> True"
| "dist (Node l j r) \<longleftrightarrow> j \<notin> set_tree l \<and> j \<notin> set_tree r \<and>
     set_tree l \<inter> set_tree r = {} \<and> dist l \<and> dist r"

text \<open>Outside the set \<open>S\<close> all nodes are as before, and so is everything but the nodes.\<close>

definition only_at :: "nat set \<Rightarrow> pheap \<Rightarrow> pheap \<Rightarrow> bool" where
  "only_at S h h' \<longleftrightarrow> (\<forall>j. j \<notin> S \<longrightarrow> nodes h' j = nodes h j) \<and> h'\<lparr>nodes := nodes h\<rparr> = h"

lemma only_at_refl [simp]: "only_at S h h"
  by (simp add: only_at_def)

lemma only_at_trans: "only_at S h h' \<Longrightarrow> only_at S h' h'' \<Longrightarrow> only_at S h h''"
  by (cases h; cases h'; cases h'') (simp add: only_at_def)

lemma only_at_mono: "only_at S h h' \<Longrightarrow> S \<subseteq> T \<Longrightarrow> only_at T h h'"
  by (auto simp: only_at_def)

lemma only_at_fields:
  assumes "only_at S h h'"
  shows "max_nodes h' = max_nodes h" "root_id h' = root_id h" "free_head_id h' = free_head_id h"
    "free_tail_id h' = free_tail_id h" "is_node h' = is_node h"
  using assms by (cases h; cases h'; auto simp: only_at_def is_node_def fun_eq_iff)+

lemma only_at_node: "only_at S h h' \<Longrightarrow> j \<notin> S \<Longrightarrow> nodes h' j = nodes h j"
  by (simp add: only_at_def)

lemma repr_frame:
  assumes "only_at S h h'" "set_tree t \<inter> S = {}"
  shows "repr h' p i t = repr h p i t"
  using assms(2)
proof (induction t arbitrary: p i)
  case (Node l j r)
  then have "set_tree l \<inter> S = {}" "set_tree r \<inter> S = {}" "j \<notin> S" by auto
  then show ?case
    by (simp add: Node.IH only_at_fields(5) [OF assms(1)] only_at_node [OF assms(1)])
qed simp

lemma repr_nodes: "repr h p i t \<Longrightarrow> j \<in> set_tree t \<Longrightarrow> is_node h j"
  by (induction t arbitrary: p i) auto

lemma repr_nonzero: "repr h p i t \<Longrightarrow> 0 \<notin> set_tree t"
  using repr_nodes [of h p i t 0] by (auto simp: is_node_def)

lemma repr_root: "repr h p i t \<Longrightarrow> i = 0 \<longleftrightarrow> t = Leaf"
  by (cases t) (auto simp: is_node_def)

lemma repr_head: "repr h p i t \<Longrightarrow> i \<noteq> 0 \<Longrightarrow> i \<in> set_tree t"
  by (cases t) (auto simp: is_node_def)

text \<open>A tree is represented at most once.\<close>

lemma repr_unique: "repr h p i t \<Longrightarrow> repr h p i u \<Longrightarrow> t = u"
proof (induction t arbitrary: p i u)
  case Leaf
  then show ?case by (cases u) (auto simp: is_node_def)
next
  case (Node l j r)
  then show ?case by (cases u) (auto simp: is_node_def)
qed

text \<open>A root's parent does not matter to its tree.\<close>

lemma repr_put_parent:
  "repr h p i (Node cs i Leaf) \<Longrightarrow> i \<notin> set_tree cs \<Longrightarrow> ph_put_node i (set_parent q) h = Inr h' \<Longrightarrow>
   repr h' q i (Node cs i Leaf) \<and> only_at {i} h h'"
proof -
  assume a: "repr h p i (Node cs i Leaf)" "i \<notin> set_tree cs" "ph_put_node i (set_parent q) h = Inr h'"
  then have h': "h' = h\<lparr>nodes := (nodes h)(i := (nodes h i)\<lparr>parent := q\<rparr>)\<rparr>"
    by (auto simp: ph_put_node_def)
  then have o: "only_at {i} h h'" by (simp add: only_at_def)
  then show ?thesis using a repr_frame [OF o, of cs] only_at_fields(5) [OF o] by (simp add: h')
qed

section \<open>Merging\<close>

fun pmerge :: "comparator \<Rightarrow> nat tree \<Rightarrow> nat tree \<Rightarrow> nat tree" where
  "pmerge cmp Leaf u = u"
| "pmerge cmp t Leaf = t"
| "pmerge cmp (Node l a x) (Node m b y) =
     (if cmp a b then Node (Node m b l) a Leaf else Node (Node l a m) b Leaf)"

fun pass :: "comparator \<Rightarrow> nat tree \<Rightarrow> nat tree" where
  "pass cmp (Node l a (Node m b r)) = pmerge cmp (pmerge cmp (Node l a Leaf) (Node m b Leaf)) (pass cmp r)"
| "pass cmp Leaf = Leaf"
| "pass cmp (Node l a Leaf) = Node l a Leaf"

lemma is_root_pmerge [simp]: "is_root t \<Longrightarrow> is_root u \<Longrightarrow> is_root (pmerge cmp t u)"
  by (cases "(cmp, t, u)" rule: pmerge.cases) auto

lemma set_pmerge [simp]: "is_root t \<Longrightarrow> is_root u \<Longrightarrow> set_tree (pmerge cmp t u) = set_tree t \<union> set_tree u"
  by (cases "(cmp, t, u)" rule: pmerge.cases) auto

lemma dist_pmerge [simp]:
  "is_root t \<Longrightarrow> is_root u \<Longrightarrow> dist t \<Longrightarrow> dist u \<Longrightarrow> set_tree t \<inter> set_tree u = {} \<Longrightarrow>
   dist (pmerge cmp t u)"
  by (cases "(cmp, t, u)" rule: pmerge.cases) auto

lemma is_root_pass [simp]: "is_root (pass cmp t)"
  by (induction cmp t rule: pass.induct) auto

lemma set_pass [simp]: "set_tree (pass cmp t) = set_tree t"
  by (induction cmp t rule: pass.induct) auto

lemma dist_pass [simp]: "dist t \<Longrightarrow> dist (pass cmp t)"
  by (induction cmp t rule: pass.induct) (auto intro!: dist_pmerge simp: Int_Un_distrib Int_Un_distrib2)

lemma add_child_repr:
  assumes "repr h p a (Node l a Leaf)" "repr h q b (Node m b Leaf)"
    and "dist (Node l a Leaf)" "dist (Node m b Leaf)" "a \<noteq> b" "a \<notin> set_tree m" "b \<notin> set_tree l"
    and "set_tree l \<inter> set_tree m = {}"
  shows "\<exists>h'. ph_add_child_node h a b = Inr h' \<and> repr h' p a (Node (Node m b l) a Leaf) \<and>
    only_at {a, b} h h'"
proof -
  define h' where "h' = h\<lparr>nodes := (nodes h)(b := (nodes h b)\<lparr>parent := a, sibling := child (nodes h a)\<rparr>,
    a := (nodes h a)\<lparr>child := b\<rparr>)\<rparr>"
  have o: "only_at {a, b} h h'" by (simp add: only_at_def h'_def)
  have sb: "sibling (nodes h b) = 0" "parent (nodes h a) = p" "is_node h a" "is_node h b"
    using assms(1,2) by auto
  have n: "nodes h' a = (nodes h a)\<lparr>child := b\<rparr>"
    "nodes h' b = (nodes h b)\<lparr>parent := a, sibling := child (nodes h a)\<rparr>"
    using assms(5) by (simp_all add: h'_def)
  have eq: "h\<lparr>nodes := (nodes h)(b := (nodes h b)\<lparr>parent := a\<rparr>, a := (nodes h a)\<lparr>child := b\<rparr>)\<rparr> = h'"
    if "child (nodes h a) = 0"
  proof -
    have "(nodes h b)\<lparr>parent := a\<rparr> = (nodes h b)\<lparr>parent := a, sibling := 0\<rparr>"
      using sb(1) by (cases "nodes h b") simp
    then show ?thesis using that by (simp add: h'_def)
  qed
  have "ph_add_child_node h a b = Inr h'"
    using sb assms(5) eq
    by (auto simp: ph_add_child_node_def ph_get_node_def ph_put_node_def is_node_def h'_def fun_upd_twist)
  moreover have "repr h' p a (Node (Node m b l) a Leaf)"
  proof -
    have "repr h' b (child (nodes h b)) m" "repr h' a (child (nodes h a)) l"
      using assms repr_frame [OF o, of m] repr_frame [OF o, of l] by auto
    then show ?thesis using sb assms(1) n only_at_fields(5) [OF o] by simp
  qed
  ultimately show ?thesis using o by blast
qed

lemma merge_repr:
  assumes "repr h p a t" "repr h q b u" "is_root t" "is_root u" "dist t" "dist u"
    and "set_tree t \<inter> set_tree u = {}"
  shows "\<exists>h' r w. ph_merge_nodes cmp h a b = Inr (h', r) \<and> repr h' w r (pmerge cmp t u) \<and>
    w \<in> {p, q} \<and> only_at (set_tree t \<union> set_tree u) h h'"
proof (cases "(cmp, t, u)" rule: pmerge.cases)
  case (3 cmp' l a' x m b' y)
  then have t: "t = Node l a Leaf" "u = Node m b Leaf" "cmp' = cmp"
    and z: "a \<noteq> 0" "b \<noteq> 0" using assms by (auto simp: is_node_def)
  have d: "a \<noteq> b" "a \<notin> set_tree m" "b \<notin> set_tree l" "set_tree l \<inter> set_tree m = {}"
    using assms(5-7) by (auto simp: t)
  show ?thesis
  proof (cases "cmp a b")
    case True
    then show ?thesis
      using add_child_repr [OF assms(1,2) [unfolded t] assms(5,6) [unfolded t] d] z
      by (auto simp: ph_merge_nodes_def t intro: only_at_mono)
  next
    case False
    then show ?thesis
      using add_child_repr [OF assms(2,1) [unfolded t] assms(6,5) [unfolded t] d(1) [symmetric] d(3,2)] d(4) z
      by (auto simp: ph_merge_nodes_def t Int_commute intro: only_at_mono)
  qed
qed (use assms in \<open>auto simp: ph_merge_nodes_def repr_root\<close>)


text \<open>The tree's size bounds the fuel of the loops.\<close>

lemma dist_card: "dist t \<Longrightarrow> card (set_tree t) = size t"
  by (induction t) (auto simp: card_Un_disjoint)

lemma repr_size: "repr h p i t \<Longrightarrow> dist t \<Longrightarrow> size t \<le> max_nodes h"
proof -
  assume "repr h p i t" "dist t"
  then have "set_tree t \<subseteq> {1 .. max_nodes h}" "card (set_tree t) = size t"
    using repr_nodes by (auto simp: is_node_def dist_card Suc_le_eq)
  then show ?thesis using card_mono [of "{1 .. max_nodes h}" "set_tree t"] by simp
qed

lemma put_sibling_0:
  assumes "repr h p i (Node l i r)" "i \<notin> set_tree l"
  shows "\<exists>h'. ph_put_node i (set_sibling 0) h = Inr h' \<and> repr h' p i (Node l i Leaf) \<and> only_at {i} h h'"
proof -
  define h' where "h' = h\<lparr>nodes := (nodes h)(i := (nodes h i)\<lparr>sibling := 0\<rparr>)\<rparr>"
  have o: "only_at {i} h h'" by (simp add: only_at_def h'_def)
  have "ph_put_node i (set_sibling 0) h = Inr h'" using assms by (simp add: ph_put_node_def h'_def)
  moreover have "repr h' p i (Node l i Leaf)"
    using assms repr_frame [OF o, of l] only_at_fields(5) [OF o] by (simp add: h'_def)
  ultimately show ?thesis using o by blast
qed

lemma two_pass_repr:
  "repr h p i t \<Longrightarrow> dist t \<Longrightarrow> size t < fuel \<Longrightarrow>
   \<exists>h' r w. ph_merge_two_pass fuel cmp h i = Inr (h', r) \<and> repr h' w r (pass cmp t) \<and>
     only_at (set_tree t) h h'"
proof (induction cmp t arbitrary: h i fuel rule: pass.induct)
  case (1 cmp l a m b r)
  obtain k where k: "fuel = Suc k" "size r < k" using 1(4) by (cases fuel) auto
  have i: "i = a" "sibling (nodes h a) = b" "is_node h a" "is_node h b" "b \<noteq> 0" "a \<noteq> 0"
    using 1(2) by (auto simp: is_node_def)
  have d: "a \<noteq> b" "a \<notin> set_tree l" "b \<notin> set_tree m" "a \<notin> set_tree m" "b \<notin> set_tree l"
    "a \<notin> set_tree r" "b \<notin> set_tree r" "dist l" "dist m" "dist r"
    "set_tree l \<inter> set_tree m = {}" "set_tree l \<inter> set_tree r = {}" "set_tree m \<inter> set_tree r = {}"
    using 1(3) by (auto simp: Int_Un_distrib Int_Un_distrib2)
  define c where "c = sibling (nodes h b)"
  have rb: "repr h p b (Node m b r)" and rr: "repr h p c r" using 1(2) by (auto simp: c_def)
  obtain h1 where h1: "ph_put_node b (set_sibling 0) h = Inr h1" "repr h1 p b (Node m b Leaf)" "only_at {b} h h1"
    using put_sibling_0 [OF rb d(3)] by blast
  have la: "repr h a (child (nodes h a)) l" using 1(2) by simp
  obtain h2 where h2: "ph_put_node a (set_sibling 0) h1 = Inr h2" "repr h2 p a (Node l a Leaf)" "only_at {a} h1 h2"
  proof -
    define h' where "h' = h1\<lparr>nodes := (nodes h1)(a := (nodes h1 a)\<lparr>sibling := 0\<rparr>)\<rparr>"
    have na: "nodes h1 a = nodes h a" "is_node h1 = is_node h"
      using only_at_node [OF h1(3)] only_at_fields(5) [OF h1(3)] d(1) by simp_all
    have o: "only_at {a} h1 h'" by (simp add: only_at_def h'_def)
    have "repr h1 a (child (nodes h a)) l" using la repr_frame [OF h1(3), of l] d(5) by simp
    then have "repr h' p a (Node l a Leaf)"
      using repr_frame [OF o, of l] d(2) na i 1(2) only_at_fields(5) [OF o] by (simp add: h'_def)
    moreover have "ph_put_node a (set_sibling 0) h1 = Inr h'"
      using na i by (simp add: ph_put_node_def h'_def)
    ultimately show ?thesis using that o by blast
  qed
  have b2: "repr h2 p b (Node m b Leaf)" using h1(2) repr_frame [OF h2(3), of "Node m b Leaf" p b] d by simp
  have "set_tree (Node l a Leaf) \<inter> set_tree (Node m b Leaf) = {}" using d by auto
  then obtain h3 ab w where h3: "ph_merge_nodes cmp h2 a b = Inr (h3, ab)"
    "repr h3 w ab (pmerge cmp (Node l a Leaf) (Node m b Leaf))"
    "only_at (set_tree (Node l a Leaf) \<union> set_tree (Node m b Leaf)) h2 h3"
    using merge_repr [OF h2(2) b2, of cmp] d by auto
  have "repr h3 p c r"
  proof -
    have "repr h1 p c r" using rr repr_frame [OF h1(3), of r] d by simp
    then have "repr h2 p c r" using repr_frame [OF h2(3), of r] d by simp
    then show ?thesis using repr_frame [OF h3(3), of r] d by (simp add: Int_Un_distrib Int_commute)
  qed
  then obtain h4 rest w' where h4: "ph_merge_two_pass k cmp h3 c = Inr (h4, rest)"
    "repr h4 w' rest (pass cmp r)" "only_at (set_tree r) h3 h4"
    using 1(1) [OF _ d(10) k(2)] by blast
  let ?ab = "pmerge cmp (Node l a Leaf) (Node m b Leaf)"
  have sab: "set_tree ?ab = insert a (insert b (set_tree l \<union> set_tree m))" by auto
  have dis: "set_tree ?ab \<inter> set_tree r = {}" unfolding sab using d by auto
  have ab4: "repr h4 w ab ?ab" using iffD2 [OF repr_frame [OF h4(3) dis] h3(2)] .
  have dab: "dist ?ab" using d by (intro dist_pmerge) auto
  have "set_tree ?ab \<inter> set_tree (pass cmp r) = {}" using dis by simp
  then obtain h5 r5 w5 where h5: "ph_merge_nodes cmp h4 ab rest = Inr (h5, r5)"
    "repr h5 w5 r5 (pmerge cmp ?ab (pass cmp r))" "only_at (set_tree ?ab \<union> set_tree (pass cmp r)) h4 h5"
    using merge_repr [OF ab4 h4(2) _ is_root_pass dab dist_pass [OF d(10)], of cmp] is_root_pmerge [of "Node l a Leaf" "Node m b Leaf" cmp]
    by (metis is_root.simps(2))
  have "ph_merge_two_pass fuel cmp h i = Inr (h5, r5)"
    using k i h1(1) h2(1) h3(1) h4(1) h5(1) by (simp add: ph_get_node_def c_def)
  moreover have "only_at (set_tree (Node l a (Node m b r))) h h5"
  proof -
    let ?S = "set_tree (Node l a (Node m b r))"
    have "only_at ?S h h1" "only_at ?S h1 h2" "only_at ?S h2 h3" "only_at ?S h3 h4" "only_at ?S h4 h5"
      using h1(3) h2(3) h3(3) h4(3) h5(3) sab by (auto elim!: only_at_mono)
    then show ?thesis using only_at_trans by meson
  qed
  ultimately show ?case using h5(2) by auto
next
  case (2 cmp)
  then show ?case by (cases fuel) auto
next
  case (3 cmp l a)
  then show ?case by (cases fuel) (auto simp: ph_get_node_def)
qed


section \<open>Heap order\<close>

text \<open>No node comes before the one above it.\<close>

fun heap_ordered :: "comparator \<Rightarrow> nat tree \<Rightarrow> bool" where
  "heap_ordered cmp Leaf \<longleftrightarrow> True"
| "heap_ordered cmp (Node l a r) \<longleftrightarrow>
     (\<forall>y \<in> set_tree l. \<not> cmp y a) \<and> heap_ordered cmp l \<and> heap_ordered cmp r"

lemma heap_ordered_cong:
  "heap_ordered cmp t \<Longrightarrow> \<forall>a \<in> set_tree t. \<forall>b \<in> set_tree t. cmp' a b = cmp a b \<Longrightarrow> heap_ordered cmp' t"
  by (induction t) auto

text \<open>What a client's comparator has to satisfy: it is a strict weak order.\<close>

locale weak_order =
  fixes before :: comparator
  assumes asym: "before a b \<Longrightarrow> \<not> before b a"
    and not_before_trans: "\<not> before b a \<Longrightarrow> \<not> before c b \<Longrightarrow> \<not> before c a"
begin

lemma irrefl: "\<not> before a a"
  using asym by blast

lemma below_trans: "\<forall>y \<in> S. \<not> before y b \<Longrightarrow> \<not> before b a \<Longrightarrow> \<forall>y \<in> S. \<not> before y a"
  using not_before_trans by blast

lemma pmerge_ordered:
  "is_root t \<Longrightarrow> is_root u \<Longrightarrow> heap_ordered before t \<Longrightarrow> heap_ordered before u \<Longrightarrow>
   heap_ordered before (pmerge before t u)"
proof (cases "(before, t, u)" rule: pmerge.cases)
  case (3 cmp l a x m b y)
  assume "is_root t" "is_root u" "heap_ordered before t" "heap_ordered before u"
  then have o: "\<forall>y \<in> set_tree l. \<not> before y a" "\<forall>y \<in> set_tree m. \<not> before y b"
    "heap_ordered before l" "heap_ordered before m" and tu: "t = Node l a Leaf" "u = Node m b Leaf"
    using 3 by auto
  show ?thesis
  proof (cases "before a b")
    case True
    then have "\<forall>y \<in> set_tree m. \<not> before y a" using below_trans [OF o(2)] asym by blast
    then show ?thesis using True o asym by (auto simp: tu)
  next
    case False
    then have "\<forall>y \<in> set_tree l. \<not> before y b" using below_trans [OF o(1)] by blast
    then show ?thesis using False o by (auto simp: tu)
  qed
qed auto

lemma pass_ordered: "heap_ordered before t \<Longrightarrow> heap_ordered before (pass before t)"
proof (induction t rule: measure_induct_rule [of size])
  case (less t)
  show ?case
  proof (cases "(before, t)" rule: pass.cases)
    case (1 cmp l a m b r)
    then have t: "t = Node l a (Node m b r)" by simp
    have r: "heap_ordered before (pass before r)" using less by (simp add: t)
    have ab: "heap_ordered before (pmerge before (Node l a Leaf) (Node m b Leaf))"
      using less(2) by (intro pmerge_ordered) (simp_all add: t)
    have "is_root (pmerge before (Node l a Leaf) (Node m b Leaf))"
      by (rule is_root_pmerge) simp_all
    from pmerge_ordered [OF this is_root_pass ab r] show ?thesis by (simp only: t pass.simps)
  qed (use less in simp_all)
qed

lemma root_minimal:
  "heap_ordered before (Node cs a Leaf) \<Longrightarrow> j \<in> set_tree (Node cs a Leaf) \<Longrightarrow> \<not> before j a"
  using irrefl by auto

end

section \<open>The invariant\<close>

fun free_list :: "pheap \<Rightarrow> nat \<Rightarrow> nat list \<Rightarrow> bool" where
  "free_list h i [] \<longleftrightarrow> i = 0"
| "free_list h i (j # fs) \<longleftrightarrow> i = j \<and> is_node h j \<and> free_list h (sibling (nodes h j)) fs"

text \<open>
  The tree \<open>t\<close> is linked from the root, the nodes \<open>fs\<close> are free, in this order, and a node has a
  parent exactly if it is in the tree below the root.
\<close>

definition ph_inv :: "comparator \<Rightarrow> pheap \<Rightarrow> nat tree \<Rightarrow> nat list \<Rightarrow> bool" where
  "ph_inv cmp h t fs \<longleftrightarrow> repr h 0 (root_id h) t \<and> is_root t \<and> dist t \<and> heap_ordered cmp t \<and>
     free_list h (free_head_id h) fs \<and> distinct fs \<and> set fs \<inter> set_tree t = {} \<and>
     free_tail_id h = (if fs = [] then 0 else last fs) \<and>
     (\<forall>j. is_node h j \<and> j \<notin> set_tree t \<longrightarrow> parent (nodes h j) = 0)"

lemma free_list_frame:
  assumes "only_at S h h'" "set fs \<inter> S = {}"
  shows "free_list h' i fs = free_list h i fs"
  using assms(2)
proof (induction fs arbitrary: i)
  case (Cons j fs)
  then have "set fs \<inter> S = {}" "j \<notin> S" by auto
  then show ?case
    by (simp add: Cons.IH only_at_fields(5) [OF assms(1)] only_at_node [OF assms(1)])
qed simp

lemma free_list_nodes: "free_list h i fs \<Longrightarrow> j \<in> set fs \<Longrightarrow> is_node h j"
  by (induction fs arbitrary: i) auto

lemma free_list_fields [simp]:
  "free_list (h\<lparr>free_head_id := a\<rparr>) i fs = free_list h i fs"
  "free_list (h\<lparr>free_tail_id := a\<rparr>) i fs = free_list h i fs"
  "free_list (h\<lparr>root_id := a\<rparr>) i fs = free_list h i fs"
  by (induction fs arbitrary: i) (auto simp: is_node_def)

lemma is_node_fields [simp]:
  "is_node (h\<lparr>free_head_id := a\<rparr>) = is_node h" "is_node (h\<lparr>free_tail_id := a\<rparr>) = is_node h"
  "is_node (h\<lparr>root_id := a\<rparr>) = is_node h" "is_node (h\<lparr>nodes := ns\<rparr>) = is_node h"
  by (simp_all add: is_node_def fun_eq_iff)

lemma repr_fields [simp]:
  "repr (h\<lparr>free_head_id := a\<rparr>) p i t = repr h p i t" "repr (h\<lparr>free_tail_id := a\<rparr>) p i t = repr h p i t"
  "repr (h\<lparr>root_id := a\<rparr>) p i t = repr h p i t"
  by (induction t arbitrary: p i) auto

lemma root_cases:
  assumes "ph_inv cmp h t fs" "t \<noteq> Leaf"
  obtains cs where "t = Node cs (root_id h) Leaf" "root_id h \<noteq> 0" "is_node h (root_id h)"
    "repr h (root_id h) (child (nodes h (root_id h))) cs" "parent (nodes h (root_id h)) = 0"
    "sibling (nodes h (root_id h)) = 0" "root_id h \<notin> set_tree cs" "dist cs"
proof (cases t)
  case (Node l a r)
  then show ?thesis using assms(1) that by (auto simp: ph_inv_def is_node_def)
qed (use assms in simp)

section \<open>The operations keep it\<close>

lemma put_only_at: "ph_put_node i f h = Inr h' \<Longrightarrow> only_at {i} h h' \<and> nodes h' i = f (nodes h i)"
  by (auto simp: ph_put_node_def only_at_def split: if_splits)

lemma put_Inr: "is_node h i \<Longrightarrow> ph_put_node i f h = Inr (h\<lparr>nodes := (nodes h)(i := f (nodes h i))\<rparr>)"
  by (simp add: ph_put_node_def)

lemma ph_new_node_inv:
  assumes "ph_inv cmp h t (i # fs)"
  shows "\<exists>h'. ph_new_node h = Inr (h', i) \<and> ph_inv cmp h' t fs \<and> is_node h' = is_node h"
proof -
  let ?h = "if fs = [] then h\<lparr>free_head_id := sibling (nodes h i), free_tail_id := 0\<rparr>
    else h\<lparr>free_head_id := sibling (nodes h i)\<rparr>"
  define h' where "h' = ?h\<lparr>nodes := (nodes h)(i := no_links)\<rparr>"
  have i: "free_head_id h = i" "is_node h i" "free_list h (sibling (nodes h i)) fs" "i \<notin> set fs"
    "i \<notin> set_tree t" using assms by (auto simp: ph_inv_def)
  have s0: "sibling (nodes h i) = 0 \<longleftrightarrow> fs = []" using i(3) by (cases fs) (auto simp: is_node_def)
  have "ph_new_node h = Inr (h', i)"
    using i(1,2) s0 by (auto simp: ph_new_node_def ph_get_node_def put_Inr h'_def is_node_def)
  moreover have "ph_inv cmp h' t fs"
  proof -
    have o: "only_at {i} ?h h'" by (simp add: only_at_def h'_def)
    have "repr h' 0 (root_id h) t"
      using assms repr_frame [OF o, of t] i(5) by (auto simp: ph_inv_def)
    moreover have "free_list h' (sibling (nodes h i)) fs"
      using i(3,4) free_list_frame [OF o, of fs] by auto
    moreover have "root_id h' = root_id h" "free_head_id h' = sibling (nodes h i)"
      "free_tail_id h' = (if fs = [] then 0 else free_tail_id h)" "is_node h' = is_node h"
      by (simp_all add: h'_def)
    moreover have "parent (nodes h' j) = 0" if "is_node h j" "j \<notin> set_tree t" for j
      using assms that by (simp add: h'_def ph_inv_def no_links_def)
    ultimately show ?thesis using assms by (auto simp: ph_inv_def)
  qed
  moreover have "is_node h' = is_node h" by (simp add: h'_def)
  ultimately show ?thesis by blast
qed


lemma parent_fixed:
  assumes "repr h w q t" "is_root t" "dist t"
  shows "\<exists>h'. (if q \<noteq> 0 then ph_put_node q (set_parent 0) h else Inr h) = Inr h' \<and>
    repr h' 0 q t \<and> only_at (set_tree t) h h'"
proof (cases t)
  case Leaf
  then show ?thesis using assms by simp
next
  case (Node cs j ss)
  then have t: "t = Node cs q Leaf" "q \<notin> set_tree cs" "is_node h q" "q \<noteq> 0"
    using assms by (auto simp: is_node_def)
  obtain h' where h': "ph_put_node q (set_parent 0) h = Inr h'" using put_Inr [OF t(3)] by blast
  from repr_put_parent [OF assms(1) [unfolded t(1)] t(2) h'] show ?thesis
    using h' t(4) by (auto simp: t(1) intro: only_at_mono)
qed

text \<open>What taking the root off a tree does to the nodes, and to the end of the free list.\<close>

lemma ph_remove_any_head_repr:
  assumes t: "repr h p r (Node cs r Leaf)" "dist (Node cs r Leaf)"
    and tl: "free \<Longrightarrow> free_tail_id h \<noteq> 0 \<Longrightarrow> is_node h (free_tail_id h) \<and> free_tail_id h \<notin> set_tree (Node cs r Leaf)"
  shows "\<exists>h' q. ph_remove_any_head cmp h r free = Inr (h', q) \<and> repr h' 0 q (pass cmp cs) \<and>
    nodes h' r = (nodes h r)\<lparr>sibling := 0\<rparr> \<and>
    (free \<and> free_tail_id h \<noteq> 0 \<longrightarrow> nodes h' (free_tail_id h) = (nodes h (free_tail_id h))\<lparr>sibling := r\<rparr>) \<and>
    only_at (set_tree (Node cs r Leaf) \<union> (if free then {free_tail_id h} else {}))
      (if free then h\<lparr>free_tail_id := r\<rparr> else h) h'"
proof -
  let ?T = "set_tree (Node cs r Leaf)" and ?e = "free_tail_id h"
  have r: "is_node h r" "repr h r (child (nodes h r)) cs" "r \<notin> set_tree cs" "dist cs"
    using t by auto
  have "size cs < Suc (max_nodes h)" using repr_size [OF r(2,4)] by simp
  from two_pass_repr [OF r(2,4) this]
  obtain h1 q w where h1: "ph_merge_two_pass (Suc (max_nodes h)) cmp h (child (nodes h r)) = Inr (h1, q)"
    "repr h1 w q (pass cmp cs)" "only_at (set_tree cs) h h1" by blast
  have n1: "is_node h1 = is_node h" "free_tail_id h1 = ?e" "nodes h1 r = nodes h r"
    using only_at_fields [OF h1(3)] only_at_node [OF h1(3) r(3)] by simp_all
  obtain h2 where h2: "(if free then append_free r h1 else Inr h1) = Inr h2"
    "only_at (if free then {?e} else {}) (if free then h1\<lparr>free_tail_id := r\<rparr> else h1) h2"
    "free \<and> ?e \<noteq> 0 \<longrightarrow> nodes h2 ?e = (nodes h1 ?e)\<lparr>sibling := r\<rparr>"
  proof (cases "free \<and> ?e \<noteq> 0")
    case True
    then show ?thesis using that [of "h1\<lparr>nodes := (nodes h1)(?e := (nodes h1 ?e)\<lparr>sibling := r\<rparr>), free_tail_id := r\<rparr>"]
        tl n1 by (simp add: append_free_def put_Inr only_at_def)
  next
    case False
    show ?thesis
    proof (rule that)
      show "(if free then append_free r h1 else Inr h1) = Inr (if free then h1\<lparr>free_tail_id := r\<rparr> else h1)"
        using False n1 by (simp add: append_free_def)
    qed (use False in auto)
  qed
  have e: "?e \<notin> set_tree cs" if "free"
    using tl that repr_nonzero [OF t(1)] by (cases "?e = 0") auto
  have "repr h2 w q (pass cmp cs)"
    using repr_frame [OF h2(2), of "pass cmp cs" w q] e h1(2) by (cases free) auto
  then obtain h3 where h3: "(if q \<noteq> 0 then ph_put_node q (set_parent 0) h2 else Inr h2) = Inr h3"
    "repr h3 0 q (pass cmp cs)" "only_at (set_tree cs) h2 h3"
    using parent_fixed [of h2 w q "pass cmp cs"] r(4) by auto
  define h4 where "h4 = h3\<lparr>nodes := (nodes h3)(r := (nodes h3 r)\<lparr>sibling := 0\<rparr>)\<rparr>"
  have n3: "is_node h3 = is_node h"
    using only_at_fields(5) [OF h3(3)] only_at_fields(5) [OF h2(2)] n1 by (cases free) simp_all
  have o4: "only_at {r} h3 h4" by (simp add: only_at_def h4_def)
  have "ph_remove_any_head cmp h r free = Inr (h4, q)"
    using r(1) h1(1) h2(1) h3(1) n3 by (simp add: ph_remove_any_head_def ph_get_node_def put_Inr h4_def)
  moreover have "repr h4 0 q (pass cmp cs)"
    using repr_frame [OF o4, of "pass cmp cs"] h3(2) r(3) by simp
  moreover have re: "r \<noteq> ?e" if "free" "?e \<noteq> 0" using tl that by auto
  have r2: "nodes h2 r = nodes h r"
    using only_at_node [OF h2(2), of r] n1 re r(1) by (cases free; cases "?e = 0") (auto simp: is_node_def)
  have "nodes h4 r = (nodes h r)\<lparr>sibling := 0\<rparr>"
    using only_at_node [OF h3(3) r(3)] r2 by (simp add: h4_def)
  moreover have "nodes h4 ?e = (nodes h ?e)\<lparr>sibling := r\<rparr>" if f: "free" "?e \<noteq> 0"
  proof -
    have "nodes h4 ?e = nodes h2 ?e" using only_at_node [OF h3(3) e] re f by (simp add: h4_def)
    then show ?thesis using h2(3) f only_at_node [OF h1(3) e] by simp
  qed
  moreover have "only_at (?T \<union> (if free then {?e} else {})) (if free then h\<lparr>free_tail_id := r\<rparr> else h) h4"
  proof -
    let ?S = "?T \<union> (if free then {?e} else {})"
    have "only_at ?S (if free then h\<lparr>free_tail_id := r\<rparr> else h) (if free then h1\<lparr>free_tail_id := r\<rparr> else h1)"
      using h1(3) by (cases h; cases h1) (auto simp: only_at_def)
    moreover have "only_at ?S (if free then h1\<lparr>free_tail_id := r\<rparr> else h1) h2"
      using h2(2) by (rule only_at_mono) auto
    moreover have "only_at ?S h2 h3" "only_at ?S h3 h4"
      using h3(3) o4 by (auto elim!: only_at_mono)
    ultimately show ?thesis using only_at_trans by meson
  qed
  ultimately show ?thesis by blast
qed


lemma ph_insert_node_inv:
  assumes "weak_order cmp" "ph_inv cmp h t fs" "is_node h i" "i \<notin> set_tree t" "i \<notin> set fs"
  shows "\<exists>h' r. ph_insert_node cmp h i = Inr (h', r) \<and> r = root_id h' \<and> is_node h' = is_node h \<and>
    ph_inv cmp h' (pmerge cmp t (Node Leaf i Leaf)) fs"
proof -
  define h1 where "h1 = h\<lparr>nodes := (nodes h)(i := no_links)\<rparr>"
  have o1: "only_at {i} h h1" by (simp add: only_at_def h1_def)
  have inv: "repr h 0 (root_id h) t" "is_root t" "dist t" "heap_ordered cmp t"
    "free_list h (free_head_id h) fs" "set fs \<inter> set_tree t = {}"
    "\<forall>j. is_node h j \<and> j \<notin> set_tree t \<longrightarrow> parent (nodes h j) = 0"
    using assms(2) by (auto simp: ph_inv_def)
  have t1: "repr h1 0 (root_id h) t" using repr_frame [OF o1, of t] inv(1) assms(4) by simp
  have i1: "repr h1 0 i (Node Leaf i Leaf)" using assms(3) by (simp add: h1_def no_links_def)
  obtain h2 r w where h2: "ph_merge_nodes cmp h1 (root_id h) i = Inr (h2, r)"
    "repr h2 w r (pmerge cmp t (Node Leaf i Leaf))" "w \<in> {0, 0}"
    "only_at (set_tree t \<union> set_tree (Node Leaf i Leaf)) h1 h2"
    using merge_repr [OF t1 i1, of cmp] inv(2,3) assms(4) by auto
  define h' where "h' = h2\<lparr>root_id := r\<rparr>"
  have f1: "is_node h1 = is_node h" "root_id h1 = root_id h" "free_head_id h1 = free_head_id h"
    "free_tail_id h1 = free_tail_id h" by (simp_all add: h1_def)
  note f2 = only_at_fields [OF h2(4), unfolded f1]
  have "ph_insert_node cmp h i = Inr (h', r)"
    using h2(1) by (simp add: ph_insert_node_def put_Inr [OF assms(3)] h1_def h'_def)
  moreover have "ph_inv cmp h' (pmerge cmp t (Node Leaf i Leaf)) fs"
    unfolding ph_inv_def
  proof (intro conjI)
    show "repr h' 0 (root_id h') (pmerge cmp t (Node Leaf i Leaf))"
      using h2(2,3) by (simp add: h'_def)
    show "is_root (pmerge cmp t (Node Leaf i Leaf))" using inv by simp
    show "dist (pmerge cmp t (Node Leaf i Leaf))" using inv assms(4) by simp
    show "heap_ordered cmp (pmerge cmp t (Node Leaf i Leaf))"
      using weak_order.pmerge_ordered [OF assms(1) inv(2) _ inv(4)] by simp
    have "free_list h1 (free_head_id h) fs" using free_list_frame [OF o1, of fs] inv(5) assms(5) by simp
    then have "free_list h2 (free_head_id h) fs"
      using free_list_frame [OF h2(4), of fs] inv(6) assms(5) by simp
    then show "free_list h' (free_head_id h') fs" by (simp add: h'_def f2)
    show "set fs \<inter> set_tree (pmerge cmp t (Node Leaf i Leaf)) = {}" using inv assms(5) by auto
    show "distinct fs" "free_tail_id h' = (if fs = [] then 0 else last fs)"
      using assms(2) by (auto simp: h'_def f2 ph_inv_def)
    show "\<forall>j. is_node h' j \<and> j \<notin> set_tree (pmerge cmp t (Node Leaf i Leaf)) \<longrightarrow> parent (nodes h' j) = 0"
      using only_at_node [OF h2(4)] inv(2,7) by (auto simp: h'_def f2 h1_def)
  qed
  ultimately show ?thesis using f2 by (auto simp: h'_def)
qed

lemma free_list_snoc:
  "free_list h i fs \<Longrightarrow> fs \<noteq> [] \<Longrightarrow> distinct fs \<Longrightarrow> r \<notin> set fs \<Longrightarrow> is_node h r \<Longrightarrow>
   nodes h' = (nodes h)(last fs := (nodes h (last fs))\<lparr>sibling := r\<rparr>, r := n) \<Longrightarrow> sibling n = 0 \<Longrightarrow>
   is_node h' = is_node h \<Longrightarrow> free_list h' i (fs @ [r])"
proof (induction fs arbitrary: i)
  case (Cons a fs)
  show ?case
  proof (cases "fs = []")
    case False
    then have "a \<noteq> last fs" "a \<noteq> r" using Cons.prems by auto
    then show ?thesis using Cons False by auto
  qed (use Cons.prems in auto)
qed simp

text \<open>
  The head goes, and the rest is what two passes over its children leave. The node's links are
  not cleared, only its sibling; its parent was zero as it was the root.
\<close>

lemma ph_remove_head_inv:
  assumes wo: "weak_order cmp" and inv: "ph_inv cmp h (Node cs r Leaf) fs" and f: "free \<Longrightarrow> fs \<noteq> []"
  shows "\<exists>h'. ph_remove_head cmp h free = Inr (h', r) \<and> is_node h' = is_node h \<and>
    ph_inv cmp h' (pass cmp cs) (if free then fs @ [r] else fs) \<and> sibling (nodes h' r) = 0"
proof -
  have r: "root_id h = r" "repr h 0 r (Node cs r Leaf)" "dist (Node cs r Leaf)" "heap_ordered cmp cs"
    "r \<notin> set fs" "is_node h r" "dist cs" "r \<notin> set_tree cs" "parent (nodes h r) = 0"
    "free_list h (free_head_id h) fs" "distinct fs" "set fs \<inter> set_tree cs = {}"
    "free_tail_id h = (if fs = [] then 0 else last fs)"
    "\<forall>j. is_node h j \<and> j \<notin> set_tree (Node cs r Leaf) \<longrightarrow> parent (nodes h j) = 0"
    using inv by (auto simp: ph_inv_def)
  let ?e = "free_tail_id h"
  have e: "is_node h ?e \<and> ?e \<notin> set_tree (Node cs r Leaf) \<and> ?e = last fs \<and> ?e \<noteq> 0 \<and> ?e \<noteq> r" if free
  proof -
    have l: "last fs \<in> set fs" "?e = last fs" using f that r(13) by simp_all
    then have "is_node h ?e" "?e \<noteq> r" "?e \<notin> set_tree cs"
      using r(5,12) free_list_nodes [OF r(10)] by auto
    then show ?thesis using l(2) by (auto simp: is_node_def)
  qed
  let ?b = "if free then h\<lparr>free_tail_id := r\<rparr> else h"
  obtain h1 q where h1: "ph_remove_any_head cmp h r free = Inr (h1, q)" "repr h1 0 q (pass cmp cs)"
    "nodes h1 r = (nodes h r)\<lparr>sibling := 0\<rparr>"
    "free \<and> ?e \<noteq> 0 \<longrightarrow> nodes h1 ?e = (nodes h ?e)\<lparr>sibling := r\<rparr>"
    "only_at (set_tree (Node cs r Leaf) \<union> (if free then {?e} else {})) ?b h1"
    using ph_remove_any_head_repr [OF r(2,3), of free cmp] e by blast
  define h' where "h' = h1\<lparr>root_id := q\<rparr>"
  have n1: "is_node h1 = is_node h" "free_head_id h1 = free_head_id h"
    "free_tail_id h1 = (if free then r else ?e)"
    using only_at_fields [OF h1(5)] by simp_all
  have out: "nodes h1 j = nodes h j" if "j \<notin> set_tree (Node cs r Leaf)" "free \<Longrightarrow> j \<noteq> ?e" for j
    using only_at_node [OF h1(5), of j] that by (cases free) auto
  have "ph_remove_head cmp h free = Inr (h', r)"
    using h1(1) r(1) by (simp add: ph_remove_head_def ph_peek_head_def h'_def)
  moreover have fl: "free_list h1 (free_head_id h) (if free then fs @ [r] else fs)"
  proof (cases free)
    case True
    define k where "k = h\<lparr>nodes := (nodes h)(last fs := (nodes h (last fs))\<lparr>sibling := r\<rparr>, r := nodes h1 r)\<rparr>"
    have "free_list k (free_head_id h) (fs @ [r])"
      using free_list_snoc [OF r(10) f [OF True] r(11,5,6), of k "nodes h1 r"] h1(3) by (simp add: k_def)
    moreover have "only_at (set_tree cs) (k\<lparr>root_id := root_id h1, free_head_id := free_head_id h1, free_tail_id := free_tail_id h1, max_nodes := max_nodes h1\<rparr>) h1"
      using out h1(3,4) e [OF True] True by (cases h1) (auto simp: only_at_def k_def)
    moreover have "max_nodes h1 = max_nodes h" using only_at_fields [OF h1(5)] by (simp split: if_splits)
    moreover have "free_list (k\<lparr>root_id := a, free_head_id := b, free_tail_id := c, max_nodes := max_nodes h\<rparr>) i gs = free_list k i gs"
      for a b c i gs by (induction gs arbitrary: i) (auto simp: is_node_def k_def)
    moreover have "set (fs @ [r]) \<inter> set_tree cs = {}" using r(8,12) by auto
    ultimately show ?thesis using free_list_frame [of "set_tree cs" _ h1 "fs @ [r]"] True by auto
  next
    case False
    have "set fs \<inter> (set_tree (Node cs r Leaf) \<union> {}) = {}" using r by auto
    then show ?thesis using free_list_frame [OF h1(5), of fs] r(10) False by simp
  qed
  moreover have "ph_inv cmp h' (pass cmp cs) (if free then fs @ [r] else fs)"
    unfolding ph_inv_def
  proof (intro conjI)
    show "repr h' 0 (root_id h') (pass cmp cs)" using h1(2) by (simp add: h'_def)
    show "is_root (pass cmp cs)" "dist (pass cmp cs)" using r by simp_all
    show "heap_ordered cmp (pass cmp cs)" using weak_order.pass_ordered [OF wo r(4)] .
    show "free_list h' (free_head_id h') (if free then fs @ [r] else fs)" using fl by (simp add: h'_def n1)
    show "distinct (if free then fs @ [r] else fs)" using r by simp
    show "set (if free then fs @ [r] else fs) \<inter> set_tree (pass cmp cs) = {}" using r by auto
    show "free_tail_id h' = (if (if free then fs @ [r] else fs) = [] then 0 else last (if free then fs @ [r] else fs))"
      using r(13) by (simp add: h'_def n1)
    show "\<forall>j. is_node h' j \<and> j \<notin> set_tree (pass cmp cs) \<longrightarrow> parent (nodes h' j) = 0"
    proof (intro allI impI)
      fix j assume j: "is_node h' j \<and> j \<notin> set_tree (pass cmp cs)"
      show "parent (nodes h' j) = 0"
      proof (cases "j = r")
        case True then show ?thesis using h1(3) r(9) by (simp add: h'_def)
      next
        case False
        then have "parent (nodes h j) = 0" using r(14) j n1 by (simp add: h'_def)
        then show ?thesis using out [of j] h1(4) e False j by (cases "free \<and> j = ?e") (auto simp: h'_def)
      qed
    qed
  qed
  moreover have "sibling (nodes h' r) = 0" using h1(3) by (simp add: h'_def)
  ultimately show ?thesis using n1 by (auto simp: h'_def)
qed

text \<open>Freeing a node that was taken out before.\<close>

lemma ph_free_node_inv:
  assumes inv: "ph_inv cmp h t fs" "fs \<noteq> []"
    and i: "is_node h i" "i \<notin> set_tree t" "i \<notin> set fs" "sibling (nodes h i) = 0"
  shows "\<exists>h'. ph_free_node h i = Inr h' \<and> ph_inv cmp h' t (fs @ [i]) \<and> is_node h' = is_node h"
proof -
  let ?e = "last fs"
  define h' where "h' = h\<lparr>nodes := (nodes h)(?e := (nodes h ?e)\<lparr>sibling := i\<rparr>), free_tail_id := i\<rparr>"
  have e: "free_list h (free_head_id h) fs" "distinct fs" "set fs \<inter> set_tree t = {}" "free_tail_id h = ?e" "?e \<in> set fs"
    using inv by (simp_all add: ph_inv_def)
  then have n: "is_node h ?e" "?e \<notin> set_tree t" "?e \<noteq> i" using free_list_nodes i(3) by auto
  have "ph_free_node h i = Inr h'" using n(1) e(4) by (simp add: ph_free_node_def append_free_def put_Inr is_node_def h'_def)
  moreover have o: "only_at {?e} (h\<lparr>free_tail_id := i\<rparr>) h'" by (simp add: only_at_def h'_def)
  have "repr h' 0 (root_id h) t" using inv(1) repr_frame [OF o, of t] n(2) by (auto simp: ph_inv_def)
  moreover have "free_list h' (free_head_id h) (fs @ [i])"
    by (rule free_list_snoc [OF e(1) inv(2) e(2) i(3,1), of h' "nodes h i"])
      (use i(4) n(3) in \<open>auto simp: h'_def fun_eq_iff\<close>)
  moreover have "is_node h' = is_node h" "root_id h' = root_id h" "free_head_id h' = free_head_id h" "free_tail_id h' = i"
    by (simp_all add: h'_def)
  moreover have "\<forall>j. is_node h j \<and> j \<notin> set_tree t \<longrightarrow> parent (nodes h' j) = 0"
    using inv(1) by (auto simp: ph_inv_def h'_def)
  ultimately show ?thesis using inv(1) i(2,3) by (intro exI [of _ h']) (auto simp: ph_inv_def)
qed


section \<open>A new heap\<close>

lemma link_free_result:
  "\<forall>i \<in> set is. is_node h i \<Longrightarrow> distinct is \<Longrightarrow>
   link_free is h = Inr (h\<lparr>nodes := (\<lambda>j. if j \<in> set is then (nodes h j)\<lparr>sibling := j + 1\<rparr> else nodes h j)\<rparr>)"
proof (induction "is" arbitrary: h)
  case (Cons i js)
  let ?h = "h\<lparr>nodes := (nodes h)(i := (nodes h i)\<lparr>sibling := i + 1\<rparr>)\<rparr>"
  have "link_free js ?h = Inr (?h\<lparr>nodes := (\<lambda>j. if j \<in> set js then (nodes ?h j)\<lparr>sibling := j + 1\<rparr> else nodes ?h j)\<rparr>)"
    using Cons.prems by (intro Cons.IH) auto
  moreover have "?h\<lparr>nodes := (\<lambda>j. if j \<in> set js then (nodes ?h j)\<lparr>sibling := j + 1\<rparr> else nodes ?h j)\<rparr> =
      h\<lparr>nodes := (\<lambda>j. if j \<in> set (i # js) then (nodes h j)\<lparr>sibling := j + 1\<rparr> else nodes h j)\<rparr>"
    using Cons.prems(2) by (auto simp: fun_eq_iff)
  ultimately show ?case using Cons.prems by (simp add: put_Inr)
qed simp

lemma free_list_upto:
  "k \<le> n \<Longrightarrow> 0 < k \<Longrightarrow> max_nodes h = n \<Longrightarrow>
   \<forall>j. 0 < j \<and> j \<le> n \<longrightarrow> sibling (nodes h j) = (if j = n then 0 else j + 1) \<Longrightarrow>
   free_list h k [k ..< Suc n]"
proof (induction "n - k" arbitrary: k)
  case 0
  then have "k = n" by simp
  then show ?case using 0 by (simp add: is_node_def)
next
  case (Suc d)
  then have "free_list h (Suc k) [Suc k ..< Suc n]" by (intro Suc.hyps(1)) simp_all
  then show ?case using Suc by (simp add: upt_conv_Cons is_node_def del: upt_Suc)
qed

lemma ph_create_inv:
  assumes "0 < n"
  shows "\<exists>h. ph_create n = Inr h \<and> max_nodes h = n \<and> ph_inv cmp h Leaf [1 ..< Suc n]"
proof -
  let ?h0 = "\<lparr>nodes = \<lambda>_. no_links, max_nodes = n, root_id = 0, free_head_id = 1, free_tail_id = n\<rparr>"
  define h1 where "h1 = ?h0\<lparr>nodes := (\<lambda>j. if j \<in> set [1 ..< n] then no_links\<lparr>sibling := j + 1\<rparr> else no_links)\<rparr>"
  define h where "h = h1\<lparr>nodes := (nodes h1)(n := (nodes h1 n)\<lparr>sibling := 0\<rparr>)\<rparr>"
  have "link_free [1 ..< n] ?h0 = Inr h1"
    using link_free_result [of "[1 ..< n]" ?h0] by (simp add: is_node_def h1_def cong: if_cong)
  then have "ph_create n = Inr h"
    using assms by (simp add: ph_create_def ph_post_alloc_init_def ph_clear_def h_def put_Inr is_node_def h1_def)
  moreover have f: "max_nodes h = n" "root_id h = 0" "free_head_id h = 1" "free_tail_id h = n"
    by (simp_all add: h_def h1_def)
  moreover have "ph_inv cmp h Leaf [1 ..< Suc n]"
  proof -
    have "free_list h 1 [1 ..< Suc n]"
      using assms f by (intro free_list_upto) (auto simp: h_def h1_def no_links_def)
    moreover have "\<forall>j. parent (nodes h j) = 0" by (simp add: h_def h1_def no_links_def)
    ultimately show ?thesis using f assms by (simp add: ph_inv_def del: upt_Suc)
  qed
  ultimately show ?thesis by blast
qed

lemma repr_has_parent: "repr h p i t \<Longrightarrow> p \<noteq> 0 \<Longrightarrow> j \<in> set_tree t \<Longrightarrow> parent (nodes h j) \<noteq> 0"
proof (induction t arbitrary: p i)
  case (Node l a r)
  then have "a \<noteq> 0" by (auto simp: is_node_def)
  then show ?case using Node by auto
qed simp

lemma ph_contains_node_tree:
  assumes "ph_inv cmp h t fs" "is_node h i"
  shows "ph_contains_node h i = Inr (i \<in> set_tree t)"
proof -
  have inv: "repr h 0 (root_id h) t" "is_root t" "dist t"
    "\<forall>j. is_node h j \<and> j \<notin> set_tree t \<longrightarrow> parent (nodes h j) = 0" using assms(1) by (auto simp: ph_inv_def)
  show ?thesis
  proof (cases "i = root_id h")
    case True
    then have "i \<in> set_tree t" using repr_head [OF inv(1)] assms(2) by (simp add: is_node_def)
    then show ?thesis using True by (simp add: ph_contains_node_def)
  next
    case False
    have "parent (nodes h i) \<noteq> 0" if "i \<in> set_tree t"
    proof (cases t)
      case (Node cs a ss)
      then have "i \<in> set_tree cs" "repr h a (child (nodes h a)) cs" "a \<noteq> 0"
        using inv that False by (auto simp: is_node_def)
      then show ?thesis using repr_has_parent by blast
    qed (use that in simp)
    then show ?thesis using False inv(4) assms(2) by (auto simp: ph_contains_node_def ph_get_node_def)
  qed
qed

section \<open>What the heap promises\<close>

interpretation numbers: weak_order "\<lambda>a b. a < b"
  by unfold_locales auto

lemma ph_inv_size:
  assumes "ph_inv cmp h t fs"
  shows "ph_peek_head h = 0 \<longleftrightarrow> t = Leaf"
  using assms repr_root by (auto simp: ph_inv_def ph_peek_head_def)

text \<open>
  C38: Inserting a free-standing node into a pairing heap succeeds for any comparator that is a
  strict weak order: the heap keeps its invariant (links, order and free list), contains exactly
  the old nodes and the new one, and the result is the new head.
\<close>

theorem heap_insertion:
  assumes "weak_order cmp" "ph_inv cmp h t fs" "is_node h i" "i \<notin> set_tree t" "i \<notin> set fs"
  shows "\<exists>h' t'. ph_insert_node cmp h i = Inr (h', ph_peek_head h') \<and> ph_inv cmp h' t' fs \<and>
    set_tree t' = insert i (set_tree t) \<and> (\<forall>j \<in> set_tree t'. \<not> cmp j (ph_peek_head h'))"
proof -
  obtain h' where h': "ph_insert_node cmp h i = Inr (h', root_id h')"
    "ph_inv cmp h' (pmerge cmp t (Node Leaf i Leaf)) fs"
    using ph_insert_node_inv [OF assms] by blast
  let ?t = "pmerge cmp t (Node Leaf i Leaf)"
  have st: "set_tree ?t = insert i (set_tree t)" using assms(2) by (simp add: ph_inv_def)
  then have "?t \<noteq> Leaf" by auto
  then obtain cs where cs: "?t = Node cs (root_id h') Leaf" using root_cases [OF h'(2)] by blast
  have "heap_ordered cmp ?t" using h'(2) by (simp only: ph_inv_def)
  then have "\<forall>j \<in> set_tree ?t. \<not> cmp j (root_id h')"
    using weak_order.root_minimal [OF assms(1)] unfolding cs by blast
  then show ?thesis using h' st unfolding ph_peek_head_def by blast
qed


text \<open>A heap of two nodes, one of them inserted.\<close>

lemma example_heap:
  "\<exists>h. ph_inv (\<lambda>a b. a < b) h (Node Leaf 1 Leaf) [2] \<and> max_nodes h = 2"
proof -
  define h where "h = \<lparr>nodes = (\<lambda>_. no_links), max_nodes = 2, root_id = 1, free_head_id = 2, free_tail_id = 2\<rparr>"
  have "ph_inv (\<lambda>a b. a < b) h (Node Leaf 1 Leaf) [2] \<and> max_nodes h = 2"
    by (simp add: ph_inv_def h_def no_links_def is_node_def)
  then show ?thesis by blast
qed

theorem heap_insertion_witness:
  "\<exists>h h' t'. max_nodes h = 3 \<and> ph_insert_node (\<lambda>a b. a < b) h 3 = Inr (h', ph_peek_head h') \<and>
     ph_inv (\<lambda>a b. a < b) h' t' [2] \<and> set_tree t' = insert 3 (set_tree (Node Leaf 1 Leaf)) \<and>
     (\<forall>j \<in> set_tree t'. \<not> j < ph_peek_head h')"
proof -
  define h where "h = \<lparr>nodes = (\<lambda>_. no_links), max_nodes = 3, root_id = 1, free_head_id = 2, free_tail_id = 2\<rparr>"
  have "ph_inv (\<lambda>a b. a < b) h (Node Leaf 1 Leaf) [2]" "is_node h 3" "max_nodes h = 3"
    by (simp_all add: ph_inv_def h_def no_links_def is_node_def)
  with heap_insertion [OF numbers.weak_order_axioms, of h "Node Leaf 1 Leaf" "[2]" 3] show ?thesis by auto
qed


section \<open>Freeing a node when none is free\<close>

text \<open>
  When every node of a heap is in use, removing and freeing its head does not make the node
  available again: the head of the free list stays zero, and the next allocation is refused.
\<close>

lemma freed_node_lost:
  assumes "weak_order cmp" "ph_inv cmp h t []" "ph_peek_head h \<noteq> 0"
  shows "\<exists>h' r. ph_remove_and_free_head cmp h = Inr (h', r) \<and> free_head_id h' = 0 \<and>
    ph_new_node h' = Inr (h', 0)"
proof -
  have "t \<noteq> Leaf" using assms(3) ph_inv_size [OF assms(2)] by simp
  then obtain cs where cs: "t = Node cs (root_id h) Leaf" using root_cases [OF assms(2)] by blast
  have a: "repr h 0 (root_id h) (Node cs (root_id h) Leaf)" "dist (Node cs (root_id h) Leaf)"
    "free_tail_id h = 0" "free_head_id h = 0"
    using assms(2) by (auto simp: ph_inv_def cs)
  from ph_remove_any_head_repr [OF a(1,2), of True cmp] a(3)
  obtain h1 q where h1: "ph_remove_any_head cmp h (root_id h) True = Inr (h1, q)"
    "only_at (set_tree (Node cs (root_id h) Leaf) \<union> {free_tail_id h}) (h\<lparr>free_tail_id := root_id h\<rparr>) h1"
    by auto
  have "free_head_id h1 = 0" using only_at_fields(3) [OF h1(2)] a(4) by simp
  then show ?thesis
    using h1(1) by (auto simp: ph_remove_and_free_head_def ph_remove_head_def ph_peek_head_def ph_new_node_def)
qed

end
