(* ===== verification/Irq_Chains.thy ===== *)
theory Irq_Chains
  imports Irq
begin

text \<open>
  Chains of shared interrupt handlers as lists: a slot is joined to the next both by its link and
  by the branch instruction at its end, so the order in which the processor runs through the
  slots is the order of the list.
\<close>

unbundle bit_operations_syntax

section \<open>Branches\<close>

lemma push_bit_take: "push_bit 21 (w :: u32) = push_bit 21 (take_bit 11 w)"
  by (rule bit_word_eqI) (auto simp: bit_simps)

lemma branch_field:
  "take_bit 11 (ucast (ucast (0xe000 OR (w AND 0x7ff) :: u32) :: u16) :: u32) = take_bit 11 w"
proof -
  have m: "(0x7ff :: u32) = mask 11" by (simp add: mask_eq_decr_exp)
  define c :: u32 where "c = push_bit 13 7"
  have c: "(0xe000 :: u32) = c" by (simp add: c_def)
  have e: "\<not> bit c n" if "n < 11" for n
    using that unfolding c_def bit_push_bit_iff by simp
  show ?thesis unfolding m c by (rule bit_word_eqI) (auto simp: bit_simps e)
qed

lemma resolve_make_branch:
  assumes k: "-1024 \<le> k" "k < 1024" and t: "to_addr = from_addr + 4 + 2 * word_of_int k"
  shows "resolve_branch from_addr (make_branch from_addr to_addr) = to_addr"
proof -
  let ?d = "to_addr - from_addr - 4"
  have d: "?d = 2 * word_of_int k" by (simp add: t)
  have "push_bit 21 (ucast (make_branch from_addr to_addr) :: u32) = push_bit 21 (drop_bit 1 ?d)"
    unfolding make_branch_def Let_def
    by (subst (1 2) push_bit_take) (simp only: branch_field)
  also have "\<dots> = push_bit 20 ?d"
  proof (rule bit_word_eqI)
    fix n assume "n < LENGTH(32)"
    have "\<not> bit ?d 0" by (simp add: d bit_0)
    moreover have "Suc (n - 21) = n - 20" if "21 \<le> n" using that by simp
    ultimately show "bit (push_bit 21 (drop_bit 1 ?d)) n = bit (push_bit 20 ?d) n"
      by (cases "n = 20") (auto simp: bit_simps)
  qed
  also have "\<dots> = word_of_int (2 ^ 21 * k)" by (simp add: d push_bit_eq_mult)
  finally have p: "push_bit 21 (ucast (make_branch from_addr to_addr) :: u32) = word_of_int (2 ^ 21 * k)" .
  have "sint (word_of_int (2 ^ 21 * k) :: u32) = 2 ^ 21 * k"
  proof -
    have "signed_take_bit 31 (2 ^ 21 * k) = 2 ^ 21 * k" using k by (intro signed_take_bit_int_eq_self) simp_all
    then show ?thesis unfolding sint_sbintrunc' by simp
  qed
  then show ?thesis by (simp only: resolve_branch_def p Let_def) (simp add: t)
qed


section \<open>Addresses of slots\<close>

text \<open>What the linker guarantees: the slots are aligned and lie below the end of the memory.\<close>

definition placed :: "irq_state \<Rightarrow> bool" where
  "placed s \<longleftrightarrow> length (slots s) \<le> 80 \<and> \<not> bit (slots_base s) 0 \<and>
     unat (slots_base s) + 12 * length (slots s) < 2 ^ 32"

lemma unat_of_nat_u32: "n < 2 ^ 32 \<Longrightarrow> unat (of_nat n :: u32) = n"
  by (simp add: unsigned_of_nat take_bit_nat_eq_self)

lemma slot_addr_nat:
  assumes "placed s" "i \<le> length (slots s)"
  shows "unat (slot_addr s i) = unat (slots_base s) + 12 * i" "unat (slot_addr s i - slots_base s) = 12 * i"
proof -
  have "unat (12 * of_nat i :: u32) = 12 * i"
    using assms by (simp add: placed_def unat_word_ariths unsigned_of_nat take_bit_nat_eq_self)
  then show "unat (slot_addr s i) = unat (slots_base s) + 12 * i" "unat (slot_addr s i - slots_base s) = 12 * i"
    using assms by (simp_all add: slot_addr_def placed_def unat_word_ariths)
qed

lemma thumb_bits:
  assumes "\<not> bit (slots_base s) 0"
  shows "add_thumb_bit (slot_addr s i) = slot_addr s i + 1"
    and "remove_thumb_bit (add_thumb_bit (slot_addr s i)) = slot_addr s i"
proof -
  have b: "\<not> bit (slot_addr s i) 0" using assms by (simp add: slot_addr_def bit_0)
  then have "slot_addr s i AND 1 = 0" by (simp add: and_one_eq odd_iff_mod_2_eq_one bit_0 even_iff_mod_2_eq_zero)
  then show "add_thumb_bit (slot_addr s i) = slot_addr s i + 1"
    by (simp add: add_thumb_bit_def disjunctive_add_eq_or)
  show "remove_thumb_bit (add_thumb_bit (slot_addr s i)) = slot_addr s i"
    unfolding remove_thumb_bit_def add_thumb_bit_def
    using b by (intro bit_word_eqI) (auto simp: bit_simps intro: gr0I)
qed

lemma slot_at_addr:
  "placed s \<Longrightarrow> i < length (slots s) \<Longrightarrow> slot_at s (slot_addr s i) = Inr i"
  using slot_addr_nat [of s i] by (simp add: slot_at_def)

lemma shared_addr:
  assumes "placed s" "i < length (slots s)"
  shows "is_shared_irq_raw_handler s (add_thumb_bit (slot_addr s i))"
proof -
  have "unat (slot_addr s i + 1 - slots_base s) = 12 * i + 1"
    using slot_addr_nat(2) [OF assms(1), of i] assms by (simp add: unat_word_ariths add_diff_eq placed_def
        diff_add_eq [symmetric])
  moreover have "unat (slots_size s) = 12 * length (slots s)"
    using assms by (simp add: slots_size_def placed_def unat_word_ariths unsigned_of_nat take_bit_nat_eq_self)
  ultimately show ?thesis
    using assms thumb_bits(1) [of s i] by (simp add: is_shared_irq_raw_handler_def word_less_nat_alt placed_def)
qed

lemma get_slot_index_addr:
  assumes "placed s" "i < length (slots s)"
  shows "get_slot_index s (slot_addr s i) = of_nat i"
proof -
  let ?d = "slot_addr s i - slots_base s"
  have i: "i < 80" using assms by (simp add: placed_def)
  have le: "slots_base s \<le> slot_addr s i" using slot_addr_nat(1) [OF assms(1), of i] assms(2) by (simp add: word_le_nat_alt)
  have d: "?d = of_nat (12 * i)" by (simp add: slot_addr_def)
  have "0xaaaa * (?d + ?d + 1) = (of_nat (43690 * (24 * i + 1)) :: u32)" by (simp add: d)
  moreover have "unat (of_nat (43690 * (24 * i + 1)) :: u32) = 43690 * (24 * i + 1)"
    using i by (intro unat_of_nat_u32) simp
  ultimately have "unat (0xaaaa * (?d + ?d + 1) :: u32) = 43690 * (24 * i + 1)" by (simp only:)
  moreover have "43690 * (24 * i + 1) div 2 ^ 20 = i"
    using i by (intro div_nat_eqI) simp_all
  ultimately have "unat (drop_bit 20 (0xaaaa * (?d + ?d + 1)) :: u32) = i"
    by (simp add: drop_bit_eq_div unat_div)
  then have "drop_bit 20 (0xaaaa * (?d + ?d + 1)) = (of_nat i :: u32)"
    using unat_of_nat_u32 [of i] i by (simp only: word_unat_eq_iff) simp
  moreover have "(ucast (of_nat i :: u32) :: u8) = of_nat i"
    using i unat_of_nat_u32 [of i]
    by (simp add: word_unat_eq_iff unsigned_ucast_eq unsigned_of_nat take_bit_nat_eq_self)
  ultimately show ?thesis using le by (simp add: get_slot_index_def slot_diff_def Let_def)
qed

lemma branch_between:
  assumes "placed s" "i < length (slots s)" "j < length (slots s)" "\<not> bit (slot_addr s j) 0"
  shows "resolve_branch (slot_addr s i + 4) (make_branch (slot_addr s i + 4) (slot_addr s j)) = slot_addr s j"
proof (rule resolve_make_branch)
  let ?k = "6 * (int j - int i) - 4"
  show "-1024 \<le> ?k" "?k < 1024" using assms(1-3) by (simp_all add: placed_def)
  show "slot_addr s j = slot_addr s i + 4 + 4 + 2 * word_of_int ?k"
    by (simp add: slot_addr_def algebra_simps)
qed


section \<open>Chains\<close>

definition joins :: "irq_state \<Rightarrow> nat \<Rightarrow> nat \<Rightarrow> bool" where
  "joins s i j \<longleftrightarrow> link (slots s ! i) = of_nat j \<and>
     resolve_branch (slot_addr s i + 4) (inst3 (slots s ! i)) = slot_addr s j"

definition is_chain :: "irq_state \<Rightarrow> nat list \<Rightarrow> bool" where
  "is_chain s c \<longleftrightarrow> c \<noteq> [] \<and> distinct c \<and> set c \<subseteq> {..< length (slots s)} \<and> successively (joins s) c \<and>
     link (slots s ! last c) = -1 \<and> inst3 (slots s ! last c) = 0xbd00"

text \<open>The priorities and handlers of a chain, in the order of execution.\<close>

definition chain_handlers :: "irq_state \<Rightarrow> nat list \<Rightarrow> (u8 \<times> u32) list" where
  "chain_handlers s c = map (\<lambda>i. (priority (slots s ! i), handler (slots s ! i))) c"

text \<open>The vector of an interrupt with a chain is the first slot, as Thumb code.\<close>

definition serves :: "irq_state \<Rightarrow> nat \<Rightarrow> nat list \<Rightarrow> bool" where
  "serves s num c \<longleftrightarrow> is_chain s c \<and> vtable s (16 + num) = add_thumb_bit (slot_addr s (hd c))"

lemma joins_frame:
  "slots s' ! i = slots s ! i \<Longrightarrow> slots_base s' = slots_base s \<Longrightarrow> joins s' i j = joins s i j"
  by (simp add: joins_def slot_addr_def)

lemma successively_frame:
  assumes "successively (joins s) c" "\<forall>i \<in> set (butlast c). slots s' ! i = slots s ! i" "slots_base s' = slots_base s"
  shows "successively (joins s') c"
  using assms(1,2)
proof (induction c rule: induct_list012)
  case (3 i j c)
  then show ?case using joins_frame [of s' i s j] assms(3) by auto
qed simp_all

lemma small_links:
  assumes "i < 80"
  shows "unat (of_nat i :: u8) = i" "0 \<le> sint (of_nat i :: u8)" "sint (-1 :: u8) < 0"
proof -
  show u: "unat (of_nat i :: u8) = i" using assms by (simp add: unsigned_of_nat take_bit_nat_eq_self)
  have "signed_take_bit 7 (int i) = int i" using assms by (intro signed_take_bit_int_eq_self) simp_all
  then show "0 \<le> sint (of_nat i :: u8)" by (simp add: signed_of_nat)
  show "sint (-1 :: u8) < 0" by simp
qed

lemma slot_index_link:
  "placed s \<Longrightarrow> i < length (slots s) \<Longrightarrow> slot_index s (of_nat i) = Inr i"
  using small_links [of i] by (simp add: slot_index_def placed_def)

lemma joins_link: "placed s \<Longrightarrow> joins s i j \<Longrightarrow> j < length (slots s) \<Longrightarrow>
    link (slots s ! i) = of_nat j \<and> 0 \<le> sint (link (slots s ! i))"
  using small_links [of j] by (simp add: joins_def placed_def)

lemma chain_position_result:
  assumes "placed s"
  shows "successively (joins s) (e # c) \<Longrightarrow> set (e # c) \<subseteq> {..< length (slots s)} \<Longrightarrow>
    link (slots s ! last (e # c)) = -1 \<Longrightarrow> length c < fuel \<Longrightarrow>
    chain_position fuel s order prev e =
      Inr (let xs = takeWhile (\<lambda>i. priority (slots s ! i) > order) (e # c)
           in if xs = [] then prev else Some (last xs))"
proof (induction c arbitrary: e prev fuel)
  case Nil
  then show ?case by (cases fuel) (simp_all add: small_links(3) [of 0])
next
  case (Cons j c)
  obtain k where k: "fuel = Suc k" "length c < k" using Cons.prems(4) by (cases fuel) auto
  have j: "joins s e j" "j < length (slots s)" using Cons.prems by auto
  note l = joins_link [OF assms j]
  have "chain_position k s order (Some e) j =
      Inr (let xs = takeWhile (\<lambda>i. priority (slots s ! i) > order) (j # c) in if xs = [] then Some e else Some (last xs))"
    using Cons.prems k(2) by (intro Cons.IH) auto
  then show ?case using l slot_index_link [OF assms j(2)] small_links(2) [of j] j(2) assms
    by (simp add: k Let_def placed_def)
qed


text \<open>Inserting a slot after others.\<close>

lemma is_chain_insert:
  assumes c: "is_chain s (xs @ ys)" and i: "i < length (slots s)" "i \<notin> set (xs @ ys)"
    and len: "length (slots s') = length (slots s)" "slots_base s' = slots_base s"
    and same: "\<forall>j \<in> set (butlast xs) \<union> set (tl ys). slots s' ! j = slots s ! j"
    and y: "ys \<noteq> [] \<longrightarrow> joins s' i (hd ys) \<and> link (slots s' ! hd ys) = link (slots s ! hd ys) \<and>
      inst3 (slots s' ! hd ys) = inst3 (slots s ! hd ys)"
    and x: "xs \<noteq> [] \<longrightarrow> joins s' (last xs) i"
    and e: "ys = [] \<longrightarrow> link (slots s' ! i) = -1 \<and> inst3 (slots s' ! i) = 0xbd00"
  shows "is_chain s' (xs @ i # ys)"
proof -
  have sx: "successively (joins s) xs" and sy: "successively (joins s) ys"
    using c by (auto simp: is_chain_def successively_append_iff)
  have "successively (joins s') xs" using successively_frame [OF sx _ len(2)] same by blast
  moreover have "successively (joins s') ys"
  proof (cases ys)
    case (Cons a zs)
    then show ?thesis
    proof (cases zs)
      case (Cons b ws)
      have "joins s' a b"
        using sy y \<open>ys = a # zs\<close> Cons len(2) by (simp add: joins_def slot_addr_def)
      moreover have "successively (joins s') zs"
      proof (rule successively_frame [of s])
        show "\<forall>i \<in> set (butlast zs). slots s' ! i = slots s ! i"
          using same \<open>ys = a # zs\<close> in_set_butlastD [of _ zs] by simp
      qed (use sy \<open>ys = a # zs\<close> Cons len(2) in simp_all)
      ultimately show ?thesis using \<open>ys = a # zs\<close> Cons by simp
    qed simp
  qed simp
  ultimately have succ: "successively (joins s') (xs @ i # ys)"
    using x y by (cases ys) (auto simp: successively_append_iff)
  have "link (slots s' ! last (xs @ i # ys)) = -1 \<and> inst3 (slots s' ! last (xs @ i # ys)) = 0xbd00"
  proof (cases ys)
    case (Cons a zs)
    then have "slots s' ! last ys = slots s ! last ys" if "zs \<noteq> []" using same that by auto
    then show ?thesis using c y Cons by (cases "zs = []") (auto simp: is_chain_def)
  qed (use e in simp)
  then show ?thesis using c i len succ by (auto simp: is_chain_def)
qed

text \<open>The two ways in which the code writes the slots, and the chains they make.\<close>

definition head_slots :: "irq_state \<Rightarrow> nat \<Rightarrow> nat \<Rightarrow> u32 \<Rightarrow> u8 \<Rightarrow> irq_slot list" where
  "head_slots s i e h order =
     (let new = \<lparr>inst1 = 0xa100, inst2 = make_branch (slot_addr s i + 2) (first_slot_code s),
        inst3 = make_branch (slot_addr s i + 4) (slot_addr s e), link = of_nat e, priority = order, handler = h\<rparr>;
        sl = (slots s)[i := new]
      in sl[e := (sl ! e)\<lparr>inst1 := 0x4801, inst2 := 0x4780\<rparr>])"

definition inner_slots :: "irq_state \<Rightarrow> nat \<Rightarrow> nat \<Rightarrow> u32 \<Rightarrow> u8 \<Rightarrow> irq_slot list" where
  "inner_slots s i l h order =
     (let ps = slots s ! l;
          i3 = (if sint (link ps) \<ge> 0
                then make_branch (slot_addr s i + 4) (resolve_branch (slot_addr s l + 4) (inst3 ps)) else 0xbd00);
          new = \<lparr>inst1 = 0x4801, inst2 = 0x4780, inst3 = i3, link = link ps, priority = order, handler = h\<rparr>
      in (slots s)[l := ps\<lparr>inst3 := make_branch (slot_addr s l + 4) (slot_addr s i), link := of_nat i\<rparr>, i := new])"

lemma head_slots_nth:
  assumes "i < length (slots s)" "e < length (slots s)" "i \<noteq> e"
  shows "length (head_slots s i e h order) = length (slots s)"
    "head_slots s i e h order ! e = (slots s ! e)\<lparr>inst1 := 0x4801, inst2 := 0x4780\<rparr>"
    "link (head_slots s i e h order ! i) = of_nat e"
    "inst3 (head_slots s i e h order ! i) = make_branch (slot_addr s i + 4) (slot_addr s e)"
    "priority (head_slots s i e h order ! i) = order" "handler (head_slots s i e h order ! i) = h"
    "j \<noteq> i \<Longrightarrow> j \<noteq> e \<Longrightarrow> head_slots s i e h order ! j = slots s ! j"
  using assms by (simp_all add: head_slots_def Let_def)

lemma inner_slots_nth:
  assumes "i < length (slots s)" "l < length (slots s)" "i \<noteq> l"
  shows "length (inner_slots s i l h order) = length (slots s)"
    "inner_slots s i l h order ! l =
      (slots s ! l)\<lparr>inst3 := make_branch (slot_addr s l + 4) (slot_addr s i), link := of_nat i\<rparr>"
    "link (inner_slots s i l h order ! i) = link (slots s ! l)"
    "inst3 (inner_slots s i l h order ! i) = (if sint (link (slots s ! l)) \<ge> 0
      then make_branch (slot_addr s i + 4) (resolve_branch (slot_addr s l + 4) (inst3 (slots s ! l))) else 0xbd00)"
    "priority (inner_slots s i l h order ! i) = order" "handler (inner_slots s i l h order ! i) = h"
    "j \<noteq> i \<Longrightarrow> j \<noteq> l \<Longrightarrow> inner_slots s i l h order ! j = slots s ! j"
  using assms by (simp_all add: inner_slots_def Let_def)

lemma branch_placed:
  assumes "placed s" "i < length (slots s)" "j < length (slots s)"
  shows "resolve_branch (slot_addr s i + 4) (make_branch (slot_addr s i + 4) (slot_addr s j)) = slot_addr s j"
  using assms by (intro branch_between) (simp_all add: placed_def slot_addr_def bit_0)

lemma slot_addr_same: "slots_base s' = slots_base s \<Longrightarrow> slot_addr s' = slot_addr s"
  by (simp add: slot_addr_def fun_eq_iff)

lemma head_chain:
  assumes p: "placed s" and c: "is_chain s (e # c)" and i: "i < length (slots s)" "i \<notin> set (e # c)"
    and s': "slots s' = head_slots s i e h order" "slots_base s' = slots_base s"
  shows "is_chain s' (i # e # c)" "chain_handlers s' (i # e # c) = (order, h) # chain_handlers s (e # c)"
proof -
  have e: "e < length (slots s)" "i \<noteq> e" "e \<notin> set c" using c i by (auto simp: is_chain_def)
  note nth = head_slots_nth [OF i(1) e(1,2), where h = h and order = order, folded s'(1)]
  have "is_chain s' ([] @ i # e # c)"
  proof (rule is_chain_insert [of s])
    show "is_chain s ([] @ e # c)" "i < length (slots s)" "i \<notin> set ([] @ e # c)"
      "length (slots s') = length (slots s)" "slots_base s' = slots_base s" using c i nth(1) s'(2) by simp_all
    show "\<forall>j \<in> set (butlast []) \<union> set (tl (e # c)). slots s' ! j = slots s ! j"
      using i(2) e(3) by (auto intro!: nth(7))
    show "e # c \<noteq> [] \<longrightarrow> joins s' i (hd (e # c)) \<and> link (slots s' ! hd (e # c)) = link (slots s ! hd (e # c)) \<and>
        inst3 (slots s' ! hd (e # c)) = inst3 (slots s ! hd (e # c))"
      using nth branch_placed [OF p i(1) e(1)] by (simp add: joins_def slot_addr_same [OF s'(2)])
  qed simp_all
  then show "is_chain s' (i # e # c)" by simp
  have "slots s' ! j = slots s ! j" if "j \<in> set c" for j
    using that i(2) e(3) by (intro nth(7)) auto
  then have "chain_handlers s' c = chain_handlers s c" by (simp add: chain_handlers_def)
  then show "chain_handlers s' (i # e # c) = (order, h) # chain_handlers s (e # c)"
    using nth by (simp add: chain_handlers_def)
qed

lemma inner_chain:
  assumes p: "placed s" and c: "is_chain s (xs @ l # ys)" and i: "i < length (slots s)" "i \<notin> set (xs @ l # ys)"
    and s': "slots s' = inner_slots s i l h order" "slots_base s' = slots_base s"
  shows "is_chain s' (xs @ l # i # ys)"
    "chain_handlers s' (xs @ l # i # ys) = chain_handlers s (xs @ [l]) @ (order, h) # chain_handlers s ys"
proof -
  have l: "l < length (slots s)" "i \<noteq> l" "l \<notin> set xs" "l \<notin> set ys" using c i by (auto simp: is_chain_def)
  note nth = inner_slots_nth [OF i(1) l(1,2), where h = h and order = order, folded s'(1)]
  have same: "slots s' ! j = slots s ! j" if "j \<in> set xs \<union> set ys" for j
    using that i(2) l by (intro nth(7)) auto
  have fin: "link (slots s ! l) = -1 \<and> inst3 (slots s ! l) = 0xbd00" if "ys = []"
    using c that by (simp add: is_chain_def)
  have "is_chain s' ((xs @ [l]) @ i # ys)"
  proof (rule is_chain_insert [of s])
    show "is_chain s ((xs @ [l]) @ ys)" "i < length (slots s)" "i \<notin> set ((xs @ [l]) @ ys)"
      "length (slots s') = length (slots s)" "slots_base s' = slots_base s" using c i nth(1) s'(2) by simp_all
    show "\<forall>j \<in> set (butlast (xs @ [l])) \<union> set (tl ys). slots s' ! j = slots s ! j"
      using same by (cases ys) auto
    show "ys \<noteq> [] \<longrightarrow> joins s' i (hd ys) \<and> link (slots s' ! hd ys) = link (slots s ! hd ys) \<and>
        inst3 (slots s' ! hd ys) = inst3 (slots s ! hd ys)"
    proof
      assume "ys \<noteq> []"
      then have y: "hd ys \<in> set ys" "hd ys < length (slots s)" "joins s l (hd ys)"
        using c by (auto simp: is_chain_def successively_append_iff successively_Cons subset_eq)
      have "0 \<le> sint (link (slots s ! l))" using joins_link [OF p y(3,2)] by blast
      then have "joins s' i (hd ys)"
        using y(3) nth(3,4) branch_placed [OF p i(1) y(2)] by (simp only: joins_def slot_addr_same [OF s'(2)] if_True)
      then show "joins s' i (hd ys) \<and> link (slots s' ! hd ys) = link (slots s ! hd ys) \<and>
        inst3 (slots s' ! hd ys) = inst3 (slots s ! hd ys)" using same y(1) by simp
    qed
    show "xs @ [l] \<noteq> [] \<longrightarrow> joins s' (last (xs @ [l])) i"
      using nth(2) branch_placed [OF p l(1) i(1)] by (simp add: joins_def slot_addr_same [OF s'(2)])
    show "ys = [] \<longrightarrow> link (slots s' ! i) = -1 \<and> inst3 (slots s' ! i) = 0xbd00"
      using nth(3,4) fin by simp
  qed
  then show "is_chain s' (xs @ l # i # ys)" by simp
  show "chain_handlers s' (xs @ l # i # ys) = chain_handlers s (xs @ [l]) @ (order, h) # chain_handlers s ys"
    using same nth by (auto simp: chain_handlers_def)
qed

text \<open>What the code does once it has found the place in a chain that starts with the slot \<open>e\<close>.\<close>

lemma add_shared_handler_result:
  fixes order :: u8
  assumes p: "placed s" and ch: "is_chain s (e # c)" "vtable s (16 + num) = add_thumb_bit (slot_addr s e)"
    and f: "free_slot_head s = of_nat i" "i < length (slots s)"
  defines "xs \<equiv> takeWhile (\<lambda>j. priority (slots s ! j) > order) (e # c)"
  shows "irq_add_shared_handler num h order s =
    Inr (set_raw_irq_handler_and_unlock num (if xs = [] then add_thumb_bit (slot_addr s i) else vtable s (16 + num))
      (s\<lparr>free_slot_head := link (slots s ! i),
         slots := if xs = [] then head_slots s i e h order else inner_slots s i (last xs) h order\<rparr>))"
proof -
  have even: "\<not> bit (slots_base s) 0" "i < 80" and e: "e < length (slots s)"
    using p f(2) ch(1) by (auto simp: placed_def is_chain_def)
  define s1 where "s1 = s\<lparr>free_slot_head := link (slots s ! i)\<rparr>"
  have s1: "slots s1 = slots s" "slots_base s1 = slots_base s" "vtable s1 = vtable s"
    "first_slot_code s1 = first_slot_code s" "slot_addr s1 = slot_addr s" "placed s1" "joins s1 = joins s"
    using p by (simp_all add: s1_def slot_addr_def placed_def joins_def fun_eq_iff)
  have shared: "is_shared_irq_raw_handler s1 (vtable s1 (16 + num))"
    using shared_addr [OF s1(6), of e] e ch(2) by (simp add: s1)
  have strip: "remove_thumb_bit (vtable s1 (16 + num)) = slot_addr s e"
    using thumb_bits(2) [OF even(1)] ch(2) by (simp add: s1)
  have at: "slot_at s1 (slot_addr s e) = Inr e" using slot_at_addr [OF s1(6), of e] e by (simp add: s1)
  have gi: "get_slot_index s1 (slot_addr s e) = of_nat e" using get_slot_index_addr [OF s1(6), of e] e by (simp add: s1)
  have "distinct (e # c)" "set (e # c) \<subseteq> {..<length (slots s)}" using ch(1) by (simp_all add: is_chain_def)
  then have "length (e # c) \<le> length (slots s)"
    using card_mono [of "{..<length (slots s)}" "set (e # c)"] distinct_card [of "e # c"] by simp
  then have pos: "chain_position (Suc (length (slots s1))) s1 order None e = Inr (if xs = [] then None else Some (last xs))"
    using chain_position_result [OF s1(6), of e c "Suc (length (slots s1))" order None] ch(1)
    by (simp add: is_chain_def s1 xs_def Let_def)
  have neg: "\<not> sint (of_nat i :: u8) < 0" using small_links(2) [OF even(2)] by simp
  show ?thesis
    using shared pos strip at gi f(1,2) neg slot_index_link [OF p f(2)]
    by (cases "xs = []") (simp_all add: irq_add_shared_handler_def s1_def [symmetric] s1 Let_def head_slots_def inner_slots_def)
qed

text \<open>
  C37: Adding a shared handler takes the first free slot and puts the handler behind exactly those
  of higher priority: afterwards the vector is the first slot of the new chain, the links and the
  branch instructions of the slots lead through it in order of priority, and no other vector is
  changed.
\<close>

theorem shared_handler_in_order:
  assumes p: "placed s" and sv: "serves s num c" and f: "free_slot_head s = of_nat i" "i < length (slots s)" "i \<notin> set c"
  shows "\<exists>s'. irq_add_shared_handler num h order s = Inr s' \<and>
    serves s' num (takeWhile (\<lambda>j. priority (slots s ! j) > order) c @ i # dropWhile (\<lambda>j. priority (slots s ! j) > order) c) \<and>
    chain_handlers s' (takeWhile (\<lambda>j. priority (slots s ! j) > order) c @ i # dropWhile (\<lambda>j. priority (slots s ! j) > order) c) =
      takeWhile (\<lambda>(q, _). q > order) (chain_handlers s c) @ (order, h) # dropWhile (\<lambda>(q, _). q > order) (chain_handlers s c) \<and>
    free_slot_head s' = link (slots s ! i) \<and> (\<forall>n. n \<noteq> 16 + num \<longrightarrow> vtable s' n = vtable s n)"
proof -
  define xs where "xs = takeWhile (\<lambda>j. priority (slots s ! j) > order) c"
  define ys where "ys = dropWhile (\<lambda>j. priority (slots s ! j) > order) c"
  have hs: "takeWhile (\<lambda>(q, _). q > order) (chain_handlers s c) = chain_handlers s xs"
    "dropWhile (\<lambda>(q, _). q > order) (chain_handlers s c) = chain_handlers s ys"
    by (simp_all add: chain_handlers_def xs_def ys_def takeWhile_map dropWhile_map comp_def)
  have c: "c = xs @ ys" by (simp add: xs_def ys_def)
  obtain e d where e: "c = e # d" using sv by (cases c) (auto simp: serves_def is_chain_def)
  have ch: "is_chain s (e # d)" "vtable s (16 + num) = add_thumb_bit (slot_addr s e)"
    using sv by (simp_all add: serves_def e)
  define s' where "s' = set_raw_irq_handler_and_unlock num
      (if xs = [] then add_thumb_bit (slot_addr s i) else vtable s (16 + num))
      (s\<lparr>free_slot_head := link (slots s ! i),
         slots := if xs = [] then head_slots s i e h order else inner_slots s i (last xs) h order\<rparr>)"
  have add: "irq_add_shared_handler num h order s = Inr s'"
    using add_shared_handler_result [OF p ch f(1,2), of h order] by (simp add: s'_def xs_def e)
  have b: "slots_base s' = slots_base s" by (simp add: s'_def set_raw_irq_handler_and_unlock_def)
  have "is_chain s' (xs @ i # ys) \<and> chain_handlers s' (xs @ i # ys) = chain_handlers s xs @ (order, h) # chain_handlers s ys"
  proof (cases xs rule: rev_cases)
    case Nil
    then have sl: "slots s' = head_slots s i e h order" by (simp add: s'_def set_raw_irq_handler_and_unlock_def)
    have y: "ys = e # d" using c e Nil by simp
    show ?thesis using head_chain [OF p ch(1) f(2) _ sl b] f(3) unfolding e y Nil by (simp add: chain_handlers_def)
  next
    case (snoc zs l)
    then have sl: "slots s' = inner_slots s i l h order" by (simp add: s'_def set_raw_irq_handler_and_unlock_def)
    have "is_chain s (zs @ l # ys)" "i \<notin> set (zs @ l # ys)" using ch(1) f(3) c e snoc by simp_all
    then show ?thesis using inner_chain [OF p _ f(2) _ sl b] snoc by simp
  qed
  moreover have "vtable s' (16 + num) = add_thumb_bit (slot_addr s' (hd (xs @ i # ys)))"
    using ch(2) c e slot_addr_same [OF b] by (cases xs) (simp_all add: s'_def set_raw_irq_handler_and_unlock_def)
  ultimately show ?thesis
    using add unfolding hs xs_def [symmetric] ys_def [symmetric] serves_def
    by (intro exI [of _ s']) (simp add: s'_def set_raw_irq_handler_and_unlock_def)
qed

text \<open>A core whose interrupt 5 has one shared handler, in slot 0; the other slots are free.\<close>

definition example_irqs :: irq_state where
  "example_irqs =
     \<lparr>unhandled_user_irq = 0x10000101, slots_base = 0x20000100, first_slot_code = 0x20000130,
      remove_tail_code = 0x2000013c,
      slots = [\<lparr>inst1 = 0xa100, inst2 = 0xe015, inst3 = 0xbd00, link = -1, priority = 0x80, handler = 0x10000201\<rparr>,
        \<lparr>inst1 = 0, inst2 = 0, inst3 = 0, link = 2, priority = 0, handler = 0\<rparr>,
        \<lparr>inst1 = 0, inst2 = 0, inst3 = 0, link = 3, priority = 0, handler = 0\<rparr>,
        \<lparr>inst1 = 0, inst2 = 0, inst3 = 0, link = -1, priority = 0, handler = 0\<rparr>],
      free_slot_head = 1, vtable = (\<lambda>_. 0x10000101)(21 := 0x20000101), nvic_enabled = 0, nvic_pending = 0,
      nvic_ipr = (\<lambda>_. 0), current_exception = 0, user_irq_claimed = [0]\<rparr>"

lemma example_irqs: "placed example_irqs" "serves example_irqs 5 [0]" "free_slot_head example_irqs = of_nat 1"
  "length (slots example_irqs) = 4"
  by (simp_all add: placed_def example_irqs_def serves_def is_chain_def add_thumb_bit_def slot_addr_def bit_0)

theorem shared_handler_in_order_witness:
  "\<exists>s'. irq_add_shared_handler 5 0x10000301 0xff example_irqs = Inr s' \<and>
    serves s' 5 (takeWhile (\<lambda>j. priority (slots example_irqs ! j) > 0xff) [0] @ 1 #
      dropWhile (\<lambda>j. priority (slots example_irqs ! j) > 0xff) [0]) \<and>
    chain_handlers s' (takeWhile (\<lambda>j. priority (slots example_irqs ! j) > 0xff) [0] @ 1 #
      dropWhile (\<lambda>j. priority (slots example_irqs ! j) > 0xff) [0]) =
      takeWhile (\<lambda>(q, _). q > 0xff) (chain_handlers example_irqs [0]) @ (0xff, 0x10000301) #
      dropWhile (\<lambda>(q, _). q > 0xff) (chain_handlers example_irqs [0]) \<and>
    free_slot_head s' = link (slots example_irqs ! 1) \<and>
    (\<forall>n. n \<noteq> 16 + 5 \<longrightarrow> vtable s' n = vtable example_irqs n)"
  by (rule shared_handler_in_order) (simp_all only: example_irqs, simp_all)

section \<open>The first handler, and priorities\<close>

text \<open>The first shared handler of an interrupt forms a chain of its own.\<close>

lemma first_shared_handler:
  assumes "placed s" "free_slot_head s = of_nat i" "i < length (slots s)"
    and "vtable s (16 + num) = unhandled_user_irq s" "\<not> is_shared_irq_raw_handler s (unhandled_user_irq s)"
  shows "\<exists>s'. irq_add_shared_handler num h order s = Inr s' \<and> serves s' num [i] \<and>
    chain_handlers s' [i] = [(order, h)] \<and> free_slot_head s' = link (slots s ! i)"
proof -
  have neg: "\<not> sint (of_nat i :: u8) < 0" using small_links(2) [of i] assms by (simp add: placed_def)
  show ?thesis
    using assms neg slot_index_link [OF assms(1,3)]
    by (simp add: irq_add_shared_handler_def Let_def is_shared_irq_raw_handler_def slots_size_def serves_def
        is_chain_def chain_handlers_def set_raw_irq_handler_and_unlock_def slot_addr_def)
qed

lemma irq_priority_read:
  "irq_get_priority num (irq_set_priority num p s) = p"
proof (rule bit_word_eqI)
  fix n assume "n < LENGTH(8)"
  then have "n + 8 * (num mod 4) < 32" "n < 8" by auto
  moreover have "(0xff :: u32) = mask 8" by (simp add: mask_eq_decr_exp)
  then have "bit (0xff :: u32) n" using \<open>n < LENGTH(8)\<close> by (simp only: bit_mask_iff) simp
  ultimately show "bit (irq_get_priority num (irq_set_priority num p s)) n = bit p n"
    by (auto simp: irq_get_priority_def irq_set_priority_def Let_def bit_simps add.commute)
qed

end
