(* ===== verification/Timer_Facts.thy ===== *)
theory Timer_Facts
  imports Timer Irq_Chains
begin

text \<open>
  The timer gives the right time: the two halves read separately are those of one moment, busy
  waiting ends when the target is reached, setting an alarm misses no target unnoticed; and the
  interrupt handler can take an alarm for due 71 minutes early.
\<close>

unbundle bit_operations_syntax

section \<open>What is read is the time\<close>

text \<open>Reading does nothing but let the time pass.\<close>

lemma pass_time_simps [simp]:
  "ticks (pass_time t) = Suc (ticks t)" "clock (pass_time t) = clock t"
  "now (pass_time t) = clock t (Suc (ticks t))"
  "timer_callbacks_pending (pass_time t) = timer_callbacks_pending t"
  "alarm (pass_time t) = alarm t" "target_hi (pass_time t) = target_hi t"
  "alarm_callbacks (pass_time t) = alarm_callbacks t" "irqs (pass_time t) = irqs t"
  by (simp_all add: pass_time_def now_def)

definition time_passes :: "timer_state \<Rightarrow> timer_state \<Rightarrow> bool" where
  "time_passes t t' \<longleftrightarrow> (\<exists>n. t' = (pass_time ^^ n) t)"

lemma time_passes_refl [simp]: "time_passes t t"
  unfolding time_passes_def by (rule exI [of _ 0]) simp

lemma time_passes_trans: "time_passes t u \<Longrightarrow> time_passes u v \<Longrightarrow> time_passes t v"
  unfolding time_passes_def by (metis comp_apply funpow_add)

lemma time_passes_pass: "time_passes t (pass_time t)"
  unfolding time_passes_def by (rule exI [of _ 1]) simp

lemma time_passes_induct:
  assumes "time_passes t t'" "P t" "\<And>u. P u \<Longrightarrow> P (pass_time u)"
  shows "P t'"
proof -
  obtain n where "t' = (pass_time ^^ n) t" using assms(1) by (auto simp: time_passes_def)
  moreover have "P ((pass_time ^^ n) t)" by (induction n) (simp_all add: assms)
  ultimately show ?thesis by simp
qed

lemma time_passes_clock: "time_passes t t' \<Longrightarrow> clock t' = clock t \<and> ticks t \<le> ticks t'"
  by (rule time_passes_induct) auto

lemma time_passes_settings:
  "time_passes t t' \<Longrightarrow> timer_callbacks_pending t' = timer_callbacks_pending t \<and> alarm t' = alarm t \<and>
    target_hi t' = target_hi t \<and> alarm_callbacks t' = alarm_callbacks t \<and> irqs t' = irqs t"
  by (rule time_passes_induct) auto

lemma halves: "push_bit 32 (ucast (hi_word v)) OR ucast (lo_word v) = v"
proof (rule bit_word_eqI)
  fix n assume "n < LENGTH(64)"
  then show "bit (push_bit 32 (ucast (hi_word v)) OR ucast (lo_word v) :: u64) n = bit v n"
    by (cases "n < 32") (auto simp: bit_simps hi_word_def lo_word_def)
qed

lemma high_nat: "unat (hi_word v) = unat v div 2 ^ 32"
proof -
  have "unat v < 2 ^ 64" using unsigned_less [of v, where 'a = nat] by simp
  then have "unat v div 2 ^ 32 < 2 ^ 32" by (simp add: div_less_iff_less_mult)
  then show ?thesis by (simp add: hi_word_def unsigned_ucast_eq drop_bit_eq_div unat_div take_bit_nat_eq_self)
qed

lemma low_nat: "unat (lo_word v) = unat v mod 2 ^ 32"
  by (simp add: lo_word_def unsigned_ucast_eq take_bit_eq_mod)

lemma high_eq: "hi_word u = hi_word v \<longleftrightarrow> unat u div 2 ^ 32 = unat v div 2 ^ 32"
  by (simp add: word_unat_eq_iff high_nat)

text \<open>The clock never runs backwards.\<close>

definition steady :: "(nat \<Rightarrow> u64) \<Rightarrow> bool" where
  "steady c \<longleftrightarrow> (\<forall>i j. i \<le> j \<longrightarrow> c i \<le> c j)"

lemma steady_le: "steady c \<Longrightarrow> i \<le> j \<Longrightarrow> unat (c i) \<le> unat (c j)"
  by (simp add: steady_def word_le_nat_alt)

lemma time_loop_Suc:
  "time_loop (Suc fuel) hi t =
     (if hi = hi_word (clock t (Suc (Suc (ticks t))))
      then Inr (push_bit 32 (ucast hi) OR ucast (lo_word (clock t (Suc (ticks t)))), pass_time (pass_time t))
      else time_loop fuel (hi_word (clock t (Suc (Suc (ticks t))))) (pass_time (pass_time t)))"
  by (simp add: timerawl_def timerawh_def Let_def)

lemma time_us_64_loop:
  "time_us_64 fuel t = time_loop fuel (hi_word (clock t (Suc (ticks t)))) (pass_time t)"
  by (simp add: time_us_64_def timerawh_def Let_def)

declare time_loop.simps(2) [simp del]

lemma time_loop_exact:
  "steady (clock t) \<Longrightarrow> hi = hi_word (clock t (ticks t)) \<Longrightarrow>
   time_loop fuel hi t = Inr (v, t') \<Longrightarrow>
   time_passes t t' \<and> (\<exists>k. ticks t < k \<and> k < ticks t' \<and> v = clock t k)"
proof (induction fuel arbitrary: hi t)
  case (Suc fuel)
  let ?k = "ticks t" and ?t2 = "pass_time (pass_time t)"
  have p: "time_passes t ?t2" using time_passes_pass time_passes_trans by blast
  show ?case
  proof (cases "hi = hi_word (clock t (Suc (Suc ?k)))")
    case True
    then have v: "v = push_bit 32 (ucast hi) OR ucast (lo_word (clock t (Suc ?k)))" "t' = ?t2"
      using Suc.prems(3) unfolding time_loop_Suc if_P [OF True] by (simp_all only: sum.inject prod.inject)
    have "unat (clock t ?k) div 2 ^ 32 \<le> unat (clock t (Suc ?k)) div 2 ^ 32"
      "unat (clock t (Suc ?k)) div 2 ^ 32 \<le> unat (clock t (Suc (Suc ?k))) div 2 ^ 32"
      by (intro div_le_mono steady_le [OF Suc.prems(1)]; simp)+
    moreover have "unat (clock t ?k) div 2 ^ 32 = unat (clock t (Suc (Suc ?k))) div 2 ^ 32"
      using True unfolding Suc.prems(2) high_eq .
    ultimately have "unat (clock t ?k) div 2 ^ 32 = unat (clock t (Suc ?k)) div 2 ^ 32" by linarith
    then have "hi = hi_word (clock t (Suc ?k))" by (simp only: Suc.prems(2) high_eq)
    then have "v = clock t (Suc ?k)" using v(1) by (simp only: halves)
    then show ?thesis using v(2) p by (intro conjI exI [of _ "Suc ?k"]) simp_all
  next
    case False
    then have "time_loop fuel (hi_word (clock ?t2 (ticks ?t2))) ?t2 = Inr (v, t')"
      using Suc.prems(3) unfolding time_loop_Suc if_not_P [OF False] by simp
    from Suc.IH [OF _ refl this] Suc.prems(1)
    obtain k where "time_passes ?t2 t'" "ticks ?t2 < k" "k < ticks t'" "v = clock t k" by auto
    then show ?thesis using time_passes_trans [OF p] by (intro conjI exI [of _ k]) simp_all
  qed
qed simp

lemma time_us_64_exact:
  assumes "steady (clock t)" "time_us_64 fuel t = Inr (v, t')"
  shows "time_passes t t' \<and> (\<exists>k. ticks t < k \<and> k < ticks t' \<and> v = clock t k)"
proof -
  let ?t1 = "pass_time t"
  have "time_loop fuel (hi_word (clock ?t1 (ticks ?t1))) ?t1 = Inr (v, t')"
    using assms(2) by (simp add: time_us_64_loop)
  from time_loop_exact [OF _ refl this] assms(1)
  obtain k where "time_passes ?t1 t'" "ticks ?t1 < k" "k < ticks t'" "v = clock t k" by auto
  then show ?thesis using time_passes_trans [OF time_passes_pass] by (intro conjI exI [of _ k]) simp_all
qed

text \<open>The loop repeats only when the high half changes, which it does once in 71 minutes.\<close>

lemma time_us_64_returns:
  assumes s: "steady (clock t)" and "unat (clock t (ticks t + 5)) - unat (clock t (ticks t + 1)) < 2 ^ 32"
    and "2 \<le> fuel"
  shows "\<exists>v t'. time_us_64 fuel t = Inr (v, t')"
proof -
  obtain f where f: "fuel = Suc (Suc f)" using assms(3) that [of "fuel - 2"] by simp
  let ?c = "\<lambda>k. unat (clock t (ticks t + k))"
  let ?h = "\<lambda>k. hi_word (clock t (ticks t + k))"
  have m: "?c 1 \<le> ?c 3" "?c 3 \<le> ?c 5" using steady_le [OF s] by simp_all
  have "?c 5 div 2 ^ 32 \<le> ?c 1 div 2 ^ 32 + 1"
  proof -
    have "?c 5 \<le> ?c 1 + 2 ^ 32" using assms(2) by linarith
    then have "?c 5 div 2 ^ 32 \<le> (?c 1 + 2 ^ 32) div 2 ^ 32" by (rule div_le_mono)
    then show ?thesis by simp
  qed
  then have "?h 1 = ?h 3 \<or> ?h 3 = ?h 5"
    using div_le_mono [OF m(1), of "2 ^ 32"] div_le_mono [OF m(2), of "2 ^ 32"] unfolding high_eq by linarith
  then show ?thesis
  proof
    have e: "ticks t + 1 = Suc (ticks t)" "ticks t + 3 = Suc (Suc (Suc (ticks t)))"
      "ticks t + 5 = Suc (Suc (Suc (Suc (Suc (ticks t)))))" by simp_all
    assume "?h 1 = ?h 3"
    then show ?thesis unfolding e time_us_64_loop f time_loop_Suc pass_time_simps by (simp only: if_True refl) simp
  next
    have e: "ticks t + 1 = Suc (ticks t)" "ticks t + 3 = Suc (Suc (Suc (ticks t)))"
      "ticks t + 5 = Suc (Suc (Suc (Suc (Suc (ticks t)))))" by simp_all
    assume "?h 3 = ?h 5"
    then show ?thesis unfolding e time_us_64_loop f time_loop_Suc pass_time_simps
      by (simp only: if_True refl) (simp split: if_split)
  qed
qed


text \<open>The clock is steady, and the high half does not change twice within five accesses.\<close>

definition ticking :: "(nat \<Rightarrow> u64) \<Rightarrow> bool" where
  "ticking c \<longleftrightarrow> steady c \<and> (\<forall>k. unat (c (k + 4)) - unat (c k) < 2 ^ 32)"

lemma read_moment:
  assumes "ticking (clock t)" "2 \<le> fuel"
  shows "\<exists>v t' k. time_us_64 fuel t = Inr (v, t') \<and> time_passes t t' \<and> ticks t < k \<and> k < ticks t' \<and>
    v = clock t k"
proof -
  have s: "steady (clock t)" using assms(1) by (simp add: ticking_def)
  have "unat (clock t (ticks t + 5)) - unat (clock t (ticks t + 1)) < 2 ^ 32"
    using assms(1) spec [of "\<lambda>k. unat (clock t (k + 4)) - unat (clock t k) < 2 ^ 32" "ticks t + 1"]
    by (simp add: ticking_def add.commute)
  from time_us_64_returns [OF s this assms(2)] obtain v t' where r: "time_us_64 fuel t = Inr (v, t')" by blast
  from time_us_64_exact [OF s r] r show ?thesis by blast
qed

text \<open>
  C18: Reading the 64-bit time returns, and the value is exactly the counter at one moment during
  the call, although its two halves are read at different moments; reading changes nothing.
\<close>

theorem time_not_torn:
  assumes "ticking (clock t)" "2 \<le> fuel"
  shows "\<exists>v t' k. time_us_64 fuel t = Inr (v, t') \<and> time_passes t t' \<and> ticks t < k \<and> k < ticks t' \<and>
    v = clock t k"
  by (rule read_moment [OF assms])

section \<open>Waiting\<close>

lemma le_div_mod:
  fixes a b m :: nat
  shows "a \<le> b \<longleftrightarrow> a div m < b div m \<or> a div m = b div m \<and> a mod m \<le> b mod m"
proof
  assume "a \<le> b"
  then have "a div m \<le> b div m" by (rule div_le_mono)
  moreover have "a mod m \<le> b mod m" if "a div m = b div m"
    using div_mult_mod_eq [of a m] div_mult_mod_eq [of b m] \<open>a \<le> b\<close> that by (metis add_le_cancel_left)
  ultimately show "a div m < b div m \<or> a div m = b div m \<and> a mod m \<le> b mod m" by linarith
next
  assume "a div m < b div m \<or> a div m = b div m \<and> a mod m \<le> b mod m"
  then show "a \<le> b"
  proof
    assume "a div m < b div m"
    then show "a \<le> b" using div_le_mono [of b a m] by linarith
  next
    assume "a div m = b div m \<and> a mod m \<le> b mod m"
    then show "a \<le> b" by (metis add_le_cancel_left div_mult_mod_eq)
  qed
qed

lemma le_halves: "u \<le> v \<longleftrightarrow> hi_word u < hi_word v \<or> hi_word u = hi_word v \<and> lo_word u \<le> lo_word v"
  unfolding word_le_nat_alt word_less_nat_alt word_unat_eq_iff high_nat low_nat
  by (rule le_div_mod)

lemma hi_mono: "steady c \<Longrightarrow> i \<le> j \<Longrightarrow> hi_word (c i) \<le> hi_word (c j)"
  unfolding word_le_nat_alt high_nat by (intro div_le_mono steady_le)

lemma wait_hi_Suc:
  "wait_hi (Suc fuel) hi h t =
     (if hi < h then wait_hi fuel (hi_word (clock t (Suc (ticks t)))) h (pass_time t) else Inr (hi, t))"
  by (simp add: timerawh_def Let_def)

lemma wait_lo_Suc:
  "wait_lo (Suc fuel) hi target t =
     (if hi = hi_word target then
        if lo_word (clock t (Suc (ticks t))) < lo_word target
        then wait_lo fuel (hi_word (clock t (Suc (Suc (ticks t))))) target (pass_time (pass_time t))
        else Inr (pass_time t)
      else Inr t)"
  by (simp add: timerawl_def timerawh_def Let_def)

declare wait_hi.simps(2) [simp del] wait_lo.simps(2) [simp del]

lemma hi_target_le: "target \<le> c K \<Longrightarrow> hi_word target \<le> hi_word (c K)"
  using le_halves [of target "c K"] by auto

lemma wait_hi_returns:
  assumes K: "target \<le> c K" and s: "steady c"
  shows "clock t = c \<Longrightarrow> hi = hi_word (c (ticks t)) \<Longrightarrow> K < ticks t + fuel \<Longrightarrow> 0 < fuel \<Longrightarrow>
    \<exists>hi1 t1. wait_hi fuel hi (hi_word target) t = Inr (hi1, t1) \<and> time_passes t t1 \<and>
      hi1 = hi_word (c (ticks t1)) \<and> hi_word target \<le> hi1"
proof (induction fuel arbitrary: hi t)
  case (Suc fuel)
  show ?case
  proof (cases "hi < hi_word target")
    case True
    have "\<not> K \<le> ticks t"
      using True hi_mono [OF s, of K "ticks t"] hi_target_le [where c = c and target = target, OF K] Suc.prems(2) by auto
    then have "\<exists>hi1 t1. wait_hi fuel (hi_word (c (Suc (ticks t)))) (hi_word target) (pass_time t) = Inr (hi1, t1) \<and>
        time_passes (pass_time t) t1 \<and> hi1 = hi_word (c (ticks t1)) \<and> hi_word target \<le> hi1"
      using Suc.prems by (intro Suc.IH) simp_all
    then show ?thesis using True time_passes_trans [OF time_passes_pass] Suc.prems(1) by (auto simp: wait_hi_Suc)
  next
    case False
    then show ?thesis using Suc.prems by (simp add: wait_hi_Suc)
  qed
qed simp

lemma wait_lo_returns:
  assumes K: "target \<le> c K" and s: "steady c"
  shows "clock t = c \<Longrightarrow> hi = hi_word (c (ticks t)) \<Longrightarrow> hi_word target \<le> hi \<Longrightarrow>
    hi \<noteq> hi_word target \<and> 1 \<le> fuel \<or> 2 \<le> fuel \<and> K + 3 \<le> ticks t + fuel \<Longrightarrow>
    \<exists>t1. wait_lo fuel hi target t = Inr t1 \<and> time_passes t t1 \<and> target \<le> c (ticks t1)"
proof (induction fuel arbitrary: hi t)
  case (Suc fuel)
  let ?k = "ticks t"
  show ?case
  proof (cases "hi = hi_word target")
    case False
    then have "target \<le> c ?k" using le_halves [of target "c ?k"] Suc.prems(2,3) by auto
    then show ?thesis using False by (simp add: wait_lo_Suc)
  next
    case hi: True
    have up: "hi_word target \<le> hi_word (c (Suc ?k))" "hi_word (c (Suc ?k)) \<le> hi_word (c (Suc (Suc ?k)))"
      using hi_mono [OF s, of ?k "Suc ?k"] hi_mono [OF s, of "Suc ?k" "Suc (Suc ?k)"] Suc.prems(2) hi by simp_all
    show ?thesis
    proof (cases "lo_word (c (Suc ?k)) < lo_word target")
      case False
      then have "target \<le> c (Suc ?k)" using le_halves [of target "c (Suc ?k)"] up(1) by auto
      then show ?thesis using hi False Suc.prems(1) time_passes_pass by (simp add: wait_lo_Suc)
    next
      case lo: True
      have f: "2 \<le> Suc fuel" "K + 3 \<le> ?k + Suc fuel" using Suc.prems(4) hi by simp_all
      have "hi_word (c (Suc (Suc ?k))) \<noteq> hi_word target" if "fuel = 1"
      proof -
        have "c K \<le> c (Suc ?k)" using s f that by (simp add: steady_def)
        then have "target \<le> c (Suc ?k)" using K by (rule order_trans [rotated])
        then have "hi_word target < hi_word (c (Suc ?k))" using le_halves [of target "c (Suc ?k)"] lo by auto
        then show ?thesis using up(2) by auto
      qed
      then have "\<exists>t1. wait_lo fuel (hi_word (c (Suc (Suc ?k)))) target (pass_time (pass_time t)) = Inr t1 \<and>
          time_passes (pass_time (pass_time t)) t1 \<and> target \<le> c (ticks t1)"
        using Suc.prems f order_trans [OF up] by (intro Suc.IH) (auto simp: le_Suc_eq)
      then show ?thesis
        using hi lo Suc.prems(1) time_passes_trans [OF time_passes_trans [OF time_passes_pass time_passes_pass]]
        by (auto simp: wait_lo_Suc)
    qed
  qed
qed simp

text \<open>
  C19: If the clock ever reaches the target, at the K-th access say, busy waiting for it returns
  (with fuel for K more rounds than the accesses made so far), and at the last access before it
  returns the time has reached the target; nothing but the time and alarms that fire has changed.
\<close>

theorem busy_wait_until_reaches:
  assumes "steady (clock t)" "target \<le> clock t K" "K + 3 \<le> ticks t + fuel" "2 \<le> fuel"
  shows "\<exists>t'. busy_wait_until fuel target t = Inr t' \<and> time_passes t t' \<and> target \<le> clock t (ticks t')"
proof -
  let ?t = "pass_time t"
  obtain hi1 t1 where t1: "wait_hi fuel (hi_word (clock t (ticks ?t))) (hi_word target) ?t = Inr (hi1, t1)"
    "time_passes ?t t1" "hi1 = hi_word (clock t (ticks t1))" "hi_word target \<le> hi1"
    using wait_hi_returns [OF assms(2,1), of ?t _ fuel] assms(3,4) by auto
  have c: "clock t1 = clock t" "ticks t \<le> ticks t1" using time_passes_clock [OF t1(2)] by simp_all
  obtain t2 where t2: "wait_lo fuel hi1 target t1 = Inr t2" "time_passes t1 t2" "target \<le> clock t (ticks t2)"
    using wait_lo_returns [OF assms(2,1) c(1) t1(3,4), of fuel] assms(3,4) c(2) by auto
  have "busy_wait_until fuel target t = Inr t2"
    using t1(1) t2(1) by (simp add: busy_wait_until_def timerawh_def Let_def)
  then show ?thesis
    using t2 time_passes_trans [OF time_passes_trans [OF time_passes_pass t1(2)] t2(2)] by blast
qed


section \<open>Setting an alarm\<close>

text \<open>An armed alarm stays armed until it fires, and then its interrupt is pending.\<close>

definition live :: "nat \<Rightarrow> timer_state \<Rightarrow> bool" where
  "live n t \<longleftrightarrow> bit (armed t) n \<or> bit (intr t) n"

lemma live_pass: "live n t \<Longrightarrow> live n (pass_time t)"
  by (auto simp: live_def pass_time_def bit_simps dest: bit_imp_le_length)

lemma live_passes: "time_passes t t' \<Longrightarrow> live n t \<Longrightarrow> live n t'"
  by (rule time_passes_induct) (auto intro: live_pass)

lemma and_alarm_bit: "(w :: u32) AND push_bit n 1 = 0 \<longleftrightarrow> \<not> bit w n"
  by (simp add: push_bit_eq_mult and_exp_eq_0_iff_not_bit)

lemma and_pending_bit: "n < 8 \<Longrightarrow> (w :: u8) AND pending_bit n \<noteq> 0 \<longleftrightarrow> bit w n"
proof -
  assume "n < 8"
  then have "pending_bit n = 2 ^ n" by (intro bit_word_eqI) (auto simp: pending_bit_def bit_simps)
  then show ?thesis by (simp add: and_exp_eq_0_iff_not_bit)
qed

lemma bit_pending_bit: "n < 8 \<Longrightarrow> bit (pending_bit n) k \<longleftrightarrow> k = n"
  by (auto simp: pending_bit_def bit_simps)

lemma set_target_result:
  assumes "steady (clock t)" "n < NUM_TIMERS" "hardware_alarm_set_target fuel n target t = Inr (missed, t')"
  shows "if missed
    then (\<exists>k. ticks t < k \<and> k < ticks t' \<and> target \<le> clock t k) \<and>
      timer_callbacks_pending t' = timer_callbacks_pending t
    else bit (timer_callbacks_pending t') n \<and> alarm t' n = lo_word target \<and>
      target_hi t' n = hi_word target \<and> live n t'"
proof -
  obtain v t1 where t1: "time_us_64 fuel t = Inr (v, t1)"
    using assms(3) by (auto simp: hardware_alarm_set_target_def rbind_eq_Inr_iff)
  note e1 = time_us_64_exact [OF assms(1) t1]
  obtain k where k: "ticks t < k" "k < ticks t1" "v = clock t k" using e1 by blast
  have c1: "clock t1 = clock t" "ticks t \<le> ticks t1" "timer_callbacks_pending t1 = timer_callbacks_pending t"
    using time_passes_clock time_passes_settings e1 by auto
  show ?thesis
  proof (cases "target \<le> v")
    case True
    then have "missed \<and> t' = t1" using assms(3) t1 by (auto simp: hardware_alarm_set_target_def)
    then show ?thesis using True k c1 by auto
  next
    case False
    define t4 where "t4 = write_alarm n (lo_word target)
      (write_intr (push_bit n 1) (t1\<lparr>timer_callbacks_pending := timer_callbacks_pending t1 OR pending_bit n\<rparr>))"
    define t5 where "t5 = t4\<lparr>target_hi := (target_hi t4)(n := hi_word target)\<rparr>"
    let ?t6 = "pass_time t5"
    have n: "n < 8" "n < 32" using assms(2) by (simp_all add: NUM_TIMERS_def)
    have f5: "timer_callbacks_pending t5 = timer_callbacks_pending t1 OR pending_bit n" "alarm t5 n = lo_word target"
      "target_hi t5 n = hi_word target" "clock t5 = clock t" "ticks t1 \<le> ticks t5" "bit (armed t5) n"
      using n c1 by (simp_all add: t5_def t4_def write_alarm_def write_intr_def Let_def bit_simps)
    have set: "bit (timer_callbacks_pending t5) n" using n by (simp add: f5(1) bit_or_iff bit_pending_bit)
    have l6: "live n ?t6" using f5(6) by (intro live_pass) (simp add: live_def)
    have run: "hardware_alarm_set_target fuel n target t =
      (if armed ?t6 AND push_bit n 1 = 0 then Inr (False, ?t6)
       else rbind (time_us_64 fuel ?t6) (\<lambda>(now2, t7).
         if now2 \<ge> target then
           if timer_callbacks_pending t7 \<noteq> timer_callbacks_pending t1 then
             let t8 = write_armed (push_bit n 1) t7; t9 = write_intr (push_bit n 1) t8
             in Inr (True, t9\<lparr>irqs := irq_clear (harware_alarm_irq_number n) (irqs t9),
                  timer_callbacks_pending := timer_callbacks_pending t1\<rparr>)
           else Inr (True, t7)
         else Inr (False, t7)))"
      using t1 False by (simp add: hardware_alarm_set_target_def Let_def read_armed_def t5_def t4_def)
    show ?thesis
    proof (cases "armed ?t6 AND push_bit n 1 = 0")
      case True
      then have "\<not> missed \<and> t' = ?t6" using assms(3) unfolding run by simp
      then show ?thesis using set f5 l6 by simp
    next
      case a: False
      obtain v2 t7 where t7: "time_us_64 fuel ?t6 = Inr (v2, t7)"
        using assms(3) unfolding run if_not_P [OF a] by (auto simp: rbind_eq_Inr_iff)
      have e7: "time_passes ?t6 t7" "\<exists>k. ticks ?t6 < k \<and> k < ticks t7 \<and> v2 = clock t k"
        using time_us_64_exact [OF _ t7] assms(1) f5(4) by simp_all
      have c7: "timer_callbacks_pending t7 = timer_callbacks_pending t5" "alarm t7 = alarm t5"
        "target_hi t7 = target_hi t5" "live n t7"
        using time_passes_settings [OF e7(1)] live_passes [OF e7(1) l6] by simp_all
      show ?thesis
      proof (cases "target \<le> v2")
        case True
        then have "missed \<and> timer_callbacks_pending t' = timer_callbacks_pending t1 \<and> ticks t7 \<le> ticks t'"
          using assms(3) unfolding run if_not_P [OF a]
          by (auto simp: t7 Let_def write_armed_def write_intr_def split: if_splits)
        moreover obtain k where "ticks ?t6 < k" "k < ticks t7" "v2 = clock t k" using e7(2) by blast
        ultimately show ?thesis using True c1 f5(5) by (auto intro!: exI [of _ k])
      next
        case False
        then have "\<not> missed \<and> t' = t7" using assms(3) unfolding run if_not_P [OF a] by (simp add: t7)
        then show ?thesis using c7 set f5 by simp
      qed
    qed
  qed
qed


lemma read_time:
  assumes "ticking (clock t)" "2 \<le> fuel"
  obtains v t' where "time_us_64 fuel t = Inr (v, t')" "clock t' = clock t"
  using read_moment [OF assms] time_passes_clock by blast

lemma set_target_returns:
  assumes "ticking (clock t)" "2 \<le> fuel"
  shows "\<exists>missed t'. hardware_alarm_set_target fuel n target t = Inr (missed, t')"
proof -
  obtain v t1 where t1: "time_us_64 fuel t = Inr (v, t1)" "clock t1 = clock t" by (rule read_time [OF assms])
  define t6 where "t6 = pass_time (let t4 = write_alarm n (lo_word target)
      (write_intr (push_bit n 1) (t1\<lparr>timer_callbacks_pending := timer_callbacks_pending t1 OR pending_bit n\<rparr>))
    in t4\<lparr>target_hi := (target_hi t4)(n := hi_word target)\<rparr>)"
  have "ticking (clock t6)" using assms(1) t1(2) by (simp add: t6_def write_alarm_def write_intr_def Let_def)
  then obtain v2 t7 where "time_us_64 fuel t6 = Inr (v2, t7)" using assms(2) by (rule read_time)
  then show ?thesis
    using t1(1) by (simp add: hardware_alarm_set_target_def Let_def read_armed_def t6_def ex_bool_eq split: if_split)
qed


section \<open>The interrupt handler\<close>

lemma irq_handler_result:
  "hardware_alarm_irq_handler t =
     (let n = current_exception (irqs t) - 16 - TIMER_IRQ_0; t1 = write_intr (push_bit n 1) t; t2 = pass_time t1
      in if timer_callbacks_pending t AND pending_bit n = 0 then (t1, None)
         else if hi_word (clock t (ticks t + 2)) \<ge> target_hi t n
         then (t2\<lparr>timer_callbacks_pending := timer_callbacks_pending t AND NOT (pending_bit n)\<rparr>,
               map_option (\<lambda>c. (c, n)) (alarm_callbacks t n))
         else (write_alarm n (alarm t n) (pass_time t2), None))"
  by (simp add: hardware_alarm_irq_handler_def timerawh_def Let_def write_intr_def)

text \<open>A timer whose alarm 0 has a callback and waits for a target.\<close>

definition waiting_timer :: "(nat \<Rightarrow> u64) \<Rightarrow> u64 \<Rightarrow> timer_state" where
  "waiting_timer c target =
     \<lparr>clock = c, ticks = 0, alarm = (\<lambda>_. lo_word target), armed = 1, intr = 0, inte = 1,
      alarm_callbacks = (\<lambda>_. Some 7), target_hi = (\<lambda>_. hi_word target), timer_callbacks_pending = 1,
      alarm_claims = [1], irqs = example_irqs\<lparr>current_exception := 16\<rparr>\<rparr>"

definition steps_clock :: "nat \<Rightarrow> u64" where
  "steps_clock k = (if k = 0 then 0xffffffef else if k = 1 then 0xfffffff1 else 0x100000005)"

lemma steps_clock_steady: "steady steps_clock"
  by (simp add: steady_def steps_clock_def)

text \<open>
  The interrupt handler compares only the high word of the time with the target's: an alarm
  that fires because the low words agree shortly before the high word changes is taken for due
  when the handler reads the next high word, and its callback is called although the target is
  still almost 2^32 microseconds (71 minutes) away.
\<close>

lemma alarm_called_early:
  "\<exists>t target t'. steady (clock t) \<and> live 0 t \<and> alarm t 0 = lo_word target \<and> target_hi t 0 = hi_word target \<and>
     hardware_alarm_irq_handler t = (t', Some (7, 0)) \<and> now t' < target \<and> target - now t' = 0xffffffeb"
proof -
  let ?target = "0x1fffffff0 :: u64"
  let ?t = "waiting_timer steps_clock ?target"
  have "hardware_alarm_irq_handler ?t =
      (pass_time (write_intr 1 ?t)\<lparr>timer_callbacks_pending := 0\<rparr>, Some (7, 0))"
    by (simp add: irq_handler_result waiting_timer_def steps_clock_def TIMER_IRQ_0_def example_irqs_def
        pending_bit_def hi_word_def Let_def)
  moreover have "now (pass_time (write_intr 1 ?t)\<lparr>timer_callbacks_pending := 0\<rparr>) = 0x100000005"
    by (simp add: now_def pass_time_def write_intr_def waiting_timer_def steps_clock_def Let_def)
  ultimately show ?thesis
    using steps_clock_steady
    by (intro exI [of _ ?t] exI [of _ ?target] exI) (auto simp: waiting_timer_def live_def)
qed

section \<open>Witnesses\<close>

definition slow_clock :: "nat \<Rightarrow> u64" where
  "slow_clock k = of_nat (min k 100)"

lemma slow_clock_nat: "unat (slow_clock k) = min k 100"
  by (simp add: slow_clock_def unsigned_of_nat take_bit_nat_eq_self)

lemma slow_clock_steady: "steady slow_clock"
  by (auto simp: steady_def word_le_nat_alt slow_clock_nat min_def)

theorem busy_wait_until_reaches_witness:
  "\<exists>t'. busy_wait_until 50 20 (waiting_timer slow_clock 0) = Inr t' \<and>
     time_passes (waiting_timer slow_clock 0) t' \<and> 20 \<le> clock (waiting_timer slow_clock 0) (ticks t')"
proof (rule busy_wait_until_reaches)
  show "steady (clock (waiting_timer slow_clock 0))" by (simp add: waiting_timer_def slow_clock_steady)
  show "20 \<le> clock (waiting_timer slow_clock 0) 20" by (simp add: waiting_timer_def word_le_nat_alt slow_clock_nat)
qed (simp_all add: waiting_timer_def)


lemma slow_clock_ticking: "ticking slow_clock"
  by (auto simp: ticking_def slow_clock_steady slow_clock_nat min_def)

theorem time_not_torn_witness:
  "\<exists>v t' k. time_us_64 2 (waiting_timer slow_clock 0) = Inr (v, t') \<and>
     time_passes (waiting_timer slow_clock 0) t' \<and> ticks (waiting_timer slow_clock 0) < k \<and> k < ticks t' \<and>
     v = clock (waiting_timer slow_clock 0) k"
  by (rule time_not_torn) (simp_all add: waiting_timer_def slow_clock_ticking)


end
