(* ===== verification/Alarm_Facts.thy ===== *)
theory Alarm_Facts
  imports Alarms Pheap_Facts Timer_Facts
begin

text \<open>
  Alarm pools keep their alarms in the order of their targets: adding an alarm schedules it and
  sets the hardware alarm if it is the earliest, and the interrupt takes the earliest one that is
  due. A missed alarm that repeats can be called while it is scheduled.
\<close>

section \<open>Timestamps\<close>

lemma delayed_by_us_nat: "unat (delayed_by_us t us) = min (unat t + unat us) (2 ^ 64 - 1)"
proof (cases "unat t + unat us < 2 ^ 64")
  case True
  then have "unat (t + us) = unat t + unat us" by (simp add: unat_word_ariths)
  then show ?thesis using True by (simp add: delayed_by_us_def Let_def word_less_nat_alt)
next
  case False
  have "unat t < 2 ^ 64" "unat us < 2 ^ 64"
    using unsigned_less [of t, where 'a = nat] unsigned_less [of us, where 'a = nat] by simp_all
  then have "unat (t + us) = unat t + unat us - 2 ^ 64"
    using False by (simp add: unat_word_ariths mod_if)
  then have "t + us < t" using False \<open>unat us < 2 ^ 64\<close> by (simp add: word_less_nat_alt)
  moreover have "unat (-1 :: u64) = 2 ^ 64 - 1" by (simp add: unsigned_minus_1_eq_mask mask_eq_exp_minus_1)
  ultimately show ?thesis using False by (simp add: delayed_by_us_def Let_def)
qed

section \<open>Pools\<close>

interpretation targets: weak_order "timer_pool_entry_comparator p" for p
  by unfold_locales (auto simp: timer_pool_entry_comparator_def)

definition pool_ok :: "alarm_pool \<Rightarrow> nat tree \<Rightarrow> nat list \<Rightarrow> bool" where
  "pool_ok p t fs \<longleftrightarrow> ph_inv (timer_pool_entry_comparator p) (pool_heap p) t fs"

lemma comparator_heap [simp]:
  "timer_pool_entry_comparator (p\<lparr>pool_heap := h\<rparr>) = timer_pool_entry_comparator p"
  "timer_pool_entry_comparator (p\<lparr>pool_heap := h, entries := es\<rparr>) = timer_pool_entry_comparator (p\<lparr>entries := es\<rparr>)"
  by (simp_all add: timer_pool_entry_comparator_def fun_eq_iff)

lemma ph_inv_cong:
  "ph_inv cmp h t fs \<Longrightarrow> \<forall>a \<in> set_tree t. \<forall>b \<in> set_tree t. cmp' a b = cmp a b \<Longrightarrow> ph_inv cmp' h t fs"
  using heap_ordered_cong [of cmp t cmp'] by (simp add: ph_inv_def)

text \<open>Entries of other nodes do not matter to the order.\<close>

lemma pool_entry_other:
  assumes "ph_inv (timer_pool_entry_comparator p) h t fs" "i \<notin> set_tree t" "entries p1 = (entries p)(i := e)"
  shows "ph_inv (timer_pool_entry_comparator p1) h t fs"
  by (rule ph_inv_cong [OF assms(1)])
    (use assms(2,3) in \<open>auto simp: timer_pool_entry_comparator_def\<close>)

text \<open>Allocating a node and inserting it, as the code does under its lock.\<close>

lemma insert_alarm:
  fixes e :: alarm_pool_entry
  assumes "pool_ok p t (i # fs)"
  defines "p1 \<equiv> p\<lparr>entries := (entries p)(i := e)\<rparr>"
  shows "\<exists>h1 h2. ph_new_node (pool_heap p) = Inr (h1, i) \<and> i \<noteq> 0 \<and> is_node h1 i \<and> i \<notin> set_tree t \<and>
    ph_insert_node (timer_pool_entry_comparator p1) h1 i = Inr (h2, root_id h2) \<and> is_node h2 = is_node h1 \<and>
    ph_inv (timer_pool_entry_comparator p1) h2 (pmerge (timer_pool_entry_comparator p1) t (Node Leaf i Leaf)) fs"
proof -
  have i: "is_node (pool_heap p) i" "i \<notin> set_tree t" "i \<notin> set fs"
    using assms(1) by (auto simp: pool_ok_def ph_inv_def)
  obtain h1 where h1: "ph_new_node (pool_heap p) = Inr (h1, i)" "ph_inv (timer_pool_entry_comparator p) h1 t fs"
    "is_node h1 = is_node (pool_heap p)"
    using ph_new_node_inv [OF assms(1) [unfolded pool_ok_def]] by blast
  have "ph_inv (timer_pool_entry_comparator p1) h1 t fs"
    by (rule pool_entry_other [OF h1(2) i(2)]) (simp add: p1_def)
  moreover have n1: "is_node h1 i" using i(1) h1(3) by simp
  ultimately obtain h2 where "ph_insert_node (timer_pool_entry_comparator p1) h1 i = Inr (h2, root_id h2)"
    "is_node h2 = is_node h1"
    "ph_inv (timer_pool_entry_comparator p1) h2 (pmerge (timer_pool_entry_comparator p1) t (Node Leaf i Leaf)) fs"
    using ph_insert_node_inv [OF targets.weak_order_axioms _ _ i(2,3)] by blast
  moreover have "i \<noteq> 0" using i(1) by (simp add: is_node_def)
  ultimately show ?thesis using h1(1) n1 i(2) by blast
qed

lemma set_insert_alarm:
  "is_root t \<Longrightarrow> set_tree (pmerge cmp t (Node Leaf i Leaf)) = insert i (set_tree t)"
  by simp


text \<open>What adding does, up to the choice whether the alarm has become the first.\<close>

lemma add_alarm_result:
  fixes time :: absolute_time and callback user_data :: nat
  assumes ok: "pool_ok (alarm_pools w n) t (i # fs)"
  defines "e \<equiv> \<lparr>entry_target = time, entry_callback = callback, entry_user_data = user_data\<rparr>"
  obtains h2 p2 where "p2 = (alarm_pools w n)\<lparr>entries := (entries (alarm_pools w n))(i := e), pool_heap := h2\<rparr>"
    and "pool_ok p2 (pmerge (timer_pool_entry_comparator p2) t (Node Leaf i Leaf)) fs" "i \<notin> set_tree t" "i \<noteq> 0"
    and "add_alarm_under_lock n time callback user_data 0 create missed w =
      (if i = root_id h2 then
         rbind (hardware_alarm_set_target read_fuel (hardware_alarm_num (alarm_pools w n)) time (timer w)) (\<lambda>(is_missed, tm).
         rbind (if is_missed \<and> \<not> create
                then rbind (ph_remove_and_free_node (timer_pool_entry_comparator p2) h2 i) (\<lambda>(h3, _). Inr h3) else Inr h2) (\<lambda>h3.
           Inr (i, is_missed, put_pool n (p2\<lparr>pool_heap := h3\<rparr>) (w\<lparr>timer := tm\<rparr>))))
       else Inr (i, missed, put_pool n p2 w))"
proof -
  let ?p = "alarm_pools w n"
  let ?p1 = "?p\<lparr>entries := (entries ?p)(i := e)\<rparr>"
  obtain h1 h2 where h: "ph_new_node (pool_heap ?p) = Inr (h1, i)" "i \<noteq> 0" "is_node h1 i" "i \<notin> set_tree t"
    "ph_insert_node (timer_pool_entry_comparator ?p1) h1 i = Inr (h2, root_id h2)"
    "ph_inv (timer_pool_entry_comparator ?p1) h2 (pmerge (timer_pool_entry_comparator ?p1) t (Node Leaf i Leaf)) fs"
    using insert_alarm [OF ok, of e] by blast
  show ?thesis
  proof (rule that [of "?p1\<lparr>pool_heap := h2\<rparr>" h2])
    show "pool_ok (?p1\<lparr>pool_heap := h2\<rparr>)
        (pmerge (timer_pool_entry_comparator (?p1\<lparr>pool_heap := h2\<rparr>)) t (Node Leaf i Leaf)) fs"
      using h(6) by (simp add: pool_ok_def)
    show "add_alarm_under_lock n time callback user_data 0 create missed w =
      (if i = root_id h2 then
         rbind (hardware_alarm_set_target read_fuel (hardware_alarm_num ?p) time (timer w)) (\<lambda>(is_missed, tm).
         rbind (if is_missed \<and> \<not> create
                then rbind (ph_remove_and_free_node (timer_pool_entry_comparator (?p1\<lparr>pool_heap := h2\<rparr>)) h2 i) (\<lambda>(h3, _). Inr h3)
                else Inr h2) (\<lambda>h3.
           Inr (i, is_missed, put_pool n (?p1\<lparr>pool_heap := h2\<rparr>\<lparr>pool_heap := h3\<rparr>) (w\<lparr>timer := tm\<rparr>))))
       else Inr (i, missed, put_pool n (?p1\<lparr>pool_heap := h2\<rparr>) w))"
      using h(1-3,5) by (simp add: add_alarm_under_lock_def Let_def get_entry_def e_def [symmetric] cong: if_cong)
  qed (use h in simp_all)
qed

text \<open>Dropping a missed alarm again.\<close>

lemma drop_missed_alarm:
  assumes "pool_ok p2 (pmerge (timer_pool_entry_comparator p2) t (Node Leaf i Leaf)) fs" "is_root t" "i \<notin> set_tree t"
    and "i = root_id (pool_heap p2)" "i \<noteq> 0" "fs \<noteq> []"
  shows "\<exists>h3 t'. ph_remove_and_free_node (timer_pool_entry_comparator p2) (pool_heap p2) i = Inr (h3, True) \<and>
    pool_ok (p2\<lparr>pool_heap := h3\<rparr>) t' (fs @ [i]) \<and> set_tree t' = set_tree t"
proof -
  let ?cmp = "timer_pool_entry_comparator p2" and ?t = "pmerge (timer_pool_entry_comparator p2) t (Node Leaf i Leaf)"
  note inv = assms(1) [unfolded pool_ok_def]
  have st: "set_tree ?t = insert i (set_tree t)" using assms(2) by simp
  then have "?t \<noteq> Leaf" by auto
  then obtain cs where cs: "?t = Node cs i Leaf" "i \<notin> set_tree cs" using root_cases [OF inv] assms(4) by metis
  obtain h3 where h3: "ph_remove_head ?cmp (pool_heap p2) True = Inr (h3, i)"
    "ph_inv ?cmp h3 (pass ?cmp cs) (fs @ [i])"
    using ph_remove_head_inv [OF targets.weak_order_axioms inv [unfolded cs(1)], of True] assms(6) by auto
  have "set_tree cs = set_tree t" using st cs assms(3) by auto
  moreover have "timer_pool_entry_comparator (p2\<lparr>pool_heap := h3\<rparr>) = ?cmp"
    by (simp add: timer_pool_entry_comparator_def fun_eq_iff)
  moreover have "ph_remove_and_free_node ?cmp (pool_heap p2) i = Inr (h3, True)"
    using h3(1) assms(4,5) by (simp add: ph_remove_and_free_node_def ph_remove_and_free_head_def)
  ultimately show ?thesis using h3(2) by (intro exI [of _ h3] exI [of _ "pass ?cmp cs"]) (simp add: pool_ok_def)
qed

text \<open>
  C21: Adding an alarm to a pool with free nodes on a ticking clock succeeds. Unless it is missed,
  it is then scheduled with its target and callback beside the others; if it is the earliest, the
  hardware alarm is set to its target. It is missed only if its target has been reached, and then
  it is either scheduled too, or the pool holds the alarms that it held before.
\<close>

theorem alarm_scheduled:
  assumes ok: "pool_ok (alarm_pools w n) t (i # fs)" "fs \<noteq> []" and tick: "ticking (clock (timer w))"
    and num: "hardware_alarm_num (alarm_pools w n) < NUM_TIMERS"
  shows "\<exists>missed w' t' fs'. add_alarm_under_lock n time callback user_data 0 create False w = Inr (i, missed, w') \<and>
    pool_ok (alarm_pools w' n) t' fs' \<and>
    (if missed \<and> \<not> create then set_tree t' = set_tree t
     else set_tree t' = insert i (set_tree t) \<and>
       entries (alarm_pools w' n) i = \<lparr>entry_target = time, entry_callback = callback, entry_user_data = user_data\<rparr>) \<and>
    (\<forall>j \<in> set_tree t. entries (alarm_pools w' n) j = entries (alarm_pools w n) j) \<and>
    (missed \<longrightarrow> (\<exists>k. time \<le> clock (timer w) k)) \<and>
    (\<not> missed \<and> ph_peek_head (pool_heap (alarm_pools w' n)) = i \<longrightarrow>
       live (hardware_alarm_num (alarm_pools w n)) (timer w') \<and>
       alarm (timer w') (hardware_alarm_num (alarm_pools w n)) = lo_word time \<and>
       target_hi (timer w') (hardware_alarm_num (alarm_pools w n)) = hi_word time)"
proof -
  let ?e = "\<lparr>entry_target = time, entry_callback = callback, entry_user_data = user_data\<rparr>"
  let ?num = "hardware_alarm_num (alarm_pools w n)"
  obtain h2 p2 where p2: "p2 = (alarm_pools w n)\<lparr>entries := (entries (alarm_pools w n))(i := ?e), pool_heap := h2\<rparr>"
    "pool_ok p2 (pmerge (timer_pool_entry_comparator p2) t (Node Leaf i Leaf)) fs" "i \<notin> set_tree t" "i \<noteq> 0"
    "add_alarm_under_lock n time callback user_data 0 create False w =
      (if i = root_id h2 then
         rbind (hardware_alarm_set_target read_fuel ?num time (timer w)) (\<lambda>(is_missed, tm).
         rbind (if is_missed \<and> \<not> create
                then rbind (ph_remove_and_free_node (timer_pool_entry_comparator p2) h2 i) (\<lambda>(h3, _). Inr h3) else Inr h2) (\<lambda>h3.
           Inr (i, is_missed, put_pool n (p2\<lparr>pool_heap := h3\<rparr>) (w\<lparr>timer := tm\<rparr>))))
       else Inr (i, False, put_pool n p2 w))"
    by (rule add_alarm_result [OF ok(1)])
  have root: "is_root t" using ok(1) by (simp add: pool_ok_def ph_inv_def)
  have h2: "pool_heap p2 = h2" "entries p2 i = ?e" "\<forall>j \<in> set_tree t. entries p2 j = entries (alarm_pools w n) j"
    using p2(1,3) by auto
  let ?t = "pmerge (timer_pool_entry_comparator p2) t (Node Leaf i Leaf)"
  show ?thesis
  proof (cases "i = root_id h2")
    case False
    then show ?thesis using p2 h2 set_insert_alarm [OF root]
      by (intro exI [of _ False] exI [of _ "put_pool n p2 w"] exI [of _ ?t] exI [of _ fs])
        (simp add: put_pool_def ph_peek_head_def)
  next
    case True
    obtain missed tm where m: "hardware_alarm_set_target read_fuel ?num time (timer w) = Inr (missed, tm)"
      "if missed then (\<exists>k. ticks (timer w) < k \<and> k < ticks tm \<and> time \<le> clock (timer w) k) \<and>
         timer_callbacks_pending tm = timer_callbacks_pending (timer w)
       else bit (timer_callbacks_pending tm) ?num \<and> alarm tm ?num = lo_word time \<and>
         target_hi tm ?num = hi_word time \<and> live ?num tm"
      using set_target_returns [OF tick, of read_fuel] set_target_result [OF _ num] tick
      by (metis read_fuel_def order_refl ticking_def)
    show ?thesis
    proof (cases "missed \<and> \<not> create")
      case drop: True
      obtain h3 t' where h3: "ph_remove_and_free_node (timer_pool_entry_comparator p2) h2 i = Inr (h3, True)"
        "pool_ok (p2\<lparr>pool_heap := h3\<rparr>) t' (fs @ [i])" "set_tree t' = set_tree t"
        using drop_missed_alarm [OF p2(2) root p2(3)] True p2(4) ok(2) h2(1) by auto
      show ?thesis using p2(5) True m drop h3 h2
        by (intro exI [of _ True] exI [of _ "put_pool n (p2\<lparr>pool_heap := h3\<rparr>) (w\<lparr>timer := tm\<rparr>)"] exI [of _ t'] exI [of _ "fs @ [i]"])
          (auto simp: put_pool_def)
    next
      case False
      then show ?thesis using p2(2,5) True m h2 set_insert_alarm [OF root]
        by (intro exI [of _ missed] exI [of _ "put_pool n (p2\<lparr>pool_heap := h2\<rparr>) (w\<lparr>timer := tm\<rparr>)"] exI [of _ ?t] exI [of _ fs])
          (auto simp: put_pool_def)
    qed
  qed
qed

section \<open>The interrupt\<close>

declare alarm_pool_alarm_callback.simps [simp del]

lemma ticking_read:
  assumes "ticking (clock t)"
  obtains now tm where "get_absolute_time t = Inr (now, tm)" "clock tm = clock t"
    "\<exists>k. ticks t < k \<and> k < ticks tm \<and> now = clock t k"
proof -
  obtain v tm k where "time_us_64 read_fuel t = Inr (v, tm)" "time_passes t tm" "ticks t < k" "k < ticks tm" "v = clock t k"
    using read_moment [OF assms, of read_fuel] by (auto simp: read_fuel_def)
  then show ?thesis using that [of v tm] time_passes_clock [of t tm] by (auto simp: get_absolute_time_def)
qed

text \<open>Taking the head out of the heap while its callback runs.\<close>

lemma take_head:
  assumes "pool_ok p t fs" "t \<noteq> Leaf"
  obtains h1 t' where "ph_peek_head (pool_heap p) \<noteq> 0" "is_node (pool_heap p) (ph_peek_head (pool_heap p))"
    and "ph_remove_head (timer_pool_entry_comparator p) (pool_heap p) False = Inr (h1, ph_peek_head (pool_heap p))"
    and "\<forall>f. pool_ok (p\<lparr>pool_heap := h1, alarm_in_progress := f\<rparr>) t' fs"
    and "set_tree t' = set_tree t - {ph_peek_head (pool_heap p)}" "ph_peek_head (pool_heap p) \<in> set_tree t"
    and "is_node h1 = is_node (pool_heap p)" "sibling (nodes h1 (ph_peek_head (pool_heap p))) = 0"
    and "ph_peek_head (pool_heap p) \<notin> set fs"
    and "\<forall>j \<in> set_tree t. entry_target (entries p (ph_peek_head (pool_heap p))) \<le> entry_target (entries p j)"
proof -
  let ?cmp = "timer_pool_entry_comparator p" and ?r = "root_id (pool_heap p)"
  note inv = assms(1) [unfolded pool_ok_def]
  obtain cs where t: "t = Node cs ?r Leaf" "?r \<notin> set_tree cs" using root_cases [OF inv assms(2)] by metis
  obtain h1 where h1: "ph_remove_head ?cmp (pool_heap p) False = Inr (h1, ?r)" "is_node h1 = is_node (pool_heap p)"
    "ph_inv ?cmp h1 (pass ?cmp cs) fs" "sibling (nodes h1 ?r) = 0"
    using ph_remove_head_inv [OF targets.weak_order_axioms inv [unfolded t(1)], of False] by auto
  have "?r \<notin> set fs" using inv t(1) by (metis IntI emptyE ph_inv_def tree.set_intros(2))
  moreover have "is_node (pool_heap p) ?r" using repr_nodes [of "pool_heap p" 0 ?r t ?r] inv t(1) by (simp add: ph_inv_def)
  moreover have "timer_pool_entry_comparator (p\<lparr>pool_heap := h1, alarm_in_progress := f\<rparr>) = ?cmp" for f
    by (simp add: timer_pool_entry_comparator_def fun_eq_iff)
  moreover have "heap_ordered ?cmp (Node cs ?r Leaf)" using inv t(1) by (metis ph_inv_def)
  then have "\<forall>j \<in> set_tree t. entry_target (entries p ?r) \<le> entry_target (entries p j)"
    using targets.root_minimal [of p cs ?r] t(1) by (metis linorder_not_less timer_pool_entry_comparator_def)
  ultimately show ?thesis
    using h1 t by (intro that [of h1 "pass ?cmp cs"]) (auto simp: ph_peek_head_def pool_ok_def is_node_def)
qed

text \<open>
  When the hardware alarm of a pool with alarms goes off, the interrupt reads the time and looks
  at an alarm that no other one precedes. If it is due, it leaves the heap, is marked as in progress
  and its callback runs with its identifier and user data; after that it is repeated or freed and
  the interrupt looks again. If it is not due, the hardware alarm is set to it, and only if that
  is missed the interrupt looks again.
\<close>

lemma callback_step:
  assumes ok: "pool_ok (alarm_pools w n) t fs" "t \<noteq> Leaf" and tick: "ticking (clock (timer w))"
    and num: "pools w num = Some n"
  shows "\<exists>now tm i e w2 t'. get_absolute_time (timer w) = Inr (now, tm) \<and>
    i \<in> set_tree t \<and> e = entries (alarm_pools w n) i \<and>
    (\<forall>j \<in> set_tree t. entry_target e \<le> entry_target (entries (alarm_pools w n) j)) \<and>
    pool_ok (alarm_pools w2 n) t' fs \<and> set_tree t' = set_tree t - {i} \<and> timer w2 = tm \<and> pools w2 = pools w \<and>
    entries (alarm_pools w2 n) = entries (alarm_pools w n) \<and> is_node (pool_heap (alarm_pools w2 n)) i \<and>
    sibling (nodes (pool_heap (alarm_pools w2 n)) i) = 0 \<and> i \<notin> set fs \<and>
    alarm_in_progress (alarm_pools w2 n) = make_public_id (entry_ids_high (alarm_pools w n) i) i \<and>
    alarm_pool_alarm_callback (Suc fuel) run num w =
      (if sint (entry_target e - now) \<le> 0
       then if entry_callback e = 0 then Inr w2
            else rbind (run (entry_callback e) (alarm_in_progress (alarm_pools w2 n)) (entry_user_data e) w2) (\<lambda>(repeat, w3).
                 rbind (finish_alarm n i (entry_target e) (entry_callback e) (entry_user_data e) repeat w3)
                   (alarm_pool_alarm_callback fuel run num))
       else rbind (hardware_alarm_set_target read_fuel num (entry_target e) tm) (\<lambda>(again, tm2).
            if again then alarm_pool_alarm_callback fuel run num (w\<lparr>timer := tm2\<rparr>) else Inr (w\<lparr>timer := tm2\<rparr>)))"
proof -
  let ?p = "alarm_pools w n"
  let ?i = "ph_peek_head (pool_heap ?p)"
  let ?id = "make_public_id (entry_ids_high ?p ?i) ?i"
  obtain now tm where r: "get_absolute_time (timer w) = Inr (now, tm)" using ticking_read [OF tick] .
  obtain h1 t' where h: "?i \<noteq> 0" "is_node (pool_heap ?p) ?i"
    "ph_remove_head (timer_pool_entry_comparator ?p) (pool_heap ?p) False = Inr (h1, ?i)"
    "\<forall>f. pool_ok (?p\<lparr>pool_heap := h1, alarm_in_progress := f\<rparr>) t' fs"
    "set_tree t' = set_tree t - {?i}" "?i \<in> set_tree t" "is_node h1 = is_node (pool_heap ?p)"
    "sibling (nodes h1 ?i) = 0" "?i \<notin> set fs"
    "\<forall>j \<in> set_tree t. entry_target (entries ?p ?i) \<le> entry_target (entries ?p j)"
    using take_head [OF ok] .
  show ?thesis
    using r h num
    by (intro exI [of _ now] exI [of _ tm] exI [of _ ?i] exI [of _ "entries ?p ?i"]
        exI [of _ "put_pool n (?p\<lparr>pool_heap := h1, alarm_in_progress := ?id\<rparr>) (w\<lparr>timer := tm\<rparr>)"] exI [of _ t'])
      (simp add: alarm_pool_alarm_callback.simps Let_def get_entry_def get_entry_id_high_def absolute_time_diff_us_def
        put_pool_def cong: if_cong)
qed

text \<open>Callbacks that do not ask to be repeated and leave the pools and the timer alone.\<close>

definition one_shot :: "callbacks \<Rightarrow> bool" where
  "one_shot run \<longleftrightarrow> (\<forall>c i u w. \<exists>r. run c i u w = Inr (0, w\<lparr>repeating := r\<rparr>))"

lemma finish_one_shot:
  assumes ok: "pool_ok (alarm_pools w n) t fs" "fs \<noteq> []"
    and i: "is_node (pool_heap (alarm_pools w n)) i" "i \<notin> set_tree t" "i \<notin> set fs"
      "sibling (nodes (pool_heap (alarm_pools w n)) i) = 0"
  obtains w' where "finish_alarm n i target callback user_data 0 w = Inr w'" "pool_ok (alarm_pools w' n) t (fs @ [i])"
    "timer w' = timer w" "pools w' = pools w" "entries (alarm_pools w' n) = entries (alarm_pools w n)"
proof -
  let ?p = "alarm_pools w n"
  obtain h' where h': "ph_free_node (pool_heap ?p) i = Inr h'" "ph_inv (timer_pool_entry_comparator ?p) h' t (fs @ [i])"
    using ph_free_node_inv [OF ok(1) [unfolded pool_ok_def] ok(2) i] by blast
  let ?p' = "?p\<lparr>pool_heap := h', entry_ids_high := (entry_ids_high ?p)(i := entry_ids_high ?p i + 1), alarm_in_progress := 0\<rparr>"
  have "timer_pool_entry_comparator ?p' = timer_pool_entry_comparator ?p"
    by (simp add: timer_pool_entry_comparator_def fun_eq_iff)
  then show ?thesis using h' i(1)
    by (intro that [of "put_pool n ?p' w"])
      (simp_all add: finish_alarm_def get_entry_id_high_def put_pool_def pool_ok_def Let_def)
qed

lemma set_target_clock:
  assumes "steady (clock t)" "hardware_alarm_set_target fuel n target t = Inr (missed, t')"
  shows "clock t' = clock t \<and> ticks t \<le> ticks t'"
proof -
  obtain v t1 where t1: "time_us_64 fuel t = Inr (v, t1)"
    using assms(2) by (auto simp: hardware_alarm_set_target_def rbind_eq_Inr_iff)
  have c1: "clock t1 = clock t" "ticks t \<le> ticks t1"
    using time_passes_clock time_us_64_exact [OF assms(1) t1] by auto
  define t6 where "t6 = pass_time (let t4 = write_alarm n (lo_word target)
      (write_intr (push_bit n 1) (t1\<lparr>timer_callbacks_pending := timer_callbacks_pending t1 OR pending_bit n\<rparr>))
    in t4\<lparr>target_hi := (target_hi t4)(n := hi_word target)\<rparr>)"
  have c6: "clock t6 = clock t" "ticks t \<le> ticks t6"
    using c1 by (simp_all add: t6_def write_alarm_def write_intr_def Let_def)
  have c7: "clock t7 = clock t \<and> ticks t \<le> ticks t7" if "time_us_64 fuel t6 = Inr (v2, t7)" for v2 t7
    using time_us_64_exact [OF _ that] time_passes_clock [of t6 t7] c6 assms(1) by auto
  have run: "hardware_alarm_set_target fuel n target t =
    (if target \<le> v then Inr (True, t1)
     else if armed t6 AND push_bit n 1 = 0 then Inr (False, t6)
     else rbind (time_us_64 fuel t6) (\<lambda>(now2, t7).
       if now2 \<ge> target then
         if timer_callbacks_pending t7 \<noteq> timer_callbacks_pending t1 then
           let t8 = write_armed (push_bit n 1) t7; t9 = write_intr (push_bit n 1) t8
           in Inr (True, t9\<lparr>irqs := irq_clear (harware_alarm_irq_number n) (irqs t9),
                timer_callbacks_pending := timer_callbacks_pending t1\<rparr>)
         else Inr (True, t7)
       else Inr (False, t7)))"
    using t1 by (simp add: hardware_alarm_set_target_def Let_def read_armed_def t6_def)
  have "t' = t1 \<or> t' = t6 \<or> (\<exists>v2 t7. time_us_64 fuel t6 = Inr (v2, t7) \<and> clock t' = clock t7 \<and> ticks t7 \<le> ticks t')"
    using assms(2) unfolding run
    by (auto simp: Let_def rbind_eq_Inr_iff write_armed_def write_intr_def split: if_splits)
  then show ?thesis using c1 c6 by (elim disjE exE conjE) (auto dest: c7 intro: order_trans)
qed

lemma due_iff:
  fixes a b :: u64
  assumes "a < 0x8000000000000000" "b < 0x8000000000000000"
  shows "sint (a - b) \<le> 0 \<longleftrightarrow> a \<le> b"
proof -
  have b: "uint a < 2 ^ 63" "uint b < 2 ^ 63" using assms by (simp_all add: word_less_def)
  have "- 9223372036854775808 \<le> uint a" "- 9223372036854775808 \<le> uint b"
    using uint_ge_0 [of a] uint_ge_0 [of b] by linarith+
  then have "sint a = uint a" "sint b = uint b" using b by (simp_all add: sint_uint signed_take_bit_int_eq_self)
  moreover have "sint (a - b) = signed_take_bit 63 (sint a - sint b)"
    by (simp add: sint_word_ariths)
  moreover have "signed_take_bit 63 (uint a - uint b) = uint a - uint b"
    using b uint_ge_0 [of a] uint_ge_0 [of b] by (intro signed_take_bit_int_eq_self) linarith+
  ultimately have "sint (a - b) = uint a - uint b" by simp
  then show ?thesis by (simp add: word_le_def)
qed

text \<open>
  What serving achieves: the alarms that are gone were due at some moment in between and none that
  stays precedes one of them; if alarms stay, the hardware alarm is set to the earliest.
\<close>

definition served :: "nat \<Rightarrow> nat \<Rightarrow> time_world \<Rightarrow> nat tree \<Rightarrow> time_world \<Rightarrow> nat tree \<Rightarrow> bool" where
  "served n num w t w' t' \<longleftrightarrow>
     (let target = (\<lambda>j. entry_target (entries (alarm_pools w n) j))
      in set_tree t' \<subseteq> set_tree t \<and> clock (timer w') = clock (timer w) \<and> ticks (timer w) \<le> ticks (timer w') \<and>
         (\<forall>j \<in> set_tree t - set_tree t'. (\<forall>k \<in> set_tree t'. target j \<le> target k) \<and>
           (\<exists>m. ticks (timer w) < m \<and> m < ticks (timer w') \<and> target j \<le> clock (timer w) m)) \<and>
         (t' \<noteq> Leaf \<longrightarrow> (\<exists>i \<in> set_tree t'. (\<forall>j \<in> set_tree t'. target i \<le> target j) \<and>
           bit (timer_callbacks_pending (timer w')) num \<and> alarm (timer w') num = lo_word (target i) \<and>
           target_hi (timer w') num = hi_word (target i) \<and> live num (timer w'))))"

lemma served_first:
  assumes "served n num w1 t1 w' t'" "set_tree t1 = set_tree t - {i}" "i \<in> set_tree t"
    and "entries (alarm_pools w1 n) = entries (alarm_pools w n)" "clock (timer w1) = clock (timer w)"
    and "\<forall>j \<in> set_tree t. entry_target (entries (alarm_pools w n) i) \<le> entry_target (entries (alarm_pools w n) j)"
    and "ticks (timer w) < m" "m < ticks (timer w1)" "entry_target (entries (alarm_pools w n) i) \<le> clock (timer w) m"
  shows "served n num w t w' t'"
proof -
  note first = assms(1) [unfolded served_def Let_def assms(2,4,5)]
  have gone: "(\<forall>k \<in> set_tree t'. entry_target (entries (alarm_pools w n) j) \<le> entry_target (entries (alarm_pools w n) k)) \<and>
      (\<exists>m. ticks (timer w) < m \<and> m < ticks (timer w') \<and> entry_target (entries (alarm_pools w n) j) \<le> clock (timer w) m)"
    if j: "j \<in> set_tree t - set_tree t'" for j
  proof (cases "j = i")
    case True
    then show ?thesis using first assms(6-9) by (auto intro!: exI [of _ m])
  next
    case False
    then obtain k where k: "ticks (timer w1) < k" "k < ticks (timer w')"
      "entry_target (entries (alarm_pools w n) j) \<le> clock (timer w) k"
      and "\<forall>k \<in> set_tree t'. entry_target (entries (alarm_pools w n) j) \<le> entry_target (entries (alarm_pools w n) k)"
      using first j by blast
    then show ?thesis using assms(7,8) by (auto intro!: exI [of _ k])
  qed
  have "set_tree t' \<subseteq> set_tree t" "ticks (timer w) \<le> ticks (timer w')" "clock (timer w') = clock (timer w)"
    using first assms(7,8) by auto
  then show ?thesis unfolding served_def Let_def using gone first by blast
qed

lemma served_later:
  assumes "served n num (w\<lparr>timer := tm\<rparr>) t w' t'" "clock tm = clock (timer w)" "ticks (timer w) \<le> ticks tm"
  shows "served n num w t w' t'"
proof -
  note later = assms(1) [unfolded served_def Let_def, simplified, unfolded assms(2)]
  have "\<exists>m. ticks (timer w) < m \<and> m < ticks (timer w') \<and> entry_target (entries (alarm_pools w n) j) \<le> clock (timer w) m"
    if "j \<in> set_tree t - set_tree t'" for j
    using later that assms(3) by (metis order.strict_trans1)
  then show ?thesis unfolding served_def Let_def using later assms(3) by (blast intro: order_trans)
qed

lemma due_step:
  assumes ok: "pool_ok (alarm_pools w n) t fs" "fs \<noteq> []" "t \<noteq> Leaf" and tick: "ticking (clock (timer w))"
    and num: "pools w num = Some n" and run: "one_shot run"
    and cb: "\<forall>j \<in> set_tree t. entry_callback (entries (alarm_pools w n) j) \<noteq> 0"
  obtains now tm i w' t' where "get_absolute_time (timer w) = Inr (now, tm)" and "i \<in> set_tree t"
    and "\<forall>j \<in> set_tree t. entry_target (entries (alarm_pools w n) i) \<le> entry_target (entries (alarm_pools w n) j)"
    and "pool_ok (alarm_pools w' n) t' (fs @ [i])" "set_tree t' = set_tree t - {i}" "timer w' = tm" "pools w' = pools w"
    and "entries (alarm_pools w' n) = entries (alarm_pools w n)"
    and "alarm_pool_alarm_callback (Suc fuel) run num w =
      (if sint (entry_target (entries (alarm_pools w n) i) - now) \<le> 0 then alarm_pool_alarm_callback fuel run num w'
       else rbind (hardware_alarm_set_target read_fuel num (entry_target (entries (alarm_pools w n) i)) tm) (\<lambda>(again, tm2).
            if again then alarm_pool_alarm_callback fuel run num (w\<lparr>timer := tm2\<rparr>) else Inr (w\<lparr>timer := tm2\<rparr>)))"
proof -
  from callback_step [OF ok(1,3) tick num, of fuel run] obtain now tm i e w2 t' where
    st: "get_absolute_time (timer w) = Inr (now, tm)" "i \<in> set_tree t" "e = entries (alarm_pools w n) i"
    "\<forall>j \<in> set_tree t. entry_target e \<le> entry_target (entries (alarm_pools w n) j)"
    "pool_ok (alarm_pools w2 n) t' fs" "set_tree t' = set_tree t - {i}" "timer w2 = tm" "pools w2 = pools w"
    "entries (alarm_pools w2 n) = entries (alarm_pools w n)" "is_node (pool_heap (alarm_pools w2 n)) i"
    "sibling (nodes (pool_heap (alarm_pools w2 n)) i) = 0" "i \<notin> set fs"
    "alarm_pool_alarm_callback (Suc fuel) run num w =
      (if sint (entry_target e - now) \<le> 0
       then if entry_callback e = 0 then Inr w2
            else rbind (run (entry_callback e) (alarm_in_progress (alarm_pools w2 n)) (entry_user_data e) w2) (\<lambda>(repeat, w3).
                 rbind (finish_alarm n i (entry_target e) (entry_callback e) (entry_user_data e) repeat w3)
                   (alarm_pool_alarm_callback fuel run num))
       else rbind (hardware_alarm_set_target read_fuel num (entry_target e) tm) (\<lambda>(again, tm2).
            if again then alarm_pool_alarm_callback fuel run num (w\<lparr>timer := tm2\<rparr>) else Inr (w\<lparr>timer := tm2\<rparr>)))"
    by (elim exE conjE)
  obtain r where r: "run (entry_callback e) (alarm_in_progress (alarm_pools w2 n)) (entry_user_data e) w2 =
      Inr (0, w2\<lparr>repeating := r\<rparr>)" using run unfolding one_shot_def by blast
  have "i \<notin> set_tree t'" by (simp add: st(6))
  then obtain w' where w': "finish_alarm n i (entry_target e) (entry_callback e) (entry_user_data e) 0 (w2\<lparr>repeating := r\<rparr>) = Inr w'"
    "pool_ok (alarm_pools w' n) t' (fs @ [i])" "timer w' = timer w2" "pools w' = pools w2"
    "entries (alarm_pools w' n) = entries (alarm_pools w2 n)"
    using finish_one_shot [of "w2\<lparr>repeating := r\<rparr>" n t' fs i "entry_target e" "entry_callback e" "entry_user_data e"]
      st(5,10,11,12) ok(2) by auto
  have "entry_callback e \<noteq> 0" using cb st(2,3) by blast
  then show ?thesis
    using st(1-4,6-9,13) r w' by (intro that [of now tm i w' t']) (simp_all cong: if_cong)
qed

lemma callback_serves:
  assumes ok: "pool_ok (alarm_pools w n) t fs" "fs \<noteq> []" and tick: "ticking (clock (timer w))"
    and small: "\<forall>k. clock (timer w) k < 0x8000000000000000"
      "\<forall>j \<in> set_tree t. entry_target (entries (alarm_pools w n) j) < 0x8000000000000000"
    and num: "pools w num = Some n" "num < NUM_TIMERS" and run: "one_shot run"
    and cb: "\<forall>j \<in> set_tree t. entry_callback (entries (alarm_pools w n) j) \<noteq> 0"
    and fuel: "2 * card (set_tree t) < fuel \<or> 2 * card (set_tree t) \<le> fuel \<and>
      (\<exists>i \<in> set_tree t. \<exists>k < ticks (timer w). entry_target (entries (alarm_pools w n) i) \<le> clock (timer w) k)"
  shows "\<exists>w' t' fs'. alarm_pool_alarm_callback fuel run num w = Inr w' \<and> pool_ok (alarm_pools w' n) t' fs' \<and>
    served n num w t w' t'"
  using assms
proof (induction fuel arbitrary: w t fs)
  case 0
  then show ?case by auto
next
  case (Suc fuel)
  let ?target = "\<lambda>j. entry_target (entries (alarm_pools w n) j)"
  note tick = Suc.prems(3) and num = Suc.prems(6,7)
  show ?case
  proof (cases "t = Leaf")
    case True
    obtain now tm where "get_absolute_time (timer w) = Inr (now, tm)"
      "clock tm = clock (timer w)" "ticks (timer w) \<le> ticks tm" using ticking_read [OF tick] by (metis less_imp_le order_trans)
    moreover have "ph_peek_head (pool_heap (alarm_pools w n)) = 0"
      using ph_inv_size Suc.prems(1) True by (metis pool_ok_def)
    ultimately show ?thesis using Suc.prems(1) num True
      by (intro exI [of _ "w\<lparr>timer := tm\<rparr>"] exI [of _ Leaf] exI [of _ fs]) (simp add: alarm_pool_alarm_callback.simps served_def Let_def)
  next
    case False
    from due_step [OF Suc.prems(1,2) False tick num(1) Suc.prems(8,9), of fuel] obtain now tm i w1 t1 where
      st: "get_absolute_time (timer w) = Inr (now, tm)" "i \<in> set_tree t" "\<forall>j \<in> set_tree t. ?target i \<le> ?target j"
      "pool_ok (alarm_pools w1 n) t1 (fs @ [i])" "set_tree t1 = set_tree t - {i}" "timer w1 = tm" "pools w1 = pools w"
      "entries (alarm_pools w1 n) = entries (alarm_pools w n)"
      "alarm_pool_alarm_callback (Suc fuel) run num w =
        (if sint (?target i - now) \<le> 0 then alarm_pool_alarm_callback fuel run num w1
         else rbind (hardware_alarm_set_target read_fuel num (?target i) tm) (\<lambda>(again, tm2).
              if again then alarm_pool_alarm_callback fuel run num (w\<lparr>timer := tm2\<rparr>) else Inr (w\<lparr>timer := tm2\<rparr>)))"
      by blast
    obtain m where tm: "clock tm = clock (timer w)" "ticks (timer w) < m" "m < ticks tm" "now = clock (timer w) m"
      using ticking_read [OF tick] st(1) by (metis Inr_inject Pair_inject)
    have due: "sint (?target i - now) \<le> 0 \<longleftrightarrow> ?target i \<le> now"
      using Suc.prems(4,5) st(2) tm(4) by (intro due_iff) simp_all
    show ?thesis
    proof (cases "?target i \<le> now")
      case True
      have "2 * card (set_tree t1) < fuel"
      proof -
        have "0 < card (set_tree t)" using st(2) by (metis card_gt_0_iff empty_iff finite_set_tree)
        then show ?thesis using Suc.prems(10) st(2) by (auto simp: st(5) card_Diff_singleton)
      qed
      then have "\<exists>w' t' fs'. alarm_pool_alarm_callback fuel run num w1 = Inr w' \<and> pool_ok (alarm_pools w' n) t' fs' \<and>
          served n num w1 t1 w' t'"
        by (intro Suc.IH [OF st(4)])
          (use Suc.prems(3-9) st(5-8) tm(1) in \<open>simp_all\<close>)
      then obtain w' t' fs' where "alarm_pool_alarm_callback fuel run num w1 = Inr w'" "pool_ok (alarm_pools w' n) t' fs'"
        "served n num w1 t1 w' t'" by blast
      moreover from this(3) have "served n num w t w' t'"
        by (rule served_first [OF _ st(5,2,8) _ st(3) tm(2)]) (use tm st(6) True in simp_all)
      ultimately show ?thesis using st(9) True due by auto
    next
      case False
      obtain again tm2 where again: "hardware_alarm_set_target read_fuel num (?target i) tm = Inr (again, tm2)"
        using set_target_returns [of tm read_fuel num "?target i"] tick tm(1) by (auto simp: read_fuel_def)
      have steady: "steady (clock tm)" using tick tm(1) by (simp add: ticking_def)
      note res = set_target_result [OF steady num(2) again]
      note clk = set_target_clock [OF steady again]
      have run1: "alarm_pool_alarm_callback (Suc fuel) run num w =
          (if again then alarm_pool_alarm_callback fuel run num (w\<lparr>timer := tm2\<rparr>) else Inr (w\<lparr>timer := tm2\<rparr>))"
        using st(9) False due again by simp
      show ?thesis
      proof (cases again)
        case missed: True
        have "\<not> ?target j \<le> clock (timer w) k" if "j \<in> set_tree t" "k < ticks (timer w)" for j k
        proof -
          have "clock (timer w) k \<le> now" using that(2) tm(2,4) tick by (simp add: ticking_def steady_def)
          then show ?thesis using that(1) st(3) False by (meson order_trans)
        qed
        then have "2 * card (set_tree t) \<le> fuel" using Suc.prems(10) by (metis less_Suc_eq_le)
        then have "\<exists>w' t' fs'. alarm_pool_alarm_callback fuel run num (w\<lparr>timer := tm2\<rparr>) = Inr w' \<and>
            pool_ok (alarm_pools w' n) t' fs' \<and> served n num (w\<lparr>timer := tm2\<rparr>) t w' t'"
          by (intro Suc.IH [of _ t fs])
            (use Suc.prems(1-9) st(2) tm(1) res missed clk in \<open>auto\<close>)
        then show ?thesis using run1 missed served_later [of n num tm2 w t] clk tm by auto
      next
        case set: False
        have "served n num w t (w\<lparr>timer := tm2\<rparr>) t"
          using res set st(2,3) clk tm by (auto simp: served_def Let_def)
        then show ?thesis using run1 set Suc.prems(1)
          by (intro exI [of _ "w\<lparr>timer := tm2\<rparr>"] exI [of _ t] exI [of _ fs]) simp
      qed
    qed
  qed
qed


section \<open>Where the pool goes wrong\<close>

text \<open>
  C23: The flag for a missed target is not reset when a missed alarm repeats: if the pool then holds
  an earlier alarm, the loop schedules the repeated one and, in the same pass, calls its callback
  at once, with the identifier 0, although its time has not come.
\<close>

theorem alarm_called_while_scheduled:
  assumes ok: "pool_ok (alarm_pools w n) t (i # fs)"
    and early: "\<exists>j \<in> set_tree t. entry_target (entries (alarm_pools w n) j) < time"
  shows "\<exists>w1 t'. add_alarm_loop (Suc fuel) run n time callback user_data True True w =
      rbind (run callback 0 user_data w1) (\<lambda>(repeat, w2).
        if repeat = 0 then Inr (0, w2)
        else if sint repeat < 0 then
          add_alarm_loop fuel run n (delayed_by_us time (- repeat)) callback user_data True True w2
        else rbind (get_absolute_time (timer w2)) (\<lambda>(now_us, tm).
          add_alarm_loop fuel run n (delayed_by_us now_us repeat) callback user_data True True (w2\<lparr>timer := tm\<rparr>))) \<and>
    pool_ok (alarm_pools w1 n) t' fs \<and> set_tree t' = insert i (set_tree t) \<and>
    entries (alarm_pools w1 n) i = \<lparr>entry_target = time, entry_callback = callback, entry_user_data = user_data\<rparr> \<and>
    timer w1 = timer w"
proof -
  let ?e = "\<lparr>entry_target = time, entry_callback = callback, entry_user_data = user_data\<rparr>"
  obtain h2 p2 where p2: "p2 = (alarm_pools w n)\<lparr>entries := (entries (alarm_pools w n))(i := ?e), pool_heap := h2\<rparr>"
    "pool_ok p2 (pmerge (timer_pool_entry_comparator p2) t (Node Leaf i Leaf)) fs" "i \<notin> set_tree t" "i \<noteq> 0"
    "add_alarm_under_lock n time callback user_data 0 False True w =
      (if i = root_id h2 then
         rbind (hardware_alarm_set_target read_fuel (hardware_alarm_num (alarm_pools w n)) time (timer w)) (\<lambda>(is_missed, tm).
         rbind (if is_missed \<and> \<not> False
                then rbind (ph_remove_and_free_node (timer_pool_entry_comparator p2) h2 i) (\<lambda>(h3, _). Inr h3) else Inr h2) (\<lambda>h3.
           Inr (i, is_missed, put_pool n (p2\<lparr>pool_heap := h3\<rparr>) (w\<lparr>timer := tm\<rparr>))))
       else Inr (i, True, put_pool n p2 w))"
    by (rule add_alarm_result [OF ok])
  let ?t = "pmerge (timer_pool_entry_comparator p2) t (Node Leaf i Leaf)"
  have root: "is_root t" using ok by (simp add: pool_ok_def ph_inv_def)
  note st = set_insert_alarm [OF root, where i = i]
  have inv: "ph_inv (timer_pool_entry_comparator p2) h2 ?t fs" using p2(1,2) by (simp add: pool_ok_def)
  have "i \<in> set_tree ?t" using set_insert_alarm [OF root] by auto
  then have "?t \<noteq> Leaf" by auto
  then obtain cs where cs: "?t = Node cs (root_id h2) Leaf" using root_cases [OF inv] by blast
  obtain j where j: "j \<in> set_tree t" "entry_target (entries (alarm_pools w n) j) < time" using early by blast
  have "j \<in> set_tree ?t" using st j(1) by simp
  then have js: "j \<in> set_tree (Node cs (root_id h2) Leaf)" by (simp only: cs)
  have "heap_ordered (timer_pool_entry_comparator p2) ?t" using inv by (simp only: ph_inv_def)
  then have "\<not> timer_pool_entry_comparator p2 j (root_id h2)"
    using targets.root_minimal [of p2 cs "root_id h2" j] js unfolding cs by blast
  moreover have "j \<noteq> i" using j(1) p2(3) by blast
  ultimately have ne: "i \<noteq> root_id h2" using j(2) p2(1) by (auto simp: timer_pool_entry_comparator_def)
  have n: "is_node h2 i" using repr_nodes [of h2 0 "root_id h2" ?t i] inv st by (simp add: ph_inv_def)
  have add: "add_alarm_under_lock n time callback user_data 0 False True w = Inr (i, True, put_pool n p2 w)"
    using p2(5) ne by simp
  have "get_entry_id_high (alarm_pools (put_pool n p2 w) n) i = Inr (entry_ids_high (alarm_pools w n) i)"
    using n p2(1) by (simp add: get_entry_id_high_def put_pool_def)
  then show ?thesis using p2 st
    by (intro exI [of _ "put_pool n p2 w"] exI [of _ ?t])
      (simp only: add_alarm_loop.simps add rbind.simps prod.case if_False if_True Let_def simp_thms, simp add: put_pool_def)
qed

lemma public_id_bytes:
  assumes "a < 0x10000"
  shows "make_public_id (ucast (drop_bit 8 a)) (unat (ucast a :: u8)) = a"
proof -
  have "unat a < 2 ^ 16" using assms by (simp add: word_less_nat_alt)
  then have "unat (take_bit 16 a) = unat a" by (simp add: unsigned_take_bit_eq take_bit_nat_eq_self)
  then have "take_bit 16 a = a" by (simp only: word_unat_eq_iff)
  then have hi: "\<not> bit a n" if "16 \<le> n" for n
    using that by (metis bit_take_bit_iff not_le)
  have o: "(of_nat (unat (ucast a :: u8)) :: u32) = ucast (ucast a :: u8)" by simp
  show ?thesis unfolding make_public_id_def o
  proof (rule bit_word_eqI)
    fix n assume "n < LENGTH(32)"
    then show "bit (push_bit 8 (ucast (ucast (drop_bit 8 a) :: u8)) OR ucast (ucast a :: u8) :: u32) n = bit a n"
      using hi by (cases "n < 8"; cases "n < 16") (auto simp: bit_simps)
  qed
qed

text \<open>
  Cancelling an alarm does not change the upper part of the identifiers of its node: a later
  alarm in the same node gets the identifier of the cancelled one again, so a stale identifier
  cancels another's alarm.
\<close>

lemma cancelled_id_reused:
  assumes "alarm_pool_cancel_alarm n alarm_id w = Inr (True, w')" "alarm_id < 0x10000"
  shows "make_public_id (entry_ids_high (alarm_pools w' n) (unat (ucast alarm_id :: u8))) (unat (ucast alarm_id :: u8)) = alarm_id"
proof -
  let ?i = "unat (ucast alarm_id :: u8)"
  have "entry_ids_high (alarm_pools w' n) ?i = ucast (drop_bit 8 alarm_id)"
    using assms(1) by (auto simp: alarm_pool_cancel_alarm_def Let_def rbind_eq_Inr_iff get_entry_id_high_def
        put_pool_def split: if_splits)
  then show ?thesis using public_id_bytes [OF assms(2)] by simp
qed

section \<open>Witnesses\<close>

definition example_pool :: alarm_pool where
  "example_pool =
     \<lparr>pool_heap = \<lparr>nodes = (\<lambda>i. if i = 2 then no_links\<lparr>sibling := 3\<rparr> else no_links), max_nodes = 3, root_id = 1,
        free_head_id = 2, free_tail_id = 3\<rparr>,
      entries = (\<lambda>_. \<lparr>entry_target = 5, entry_callback = 7, entry_user_data = 9\<rparr>), entry_ids_high = (\<lambda>_. 1),
      alarm_in_progress = 0, hardware_alarm_num = 0\<rparr>"

definition example_time_world :: time_world where
  "example_time_world =
     \<lparr>timer = waiting_timer slow_clock 0, alarm_pools = (\<lambda>_. example_pool), pools = (\<lambda>_. Some 0),
      repeating = (\<lambda>_. \<lparr>rt_delay_us = 0, rt_pool = 0, rt_alarm_id = 0, rt_callback = 0, rt_user_data = 0\<rparr>)\<rparr>"

lemma example_pool_ok: "pool_ok (alarm_pools example_time_world 0) (Node Leaf 1 Leaf) [2, 3]"
  by (auto simp: pool_ok_def ph_inv_def example_time_world_def example_pool_def no_links_def is_node_def)

lemma example_time_world_fields:
  "ticking (clock (timer example_time_world))" "pools example_time_world 0 = Some 0"
  "hardware_alarm_num (alarm_pools example_time_world n) = 0"
  "entries (alarm_pools example_time_world n) i = \<lparr>entry_target = 5, entry_callback = 7, entry_user_data = 9\<rparr>"
  by (simp_all add: example_time_world_def example_pool_def waiting_timer_def slow_clock_ticking)

theorem alarm_scheduled_witness:
  "\<exists>i missed w' t' fs'. add_alarm_under_lock 0 50 7 8 0 False False example_time_world = Inr (i, missed, w') \<and>
    pool_ok (alarm_pools w' 0) t' fs' \<and> i = 2"
  using alarm_scheduled [OF example_pool_ok _ example_time_world_fields(1), of 50 7 8 False]
  by (auto simp: example_time_world_fields NUM_TIMERS_def)


theorem alarm_called_while_scheduled_witness:
  "\<exists>w1 t'. add_alarm_loop 1 (\<lambda>_ _ _ w. Inr (0, w)) 0 50 7 8 True True example_time_world = Inr (0, w1) \<and>
    pool_ok (alarm_pools w1 0) t' [3] \<and> set_tree t' = {2, 1} \<and>
    entries (alarm_pools w1 0) 2 = \<lparr>entry_target = 50, entry_callback = 7, entry_user_data = 8\<rparr> \<and>
    timer w1 = timer example_time_world"
  using alarm_called_while_scheduled [OF example_pool_ok, of 50 0 "\<lambda>_ _ _ w. Inr (0, w)" 7 8]
  by (simp add: example_time_world_fields(4) del: add_alarm_loop.simps)

end
