(* ===== verification/Sync.thy ===== *)
theory Sync
  imports Claim Alarms
begin

text \<open>
  Locks, mutexes, semaphores and critical sections (\<open>pico_sync\<close>). A section under a spin lock is
  one step here; \<open>Sync_Steps\<close> splits it up. The waits between two attempts are parameters: \<open>wfe\<close>
  is what the lock has become when the core wakes up, \<open>wait\<close> also tells whether the time is over.
  The assertions of the code are compiled out in a release build and have no effect.
\<close>

unbundle bit_operations_syntax

section \<open>Spin locks and the core of a lock\<close>

type_synonym lock_owner_id = u8

definition LOCK_INVALID_OWNER_ID :: lock_owner_id where "LOCK_INVALID_OWNER_ID = -1"

definition lock_is_owner_id_valid :: "lock_owner_id \<Rightarrow> bool" where
  "lock_is_owner_id_valid i \<longleftrightarrow> sint i \<ge> 0"

definition SPINLOCK0 :: u32 where "SPINLOCK0 = 0xd0000000 + 0x100"

definition spin_lock_instance :: "u32 \<Rightarrow> u32" where
  "spin_lock_instance lock_num = SPINLOCK0 + lock_num * 4"

definition spin_lock_get_num :: "u32 \<Rightarrow> u32" where
  "spin_lock_get_num lock = (lock - SPINLOCK0) div 4"

record lock_core =
  spin_lock :: u32

definition lock_init :: "u32 \<Rightarrow> 'a lock_core_scheme \<Rightarrow> 'a lock_core_scheme" where
  "lock_init lock_num core = core\<lparr>spin_lock := spin_lock_instance lock_num\<rparr>"

section \<open>Mutexes\<close>

record mutex = lock_core +
  owner :: lock_owner_id

record recursive_mutex = mutex +
  enter_count :: u8

definition mutex_init :: "mutex \<Rightarrow> sync_state \<Rightarrow> mutex \<times> sync_state" where
  "mutex_init mtx s =
     (let (n, s1) = next_striped_spin_lock_num s
      in ((lock_init n mtx)\<lparr>owner := LOCK_INVALID_OWNER_ID\<rparr>, s1))"

definition recursive_mutex_init :: "recursive_mutex \<Rightarrow> sync_state \<Rightarrow> recursive_mutex \<times> sync_state" where
  "recursive_mutex_init mtx s =
     (let (n, s1) = next_striped_spin_lock_num s
      in ((lock_init n mtx)\<lparr>owner := LOCK_INVALID_OWNER_ID, enter_count := 0\<rparr>, s1))"

definition mutex_is_initialized :: "'a mutex_scheme \<Rightarrow> bool" where
  "mutex_is_initialized mtx \<longleftrightarrow> spin_lock mtx \<noteq> 0"

text \<open>The sections under the spin lock: the new mutex, or none if the attempt fails.\<close>

definition mutex_take :: "lock_owner_id \<Rightarrow> mutex \<Rightarrow> mutex option" where
  "mutex_take caller mtx = (if \<not> lock_is_owner_id_valid (owner mtx) then Some (mtx\<lparr>owner := caller\<rparr>) else None)"

definition recursive_mutex_take :: "lock_owner_id \<Rightarrow> recursive_mutex \<Rightarrow> recursive_mutex option" where
  "recursive_mutex_take caller mtx =
     (if \<not> lock_is_owner_id_valid (owner mtx) \<or> owner mtx = caller
      then Some (mtx\<lparr>owner := caller, enter_count := enter_count mtx + 1\<rparr>) else None)"

text \<open>The result of an attempt is whether it succeeded, and the owner if it did not.\<close>

definition mutex_try_enter :: "lock_owner_id \<Rightarrow> mutex \<Rightarrow> (bool \<times> u32 option) \<times> mutex" where
  "mutex_try_enter caller mtx =
     (case mutex_take caller mtx of Some m \<Rightarrow> ((True, None), m) | None \<Rightarrow> ((False, Some (scast (owner mtx))), mtx))"

definition recursive_mutex_try_enter ::
    "lock_owner_id \<Rightarrow> recursive_mutex \<Rightarrow> (bool \<times> u32 option) \<times> recursive_mutex" where
  "recursive_mutex_try_enter caller mtx =
     (case recursive_mutex_take caller mtx of
        Some m \<Rightarrow> ((True, None), m) | None \<Rightarrow> ((False, Some (scast (owner mtx))), mtx))"

fun mutex_enter_blocking :: "nat \<Rightarrow> (mutex \<Rightarrow> fault + mutex) \<Rightarrow> lock_owner_id \<Rightarrow> mutex \<Rightarrow> fault + mutex" where
  "mutex_enter_blocking 0 wfe caller mtx = Inl Exhausted"
| "mutex_enter_blocking (Suc fuel) wfe caller mtx =
     (case mutex_take caller mtx of Some m \<Rightarrow> Inr m
      | None \<Rightarrow> rbind (wfe mtx) (mutex_enter_blocking fuel wfe caller))"

fun recursive_mutex_enter_blocking ::
    "nat \<Rightarrow> (recursive_mutex \<Rightarrow> fault + recursive_mutex) \<Rightarrow> lock_owner_id \<Rightarrow> recursive_mutex \<Rightarrow> fault + recursive_mutex" where
  "recursive_mutex_enter_blocking 0 wfe caller mtx = Inl Exhausted"
| "recursive_mutex_enter_blocking (Suc fuel) wfe caller mtx =
     (case recursive_mutex_take caller mtx of Some m \<Rightarrow> Inr m
      | None \<Rightarrow> rbind (wfe mtx) (recursive_mutex_enter_blocking fuel wfe caller))"

text \<open>
  Waiting until a time: \<open>wait\<close> is \<open>best_effort_wfe_or_timeout\<close> together with what others do to the
  lock meanwhile.
\<close>

type_synonym 'm waiting = "absolute_time \<Rightarrow> 'm \<Rightarrow> time_world \<Rightarrow> fault + (bool \<times> 'm \<times> time_world)"

fun mutex_enter_block_until ::
    "nat \<Rightarrow> mutex waiting \<Rightarrow> lock_owner_id \<Rightarrow> absolute_time \<Rightarrow> mutex \<Rightarrow> time_world \<Rightarrow> fault + (bool \<times> mutex \<times> time_world)" where
  "mutex_enter_block_until 0 wait caller until mtx w = Inl Exhausted"
| "mutex_enter_block_until (Suc fuel) wait caller until mtx w =
     (case mutex_take caller mtx of Some m \<Rightarrow> Inr (True, m, w)
      | None \<Rightarrow> rbind (wait until mtx w) (\<lambda>(timed_out, m, w1).
          if timed_out then Inr (False, m, w1) else mutex_enter_block_until fuel wait caller until m w1))"

fun recursive_mutex_enter_block_until ::
    "nat \<Rightarrow> recursive_mutex waiting \<Rightarrow> lock_owner_id \<Rightarrow> absolute_time \<Rightarrow> recursive_mutex \<Rightarrow> time_world \<Rightarrow>
     fault + (bool \<times> recursive_mutex \<times> time_world)" where
  "recursive_mutex_enter_block_until 0 wait caller until mtx w = Inl Exhausted"
| "recursive_mutex_enter_block_until (Suc fuel) wait caller until mtx w =
     (case recursive_mutex_take caller mtx of Some m \<Rightarrow> Inr (True, m, w)
      | None \<Rightarrow> rbind (wait until mtx w) (\<lambda>(timed_out, m, w1).
          if timed_out then Inr (False, m, w1) else recursive_mutex_enter_block_until fuel wait caller until m w1))"

text \<open>The timeouts are 32-bit; in microseconds they are widened.\<close>

definition mutex_enter_timeout_ms ::
    "nat \<Rightarrow> mutex waiting \<Rightarrow> lock_owner_id \<Rightarrow> u32 \<Rightarrow> mutex \<Rightarrow> time_world \<Rightarrow> fault + (bool \<times> mutex \<times> time_world)" where
  "mutex_enter_timeout_ms fuel wait caller timeout_ms mtx w =
     rbind (make_timeout_time_ms timeout_ms (timer w)) (\<lambda>(until, tm).
       mutex_enter_block_until fuel wait caller until mtx (w\<lparr>timer := tm\<rparr>))"

definition mutex_enter_timeout_us ::
    "nat \<Rightarrow> mutex waiting \<Rightarrow> lock_owner_id \<Rightarrow> u32 \<Rightarrow> mutex \<Rightarrow> time_world \<Rightarrow> fault + (bool \<times> mutex \<times> time_world)" where
  "mutex_enter_timeout_us fuel wait caller timeout_us mtx w =
     rbind (make_timeout_time_us (ucast timeout_us) (timer w)) (\<lambda>(until, tm).
       mutex_enter_block_until fuel wait caller until mtx (w\<lparr>timer := tm\<rparr>))"

definition recursive_mutex_enter_timeout_ms ::
    "nat \<Rightarrow> recursive_mutex waiting \<Rightarrow> lock_owner_id \<Rightarrow> u32 \<Rightarrow> recursive_mutex \<Rightarrow> time_world \<Rightarrow>
     fault + (bool \<times> recursive_mutex \<times> time_world)" where
  "recursive_mutex_enter_timeout_ms fuel wait caller timeout_ms mtx w =
     rbind (make_timeout_time_ms timeout_ms (timer w)) (\<lambda>(until, tm).
       recursive_mutex_enter_block_until fuel wait caller until mtx (w\<lparr>timer := tm\<rparr>))"

definition recursive_mutex_enter_timeout_us ::
    "nat \<Rightarrow> recursive_mutex waiting \<Rightarrow> lock_owner_id \<Rightarrow> u32 \<Rightarrow> recursive_mutex \<Rightarrow> time_world \<Rightarrow>
     fault + (bool \<times> recursive_mutex \<times> time_world)" where
  "recursive_mutex_enter_timeout_us fuel wait caller timeout_us mtx w =
     rbind (make_timeout_time_us (ucast timeout_us) (timer w)) (\<lambda>(until, tm).
       recursive_mutex_enter_block_until fuel wait caller until mtx (w\<lparr>timer := tm\<rparr>))"

text \<open>Leaving; the result says whether the waiting cores are notified.\<close>

definition mutex_exit :: "mutex \<Rightarrow> mutex \<times> bool" where
  "mutex_exit mtx = (mtx\<lparr>owner := LOCK_INVALID_OWNER_ID\<rparr>, True)"

definition recursive_mutex_exit :: "recursive_mutex \<Rightarrow> recursive_mutex \<times> bool" where
  "recursive_mutex_exit mtx =
     (let m = mtx\<lparr>enter_count := enter_count mtx - 1\<rparr>
      in if enter_count m = 0 then (m\<lparr>owner := LOCK_INVALID_OWNER_ID\<rparr>, True) else (m, False))"

section \<open>Semaphores\<close>

record semaphore = lock_core +
  permits :: u16
  max_permits :: u16

definition sem_init :: "u16 \<Rightarrow> u16 \<Rightarrow> semaphore \<Rightarrow> sync_state \<Rightarrow> semaphore \<times> sync_state" where
  "sem_init initial_permits max_p sem s =
     (let (n, s1) = next_striped_spin_lock_num s
      in ((lock_init n sem)\<lparr>permits := initial_permits, max_permits := max_p\<rparr>, s1))"

definition sem_available :: "semaphore \<Rightarrow> int" where
  "sem_available sem = sint (permits sem)"

definition sem_take :: "semaphore \<Rightarrow> semaphore option" where
  "sem_take sem = (if sint (permits sem) > 0 then Some (sem\<lparr>permits := permits sem - 1\<rparr>) else None)"

fun sem_acquire_blocking :: "nat \<Rightarrow> (semaphore \<Rightarrow> fault + semaphore) \<Rightarrow> semaphore \<Rightarrow> fault + semaphore" where
  "sem_acquire_blocking 0 wfe sem = Inl Exhausted"
| "sem_acquire_blocking (Suc fuel) wfe sem =
     (case sem_take sem of Some s \<Rightarrow> Inr s | None \<Rightarrow> rbind (wfe sem) (sem_acquire_blocking fuel wfe))"

fun sem_acquire_block_until ::
    "nat \<Rightarrow> semaphore waiting \<Rightarrow> absolute_time \<Rightarrow> semaphore \<Rightarrow> time_world \<Rightarrow> fault + (bool \<times> semaphore \<times> time_world)" where
  "sem_acquire_block_until 0 wait until sem w = Inl Exhausted"
| "sem_acquire_block_until (Suc fuel) wait until sem w =
     (case sem_take sem of Some s \<Rightarrow> Inr (True, s, w)
      | None \<Rightarrow> rbind (wait until sem w) (\<lambda>(timed_out, s, w1).
          if timed_out then Inr (False, s, w1) else sem_acquire_block_until fuel wait until s w1))"

definition sem_acquire_timeout_ms ::
    "nat \<Rightarrow> semaphore waiting \<Rightarrow> u32 \<Rightarrow> semaphore \<Rightarrow> time_world \<Rightarrow> fault + (bool \<times> semaphore \<times> time_world)" where
  "sem_acquire_timeout_ms fuel wait timeout_ms sem w =
     rbind (make_timeout_time_ms timeout_ms (timer w)) (\<lambda>(until, tm).
       sem_acquire_block_until fuel wait until sem (w\<lparr>timer := tm\<rparr>))"

definition sem_acquire_timeout_us ::
    "nat \<Rightarrow> semaphore waiting \<Rightarrow> u32 \<Rightarrow> semaphore \<Rightarrow> time_world \<Rightarrow> fault + (bool \<times> semaphore \<times> time_world)" where
  "sem_acquire_timeout_us fuel wait timeout_us sem w =
     rbind (make_timeout_time_us (ucast timeout_us) (timer w)) (\<lambda>(until, tm).
       sem_acquire_block_until fuel wait until sem (w\<lparr>timer := tm\<rparr>))"

definition sem_try_acquire :: "semaphore \<Rightarrow> semaphore \<times> bool" where
  "sem_try_acquire sem = (case sem_take sem of Some s \<Rightarrow> (s, True) | None \<Rightarrow> (sem, False))"

definition sem_release :: "semaphore \<Rightarrow> semaphore \<times> bool" where
  "sem_release sem =
     (let count = scast (permits sem) :: u32
      in if sint count < sint (max_permits sem) then (sem\<lparr>permits := ucast (count + 1)\<rparr>, True) else (sem, False))"

text \<open>The result says whether the waiting cores are notified.\<close>

definition sem_reset :: "semaphore \<Rightarrow> u16 \<Rightarrow> semaphore \<times> bool" where
  "sem_reset sem n = (sem\<lparr>permits := n\<rparr>, sint n > sint (permits sem))"

section \<open>Critical sections\<close>

record critical_section =
  cs_spin_lock :: u32
  cs_save :: u32

definition critical_section_init_with_lock_num :: "critical_section \<Rightarrow> u32 \<Rightarrow> critical_section" where
  "critical_section_init_with_lock_num cs lock_num = cs\<lparr>cs_spin_lock := spin_lock_instance lock_num\<rparr>"

definition critical_section_init ::
    "critical_section \<Rightarrow> sync_state \<Rightarrow> fault + (critical_section \<times> sync_state)" where
  "critical_section_init cs s =
     rbind (spin_lock_claim_unused True s) (\<lambda>(s1, n).
       Inr (critical_section_init_with_lock_num cs (word_of_int n), s1))"

text \<open>The interrupt mask of the core is the second part of the state.\<close>

definition spin_lock_blocking :: "u32 \<Rightarrow> sync_state \<times> u32 \<Rightarrow> fault + (u32 \<times> sync_state \<times> u32)" where
  "spin_lock_blocking lock = (\<lambda>(s, primask).
     rbind (spin_lock_unsafe_blocking (spin_lock_get_num lock) s) (\<lambda>s1. Inr (primask, s1, 1)))"

definition spin_unlock :: "u32 \<Rightarrow> u32 \<Rightarrow> sync_state \<times> u32 \<Rightarrow> sync_state \<times> u32" where
  "spin_unlock lock saved_irq = (\<lambda>(s, primask). (spin_unlock_unsafe (spin_lock_get_num lock) s, saved_irq))"

definition critical_section_enter_blocking ::
    "critical_section \<Rightarrow> sync_state \<times> u32 \<Rightarrow> fault + (critical_section \<times> sync_state \<times> u32)" where
  "critical_section_enter_blocking cs x =
     rbind (spin_lock_blocking (cs_spin_lock cs) x) (\<lambda>(save, x1). Inr (cs\<lparr>cs_save := save\<rparr>, x1))"

definition critical_section_exit :: "critical_section \<Rightarrow> sync_state \<times> u32 \<Rightarrow> sync_state \<times> u32" where
  "critical_section_exit cs x = spin_unlock (cs_spin_lock cs) (cs_save cs) x"

definition critical_section_deinit :: "critical_section \<Rightarrow> sync_state \<Rightarrow> fault + sync_state" where
  "critical_section_deinit cs s = spin_lock_unclaim (spin_lock_get_num (cs_spin_lock cs)) s"

end
