(* ===== verification/Sync_Facts.thy ===== *)
theory Sync_Facts
  imports Sync
begin

text \<open>
  A semaphore is a counter between zero and its maximum; a recursive mutex counts the nesting of
  its owner, up to 255; a critical section gives the interrupt mask back.
\<close>

section \<open>Semaphores\<close>

datatype sem_op = Acquire | Release | Reset u16

text \<open>The promise: a counter with a bound.\<close>

fun count_op :: "nat \<Rightarrow> sem_op \<Rightarrow> nat \<Rightarrow> nat \<times> bool" where
  "count_op max_n Acquire n = (if n > 0 then (n - 1, True) else (n, False))"
| "count_op max_n Release n = (if n < max_n then (n + 1, True) else (n, False))"
| "count_op max_n (Reset k) n = (unat k, n < unat k)"

fun sem_step :: "sem_op \<Rightarrow> semaphore \<Rightarrow> semaphore \<times> bool" where
  "sem_step Acquire s = sem_try_acquire s"
| "sem_step Release s = sem_release s"
| "sem_step (Reset k) s = sem_reset s k"

text \<open>A run of a machine that answers each operation.\<close>

fun answers :: "('o \<Rightarrow> 's \<Rightarrow> 's \<times> 'r) \<Rightarrow> 'o list \<Rightarrow> 's \<Rightarrow> 's \<times> 'r list" where
  "answers f [] s = (s, [])"
| "answers f (x # xs) s = (let (s1, r) = f x s; (s2, rs) = answers f xs s1 in (s2, r # rs))"

text \<open>Two machines whose states stay related and that answer alike, answer alike along every run.\<close>

fun all_allowed :: "('o \<Rightarrow> 'a \<Rightarrow> bool) \<Rightarrow> ('o \<Rightarrow> 'a \<Rightarrow> 'a \<times> 'r) \<Rightarrow> 'o list \<Rightarrow> 'a \<Rightarrow> bool" where
  "all_allowed allowed g [] a \<longleftrightarrow> True"
| "all_allowed allowed g (x # xs) a \<longleftrightarrow> allowed x a \<and> all_allowed allowed g xs (fst (g x a))"

locale simulation =
  fixes f :: "'o \<Rightarrow> 's \<Rightarrow> 's \<times> 'r" and g :: "'o \<Rightarrow> 'a \<Rightarrow> 'a \<times> 'r"
    and rel :: "'s \<Rightarrow> 'a \<Rightarrow> bool" and allowed :: "'o \<Rightarrow> 'a \<Rightarrow> bool"
  assumes step: "rel s a \<Longrightarrow> allowed x a \<Longrightarrow> rel (fst (f x s)) (fst (g x a)) \<and> snd (f x s) = snd (g x a)"
begin

lemma run:
  "rel s a \<Longrightarrow> all_allowed allowed g xs a \<Longrightarrow>
   rel (fst (answers f xs s)) (fst (answers g xs a)) \<and> snd (answers f xs s) = snd (answers g xs a)"
proof (induction xs arbitrary: s a)
  case (Cons x xs)
  obtain s1 r a1 q where e: "f x s = (s1, r)" "g x a = (a1, q)" by fastforce
  then have "rel s1 a1" "r = q" "all_allowed allowed g xs a1" using step [of s a x] Cons.prems by auto
  with Cons.IH [of s1 a1] e show ?case by (auto split: prod.split)
qed simp

end

lemma sint_small:
  "n < 2 ^ 15 \<Longrightarrow> sint (of_nat n :: u16) = int n" "n < 2 ^ 31 \<Longrightarrow> sint (of_nat n :: u32) = int n"
  by (simp_all add: sint_uint uint_nat unsigned_of_nat take_bit_nat_eq_self signed_take_bit_int_eq_self)

definition sem_rel :: "nat \<Rightarrow> semaphore \<Rightarrow> nat \<Rightarrow> bool" where
  "sem_rel m s n \<longleftrightarrow> n \<le> m \<and> m < 2 ^ 15 \<and> permits s = of_nat n \<and> max_permits s = of_nat m"

definition sem_allowed :: "nat \<Rightarrow> sem_op \<Rightarrow> nat \<Rightarrow> bool" where
  "sem_allowed m x n \<longleftrightarrow> (case x of Reset k \<Rightarrow> unat k \<le> m | _ \<Rightarrow> True)"

lemma sem_release_count:
  assumes "sem_rel m s n"
  shows "sem_release s = (if n < m then (s\<lparr>permits := of_nat (n + 1)\<rparr>, True) else (s, False))"
proof -
  have b: "n < 2 ^ 15" "m < 2 ^ 15" using assms by (simp_all add: sem_rel_def)
  have "(scast (permits s) :: u32) = of_int (sint (permits s))" by simp
  also have "\<dots> = of_nat n" using assms b by (simp add: sem_rel_def sint_small)
  finally have c: "(scast (permits s) :: u32) = of_nat n" .
  have "sint (of_nat n :: u32) = int n" using b by (intro sint_small) simp
  then have "sint (scast (permits s) :: u32) = int n" by (simp only: c)
  moreover have "(ucast (of_nat (n + 1) :: u32) :: u16) = of_nat (n + 1)" using b
    by (simp add: word_unat_eq_iff unsigned_ucast_eq unsigned_of_nat take_bit_nat_eq_self del: of_nat_Suc of_nat_add)
  then have "(ucast ((scast (permits s) :: u32) + 1) :: u16) = of_nat (n + 1)"
    by (simp only: c of_nat_add of_nat_1)
  moreover have "sint (max_permits s) = int m" using assms b by (simp add: sem_rel_def sint_small)
  ultimately show ?thesis by (simp add: sem_release_def Let_def)
qed

interpretation sems: simulation sem_step "count_op m" "sem_rel m" "sem_allowed m" for m
proof
  fix s :: semaphore and n x
  assume r: "sem_rel m s n" and x: "sem_allowed m x n"
  have b: "n < 2 ^ 15" "m < 2 ^ 15" using r by (simp_all add: sem_rel_def)
  show "sem_rel m (fst (sem_step x s)) (fst (count_op m x n)) \<and> snd (sem_step x s) = snd (count_op m x n)"
  proof (cases x)
    case Acquire
    have "sint (permits s) = int n" using r b by (simp add: sem_rel_def sint_small)
    moreover have "permits s - 1 = of_nat (n - 1)" if "0 < n" using r that by (simp add: sem_rel_def of_nat_diff)
    ultimately show ?thesis using r Acquire by (auto simp: sem_rel_def sem_try_acquire_def sem_take_def)
  next
    case Release
    then show ?thesis using r sem_release_count [OF r] by (auto simp: sem_rel_def)
  next
    case (Reset k)
    then have k: "unat k \<le> m" using x by (simp add: sem_allowed_def)
    then have "sint (of_nat (unat k) :: u16) = int (unat k)" using b by (intro sint_small) simp
    then have "sint k > sint (permits s) \<longleftrightarrow> n < unat k"
      using r b by (simp add: sem_rel_def sint_small) (simp only: uint_nat of_nat_less_iff)
    then show ?thesis using r k Reset by (simp add: sem_rel_def sem_reset_def)
  qed
qed

text \<open>
  C26: Along every sequence of attempts to acquire, releases and resets, a semaphore answers as a
  counter that starts with the initial permits and stays between zero and the maximum, and its
  permits are that counter.
\<close>

theorem semaphore_counts:
  assumes "initial \<le> m" "m < 2 ^ 15" "all_allowed (sem_allowed m) (count_op m) ops initial"
    and "sem_init (of_nat initial) (of_nat m) sem0 ss = (s, ss')"
  shows "\<exists>s' n rs. answers sem_step ops s = (s', rs) \<and> answers (count_op m) ops initial = (n, rs) \<and>
    n \<le> m \<and> sem_available s' = int n"
proof -
  obtain s' rs n qs where a: "answers sem_step ops s = (s', rs)" "answers (count_op m) ops initial = (n, qs)"
    by fastforce
  have "sem_rel m s initial"
    using assms(1,2,4) by (auto simp: sem_rel_def sem_init_def lock_init_def Let_def split: prod.splits)
  from sems.run [OF this assms(3)] a have "sem_rel m s' n" "rs = qs" by auto
  then show ?thesis using a by (auto simp: sem_rel_def sem_available_def sint_small)
qed

section \<open>Recursive mutexes\<close>

datatype nest_op = Enter nat | Leave

text \<open>The promise: the core that holds the mutex, and how often it has entered.\<close>

fun nest :: "nest_op \<Rightarrow> nat \<times> nat \<Rightarrow> (nat \<times> nat) \<times> bool" where
  "nest (Enter c) (h, d) = (if d = 0 \<or> h = c then ((c, d + 1), True) else ((h, d), False))"
| "nest Leave (h, d) = ((h, d - 1), d = 1)"

fun nest_step :: "nest_op \<Rightarrow> recursive_mutex \<Rightarrow> recursive_mutex \<times> bool" where
  "nest_step (Enter c) m = (let ((entered, _), m1) = recursive_mutex_try_enter (of_nat c) m in (m1, entered))"
| "nest_step Leave m = recursive_mutex_exit m"

definition nesting :: "recursive_mutex \<Rightarrow> nat \<times> nat \<Rightarrow> bool" where
  "nesting m = (\<lambda>(h, d). h < 2 \<and> d \<le> 255 \<and> enter_count m = of_nat d \<and>
     owner m = (if d = 0 then LOCK_INVALID_OWNER_ID else of_nat h))"

definition nest_allowed :: "nest_op \<Rightarrow> nat \<times> nat \<Rightarrow> bool" where
  "nest_allowed x = (\<lambda>(h, d). case x of Enter c \<Rightarrow> c < 2 \<and> d < 255 | Leave \<Rightarrow> 0 < d)"


lemma valid_owner: "c < 2 \<Longrightarrow> lock_is_owner_id_valid (of_nat c)" "\<not> lock_is_owner_id_valid LOCK_INVALID_OWNER_ID"
  by (auto simp: lock_is_owner_id_valid_def LOCK_INVALID_OWNER_ID_def numeral_2_eq_2 less_Suc_eq)

lemma owner_eq: "c < 2 \<Longrightarrow> h < 2 \<Longrightarrow> (of_nat h :: lock_owner_id) = of_nat c \<longleftrightarrow> h = c"
  by (auto simp: numeral_2_eq_2 less_Suc_eq)

interpretation nests: simulation nest_step nest nesting nest_allowed
proof
  fix m hd x
  assume r: "nesting m hd" and x: "nest_allowed x hd"
  obtain h d where hd: "hd = (h, d)" by fastforce
  show "nesting (fst (nest_step x m)) (fst (nest x hd)) \<and> snd (nest_step x m) = snd (nest x hd)"
  proof (cases x)
    case (Enter c)
    have c: "c < 2" "d < 255" "h < 2" using r x hd Enter by (simp_all add: nesting_def nest_allowed_def)
    have o: "\<not> lock_is_owner_id_valid (owner m) \<or> owner m = of_nat c \<longleftrightarrow> d = 0 \<or> h = c"
      using r hd valid_owner owner_eq [OF c(1,3)] c by (cases "d = 0") (simp_all add: nesting_def)
    show ?thesis
    proof (cases "d = 0 \<or> h = c")
      case True
      then have "nest_step x m = (m\<lparr>owner := of_nat c, enter_count := enter_count m + 1\<rparr>, True)"
        using o by (simp add: Enter recursive_mutex_try_enter_def recursive_mutex_take_def)
      then show ?thesis using r c True by (simp add: Enter hd nesting_def)
    next
      case False
      then have "nest_step x m = (m, False)"
        using o by (simp add: Enter recursive_mutex_try_enter_def recursive_mutex_take_def)
      then show ?thesis using r False by (simp add: Enter hd)
    qed
  next
    case Leave
    then have d: "0 < d" "d \<le> 255" using r x hd by (simp_all add: nesting_def nest_allowed_def)
    then have "(enter_count m - 1 :: u8) = of_nat (d - 1)" using r hd by (simp add: nesting_def of_nat_diff)
    moreover have "(of_nat (d - 1) :: u8) = 0 \<longleftrightarrow> d = 1"
      using d by (cases d) (auto simp: word_unat_eq_iff unsigned_of_nat take_bit_nat_eq_self)
    ultimately show ?thesis using r hd Leave d
      by (auto simp: nesting_def recursive_mutex_exit_def Let_def)
  qed
qed

text \<open>
  C27: Along every sequence of attempts of two cores to enter and of exits of the one inside, nested
  at most 255 deep, a recursive mutex lets in exactly the core that is inside or any if none is,
  and becomes free exactly when as many exits as entries have been made.
\<close>

theorem recursive_mutex_nests:
  assumes "all_allowed nest_allowed nest ops (0, 0)" and "recursive_mutex_init m0 ss = (m, ss')"
  shows "\<exists>m' h d rs. answers nest_step ops m = (m', rs) \<and> answers nest ops (0, 0) = ((h, d), rs) \<and>
    owner m' = (if d = 0 then LOCK_INVALID_OWNER_ID else of_nat h) \<and> unat (enter_count m') = d"
proof -
  obtain m' rs h d qs where a: "answers nest_step ops m = (m', rs)" "answers nest ops (0, 0) = ((h, d), qs)"
    by (metis prod.exhaust)
  have "nesting m (0, 0)"
    using assms(2) by (auto simp: nesting_def recursive_mutex_init_def lock_init_def Let_def split: prod.splits)
  from nests.run [OF this assms(1)] a have "nesting m' (h, d)" "rs = qs" by auto
  then show ?thesis using a by (auto simp: nesting_def unsigned_of_nat take_bit_nat_eq_self)
qed

text \<open>
  The count is a byte that is not checked in a release build: after 257 nested entries a single
  exit frees the mutex.
\<close>

lemma recursive_mutex_overflow:
  "owner (fst (answers nest_step (replicate 257 (Enter 0) @ [Leave])
     \<lparr>spin_lock = 0, owner = LOCK_INVALID_OWNER_ID, enter_count = 0\<rparr>)) = LOCK_INVALID_OWNER_ID"
  by code_simp

section \<open>Critical sections\<close>

lemma spin_lock_num: "n < NUM_SPIN_LOCKS \<Longrightarrow> spin_lock_get_num (spin_lock_instance n) = n"
proof -
  assume "n < NUM_SPIN_LOCKS"
  then have "unat n < 32" by (simp add: NUM_SPIN_LOCKS_def word_less_nat_alt)
  then have "unat (n * 4) = unat n * 4" by (simp add: unat_word_ariths)
  then show ?thesis by (simp add: spin_lock_get_num_def spin_lock_instance_def word_unat_eq_iff unat_div)
qed

text \<open>
  Entering masks the interrupts and takes the lock, which another core then finds taken; leaving
  gives the interrupt mask back and frees the lock.
\<close>

lemma critical_section_restores:
  assumes "n < NUM_SPIN_LOCKS" "cs = critical_section_init_with_lock_num cs0 n" "\<not> lock_taken s n"
  shows "\<exists>cs' s'. critical_section_enter_blocking cs (s, primask) = Inr (cs', s', 1) \<and>
    critical_section_enter_blocking cs (s', primask') = Inl Blocked \<and>
    critical_section_exit cs' (s', 1) = (s, primask)"
  using assms spin_lock_num [OF assms(1)]
  by (simp add: critical_section_enter_blocking_def critical_section_exit_def critical_section_init_with_lock_num_def
      spin_lock_blocking_def spin_lock_unsafe_blocking_def spin_unlock_def spin_unlock_unsafe_def fun_upd_idem)

section \<open>Witnesses\<close>

theorem semaphore_counts_witness:
  "\<exists>s. fst (sem_init 1 2 (\<lparr>spin_lock = 0, permits = 0, max_permits = 0\<rparr>) sync_reset) = s \<and>
     (\<exists>s' n rs. answers sem_step [Acquire, Acquire, Release, Reset 2, Release] s = (s', rs) \<and>
        answers (count_op 2) [Acquire, Acquire, Release, Reset 2, Release] 1 = (n, rs) \<and>
        n \<le> 2 \<and> sem_available s' = int n)"
proof -
  obtain s ss' where s: "sem_init (of_nat 1) (of_nat 2) (\<lparr>spin_lock = 0, permits = 0, max_permits = 0\<rparr>) sync_reset = (s, ss')"
    by fastforce
  have "all_allowed (sem_allowed 2) (count_op 2) [Acquire, Acquire, Release, Reset 2, Release] 1"
    by (simp add: sem_allowed_def)
  from semaphore_counts [OF _ _ this s] s show ?thesis by simp
qed

theorem recursive_mutex_nests_witness:
  "\<exists>m m' h d rs. answers nest_step [Enter 0, Enter 1, Enter 0, Leave, Leave, Enter 1] m = (m', rs) \<and>
     answers nest [Enter 0, Enter 1, Enter 0, Leave, Leave, Enter 1] (0, 0) = ((h, d), rs) \<and>
     owner m' = (if d = 0 then LOCK_INVALID_OWNER_ID else of_nat h) \<and> unat (enter_count m') = d"
proof -
  obtain m ss' where m: "recursive_mutex_init (\<lparr>spin_lock = 0, owner = 0, enter_count = 7\<rparr>) sync_reset = (m, ss')"
    by fastforce
  have "all_allowed nest_allowed nest [Enter 0, Enter 1, Enter 0, Leave, Leave, Enter 1] (0, 0)"
    by (simp add: nest_allowed_def)
  from recursive_mutex_nests [OF this m] show ?thesis by blast
qed

end
