(* ===== verification/Sync_Steps.thy ===== *)
theory Sync_Steps
  imports Sync
begin

text \<open>
  Two cores that enter and leave one mutex, step by step: every access to the spin lock, to the
  owner and to the event register of a core is a step of its own, and the cores interleave in any
  order. Taking and leaving the mutex are the sections of \<open>Sync\<close>. The loop of
  \<open>mutex_enter_blocking\<close> is the cycle Acquiring, Checking, Refused, Sleeping.
\<close>

section \<open>The cores and their steps\<close>

datatype phase =
    Outside | Acquiring | Checking | Entering | Refused | Sleeping | Inside
  | Leaving | Clearing | Releasing | Notifying

record cores =
  phases :: "nat \<Rightarrow> phase"
  holder :: "nat option"
  shared :: mutex
  event :: "nat \<Rightarrow> bool"

definition go :: "nat \<Rightarrow> phase \<Rightarrow> cores \<Rightarrow> cores" where
  "go c p s = s\<lparr>phases := (phases s)(c := p)\<rparr>"

lemma go_simps [simp]:
  "phases (go c p s) d = (if d = c then p else phases s d)" "holder (go c p s) = holder s"
  "shared (go c p s) = shared s" "event (go c p s) = event s"
  by (simp_all add: go_def)

text \<open>
  \<open>spin_lock_blocking\<close> spins until the lock reads as free, so it is a step that waits for that. A
  core that sleeps wakes up when its event register is set, and that clears it; leaving sets the
  registers of both cores, and other events may set them at any time.
\<close>

inductive core_step :: "nat \<Rightarrow> cores \<Rightarrow> cores \<Rightarrow> bool" where
  call_enter: "phases s c = Outside \<Longrightarrow> core_step c s (go c Acquiring s)"
| lock_to_enter: "phases s c = Acquiring \<Longrightarrow> holder s = None \<Longrightarrow>
    core_step c s (go c Checking (s\<lparr>holder := Some c\<rparr>))"
| take: "phases s c = Checking \<Longrightarrow> mutex_take (of_nat c) (shared s) = Some m \<Longrightarrow>
    core_step c s (go c Entering (s\<lparr>shared := m\<rparr>))"
| refuse: "phases s c = Checking \<Longrightarrow> mutex_take (of_nat c) (shared s) = None \<Longrightarrow> core_step c s (go c Refused s)"
| unlock_inside: "phases s c = Entering \<Longrightarrow> core_step c s (go c Inside (s\<lparr>holder := None\<rparr>))"
| unlock_to_sleep: "phases s c = Refused \<Longrightarrow> core_step c s (go c Sleeping (s\<lparr>holder := None\<rparr>))"
| wake: "phases s c = Sleeping \<Longrightarrow> event s c \<Longrightarrow>
    core_step c s (go c Acquiring (s\<lparr>event := (event s)(c := False)\<rparr>))"
| call_exit: "phases s c = Inside \<Longrightarrow> core_step c s (go c Leaving s)"
| lock_to_exit: "phases s c = Leaving \<Longrightarrow> holder s = None \<Longrightarrow>
    core_step c s (go c Clearing (s\<lparr>holder := Some c\<rparr>))"
| clear: "phases s c = Clearing \<Longrightarrow> core_step c s (go c Releasing (s\<lparr>shared := fst (mutex_exit (shared s))\<rparr>))"
| unlock_outside: "phases s c = Releasing \<Longrightarrow> core_step c s (go c Notifying (s\<lparr>holder := None\<rparr>))"
| notify: "phases s c = Notifying \<Longrightarrow> core_step c s (go c Outside (s\<lparr>event := (\<lambda>_. True)\<rparr>))"
| other_event: "core_step c s (s\<lparr>event := (event s)(c := True)\<rparr>)"

inductive_cases core_stepE: "core_step c s s'"

definition start :: "cores \<Rightarrow> bool" where
  "start s \<longleftrightarrow> (\<forall>c. phases s c = Outside) \<and> holder s = None \<and> owner (shared s) = LOCK_INVALID_OWNER_ID"

inductive reachable_cores :: "cores \<Rightarrow> bool" where
  initially: "start s \<Longrightarrow> reachable_cores s"
| later: "reachable_cores s \<Longrightarrow> c < 2 \<Longrightarrow> core_step c s s' \<Longrightarrow> reachable_cores s'"

section \<open>The invariant\<close>

definition locking :: "phase \<Rightarrow> bool" where
  "locking p \<longleftrightarrow> p \<in> {Checking, Entering, Refused, Clearing, Releasing}"

definition owning :: "phase \<Rightarrow> bool" where
  "owning p \<longleftrightarrow> p \<in> {Entering, Inside, Leaving, Clearing}"

lemma phase_simps [simp]:
  "\<not> locking Outside" "\<not> locking Acquiring" "locking Checking" "locking Entering" "locking Refused"
  "\<not> locking Sleeping" "\<not> locking Inside" "\<not> locking Leaving" "locking Clearing" "locking Releasing"
  "\<not> locking Notifying" "\<not> owning Outside" "\<not> owning Acquiring" "\<not> owning Checking" "owning Entering"
  "\<not> owning Refused" "\<not> owning Sleeping" "owning Inside" "owning Leaving" "owning Clearing"
  "\<not> owning Releasing" "\<not> owning Notifying"
  by (simp_all add: locking_def owning_def)

lemma core_ids [simp]:
  "lock_is_owner_id_valid 0" "lock_is_owner_id_valid 1" "\<not> lock_is_owner_id_valid LOCK_INVALID_OWNER_ID"
  "LOCK_INVALID_OWNER_ID \<noteq> 0" "LOCK_INVALID_OWNER_ID \<noteq> 1"
  by (simp_all add: lock_is_owner_id_valid_def LOCK_INVALID_OWNER_ID_def)

text \<open>
  The holder of the spin lock and the owner of the mutex are the core whose phase says so; a core
  that is refused or asleep, and no event pending, has another core before it that will notify it.
\<close>

definition cores_inv :: "cores \<Rightarrow> bool" where
  "cores_inv s \<longleftrightarrow>
     (\<forall>c < 2. holder s = Some c \<longleftrightarrow> locking (phases s c)) \<and> (\<forall>c. holder s = Some c \<longrightarrow> c < 2) \<and>
     (\<forall>c < 2. owner (shared s) = of_nat c \<longleftrightarrow> owning (phases s c)) \<and>
     owner (shared s) \<in> {0, 1, LOCK_INVALID_OWNER_ID} \<and>
     (\<forall>c < 2. phases s c \<in> {Refused, Sleeping} \<and> \<not> event s c \<longrightarrow>
        owning (phases s (1 - c)) \<or> phases s (1 - c) \<in> {Releasing, Notifying})"

lemma less_2: "(\<forall>c < 2. P c) \<longleftrightarrow> P 0 \<and> P (1 :: nat)"
  by (auto simp: numeral_2_eq_2 less_Suc_eq)

lemma core_step_inv:
  assumes "core_step c s s'" "cores_inv s" "c < 2"
  shows "cores_inv s'"
proof -
  have "c = 0 \<or> c = 1" using assms(3) by linarith
  with assms(1) show ?thesis
  proof (cases rule: core_step.cases)
    case take
    with assms(2) \<open>c = 0 \<or> c = 1\<close> show ?thesis
      by (elim disjE) (auto simp: cores_inv_def less_2 mutex_take_def split: if_splits)
  next
    case refuse
    with assms(2) \<open>c = 0 \<or> c = 1\<close> show ?thesis
      by (elim disjE) (auto simp: cores_inv_def less_2 mutex_take_def split: if_splits)
  qed (use assms(2) in \<open>(elim disjE; auto simp: cores_inv_def less_2 mutex_exit_def)+\<close>)
qed

lemma reachable_inv: "reachable_cores s \<Longrightarrow> cores_inv s"
proof (induction rule: reachable_cores.induct)
  case (initially s)
  then show ?case by (simp add: start_def cores_inv_def less_2)
next
  case (later s c s')
  then show ?case using core_step_inv by blast
qed

text \<open>
  C24: Two cores that enter and leave a mutex in any interleaving are never inside together, and
  the owner recorded in the mutex is the core that is inside.
\<close>

theorem mutual_exclusion:
  assumes "reachable_cores s"
  shows "\<not> (phases s 0 = Inside \<and> phases s 1 = Inside) \<and>
    (\<forall>c < 2. phases s c = Inside \<longrightarrow> owner (shared s) = of_nat c)"
proof -
  note inv = reachable_inv [OF assms]
  have "owner (shared s) = of_nat c" if "c < 2" "phases s c = Inside" for c
    using inv that unfolding cores_inv_def by (metis phase_simps(18))
  from this [of 0] this [of 1] show ?thesis by (auto simp: less_2)
qed

section \<open>Nobody sleeps for ever\<close>

text \<open>What is left to do until the notification.\<close>

fun to_notify :: "phase \<Rightarrow> nat" where
  "to_notify Notifying = 1"
| "to_notify Releasing = 2"
| "to_notify Clearing = 3"
| "to_notify Leaving = 4"
| "to_notify Inside = 5"
| "to_notify Entering = 6"
| "to_notify _ = 0"

text \<open>One step of a core on its way out while the other one sleeps.\<close>

lemma notify_in:
  assumes inv: "cores_inv s" and c: "c < 2" "phases s c = Sleeping" and n: "to_notify (phases s (1 - c)) = Suc n"
  obtains s' where "core_step (1 - c) s s'" "cores_inv s'" "to_notify (phases s' (1 - c)) = n" "phases s' c = Sleeping"
    and "n = 0 \<longrightarrow> event s' c"
proof -
  let ?d = "1 - c"
  have d: "?d < 2" "?d \<noteq> c" "c \<noteq> ?d" using c(1) by arith+
  note step = that [OF _ core_step_inv [OF _ inv d(1)]]
  show ?thesis
  proof (cases "phases s ?d")
    case Entering
    from step [OF unlock_inside unlock_inside, OF this this] show ?thesis using n c(2) d Entering by auto
  next
    case Inside
    from step [OF call_exit call_exit, OF this this] show ?thesis using n c(2) d Inside by auto
  next
    case Leaving
    have "holder s \<noteq> Some e" if e: "e < 2" for e
    proof -
      have "holder s = Some e \<longleftrightarrow> locking (phases s e)" using inv e by (simp add: cores_inv_def)
      moreover have "e = c \<or> e = ?d" using e c(1) by arith
      ultimately show ?thesis using c(2) Leaving by auto
    qed
    moreover have "holder s = None \<or> (\<exists>e < 2. holder s = Some e)"
      using inv unfolding cores_inv_def by (cases "holder s") blast+
    ultimately have "holder s = None" by blast
    from step [OF lock_to_exit lock_to_exit, OF Leaving this Leaving this] show ?thesis
      using n c(2) d Leaving by auto
  next
    case Clearing
    from step [OF clear clear, OF this this] show ?thesis using n c(2) d Clearing by auto
  next
    case Releasing
    from step [OF unlock_outside unlock_outside, OF this this] show ?thesis using n c(2) d Releasing by auto
  next
    case Notifying
    from step [OF notify notify, OF this this] show ?thesis using n c(2) d Notifying by auto
  qed (use n in auto)
qed

lemma notified:
  "cores_inv s \<Longrightarrow> c < 2 \<Longrightarrow> phases s c = Sleeping \<Longrightarrow> to_notify (phases s (1 - c)) = Suc n \<Longrightarrow>
   \<exists>s'. (core_step (1 - c) ^^ Suc n) s s' \<and> phases s' c = Sleeping \<and> event s' c"
proof (induction n arbitrary: s)
  case 0
  from notify_in [OF 0] obtain s' where "core_step (1 - c) s s'" "phases s' c = Sleeping" "event s' c" by blast
  then show ?case by auto
next
  case (Suc n)
  from notify_in [OF Suc.prems] obtain s1 where s1: "core_step (1 - c) s s1" "cores_inv s1"
    "to_notify (phases s1 (1 - c)) = Suc n" "phases s1 c = Sleeping" by blast
  from Suc.IH [OF s1(2) Suc.prems(2) s1(4,3)] s1(1) show ?case by (blast intro: relpowp_Suc_I2)
qed

text \<open>
  C25: No wake-up is lost: if a core sleeps for the mutex and its event register is clear, the other
  core is inside or on its way in or out, and at most six steps of that core alone, none of which is ever
  blocked, set the register of the sleeper.
\<close>

theorem sleeper_woken:
  assumes "reachable_cores s" "c < 2" "phases s c = Sleeping" "\<not> event s c"
  shows "(phases s (1 - c) \<in> {Entering, Inside, Leaving, Clearing, Releasing, Notifying}) \<and>
    (\<exists>n \<le> 6. \<exists>s'. (core_step (1 - c) ^^ n) s s' \<and> phases s' c = Sleeping \<and> event s' c)"
proof -
  note inv = reachable_inv [OF assms(1)]
  have p: "phases s (1 - c) \<in> {Entering, Inside, Leaving, Clearing, Releasing, Notifying}"
    using inv assms(2-4) unfolding cores_inv_def owning_def by blast
  then obtain n where "to_notify (phases s (1 - c)) = Suc n" "Suc n \<le> 6" by auto
  from notified [OF inv assms(2,3) this(1)] this(2) p show ?thesis by blast
qed

section \<open>Witnesses\<close>

definition example_cores :: cores where
  "example_cores = \<lparr>phases = (\<lambda>_. Outside), holder = None,
     shared = \<lparr>spin_lock = spin_lock_instance 16, owner = LOCK_INVALID_OWNER_ID\<rparr>, event = (\<lambda>_. False)\<rparr>"

text \<open>Core 0 enters, core 1 is refused and goes to sleep.\<close>

lemma example_run:
  "\<exists>s. reachable_cores s \<and> phases s 0 = Inside \<and> phases s 1 = Sleeping \<and> \<not> event s 1"
proof -
  define m where "m = (shared example_cores)\<lparr>owner := 0\<rparr>"
  define s2 where "s2 = go 0 Checking ((go 0 Acquiring example_cores)\<lparr>holder := Some 0\<rparr>)"
  define s4 where "s4 = go 0 Inside ((go 0 Entering (s2\<lparr>shared := m\<rparr>))\<lparr>holder := None\<rparr>)"
  define s6 where "s6 = go 1 Checking ((go 1 Acquiring s4)\<lparr>holder := Some 1\<rparr>)"
  define s8 where "s8 = go 1 Sleeping ((go 1 Refused s6)\<lparr>holder := None\<rparr>)"
  have t: "mutex_take (of_nat 0) (shared s2) = Some m" "mutex_take (of_nat 1) (shared s6) = None"
    by (simp_all add: mutex_take_def s2_def s4_def s6_def m_def example_cores_def)
  have "reachable_cores example_cores" by (rule initially) (simp add: start_def example_cores_def)
  then have "reachable_cores (go 0 Acquiring example_cores)"
    by (rule later [OF _ _ call_enter]) (simp_all add: example_cores_def)
  then have "reachable_cores s2"
    unfolding s2_def by (rule later [OF _ _ lock_to_enter]) (simp_all add: example_cores_def)
  then have "reachable_cores (go 0 Entering (s2\<lparr>shared := m\<rparr>))"
    by (rule later [OF _ _ take [OF _ t(1)]]) (simp_all add: s2_def)
  then have "reachable_cores s4"
    unfolding s4_def by (rule later [OF _ _ unlock_inside]) simp_all
  then have "reachable_cores (go 1 Acquiring s4)"
    by (rule later [OF _ _ call_enter]) (simp_all add: s4_def s2_def example_cores_def)
  then have "reachable_cores s6"
    unfolding s6_def by (rule later [OF _ _ lock_to_enter]) (simp_all add: s4_def)
  then have "reachable_cores (go 1 Refused s6)"
    by (rule later [OF _ _ refuse [OF _ t(2)]]) (simp_all add: s6_def)
  then have "reachable_cores s8"
    unfolding s8_def by (rule later [OF _ _ unlock_to_sleep]) simp_all
  then show ?thesis
    by (intro exI [of _ s8]) (simp add: s8_def s6_def s4_def s2_def example_cores_def)
qed

theorem mutual_exclusion_witness:
  "\<exists>s :: cores. phases s 0 = Inside \<and> phases s 1 \<noteq> Inside \<and> owner (shared s) = 0"
proof -
  obtain s where s: "reachable_cores s" "phases s 0 = Inside" using example_run by blast
  from mutual_exclusion [OF s(1)] s(2) show ?thesis by (intro exI [of _ s]) (simp add: less_2)
qed

theorem sleeper_woken_witness:
  "\<exists>s :: cores. phases s 0 = Inside \<and> (\<exists>n \<le> 6. \<exists>s'. (core_step 0 ^^ n) s s' \<and> phases s' 1 = Sleeping \<and> event s' 1)"
proof -
  obtain s where s: "reachable_cores s" "phases s 0 = Inside" "phases s 1 = Sleeping" "\<not> event s 1"
    using example_run by blast
  have "(1 :: nat) < 2" by simp
  from sleeper_woken [OF s(1) this s(3,4)] s(2) show ?thesis by auto
qed

end
