(* ===== verification/Pio_Instructions.thy ===== *)
theory Pio_Instructions
  imports Registers
begin

text \<open>
  The encoders of PIO instructions (\<open>hardware/pio_instructions.h\<close>) in a release build, where the
  marks of invalid operands are zero.
\<close>

unbundle bit_operations_syntax

datatype pio_instr_bits =
    pio_instr_bits_jmp | pio_instr_bits_wait | pio_instr_bits_in | pio_instr_bits_out | pio_instr_bits_push
  | pio_instr_bits_pull | pio_instr_bits_mov | pio_instr_bits_irq | pio_instr_bits_set

fun instr_bits :: "pio_instr_bits \<Rightarrow> u32" where
  "instr_bits pio_instr_bits_jmp = 0x0000"
| "instr_bits pio_instr_bits_wait = 0x2000"
| "instr_bits pio_instr_bits_in = 0x4000"
| "instr_bits pio_instr_bits_out = 0x6000"
| "instr_bits pio_instr_bits_push = 0x8000"
| "instr_bits pio_instr_bits_pull = 0x8080"
| "instr_bits pio_instr_bits_mov = 0xa000"
| "instr_bits pio_instr_bits_irq = 0xc000"
| "instr_bits pio_instr_bits_set = 0xe000"

datatype pio_src_dest =
    pio_pins | pio_x | pio_y | pio_null | pio_pindirs | pio_exec_mov | pio_status | pio_pc | pio_isr
  | pio_osr | pio_exec_out

fun src_dest :: "pio_src_dest \<Rightarrow> u32" where
  "src_dest pio_pins = 0"
| "src_dest pio_x = 1"
| "src_dest pio_y = 2"
| "src_dest pio_null = 3"
| "src_dest pio_pindirs = 4"
| "src_dest pio_exec_mov = 4"
| "src_dest pio_status = 5"
| "src_dest pio_pc = 5"
| "src_dest pio_isr = 6"
| "src_dest pio_osr = 7"
| "src_dest pio_exec_out = 7"

definition pio_major_instr_bits :: "u32 \<Rightarrow> u32" where
  "pio_major_instr_bits instr = instr AND 0xe000"

definition pio_encode_instr_and_args :: "pio_instr_bits \<Rightarrow> u32 \<Rightarrow> u32 \<Rightarrow> u32" where
  "pio_encode_instr_and_args b arg1 arg2 = instr_bits b OR push_bit 5 arg1 OR (arg2 AND 0x1f)"

definition pio_encode_instr_and_src_dest :: "pio_instr_bits \<Rightarrow> pio_src_dest \<Rightarrow> u32 \<Rightarrow> u32" where
  "pio_encode_instr_and_src_dest b dest v = pio_encode_instr_and_args b (src_dest dest AND 7) v"

definition pio_encode_delay :: "u32 \<Rightarrow> u32" where
  "pio_encode_delay cycles = push_bit 8 cycles"

text \<open>The shift is undefined when the count exceeds 13, or 12 with the optional bit.\<close>

definition pio_encode_sideset :: "u32 \<Rightarrow> u32 \<Rightarrow> fault + u32" where
  "pio_encode_sideset sideset_bit_count v =
     (if 13 - sideset_bit_count < 32 then Inr (push_bit (unat (13 - sideset_bit_count)) v) else Inl BadShift)"

definition pio_encode_sideset_opt :: "u32 \<Rightarrow> u32 \<Rightarrow> fault + u32" where
  "pio_encode_sideset_opt sideset_bit_count v =
     (if 12 - sideset_bit_count < 32
      then Inr (0x1000 OR push_bit (unat (12 - sideset_bit_count)) v) else Inl BadShift)"

definition pio_encode_jmp :: "u32 \<Rightarrow> u32" where
  "pio_encode_jmp addr = pio_encode_instr_and_args pio_instr_bits_jmp 0 addr"

definition pio_encode_jmp_not_x :: "u32 \<Rightarrow> u32" where
  "pio_encode_jmp_not_x addr = pio_encode_instr_and_args pio_instr_bits_jmp 1 addr"

definition pio_encode_jmp_x_dec :: "u32 \<Rightarrow> u32" where
  "pio_encode_jmp_x_dec addr = pio_encode_instr_and_args pio_instr_bits_jmp 2 addr"

definition pio_encode_jmp_not_y :: "u32 \<Rightarrow> u32" where
  "pio_encode_jmp_not_y addr = pio_encode_instr_and_args pio_instr_bits_jmp 3 addr"

definition pio_encode_jmp_y_dec :: "u32 \<Rightarrow> u32" where
  "pio_encode_jmp_y_dec addr = pio_encode_instr_and_args pio_instr_bits_jmp 4 addr"

definition pio_encode_jmp_x_ne_y :: "u32 \<Rightarrow> u32" where
  "pio_encode_jmp_x_ne_y addr = pio_encode_instr_and_args pio_instr_bits_jmp 5 addr"

definition pio_encode_jmp_pin :: "u32 \<Rightarrow> u32" where
  "pio_encode_jmp_pin addr = pio_encode_instr_and_args pio_instr_bits_jmp 6 addr"

definition pio_encode_jmp_not_osre :: "u32 \<Rightarrow> u32" where
  "pio_encode_jmp_not_osre addr = pio_encode_instr_and_args pio_instr_bits_jmp 7 addr"

definition pio_encode_irq :: "bool \<Rightarrow> u32 \<Rightarrow> u32" where
  "pio_encode_irq relative irq = (if relative then 0x10 else 0x0) OR irq"

definition pio_encode_wait_gpio :: "bool \<Rightarrow> u32 \<Rightarrow> u32" where
  "pio_encode_wait_gpio polarity gpio =
     pio_encode_instr_and_args pio_instr_bits_wait (0 OR (if polarity then 4 else 0)) gpio"

definition pio_encode_wait_pin :: "bool \<Rightarrow> u32 \<Rightarrow> u32" where
  "pio_encode_wait_pin polarity pin =
     pio_encode_instr_and_args pio_instr_bits_wait (1 OR (if polarity then 4 else 0)) pin"

definition pio_encode_wait_irq :: "bool \<Rightarrow> bool \<Rightarrow> u32 \<Rightarrow> u32" where
  "pio_encode_wait_irq polarity relative irq =
     pio_encode_instr_and_args pio_instr_bits_wait (2 OR (if polarity then 4 else 0)) (pio_encode_irq relative irq)"

definition pio_encode_in :: "pio_src_dest \<Rightarrow> u32 \<Rightarrow> u32" where
  "pio_encode_in src count = pio_encode_instr_and_src_dest pio_instr_bits_in src count"

definition pio_encode_out :: "pio_src_dest \<Rightarrow> u32 \<Rightarrow> u32" where
  "pio_encode_out dest count = pio_encode_instr_and_src_dest pio_instr_bits_out dest count"

definition pio_encode_push :: "bool \<Rightarrow> bool \<Rightarrow> u32" where
  "pio_encode_push if_full block =
     pio_encode_instr_and_args pio_instr_bits_push ((if if_full then 2 else 0) OR (if block then 1 else 0)) 0"

definition pio_encode_pull :: "bool \<Rightarrow> bool \<Rightarrow> u32" where
  "pio_encode_pull if_empty block =
     pio_encode_instr_and_args pio_instr_bits_pull ((if if_empty then 2 else 0) OR (if block then 1 else 0)) 0"

definition pio_encode_mov :: "pio_src_dest \<Rightarrow> pio_src_dest \<Rightarrow> u32" where
  "pio_encode_mov dest src = pio_encode_instr_and_src_dest pio_instr_bits_mov dest (src_dest src AND 7)"

definition pio_encode_mov_not :: "pio_src_dest \<Rightarrow> pio_src_dest \<Rightarrow> u32" where
  "pio_encode_mov_not dest src =
     pio_encode_instr_and_src_dest pio_instr_bits_mov dest (push_bit 3 1 OR (src_dest src AND 7))"

definition pio_encode_mov_reverse :: "pio_src_dest \<Rightarrow> pio_src_dest \<Rightarrow> u32" where
  "pio_encode_mov_reverse dest src =
     pio_encode_instr_and_src_dest pio_instr_bits_mov dest (push_bit 3 2 OR (src_dest src AND 7))"

definition pio_encode_irq_set :: "bool \<Rightarrow> u32 \<Rightarrow> u32" where
  "pio_encode_irq_set relative irq = pio_encode_instr_and_args pio_instr_bits_irq 0 (pio_encode_irq relative irq)"

definition pio_encode_irq_wait :: "bool \<Rightarrow> u32 \<Rightarrow> u32" where
  "pio_encode_irq_wait relative irq = pio_encode_instr_and_args pio_instr_bits_irq 1 (pio_encode_irq relative irq)"

definition pio_encode_irq_clear :: "bool \<Rightarrow> u32 \<Rightarrow> u32" where
  "pio_encode_irq_clear relative irq = pio_encode_instr_and_args pio_instr_bits_irq 2 (pio_encode_irq relative irq)"

definition pio_encode_set :: "pio_src_dest \<Rightarrow> u32 \<Rightarrow> u32" where
  "pio_encode_set dest v = pio_encode_instr_and_src_dest pio_instr_bits_set dest v"

definition pio_encode_nop :: u32 where
  "pio_encode_nop = pio_encode_mov pio_y pio_y"

end
