(* ===== verification/Pio.thy ===== *)
theory Pio
  imports Pio_Instructions Claim Gpio Floats
begin

text \<open>
  The PIO driver (\<open>hardware_pio/pio.c\<close>, \<open>hardware/pio.h\<close>): claims of state machines, loading programs
  into the instruction memory, configuration, FIFOs and forced execution. \<open>pio_hw\<close> holds the
  registers of one block; \<open>execs\<close> logs what state machines were made to execute, each with the
  pin control register it had then. What the device does while the code polls is the argument \<open>dev\<close>.
\<close>

unbundle bit_operations_syntax

section \<open>Registers\<close>

record pio_sm_hw =
  sm_clkdiv :: u32
  sm_execctrl :: u32
  sm_shiftctrl :: u32
  sm_addr :: u32
  sm_instr :: u32
  sm_pinctrl :: u32

record pio_hw =
  pio_ctrl :: u32
  fstat :: u32
  fdebug :: u32
  flevel :: u32
  txf :: "nat \<Rightarrow> u32"
  rxf :: "nat \<Rightarrow> u32"
  pio_irq :: u32
  instr_mem :: "u32 list"
  sms :: "nat \<Rightarrow> pio_sm_hw"
  inte0 :: u32
  inte1 :: u32
  execs :: "(nat \<times> u32 \<times> u32) list"

record pio_sm_config =
  c_clkdiv :: u32
  c_execctrl :: u32
  c_shiftctrl :: u32
  c_pinctrl :: u32

definition NUM_PIO_STATE_MACHINES :: u32 where "NUM_PIO_STATE_MACHINES = 4"
definition PIO_INSTRUCTION_COUNT :: nat where "PIO_INSTRUCTION_COUNT = 32"

definition on_sm :: "nat \<Rightarrow> (pio_sm_hw \<Rightarrow> pio_sm_hw) \<Rightarrow> pio_hw \<Rightarrow> pio_hw" where
  "on_sm sm f p = p\<lparr>sms := (sms p)(sm := f (sms p sm))\<rparr>"

section \<open>Configurations of state machines\<close>

definition set_out_pins_bits :: "u32 \<Rightarrow> u32 \<Rightarrow> u32 \<Rightarrow> u32" where
  "set_out_pins_bits out_base out_count r =
     (r AND NOT (0x0000001f OR 0x03f00000)) OR push_bit 0 out_base OR push_bit 20 out_count"

definition set_set_pins_bits :: "u32 \<Rightarrow> u32 \<Rightarrow> u32 \<Rightarrow> u32" where
  "set_set_pins_bits set_base set_count r =
     (r AND NOT (0x000003e0 OR 0x1c000000)) OR push_bit 5 set_base OR push_bit 26 set_count"

definition set_in_pins_bits :: "u32 \<Rightarrow> u32 \<Rightarrow> u32" where
  "set_in_pins_bits in_base r = (r AND NOT 0x000f8000) OR push_bit 15 in_base"

definition set_sideset_pins_bits :: "u32 \<Rightarrow> u32 \<Rightarrow> u32" where
  "set_sideset_pins_bits sideset_base r = (r AND NOT 0x00007c00) OR push_bit 10 sideset_base"

definition set_wrap_bits :: "u32 \<Rightarrow> u32 \<Rightarrow> u32 \<Rightarrow> u32" where
  "set_wrap_bits wrap_target wrap r =
     (r AND NOT (0x0001f000 OR 0x00000f80)) OR push_bit 7 wrap_target OR push_bit 12 wrap"

definition clkdiv_bits :: "u16 \<Rightarrow> u8 \<Rightarrow> u32" where
  "clkdiv_bits div_int div_frac = push_bit 8 (ucast div_frac) OR push_bit 16 (ucast div_int)"

definition sm_config_set_out_pins :: "u32 \<Rightarrow> u32 \<Rightarrow> pio_sm_config \<Rightarrow> pio_sm_config" where
  "sm_config_set_out_pins out_base out_count c =
     c\<lparr>c_pinctrl := set_out_pins_bits out_base out_count (c_pinctrl c)\<rparr>"

definition sm_config_set_set_pins :: "u32 \<Rightarrow> u32 \<Rightarrow> pio_sm_config \<Rightarrow> pio_sm_config" where
  "sm_config_set_set_pins set_base set_count c =
     c\<lparr>c_pinctrl := set_set_pins_bits set_base set_count (c_pinctrl c)\<rparr>"

definition sm_config_set_in_pins :: "u32 \<Rightarrow> pio_sm_config \<Rightarrow> pio_sm_config" where
  "sm_config_set_in_pins in_base c = c\<lparr>c_pinctrl := set_in_pins_bits in_base (c_pinctrl c)\<rparr>"

definition sm_config_set_sideset_pins :: "u32 \<Rightarrow> pio_sm_config \<Rightarrow> pio_sm_config" where
  "sm_config_set_sideset_pins sideset_base c = c\<lparr>c_pinctrl := set_sideset_pins_bits sideset_base (c_pinctrl c)\<rparr>"

definition sm_config_set_sideset :: "u32 \<Rightarrow> bool \<Rightarrow> bool \<Rightarrow> pio_sm_config \<Rightarrow> pio_sm_config" where
  "sm_config_set_sideset bit_count optional pindirs c =
     c\<lparr>c_pinctrl := (c_pinctrl c AND NOT 0xe0000000) OR push_bit 29 bit_count,
       c_execctrl := (c_execctrl c AND NOT (0x40000000 OR 0x20000000)) OR
         push_bit 30 (bool_to_bit optional) OR push_bit 29 (bool_to_bit pindirs)\<rparr>"

definition sm_config_set_clkdiv_int_frac :: "u16 \<Rightarrow> u8 \<Rightarrow> pio_sm_config \<Rightarrow> pio_sm_config" where
  "sm_config_set_clkdiv_int_frac div_int div_frac c = c\<lparr>c_clkdiv := clkdiv_bits div_int div_frac\<rparr>"

text \<open>Converting a divisor of 65536, which the parameter check admits, to 16 bits is undefined.\<close>

definition pio_calculate_clkdiv_from_float :: "fp \<Rightarrow> fault + (u16 \<times> u8)" where
  "pio_calculate_clkdiv_from_float d =
     rbind (fp_to_int 0 (2 ^ 16 - 1) d) (\<lambda>i.
       if i = 0 then Inr (0, 0)
       else rbind (fp_to_int 0 (2 ^ 8 - 1) (fp_mul Binary32 (fp_sub Binary32 d (fp_of_int Binary32 i)) (fp_of_int Binary32 256)))
              (\<lambda>f. Inr (word_of_int i, word_of_int f)))"

definition sm_config_set_clkdiv :: "fp \<Rightarrow> pio_sm_config \<Rightarrow> fault + pio_sm_config" where
  "sm_config_set_clkdiv d c =
     rbind (pio_calculate_clkdiv_from_float d) (\<lambda>(i, f). Inr (sm_config_set_clkdiv_int_frac i f c))"

definition sm_config_set_wrap :: "u32 \<Rightarrow> u32 \<Rightarrow> pio_sm_config \<Rightarrow> pio_sm_config" where
  "sm_config_set_wrap wrap_target wrap c = c\<lparr>c_execctrl := set_wrap_bits wrap_target wrap (c_execctrl c)\<rparr>"

definition sm_config_set_jmp_pin :: "u32 \<Rightarrow> pio_sm_config \<Rightarrow> pio_sm_config" where
  "sm_config_set_jmp_pin pin c = c\<lparr>c_execctrl := (c_execctrl c AND NOT 0x1f000000) OR push_bit 24 pin\<rparr>"

definition sm_config_set_in_shift :: "bool \<Rightarrow> bool \<Rightarrow> u32 \<Rightarrow> pio_sm_config \<Rightarrow> pio_sm_config" where
  "sm_config_set_in_shift shift_right autopush push_threshold c =
     c\<lparr>c_shiftctrl := (c_shiftctrl c AND NOT (0x00040000 OR 0x00010000 OR 0x01f00000)) OR
         push_bit 18 (bool_to_bit shift_right) OR push_bit 16 (bool_to_bit autopush) OR
         push_bit 20 (push_threshold AND 0x1f)\<rparr>"

definition sm_config_set_out_shift :: "bool \<Rightarrow> bool \<Rightarrow> u32 \<Rightarrow> pio_sm_config \<Rightarrow> pio_sm_config" where
  "sm_config_set_out_shift shift_right autopull pull_threshold c =
     c\<lparr>c_shiftctrl := (c_shiftctrl c AND NOT (0x00080000 OR 0x00020000 OR 0x3e000000)) OR
         push_bit 19 (bool_to_bit shift_right) OR push_bit 17 (bool_to_bit autopull) OR
         push_bit 25 (pull_threshold AND 0x1f)\<rparr>"

datatype pio_fifo_join = PIO_FIFO_JOIN_NONE | PIO_FIFO_JOIN_TX | PIO_FIFO_JOIN_RX

fun fifo_join_value :: "pio_fifo_join \<Rightarrow> u32" where
  "fifo_join_value PIO_FIFO_JOIN_NONE = 0"
| "fifo_join_value PIO_FIFO_JOIN_TX = 1"
| "fifo_join_value PIO_FIFO_JOIN_RX = 2"

definition sm_config_set_fifo_join :: "pio_fifo_join \<Rightarrow> pio_sm_config \<Rightarrow> pio_sm_config" where
  "sm_config_set_fifo_join join c =
     c\<lparr>c_shiftctrl := (c_shiftctrl c AND NOT (0x40000000 OR 0x80000000)) OR push_bit 30 (fifo_join_value join)\<rparr>"

definition sm_config_set_out_special :: "bool \<Rightarrow> bool \<Rightarrow> u32 \<Rightarrow> pio_sm_config \<Rightarrow> pio_sm_config" where
  "sm_config_set_out_special sticky has_enable_pin enable_pin_index c =
     c\<lparr>c_execctrl := (c_execctrl c AND NOT (0x00020000 OR 0x00040000 OR 0x00f80000)) OR
         push_bit 17 (bool_to_bit sticky) OR push_bit 18 (bool_to_bit has_enable_pin) OR
         (push_bit 19 enable_pin_index AND 0x00f80000)\<rparr>"

datatype pio_mov_status_type = STATUS_TX_LESSTHAN | STATUS_RX_LESSTHAN

definition sm_config_set_mov_status :: "pio_mov_status_type \<Rightarrow> u32 \<Rightarrow> pio_sm_config \<Rightarrow> pio_sm_config" where
  "sm_config_set_mov_status status_sel status_n c =
     c\<lparr>c_execctrl := (c_execctrl c AND NOT (0x00000010 OR 0x0000000f)) OR
         (push_bit 4 (bool_to_bit (status_sel = STATUS_RX_LESSTHAN)) AND 0x00000010) OR
         (push_bit 0 status_n AND 0x0000000f)\<rparr>"

definition pio_get_default_sm_config :: pio_sm_config where
  "pio_get_default_sm_config =
     sm_config_set_out_shift True False 32 (sm_config_set_in_shift True False 32
       (sm_config_set_wrap 0 31 (sm_config_set_clkdiv_int_frac 1 0
         \<lparr>c_clkdiv = 0, c_execctrl = 0, c_shiftctrl = 0, c_pinctrl = 0\<rparr>)))"

definition pio_sm_set_config :: "nat \<Rightarrow> pio_sm_config \<Rightarrow> pio_hw \<Rightarrow> pio_hw" where
  "pio_sm_set_config sm c =
     on_sm sm (\<lambda>s. s\<lparr>sm_clkdiv := c_clkdiv c, sm_execctrl := c_execctrl c, sm_shiftctrl := c_shiftctrl c,
       sm_pinctrl := c_pinctrl c\<rparr>)"

definition pio_gpio_init :: "nat \<Rightarrow> nat \<Rightarrow> gpio_hw \<Rightarrow> gpio_hw" where
  "pio_gpio_init which pin g = gpio_set_function pin (if which = 0 then GPIO_FUNC_PIO0 else GPIO_FUNC_PIO1) g"

definition pio_get_dreq :: "nat \<Rightarrow> u32 \<Rightarrow> bool \<Rightarrow> u32" where
  "pio_get_dreq which sm is_tx = sm + (if is_tx then 0 else NUM_PIO_STATE_MACHINES) + (if which = 0 then 0 else 8)"

section \<open>Control\<close>

definition pio_sm_set_enabled :: "nat \<Rightarrow> bool \<Rightarrow> pio_hw \<Rightarrow> pio_hw" where
  "pio_sm_set_enabled sm enabled p =
     p\<lparr>pio_ctrl := (pio_ctrl p AND NOT (push_bit sm 1)) OR push_bit sm (bool_to_bit enabled)\<rparr>"

definition pio_set_sm_mask_enabled :: "u32 \<Rightarrow> bool \<Rightarrow> pio_hw \<Rightarrow> pio_hw" where
  "pio_set_sm_mask_enabled msk enabled p =
     p\<lparr>pio_ctrl := (pio_ctrl p AND NOT msk) OR (if enabled then msk else 0)\<rparr>"

definition pio_sm_restart :: "nat \<Rightarrow> pio_hw \<Rightarrow> pio_hw" where
  "pio_sm_restart sm p = p\<lparr>pio_ctrl := pio_ctrl p OR push_bit (4 + sm) 1\<rparr>"

definition pio_restart_sm_mask :: "u32 \<Rightarrow> pio_hw \<Rightarrow> pio_hw" where
  "pio_restart_sm_mask msk p = p\<lparr>pio_ctrl := pio_ctrl p OR (push_bit 4 msk AND 0x000000f0)\<rparr>"

definition pio_sm_clkdiv_restart :: "nat \<Rightarrow> pio_hw \<Rightarrow> pio_hw" where
  "pio_sm_clkdiv_restart sm p = p\<lparr>pio_ctrl := pio_ctrl p OR push_bit (8 + sm) 1\<rparr>"

definition pio_clkdiv_restart_sm_mask :: "u32 \<Rightarrow> pio_hw \<Rightarrow> pio_hw" where
  "pio_clkdiv_restart_sm_mask msk p = p\<lparr>pio_ctrl := pio_ctrl p OR (push_bit 8 msk AND 0x00000f00)\<rparr>"

definition pio_enable_sm_mask_in_sync :: "u32 \<Rightarrow> pio_hw \<Rightarrow> pio_hw" where
  "pio_enable_sm_mask_in_sync msk p =
     p\<lparr>pio_ctrl := pio_ctrl p OR ((push_bit 8 msk AND 0x00000f00) OR (push_bit 0 msk AND 0x0000000f))\<rparr>"

section \<open>Interrupts\<close>

datatype pio_interrupt_source =
    pis_interrupt0 | pis_interrupt1 | pis_interrupt2 | pis_interrupt3
  | pis_sm0_tx_fifo_not_full | pis_sm1_tx_fifo_not_full | pis_sm2_tx_fifo_not_full | pis_sm3_tx_fifo_not_full
  | pis_sm0_rx_fifo_not_empty | pis_sm1_rx_fifo_not_empty | pis_sm2_rx_fifo_not_empty | pis_sm3_rx_fifo_not_empty

fun source_lsb :: "pio_interrupt_source \<Rightarrow> nat" where
  "source_lsb pis_interrupt0 = 8" | "source_lsb pis_interrupt1 = 9"
| "source_lsb pis_interrupt2 = 10" | "source_lsb pis_interrupt3 = 11"
| "source_lsb pis_sm0_tx_fifo_not_full = 4" | "source_lsb pis_sm1_tx_fifo_not_full = 5"
| "source_lsb pis_sm2_tx_fifo_not_full = 6" | "source_lsb pis_sm3_tx_fifo_not_full = 7"
| "source_lsb pis_sm0_rx_fifo_not_empty = 0" | "source_lsb pis_sm1_rx_fifo_not_empty = 1"
| "source_lsb pis_sm2_rx_fifo_not_empty = 2" | "source_lsb pis_sm3_rx_fifo_not_empty = 3"

definition pio_set_irq0_source_mask_enabled :: "u32 \<Rightarrow> bool \<Rightarrow> pio_hw \<Rightarrow> pio_hw" where
  "pio_set_irq0_source_mask_enabled source_mask enabled p =
     p\<lparr>inte0 := (if enabled then hw_set_bits (inte0 p) source_mask else hw_clear_bits (inte0 p) source_mask)\<rparr>"

definition pio_set_irq1_source_mask_enabled :: "u32 \<Rightarrow> bool \<Rightarrow> pio_hw \<Rightarrow> pio_hw" where
  "pio_set_irq1_source_mask_enabled source_mask enabled p =
     p\<lparr>inte1 := (if enabled then hw_set_bits (inte1 p) source_mask else hw_clear_bits (inte1 p) source_mask)\<rparr>"

definition pio_set_irq0_source_enabled :: "pio_interrupt_source \<Rightarrow> bool \<Rightarrow> pio_hw \<Rightarrow> pio_hw" where
  "pio_set_irq0_source_enabled source enabled p =
     (if enabled then p\<lparr>inte0 := hw_set_bits (inte0 p) (push_bit (source_lsb source) 1)\<rparr>
      else p\<lparr>inte0 := hw_clear_bits (inte0 p) (push_bit (source_lsb source) 1)\<rparr>)"

definition pio_set_irq1_source_enabled :: "pio_interrupt_source \<Rightarrow> bool \<Rightarrow> pio_hw \<Rightarrow> pio_hw" where
  "pio_set_irq1_source_enabled source enabled p =
     (if enabled then p\<lparr>inte1 := hw_set_bits (inte1 p) (push_bit (source_lsb source) 1)\<rparr>
      else p\<lparr>inte1 := hw_clear_bits (inte1 p) (push_bit (source_lsb source) 1)\<rparr>)"

definition pio_set_irqn_source_enabled :: "nat \<Rightarrow> pio_interrupt_source \<Rightarrow> bool \<Rightarrow> pio_hw \<Rightarrow> pio_hw" where
  "pio_set_irqn_source_enabled irq_index source enabled =
     (if irq_index \<noteq> 0 then pio_set_irq1_source_enabled source enabled else pio_set_irq0_source_enabled source enabled)"

definition pio_set_irqn_source_mask_enabled :: "nat \<Rightarrow> u32 \<Rightarrow> bool \<Rightarrow> pio_hw \<Rightarrow> pio_hw" where
  "pio_set_irqn_source_mask_enabled irq_index source_mask enabled =
     (if irq_index \<noteq> 0 then pio_set_irq1_source_mask_enabled source_mask enabled
      else pio_set_irq0_source_mask_enabled source_mask enabled)"

definition pio_interrupt_get :: "nat \<Rightarrow> pio_hw \<Rightarrow> bool" where
  "pio_interrupt_get n p \<longleftrightarrow> pio_irq p AND push_bit n 1 \<noteq> 0"

text \<open>The flags are cleared by writing ones; \<open>hw_set_bits\<close> writes only the one that is to go.\<close>

definition pio_interrupt_clear :: "nat \<Rightarrow> pio_hw \<Rightarrow> pio_hw" where
  "pio_interrupt_clear n p = p\<lparr>pio_irq := pio_irq p AND NOT (push_bit n 1)\<rparr>"

section \<open>Execution\<close>

definition pio_sm_get_pc :: "nat \<Rightarrow> pio_hw \<Rightarrow> u8" where
  "pio_sm_get_pc sm p = ucast (sm_addr (sms p sm))"

definition pio_sm_exec :: "nat \<Rightarrow> u32 \<Rightarrow> pio_hw \<Rightarrow> pio_hw" where
  "pio_sm_exec sm instr p =
     (on_sm sm (\<lambda>s. s\<lparr>sm_instr := instr\<rparr>) p)\<lparr>execs := execs p @ [(sm, sm_pinctrl (sms p sm), instr)]\<rparr>"

definition pio_sm_is_exec_stalled :: "nat \<Rightarrow> pio_hw \<Rightarrow> bool" where
  "pio_sm_is_exec_stalled sm p \<longleftrightarrow> sm_execctrl (sms p sm) AND 0x80000000 \<noteq> 0"

fun stall_loop :: "nat \<Rightarrow> (pio_hw \<Rightarrow> pio_hw) \<Rightarrow> nat \<Rightarrow> pio_hw \<Rightarrow> fault + pio_hw" where
  "stall_loop 0 dev sm p = Inl Exhausted"
| "stall_loop (Suc fuel) dev sm p = (if pio_sm_is_exec_stalled sm p then stall_loop fuel dev sm (dev p) else Inr p)"

definition pio_sm_exec_wait_blocking :: "nat \<Rightarrow> (pio_hw \<Rightarrow> pio_hw) \<Rightarrow> nat \<Rightarrow> u32 \<Rightarrow> pio_hw \<Rightarrow> fault + pio_hw" where
  "pio_sm_exec_wait_blocking fuel dev sm instr p = stall_loop fuel dev sm (dev (pio_sm_exec sm instr p))"

definition pio_sm_set_wrap :: "nat \<Rightarrow> u32 \<Rightarrow> u32 \<Rightarrow> pio_hw \<Rightarrow> pio_hw" where
  "pio_sm_set_wrap sm wrap_target wrap = on_sm sm (\<lambda>s. s\<lparr>sm_execctrl := set_wrap_bits wrap_target wrap (sm_execctrl s)\<rparr>)"

definition pio_sm_set_out_pins :: "nat \<Rightarrow> u32 \<Rightarrow> u32 \<Rightarrow> pio_hw \<Rightarrow> pio_hw" where
  "pio_sm_set_out_pins sm out_base out_count =
     on_sm sm (\<lambda>s. s\<lparr>sm_pinctrl := set_out_pins_bits out_base out_count (sm_pinctrl s)\<rparr>)"

definition pio_sm_set_set_pins :: "nat \<Rightarrow> u32 \<Rightarrow> u32 \<Rightarrow> pio_hw \<Rightarrow> pio_hw" where
  "pio_sm_set_set_pins sm set_base set_count =
     on_sm sm (\<lambda>s. s\<lparr>sm_pinctrl := set_set_pins_bits set_base set_count (sm_pinctrl s)\<rparr>)"

definition pio_sm_set_in_pins :: "nat \<Rightarrow> u32 \<Rightarrow> pio_hw \<Rightarrow> pio_hw" where
  "pio_sm_set_in_pins sm in_base = on_sm sm (\<lambda>s. s\<lparr>sm_pinctrl := set_in_pins_bits in_base (sm_pinctrl s)\<rparr>)"

definition pio_sm_set_sideset_pins :: "nat \<Rightarrow> u32 \<Rightarrow> pio_hw \<Rightarrow> pio_hw" where
  "pio_sm_set_sideset_pins sm sideset_base =
     on_sm sm (\<lambda>s. s\<lparr>sm_pinctrl := set_sideset_pins_bits sideset_base (sm_pinctrl s)\<rparr>)"

definition pio_sm_set_clkdiv_int_frac :: "nat \<Rightarrow> u16 \<Rightarrow> u8 \<Rightarrow> pio_hw \<Rightarrow> pio_hw" where
  "pio_sm_set_clkdiv_int_frac sm div_int div_frac = on_sm sm (\<lambda>s. s\<lparr>sm_clkdiv := clkdiv_bits div_int div_frac\<rparr>)"

definition pio_sm_set_clkdiv :: "nat \<Rightarrow> fp \<Rightarrow> pio_hw \<Rightarrow> fault + pio_hw" where
  "pio_sm_set_clkdiv sm d p =
     rbind (pio_calculate_clkdiv_from_float d) (\<lambda>(i, f). Inr (pio_sm_set_clkdiv_int_frac sm i f p))"

section \<open>FIFOs\<close>

definition pio_sm_put :: "nat \<Rightarrow> u32 \<Rightarrow> pio_hw \<Rightarrow> pio_hw" where
  "pio_sm_put sm d p = p\<lparr>txf := (txf p)(sm := d)\<rparr>"

definition pio_sm_get :: "nat \<Rightarrow> pio_hw \<Rightarrow> u32" where
  "pio_sm_get sm p = rxf p sm"

definition pio_sm_is_rx_fifo_full :: "nat \<Rightarrow> pio_hw \<Rightarrow> bool" where
  "pio_sm_is_rx_fifo_full sm p \<longleftrightarrow> fstat p AND push_bit (0 + sm) 1 \<noteq> 0"

definition pio_sm_is_rx_fifo_empty :: "nat \<Rightarrow> pio_hw \<Rightarrow> bool" where
  "pio_sm_is_rx_fifo_empty sm p \<longleftrightarrow> fstat p AND push_bit (8 + sm) 1 \<noteq> 0"

definition pio_sm_is_tx_fifo_full :: "nat \<Rightarrow> pio_hw \<Rightarrow> bool" where
  "pio_sm_is_tx_fifo_full sm p \<longleftrightarrow> fstat p AND push_bit (16 + sm) 1 \<noteq> 0"

definition pio_sm_is_tx_fifo_empty :: "nat \<Rightarrow> pio_hw \<Rightarrow> bool" where
  "pio_sm_is_tx_fifo_empty sm p \<longleftrightarrow> fstat p AND push_bit (24 + sm) 1 \<noteq> 0"

definition pio_sm_get_rx_fifo_level :: "nat \<Rightarrow> pio_hw \<Rightarrow> u32" where
  "pio_sm_get_rx_fifo_level sm p = (let bitoffs = 4 + sm * (12 - 4) in drop_bit bitoffs (flevel p) AND drop_bit 4 0xf0)"

definition pio_sm_get_tx_fifo_level :: "nat \<Rightarrow> pio_hw \<Rightarrow> u32" where
  "pio_sm_get_tx_fifo_level sm p = (let bitoffs = 0 + sm * (8 - 0) in drop_bit bitoffs (flevel p) AND drop_bit 0 0x0f)"

fun pio_sm_put_blocking :: "nat \<Rightarrow> (pio_hw \<Rightarrow> pio_hw) \<Rightarrow> nat \<Rightarrow> u32 \<Rightarrow> pio_hw \<Rightarrow> fault + pio_hw" where
  "pio_sm_put_blocking 0 dev sm d p = Inl Exhausted"
| "pio_sm_put_blocking (Suc fuel) dev sm d p =
     (if pio_sm_is_tx_fifo_full sm p then pio_sm_put_blocking fuel dev sm d (dev p) else Inr (pio_sm_put sm d p))"

fun pio_sm_get_blocking :: "nat \<Rightarrow> (pio_hw \<Rightarrow> pio_hw) \<Rightarrow> nat \<Rightarrow> pio_hw \<Rightarrow> fault + (u32 \<times> pio_hw)" where
  "pio_sm_get_blocking 0 dev sm p = Inl Exhausted"
| "pio_sm_get_blocking (Suc fuel) dev sm p =
     (if pio_sm_is_rx_fifo_empty sm p then pio_sm_get_blocking fuel dev sm (dev p) else Inr (pio_sm_get sm p, p))"

definition pio_sm_clear_fifos :: "nat \<Rightarrow> pio_hw \<Rightarrow> pio_hw" where
  "pio_sm_clear_fifos sm p =
     on_sm sm (\<lambda>s. s\<lparr>sm_shiftctrl := hw_xor_bits (sm_shiftctrl s) 0x80000000\<rparr>)
       (on_sm sm (\<lambda>s. s\<lparr>sm_shiftctrl := hw_xor_bits (sm_shiftctrl s) 0x80000000\<rparr>) p)"

fun drain_loop :: "nat \<Rightarrow> (pio_hw \<Rightarrow> pio_hw) \<Rightarrow> nat \<Rightarrow> u32 \<Rightarrow> pio_hw \<Rightarrow> fault + pio_hw" where
  "drain_loop 0 dev sm instr p = Inl Exhausted"
| "drain_loop (Suc fuel) dev sm instr p =
     (if \<not> pio_sm_is_tx_fifo_empty sm p then drain_loop fuel dev sm instr (dev (pio_sm_exec sm instr p)) else Inr p)"

definition pio_sm_drain_tx_fifo :: "nat \<Rightarrow> (pio_hw \<Rightarrow> pio_hw) \<Rightarrow> nat \<Rightarrow> pio_hw \<Rightarrow> fault + pio_hw" where
  "pio_sm_drain_tx_fifo fuel dev sm p =
     (let instr = (if sm_shiftctrl (sms p sm) AND 0x00020000 \<noteq> 0 then pio_encode_out pio_null 32
                   else pio_encode_pull False False)
      in drain_loop fuel dev sm instr p)"

end
