(* ===== verification/Pio_Programs.thy ===== *)
theory Pio_Programs
  imports Pio
begin

text \<open>
  The operations of the PIO driver (\<open>hardware_pio/pio.c\<close>): claims, the instruction memory shared by
  the programs of a block, setting pins by forced execution, initialisation. \<open>which\<close> is the index of
  the block. A shift by 32 or more, as for a program of 32 instructions, is undefined.
\<close>

unbundle bit_operations_syntax

record pio_program =
  instructions :: "u16 list"
  prog_length :: u8
  origin :: u8

record pio_state =
  blocks :: "nat \<Rightarrow> pio_hw"
  sm_claims :: "u8 list"
  used_instruction_space :: "nat \<Rightarrow> u32"

definition on_block :: "nat \<Rightarrow> (pio_hw \<Rightarrow> pio_hw) \<Rightarrow> pio_state \<Rightarrow> pio_state" where
  "on_block which f s = s\<lparr>blocks := (blocks s)(which := f (blocks s which))\<rparr>"

section \<open>Claims\<close>

definition pio_sm_claim :: "nat \<Rightarrow> u32 \<Rightarrow> pio_state \<Rightarrow> fault + pio_state" where
  "pio_sm_claim which sm s =
     rbind (if which \<noteq> 0 then hw_claim_or_assert (sm_claims s) (NUM_PIO_STATE_MACHINES + sm)
            else hw_claim_or_assert (sm_claims s) sm) (\<lambda>bits. Inr (s\<lparr>sm_claims := bits\<rparr>))"

fun claim_sm_mask_loop :: "nat \<Rightarrow> nat \<Rightarrow> u32 \<Rightarrow> u32 \<Rightarrow> pio_state \<Rightarrow> fault + pio_state" where
  "claim_sm_mask_loop 0 which i sm_mask s = Inl Exhausted"
| "claim_sm_mask_loop (Suc fuel) which i sm_mask s =
     (if sm_mask = 0 then Inr s
      else rbind (if sm_mask AND 1 \<noteq> 0 then pio_sm_claim which i s else Inr s)
             (claim_sm_mask_loop fuel which (i + 1) (drop_bit 1 sm_mask)))"

definition pio_claim_sm_mask :: "nat \<Rightarrow> u32 \<Rightarrow> pio_state \<Rightarrow> fault + pio_state" where
  "pio_claim_sm_mask which sm_mask s = claim_sm_mask_loop 33 which 0 sm_mask s"

definition pio_sm_unclaim :: "nat \<Rightarrow> u32 \<Rightarrow> pio_state \<Rightarrow> fault + pio_state" where
  "pio_sm_unclaim which sm s =
     rbind (hw_claim_clear (sm_claims s) (of_nat which * NUM_PIO_STATE_MACHINES + sm))
       (\<lambda>bits. Inr (s\<lparr>sm_claims := bits\<rparr>))"

definition pio_claim_unused_sm :: "nat \<Rightarrow> bool \<Rightarrow> pio_state \<Rightarrow> fault + (pio_state \<times> int)" where
  "pio_claim_unused_sm which required s =
     (let base = of_nat which * NUM_PIO_STATE_MACHINES
      in rbind (hw_claim_unused_from_range (sm_claims s) required base (base + NUM_PIO_STATE_MACHINES - 1))
           (\<lambda>(bits, index). Inr (s\<lparr>sm_claims := bits\<rparr>, if index \<ge> sint base then index - sint base else -1)))"

definition pio_sm_is_claimed :: "nat \<Rightarrow> u32 \<Rightarrow> pio_state \<Rightarrow> fault + bool" where
  "pio_sm_is_claimed which sm s = hw_is_claimed (sm_claims s) (of_nat which * NUM_PIO_STATE_MACHINES + sm)"

section \<open>Instruction memory\<close>

definition shl32 :: "u32 \<Rightarrow> nat \<Rightarrow> fault + u32" where
  "shl32 x n = (if n < 32 then Inr (push_bit n x) else Inl BadShift)"

definition program_mask :: "pio_program \<Rightarrow> fault + u32" where
  "program_mask program = rbind (shl32 1 (unat (prog_length program))) (\<lambda>x. Inr (x - 1))"

fun find_down :: "u32 \<Rightarrow> u32 \<Rightarrow> nat \<Rightarrow> fault + int" where
  "find_down used_mask pm 0 = rbind (shl32 pm 0) (\<lambda>x. Inr (if used_mask AND x = 0 then 0 else -1))"
| "find_down used_mask pm (Suc i) =
     rbind (shl32 pm (Suc i)) (\<lambda>x. if used_mask AND x = 0 then Inr (int (Suc i)) else find_down used_mask pm i)"

definition pio_find_offset_for_program :: "nat \<Rightarrow> pio_program \<Rightarrow> pio_state \<Rightarrow> fault + int" where
  "pio_find_offset_for_program which program s =
     (let used_mask = used_instruction_space s which
      in rbind (program_mask program) (\<lambda>pm.
         if sint (origin program) \<ge> 0 then
           if sint (origin program) > 32 - uint (prog_length program) then Inr (-1)
           else rbind (shl32 pm (unat (origin program)))
                  (\<lambda>x. Inr (if used_mask AND x \<noteq> 0 then -1 else sint (origin program)))
         else if uint (prog_length program) > 32 then Inr (-1)
         else find_down used_mask pm (32 - unat (prog_length program))))"

definition pio_can_add_program :: "nat \<Rightarrow> pio_program \<Rightarrow> pio_state \<Rightarrow> fault + bool" where
  "pio_can_add_program which program s =
     rbind (pio_find_offset_for_program which program s) (\<lambda>offset. Inr (-1 \<noteq> offset))"

definition pio_can_add_program_at_offset :: "nat \<Rightarrow> pio_program \<Rightarrow> u32 \<Rightarrow> pio_state \<Rightarrow> fault + bool" where
  "pio_can_add_program_at_offset which program offset s =
     (if sint (origin program) \<ge> 0 \<and> scast (origin program) \<noteq> offset then Inr False
      else
        let used_mask = used_instruction_space s which
        in rbind (program_mask program) (\<lambda>pm.
           rbind (shl32 pm (unat offset)) (\<lambda>x. Inr (used_mask AND x = 0))))"

text \<open>A jump is relocated; what is written past the end of the memory is a fault.\<close>

definition relocate :: "u32 \<Rightarrow> u16 \<Rightarrow> u32" where
  "relocate offset instr =
     (if instr_bits pio_instr_bits_jmp \<noteq> pio_major_instr_bits (ucast instr) then ucast instr else ucast instr + offset)"

fun load_loop :: "pio_program \<Rightarrow> u32 \<Rightarrow> nat \<Rightarrow> nat \<Rightarrow> u32 list \<Rightarrow> fault + u32 list" where
  "load_loop program offset i 0 mem = Inr mem"
| "load_loop program offset i (Suc n) mem =
     (if length (instructions program) \<le> i then Inl OutOfBounds
      else
        let j = unat (offset + of_nat i)
        in if length mem \<le> j then Inl BufferOverflow
           else load_loop program offset (Suc i) n (mem[j := relocate offset (instructions program ! i)]))"

definition pio_add_program_at_offset :: "nat \<Rightarrow> pio_program \<Rightarrow> u32 \<Rightarrow> pio_state \<Rightarrow> fault + pio_state" where
  "pio_add_program_at_offset which program offset s =
     rbind (pio_can_add_program_at_offset which program offset s) (\<lambda>can.
       if \<not> can then Inl Panic
       else
         rbind (load_loop program offset 0 (unat (prog_length program)) (instr_mem (blocks s which))) (\<lambda>mem.
         rbind (program_mask program) (\<lambda>pm.
         rbind (shl32 pm (unat offset)) (\<lambda>x.
           Inr ((on_block which (\<lambda>p. p\<lparr>instr_mem := mem\<rparr>) s)
             \<lparr>used_instruction_space := (used_instruction_space s)(which := used_instruction_space s which OR x)\<rparr>)))))"

definition pio_add_program :: "nat \<Rightarrow> pio_program \<Rightarrow> pio_state \<Rightarrow> fault + (pio_state \<times> u32)" where
  "pio_add_program which program s =
     rbind (pio_find_offset_for_program which program s) (\<lambda>offset.
       if offset < 0 then Inl Panic
       else rbind (pio_add_program_at_offset which program (word_of_int offset) s) (\<lambda>s1.
              Inr (s1, word_of_int offset)))"

definition pio_remove_program :: "nat \<Rightarrow> pio_program \<Rightarrow> u32 \<Rightarrow> pio_state \<Rightarrow> fault + pio_state" where
  "pio_remove_program which program loaded_offset s =
     rbind (program_mask program) (\<lambda>pm.
     rbind (shl32 pm (unat loaded_offset)) (\<lambda>x.
       Inr (s\<lparr>used_instruction_space :=
              (used_instruction_space s)(which := used_instruction_space s which AND NOT x)\<rparr>)))"

definition pio_clear_instruction_memory :: "nat \<Rightarrow> pio_state \<Rightarrow> pio_state" where
  "pio_clear_instruction_memory which s =
     (on_block which (\<lambda>p. p\<lparr>instr_mem := map (\<lambda>i. pio_encode_jmp (of_nat i)) [0 ..< PIO_INSTRUCTION_COUNT]\<rparr>) s)
       \<lparr>used_instruction_space := (used_instruction_space s)(which := 0)\<rparr>"

section \<open>Setting pins by forced execution\<close>

definition set_pinctrl :: "nat \<Rightarrow> u32 \<Rightarrow> pio_hw \<Rightarrow> pio_hw" where
  "set_pinctrl sm v = on_sm sm (\<lambda>s. s\<lparr>sm_pinctrl := v\<rparr>)"

function set_pins_loop :: "nat \<Rightarrow> nat \<Rightarrow> nat \<Rightarrow> u32 \<Rightarrow> pio_hw \<Rightarrow> pio_hw" where
  "set_pins_loop sm remaining base pins p =
     (if remaining = 0 then p
      else
        let decrement = (if remaining > 5 then 5 else remaining)
        in set_pins_loop sm (remaining - decrement) (base + decrement) (drop_bit 5 pins)
             (pio_sm_exec sm (pio_encode_set pio_pins (pins AND 0x1f))
               (set_pinctrl sm (push_bit 26 (of_nat decrement) OR push_bit 5 (of_nat base)) p)))"
  by pat_completeness auto
termination by (relation "measure (\<lambda>(sm, remaining, base, pins, p). remaining)") auto

definition pio_sm_set_pins :: "nat \<Rightarrow> u32 \<Rightarrow> pio_hw \<Rightarrow> pio_hw" where
  "pio_sm_set_pins sm pins p =
     (let pinctrl_saved = sm_pinctrl (sms p sm) in set_pinctrl sm pinctrl_saved (set_pins_loop sm 32 0 pins p))"

text \<open>The lowest set bit; the builtin is undefined for zero, where the loops do not call it.\<close>

definition builtin_ctz :: "u32 \<Rightarrow> nat" where
  "builtin_ctz x = length (takeWhile (\<lambda>n. \<not> bit x n) [0 ..< 32])"

lemma clear_lowest_less: "m \<noteq> 0 \<Longrightarrow> unat (m AND (m - 1)) < unat (m :: u32)"
proof -
  assume "m \<noteq> 0"
  then have "unat (m - 1) = unat m - 1" "0 < unat m" by (simp_all add: unat_minus_one unat_gt_0)
  moreover have "m AND (m - 1) \<le> m - 1" by (rule word_and_le1)
  ultimately show ?thesis by (simp add: word_le_nat_alt)
qed

function with_mask_loop :: "pio_src_dest \<Rightarrow> nat \<Rightarrow> u32 \<Rightarrow> u32 \<Rightarrow> pio_hw \<Rightarrow> pio_hw" where
  "with_mask_loop dest sm pinvals pin_mask p =
     (if pin_mask = 0 then p
      else
        let base = builtin_ctz pin_mask
        in with_mask_loop dest sm pinvals (pin_mask AND (pin_mask - 1))
             (pio_sm_exec sm (pio_encode_set dest (drop_bit base pinvals AND 1))
               (set_pinctrl sm (push_bit 26 1 OR push_bit 5 (of_nat base)) p)))"
  by pat_completeness auto
termination
  by (relation "measure (\<lambda>(dest, sm, pinvals, pin_mask, p). unat pin_mask)") (auto intro: clear_lowest_less)

definition pio_sm_set_pins_with_mask :: "nat \<Rightarrow> u32 \<Rightarrow> u32 \<Rightarrow> pio_hw \<Rightarrow> pio_hw" where
  "pio_sm_set_pins_with_mask sm pinvals pin_mask p =
     set_pinctrl sm (sm_pinctrl (sms p sm)) (with_mask_loop pio_pins sm pinvals pin_mask p)"

definition pio_sm_set_pindirs_with_mask :: "nat \<Rightarrow> u32 \<Rightarrow> u32 \<Rightarrow> pio_hw \<Rightarrow> pio_hw" where
  "pio_sm_set_pindirs_with_mask sm pindirs pin_mask p =
     set_pinctrl sm (sm_pinctrl (sms p sm)) (with_mask_loop pio_pindirs sm pindirs pin_mask p)"

function consecutive_loop :: "nat \<Rightarrow> u32 \<Rightarrow> nat \<Rightarrow> u32 \<Rightarrow> pio_hw \<Rightarrow> nat \<times> u32 \<times> pio_hw" where
  "consecutive_loop sm pin count pindir_val p =
     (if count > 5 then
        consecutive_loop sm ((pin + 5) AND 0x1f) (count - 5) pindir_val
          (pio_sm_exec sm (pio_encode_set pio_pindirs pindir_val) (set_pinctrl sm (push_bit 26 5 OR push_bit 5 pin) p))
      else (count, pin, p))"
  by pat_completeness auto
termination by (relation "measure (\<lambda>(sm, pin, count, pindir_val, p). count)") auto

definition pio_sm_set_consecutive_pindirs :: "nat \<Rightarrow> u32 \<Rightarrow> u32 \<Rightarrow> bool \<Rightarrow> pio_hw \<Rightarrow> pio_hw" where
  "pio_sm_set_consecutive_pindirs sm pin count is_out p =
     (let pinctrl_saved = sm_pinctrl (sms p sm);
          pindir_val = (if is_out then 0x1f else 0);
          (count1, pin1, p1) = consecutive_loop sm pin (unat count) pindir_val p
      in set_pinctrl sm pinctrl_saved
           (pio_sm_exec sm (pio_encode_set pio_pindirs pindir_val)
             (set_pinctrl sm (push_bit 26 (of_nat count1) OR push_bit 5 pin1) p1)))"

declare set_pins_loop.simps [simp del] with_mask_loop.simps [simp del] consecutive_loop.simps [simp del]

section \<open>Initialisation\<close>

text \<open>The debug flags are cleared by writing ones.\<close>

definition pio_sm_init :: "nat \<Rightarrow> u32 \<Rightarrow> pio_sm_config option \<Rightarrow> pio_hw \<Rightarrow> pio_hw" where
  "pio_sm_init sm initial_pc config p =
     (let p1 = pio_sm_set_enabled sm False p;
          p2 = (case config of Some c \<Rightarrow> pio_sm_set_config sm c p1
                | None \<Rightarrow> pio_sm_set_config sm pio_get_default_sm_config p1);
          p3 = pio_sm_clear_fifos sm p2;
          fdebug_sm_mask = push_bit 16 1 OR push_bit 8 1 OR push_bit 24 1 OR push_bit 0 1;
          p4 = p3\<lparr>fdebug := fdebug p3 AND NOT (push_bit sm fdebug_sm_mask)\<rparr>
      in pio_sm_exec sm (pio_encode_jmp initial_pc) (pio_sm_clkdiv_restart sm (pio_sm_restart sm p4)))"

end
