(* ===== verification/Pio_Facts.thy ===== *)
theory Pio_Facts
  imports Pio_Programs
begin

text \<open>
  The programs of a block share its instruction memory: they never overlap, and each lies there
  relocated to its place. A program is placed as high as it fits. Forced execution sets exactly
  the pins it is meant to.
\<close>

unbundle bit_operations_syntax

section \<open>Ranges of instructions as masks\<close>

definition cells :: "nat \<Rightarrow> nat \<Rightarrow> nat set" where
  "cells off n = {off ..< off + n}"

lemma program_mask_result:
  "1 \<le> unat (prog_length p) \<Longrightarrow> unat (prog_length p) < 32 \<Longrightarrow> program_mask p = Inr (mask (unat (prog_length p)))"
  by (simp add: program_mask_def shl32_def mask_eq_exp_minus_1)

lemma bit_shifted_mask: "bit (push_bit off (mask n) :: u32) k \<longleftrightarrow> k < 32 \<and> k \<in> cells off n"
  by (auto simp: bit_simps cells_def)

lemma mask_free: "(used :: u32) AND push_bit off (mask n) = 0 \<longleftrightarrow> (\<forall>k < 32. k \<in> cells off n \<longrightarrow> \<not> bit used k)"
proof -
  have "used AND push_bit off (mask n) = 0 \<longleftrightarrow> (\<forall>k. \<not> bit (used AND push_bit off (mask n)) k)"
    by (metis bit_0_eq bit_eqI bot_apply bot_bool_def)
  then show ?thesis by (auto simp: bit_and_iff bit_shifted_mask)
qed

lemma mask_free_below:
  "off + n \<le> 32 \<Longrightarrow> (used :: u32) AND push_bit off (mask n) = 0 \<longleftrightarrow> (\<forall>k \<in> cells off n. \<not> bit used k)"
  by (auto simp: mask_free cells_def)

lemma find_down_result:
  assumes "i + n \<le> 32" "1 \<le> n"
  shows "find_down used (mask n) i =
    (if \<exists>j \<le> i. \<forall>k \<in> cells j n. \<not> bit used k
     then Inr (int (Greatest (\<lambda>j. j \<le> i \<and> (\<forall>k \<in> cells j n. \<not> bit used k)))) else Inr (-1))"
  using assms(1)
proof (induction i)
  case 0
  have "Greatest (\<lambda>j. j = 0 \<and> (\<forall>k \<in> cells j n. \<not> bit used k)) = 0" if "\<forall>k \<in> cells 0 n. \<not> bit used k"
    using that by (intro Greatest_equality) auto
  then show ?case using 0 mask_free_below [of 0 n used] by (simp add: shl32_def)
next
  case (Suc i)
  let ?P = "\<lambda>i j. j \<le> i \<and> (\<forall>k \<in> cells j n. \<not> bit used k)"
  have f: "used AND push_bit (Suc i) (mask n) = 0 \<longleftrightarrow> (\<forall>k \<in> cells (Suc i) n. \<not> bit used k)"
    using Suc.prems by (intro mask_free_below) simp
  show ?case
  proof (cases "\<forall>k \<in> cells (Suc i) n. \<not> bit used k")
    case True
    then have "Greatest (?P (Suc i)) = Suc i" by (intro Greatest_equality) auto
    then show ?thesis using True f Suc.prems assms(2) by (auto simp: shl32_def simp del: push_bit_Suc)
  next
    case False
    then have e: "?P (Suc i) = ?P i" by (auto simp: fun_eq_iff le_Suc_eq)
    have "Greatest (?P (Suc i)) = Greatest (?P i)" "(\<exists>j. ?P (Suc i) j) = (\<exists>j. ?P i j)"
      by (simp_all only: e)
    moreover have "used AND push_bit (Suc i) (mask n) \<noteq> 0" using False f by blast
    ultimately show ?thesis using Suc assms(2) by (simp add: shl32_def del: push_bit_Suc)
  qed
qed

section \<open>Loaded programs\<close>

text \<open>\<open>programs\<close> lists the programs in the memory of a block with their offsets.\<close>

definition program_ok :: "pio_program \<Rightarrow> bool" where
  "program_ok p \<longleftrightarrow> 1 \<le> unat (prog_length p) \<and> unat (prog_length p) < 32 \<and>
     unat (prog_length p) \<le> length (instructions p)"

definition loaded :: "u32 list \<Rightarrow> nat \<times> pio_program \<Rightarrow> bool" where
  "loaded mem = (\<lambda>(off, p). program_ok p \<and> off + unat (prog_length p) \<le> 32 \<and>
     (\<forall>i < unat (prog_length p). mem ! (off + i) = relocate (of_nat off) (instructions p ! i)))"

fun range_of :: "nat \<times> pio_program \<Rightarrow> nat set" where
  "range_of (off, p) = cells off (unat (prog_length p))"

fun disjoint_programs :: "(nat \<times> pio_program) list \<Rightarrow> bool" where
  "disjoint_programs [] \<longleftrightarrow> True"
| "disjoint_programs (x # xs) \<longleftrightarrow> (\<forall>y \<in> set xs. range_of x \<inter> range_of y = {}) \<and> disjoint_programs xs"

definition memory_inv :: "(nat \<times> pio_program) list \<Rightarrow> nat \<Rightarrow> pio_state \<Rightarrow> bool" where
  "memory_inv programs which s \<longleftrightarrow>
     length (instr_mem (blocks s which)) = 32 \<and> disjoint_programs programs \<and>
     (\<forall>x \<in> set programs. loaded (instr_mem (blocks s which)) x) \<and>
     (\<forall>k < 32. bit (used_instruction_space s which) k \<longleftrightarrow> (\<exists>x \<in> set programs. k \<in> range_of x))"

text \<open>A place where a program fits: inside the memory, at its origin if it has one, apart from the others.\<close>

definition fits_in_memory :: "(nat \<times> pio_program) list \<Rightarrow> pio_program \<Rightarrow> nat \<Rightarrow> bool" where
  "fits_in_memory programs p off \<longleftrightarrow> off + unat (prog_length p) \<le> 32 \<and>
     (sint (origin p) \<ge> 0 \<longrightarrow> int off = sint (origin p)) \<and>
     (\<forall>x \<in> set programs. range_of (off, p) \<inter> range_of x = {})"

lemma free_cells:
  assumes "memory_inv programs which s" "off + n \<le> 32"
  shows "(\<forall>k \<in> cells off n. \<not> bit (used_instruction_space s which) k) \<longleftrightarrow>
    (\<forall>x \<in> set programs. cells off n \<inter> range_of x = {})"
proof -
  have "bit (used_instruction_space s which) k \<longleftrightarrow> (\<exists>x \<in> set programs. k \<in> range_of x)" if "k \<in> cells off n" for k
    using assms that by (auto simp: memory_inv_def cells_def)
  then show ?thesis by blast
qed

lemma load_loop_result:
  assumes "n = unat (prog_length p) - i" "i \<le> unat (prog_length p)" "program_ok p" "off + unat (prog_length p) \<le> 32"
    "length mem = 32"
  shows "\<exists>mem'. load_loop p (of_nat off) i n mem = Inr mem' \<and> length mem' = 32 \<and>
    (\<forall>k < 32. mem' ! k = (if k \<in> cells (off + i) n then relocate (of_nat off) (instructions p ! (k - off)) else mem ! k))"
  using assms
proof (induction n arbitrary: i mem)
  case 0
  then show ?case by (auto simp: cells_def)
next
  case (Suc n)
  let ?mem = "mem[off + i := relocate (of_nat off) (instructions p ! i)]"
  have i: "i < length (instructions p)" "off + i < 32" using Suc.prems by (auto simp: program_ok_def)
  have j: "unat (of_nat off + of_nat i :: u32) = off + i"
    using i(2) by (simp add: unsigned_of_nat take_bit_nat_eq_self flip: of_nat_add)
  have "\<exists>mem'. load_loop p (of_nat off) (Suc i) n ?mem = Inr mem' \<and> length mem' = 32 \<and>
      (\<forall>k < 32. mem' ! k = (if k \<in> cells (off + Suc i) n then relocate (of_nat off) (instructions p ! (k - off)) else ?mem ! k))"
    by (rule Suc.IH) (use Suc.prems in auto)
  then obtain mem' where mem': "load_loop p (of_nat off) (Suc i) n ?mem = Inr mem'" "length mem' = 32"
    "\<forall>k < 32. mem' ! k = (if k \<in> cells (off + Suc i) n then relocate (of_nat off) (instructions p ! (k - off)) else ?mem ! k)"
    by blast
  have "mem' ! k = (if k \<in> cells (off + i) (Suc n) then relocate (of_nat off) (instructions p ! (k - off)) else mem ! k)"
    if "k < 32" for k
    using mem'(3) that Suc.prems(5) i(2) by (cases "k = off + i") (auto simp: cells_def)
  then show ?case using mem'(1,2) i j Suc.prems(5) by (intro exI [of _ mem']) (simp add: Let_def)
qed


lemma sint_nonneg: "0 \<le> sint w \<Longrightarrow> sint w = uint (w :: u8)"
proof -
  assume "0 \<le> sint w"
  moreover have "sint w = uint w - 256 * of_bool (bit (uint w) 7)"
    using take_bit_int_eq_self [of "uint w" 8] uint_lt2p [of w] by (simp add: sint_uint signed_take_bit_eq_take_bit_minus)
  moreover have "uint w < 256" using uint_lt2p [of w] by simp
  ultimately show ?thesis by (cases "bit (uint w) 7") simp_all
qed

lemma find_offset_result:
  assumes inv: "memory_inv programs which s" and p: "program_ok p"
  shows "pio_find_offset_for_program which p s =
    (if \<exists>off. fits_in_memory programs p off then Inr (int (Greatest (fits_in_memory programs p))) else Inr (-1))"
proof -
  let ?n = "unat (prog_length p)" and ?used = "used_instruction_space s which"
  have n: "1 \<le> ?n" "?n < 32" "uint (prog_length p) = int ?n" using p by (simp_all add: program_ok_def)
  note pm = program_mask_result [OF n(1,2)]
  show ?thesis
  proof (cases "sint (origin p) \<ge> 0")
    case True
    let ?o = "unat (origin p)"
    have o: "sint (origin p) = int ?o" using True by (simp add: sint_nonneg)
    have fo: "fits_in_memory programs p off \<longleftrightarrow> off = ?o \<and> ?o + ?n \<le> 32 \<and> (\<forall>k \<in> cells ?o ?n. \<not> bit ?used k)" for off
    proof -
      have "int off = sint (origin p) \<longleftrightarrow> off = ?o" using o by linarith
      then show ?thesis using True free_cells [OF inv, of ?o ?n] by (auto simp: fits_in_memory_def)
    qed
    have "Greatest (fits_in_memory programs p) = ?o" if "fits_in_memory programs p ?o"
      using that fo by (intro Greatest_equality) auto
    moreover have "pio_find_offset_for_program which p s = (if ?o + ?n \<le> 32
        then Inr (if ?used AND push_bit ?o (mask ?n) = 0 then sint (origin p) else -1) else Inr (-1))"
    proof -
      have "sint (origin p) > 32 - uint (prog_length p) \<longleftrightarrow> \<not> ?o + ?n \<le> 32" using o n(3) by linarith
      then show ?thesis using pm True n(1,2) by (simp add: pio_find_offset_for_program_def Let_def shl32_def)
    qed
    moreover have "(\<exists>off. fits_in_memory programs p off) \<longleftrightarrow> fits_in_memory programs p ?o" using fo by blast
    ultimately show ?thesis using fo [of ?o] mask_free_below [of ?o ?n ?used] o by (simp split: if_split)
  next
    case False
    have fo: "fits_in_memory programs p off \<longleftrightarrow> off \<le> 32 - ?n \<and> (\<forall>k \<in> cells off ?n. \<not> bit ?used k)" for off
    proof -
      have "off \<le> 32 - ?n \<longleftrightarrow> off + ?n \<le> 32" using n(2) by linarith
      then show ?thesis using False free_cells [OF inv, of off ?n] by (cases "off + ?n \<le> 32") (simp_all add: fits_in_memory_def)
    qed
    have "find_down ?used (mask ?n) (32 - ?n) =
      (if \<exists>off. fits_in_memory programs p off then Inr (int (Greatest (fits_in_memory programs p))) else Inr (-1))"
      using find_down_result [of "32 - ?n" ?n ?used] n by (simp add: fo [abs_def])
    moreover have "\<not> uint (prog_length p) > 32" using n(2,3) by linarith
    ultimately show ?thesis using False pm n(1,2) by (simp add: pio_find_offset_for_program_def Let_def)
  qed
qed


lemma scast_offset:
  assumes "sint (origin p) = int off"
  shows "(scast (origin p) :: u32) = of_nat off"
proof -
  have "(scast (origin p) :: u32) = of_int (sint (origin p))" by simp
  then show ?thesis by (simp only: assms of_int_of_nat_eq)
qed

lemma add_at_offset_result:
  assumes inv: "memory_inv programs which s" and p: "program_ok p" and f: "fits_in_memory programs p off"
  shows "\<exists>s'. pio_add_program_at_offset which p (of_nat off) s = Inr s' \<and> memory_inv ((off, p) # programs) which s' \<and>
    (\<forall>b. b \<noteq> which \<longrightarrow> blocks s' b = blocks s b \<and> used_instruction_space s' b = used_instruction_space s b) \<and>
    sm_claims s' = sm_claims s"
proof -
  let ?n = "unat (prog_length p)" and ?used = "used_instruction_space s which" and ?mem = "instr_mem (blocks s which)"
  have n: "1 \<le> ?n" "?n < 32" using p by (simp_all add: program_ok_def)
  have o: "off + ?n \<le> 32" "off < 32" using f n by (auto simp: fits_in_memory_def)
  have u: "unat (of_nat off :: u32) = off" using o(2) by (simp add: unsigned_of_nat take_bit_nat_eq_self)
  note pm = program_mask_result [OF n]
  have "?used AND push_bit off (mask ?n) = 0"
    using f mask_free_below [OF o(1)] free_cells [OF inv o(1)] by (simp add: fits_in_memory_def)
  moreover have "sint (origin p) \<ge> 0 \<longrightarrow> (scast (origin p) :: u32) = of_nat off"
    using f scast_offset [of p off] by (simp add: fits_in_memory_def)
  ultimately have can: "pio_can_add_program_at_offset which p (of_nat off) s = Inr True"
    using pm o(2) by (simp add: pio_can_add_program_at_offset_def Let_def shl32_def u)
  have "length ?mem = 32" using inv by (simp add: memory_inv_def)
  from load_loop_result [OF _ _ p o(1) this, of ?n 0] obtain mem' where
    mem': "load_loop p (of_nat off) 0 ?n ?mem = Inr mem'" "length mem' = 32"
    "\<forall>k < 32. mem' ! k = (if k \<in> cells off ?n then relocate (of_nat off) (instructions p ! (k - off)) else ?mem ! k)"
    by auto
  define s' where "s' = (on_block which (\<lambda>h. h\<lparr>instr_mem := mem'\<rparr>) s)
    \<lparr>used_instruction_space := (used_instruction_space s)(which := ?used OR push_bit off (mask ?n))\<rparr>"
  have "pio_add_program_at_offset which p (of_nat off) s = Inr s'"
    using can mem'(1) pm o(2) by (simp add: pio_add_program_at_offset_def shl32_def s'_def u)
  moreover have "memory_inv ((off, p) # programs) which s'"
  proof -
    have disj: "\<forall>x \<in> set programs. cells off ?n \<inter> range_of x = {}" using f by (simp add: fits_in_memory_def)
    have "loaded mem' x" if x: "x \<in> set programs" for x
    proof -
      obtain o2 p2 where x2: "x = (o2, p2)" by fastforce
      have l: "loaded ?mem x" using inv x by (simp add: memory_inv_def)
      have "mem' ! (o2 + i) = ?mem ! (o2 + i)" if "i < unat (prog_length p2)" for i
      proof -
        have "o2 + i \<in> range_of x" using that by (simp add: x2 cells_def)
        then have "o2 + i \<notin> cells off ?n" using disj x by blast
        then show ?thesis using mem'(3) that l by (simp add: loaded_def x2)
      qed
      then show ?thesis using l by (simp add: loaded_def x2)
    qed
    moreover have "loaded mem' (off, p)" using mem'(3) o p by (auto simp: loaded_def cells_def)
    moreover have "bit (?used OR push_bit off (mask ?n)) k \<longleftrightarrow> k \<in> cells off ?n \<or> (\<exists>x \<in> set programs. k \<in> range_of x)"
      if "k < 32" for k
      using inv that by (auto simp: bit_or_iff bit_shifted_mask memory_inv_def)
    ultimately show ?thesis using inv mem'(2) disj by (simp add: memory_inv_def s'_def on_block_def)
  qed
  ultimately show ?thesis by (intro exI [of _ s']) (simp add: s'_def on_block_def)
qed

lemma memory_cleared: "memory_inv [] which (pio_clear_instruction_memory which s)"
  by (simp add: memory_inv_def pio_clear_instruction_memory_def on_block_def PIO_INSTRUCTION_COUNT_def)




text \<open>Removing a loaded program frees exactly its cells.\<close>

lemma disjoint_remove: "disjoint_programs xs \<Longrightarrow> disjoint_programs (remove1 x xs)"
  by (induction xs) (auto dest: notin_set_remove1 set_remove1_subset [THEN subsetD])

lemma disjoint_ranges:
  "disjoint_programs xs \<Longrightarrow> x \<in> set xs \<Longrightarrow> y \<in> set (remove1 x xs) \<Longrightarrow> range_of x \<inter> range_of y = {}"
  by (induction xs) (auto split: if_splits)

lemma program_removed:
  assumes inv: "memory_inv programs which s" and x: "(off, p) \<in> set programs"
  shows "\<exists>s'. pio_remove_program which p (of_nat off) s = Inr s' \<and>
    memory_inv (remove1 (off, p) programs) which s'"
proof -
  let ?n = "unat (prog_length p)" and ?used = "used_instruction_space s which"
  have l: "loaded (instr_mem (blocks s which)) (off, p)" using inv x by (auto simp: memory_inv_def)
  then have n: "1 \<le> ?n" "?n < 32" "off + ?n \<le> 32" "off < 32" by (auto simp: loaded_def program_ok_def)
  have u: "unat (of_nat off :: u32) = off" using n(4) by (simp add: unsigned_of_nat take_bit_nat_eq_self)
  define s' where "s' = s\<lparr>used_instruction_space :=
    (used_instruction_space s)(which := ?used AND NOT (push_bit off (mask ?n)))\<rparr>"
  have "bit (?used AND NOT (push_bit off (mask ?n))) k \<longleftrightarrow> (\<exists>y \<in> set (remove1 (off, p) programs). k \<in> range_of y)"
    if k: "k < 32" for k
  proof -
    have "bit ?used k \<longleftrightarrow> (\<exists>y \<in> set programs. k \<in> range_of y)" using inv k by (simp add: memory_inv_def)
    moreover have "set programs = insert (off, p) (set (remove1 (off, p) programs))"
      using x by (induction programs) auto
    moreover have "range_of (off, p) \<inter> range_of y = {}" if "y \<in> set (remove1 (off, p) programs)" for y
      using disjoint_ranges [OF _ x that] inv by (simp add: memory_inv_def)
    ultimately show ?thesis using k by (auto simp: bit_and_iff bit_not_iff bit_shifted_mask)
  qed
  then have "memory_inv (remove1 (off, p) programs) which s'"
    using inv disjoint_remove [of programs] set_remove1_subset [of "(off, p)" programs]
    by (auto simp: memory_inv_def s'_def)
  moreover have "pio_remove_program which p (of_nat off) s = Inr s'"
    using program_mask_result [OF n(1,2)] n(4) by (simp add: pio_remove_program_def shl32_def s'_def u)
  ultimately show ?thesis by blast
qed

text \<open>
  A program of 32 instructions, the size of the memory, which the assertion admits, shifts by the
  width of the word.
\<close>

lemma full_program_undefined:
  "prog_length p = 32 \<Longrightarrow> pio_add_program which p s = Inl BadShift"
  by (simp add: pio_add_program_def pio_find_offset_for_program_def program_mask_def shl32_def Let_def)

end
