(* ===== verification/Pio_Pins.thy ===== *)
theory Pio_Pins
  imports Pio_Facts
begin

text \<open>
  Setting pins by forced execution: the loop over the set bits of the mask makes the state machine
  execute one SET for each pin of the mask, and the pin control register is as before afterwards.
\<close>

unbundle bit_operations_syntax

section \<open>The lowest set bit\<close>

lemma ctz_found:
  assumes "m \<noteq> 0"
  shows "builtin_ctz m < 32" "bit m (builtin_ctz m)" "\<And>k. k < builtin_ctz m \<Longrightarrow> \<not> bit m k"
proof -
  let ?P = "\<lambda>n. \<not> bit m n" and ?l = "[0 ..< 32] :: nat list"
  obtain k where "bit m k" using assms by (metis bit_eqI bit_0_eq bot_apply bot_bool_def)
  then have "k < 32 \<and> bit m k" by (auto dest: bit_imp_le_length)
  then have "k \<in> set ?l \<and> \<not> ?P k" by auto
  then have "takeWhile ?P ?l \<noteq> ?l" by (metis takeWhile_eq_all_conv)
  then have "length (takeWhile ?P ?l) \<noteq> 32" using takeWhile_eq_take [of ?P ?l] by (metis diff_zero length_upt take_all_iff le_refl)
  then show l: "builtin_ctz m < 32" using length_takeWhile_le [of ?P ?l] by (simp add: builtin_ctz_def)
  have "\<not> ?P (?l ! length (takeWhile ?P ?l))" using l by (intro nth_length_takeWhile) (simp add: builtin_ctz_def)
  then show "bit m (builtin_ctz m)" using l by (simp add: builtin_ctz_def)
  show "\<not> bit m k" if "k < builtin_ctz m" for k
  proof -
    have "takeWhile ?P ?l ! k \<in> set (takeWhile ?P ?l)" using that by (simp add: builtin_ctz_def)
    then have "?P (takeWhile ?P ?l ! k)" by (blast dest: set_takeWhileD)
    then show ?thesis using that l by (simp add: takeWhile_nth builtin_ctz_def)
  qed
qed

lemma clear_lowest:
  assumes "m \<noteq> 0"
  shows "(m :: u32) AND (m - 1) = unset_bit (builtin_ctz m) m"
proof -
  let ?c = "builtin_ctz m" and ?h = "unset_bit (builtin_ctz m) m"
  note c = ctz_found [OF assms]
  have m: "m = ?h OR push_bit ?c 1" using c(2) by (auto intro!: bit_eqI simp: bit_simps)
  have "?h AND push_bit ?c 1 = 0" by (auto intro!: bit_eqI simp: bit_simps)
  then have "m = ?h + push_bit ?c 1" using m by (metis disjunctive_add_eq_or)
  then have "m - 1 = ?h + mask ?c" by (simp add: mask_eq_exp_minus_1)
  moreover have "?h AND mask ?c = 0" using c(3) by (auto intro!: bit_eqI simp: bit_simps)
  ultimately have "m - 1 = ?h OR mask ?c" by (metis disjunctive_add_eq_or)
  then show ?thesis by (auto intro!: bit_eqI simp: bit_simps)
qed

lemma filter_lowest:
  assumes "m \<noteq> 0"
  shows "filter (bit m) [0 ..< 32] = builtin_ctz m # filter (bit (m AND (m - 1))) [0 ..< 32]"
proof -
  let ?c = "builtin_ctz m"
  note c = ctz_found [OF assms]
  have u: "[0 ..< 32] = [0 ..< ?c] @ ?c # [Suc ?c ..< 32]"
    using c(1) upt_add_eq_append [of 0 ?c "32 - ?c"] by (simp add: upt_conv_Cons)
  have "filter (bit (m AND (m - 1))) [0 ..< ?c] = []" "filter (bit m) [0 ..< ?c] = []"
    using c(3) by (auto simp: filter_empty_conv bit_and_iff)
  moreover have "filter (bit (m AND (m - 1))) [Suc ?c ..< 32] = filter (bit m) [Suc ?c ..< 32]"
    unfolding clear_lowest [OF assms] by (intro filter_cong) (auto simp: bit_simps)
  moreover have "\<not> bit (m AND (m - 1)) ?c" unfolding clear_lowest [OF assms] by (simp add: bit_simps)
  ultimately show ?thesis using c(2) by (simp add: u)
qed

section \<open>What is executed\<close>

definition pin_sets :: "pio_src_dest \<Rightarrow> nat \<Rightarrow> u32 \<Rightarrow> u32 \<Rightarrow> (nat \<times> u32 \<times> u32) list" where
  "pin_sets dest sm v m = map (\<lambda>n. (sm, push_bit 26 1 OR push_bit 5 (of_nat n),
     pio_encode_set dest (drop_bit n v AND 1))) (filter (bit m) [0 ..< 32])"

lemma set_pinctrl_result:
  "sm_pinctrl (sms (set_pinctrl sm v p) sm) = v" "execs (set_pinctrl sm v p) = execs p"
  "i \<noteq> sm \<Longrightarrow> sms (set_pinctrl sm v p) i = sms p i"
  by (simp_all add: set_pinctrl_def on_sm_def)

lemma with_mask_executes: "execs (with_mask_loop dest sm v m p) = execs p @ pin_sets dest sm v m"
proof (induction dest sm v m p rule: with_mask_loop.induct)
  case (1 dest sm v m p)
  show ?case
  proof (cases "m = 0")
    case True
    then show ?thesis by (subst with_mask_loop.simps) (simp add: pin_sets_def)
  next
    case False
    then show ?thesis using 1 [OF False refl] filter_lowest [OF False]
      by (subst with_mask_loop.simps) (simp add: Let_def pio_sm_exec_def set_pinctrl_result pin_sets_def)
  qed
qed

lemma with_mask_others: "i \<noteq> sm \<Longrightarrow> sms (with_mask_loop dest sm v m p) i = sms p i"
proof (induction dest sm v m p rule: with_mask_loop.induct)
  case (1 dest sm v m p)
  then show ?case
    by (subst with_mask_loop.simps) (simp add: Let_def pio_sm_exec_def set_pinctrl_result on_sm_def)
qed

text \<open>
  C29: Setting pins with a mask executes, on the machine, one SET of one pin for each pin of the
  mask, from the lowest up, with the value of the pin; setting directions does the same for them.
  The pin control register gets its value back and the other machines are not touched.
\<close>

theorem masked_pins_set:
  "execs (pio_sm_set_pins_with_mask sm v m p) = execs p @ pin_sets pio_pins sm v m \<and>
   execs (pio_sm_set_pindirs_with_mask sm v m p) = execs p @ pin_sets pio_pindirs sm v m \<and>
   sm_pinctrl (sms (pio_sm_set_pins_with_mask sm v m p) sm) = sm_pinctrl (sms p sm) \<and>
   sm_pinctrl (sms (pio_sm_set_pindirs_with_mask sm v m p) sm) = sm_pinctrl (sms p sm) \<and>
   (\<forall>i. i = sm \<or> sms (pio_sm_set_pins_with_mask sm v m p) i = sms p i)"
  by (simp add: pio_sm_set_pins_with_mask_def pio_sm_set_pindirs_with_mask_def with_mask_executes
      set_pinctrl_result) (metis set_pinctrl_result(3) with_mask_others)

end
