(* ===== verification/Watchdog.thy ===== *)
theory Watchdog
  imports Registers
begin

text \<open>
  The watchdog (\<open>hardware_watchdog/watchdog.c\<close>): the tick it shares with the timer, the countdown,
  and the scratch registers that tell the boot ROM and the next boot why the chip was reset. The
  reason of the last reset and the counter are what the hardware has left in the record.
\<close>

unbundle bit_operations_syntax

record watchdog_hw =
  wd_ctrl :: u32
  wd_load :: u32
  wd_reason :: u32
  wd_scratch :: "nat \<Rightarrow> u32"
  wd_tick :: u32
  wdsel :: u32
  load_value :: u32

definition WATCHDOG_CTRL_ENABLE_BITS :: u32 where "WATCHDOG_CTRL_ENABLE_BITS = 0x40000000"
definition WATCHDOG_CTRL_TRIGGER_BITS :: u32 where "WATCHDOG_CTRL_TRIGGER_BITS = 0x80000000"
definition WATCHDOG_NON_REBOOT_MAGIC :: u32 where "WATCHDOG_NON_REBOOT_MAGIC = 0x6ab73121"

lemmas wd_consts = WATCHDOG_CTRL_ENABLE_BITS_def WATCHDOG_CTRL_TRIGGER_BITS_def WATCHDOG_NON_REBOOT_MAGIC_def

definition watchdog_start_tick :: "u32 \<Rightarrow> watchdog_hw \<Rightarrow> watchdog_hw" where
  "watchdog_start_tick cycles w = w\<lparr>wd_tick := cycles OR 0x200\<rparr>"

definition watchdog_update :: "watchdog_hw \<Rightarrow> watchdog_hw" where
  "watchdog_update w = w\<lparr>wd_load := load_value w\<rparr>"

definition watchdog_get_count :: "watchdog_hw \<Rightarrow> u32" where
  "watchdog_get_count w = (wd_ctrl w AND 0xffffff) div 2"

definition watchdog_enable_inner :: "u32 \<Rightarrow> bool \<Rightarrow> watchdog_hw \<Rightarrow> watchdog_hw" where
  "watchdog_enable_inner delay_ms pause_on_debug w =
     (let w1 = w\<lparr>wd_ctrl := hw_clear_bits (wd_ctrl w) WATCHDOG_CTRL_ENABLE_BITS\<rparr>;
          w2 = w1\<lparr>wdsel := hw_set_bits (wdsel w1) (0x1ffff AND NOT (1 OR 2))\<rparr>;
          dbg_bits = 0x02000000 OR 0x04000000 OR 0x01000000;
          w3 = (if pause_on_debug then w2\<lparr>wd_ctrl := hw_set_bits (wd_ctrl w2) dbg_bits\<rparr>
                else w2\<lparr>wd_ctrl := hw_clear_bits (wd_ctrl w2) dbg_bits\<rparr>)
      in if delay_ms = 0 then w3\<lparr>wd_ctrl := hw_set_bits (wd_ctrl w3) WATCHDOG_CTRL_TRIGGER_BITS\<rparr>
         else
           let v = delay_ms * 1000 * 2;
               w4 = watchdog_update (w3\<lparr>load_value := if v > 0xffffff then 0xffffff else v\<rparr>)
           in w4\<lparr>wd_ctrl := hw_set_bits (wd_ctrl w4) WATCHDOG_CTRL_ENABLE_BITS\<rparr>)"

definition watchdog_enable :: "u32 \<Rightarrow> bool \<Rightarrow> watchdog_hw \<Rightarrow> watchdog_hw" where
  "watchdog_enable delay_ms pause_on_debug w =
     watchdog_enable_inner delay_ms pause_on_debug
       (w\<lparr>wd_scratch := (wd_scratch w)(4 := WATCHDOG_NON_REBOOT_MAGIC)\<rparr>)"

definition watchdog_reboot :: "u32 \<Rightarrow> u32 \<Rightarrow> u32 \<Rightarrow> watchdog_hw \<Rightarrow> watchdog_hw" where
  "watchdog_reboot pc sp delay_ms w =
     (let w1 = w\<lparr>wd_ctrl := hw_clear_bits (wd_ctrl w) WATCHDOG_CTRL_ENABLE_BITS\<rparr>;
          w2 = (if pc \<noteq> 0 then
                  let pc1 = pc OR 1
                  in w1\<lparr>wd_scratch := (wd_scratch w1)
                       (4 := 0xb007c0d3, 5 := pc1 XOR (- 0xb007c0d3), 6 := sp, 7 := pc1)\<rparr>
                else w1\<lparr>wd_scratch := (wd_scratch w1)(4 := 0)\<rparr>)
      in watchdog_enable_inner delay_ms False w2)"

definition watchdog_caused_reboot :: "watchdog_hw \<Rightarrow> bool" where
  "watchdog_caused_reboot w \<longleftrightarrow> wd_reason w \<noteq> 0"

definition watchdog_enable_caused_reboot :: "watchdog_hw \<Rightarrow> bool" where
  "watchdog_enable_caused_reboot w \<longleftrightarrow> wd_reason w \<noteq> 0 \<and> wd_scratch w 4 = WATCHDOG_NON_REBOOT_MAGIC"

section \<open>The time until the reset\<close>

lemmas watchdog_defs = watchdog_enable_def watchdog_reboot_def watchdog_enable_inner_def
  watchdog_update_def watchdog_enable_caused_reboot_def Let_def

lemma load_exact:
  assumes "0 < delay" "uint delay < 2147484"
  shows "uint (wd_load (watchdog_enable delay p w)) = min (2000 * uint delay) 0xffffff"
proof -
  have "uint (delay * 1000 * 2) = 2000 * uint delay"
    using assms(2) by (simp add: uint_word_ariths)
  then have "delay * 1000 * 2 > 0xffffff \<longleftrightarrow> 2000 * uint delay > 0xffffff"
    by (simp add: word_less_def)
  then show ?thesis using assms \<open>uint (delay * 1000 * 2) = _\<close> by (auto simp: watchdog_defs)
qed

text \<open>
  The multiplication wraps before the limit is applied: a delay of 2147484 ms, far over the
  limit of 8.4 s, resets the chip after 352 microseconds.
\<close>

lemma long_delay_wraps: "wd_load (watchdog_enable 2147484 p w) = 704"
  by (simp add: watchdog_defs)

text \<open>
  After a reset by the watchdog that \<open>watchdog_enable\<close> started, its cause is told apart from a
  reboot that was asked for.
\<close>

lemma cause_told_apart:
  assumes "reason \<noteq> 0"
  shows "watchdog_enable_caused_reboot ((watchdog_enable delay p w)\<lparr>wd_reason := reason\<rparr>)"
    and "\<not> watchdog_enable_caused_reboot ((watchdog_reboot pc sp delay w)\<lparr>wd_reason := reason\<rparr>)"
  using assms by (simp_all add: watchdog_defs wd_consts)

end
