(* ===== verification/Clocks.thy ===== *)
theory Clocks
  imports Watchdog Irq Gpio
begin

text \<open>
  The clock tree: \<open>hardware_resets\<close>, \<open>hardware_xosc/xosc.c\<close>, \<open>hardware_pll/pll.c\<close>,
  \<open>hardware_clocks/clocks.c\<close>, and the system clock of \<open>pico_stdlib/stdlib.c\<close>. Clocks are numbered as
  \<open>enum clock_index\<close> does. What the hardware does while the code waits is a parameter: \<open>hw\<close> is
  applied in every round of a waiting loop, and the loops have fuel. \<open>trail\<close> logs every state that
  a clock generator passes through.
\<close>

unbundle bit_operations_syntax

section \<open>State\<close>

record clock_hw =
  clk_ctrl :: u32
  clk_div :: u32
  clk_selected :: u32

record pll_hw =
  pll_cs :: u32
  pll_pwr :: u32
  pll_fbdiv_int :: u32
  pll_prim :: u32

record fc_hw =
  ref_khz :: u32
  min_khz :: u32
  max_khz :: u32
  fc_interval :: u32
  fc_src :: u32
  fc_status :: u32
  fc_result :: u32

record xosc_hw =
  xosc_ctrl :: u32
  xosc_status :: u32
  xosc_startup :: u32
  dormant :: u32

record clocks =
  on_fpga :: bool
  clk :: "nat \<Rightarrow> clock_hw"
  trail :: "(nat \<times> clock_hw) list"
  configured_freq :: "nat \<Rightarrow> u32"
  resus_callback :: "nat option"
  resus_calls :: "nat list"
  resus_ctrl :: u32
  clocks_inte :: u32
  clocks_ints :: u32
  fc0 :: fc_hw
  pll_sys :: pll_hw
  pll_usb :: pll_hw
  xosc :: xosc_hw
  resets_reset :: u32
  reset_done :: u32
  watchdog :: watchdog_hw
  clock_irqs :: irq_state
  clock_pins :: gpio_hw

type_synonym environment = "clocks \<Rightarrow> clocks"

definition clk_gpout0 :: nat where "clk_gpout0 = 0"
definition clk_gpout1 :: nat where "clk_gpout1 = 1"
definition clk_gpout2 :: nat where "clk_gpout2 = 2"
definition clk_gpout3 :: nat where "clk_gpout3 = 3"
definition clk_ref :: nat where "clk_ref = 4"
definition clk_sys :: nat where "clk_sys = 5"
definition clk_peri :: nat where "clk_peri = 6"
definition clk_usb :: nat where "clk_usb = 7"
definition clk_adc :: nat where "clk_adc = 8"
definition clk_rtc :: nat where "clk_rtc = 9"
definition CLK_COUNT :: nat where "CLK_COUNT = 10"

lemmas clock_index_defs = clk_gpout0_def clk_gpout1_def clk_gpout2_def clk_gpout3_def clk_ref_def clk_sys_def
  clk_peri_def clk_usb_def clk_adc_def clk_rtc_def CLK_COUNT_def

definition MHZ :: u32 where "MHZ = 1000000"
definition XOSC_MHZ :: u32 where "XOSC_MHZ = 12"

text \<open>Waiting for a condition, and for a bit of \<open>selected\<close> of a clock.\<close>

fun wait_for :: "nat \<Rightarrow> environment \<Rightarrow> (clocks \<Rightarrow> bool) \<Rightarrow> clocks \<Rightarrow> fault + clocks" where
  "wait_for 0 hw ready c = Inl Exhausted"
| "wait_for (Suc fuel) hw ready c = (if ready c then Inr c else wait_for fuel hw ready (hw c))"

definition put_clk :: "nat \<Rightarrow> clock_hw \<Rightarrow> clocks \<Rightarrow> clocks" where
  "put_clk i h c = c\<lparr>clk := (clk c)(i := h), trail := trail c @ [(i, h)]\<rparr>"

definition write_clk_ctrl :: "nat \<Rightarrow> u32 \<Rightarrow> clocks \<Rightarrow> clocks" where
  "write_clk_ctrl i v c = put_clk i ((clk c i)\<lparr>clk_ctrl := v\<rparr>) c"

definition write_clk_div :: "nat \<Rightarrow> u32 \<Rightarrow> clocks \<Rightarrow> clocks" where
  "write_clk_div i v c = put_clk i ((clk c i)\<lparr>clk_div := v\<rparr>) c"

fun wait_selected :: "nat \<Rightarrow> environment \<Rightarrow> nat \<Rightarrow> (u32 \<Rightarrow> bool) \<Rightarrow> clocks \<Rightarrow> fault + clocks" where
  "wait_selected 0 hw i ready c = Inl Exhausted"
| "wait_selected (Suc fuel) hw i ready c =
     (if ready (clk_selected (clk c i)) then Inr c
      else wait_selected fuel hw i ready (let c' = hw c in put_clk i (clk c' i) c'))"

section \<open>Resets and the crystal oscillator\<close>

definition reset_block :: "u32 \<Rightarrow> clocks \<Rightarrow> clocks" where
  "reset_block bits c = c\<lparr>resets_reset := hw_set_bits (resets_reset c) bits\<rparr>"

definition unreset_block :: "u32 \<Rightarrow> clocks \<Rightarrow> clocks" where
  "unreset_block bits c = c\<lparr>resets_reset := hw_clear_bits (resets_reset c) bits\<rparr>"

definition unreset_block_wait :: "nat \<Rightarrow> environment \<Rightarrow> u32 \<Rightarrow> clocks \<Rightarrow> fault + clocks" where
  "unreset_block_wait fuel hw bits c =
     wait_for fuel hw (\<lambda>c. NOT (reset_done c) AND bits = 0)
       (c\<lparr>resets_reset := hw_clear_bits (resets_reset c) bits\<rparr>)"

definition STARTUP_DELAY :: u32 where "STARTUP_DELAY = (XOSC_MHZ * MHZ div 1000 + 128) div 256 * 1"

definition xosc_stable :: "clocks \<Rightarrow> bool" where
  "xosc_stable c \<longleftrightarrow> xosc_status (xosc c) AND 0x80000000 \<noteq> 0"

definition xosc_init :: "nat \<Rightarrow> environment \<Rightarrow> clocks \<Rightarrow> fault + clocks" where
  "xosc_init fuel hw c =
     (let c1 = c\<lparr>xosc := (xosc c)\<lparr>xosc_ctrl := 0xaa0\<rparr>\<rparr>;
          c2 = c1\<lparr>xosc := (xosc c1)\<lparr>xosc_startup := STARTUP_DELAY\<rparr>\<rparr>;
          c3 = c2\<lparr>xosc := (xosc c2)\<lparr>xosc_ctrl := hw_set_bits (xosc_ctrl (xosc c2)) (push_bit 12 0xfab)\<rparr>\<rparr>
      in wait_for fuel hw xosc_stable c3)"

definition xosc_disable :: "nat \<Rightarrow> environment \<Rightarrow> clocks \<Rightarrow> fault + clocks" where
  "xosc_disable fuel hw c =
     (let tmp = xosc_ctrl (xosc c); tmp1 = tmp AND NOT 0xfff000; tmp2 = tmp1 OR push_bit 12 0xd1e
      in wait_for fuel hw (\<lambda>c. \<not> xosc_stable c) (c\<lparr>xosc := (xosc c)\<lparr>xosc_ctrl := tmp2\<rparr>\<rparr>))"

definition xosc_dormant :: "nat \<Rightarrow> environment \<Rightarrow> clocks \<Rightarrow> fault + clocks" where
  "xosc_dormant fuel hw c = wait_for fuel hw xosc_stable (hw (c\<lparr>xosc := (xosc c)\<lparr>dormant := 0x636f6d61\<rparr>\<rparr>))"

section \<open>Phase-locked loops\<close>

datatype pll = Pll_Sys | Pll_Usb

fun get_pll :: "pll \<Rightarrow> clocks \<Rightarrow> pll_hw" where
  "get_pll Pll_Sys c = pll_sys c" | "get_pll Pll_Usb c = pll_usb c"

fun put_pll :: "pll \<Rightarrow> pll_hw \<Rightarrow> clocks \<Rightarrow> clocks" where
  "put_pll Pll_Sys p c = c\<lparr>pll_sys := p\<rparr>" | "put_pll Pll_Usb p c = c\<lparr>pll_usb := p\<rparr>"

definition PLL_CS_LOCK_BITS :: u32 where "PLL_CS_LOCK_BITS = 0x80000000"

definition pll_configured :: "u32 \<Rightarrow> u32 \<Rightarrow> u32 \<Rightarrow> pll_hw \<Rightarrow> bool" where
  "pll_configured refdiv fbdiv pdiv p \<longleftrightarrow>
     pll_cs p AND PLL_CS_LOCK_BITS \<noteq> 0 \<and> refdiv = pll_cs p AND 0x3f \<and>
     fbdiv = pll_fbdiv_int p AND 0xfff \<and> pdiv = pll_prim p AND (0x70000 OR 0x7000)"

text \<open>A reference divider of zero, or one over the crystal's megahertz, divides by zero.\<close>

definition pll_init :: "nat \<Rightarrow> environment \<Rightarrow> pll \<Rightarrow> u32 \<Rightarrow> u32 \<Rightarrow> u32 \<Rightarrow> u32 \<Rightarrow> clocks \<Rightarrow> fault + clocks" where
  "pll_init fuel hw pll refdiv vco_freq post_div1 post_div2 c =
     (if refdiv = 0 \<or> XOSC_MHZ div refdiv * MHZ = 0 then Inl DivisionByZero
      else
        let ref_mhz = XOSC_MHZ div refdiv;
            fbdiv = vco_freq div (ref_mhz * MHZ);
            pdiv = push_bit 16 post_div1 OR push_bit 12 post_div2
        in if pll_configured refdiv fbdiv pdiv (get_pll pll c) then Inr c
           else
             let pll_reset = (if pll = Pll_Usb then 0x2000 else 0x1000)
             in rbind (unreset_block_wait fuel hw pll_reset (reset_block pll_reset c)) (\<lambda>c1.
                let c2 = put_pll pll ((get_pll pll c1)\<lparr>pll_cs := refdiv, pll_fbdiv_int := fbdiv\<rparr>) c1;
                    power = 1 OR 0x20;
                    c3 = put_pll pll ((get_pll pll c2)\<lparr>pll_pwr := hw_clear_bits (pll_pwr (get_pll pll c2)) power\<rparr>) c2
                in rbind (wait_for fuel hw (\<lambda>c. pll_cs (get_pll pll c) AND PLL_CS_LOCK_BITS \<noteq> 0) c3) (\<lambda>c4.
                   let c5 = put_pll pll ((get_pll pll c4)\<lparr>pll_prim := pdiv\<rparr>) c4
                   in Inr (put_pll pll ((get_pll pll c5)\<lparr>pll_pwr := hw_clear_bits (pll_pwr (get_pll pll c5)) 8\<rparr>) c5))))"

definition pll_deinit :: "pll \<Rightarrow> clocks \<Rightarrow> clocks" where
  "pll_deinit pll c = put_pll pll ((get_pll pll c)\<lparr>pll_pwr := 0x2d\<rparr>) c"

section \<open>Clock generators\<close>

definition SRC_BITS :: u32 where "SRC_BITS = 3"
definition AUXSRC_BITS :: u32 where "AUXSRC_BITS = 0xe0"
definition ENABLE_BITS :: u32 where "ENABLE_BITS = 0x800"

lemmas clock_consts = SRC_BITS_def AUXSRC_BITS_def ENABLE_BITS_def

definition has_glitchless_mux :: "nat \<Rightarrow> bool" where
  "has_glitchless_mux clk_index \<longleftrightarrow> clk_index = clk_sys \<or> clk_index = clk_ref"

definition clock_stop :: "nat \<Rightarrow> clocks \<Rightarrow> clocks" where
  "clock_stop i c =
     (write_clk_ctrl i (hw_clear_bits (clk_ctrl (clk c i)) ENABLE_BITS) c)
       \<lparr>configured_freq := (configured_freq c)(i := 0)\<rparr>"

definition clock_divisor :: "u32 \<Rightarrow> u32 \<Rightarrow> u32" where
  "clock_divisor src_freq freq = ucast (push_bit 8 (ucast src_freq :: u64) div ucast freq)"

text \<open>The delay of three cycles per round that lets the enable bit propagate has no other effect.\<close>

definition clock_leave :: "nat \<Rightarrow> environment \<Rightarrow> nat \<Rightarrow> u32 \<Rightarrow> clocks \<Rightarrow> fault + clocks" where
  "clock_leave fuel hw i src c =
     (if has_glitchless_mux i \<and> src = 1 then
        wait_selected fuel hw i (\<lambda>s. s AND 1 \<noteq> 0) (write_clk_ctrl i (hw_clear_bits (clk_ctrl (clk c i)) SRC_BITS) c)
      else Inr (write_clk_ctrl i (hw_clear_bits (clk_ctrl (clk c i)) ENABLE_BITS) c))"

definition clock_select :: "nat \<Rightarrow> environment \<Rightarrow> nat \<Rightarrow> u32 \<Rightarrow> u32 \<Rightarrow> clocks \<Rightarrow> fault + clocks" where
  "clock_select fuel hw i src auxsrc c =
     (let c1 = write_clk_ctrl i (hw_write_masked (clk_ctrl (clk c i)) (push_bit 5 auxsrc) AUXSRC_BITS) c
      in if has_glitchless_mux i then
           wait_selected fuel hw i (\<lambda>s. s AND push_bit (unat src) 1 \<noteq> 0)
             (write_clk_ctrl i (hw_write_masked (clk_ctrl (clk c1 i)) (push_bit 0 src) SRC_BITS) c1)
         else Inr c1)"

definition clock_configure ::
    "nat \<Rightarrow> environment \<Rightarrow> nat \<Rightarrow> u32 \<Rightarrow> u32 \<Rightarrow> u32 \<Rightarrow> u32 \<Rightarrow> clocks \<Rightarrow> fault + (bool \<times> clocks)" where
  "clock_configure fuel hw i src auxsrc src_freq freq c =
     (if freq > src_freq then Inr (False, c)
      else if freq = 0 then Inl DivisionByZero
      else
        let d = clock_divisor src_freq freq;
            c1 = (if d > clk_div (clk c i) then write_clk_div i d c else c)
        in rbind (clock_leave fuel hw i src c1) (\<lambda>c2.
           rbind (clock_select fuel hw i src auxsrc c2) (\<lambda>c3.
             let c4 = write_clk_ctrl i (hw_set_bits (clk_ctrl (clk c3 i)) ENABLE_BITS) c3;
                 c5 = write_clk_div i d c4
             in if d = 0 then Inl DivisionByZero
                else Inr (True, c5\<lparr>configured_freq := (configured_freq c5)(i :=
                       ucast (push_bit 8 (ucast src_freq :: u64) div ucast d))\<rparr>))))"

definition clock_get_hz :: "nat \<Rightarrow> clocks \<Rightarrow> u32" where
  "clock_get_hz i c = configured_freq c i"

definition clock_set_reported_hz :: "nat \<Rightarrow> u32 \<Rightarrow> clocks \<Rightarrow> clocks" where
  "clock_set_reported_hz i hz c = c\<lparr>configured_freq := (configured_freq c)(i := hz)\<rparr>"

section \<open>Initialisation\<close>

definition configure :: "nat \<Rightarrow> environment \<Rightarrow> nat \<Rightarrow> u32 \<Rightarrow> u32 \<Rightarrow> u32 \<Rightarrow> u32 \<Rightarrow> clocks \<Rightarrow> fault + clocks" where
  "configure fuel hw i src auxsrc src_freq freq c =
     rbind (clock_configure fuel hw i src auxsrc src_freq freq c) (\<lambda>(_, c1). Inr c1)"

definition switch_to_source_0 :: "nat \<Rightarrow> environment \<Rightarrow> nat \<Rightarrow> u32 \<Rightarrow> clocks \<Rightarrow> fault + clocks" where
  "switch_to_source_0 fuel hw i bits c =
     wait_selected fuel hw i (\<lambda>s. s = 1) (write_clk_ctrl i (hw_clear_bits (clk_ctrl (clk c i)) bits) c)"

definition clocks_init :: "nat \<Rightarrow> environment \<Rightarrow> clocks \<Rightarrow> fault + clocks" where
  "clocks_init fuel hw c =
     (let c1 = c\<lparr>watchdog := watchdog_start_tick XOSC_MHZ (watchdog c)\<rparr>
      in if on_fpga c1 then
           Inr (c1\<lparr>configured_freq :=
             (\<lambda>i. if i = clk_rtc then 46875 else if i < CLK_COUNT then 48 * MHZ else configured_freq c1 i)\<rparr>)
         else
           rbind (xosc_init fuel hw (c1\<lparr>resus_ctrl := 0\<rparr>)) (\<lambda>c2.
           rbind (switch_to_source_0 fuel hw clk_sys 1 c2) (\<lambda>c3.
           rbind (switch_to_source_0 fuel hw clk_ref SRC_BITS c3) (\<lambda>c4.
           rbind (pll_init fuel hw Pll_Sys 1 (1500 * MHZ) 6 2 c4) (\<lambda>c5.
           rbind (pll_init fuel hw Pll_Usb 1 (1200 * MHZ) 5 5 c5) (\<lambda>c6.
           rbind (configure fuel hw clk_ref 2 0 (12 * MHZ) (12 * MHZ) c6) (\<lambda>c7.
           rbind (configure fuel hw clk_sys 1 0 (125 * MHZ) (125 * MHZ) c7) (\<lambda>c8.
           rbind (configure fuel hw clk_usb 0 0 (48 * MHZ) (48 * MHZ) c8) (\<lambda>c9.
           rbind (configure fuel hw clk_adc 0 0 (48 * MHZ) (48 * MHZ) c9) (\<lambda>c10.
           rbind (configure fuel hw clk_rtc 0 0 (48 * MHZ) 46875 c10) (\<lambda>c11.
           configure fuel hw clk_peri 0 0 (125 * MHZ) (125 * MHZ) c11)))))))))))"

section \<open>Measuring, resuscitation, pins\<close>

text \<open>Writing the source starts the measurement.\<close>

definition frequency_count_khz :: "nat \<Rightarrow> environment \<Rightarrow> u32 \<Rightarrow> clocks \<Rightarrow> fault + (u32 \<times> clocks)" where
  "frequency_count_khz fuel hw src c =
     rbind (wait_for fuel hw (\<lambda>c. fc_status (fc0 c) AND 0x100 = 0) c) (\<lambda>c1.
       let c2 = c1\<lparr>fc0 := (fc0 c1)\<lparr>ref_khz := clock_get_hz clk_ref c1 div 1000, fc_interval := 10,
                  min_khz := 0, max_khz := 0xffffffff, fc_src := src\<rparr>\<rparr>
       in rbind (wait_for fuel hw (\<lambda>c. fc_status (fc0 c) AND 0x10 \<noteq> 0) (hw c2)) (\<lambda>c3.
            Inr (drop_bit 5 (fc_result (fc0 c3)), c3)))"

definition CLEAR_BITS :: u32 where "CLEAR_BITS = 0x10000"

definition clocks_handle_resus :: "nat \<Rightarrow> environment \<Rightarrow> clocks \<Rightarrow> fault + clocks" where
  "clocks_handle_resus fuel hw c =
     (let clk_ref_freq = clock_get_hz clk_ref c
      in rbind (configure fuel hw clk_sys 0 0 clk_ref_freq clk_ref_freq c) (\<lambda>c1.
         let c2 = c1\<lparr>resus_ctrl := hw_set_bits (resus_ctrl c1) CLEAR_BITS\<rparr>;
             c3 = c2\<lparr>resus_ctrl := hw_clear_bits (resus_ctrl c2) CLEAR_BITS\<rparr>
         in Inr (case resus_callback c3 of None \<Rightarrow> c3 | Some f \<Rightarrow> c3\<lparr>resus_calls := resus_calls c3 @ [f]\<rparr>)))"

text \<open>The panic on another interrupt exists in debug builds only.\<close>

definition clocks_irq_handler :: "nat \<Rightarrow> environment \<Rightarrow> clocks \<Rightarrow> fault + clocks" where
  "clocks_irq_handler fuel hw c =
     (if clocks_ints c AND 1 \<noteq> 0 then clocks_handle_resus fuel hw c else Inr c)"

text \<open>The code address of the interrupt handler.\<close>

definition clocks_irq_handler_code :: u32 where "clocks_irq_handler_code = 0x10000801"

definition clocks_enable_resus :: "nat option \<Rightarrow> clocks \<Rightarrow> fault + clocks" where
  "clocks_enable_resus callback c =
     rbind (irq_set_exclusive_handler 17 clocks_irq_handler_code (clock_irqs c)) (\<lambda>irqs.
       Inr (c\<lparr>resus_callback := callback, clocks_inte := 1, clock_irqs := irq_set_enabled 17 True irqs,
             resus_ctrl := 0x100 OR (2 * 3 * 1)\<rparr>))"

definition clock_gpio_init :: "nat \<Rightarrow> u32 \<Rightarrow> u32 \<Rightarrow> clocks \<Rightarrow> clocks" where
  "clock_gpio_init gpio src dv c =
     (let gpclk = (if gpio = 21 then clk_gpout0 else if gpio = 23 then clk_gpout1
                   else if gpio = 24 then clk_gpout2 else if gpio = 25 then clk_gpout3 else 0);
          c1 = write_clk_ctrl gpclk (push_bit 5 src OR 0x800) c;
          c2 = write_clk_div gpclk (push_bit 8 dv) c1
      in c2\<lparr>clock_pins := gpio_set_function gpio GPIO_FUNC_GPCK (clock_pins c2)\<rparr>)"

definition gpin0_src :: "u8 list" where
  "gpin0_src = [1, 1, 1, 1, 1, 4, 5, 4, 4, 4]"

definition clock_configure_gpin ::
    "nat \<Rightarrow> environment \<Rightarrow> nat \<Rightarrow> nat \<Rightarrow> u32 \<Rightarrow> u32 \<Rightarrow> clocks \<Rightarrow> fault + (bool \<times> clocks)" where
  "clock_configure_gpin fuel hw i gpio src_freq freq c =
     (if length gpin0_src \<le> i then Inl OutOfBounds
      else
        let gpin = (if gpio = 20 then 0 else if gpio = 22 then 1 else 0);
            auxsrc = ucast (gpin0_src ! i) + gpin;
            src = (if has_glitchless_mux i then 1 else 0)
        in clock_configure fuel hw i src auxsrc src_freq freq
             (c\<lparr>clock_pins := gpio_set_function gpio GPIO_FUNC_GPCK (clock_pins c)\<rparr>))"

section \<open>The system clock\<close>

definition set_sys_clock_48mhz :: "nat \<Rightarrow> environment \<Rightarrow> clocks \<Rightarrow> fault + clocks" where
  "set_sys_clock_48mhz fuel hw c =
     (if on_fpga c then Inr c
      else
        rbind (configure fuel hw clk_sys 1 1 (48 * MHZ) (48 * MHZ) c) (\<lambda>c1.
        configure fuel hw clk_peri 0 0 (48 * MHZ) (48 * MHZ) (pll_deinit Pll_Sys c1)))"

definition set_sys_clock_pll :: "nat \<Rightarrow> environment \<Rightarrow> u32 \<Rightarrow> u32 \<Rightarrow> u32 \<Rightarrow> clocks \<Rightarrow> fault + clocks" where
  "set_sys_clock_pll fuel hw vco_freq post_div1 post_div2 c =
     (if on_fpga c then Inr c
      else
        rbind (configure fuel hw clk_sys 1 1 (48 * MHZ) (48 * MHZ) c) (\<lambda>c1.
        rbind (pll_init fuel hw Pll_Sys 1 vco_freq post_div1 post_div2 c1) (\<lambda>c2.
        if post_div1 * post_div2 = 0 then Inl DivisionByZero
        else
          let freq = vco_freq div (post_div1 * post_div2)
          in rbind (configure fuel hw clk_ref 2 0 (12 * MHZ) (12 * MHZ) c2) (\<lambda>c3.
             rbind (configure fuel hw clk_sys 1 0 freq freq c3) (\<lambda>c4.
             configure fuel hw clk_peri 0 2 (48 * MHZ) (48 * MHZ) c4)))))"

text \<open>The loops of the search count down; the divisors stay below 2 ^ 32.\<close>

fun check_postdiv2 :: "u32 \<Rightarrow> u32 \<Rightarrow> nat \<Rightarrow> nat \<Rightarrow> (u32 \<times> nat \<times> nat) option" where
  "check_postdiv2 freq_khz vco postdiv1 0 = None"
| "check_postdiv2 freq_khz vco postdiv1 (Suc n) =
     (let postdiv2 = Suc n; out = vco div (of_nat postdiv1 * of_nat postdiv2)
      in if out = freq_khz \<and> vco mod (of_nat postdiv1 * of_nat postdiv2) = 0
         then Some (vco * 1000, postdiv1, postdiv2)
         else check_postdiv2 freq_khz vco postdiv1 n)"

fun check_postdiv1 :: "u32 \<Rightarrow> u32 \<Rightarrow> nat \<Rightarrow> (u32 \<times> nat \<times> nat) option" where
  "check_postdiv1 freq_khz vco 0 = None"
| "check_postdiv1 freq_khz vco (Suc n) =
     (case check_postdiv2 freq_khz vco (Suc n) (Suc n) of
        Some r \<Rightarrow> Some r | None \<Rightarrow> check_postdiv1 freq_khz vco n)"

fun check_fbdiv :: "u32 \<Rightarrow> u32 \<Rightarrow> nat \<Rightarrow> (u32 \<times> nat \<times> nat) option" where
  "check_fbdiv freq_khz crystal_freq_khz 0 = None"
| "check_fbdiv freq_khz crystal_freq_khz (Suc n) =
     (let fbdiv = Suc n; vco = of_nat fbdiv * crystal_freq_khz
      in if fbdiv < 16 then None
         else if vco < 750 * 1000 \<or> vco > 1600 * 1000 then check_fbdiv freq_khz crystal_freq_khz n
         else case check_postdiv1 freq_khz vco 7 of
                Some r \<Rightarrow> Some r | None \<Rightarrow> check_fbdiv freq_khz crystal_freq_khz n)"

definition check_sys_clock_khz :: "u32 \<Rightarrow> clocks \<Rightarrow> (u32 \<times> nat \<times> nat) option" where
  "check_sys_clock_khz freq_khz c = check_fbdiv freq_khz (clock_get_hz clk_ref c div 1000) 320"

definition set_sys_clock_khz :: "nat \<Rightarrow> environment \<Rightarrow> u32 \<Rightarrow> bool \<Rightarrow> clocks \<Rightarrow> fault + (bool \<times> clocks)" where
  "set_sys_clock_khz fuel hw freq_khz required c =
     (case check_sys_clock_khz freq_khz c of
        Some (vco, postdiv1, postdiv2) \<Rightarrow>
          rbind (set_sys_clock_pll fuel hw vco (of_nat postdiv1) (of_nat postdiv2) c) (\<lambda>c1. Inr (True, c1))
      | None \<Rightarrow> if required then Inl Panic else Inr (False, c))"

end
