(* ===== verification/Clock_Facts.thy ===== *)
theory Clock_Facts
  imports Clocks Complex_Main
begin

text \<open>
  The clock tree: a clock generator is never faster than before or after while it is reconfigured,
  the start-up configures the clocks it means to, and a system clock is accepted exactly if a
  setting of the loop gives it.
\<close>

unbundle bit_operations_syntax

section \<open>The fields of the control register\<close>

definition source_field :: "clock_hw \<Rightarrow> u32" where
  "source_field h = clk_ctrl h AND 3"

definition aux_field :: "clock_hw \<Rightarrow> u32" where
  "aux_field h = drop_bit 5 (clk_ctrl h) AND 7"

definition clock_enabled :: "clock_hw \<Rightarrow> bool" where
  "clock_enabled h \<longleftrightarrow> bit (clk_ctrl h) 11"

lemmas field_defs = source_field_def aux_field_def clock_enabled_def

lemma field_masks: "(3 :: u32) = mask 2" "(7 :: u32) = mask 3" "SRC_BITS = mask 2" "AUXSRC_BITS = push_bit 5 (mask 3)"
  by (simp_all add: mask_eq_exp_minus_1 push_bit_eq_mult clock_consts)

lemma bit_enable: "bit ENABLE_BITS n \<longleftrightarrow> n = 11"
proof -
  have "ENABLE_BITS = push_bit 11 1" by (simp add: ENABLE_BITS_def push_bit_eq_mult)
  show ?thesis by (simp only: \<open>ENABLE_BITS = _\<close> bit_push_one) simp
qed

lemma small_bits:
  assumes "(x :: u32) < 2 ^ n" "bit x k" "n < 32"
  shows "k < n"
  using small_word(1) [of x n] assms by (simp add: bit_take_bit_iff) (metis bit_take_bit_iff)

lemmas field_simps = field_masks bit_enable reg_simps bit_simps

lemma write_aux_fields:
  assumes "x < 8"
  shows "hw_write_masked r (push_bit 5 x) AUXSRC_BITS AND 3 = r AND 3"
    "drop_bit 5 (hw_write_masked r (push_bit 5 x) AUXSRC_BITS) AND 7 = x"
    "bit (hw_write_masked r (push_bit 5 x) AUXSRC_BITS) 11 = bit r 11"
  using small_bits [of x 3] assms by (force intro!: bit_eqI simp: field_simps)+

lemma write_source_fields:
  assumes "x < 4"
  shows "hw_write_masked r (push_bit 0 x) SRC_BITS AND 3 = x"
    "drop_bit 5 (hw_write_masked r (push_bit 0 x) SRC_BITS) AND 7 = drop_bit 5 r AND 7"
    "bit (hw_write_masked r (push_bit 0 x) SRC_BITS) 11 = bit r 11"
  using small_bits [of x 2] assms by (auto intro!: bit_eqI simp: field_simps)

lemma clear_source_fields:
  "hw_clear_bits r SRC_BITS AND 3 = 0" "drop_bit 5 (hw_clear_bits r SRC_BITS) AND 7 = drop_bit 5 r AND 7"
  by (auto intro!: bit_eqI simp: field_simps)

lemma enable_fields:
  "hw_set_bits r ENABLE_BITS AND 3 = r AND 3" "drop_bit 5 (hw_set_bits r ENABLE_BITS) AND 7 = drop_bit 5 r AND 7"
  "bit (hw_set_bits r ENABLE_BITS) 11" "\<not> bit (hw_clear_bits r ENABLE_BITS) 11"
  by (auto intro!: bit_eqI simp: field_simps)


definition hz_of :: "u32 \<Rightarrow> real" where
  "hz_of w = real (unat w)"

lemma hz_of_nonneg [simp]: "0 \<le> hz_of w"
  unfolding hz_of_def by (rule of_nat_0_le_iff)

section \<open>The frequency of a generator\<close>

text \<open>
  A generator with a glitchless mux runs from the source that \<open>selected\<close> shows, one of
  \<open>src_hz\<close> or, for source 1, the auxiliary mux; the others run from the auxiliary mux while
  enabled. The divisor has eight fractional bits.
\<close>

definition running_hz :: "(nat \<Rightarrow> real) \<Rightarrow> (u32 \<Rightarrow> real) \<Rightarrow> nat \<Rightarrow> clock_hw \<Rightarrow> real" where
  "running_hz src_hz aux_hz i h =
     (if has_glitchless_mux i then
        if clk_selected h = 2 then aux_hz (aux_field h) else if clk_selected h = 1 then src_hz 0 else src_hz 2
      else if clock_enabled h then aux_hz (aux_field h) else 0)"

definition output_hz :: "(nat \<Rightarrow> real) \<Rightarrow> (u32 \<Rightarrow> real) \<Rightarrow> nat \<Rightarrow> clock_hw \<Rightarrow> real" where
  "output_hz src_hz aux_hz i h = running_hz src_hz aux_hz i h * 256 / hz_of (clk_div h)"

text \<open>
  The glitchless mux follows the source field after some time; the hardware changes nothing else
  of the generators.
\<close>

definition mux_follows :: "environment \<Rightarrow> bool" where
  "mux_follows hw \<longleftrightarrow> (\<forall>c. trail (hw c) = trail c \<and> configured_freq (hw c) = configured_freq c \<and>
     on_fpga (hw c) = on_fpga c \<and>
     (\<forall>i. clk (hw c) i = clk c i \<or>
       clk (hw c) i = (clk c i)\<lparr>clk_selected := push_bit (unat (source_field (clk c i))) 1\<rparr>))"

text \<open>What holds of a generator while the code waits holds of all its states.\<close>

lemma wait_selected_states:
  assumes "mux_follows hw"
    and "\<And>h. I h \<Longrightarrow> I (h\<lparr>clk_selected := push_bit (unat (source_field h)) 1\<rparr>)"
  shows "wait_selected fuel hw i ready c = Inr c' \<Longrightarrow> I (clk c i) \<Longrightarrow>
    I (clk c' i) \<and> ready (clk_selected (clk c' i)) \<and> configured_freq c' = configured_freq c \<and> on_fpga c' = on_fpga c \<and>
    (\<exists>hs. trail c' = trail c @ map (Pair i) hs \<and> (\<forall>h \<in> set hs. I h))"
proof (induction fuel arbitrary: c)
  case 0
  then show ?case by simp
next
  case (Suc fuel)
  show ?case
  proof (cases "ready (clk_selected (clk c i))")
    case True
    then show ?thesis using Suc.prems by (auto intro: exI [of _ "[]"])
  next
    case False
    let ?h = "clk (hw c) i" and ?c = "put_clk i (clk (hw c) i) (hw c)"
    have h: "I ?h" using assms Suc.prems(2) unfolding mux_follows_def by metis
    have "wait_selected fuel hw i ready ?c = Inr c'" using False Suc.prems(1) by (simp add: Let_def)
    from Suc.IH [OF this] h obtain hs where
      r: "I (clk c' i)" "ready (clk_selected (clk c' i))" "configured_freq c' = configured_freq ?c" "on_fpga c' = on_fpga ?c"
      "trail c' = trail ?c @ map (Pair i) hs" "\<forall>h \<in> set hs. I h" by (auto simp: put_clk_def)
    have e: "trail (hw c) = trail c" "configured_freq (hw c) = configured_freq c" "on_fpga (hw c) = on_fpga c"
      using assms(1) by (simp_all add: mux_follows_def)
    then have "trail c' = trail c @ map (Pair i) (?h # hs)" using r(5) by (simp add: put_clk_def)
    moreover have "\<forall>g \<in> set (?h # hs). I g" using h r(6) by simp
    ultimately show ?thesis using r(1-4) e unfolding put_clk_def by (intro conjI exI [of _ "?h # hs"]) simp_all
  qed
qed

text \<open>\<open>passes P i c c'\<close>: from \<open>c\<close> to \<open>c'\<close> only generator \<open>i\<close> changes, through states with \<open>P\<close>.\<close>

definition passes :: "(clock_hw \<Rightarrow> bool) \<Rightarrow> nat \<Rightarrow> clocks \<Rightarrow> clocks \<Rightarrow> bool" where
  "passes P i c c' \<longleftrightarrow> configured_freq c' = configured_freq c \<and> on_fpga c' = on_fpga c \<and>
     (\<exists>hs. trail c' = trail c @ map (Pair i) hs \<and> (\<forall>h \<in> set hs. P h))"

lemma passes_refl: "passes P i c c"
  by (auto simp: passes_def intro: exI [of _ "[]"])

lemma passes_trans: "passes P i c c' \<Longrightarrow> passes P i c' c'' \<Longrightarrow> passes P i c c''"
proof -
  assume a: "passes P i c c'" and b: "passes P i c' c''"
  from a obtain hs where "trail c' = trail c @ map (Pair i) hs" "\<forall>h \<in> set hs. P h" by (auto simp: passes_def)
  moreover from b obtain gs where "trail c'' = trail c' @ map (Pair i) gs" "\<forall>h \<in> set gs. P h" by (auto simp: passes_def)
  ultimately have "trail c'' = trail c @ map (Pair i) (hs @ gs) \<and> (\<forall>h \<in> set (hs @ gs). P h)" by auto
  then show ?thesis using a b unfolding passes_def by metis
qed

lemma passes_put: "P h \<Longrightarrow> passes P i c (put_clk i h c)"
  by (auto simp: passes_def put_clk_def intro: exI [of _ "[h]"])

lemma passes_mono: "passes P i c c' \<Longrightarrow> (\<And>h. P h \<Longrightarrow> Q h) \<Longrightarrow> passes Q i c c'"
  unfolding passes_def by blast

lemma put_clk_same [simp]: "clk (put_clk i h c) i = h"
  by (simp add: put_clk_def)

text \<open>The auxiliary source is free to be selected: a generator with a glitchless mux leaves it first.\<close>

definition safe_setting ::
    "(nat \<Rightarrow> real) \<Rightarrow> (u32 \<Rightarrow> real) \<Rightarrow> environment \<Rightarrow> nat \<Rightarrow> u32 \<Rightarrow> u32 \<Rightarrow> u32 \<Rightarrow> clocks \<Rightarrow> bool" where
  "safe_setting src_hz aux_hz hw i src auxsrc src_freq c \<longleftrightarrow>
     mux_follows hw \<and> (\<forall>n. 0 \<le> src_hz n) \<and> (\<forall>n. 0 \<le> aux_hz n) \<and> auxsrc < 8 \<and>
     aux_hz auxsrc = hz_of src_freq \<and> clk_div (clk c i) \<noteq> 0 \<and>
     (has_glitchless_mux i \<longrightarrow> src = 1 \<and> clk_selected (clk c i) \<in> {1, 2, 4} \<and> src_hz 0 \<le> hz_of src_freq)"

lemma output_slower:
  assumes "0 \<le> x" "x \<le> y" "0 < d" "d \<le> e"
  shows "x * 256 / hz_of e \<le> y * 256 / hz_of d"
proof -
  have "0 < unat d" "unat d \<le> unat e" using assms(3,4) by (simp_all add: word_less_nat_alt word_le_nat_alt)
  then have "0 < hz_of d" "hz_of d \<le> hz_of e" unfolding hz_of_def by linarith+
  then show ?thesis using assms(1,2) by (intro frac_le) linarith+
qed

lemma leave_glitchless:
  assumes s: "safe_setting src_hz aux_hz hw i 1 auxsrc src_freq c" and g: "has_glitchless_mux i"
    and r: "clock_leave fuel hw i 1 c = Inr c'" and d: "0 < d" "d \<le> clk_div (clk c i)"
    and B: "output_hz src_hz aux_hz i (clk c i) \<le> B" "hz_of src_freq * 256 / hz_of d \<le> B"
  shows "passes (\<lambda>h. output_hz src_hz aux_hz i h \<le> B) i c c' \<and> clk_div (clk c' i) = clk_div (clk c i) \<and>
    clk_selected (clk c' i) = 1"
proof -
  let ?g = "clk c i" and ?w = "write_clk_ctrl i (hw_clear_bits (clk_ctrl (clk c i)) SRC_BITS) c"
  let ?I = "\<lambda>h. clk_div h = clk_div ?g \<and> source_field h = 0 \<and> aux_field h = aux_field ?g \<and>
      (clk_selected h = clk_selected ?g \<or> clk_selected h = 1)"
  have ok: "output_hz src_hz aux_hz i h \<le> B" if "?I h" for h
  proof (cases "clk_selected h = 1")
    case True
    have "src_hz 0 * 256 / hz_of (clk_div ?g) \<le> hz_of src_freq * 256 / hz_of d"
      using s g d by (intro output_slower) (auto simp: safe_setting_def)
    then show ?thesis using True that g B(2) by (simp add: output_hz_def running_hz_def)
  next
    case False
    then show ?thesis using that g B(1) by (simp add: output_hz_def running_hz_def split: if_splits)
  qed
  have I: "?I (clk ?w i)" by (simp add: write_clk_ctrl_def field_defs clear_source_fields)
  have mf: "mux_follows hw" using s by (simp add: safe_setting_def)
  have w: "wait_selected fuel hw i (\<lambda>s. s AND 1 \<noteq> 0) ?w = Inr c'" using r g by (simp add: clock_leave_def)
  have step: "?I h \<Longrightarrow> ?I (h\<lparr>clk_selected := push_bit (unat (source_field h)) 1\<rparr>)" for h
    by (simp add: field_defs)
  have R: "?I (clk c' i) \<and> clk_selected (clk c' i) AND 1 \<noteq> 0 \<and> configured_freq c' = configured_freq ?w \<and>
      on_fpga c' = on_fpga ?w \<and> (\<exists>hs. trail c' = trail ?w @ map (Pair i) hs \<and> (\<forall>h \<in> set hs. ?I h))"
    using wait_selected_states [of hw ?I, OF mf step w I] by blast
  have "passes ?I i ?w c'" using R by (simp add: passes_def)
  then have "passes (\<lambda>h. output_hz src_hz aux_hz i h \<le> B) i ?w c'" by (rule passes_mono) (rule ok)
  moreover have "passes (\<lambda>h. output_hz src_hz aux_hz i h \<le> B) i c ?w"
    using ok [OF I] unfolding write_clk_ctrl_def by (intro passes_put) simp
  moreover have "clk_selected (clk c' i) = 1"
    using R s g by (auto simp: safe_setting_def)
  ultimately show ?thesis using R passes_trans by blast
qed

lemma select_glitchless:
  assumes s: "safe_setting src_hz aux_hz hw i 1 auxsrc src_freq c0" and g: "has_glitchless_mux i"
    and r: "clock_select fuel hw i 1 auxsrc c = Inr c'" and c: "clk_selected (clk c i) = 1"
    and d: "0 < d" "d \<le> clk_div (clk c i)" and B: "hz_of src_freq * 256 / hz_of d \<le> B"
  shows "passes (\<lambda>h. output_hz src_hz aux_hz i h \<le> B) i c c' \<and> clk_div (clk c' i) = clk_div (clk c i) \<and>
    clk_selected (clk c' i) = 2 \<and> aux_field (clk c' i) = auxsrc"
proof -
  let ?w = "write_clk_ctrl i (hw_write_masked (clk_ctrl (clk c i)) (push_bit 5 auxsrc) AUXSRC_BITS) c"
  let ?v = "write_clk_ctrl i (hw_write_masked (clk_ctrl (clk ?w i)) (push_bit 0 1) SRC_BITS) ?w"
  let ?I = "\<lambda>h. clk_div h = clk_div (clk c i) \<and> source_field h = 1 \<and> aux_field h = auxsrc \<and>
      (clk_selected h = 1 \<or> clk_selected h = 2)"
  have x: "auxsrc < 8" "mux_follows hw" using s by (simp_all add: safe_setting_def)
  have slow: "z * 256 / hz_of (clk_div (clk c i)) \<le> B" if "0 \<le> z" "z \<le> hz_of src_freq" for z
    using output_slower [OF that d] B by linarith
  have slow0: "src_hz 0 * 256 / hz_of (clk_div (clk c i)) \<le> B"
    using s g by (intro slow) (auto simp: safe_setting_def)
  have slow1: "aux_hz auxsrc * 256 / hz_of (clk_div (clk c i)) \<le> B"
    using s by (intro slow) (auto simp: safe_setting_def)
  have ok: "output_hz src_hz aux_hz i h \<le> B"
    if "clk_div h = clk_div (clk c i)" "clk_selected h = 1 \<or> clk_selected h = 2 \<and> aux_field h = auxsrc" for h
    using that g slow0 slow1 by (auto simp: output_hz_def running_hz_def)
  have I: "?I (clk ?v i)"
    using c by (simp add: write_clk_ctrl_def field_defs write_source_fields [unfolded push_bit_0_id id_apply]
        write_aux_fields [OF x(1)])
  have w: "wait_selected fuel hw i (\<lambda>s. s AND push_bit (unat 1) 1 \<noteq> 0) ?v = Inr c'"
    using r g by (simp add: clock_select_def Let_def)
  have step: "?I h \<Longrightarrow> ?I (h\<lparr>clk_selected := push_bit (unat (source_field h)) 1\<rparr>)" for h
    by (simp add: field_defs)
  have R: "?I (clk c' i) \<and> clk_selected (clk c' i) AND push_bit (unat (1 :: u32)) 1 \<noteq> 0 \<and>
      configured_freq c' = configured_freq ?v \<and> on_fpga c' = on_fpga ?v \<and>
      (\<exists>hs. trail c' = trail ?v @ map (Pair i) hs \<and> (\<forall>h \<in> set hs. ?I h))"
    using wait_selected_states [of hw ?I, OF x(2) step w I] by blast
  have "passes ?I i ?v c'" using R by (simp add: passes_def)
  then have "passes (\<lambda>h. output_hz src_hz aux_hz i h \<le> B) i ?v c'" by (rule passes_mono) (rule ok, auto)
  moreover have "passes (\<lambda>h. output_hz src_hz aux_hz i h \<le> B) i ?w ?v"
    using ok [of "clk ?v i"] I unfolding write_clk_ctrl_def by (intro passes_put) simp
  moreover have "passes (\<lambda>h. output_hz src_hz aux_hz i h \<le> B) i c ?w"
    using ok [of "clk ?w i"] c unfolding write_clk_ctrl_def by (intro passes_put) simp
  moreover have "clk_selected (clk c' i) = 2" using R by auto
  ultimately show ?thesis using R passes_trans by blast
qed

lemma switch_plain:
  assumes s: "safe_setting src_hz aux_hz hw i src auxsrc src_freq c0" and g: "\<not> has_glitchless_mux i" and B: "0 \<le> B"
    and r: "clock_leave fuel hw i src c = Inr c1" "clock_select fuel hw i src auxsrc c1 = Inr c2"
  shows "passes (\<lambda>h. output_hz src_hz aux_hz i h \<le> B) i c c2 \<and> clk_div (clk c2 i) = clk_div (clk c i) \<and>
    aux_field (clk c2 i) = auxsrc"
proof -
  have x: "auxsrc < 8" using s by (simp add: safe_setting_def)
  have c1: "c1 = write_clk_ctrl i (hw_clear_bits (clk_ctrl (clk c i)) ENABLE_BITS) c"
    and c2: "c2 = write_clk_ctrl i (hw_write_masked (clk_ctrl (clk c1 i)) (push_bit 5 auxsrc) AUXSRC_BITS) c1"
    using r g by (simp_all add: clock_leave_def clock_select_def)
  have "\<not> clock_enabled (clk c1 i)" "\<not> clock_enabled (clk c2 i)"
    by (simp_all add: c2 c1 write_clk_ctrl_def field_defs write_aux_fields [OF x] enable_fields)
  then have "output_hz src_hz aux_hz i (clk c1 i) \<le> B" "output_hz src_hz aux_hz i (clk c2 i) \<le> B"
    using g B by (simp_all add: output_hz_def running_hz_def)
  then have "passes (\<lambda>h. output_hz src_hz aux_hz i h \<le> B) i c c1" "passes (\<lambda>h. output_hz src_hz aux_hz i h \<le> B) i c1 c2"
    unfolding c1 c2 write_clk_ctrl_def by (simp_all add: passes_put)
  moreover have "clk_div (clk c2 i) = clk_div (clk c i)" "aux_field (clk c2 i) = auxsrc"
    by (simp_all add: c2 c1 write_clk_ctrl_def field_defs write_aux_fields [OF x])
  ultimately show ?thesis using passes_trans by blast
qed

text \<open>The steps of a reconfiguration: the divisor is raised, the source left and selected, the divisor set.\<close>

lemma clock_configure_steps:
  assumes "clock_configure fuel hw i src auxsrc src_freq freq c = Inr (True, c')"
  obtains d c1 c2 c3 where "d = clock_divisor src_freq freq" "0 < d"
    "c1 = (if d > clk_div (clk c i) then write_clk_div i d c else c)"
    "clock_leave fuel hw i src c1 = Inr c2" "clock_select fuel hw i src auxsrc c2 = Inr c3"
    "c' = (let c5 = write_clk_div i d (write_clk_ctrl i (hw_set_bits (clk_ctrl (clk c3 i)) ENABLE_BITS) c3)
      in c5\<lparr>configured_freq := (configured_freq c5)(i := ucast (push_bit 8 (ucast src_freq :: u64) div ucast d))\<rparr>)"
proof -
  have f: "\<not> freq > src_freq" "freq \<noteq> 0" using assms by (auto simp: clock_configure_def split: if_splits)
  let ?d = "clock_divisor src_freq freq"
  let ?c1 = "if ?d > clk_div (clk c i) then write_clk_div i ?d c else c"
  from assms f obtain c2 c3 where c23: "clock_leave fuel hw i src ?c1 = Inr c2" "clock_select fuel hw i src auxsrc c2 = Inr c3"
    unfolding clock_configure_def Let_def by (auto simp: rbind_eq_Inr_iff)
  have d: "?d \<noteq> 0" using assms f c23 unfolding clock_configure_def Let_def by (auto split: if_splits)
  then have "0 < ?d" by (simp add: word_gt_0)
  moreover have "c' = (let c5 = write_clk_div i ?d (write_clk_ctrl i (hw_set_bits (clk_ctrl (clk c3 i)) ENABLE_BITS) c3)
      in c5\<lparr>configured_freq := (configured_freq c5)(i := ucast (push_bit 8 (ucast src_freq :: u64) div ucast ?d))\<rparr>)"
    using assms f c23 d unfolding clock_configure_def Let_def by simp
  ultimately show ?thesis using that c23 by blast
qed

lemma switch_source:
  assumes s: "safe_setting src_hz aux_hz hw i src auxsrc src_freq c"
    and r: "clock_leave fuel hw i src c = Inr c1" "clock_select fuel hw i src auxsrc c1 = Inr c2"
    and d: "0 < d" "d \<le> clk_div (clk c i)"
    and B: "output_hz src_hz aux_hz i (clk c i) \<le> B" "hz_of src_freq * 256 / hz_of d \<le> B"
  shows "passes (\<lambda>h. output_hz src_hz aux_hz i h \<le> B) i c c2 \<and> clk_div (clk c2 i) = clk_div (clk c i) \<and>
    aux_field (clk c2 i) = auxsrc \<and> (has_glitchless_mux i \<longrightarrow> clk_selected (clk c2 i) = 2)"
proof (cases "has_glitchless_mux i")
  case True
  then have "src = 1" using s by (simp add: safe_setting_def)
  then have s1: "safe_setting src_hz aux_hz hw i 1 auxsrc src_freq c"
    and r1: "clock_leave fuel hw i 1 c = Inr c1" "clock_select fuel hw i 1 auxsrc c1 = Inr c2"
    using s r by simp_all
  note l = leave_glitchless [OF s1 True r1(1) d B]
  then have "passes (\<lambda>h. output_hz src_hz aux_hz i h \<le> B) i c1 c2 \<and> clk_div (clk c2 i) = clk_div (clk c1 i) \<and>
      clk_selected (clk c2 i) = 2 \<and> aux_field (clk c2 i) = auxsrc"
    using d by (intro select_glitchless [OF s1 True r1(2) _ d(1) _ B(2)]) simp_all
  then show ?thesis using l passes_trans [of _ i c c1 c2] by simp
next
  case False
  have "0 \<le> hz_of src_freq * 256 / hz_of d" by simp
  then have "0 \<le> B" using B(2) by linarith
  from switch_plain [OF s False this r] False show ?thesis by simp
qed


text \<open>
  The other way round the auxiliary mux is changed while it is still selected: a system clock that
  leaves its auxiliary source runs for a moment from the new one, whatever its frequency.
\<close>

lemma leaving_aux_glitches:
  assumes hw: "mux_follows hw" and c: "clk_selected (clk c clk_sys) = 2" and x: "auxsrc < 8"
    and r: "clock_configure fuel hw clk_sys 0 auxsrc src_freq freq c = Inr (True, c')"
  shows "\<exists>h. (clk_sys, h) \<in> set (trail c') \<and> running_hz src_hz aux_hz clk_sys h = aux_hz auxsrc"
proof -
  obtain d c1 c2 c3 where c1: "c1 = (if d > clk_div (clk c clk_sys) then write_clk_div clk_sys d c else c)"
    and r: "clock_leave fuel hw clk_sys 0 c1 = Inr c2" "clock_select fuel hw clk_sys 0 auxsrc c2 = Inr c3"
    and c': "c' = (let c5 = write_clk_div clk_sys d (write_clk_ctrl clk_sys (hw_set_bits (clk_ctrl (clk c3 clk_sys)) ENABLE_BITS) c3)
      in c5\<lparr>configured_freq := (configured_freq c5)(clk_sys := ucast (push_bit 8 (ucast src_freq :: u64) div ucast d))\<rparr>)"
    by (rule clock_configure_steps [OF r])
  let ?w = "write_clk_ctrl clk_sys (hw_write_masked (clk_ctrl (clk c2 clk_sys)) (push_bit 5 auxsrc) AUXSRC_BITS) c2"
  let ?v = "write_clk_ctrl clk_sys (hw_write_masked (clk_ctrl (clk ?w clk_sys)) (push_bit 0 0) SRC_BITS) ?w"
  have "clk_selected (clk c2 clk_sys) = 2"
    using c r(1) by (auto simp: clock_leave_def c1 write_clk_div_def write_clk_ctrl_def)
  then have h: "running_hz src_hz aux_hz clk_sys (clk ?w clk_sys) = aux_hz auxsrc"
    by (simp add: running_hz_def has_glitchless_mux_def write_clk_ctrl_def field_defs write_aux_fields [OF x])
  have "wait_selected fuel hw clk_sys (\<lambda>s. s AND push_bit (unat 0) 1 \<noteq> 0) ?v = Inr c3"
    using r(2) by (simp add: clock_select_def Let_def has_glitchless_mux_def)
  from wait_selected_states [OF hw _ this, of "\<lambda>_. True"] have "set (trail ?v) \<subseteq> set (trail c3)" by auto
  moreover have "(clk_sys, clk ?w clk_sys) \<in> set (trail ?v)" by (simp add: write_clk_ctrl_def put_clk_def)
  moreover have "set (trail c3) \<subseteq> set (trail c')" by (auto simp: c' Let_def write_clk_ctrl_def write_clk_div_def put_clk_def)
  ultimately show ?thesis using h by blast
qed

section \<open>Hardware that answers\<close>

text \<open>
  The hardware answers within one round of a waiting loop: the mux follows, the oscillator is
  stable, the loops lock and blocks come out of reset. \<open>prompt\<close> is such hardware.
\<close>

definition answers :: "environment \<Rightarrow> bool" where
  "answers hw \<longleftrightarrow> (\<forall>c. configured_freq (hw c) = configured_freq c \<and> on_fpga (hw c) = on_fpga c \<and>
     (\<forall>i. clk (hw c) i = (clk c i)\<lparr>clk_selected := push_bit (unat (source_field (clk c i))) 1\<rparr>) \<and>
     xosc_stable (hw c) \<and> reset_done (hw c) = NOT (resets_reset c) \<and> resets_reset (hw c) = resets_reset c \<and>
     (\<forall>p. pll_cs (get_pll p (hw c)) AND PLL_CS_LOCK_BITS \<noteq> 0))"

definition prompt :: environment where
  "prompt c = c\<lparr>clk := \<lambda>i. (clk c i)\<lparr>clk_selected := push_bit (unat (source_field (clk c i))) 1\<rparr>,
     xosc := (xosc c)\<lparr>xosc_status := 0x80000000\<rparr>, reset_done := NOT (resets_reset c),
     pll_sys := (pll_sys c)\<lparr>pll_cs := pll_cs (pll_sys c) OR PLL_CS_LOCK_BITS\<rparr>,
     pll_usb := (pll_usb c)\<lparr>pll_cs := pll_cs (pll_usb c) OR PLL_CS_LOCK_BITS\<rparr>\<rparr>"

lemma prompt_follows: "mux_follows prompt"
  by (simp add: mux_follows_def prompt_def)

lemma prompt_answers: "answers prompt"
proof -
  have "pll_cs (get_pll p (prompt c)) AND PLL_CS_LOCK_BITS \<noteq> 0" for p c
    by (cases p) (simp_all add: prompt_def reg_simps PLL_CS_LOCK_BITS_def)
  then show ?thesis by (simp add: answers_def) (simp add: prompt_def xosc_stable_def)
qed

text \<open>\<open>kept\<close>: reported frequencies and the kind of chip.\<close>

definition kept :: "clocks \<Rightarrow> clocks \<Rightarrow> bool" where
  "kept c c' \<longleftrightarrow> configured_freq c' = configured_freq c \<and> on_fpga c' = on_fpga c"

lemma kept_trans: "kept a b \<Longrightarrow> kept b c \<Longrightarrow> kept a c"
  by (simp add: kept_def)

lemma kept_hw: "answers hw \<Longrightarrow> kept c (hw c)"
  by (simp add: answers_def kept_def)

lemma wait_for_answered:
  assumes "answers hw" "ready (hw c)"
  shows "\<exists>c'. wait_for (Suc (Suc n)) hw ready c = Inr c' \<and> kept c c'"
  using assms kept_hw [OF assms(1), of c] by (simp add: kept_def)

lemma wait_selected_answered:
  assumes "answers hw" "ready (push_bit (unat (source_field (clk c i))) 1)"
  shows "\<exists>c'. wait_selected (Suc (Suc n)) hw i ready c = Inr c' \<and> kept c c'"
proof (cases "ready (clk_selected (clk c i))")
  case True
  then show ?thesis by (simp add: kept_def)
next
  case False
  have "clk_selected (clk (hw c) i) = push_bit (unat (source_field (clk c i))) 1" using assms(1) by (simp add: answers_def)
  then show ?thesis using False assms kept_hw [OF assms(1), of c] by (simp add: kept_def put_clk_def Let_def)
qed

lemma clock_leave_answered:
  assumes "answers hw"
  shows "\<exists>c'. clock_leave (Suc (Suc n)) hw i src c = Inr c' \<and> kept c c'"
proof -
  let ?w = "write_clk_ctrl i (hw_clear_bits (clk_ctrl (clk c i)) SRC_BITS) c"
  have "unat (source_field (clk ?w i)) = 0" by (simp add: write_clk_ctrl_def field_defs clear_source_fields)
  then have "\<exists>c'. wait_selected (Suc (Suc n)) hw i (\<lambda>s. s AND 1 \<noteq> 0) ?w = Inr c' \<and> kept ?w c'"
    by (intro wait_selected_answered [OF assms]) simp
  moreover have "kept c ?w" by (simp add: kept_def write_clk_ctrl_def put_clk_def)
  ultimately show ?thesis unfolding clock_leave_def
    by (auto simp: kept_def write_clk_ctrl_def put_clk_def simp del: wait_selected.simps)
qed

lemma clock_select_answered:
  assumes "answers hw" "src < 4"
  shows "\<exists>c'. clock_select (Suc (Suc n)) hw i src auxsrc c = Inr c' \<and> kept c c'"
proof -
  let ?w = "write_clk_ctrl i (hw_write_masked (clk_ctrl (clk c i)) (push_bit 5 auxsrc) AUXSRC_BITS) c"
  let ?v = "write_clk_ctrl i (hw_write_masked (clk_ctrl (clk ?w i)) (push_bit 0 src) SRC_BITS) ?w"
  have "source_field (clk ?v i) = src"
    using write_source_fields [OF assms(2)] by (simp add: write_clk_ctrl_def field_defs)
  moreover have "unat src < 32" using assms(2) by (simp add: word_less_nat_alt)
  then have "bit (push_bit (unat src) (1 :: u32)) (unat src)" by (simp only: bit_push_one)
  then have "push_bit (unat src) (1 :: u32) AND push_bit (unat src) 1 \<noteq> 0" by (metis and.idem bit_0_eq bot_apply bot_bool_def)
  ultimately have "\<exists>c'. wait_selected (Suc (Suc n)) hw i (\<lambda>s. s AND push_bit (unat src) 1 \<noteq> 0) ?v = Inr c' \<and> kept ?v c'"
    by (intro wait_selected_answered [OF assms(1)]) simp
  moreover have "kept c ?w" "kept c ?v" by (simp_all add: kept_def write_clk_ctrl_def put_clk_def)
  ultimately show ?thesis unfolding clock_select_def Let_def
    by (auto simp: kept_def simp del: wait_selected.simps)
qed

lemma clock_configure_answered:
  assumes "answers hw" "src < 4" "freq \<le> src_freq" "freq \<noteq> 0" "clock_divisor src_freq freq \<noteq> 0"
  shows "\<exists>c'. clock_configure (Suc (Suc n)) hw i src auxsrc src_freq freq c = Inr (True, c') \<and>
    on_fpga c' = on_fpga c \<and> configured_freq c' = (configured_freq c)(i :=
      ucast (push_bit 8 (ucast src_freq :: u64) div ucast (clock_divisor src_freq freq)))"
proof -
  let ?d = "clock_divisor src_freq freq"
  let ?c1 = "if ?d > clk_div (clk c i) then write_clk_div i ?d c else c"
  obtain c2 where c2: "clock_leave (Suc (Suc n)) hw i src ?c1 = Inr c2" "kept ?c1 c2"
    using clock_leave_answered [OF assms(1)] by blast
  obtain c3 where c3: "clock_select (Suc (Suc n)) hw i src auxsrc c2 = Inr c3" "kept c2 c3"
    using clock_select_answered [OF assms(1,2)] by blast
  have "kept c ?c1" by (simp add: kept_def write_clk_div_def put_clk_def)
  then have "kept c c3" using c2(2) c3(2) by (blast intro: kept_trans)
  then show ?thesis using assms(3-5) c2(1) c3(1)
    unfolding clock_configure_def Let_def
    by (simp add: not_less kept_def write_clk_ctrl_def write_clk_div_def put_clk_def)
qed


end
