(* ===== verification/Clock_Startup.thy ===== *)
theory Clock_Startup
  imports Clock_Facts
begin

text \<open>
  Start-up configures the clocks to the frequencies that the firmware counts on, and a system
  clock is accepted exactly if the loop and its dividers can give it.
\<close>

unbundle bit_operations_syntax

section \<open>Start-up\<close>

lemma xosc_init_answered:
  assumes "answers hw"
  shows "\<exists>c'. xosc_init (Suc (Suc n)) hw c = Inr c' \<and> kept c c' \<and> (\<forall>i. clk_ctrl (clk c' i) = clk_ctrl (clk c i))"
  using assms by (simp add: xosc_init_def Let_def answers_def kept_def)

lemma pll_init_answered:
  assumes "answers hw" "refdiv \<noteq> 0" "XOSC_MHZ div refdiv * MHZ \<noteq> 0"
  shows "\<exists>c'. pll_init (Suc (Suc n)) hw p refdiv vco d1 d2 c = Inr c' \<and> kept c c'"
proof (cases "pll_configured refdiv (vco div (XOSC_MHZ div refdiv * MHZ)) (push_bit 16 d1 OR push_bit 12 d2) (get_pll p c)")
  case True
  then show ?thesis using assms(2,3) by (simp add: pll_init_def kept_def Let_def)
next
  case False
  have put: "kept c (put_pll p v c)" for v c by (cases p) (simp_all add: kept_def)
  let ?r = "if p = Pll_Usb then 0x2000 else 0x1000"
  let ?c0 = "(reset_block ?r c)\<lparr>resets_reset := hw_clear_bits (resets_reset (reset_block ?r c)) ?r\<rparr>"
  have "NOT (reset_done (hw ?c0)) AND ?r = 0"
    using assms(1) by (auto intro!: bit_eqI simp: answers_def reg_simps bit_simps)
  then obtain c1 where c1: "wait_for (Suc (Suc n)) hw (\<lambda>c. NOT (reset_done c) AND ?r = 0) ?c0 = Inr c1" "kept ?c0 c1"
    using wait_for_answered [OF assms(1), of "\<lambda>c. NOT (reset_done c) AND ?r = 0"] by blast
  have k1: "kept c c1" using c1(2) by (simp add: kept_def reset_block_def)
  let ?c2 = "put_pll p ((get_pll p c1)\<lparr>pll_cs := refdiv, pll_fbdiv_int := vco div (XOSC_MHZ div refdiv * MHZ)\<rparr>) c1"
  let ?c3 = "put_pll p ((get_pll p ?c2)\<lparr>pll_pwr := hw_clear_bits (pll_pwr (get_pll p ?c2)) (1 OR 0x20)\<rparr>) ?c2"
  have "pll_cs (get_pll p (hw ?c3)) AND PLL_CS_LOCK_BITS \<noteq> 0" using assms(1) by (simp add: answers_def)
  then obtain c4 where c4: "wait_for (Suc (Suc n)) hw (\<lambda>c. pll_cs (get_pll p c) AND PLL_CS_LOCK_BITS \<noteq> 0) ?c3 = Inr c4" "kept ?c3 c4"
    using wait_for_answered [OF assms(1), of "\<lambda>c. pll_cs (get_pll p c) AND PLL_CS_LOCK_BITS \<noteq> 0"] by blast
  have "kept c c4" using k1 put c4(2) by (blast intro: kept_trans)
  moreover have "\<exists>v w. pll_init (Suc (Suc n)) hw p refdiv vco d1 d2 c = Inr (put_pll p v (put_pll p w c4))"
    using False assms(2,3) c1(1) c4(1)
    by (simp add: pll_init_def Let_def unreset_block_wait_def del: wait_for.simps) blast
  ultimately show ?thesis using put by (metis kept_trans)
qed

lemma switch_to_source_0_answered:
  assumes "answers hw" "hw_clear_bits (clk_ctrl (clk c i)) bits AND 3 = 0"
  shows "\<exists>c'. switch_to_source_0 (Suc (Suc n)) hw i bits c = Inr c' \<and> kept c c'"
proof -
  let ?w = "write_clk_ctrl i (hw_clear_bits (clk_ctrl (clk c i)) bits) c"
  have "source_field (clk ?w i) = 0" using assms(2) by (simp add: write_clk_ctrl_def field_defs)
  then have "\<exists>c'. wait_selected (Suc (Suc n)) hw i (\<lambda>s. s = 1) ?w = Inr c' \<and> kept ?w c'"
    by (intro wait_selected_answered [OF assms(1)]) simp
  then show ?thesis by (auto simp: switch_to_source_0_def kept_def write_clk_ctrl_def put_clk_def simp del: wait_selected.simps)
qed

text \<open>A clock without division, which keeps the frequency of its source.\<close>

lemma u32_less: "unat (w :: u32) < 4294967296"
proof -
  have "unat w < 2 ^ LENGTH(32)" by (rule unsigned_less)
  then show ?thesis by simp
qed

lemma wide: "unat (ucast (f :: u32) :: u64) = unat f"
  using u32_less [of f] by (simp add: unsigned_ucast_eq take_bit_nat_eq_self)

lemma wide_shift: "unat (push_bit 8 (ucast (f :: u32) :: u64)) = unat f * 256"
  using u32_less [of f] by (simp add: push_bit_eq_mult unat_word_ariths wide)

lemma clock_divisor_value: "unat (clock_divisor s f) = (unat s * 256 div unat f) mod 2 ^ 32"
  unfolding clock_divisor_def by (subst unsigned_ucast_eq) (simp add: unat_div wide wide_shift take_bit_eq_mod del: unsigned_ucast_eq)

lemma clock_divisor_one: "f \<noteq> 0 \<Longrightarrow> clock_divisor f f = 256"
proof -
  assume "f \<noteq> 0"
  then have "unat (clock_divisor f f) = unat (256 :: u32)" by (simp add: clock_divisor_value unat_eq_zero)
  then show ?thesis by (simp only: word_unat_eq_iff)
qed

lemma frequency_value: "unat (ucast (push_bit 8 (ucast s :: u64) div ucast d) :: u32) = (unat (s :: u32) * 256 div unat (d :: u32)) mod 2 ^ 32"
  using wide wide_shift by (subst unsigned_ucast_eq) (simp add: unat_div take_bit_eq_mod)

lemma frequency_undivided: "(ucast (push_bit 8 (ucast f :: u64) div ucast (256 :: u32)) :: u32) = f"
proof -
  have "unat (ucast (push_bit 8 (ucast f :: u64) div ucast (256 :: u32)) :: u32) = unat f"
    using u32_less [of f] unfolding frequency_value by simp
  then show ?thesis by (simp only: word_unat_eq_iff)
qed

lemma configure_undivided:
  assumes "answers hw" "src < 4" "f \<noteq> 0"
  shows "\<exists>c'. configure (Suc (Suc n)) hw i src auxsrc f f c = Inr c' \<and>
    on_fpga c' = on_fpga c \<and> configured_freq c' = (configured_freq c)(i := f)"
proof -
  have d: "clock_divisor f f = 256" using assms(3) by (rule clock_divisor_one)
  then obtain c' where "clock_configure (Suc (Suc n)) hw i src auxsrc f f c = Inr (True, c')"
      "on_fpga c' = on_fpga c" "configured_freq c' = (configured_freq c)(i := f)"
    using clock_configure_answered [OF assms(1,2) order_refl assms(3), of n i auxsrc c]
    unfolding d frequency_undivided by auto
  then show ?thesis by (simp add: configure_def)
qed



section \<open>Searching a setting of the loop\<close>

lemma divides_exactly:
  assumes "1 \<le> p1" "p1 \<le> 7" "1 \<le> p2" "p2 \<le> 7"
  shows "vco div (of_nat p1 * of_nat p2) = f \<and> vco mod (of_nat p1 * of_nat p2) = 0 \<longleftrightarrow>
    unat (vco :: u32) = unat f * (p1 * p2)"
proof -
  let ?d = "p1 * p2"
  have "p1 * p2 \<le> 7 * 7" using assms by (intro mult_le_mono) auto
  then have u: "unat (of_nat p1 * of_nat p2 :: u32) = ?d"
    by (simp add: unsigned_of_nat take_bit_nat_eq_self flip: of_nat_mult)
  have "0 < ?d" using assms by simp
  then have "unat vco div ?d = unat f \<and> unat vco mod ?d = 0 \<longleftrightarrow> unat vco = unat f * ?d"
    using div_mult_mod_eq [of "unat vco" ?d] by auto
  then show ?thesis unfolding word_unat_eq_iff unat_div unat_mod u by simp
qed

lemma up_to_Suc: "(\<forall>p. 1 \<le> p \<and> p \<le> Suc n \<longrightarrow> Q p) \<longleftrightarrow> Q (Suc n) \<and> (\<forall>p. 1 \<le> p \<and> p \<le> n \<longrightarrow> Q p)"
  by (auto simp: le_Suc_eq)

lemma check_postdiv2_None:
  assumes "1 \<le> p1" "p1 \<le> 7" "n \<le> 7"
  shows "check_postdiv2 f vco p1 n = None \<longleftrightarrow> (\<forall>p2. 1 \<le> p2 \<and> p2 \<le> n \<longrightarrow> unat vco \<noteq> unat f * (p1 * p2))"
  using assms(3)
proof (induction n)
  case 0
  then show ?case by simp
next
  case (Suc n)
  have "check_postdiv2 f vco p1 (Suc n) = None \<longleftrightarrow> unat vco \<noteq> unat f * (p1 * Suc n) \<and> check_postdiv2 f vco p1 n = None"
    using divides_exactly [OF assms(1,2), of "Suc n" vco f] Suc.prems
    by (simp add: Let_def del: of_nat_Suc mult_Suc_right)
  then show ?case using Suc unfolding up_to_Suc by simp
qed

lemma check_postdiv2_Some:
  assumes "1 \<le> p1" "p1 \<le> 7" "n \<le> 7" "check_postdiv2 f vco p1 n = Some (v, q1, q2)"
  shows "v = vco * 1000 \<and> q1 = p1 \<and> 1 \<le> q2 \<and> q2 \<le> n \<and> unat vco = unat f * (p1 * q2)"
  using assms(3,4)
proof (induction n)
  case 0
  then show ?case by simp
next
  case (Suc n)
  then show ?case using divides_exactly [OF assms(1,2), of "Suc n" vco f]
    by (auto simp add: Let_def simp del: of_nat_Suc mult_Suc_right split: if_splits)
qed

lemma check_postdiv1_None:
  "n \<le> 7 \<Longrightarrow> check_postdiv1 f vco n = None \<longleftrightarrow>
    (\<forall>p1 p2. 1 \<le> p2 \<and> p2 \<le> p1 \<and> p1 \<le> n \<longrightarrow> unat vco \<noteq> unat f * (p1 * p2))"
proof (induction n)
  case 0
  then show ?case by simp
next
  case (Suc n)
  have "check_postdiv1 f vco (Suc n) = None \<longleftrightarrow>
      check_postdiv2 f vco (Suc n) (Suc n) = None \<and> check_postdiv1 f vco n = None"
    by (simp del: check_postdiv2.simps split: option.split)
  moreover have "check_postdiv2 f vco (Suc n) (Suc n) = None \<longleftrightarrow>
      (\<forall>p2. 1 \<le> p2 \<and> p2 \<le> Suc n \<longrightarrow> unat vco \<noteq> unat f * (Suc n * p2))"
    using Suc.prems by (intro check_postdiv2_None) auto
  moreover have "check_postdiv1 f vco n = None \<longleftrightarrow>
      (\<forall>p1 p2. 1 \<le> p2 \<and> p2 \<le> p1 \<and> p1 \<le> n \<longrightarrow> unat vco \<noteq> unat f * (p1 * p2))"
    using Suc by auto
  ultimately show ?case using le_Suc_eq [of _ n] by metis
qed

lemma check_postdiv1_Some:
  "n \<le> 7 \<Longrightarrow> check_postdiv1 f vco n = Some (v, q1, q2) \<Longrightarrow>
    v = vco * 1000 \<and> 1 \<le> q2 \<and> q2 \<le> q1 \<and> q1 \<le> n \<and> unat vco = unat f * (q1 * q2)"
proof (induction n)
  case 0
  then show ?case by simp
next
  case (Suc n)
  show ?case
  proof (cases "check_postdiv2 f vco (Suc n) (Suc n)")
    case None
    then have "check_postdiv1 f vco n = Some (v, q1, q2)" using Suc.prems by (simp del: check_postdiv2.simps)
    then show ?thesis using Suc by auto
  next
    case (Some r)
    then have "check_postdiv2 f vco (Suc n) (Suc n) = Some (v, q1, q2)"
      using Suc.prems by (simp del: check_postdiv2.simps)
    then show ?thesis using check_postdiv2_Some [of "Suc n" "Suc n" f vco v q1 q2] Suc.prems(1) by auto
  qed
qed

text \<open>A setting in the range of the oscillator that divides exactly to \<open>f\<close> kHz, for a crystal of \<open>x\<close> kHz.\<close>

definition setting :: "nat \<Rightarrow> nat \<Rightarrow> nat \<Rightarrow> nat \<Rightarrow> nat \<Rightarrow> bool" where
  "setting x f fb p1 p2 \<longleftrightarrow> 16 \<le> fb \<and> 750000 \<le> fb * x \<and> fb * x \<le> 1600000 \<and>
     1 \<le> p2 \<and> p2 \<le> p1 \<and> p1 \<le> 7 \<and> fb * x = f * (p1 * p2)"

lemma vco_value:
  assumes "n \<le> 320" "unat x \<le> 4294967"
  shows "unat (of_nat n * x :: u32) = n * unat x"
proof -
  have "n * unat x \<le> 320 * 4294967" using assms by (intro mult_le_mono)
  then show ?thesis using assms(1) by (simp add: unat_word_ariths unsigned_of_nat take_bit_nat_eq_self)
qed

lemma check_fbdiv_step:
  assumes "Suc n \<le> 320" "unat x \<le> 4294967"
  shows "check_fbdiv f x (Suc n) =
    (if Suc n < 16 then None
     else if Suc n * unat x < 750000 \<or> Suc n * unat x > 1600000 then check_fbdiv f x n
     else case check_postdiv1 f (of_nat (Suc n) * x) 7 of Some r \<Rightarrow> Some r | None \<Rightarrow> check_fbdiv f x n)"
proof -
  have "of_nat (Suc n) * x < 750 * 1000 \<longleftrightarrow> Suc n * unat x < 750000"
    and "of_nat (Suc n) * x > 1600 * 1000 \<longleftrightarrow> Suc n * unat x > 1600000"
    unfolding word_less_nat_alt vco_value [OF assms] by simp_all
  then show ?thesis unfolding check_fbdiv.simps Let_def by simp
qed

lemma setting_postdiv:
  assumes "n \<le> 320" "unat x \<le> 4294967"
  shows "(\<exists>p1 p2. setting (unat x) (unat f) n p1 p2) \<longleftrightarrow>
    16 \<le> n \<and> 750000 \<le> n * unat x \<and> n * unat x \<le> 1600000 \<and> check_postdiv1 f (of_nat n * x) 7 \<noteq> None"
  unfolding setting_def check_postdiv1_None [of 7 f, OF order_refl] vco_value [OF assms] by blast

lemma check_fbdiv_None:
  assumes "n \<le> 320" "unat x \<le> 4294967"
  shows "check_fbdiv f x n = None \<longleftrightarrow> (\<forall>fb \<le> n. \<nexists>p1 p2. setting (unat x) (unat f) fb p1 p2)"
  using assms(1)
proof (induction n)
  case 0
  then show ?case by (simp add: setting_def)
next
  case (Suc n)
  have "(\<forall>fb \<le> Suc n. \<nexists>p1 p2. setting (unat x) (unat f) fb p1 p2) \<longleftrightarrow>
      (\<nexists>p1 p2. setting (unat x) (unat f) (Suc n) p1 p2) \<and> check_fbdiv f x n = None"
    using Suc by (auto simp: le_Suc_eq)
  moreover have "check_fbdiv f x n = None" if "Suc n < 16"
    using that by (cases n) simp_all
  ultimately show ?case
    unfolding setting_postdiv [OF Suc.prems assms(2)] check_fbdiv_step [OF Suc.prems assms(2)]
    by (auto split: option.splits)
qed

lemma check_fbdiv_Some:
  assumes "n \<le> 320" "unat x \<le> 4294967" "check_fbdiv f x n = Some (v, q1, q2)"
  shows "\<exists>fb \<le> n. setting (unat x) (unat f) fb q1 q2 \<and> v = of_nat fb * x * 1000"
  using assms(1,3)
proof (induction n)
  case 0
  then show ?case by simp
next
  case (Suc n)
  show ?case
  proof (cases "check_fbdiv f x n = Some (v, q1, q2)")
    case True
    then show ?thesis using Suc by (meson Suc_leD le_SucI)
  next
    case False
    then have "16 \<le> Suc n" "750000 \<le> Suc n * unat x" "Suc n * unat x \<le> 1600000"
      "check_postdiv1 f (of_nat (Suc n) * x) 7 = Some (v, q1, q2)"
      using Suc.prems(2) unfolding check_fbdiv_step [OF Suc.prems(1) assms(2)]
      by (auto split: if_splits option.splits)
    then show ?thesis
      using check_postdiv1_Some [of 7 f "of_nat (Suc n) * x" v q1 q2] vco_value [OF Suc.prems(1) assms(2)]
      by (intro exI [of _ "Suc n"]) (simp add: setting_def del: of_nat_Suc)
  qed
qed

lemma set_sys_clock_pll_answered:
  assumes hw: "answers hw" and c: "\<not> on_fpga c" and p: "d1 * d2 \<noteq> 0" "vco div (d1 * d2) \<noteq> 0"
  shows "\<exists>c'. set_sys_clock_pll (Suc (Suc n)) hw vco d1 d2 c = Inr c' \<and> clock_get_hz clk_sys c' = vco div (d1 * d2)"
proof -
  have nz: "12 * MHZ \<noteq> 0" "48 * MHZ \<noteq> 0" by (simp_all add: MHZ_def)
  have x: "XOSC_MHZ div 1 * MHZ \<noteq> 0" by (simp add: XOSC_MHZ_def MHZ_def)
  note conf = configure_undivided [OF hw]
  obtain c1 where c1: "configure (Suc (Suc n)) hw clk_sys 1 1 (48 * MHZ) (48 * MHZ) c = Inr c1"
    using conf [OF _ nz(2), of 1 n clk_sys 1 c] by auto
  obtain c2 where c2: "pll_init (Suc (Suc n)) hw Pll_Sys 1 vco d1 d2 c1 = Inr c2"
    using pll_init_answered [OF hw _ x] by (metis one_neq_zero)
  obtain c3 where c3: "configure (Suc (Suc n)) hw clk_ref 2 0 (12 * MHZ) (12 * MHZ) c2 = Inr c3"
    using conf [OF _ nz(1), of 2 n clk_ref 0 c2] by auto
  obtain c4 where c4: "configure (Suc (Suc n)) hw clk_sys 1 0 (vco div (d1 * d2)) (vco div (d1 * d2)) c3 = Inr c4"
      "configured_freq c4 = (configured_freq c3)(clk_sys := vco div (d1 * d2))"
    using conf [OF _ p(2), of 1 n clk_sys 0 c3] by auto
  obtain c5 where c5: "configure (Suc (Suc n)) hw clk_peri 0 2 (48 * MHZ) (48 * MHZ) c4 = Inr c5"
      "configured_freq c5 = (configured_freq c4)(clk_peri := 48 * MHZ)"
    using conf [OF _ nz(2), of 0 n clk_peri 2 c4] by auto
  have "set_sys_clock_pll (Suc (Suc n)) hw vco d1 d2 c = Inr c5"
    using c p(1) c1 c2 c3 c4(1) c5(1) by (simp add: set_sys_clock_pll_def Let_def)
  then show ?thesis by (simp add: clock_get_hz_def c4(2) c5(2) clock_index_defs)
qed

lemma setting_clock:
  assumes "setting (unat (x :: u32)) (unat (f :: u32)) fb q1 q2" "fb \<le> 320" "unat x \<le> 4294967"
  shows "of_nat q1 * of_nat q2 \<noteq> (0 :: u32)"
    and "unat ((of_nat fb * x * 1000) div (of_nat q1 * of_nat q2)) = 1000 * unat f" "unat f \<noteq> 0"
proof -
  have s: "1 \<le> q1" "q1 \<le> 7" "1 \<le> q2" "q2 \<le> 7" "fb * unat x = unat f * (q1 * q2)" "fb * unat x \<le> 1600000" "750000 \<le> fb * unat x"
    using assms(1) by (auto simp: setting_def)
  then have "q1 * q2 \<le> 7 * 7" by (intro mult_le_mono)
  then have q: "unat (of_nat q1 * of_nat q2 :: u32) = q1 * q2"
    by (simp add: unsigned_of_nat take_bit_nat_eq_self flip: of_nat_mult)
  then show "of_nat q1 * of_nat q2 \<noteq> (0 :: u32)" using s(1,3) by (auto simp: word_unat_eq_iff)
  have "unat (of_nat fb * x * 1000) = 1000 * (fb * unat x)"
    using s(6) vco_value [OF assms(2,3)] by (simp add: unat_word_ariths(2) [of "of_nat fb * x"])
  then have "unat ((of_nat fb * x * 1000) div (of_nat q1 * of_nat q2)) = 1000 * unat f * (q1 * q2) div (q1 * q2)"
    unfolding unat_div q s(5) by (simp add: mult.assoc)
  also have "\<dots> = 1000 * unat f" using s(1,3) by (intro nonzero_mult_div_cancel_right) auto
  finally show "unat ((of_nat fb * x * 1000) div (of_nat q1 * of_nat q2)) = 1000 * unat f" .
  show "unat f \<noteq> 0" using s(5,7) by (metis mult_zero_left le_zero_eq zero_neq_numeral)
qed



end
