(* ===== verification/Stdio.thy ===== *)
theory Stdio
  imports Sync Printf Uart Gpio Alarms
begin

text \<open>
  Standard input and output (\<open>pico_stdio/stdio.c\<close>, \<open>pico_stdio_uart/stdio_uart.c\<close>): a list of
  drivers that all get the output, with their translation of line ends, under a mutex that a
  nested call of the same core passes by. A driver is its operations and its device; drivers are
  numbered, and the linked list of the enabled ones is a list of numbers. What another core does
  while this one waits for the mutex is the parameter \<open>wfe\<close>, and what happens to the devices while
  input is awaited is \<open>arrives\<close>.
\<close>

section \<open>State\<close>

record 'd stdio_driver =
  out_chars :: "(char list \<Rightarrow> 'd \<Rightarrow> fault + 'd) option"
  out_flush :: "('d \<Rightarrow> fault + 'd) option"
  in_chars :: "(nat \<Rightarrow> 'd \<Rightarrow> fault + (int \<times> char list \<times> 'd)) option"
  last_ended_with_cr :: bool
  crlf_enabled :: bool
  device :: 'd

record 'd stdio =
  driver :: "nat \<Rightarrow> 'd stdio_driver"
  drivers :: "nat list"
  driver_filter :: "nat option"
  print_mutex :: mutex
  stdio_timer :: timer_state

text \<open>The caller: its identifier, and how it waits for a mutex.\<close>

record core =
  caller_id :: lock_owner_id
  waits :: "mutex \<Rightarrow> fault + mutex"
  patience :: nat

definition put_driver :: "nat \<Rightarrow> 'd stdio_driver \<Rightarrow> 'd stdio \<Rightarrow> 'd stdio" where
  "put_driver i d s = s\<lparr>driver := (driver s)(i := d)\<rparr>"

definition on_device :: "('d \<Rightarrow> fault + 'd) \<Rightarrow> 'd stdio_driver \<Rightarrow> fault + 'd stdio_driver" where
  "on_device f d = rbind (f (device d)) (\<lambda>x. Inr (d\<lparr>device := x\<rparr>))"

section \<open>Serialisation\<close>

definition stdout_serialize_begin :: "core \<Rightarrow> 'd stdio \<Rightarrow> fault + (bool \<times> 'd stdio)" where
  "stdout_serialize_begin k s =
     (case mutex_try_enter (caller_id k) (print_mutex s) of
        ((True, o_id), m) \<Rightarrow> Inr (True, s\<lparr>print_mutex := m\<rparr>)
      | ((False, o_id), m) \<Rightarrow>
          if o_id = Some (scast (caller_id k)) then Inr (False, s)
          else rbind (mutex_enter_blocking (patience k) (waits k) (caller_id k) m) (\<lambda>m'.
                 Inr (True, s\<lparr>print_mutex := m'\<rparr>)))"

definition stdout_serialize_end :: "'d stdio \<Rightarrow> 'd stdio" where
  "stdout_serialize_end s = s\<lparr>print_mutex := fst (mutex_exit (print_mutex s))\<rparr>"

section \<open>Output\<close>

text \<open>A driver without \<open>out_chars\<close> is skipped before these are called.\<close>

definition call_out_chars :: "char list \<Rightarrow> 'd stdio_driver \<Rightarrow> fault + 'd stdio_driver" where
  "call_out_chars cs d = (case out_chars d of None \<Rightarrow> Inl NullPointer | Some f \<Rightarrow> on_device (f cs) d)"

definition stdio_out_chars_no_crlf :: "char list \<Rightarrow> 'd stdio_driver \<Rightarrow> fault + 'd stdio_driver" where
  "stdio_out_chars_no_crlf s d = call_out_chars s d"

fun crlf_loop :: "char list \<Rightarrow> nat \<Rightarrow> nat \<Rightarrow> nat \<Rightarrow> 'd stdio_driver \<Rightarrow> fault + (nat \<times> 'd stdio_driver)" where
  "crlf_loop s 0 i first_of_chunk d = Inr (first_of_chunk, d)"
| "crlf_loop s (Suc n) i first_of_chunk d =
     (let prev_char_was_cr = (if i > 0 then s ! (i - 1) = CHR 0x0D else last_ended_with_cr d)
      in if s ! i = CHR 0x0A \<and> \<not> prev_char_was_cr then
           rbind (if i > first_of_chunk then call_out_chars (take (i - first_of_chunk) (drop first_of_chunk s)) d
                  else Inr d) (\<lambda>d1.
           rbind (call_out_chars [CHR 0x0D, CHR 0x0A] d1) (\<lambda>d2.
             crlf_loop s n (Suc i) (Suc i) d2))
         else crlf_loop s n (Suc i) first_of_chunk d)"

definition stdio_out_chars_crlf :: "char list \<Rightarrow> 'd stdio_driver \<Rightarrow> fault + 'd stdio_driver" where
  "stdio_out_chars_crlf s d =
     (if \<not> crlf_enabled d then call_out_chars s d
      else
        rbind (crlf_loop s (length s) 0 0 d) (\<lambda>(first_of_chunk, d1).
        rbind (if first_of_chunk < length s then call_out_chars (drop first_of_chunk s) d1 else Inr d1) (\<lambda>d2.
          Inr (if 0 < length s then d2\<lparr>last_ended_with_cr := (s ! (length s - 1) = CHR 0x0D)\<rparr> else d2))))"

definition selected_driver :: "'d stdio \<Rightarrow> nat \<Rightarrow> bool" where
  "selected_driver s i \<longleftrightarrow> out_chars (driver s i) \<noteq> None \<and> (driver_filter s = None \<or> driver_filter s = Some i)"

fun to_drivers :: "('d stdio_driver \<Rightarrow> fault + 'd stdio_driver) \<Rightarrow> nat list \<Rightarrow> 'd stdio \<Rightarrow> fault + 'd stdio" where
  "to_drivers f [] s = Inr s"
| "to_drivers f (i # ds) s =
     (if \<not> selected_driver s i then to_drivers f ds s
      else rbind (f (driver s i)) (\<lambda>d. to_drivers f ds (put_driver i d s)))"

text \<open>The length is that of \<open>s\<close>; the function returns it as \<open>bool\<close>.\<close>

definition stdio_put_string :: "core \<Rightarrow> char list \<Rightarrow> bool \<Rightarrow> bool \<Rightarrow> 'd stdio \<Rightarrow> fault + (bool \<times> 'd stdio)" where
  "stdio_put_string k s newline no_cr st =
     rbind (stdout_serialize_begin k st) (\<lambda>(serialized, st1).
       let out_func = (if no_cr then stdio_out_chars_no_crlf else stdio_out_chars_crlf)
       in rbind (to_drivers (\<lambda>d. rbind (out_func s d) (\<lambda>d1.
              if newline then out_func [CHR 0x0A] d1 else Inr d1)) (drivers st1) st1) (\<lambda>st2.
            Inr (length s \<noteq> 0, if serialized then stdout_serialize_end st2 else st2)))"

fun flush_drivers :: "nat list \<Rightarrow> 'd stdio \<Rightarrow> fault + 'd stdio" where
  "flush_drivers [] s = Inr s"
| "flush_drivers (i # ds) s =
     (case out_flush (driver s i) of
        None \<Rightarrow> flush_drivers ds s
      | Some f \<Rightarrow> rbind (on_device f (driver s i)) (\<lambda>d. flush_drivers ds (put_driver i d s)))"

definition stdio_flush :: "'d stdio \<Rightarrow> fault + 'd stdio" where
  "stdio_flush s = flush_drivers (drivers s) s"

definition putchar :: "core \<Rightarrow> u32 \<Rightarrow> 'd stdio \<Rightarrow> fault + (u32 \<times> 'd stdio)" where
  "putchar k c s = rbind (stdio_put_string k [char_of (uint c mod 256)] False False s) (\<lambda>(_, s1). Inr (c, s1))"

definition puts :: "core \<Rightarrow> cell list \<Rightarrow> 'd stdio \<Rightarrow> fault + (nat \<times> 'd stdio)" where
  "puts k p s =
     rbind (c_string p) (\<lambda>cs. rbind (stdio_put_string k cs True False s) (\<lambda>(_, s1).
       rbind (stdio_flush s1) (\<lambda>s2. Inr (length cs, s2))))"

definition putchar_raw :: "core \<Rightarrow> u32 \<Rightarrow> 'd stdio \<Rightarrow> fault + (u32 \<times> 'd stdio)" where
  "putchar_raw k c s = rbind (stdio_put_string k [char_of (uint c mod 256)] False True s) (\<lambda>(_, s1). Inr (c, s1))"

definition puts_raw :: "core \<Rightarrow> cell list \<Rightarrow> 'd stdio \<Rightarrow> fault + (nat \<times> 'd stdio)" where
  "puts_raw k p s =
     rbind (c_string p) (\<lambda>cs. rbind (stdio_put_string k cs True True s) (\<lambda>(_, s1).
       rbind (stdio_flush s1) (\<lambda>s2. Inr (length cs, s2))))"

text \<open>\<open>_write\<close> of \<open>length\<close> characters that are there.\<close>

definition write_handle :: "core \<Rightarrow> int \<Rightarrow> char list \<Rightarrow> 'd stdio \<Rightarrow> fault + (int \<times> 'd stdio)" where
  "write_handle k handle buffer s =
     (if handle = 1 \<or> handle = 2 then
        rbind (stdio_put_string k buffer False False s) (\<lambda>(_, s1). Inr (int (length buffer), s1))
      else Inr (-1, s))"

section \<open>Formatted output\<close>

definition PICO_STDIO_STACK_BUFFER_SIZE :: nat where "PICO_STDIO_STACK_BUFFER_SIZE = 128"

text \<open>The buffer on the stack: its \<open>used\<close> characters.\<close>

definition stdio_stack_buffer_flush :: "char list \<times> 'd stdio \<Rightarrow> fault + (char list \<times> 'd stdio)" where
  "stdio_stack_buffer_flush = (\<lambda>(buf, s).
     if buf \<noteq> [] then rbind (to_drivers (stdio_out_chars_crlf buf) (drivers s) s) (\<lambda>s1. Inr ([], s1))
     else Inr (buf, s))"

definition stdio_buffered_printer :: "char \<Rightarrow> fault + (char list \<times> 'd stdio) \<Rightarrow> fault + (char list \<times> 'd stdio)" where
  "stdio_buffered_printer c arg =
     rbind arg (\<lambda>(buf, s).
     rbind (if length buf = PICO_STDIO_STACK_BUFFER_SIZE then stdio_stack_buffer_flush (buf, s) else Inr (buf, s))
       (\<lambda>(buf1, s1). Inr (buf1 @ [c], s1)))"

definition vprintf :: "core \<Rightarrow> char list \<Rightarrow> va_arg list \<Rightarrow> 'd stdio \<Rightarrow> fault + (int \<times> 'd stdio)" where
  "vprintf k fmt va s =
     rbind (stdout_serialize_begin k s) (\<lambda>(serialized, s1).
     rbind (vfctprintf stdio_buffered_printer (Inr ([], s1)) fmt va) (\<lambda>(ret, arg).
     rbind arg (\<lambda>b. rbind (stdio_stack_buffer_flush b) (\<lambda>(_, s2).
     rbind (stdio_flush s2) (\<lambda>s3.
       Inr (ret, if serialized then stdout_serialize_end s3 else s3))))))"

section \<open>Drivers\<close>

definition stdio_set_driver_enabled :: "nat \<Rightarrow> bool \<Rightarrow> 'd stdio \<Rightarrow> 'd stdio" where
  "stdio_set_driver_enabled i enable s =
     (if i \<in> set (drivers s) then (if enable then s else s\<lparr>drivers := remove1 i (drivers s)\<rparr>)
      else if enable then s\<lparr>drivers := drivers s @ [i]\<rparr> else s)"

definition stdio_filter_driver :: "nat option \<Rightarrow> 'd stdio \<Rightarrow> 'd stdio" where
  "stdio_filter_driver d s = s\<lparr>driver_filter := d\<rparr>"

definition stdio_set_translate_crlf :: "nat \<Rightarrow> bool \<Rightarrow> 'd stdio \<Rightarrow> 'd stdio" where
  "stdio_set_translate_crlf i enabled s =
     (let d = driver s i;
          d1 = (if enabled \<and> \<not> crlf_enabled d then d\<lparr>last_ended_with_cr := False\<rparr> else d)
      in put_driver i (d1\<lparr>crlf_enabled := enabled\<rparr>) s)"

section \<open>Input\<close>

definition PICO_ERROR_TIMEOUT :: int where "PICO_ERROR_TIMEOUT = -1"
definition PICO_ERROR_NO_DATA :: int where "PICO_ERROR_NO_DATA = -3"

text \<open>What the first driver with input gives.\<close>

fun from_drivers :: "nat \<Rightarrow> nat list \<Rightarrow> 'd stdio \<Rightarrow> fault + ((int \<times> char list) option \<times> 'd stdio)" where
  "from_drivers len [] s = Inr (None, s)"
| "from_drivers len (i # ds) s =
     (if driver_filter s \<noteq> None \<and> driver_filter s \<noteq> Some i then from_drivers len ds s
      else case in_chars (driver s i) of
        None \<Rightarrow> from_drivers len ds s
      | Some f \<Rightarrow> rbind (f len (device (driver s i))) (\<lambda>(n, cs, x).
          let s1 = put_driver i ((driver s i)\<lparr>device := x\<rparr>) s
          in if n > 0 then Inr (Some (n, cs), s1) else from_drivers len ds s1))"

fun stdio_get_until ::
    "nat \<Rightarrow> ('d stdio \<Rightarrow> 'd stdio) \<Rightarrow> nat \<Rightarrow> absolute_time \<Rightarrow> 'd stdio \<Rightarrow> fault + (int \<times> char list \<times> 'd stdio)" where
  "stdio_get_until 0 arrives len until s = Inl Exhausted"
| "stdio_get_until (Suc fuel) arrives len until s =
     rbind (from_drivers len (drivers s) s) (\<lambda>(r, s1).
       case r of Some (n, cs) \<Rightarrow> Inr (n, cs, s1)
       | None \<Rightarrow>
           let (reached, t) = time_reached until (stdio_timer s1)
           in if reached then Inr (PICO_ERROR_TIMEOUT, [], s1\<lparr>stdio_timer := t\<rparr>)
              else rbind (busy_wait_us fuel 1 t) (\<lambda>t1.
                     stdio_get_until fuel arrives len until (arrives (s1\<lparr>stdio_timer := t1\<rparr>))))"

definition read_handle ::
    "nat \<Rightarrow> ('d stdio \<Rightarrow> 'd stdio) \<Rightarrow> int \<Rightarrow> nat \<Rightarrow> 'd stdio \<Rightarrow> fault + (int \<times> char list \<times> 'd stdio)" where
  "read_handle fuel arrives handle len s =
     (if handle = 0 then stdio_get_until fuel arrives len at_the_end_of_time s else Inr (-1, [], s))"

definition getchar :: "nat \<Rightarrow> ('d stdio \<Rightarrow> 'd stdio) \<Rightarrow> 'd stdio \<Rightarrow> fault + (int \<times> 'd stdio)" where
  "getchar fuel arrives s =
     rbind (stdio_get_until fuel arrives 1 at_the_end_of_time s) (\<lambda>(len, buf, s1).
       if len < 0 then Inr (len, s1)
       else case buf of [] \<Rightarrow> Inl Uninitialised | c # _ \<Rightarrow> Inr (of_char c, s1))"

definition getchar_timeout_us :: "nat \<Rightarrow> ('d stdio \<Rightarrow> 'd stdio) \<Rightarrow> u32 \<Rightarrow> 'd stdio \<Rightarrow> fault + (int \<times> 'd stdio)" where
  "getchar_timeout_us fuel arrives timeout_us s =
     rbind (make_timeout_time_us (ucast timeout_us) (stdio_timer s)) (\<lambda>(until, t).
     rbind (stdio_get_until fuel arrives 1 until (s\<lparr>stdio_timer := t\<rparr>)) (\<lambda>(rc, buf, s1).
       if rc < 0 then Inr (rc, s1)
       else case buf of [] \<Rightarrow> Inl Uninitialised | c # _ \<Rightarrow> Inr (of_char c, s1)))"

section \<open>The UART as a driver\<close>

fun stdio_uart_out_chars :: "char list \<Rightarrow> uart_hw \<Rightarrow> fault + uart_hw" where
  "stdio_uart_out_chars [] u = Inr u"
| "stdio_uart_out_chars (c # buf) u = stdio_uart_out_chars buf (uart_putc c u)"

fun uart_in_loop :: "nat \<Rightarrow> char list \<Rightarrow> uart_hw \<Rightarrow> fault + (char list \<times> uart_hw)" where
  "uart_in_loop 0 buf u = Inr (buf, u)"
| "uart_in_loop (Suc n) buf u =
     (if uart_is_readable u then rbind (uart_getc u) (\<lambda>(c, u1). uart_in_loop n (buf @ [c]) u1)
      else Inr (buf, u))"

definition stdio_uart_in_chars :: "nat \<Rightarrow> uart_hw \<Rightarrow> fault + (int \<times> char list \<times> uart_hw)" where
  "stdio_uart_in_chars len u =
     rbind (uart_in_loop len [] u) (\<lambda>(buf, u1).
       Inr (if buf \<noteq> [] then int (length buf) else PICO_ERROR_NO_DATA, buf, u1))"

definition stdio_uart :: "uart_hw \<Rightarrow> uart_hw stdio_driver" where
  "stdio_uart u = \<lparr>out_chars = Some stdio_uart_out_chars, out_flush = None, in_chars = Some stdio_uart_in_chars,
     last_ended_with_cr = False, crlf_enabled = True, device = u\<rparr>"

definition stdio_uart_init_full ::
    "nat \<Rightarrow> u32 \<Rightarrow> u32 \<Rightarrow> int \<Rightarrow> int \<Rightarrow> uart_hw stdio \<Rightarrow> gpio_hw \<Rightarrow> fault + (uart_hw stdio \<times> gpio_hw)" where
  "stdio_uart_init_full i hz baud_rate tx_pin rx_pin s g =
     rbind (uart_init hz baud_rate (device (driver s i))) (\<lambda>(_, u).
       let s1 = put_driver i ((driver s i)\<lparr>device := u\<rparr>) s;
           g1 = (if tx_pin \<ge> 0 then gpio_set_function (nat tx_pin) GPIO_FUNC_UART g else g);
           g2 = (if rx_pin \<ge> 0 then gpio_set_function (nat rx_pin) GPIO_FUNC_UART g1 else g1)
       in Inr (stdio_set_driver_enabled i True s1, g2))"

text \<open>The pins and the rate of the Pico's board header; \<open>i\<close> is the driver \<open>stdio_uart\<close>.\<close>

definition PICO_DEFAULT_UART_TX_PIN :: int where "PICO_DEFAULT_UART_TX_PIN = 0"
definition PICO_DEFAULT_UART_RX_PIN :: int where "PICO_DEFAULT_UART_RX_PIN = 1"
definition PICO_DEFAULT_UART_BAUD_RATE :: u32 where "PICO_DEFAULT_UART_BAUD_RATE = 115200"

definition stdio_uart_init :: "nat \<Rightarrow> u32 \<Rightarrow> uart_hw stdio \<Rightarrow> gpio_hw \<Rightarrow> fault + (uart_hw stdio \<times> gpio_hw)" where
  "stdio_uart_init i hz =
     stdio_uart_init_full i hz PICO_DEFAULT_UART_BAUD_RATE PICO_DEFAULT_UART_TX_PIN PICO_DEFAULT_UART_RX_PIN"

definition stdout_uart_init :: "nat \<Rightarrow> u32 \<Rightarrow> uart_hw stdio \<Rightarrow> gpio_hw \<Rightarrow> fault + (uart_hw stdio \<times> gpio_hw)" where
  "stdout_uart_init i hz = stdio_uart_init_full i hz PICO_DEFAULT_UART_BAUD_RATE PICO_DEFAULT_UART_TX_PIN (-1)"

definition stdin_uart_init :: "nat \<Rightarrow> u32 \<Rightarrow> uart_hw stdio \<Rightarrow> gpio_hw \<Rightarrow> fault + (uart_hw stdio \<times> gpio_hw)" where
  "stdin_uart_init i hz = stdio_uart_init_full i hz PICO_DEFAULT_UART_BAUD_RATE (-1) PICO_DEFAULT_UART_RX_PIN"

end
