(* ===== verification/Printf_Text.thy ===== *)
theory Printf_Text
  imports Printf
begin

text \<open>
  The formatter does not depend on where its characters go: if one output function imitates
  another through a map of their states, so does everything the formatter prints. Hence the text
  of a format, \<open>printf_text\<close>, is what any function that is called with its characters is given.
\<close>

section \<open>Output functions that imitate each other\<close>

definition carry :: "('a \<Rightarrow> 'b) \<Rightarrow> fault + (int \<times> 'a) \<Rightarrow> fault + (int \<times> 'b)" where
  "carry h r = rbind r (\<lambda>(i, s). Inr (i, h s))"

definition carry3 :: "('a \<Rightarrow> 'b) \<Rightarrow> fault + (int \<times> 'a \<times> 'c) \<Rightarrow> fault + (int \<times> 'b \<times> 'c)" where
  "carry3 h r = rbind r (\<lambda>(i, s, v). Inr (i, h s, v))"

lemma carry_simps [simp]: "carry h (Inl e) = Inl e" "carry h (Inr r) = Inr (fst r, h (snd r))"
  "carry3 h (Inl e) = Inl e" "carry3 h (Inr q) = Inr (fst q, h (fst (snd q)), snd (snd q))"
  by (simp_all add: carry_def carry3_def split_def)

lemma if_carry: "(if b then carry h x else carry h y) = carry h (if b then x else y)"
  "(if b then Inr (i, h s) else carry h y) = carry h (if b then Inr (i, s) else y)"
  "(if b then carry h x else Inr (i, h s)) = carry h (if b then x else Inr (i, s))"
  by simp_all

lemma carry_if: "carry h (if b then x else y) = (if b then carry h x else carry h y)"
  by simp

lemma carry3_if: "carry3 h (if b then x else y) = (if b then carry3 h x else carry3 h y)"
  by simp

lemma rbind_Inr_carry: "rbind r (\<lambda>x. Inr (fst x, h (snd x))) = carry h r"
  by (simp add: carry_def split_def)

lemma rbind_carry: "rbind (carry h r) f = rbind r (\<lambda>(i, s). f (i, h s))"
  "rbind (carry3 h r') g = rbind r' (\<lambda>(i, s, v). g (i, h s, v))"
  by (cases r; cases r'; force)+

lemma carry_rbind: "carry h (rbind r f) = rbind r (\<lambda>x. carry h (f x))"
  "carry3 h (rbind r g) = rbind r (\<lambda>x. carry3 h (g x))"
  by (cases r; simp)+

lemmas carries = rbind_carry carry_rbind if_carry rbind_Inr_carry rbind_assoc

locale output_map =
  fixes h :: "'a \<Rightarrow> 'b" and out_a :: "'a out_fct" and out_b :: "'b out_fct"
  assumes out_imitates: "out_b c (h s) i m = rbind (out_a c s i m) (\<lambda>s'. Inr (h s'))"
begin

lemma emit_map: "emit out_b m cs i (h s) = carry h (emit out_a m cs i s)"
proof (induction cs arbitrary: i s)
  case Nil
  show ?case by simp
next
  case (Cons c cs)
  then show ?case by (simp add: out_imitates carries)
qed

lemma out_rev_map: "out_rev out_b m buf width flags i (h s) = carry h (out_rev out_a m buf width flags i s)"
  by (simp add: out_rev_def emit_map carries split_def del: if_split cong: if_cong)

lemma ntoa_map:
  "ntoa_long out_b m v neg base prec width flags i (h s) = carry h (ntoa_long out_a m v neg base prec width flags i s)"
  "ntoa_long_long out_b m w neg base prec width flags i (h s) = carry h (ntoa_long_long out_a m w neg base prec width flags i s)"
  by (simp_all add: ntoa_long_def ntoa_long_long_def ntoa_format_def Let_def out_rev_map)

text \<open>Conversions of floating point numbers that imitate each other.\<close>

definition float_map :: "'a float_conv \<Rightarrow> 'b float_conv \<Rightarrow> bool" where
  "float_map fa fb \<longleftrightarrow> (\<forall>m v prec width flags i s. fb out_b m v prec width flags i (h s) =
     carry h (fa out_a m v prec width flags i s))"

lemma float_stop_map: "float_map float_stop float_stop"
  by (simp add: float_map_def float_stop_def)

lemma ftoa_with_map: "float_map fa fb \<Longrightarrow> float_map (ftoa_with fa) (ftoa_with fb)"
  by (simp add: float_map_def ftoa_with_def Let_def out_rev_map carries)

lemma etoa_with_map: "float_map fa fb \<Longrightarrow> float_map (etoa_with fa) (etoa_with fb)"
  by (simp add: float_map_def etoa_with_def Let_def emit_map ntoa_map rbind_carry carry_rbind carry_if rbind_assoc
      split_def del: emit.simps cong: if_cong)

lemma floats_map: "float_map ftoa ftoa" "float_map etoa etoa"
  by (simp_all add: ftoa_def etoa_def ftoa_with_map etoa_with_map float_stop_map)

lemma emit_string_map: "emit_string out_b m limited prec p i (h s) = carry h (emit_string out_a m limited prec p i s)"
proof (induction p arbitrary: prec i s)
  case (Cons a p)
  then show ?case by (cases a) (simp_all add: out_imitates carries)
qed simp

lemma conv_int_map: "conv_int out_b m c flags width prec va i (h s) = carry3 h (conv_int out_a m c flags width prec va i s)"
  by (simp add: conv_int_def Let_def ntoa_map carries carry3_if split_def cong: if_cong)

lemma conv_float_map: "conv_float out_b m c flags width prec va i (h s) = carry3 h (conv_float out_a m c flags width prec va i s)"
  using floats_map by (simp add: conv_float_def Let_def float_map_def carries split_def cong: if_cong)

lemma conv_char_map: "conv_char out_b m flags width va i (h s) = carry3 h (conv_char out_a m flags width va i s)"
  by (simp add: conv_char_def Let_def emit_map carries split_def del: emit.simps cong: if_cong)

lemma conv_string_map: "conv_string out_b m flags width prec va i (h s) = carry3 h (conv_string out_a m flags width prec va i s)"
  by (simp add: conv_string_def Let_def emit_map emit_string_map carries split_def cong: if_cong)

lemma conv_pointer_map: "conv_pointer out_b m flags prec va i (h s) = carry3 h (conv_pointer out_a m flags prec va i s)"
  by (simp add: conv_pointer_def ntoa_map carries split_def cong: if_cong)

lemma convert_map: "convert out_b m c flags width prec va i (h s) = carry3 h (convert out_a m c flags width prec va i s)"
  unfolding convert_def conv_int_map conv_float_map conv_char_map conv_string_map conv_pointer_map emit_map
  by (simp add: carries split_def cong: if_cong)

lemma vsn_loop_map: "vsn_loop out_b m fmt va i (h s) = carry h (vsn_loop out_a m fmt va i s)"
proof (induction "length fmt" arbitrary: fmt va i s rule: less_induct)
  case less
  show ?case
  proof (cases fmt)
    case Nil
    then show ?thesis by simp
  next
    case (Cons c fmt1)
    show ?thesis
    proof (cases "c = CHR ''%''")
      case False
      then show ?thesis using Cons less [of fmt1]
        by (subst (1 2) Cons) (simp add: vsn_loop.simps(2) out_imitates carries)
    next
      case True
      show ?thesis
      proof (cases "parse_spec fmt1 va")
        case (Inl e)
        then show ?thesis using True by (subst (1 2) Cons) (simp add: vsn_loop.simps(2))
      next
        case (Inr r)
        obtain flags width prec fmt2 va2 where r: "r = (flags, width, prec, fmt2, va2)" by (cases r)
        have l: "length fmt2 \<le> length fmt1" using Inr r parse_spec_length by blast
        show ?thesis
        proof (cases fmt2)
          case Nil
          then show ?thesis using True Inr r by (subst (1 2) Cons) (simp add: vsn_loop.simps(2))
        next
          case (Cons d fmt3)
          then have "length fmt3 < length fmt" using l \<open>fmt = c # fmt1\<close> by simp
          then show ?thesis using True Inr r Cons less [of fmt3]
            by (subst (1 2) \<open>fmt = c # fmt1\<close>) (simp add: vsn_loop.simps(2) convert_map carries split_def)
        qed
      qed
    qed
  qed
qed

lemma vsnprintf_map: "vsnprintf out_b m fmt va (h s) = carry h (vsnprintf out_a m fmt va s)"
  by (simp add: vsnprintf_def vsn_loop_map out_imitates carries split_def cong: if_cong)

end

section \<open>The text of a format\<close>

text \<open>The text and its length; \<open>out_char\<close> is the output function of the console.\<close>

definition printf_text :: "char list \<Rightarrow> va_arg list \<Rightarrow> fault + (int \<times> char list)" where
  "printf_text fmt va = vsnprintf out_char (2 ^ 32 - 1) fmt va []"

interpretation called: output_map "\<lambda>cs. fold fct cs arg" out_char "out_fct fct" for fct arg
  by unfold_locales (simp add: out_char_def out_fct_def)

lemma vfctprintf_text: "vfctprintf fct arg fmt va = rbind (printf_text fmt va) (\<lambda>(n, cs). Inr (n, fold fct cs arg))"
  using called.vsnprintf_map [of fct "2 ^ 32 - 1" fmt va "[]" arg]
  by (simp add: vfctprintf_def printf_text_def carry_def split_def)

end
