(* ===== verification/Stdio_Facts.thy ===== *)
theory Stdio_Facts
  imports Stdio Printf_Text
begin

text \<open>
  Output through the drivers: whatever calls it comes from, and however it is cut into pieces,
  every enabled driver gets the text as one stream, with its line ends translated once.
\<close>

section \<open>Line ends\<close>

fun ends_cr :: "bool \<Rightarrow> char list \<Rightarrow> bool" where
  "ends_cr b [] = b"
| "ends_cr b (c # s) = ends_cr (c = CHR 0x0D) s"

lemma ends_cr_append: "ends_cr b (s @ t) = ends_cr (ends_cr b s) t"
  by (induction b s rule: ends_cr.induct) auto

lemma ends_cr_last: "s \<noteq> [] \<Longrightarrow> ends_cr b s = (s ! (length s - 1) = CHR 0x0D)"
proof (induction s arbitrary: b)
  case (Cons c s)
  then show ?case by (cases "s = []") (auto simp: nth_Cons')
qed simp

lemma crlf_append: "crlf t b (x @ y) = crlf t b x @ crlf t (ends_cr b x) y"
  by (induction t b x rule: crlf.induct) auto

section \<open>A device that takes what it is given\<close>

locale sink =
  fixes out :: "char list \<Rightarrow> 'd \<Rightarrow> fault + 'd" and taken :: "'d \<Rightarrow> 'b list" and enc :: "char \<Rightarrow> 'b"
    and ready :: "'d \<Rightarrow> bool"
  assumes out_takes: "ready d \<Longrightarrow> \<exists>d'. out s d = Inr d' \<and> ready d' \<and> taken d' = taken d @ map enc s"
begin

text \<open>\<open>grown d t d'\<close>: the device of the driver has taken \<open>t\<close>, nothing else of the driver has changed.\<close>

definition grown :: "'d stdio_driver \<Rightarrow> char list \<Rightarrow> 'd stdio_driver \<Rightarrow> bool" where
  "grown d t d' \<longleftrightarrow> ready (device d') \<and> taken (device d') = taken (device d) @ map enc t \<and> d' = d\<lparr>device := device d'\<rparr>"

lemma grown_refl: "ready (device d) \<Longrightarrow> grown d [] d"
  by (simp add: grown_def)

lemma grown_trans: "grown d s d1 \<Longrightarrow> grown d1 t d2 \<Longrightarrow> grown d (s @ t) d2"
  unfolding grown_def by (metis append.assoc map_append stdio_driver.unfold_congs(6) stdio_driver.update_convs(6) stdio_driver.surjective)

lemma call_grows:
  assumes "out_chars d = Some out" "ready (device d)"
  shows "\<exists>d'. call_out_chars s d = Inr d' \<and> grown d s d'"
  using out_takes [OF assms(2), of s] assms(1)
  by (auto simp: call_out_chars_def on_device_def grown_def)

lemma grown_fields:
  assumes "grown d t d'"
  shows "out_chars d' = out_chars d" "out_flush d' = out_flush d" "last_ended_with_cr d' = last_ended_with_cr d"
    "crlf_enabled d' = crlf_enabled d" "ready (device d')"
  using assms unfolding grown_def by (metis stdio_driver.select_convs stdio_driver.surjective stdio_driver.update_convs(6))+

lemma crlf_loop_result:
  assumes "n + i = length s" "first \<le> i" "out_chars d = Some out" "ready (device d)"
  shows "\<exists>f' d' t. crlf_loop s n i first d = Inr (f', d') \<and> f' \<le> length s \<and> grown d t d' \<and>
    t @ drop f' s = take (i - first) (drop first s) @ crlf True (ends_cr (last_ended_with_cr d) (take i s)) (drop i s)"
  using assms
proof (induction n arbitrary: i first d)
  case 0
  then show ?case using grown_refl by (auto intro!: exI [of _ "[]"])
next
  case (Suc n)
  let ?last = "last_ended_with_cr d" and ?pend = "take (i - first) (drop first s)"
  have i: "i < length s" using Suc.prems(1) by simp
  have prev: "(if i > 0 then s ! (i - 1) = CHR 0x0D else ?last) = ends_cr ?last (take i s)"
  proof (cases "i = 0")
    case False
    then have "take i s \<noteq> []" using i by auto
    from ends_cr_last [OF this, of ?last] show ?thesis using i False by simp
  qed simp
  have dr: "drop i s = s ! i # drop (Suc i) s" using i by (rule Cons_nth_drop_Suc [symmetric])
  have e: "ends_cr ?last (take (Suc i) s) = (s ! i = CHR 0x0D)"
    using i by (simp add: take_Suc_conv_app_nth ends_cr_append)
  show ?case
  proof (cases "s ! i = CHR 0x0A \<and> \<not> ends_cr ?last (take i s)")
    case True
    obtain d1 where d1: "(if i > first then call_out_chars ?pend d else Inr d) = Inr d1" "grown d ?pend d1"
    proof (cases "i > first")
      case True
      then show ?thesis using call_grows [OF Suc.prems(3,4), of ?pend] that by auto
    next
      case False
      then show ?thesis using grown_refl [OF Suc.prems(4)] that by auto
    qed
    note f1 = grown_fields [OF d1(2)]
    obtain d2 where d2: "call_out_chars [CHR 0x0D, CHR 0x0A] d1 = Inr d2" "grown d1 [CHR 0x0D, CHR 0x0A] d2"
      using call_grows f1 Suc.prems(3) by metis
    note f2 = grown_fields [OF d2(2)]
    obtain f' d' t where r: "crlf_loop s n (Suc i) (Suc i) d2 = Inr (f', d')" "f' \<le> length s" "grown d2 t d'"
      "t @ drop f' s = crlf True (ends_cr ?last (take (Suc i) s)) (drop (Suc i) s)"
      using Suc.IH [of "Suc i" "Suc i" d2] Suc.prems(1,3) f1 f2 by auto
    have "grown d (?pend @ [CHR 0x0D, CHR 0x0A] @ t) d'"
      using d1(2) d2(2) r(3) grown_trans by (metis append.assoc)
    moreover have "crlf_loop s (Suc n) i first d = Inr (f', d')"
      using True d1(1) d2(1) r(1) by (simp add: prev)
    moreover have "(?pend @ [CHR 0x0D, CHR 0x0A] @ t) @ drop f' s = ?pend @ crlf True (ends_cr ?last (take i s)) (drop i s)"
      using True r(4) e unfolding dr by simp
    ultimately show ?thesis using r(2) by blast
  next
    case False
    obtain f' d' t where r: "crlf_loop s n (Suc i) first d = Inr (f', d')" "f' \<le> length s" "grown d t d'"
      "t @ drop f' s = take (Suc i - first) (drop first s) @ crlf True (ends_cr ?last (take (Suc i) s)) (drop (Suc i) s)"
      using Suc.IH [of "Suc i" first d] Suc.prems by auto
    have "take (Suc i - first) (drop first s) = ?pend @ [s ! i]"
      using Suc.prems(2) i by (simp add: Suc_diff_le take_Suc_conv_app_nth)
    then have "t @ drop f' s = ?pend @ crlf True (ends_cr ?last (take i s)) (drop i s)"
      using False r(4) e unfolding dr by auto
    moreover have "crlf_loop s (Suc n) i first d = Inr (f', d')" by (simp only: crlf_loop.simps Let_def prev False if_False r(1))
    ultimately show ?thesis using r(2,3) by blast
  qed
qed

text \<open>\<open>streamed d t d'\<close>: the driver has been given \<open>t\<close>, with its translation of line ends.\<close>

definition streamed :: "'d stdio_driver \<Rightarrow> char list \<Rightarrow> 'd stdio_driver \<Rightarrow> bool" where
  "streamed d t d' \<longleftrightarrow> ready (device d') \<and>
     taken (device d') = taken (device d) @ map enc (crlf (crlf_enabled d) (last_ended_with_cr d) t) \<and>
     d' = d\<lparr>device := device d', last_ended_with_cr :=
       (if crlf_enabled d then ends_cr (last_ended_with_cr d) t else last_ended_with_cr d)\<rparr>"

lemma streamed_fields:
  assumes "streamed d t d'"
  shows "out_chars d' = out_chars d" "out_flush d' = out_flush d" "crlf_enabled d' = crlf_enabled d" "ready (device d')"
    "last_ended_with_cr d' = (if crlf_enabled d then ends_cr (last_ended_with_cr d) t else last_ended_with_cr d)"
  using assms unfolding streamed_def by (cases d, cases d', simp)+

lemma streamed_refl: "ready (device d) \<Longrightarrow> streamed d [] d"
  by (cases d) (simp add: streamed_def)

lemma streamed_trans:
  assumes "streamed d s d1" "streamed d1 t d2"
  shows "streamed d (s @ t) d2"
  using assms unfolding streamed_def
  by (cases d, cases d1, cases d2) (auto simp: crlf_append ends_cr_append split: if_splits)

lemma out_chars_crlf_streams:
  assumes "out_chars d = Some out" "ready (device d)"
  shows "\<exists>d'. stdio_out_chars_crlf s d = Inr d' \<and> streamed d s d'"
proof (cases "crlf_enabled d")
  case False
  then show ?thesis using call_grows [OF assms, of s]
    by (cases d) (auto simp: stdio_out_chars_crlf_def streamed_def grown_def)
next
  case True
  let ?last = "last_ended_with_cr d"
  obtain f d1 t where l: "crlf_loop s (length s) 0 0 d = Inr (f, d1)" "f \<le> length s" "grown d t d1"
      "t @ drop f s = crlf True ?last s"
    using crlf_loop_result [of "length s" 0 s 0 d, OF _ _ assms] by auto
  obtain d2 where d2: "(if f < length s then call_out_chars (drop f s) d1 else Inr d1) = Inr d2" "grown d1 (drop f s) d2"
  proof (cases "f < length s")
    case True
    then show ?thesis using call_grows [of d1 "drop f s"] grown_fields [OF l(3)] assms(1) that by auto
  next
    case False
    then show ?thesis using grown_refl [of d1] grown_fields [OF l(3)] that by auto
  qed
  have g: "grown d (crlf True ?last s) d2" using grown_trans [OF l(3) d2(2)] l(4) by simp
  let ?d' = "if 0 < length s then d2\<lparr>last_ended_with_cr := (s ! (length s - 1) = CHR 0x0D)\<rparr> else d2"
  have "stdio_out_chars_crlf s d = Inr ?d'"
    using True l(1) d2(1) by (simp add: stdio_out_chars_crlf_def)
  moreover have "streamed d s ?d'"
    using g True ends_cr_last [of s ?last] by (cases d; cases d2; cases "s = []") (auto simp: streamed_def grown_def)
  ultimately show ?thesis by blast
qed

text \<open>
  The console as a caller finds it: the selected drivers are such devices, and the mutex is free
  or its own. \<open>delivered s t s'\<close>: every selected driver has been given \<open>t\<close>.
\<close>

definition outlets :: "'d stdio \<Rightarrow> bool" where
  "outlets s \<longleftrightarrow> distinct (drivers s) \<and>
     (\<forall>i \<in> set (drivers s). out_flush (driver s i) = None \<and>
       (selected_driver s i \<longrightarrow> out_chars (driver s i) = Some out \<and> ready (device (driver s i))))"

definition console :: "core \<Rightarrow> 'd stdio \<Rightarrow> bool" where
  "console k s \<longleftrightarrow> outlets s \<and> (owner (print_mutex s) = LOCK_INVALID_OWNER_ID \<or>
      lock_is_owner_id_valid (owner (print_mutex s)) \<and> owner (print_mutex s) = caller_id k)"

definition delivered :: "'d stdio \<Rightarrow> char list \<Rightarrow> 'd stdio \<Rightarrow> bool" where
  "delivered s t s' \<longleftrightarrow> drivers s' = drivers s \<and> driver_filter s' = driver_filter s \<and> print_mutex s' = print_mutex s \<and>
     (\<forall>i. if i \<in> set (drivers s) \<and> selected_driver s i then streamed (driver s i) t (driver s' i)
          else driver s' i = driver s i)"

lemma delivered_driver:
  assumes "delivered s t s'"
  shows "i \<in> set (drivers s) \<Longrightarrow> selected_driver s i \<Longrightarrow> streamed (driver s i) t (driver s' i)"
    and "\<not> (i \<in> set (drivers s) \<and> selected_driver s i) \<Longrightarrow> driver s' i = driver s i"
    and "drivers s' = drivers s" "driver_filter s' = driver_filter s" "print_mutex s' = print_mutex s"
  using assms unfolding delivered_def by (simp_all split: if_splits)

lemma delivered_selected:
  assumes d: "delivered s t s'" and i: "i \<in> set (drivers s)"
  shows "selected_driver s' i = selected_driver s i"
proof (cases "selected_driver s i")
  case True
  then have "out_chars (driver s' i) = out_chars (driver s i)"
    using delivered_driver(1) [OF d i] streamed_fields(1) by blast
  then show ?thesis using delivered_driver(4) [OF d] by (simp add: selected_driver_def)
next
  case False
  then have "driver s' i = driver s i" using delivered_driver(2) [OF d] by blast
  then show ?thesis using delivered_driver(4) [OF d] by (simp add: selected_driver_def)
qed

lemma delivered_trans:
  assumes d: "delivered s x s1" "delivered s1 y s2"
  shows "delivered s (x @ y) s2"
proof -
  have "if i \<in> set (drivers s) \<and> selected_driver s i then streamed (driver s i) (x @ y) (driver s2 i)
      else driver s2 i = driver s i" for i
  proof (cases "i \<in> set (drivers s) \<and> selected_driver s i")
    case True
    then show ?thesis
      using delivered_driver(1,2) [OF d(1), of i] delivered_driver(3) [OF d(1)] delivered_driver(1) [OF d(2), of i] delivered_selected [OF d(1), of i]
        streamed_trans by simp
  next
    case False
    then show ?thesis
      using delivered_driver(1,2) [OF d(1), of i] delivered_driver(3) [OF d(1)] delivered_driver(2) [OF d(2), of i] delivered_selected [OF d(1), of i] by auto
  qed
  then show ?thesis using delivered_driver(3-5) [OF d(1)] delivered_driver(3-5) [OF d(2)] by (simp add: delivered_def)
qed

lemma delivered_outlets:
  assumes c: "outlets s" and d: "delivered s t s'"
  shows "outlets s'"
proof -
  have "out_flush (driver s' i) = None \<and>
      (selected_driver s' i \<longrightarrow> out_chars (driver s' i) = Some out \<and> ready (device (driver s' i)))"
    if i: "i \<in> set (drivers s)" for i
  proof (cases "selected_driver s i")
    case True
    then have "streamed (driver s i) t (driver s' i)" using delivered_driver(1) [OF d i] by blast
    from streamed_fields [OF this] show ?thesis using c i True by (simp add: outlets_def)
  next
    case False
    then have "driver s' i = driver s i" using delivered_driver(2) [OF d] by blast
    then show ?thesis using c i by (simp add: outlets_def delivered_selected [OF d i])
  qed
  then show ?thesis using c delivered_driver(3) [OF d] by (simp add: outlets_def)
qed

lemma delivered_console: "console k s \<Longrightarrow> delivered s t s' \<Longrightarrow> console k s'"
  using delivered_outlets delivered_driver(5) by (auto simp: console_def)

lemma delivered_refl: "outlets s \<Longrightarrow> delivered s [] s"
  by (auto simp: delivered_def outlets_def intro: streamed_refl)

lemma to_drivers_delivers:
  assumes "distinct ds" "\<forall>i \<in> set ds. selected_driver s i \<longrightarrow> (\<exists>d'. f (driver s i) = Inr d' \<and> streamed (driver s i) t d')"
  shows "\<exists>s'. to_drivers f ds s = Inr s' \<and> drivers s' = drivers s \<and> driver_filter s' = driver_filter s \<and>
    print_mutex s' = print_mutex s \<and>
    (\<forall>i. if i \<in> set ds \<and> selected_driver s i then streamed (driver s i) t (driver s' i) else driver s' i = driver s i)"
  using assms
proof (induction ds arbitrary: s)
  case Nil
  then show ?case by simp
next
  case (Cons j ds)
  show ?case
  proof (cases "selected_driver s j")
    case False
    then show ?thesis using Cons.IH [of s] Cons.prems by auto
  next
    case True
    then obtain d' where d': "f (driver s j) = Inr d'" "streamed (driver s j) t d'" using Cons.prems(2) by auto
    let ?s = "put_driver j d' s"
    have sel: "selected_driver ?s i = selected_driver s i" if "i \<noteq> j" for i
      using that by (simp add: put_driver_def selected_driver_def)
    have "\<exists>s'. to_drivers f ds ?s = Inr s' \<and> drivers s' = drivers ?s \<and> driver_filter s' = driver_filter ?s \<and>
        print_mutex s' = print_mutex ?s \<and>
        (\<forall>i. if i \<in> set ds \<and> selected_driver ?s i then streamed (driver ?s i) t (driver s' i) else driver s' i = driver ?s i)"
    proof (rule Cons.IH)
      show "\<forall>i \<in> set ds. selected_driver ?s i \<longrightarrow> (\<exists>d'. f (driver ?s i) = Inr d' \<and> streamed (driver ?s i) t d')"
      proof
        fix i
        assume "i \<in> set ds"
        then have "i \<noteq> j" using Cons.prems(1) by auto
        then show "selected_driver ?s i \<longrightarrow> (\<exists>d'. f (driver ?s i) = Inr d' \<and> streamed (driver ?s i) t d')"
          using Cons.prems(2) \<open>i \<in> set ds\<close> sel by (simp add: put_driver_def)
      qed
    qed (use Cons.prems in simp)
    then obtain s' where s': "to_drivers f ds ?s = Inr s'" "drivers s' = drivers s" "driver_filter s' = driver_filter s"
      "print_mutex s' = print_mutex s"
      "\<And>i. if i \<in> set ds \<and> selected_driver ?s i then streamed (driver ?s i) t (driver s' i) else driver s' i = driver ?s i"
      by (auto simp: put_driver_def)
    have "if i \<in> set (j # ds) \<and> selected_driver s i then streamed (driver s i) t (driver s' i) else driver s' i = driver s i" for i
      using s'(5) [of i] Cons.prems(1) d'(2) True sel [of i]
      by (cases "i = j") (auto simp: put_driver_def split: if_splits)
    then show ?thesis using True d'(1) s'(1-4) by simp
  qed
qed

lemma to_drivers_delivered:
  assumes "outlets s"
    and "\<And>d. out_chars d = Some out \<Longrightarrow> ready (device d) \<Longrightarrow> \<exists>d'. f d = Inr d' \<and> streamed d t d'"
  shows "\<exists>s'. to_drivers f (drivers s) s = Inr s' \<and> delivered s t s'"
proof -
  have "\<forall>i \<in> set (drivers s). selected_driver s i \<longrightarrow> (\<exists>d'. f (driver s i) = Inr d' \<and> streamed (driver s i) t d')"
    using assms by (simp add: outlets_def)
  from to_drivers_delivers [OF _ this] show ?thesis using assms(1) by (auto simp: outlets_def delivered_def)
qed

section \<open>The operations\<close>

lemma serialize:
  assumes "console k s"
  obtains b m where "stdout_serialize_begin k s = Inr (b, s\<lparr>print_mutex := m\<rparr>)"
    "(if b then m\<lparr>owner := LOCK_INVALID_OWNER_ID\<rparr> else m) = print_mutex s"
proof (cases "owner (print_mutex s) = LOCK_INVALID_OWNER_ID")
  case True
  have "\<not> lock_is_owner_id_valid LOCK_INVALID_OWNER_ID" by (simp add: lock_is_owner_id_valid_def LOCK_INVALID_OWNER_ID_def)
  then show ?thesis using True that [of True "print_mutex s\<lparr>owner := caller_id k\<rparr>"]
    by (simp add: stdout_serialize_begin_def mutex_try_enter_def mutex_take_def)
next
  case False
  then have "owner (print_mutex s) = caller_id k" "lock_is_owner_id_valid (caller_id k)"
    using assms unfolding console_def by metis+
  then show ?thesis using that [of False "print_mutex s"]
    by (simp add: stdout_serialize_begin_def mutex_try_enter_def mutex_take_def)
qed

lemma serialized:
  assumes "delivered (s\<lparr>print_mutex := m\<rparr>) t s'" "(if b then m\<lparr>owner := LOCK_INVALID_OWNER_ID\<rparr> else m) = print_mutex s"
  shows "delivered s t (if b then stdout_serialize_end s' else s')"
  using assms by (simp add: delivered_def selected_driver_def stdout_serialize_end_def mutex_exit_def cong: if_cong split: if_splits)

lemma outlets_mutex: "outlets (s\<lparr>print_mutex := m\<rparr>) = outlets s"
  by (simp add: outlets_def selected_driver_def)

lemma put_string_delivers:
  assumes c: "console k s"
  shows "\<exists>b s'. stdio_put_string k cs newline False s = Inr (b, s') \<and>
    delivered s (if newline then cs @ [CHR 0x0A] else cs) s'"
proof -
  obtain b m where b: "stdout_serialize_begin k s = Inr (b, s\<lparr>print_mutex := m\<rparr>)"
    "(if b then m\<lparr>owner := LOCK_INVALID_OWNER_ID\<rparr> else m) = print_mutex s" by (rule serialize [OF c])
  let ?f = "\<lambda>d. rbind (stdio_out_chars_crlf cs d) (\<lambda>d1. if newline then stdio_out_chars_crlf [CHR 0x0A] d1 else Inr d1)"
  let ?t = "if newline then cs @ [CHR 0x0A] else cs"
  have f: "\<exists>d'. ?f d = Inr d' \<and> streamed d ?t d'" if "out_chars d = Some out" "ready (device d)" for d
  proof -
    note d = that
    obtain d1 where d1: "stdio_out_chars_crlf cs d = Inr d1" "streamed d cs d1"
      using out_chars_crlf_streams [OF d] by blast
    obtain d2 where "stdio_out_chars_crlf [CHR 0x0A] d1 = Inr d2" "streamed d1 [CHR 0x0A] d2"
      using out_chars_crlf_streams [of d1] streamed_fields [OF d1(2)] d(1) by auto
    then show ?thesis using d1 streamed_trans by (cases newline) auto
  qed
  have "outlets (s\<lparr>print_mutex := m\<rparr>)" using c by (simp add: console_def outlets_mutex)
  from to_drivers_delivered [OF this f] obtain s' where
    s': "to_drivers ?f (drivers (s\<lparr>print_mutex := m\<rparr>)) (s\<lparr>print_mutex := m\<rparr>) = Inr s'"
    "delivered (s\<lparr>print_mutex := m\<rparr>) ?t s'" by blast
  have "stdio_put_string k cs newline False s = Inr (cs \<noteq> [], if b then stdout_serialize_end s' else s')"
    using b(1) s'(1) by (simp add: stdio_put_string_def)
  then show ?thesis using serialized [OF s'(2) b(2)] by blast
qed

lemma flush_nothing: "\<forall>i \<in> set ds. out_flush (driver s i) = None \<Longrightarrow> flush_drivers ds s = Inr s"
  by (induction ds) auto

lemma stdio_flush_nothing: "outlets s \<Longrightarrow> stdio_flush s = Inr s"
  unfolding stdio_flush_def by (rule flush_nothing) (simp add: outlets_def)

lemma buffer_flush_delivers:
  assumes "outlets s"
  shows "\<exists>s'. stdio_stack_buffer_flush (buf, s) = Inr ([], s') \<and> delivered s buf s'"
proof (cases "buf = []")
  case True
  then show ?thesis using delivered_refl [OF assms] by (simp add: stdio_stack_buffer_flush_def)
next
  case False
  then show ?thesis using to_drivers_delivered [OF assms out_chars_crlf_streams, of buf]
    by (auto simp: stdio_stack_buffer_flush_def)
qed

text \<open>What the printer has been given is delivered or still in its buffer.\<close>

lemma buffered_printer_delivers:
  assumes "outlets s"
  shows "\<exists>buf' s' t. fold stdio_buffered_printer cs (Inr (buf, s)) = Inr (buf', s') \<and> delivered s t s' \<and> t @ buf' = buf @ cs"
  using assms
proof (induction cs arbitrary: buf s)
  case Nil
  then show ?case using delivered_refl by (auto intro!: exI [of _ "[]"])
next
  case (Cons c cs)
  obtain buf1 s1 t1 where 1: "stdio_buffered_printer c (Inr (buf, s)) = Inr (buf1, s1)" "delivered s t1 s1" "t1 @ buf1 = buf @ [c]"
  proof (cases "length buf = PICO_STDIO_STACK_BUFFER_SIZE")
    case True
    then show ?thesis using buffer_flush_delivers [OF Cons.prems, of buf] that
      by (fastforce simp: stdio_buffered_printer_def)
  next
    case False
    then show ?thesis using delivered_refl [OF Cons.prems] that by (simp add: stdio_buffered_printer_def)
  qed
  obtain buf' s' t where "fold stdio_buffered_printer cs (Inr (buf1, s1)) = Inr (buf', s')" "delivered s1 t s'" "t @ buf' = buf1 @ cs"
    using Cons.IH [OF delivered_outlets [OF Cons.prems 1(2)], of buf1] by blast
  moreover have "(t1 @ t) @ buf' = buf @ c # cs" using calculation(3) 1(3) by simp
  ultimately show ?case using 1 delivered_trans by (metis fold_simps(2))
qed

lemma vprintf_delivers:
  assumes c: "console k s" and t: "printf_text fmt va = Inr (n, cs)"
  shows "\<exists>s'. vprintf k fmt va s = Inr (n, s') \<and> delivered s cs s'"
proof -
  obtain b m where b: "stdout_serialize_begin k s = Inr (b, s\<lparr>print_mutex := m\<rparr>)"
    "(if b then m\<lparr>owner := LOCK_INVALID_OWNER_ID\<rparr> else m) = print_mutex s" by (rule serialize [OF c])
  let ?s = "s\<lparr>print_mutex := m\<rparr>"
  have o: "outlets ?s" using c by (simp add: console_def outlets_mutex)
  obtain buf s1 t1 where s1: "fold stdio_buffered_printer cs (Inr ([], ?s)) = Inr (buf, s1)" "delivered ?s t1 s1" "t1 @ buf = cs"
    using buffered_printer_delivers [OF o, of cs "[]"] by auto
  have o1: "outlets s1" by (rule delivered_outlets [OF o s1(2)])
  obtain s2 where s2: "stdio_stack_buffer_flush (buf, s1) = Inr ([], s2)" "delivered s1 buf s2"
    using buffer_flush_delivers [OF o1] by blast
  have "vprintf k fmt va s = Inr (n, if b then stdout_serialize_end s2 else s2)"
    using b(1) s1(1) s2(1) stdio_flush_nothing [OF delivered_outlets [OF o1 s2(2)]]
    by (simp add: vprintf_def vfctprintf_text t)
  then show ?thesis using serialized [OF delivered_trans [OF s1(2) s2(2)] b(2)] s1(3) by auto
qed

text \<open>Calls that print, as text; what a call prints does not depend on the state.\<close>

lemma putchar_delivers:
  "console k s \<Longrightarrow> \<exists>s'. putchar k c s = Inr (c, s') \<and> delivered s [char_of (uint c mod 256)] s'"
  using put_string_delivers [of k s "[char_of (uint c mod 256)]" False] by (auto simp: putchar_def)

lemma puts_delivers:
  assumes "console k s" "c_string p = Inr cs"
  shows "\<exists>s'. puts k p s = Inr (length cs, s') \<and> delivered s (cs @ [CHR 0x0A]) s'"
proof -
  obtain b s' where s': "stdio_put_string k cs True False s = Inr (b, s')" "delivered s (cs @ [CHR 0x0A]) s'"
    using put_string_delivers [OF assms(1), of cs True] by auto
  have "outlets s'" using delivered_console [OF assms(1) s'(2)] by (simp add: console_def)
  from stdio_flush_nothing [OF this] show ?thesis using s' assms(2) by (simp add: puts_def)
qed

lemma write_delivers:
  "console k s \<Longrightarrow> \<exists>s'. write_handle k 1 cs s = Inr (int (length cs), s') \<and> delivered s cs s'"
  using put_string_delivers [of k s cs False] by (auto simp: write_handle_def)

end

section \<open>Sequences of calls\<close>

datatype stdio_op = Putchar u32 | Puts "cell list" | Write "char list" | Printf "char list" "va_arg list"

fun run_op :: "core \<Rightarrow> stdio_op \<Rightarrow> 'd stdio \<Rightarrow> fault + 'd stdio" where
  "run_op k (Putchar c) s = rbind (putchar k c s) (\<lambda>(_, s1). Inr s1)"
| "run_op k (Puts p) s = rbind (puts k p s) (\<lambda>(_, s1). Inr s1)"
| "run_op k (Write cs) s = rbind (write_handle k 1 cs s) (\<lambda>(_, s1). Inr s1)"
| "run_op k (Printf fmt va) s = rbind (vprintf k fmt va s) (\<lambda>(_, s1). Inr s1)"

fun op_text :: "stdio_op \<Rightarrow> fault + char list" where
  "op_text (Putchar c) = Inr [char_of (uint c mod 256)]"
| "op_text (Puts p) = rbind (c_string p) (\<lambda>cs. Inr (cs @ [CHR 0x0A]))"
| "op_text (Write cs) = Inr cs"
| "op_text (Printf fmt va) = rbind (printf_text fmt va) (\<lambda>(n, cs). Inr cs)"

fun run_ops :: "core \<Rightarrow> stdio_op list \<Rightarrow> 'd stdio \<Rightarrow> fault + 'd stdio" where
  "run_ops k [] s = Inr s"
| "run_ops k (x # xs) s = rbind (run_op k x s) (run_ops k xs)"

fun ops_text :: "stdio_op list \<Rightarrow> fault + char list" where
  "ops_text [] = Inr []"
| "ops_text (x # xs) = rbind (op_text x) (\<lambda>t. rbind (ops_text xs) (\<lambda>u. Inr (t @ u)))"

context sink begin

lemma run_op_delivers:
  assumes "console k s" "op_text x = Inr t"
  shows "\<exists>s'. run_op k x s = Inr s' \<and> delivered s t s'"
proof (cases x)
  case (Putchar c)
  then show ?thesis using putchar_delivers [OF assms(1), of c] assms(2) by auto
next
  case (Puts p)
  then obtain cs where cs: "c_string p = Inr cs" "t = cs @ [CHR 0x0A]" using assms(2) by (auto simp: rbind_eq_Inr_iff)
  then show ?thesis using Puts puts_delivers [OF assms(1) cs(1)] by auto
next
  case (Write cs)
  then show ?thesis using write_delivers [OF assms(1), of cs] assms(2) by auto
next
  case (Printf fmt va)
  then obtain n where n: "printf_text fmt va = Inr (n, t)" using assms(2) by (auto simp: rbind_eq_Inr_iff)
  then show ?thesis using Printf vprintf_delivers [OF assms(1) n] by auto
qed

lemma run_ops_deliver: "console k s \<Longrightarrow> ops_text xs = Inr t \<Longrightarrow> \<exists>s'. run_ops k xs s = Inr s' \<and> delivered s t s'"
proof (induction xs arbitrary: s t)
  case Nil
  then show ?case using delivered_refl by (simp add: console_def)
next
  case (Cons x xs)
  then obtain t1 t2 where t: "op_text x = Inr t1" "ops_text xs = Inr t2" "t = t1 @ t2" by (auto simp: rbind_eq_Inr_iff)
  obtain s1 where s1: "run_op k x s = Inr s1" "delivered s t1 s1" using run_op_delivers [OF Cons.prems(1) t(1)] by blast
  obtain s2 where "run_ops k xs s1 = Inr s2" "delivered s1 t2 s2"
    using Cons.IH [OF delivered_console [OF Cons.prems(1) s1(2)] t(2)] by blast
  then show ?case using s1 t(3) delivered_trans by auto
qed

end

section \<open>The UART as a console\<close>

lemma uart_out_chars_sends:
  "char_to_line_feed u = 0x100 \<Longrightarrow>
   \<exists>u'. stdio_uart_out_chars s u = Inr u' \<and> char_to_line_feed u' = 0x100 \<and> sent u' = sent u @ map of_char s"
proof (induction s arbitrary: u)
  case (Cons c s)
  have u: "char_to_line_feed u = (if False then 10 else 0x100)" using Cons.prems by simp
  have "char_to_line_feed (uart_putc c u) = 0x100"
    using same_configD(5) [OF uart_putc_effect(1) [OF u]] Cons.prems by metis
  from Cons.IH [OF this] show ?case using uart_putc_effect(2) [OF u, of c] by auto
qed simp

interpretation uart_console: sink stdio_uart_out_chars Uart.sent of_char "\<lambda>u. char_to_line_feed u = 0x100"
  by unfold_locales (rule uart_out_chars_sends)

text \<open>The drivers are UARTs without a translation of their own; the mutex is free or the caller's.\<close>

definition uart_console :: "core \<Rightarrow> uart_hw stdio \<Rightarrow> bool" where
  "uart_console k s \<longleftrightarrow> distinct (drivers s) \<and>
     (\<forall>i \<in> set (drivers s). out_chars (driver s i) = Some stdio_uart_out_chars \<and> out_flush (driver s i) = None \<and>
       char_to_line_feed (device (driver s i)) = 0x100) \<and>
     (owner (print_mutex s) = LOCK_INVALID_OWNER_ID \<or>
      lock_is_owner_id_valid (owner (print_mutex s)) \<and> owner (print_mutex s) = caller_id k)"

text \<open>
  C33: Whatever a program prints, by \<open>putchar\<close>, \<open>puts\<close>, \<open>_write\<close> or \<open>printf\<close> and however the printer's
  buffer cuts it into pieces, every enabled UART is sent the texts of the calls one after the
  other, a carriage return before every line feed that has none as its driver is set up.
\<close>

theorem console_stream:
  assumes "uart_console k s" "ops_text xs = Inr t"
  shows "\<exists>s'. run_ops k xs s = Inr s' \<and> print_mutex s' = print_mutex s \<and>
    (\<forall>i \<in> set (drivers s). Uart.sent (device (driver s' i)) = Uart.sent (device (driver s i)) @
       (if driver_filter s = None \<or> driver_filter s = Some i
        then map of_char (crlf (crlf_enabled (driver s i)) (last_ended_with_cr (driver s i)) t) else []))"
proof -
  have "uart_console.console k s"
    using assms(1) by (simp add: uart_console.console_def uart_console.outlets_def uart_console_def)
  from uart_console.run_ops_deliver [OF this assms(2)] obtain s' where
    s': "run_ops k xs s = Inr s'" "uart_console.delivered s t s'" by blast
  note d = uart_console.delivered_driver [OF s'(2)]
  have "Uart.sent (device (driver s' i)) = Uart.sent (device (driver s i)) @
       (if driver_filter s = None \<or> driver_filter s = Some i
        then map of_char (crlf (crlf_enabled (driver s i)) (last_ended_with_cr (driver s i)) t) else [])"
    if "i \<in> set (drivers s)" for i
  proof -
    have "selected_driver s i \<longleftrightarrow> driver_filter s = None \<or> driver_filter s = Some i"
      using assms(1) that by (simp add: selected_driver_def uart_console_def)
    then show ?thesis using d(1) [OF that] d(2) [of i] by (auto simp: uart_console.streamed_def)
  qed
  then show ?thesis using s'(1) d(5) by blast
qed

text \<open>A format and a string on one UART.\<close>

theorem console_stream_witness:
  "\<forall>u t m k. \<exists>s'. run_ops k [Printf [CHR ''A'', CHR 0x0A] [], Puts [Some CHR ''o'', Some CHR ''k'', Some NUL]]
      \<lparr>driver = \<lambda>_. stdio_uart (u\<lparr>char_to_line_feed := 0x100\<rparr>), drivers = [0], driver_filter = None,
        print_mutex = m\<lparr>owner := LOCK_INVALID_OWNER_ID\<rparr>, stdio_timer = t\<rparr> = Inr s' \<and>
    Uart.sent (device (driver s' 0)) = Uart.sent u @
      map of_char [CHR ''A'', CHR 0x0D, CHR 0x0A, CHR ''o'', CHR ''k'', CHR 0x0D, CHR 0x0A]"
proof (intro allI)
  fix u t m k
  let ?xs = "[Printf [CHR ''A'', CHR 0x0A] [], Puts [Some CHR ''o'', Some CHR ''k'', Some NUL]]"
  let ?s = "\<lparr>driver = \<lambda>_. stdio_uart (u\<lparr>char_to_line_feed := 0x100\<rparr>), drivers = [0], driver_filter = None,
        print_mutex = m\<lparr>owner := LOCK_INVALID_OWNER_ID\<rparr>, stdio_timer = t\<rparr>"
  have c: "uart_console k ?s" by (simp add: uart_console_def stdio_uart_def)
  have t: "ops_text ?xs = Inr [CHR ''A'', CHR 0x0A, CHR ''o'', CHR ''k'', CHR 0x0A]"
    by (simp add: printf_text_def vsnprintf_def vsn_loop.simps(2) out_char_def)
  show "\<exists>s'. run_ops k ?xs ?s = Inr s' \<and> Uart.sent (device (driver s' 0)) = Uart.sent u @
      map of_char [CHR ''A'', CHR 0x0D, CHR 0x0A, CHR ''o'', CHR ''k'', CHR 0x0D, CHR 0x0A]"
    using console_stream [OF c t] by (auto simp: stdio_uart_def Uart.sent_def)
qed

end
