(* ===== verification/Usb_Fifo.thy ===== *)
theory Usb_Fifo
  imports Queue
begin

text \<open>
  The ring buffer of the USB stack (\<open>common/tusb_fifo.c\<close>, \<open>tusb_fifo.h\<close>). Its read and write indices
  run over twice the depth, so that a full buffer differs from an empty one, and are brought back by
  adding the unused part of the 16-bit range. Items can be copied from and to memory or a register
  that takes words. A mutex is optional; an operation that finds it locked waits for ever
  (\<open>Blocked\<close>).
\<close>

section \<open>State\<close>

record tu_fifo =
  ff_buffer :: "u8 list"
  depth :: u16
  item_size :: u16
  overwritable :: bool
  non_used_index_space :: u16
  max_pointer_idx :: u16
  wr_idx :: u16
  rd_idx :: u16
  mutex_wr :: "bool option"
  mutex_rd :: "bool option"

definition ff_lock :: "bool option \<Rightarrow> fault + bool option" where
  "ff_lock m = (if m = Some True then Inl Blocked else Inr (map_option (\<lambda>_. True) m))"

definition ff_unlock :: "bool option \<Rightarrow> bool option" where
  "ff_unlock m = map_option (\<lambda>_. False) m"

definition lock_wr :: "tu_fifo \<Rightarrow> fault + tu_fifo" where
  "lock_wr f = rbind (ff_lock (mutex_wr f)) (\<lambda>m. Inr (f\<lparr>mutex_wr := m\<rparr>))"

definition lock_rd :: "tu_fifo \<Rightarrow> fault + tu_fifo" where
  "lock_rd f = rbind (ff_lock (mutex_rd f)) (\<lambda>m. Inr (f\<lparr>mutex_rd := m\<rparr>))"

definition unlock_wr :: "tu_fifo \<Rightarrow> tu_fifo" where
  "unlock_wr f = f\<lparr>mutex_wr := ff_unlock (mutex_wr f)\<rparr>"

definition unlock_rd :: "tu_fifo \<Rightarrow> tu_fifo" where
  "unlock_rd f = f\<lparr>mutex_rd := ff_unlock (mutex_rd f)\<rparr>"

definition index_space :: "u16 \<Rightarrow> tu_fifo \<Rightarrow> tu_fifo" where
  "index_space d f = f\<lparr>max_pointer_idx := 2 * d - 1, non_used_index_space := 0xFFFF - (2 * d - 1),
     rd_idx := 0, wr_idx := 0\<rparr>"

definition tu_fifo_config :: "tu_fifo \<Rightarrow> u8 list \<Rightarrow> u16 \<Rightarrow> u16 \<Rightarrow> bool \<Rightarrow> fault + (bool \<times> tu_fifo)" where
  "tu_fifo_config f buf d isize over =
     (if d > 0x8000 then Inr (False, f)
      else rbind (lock_wr f) (\<lambda>f1. rbind (lock_rd f1) (\<lambda>f2.
        Inr (True, unlock_rd (unlock_wr (index_space d
          (f2\<lparr>ff_buffer := buf, depth := d, item_size := isize, overwritable := over\<rparr>)))))))"

definition tu_fifo_config_mutex :: "tu_fifo \<Rightarrow> bool option \<Rightarrow> bool option \<Rightarrow> tu_fifo" where
  "tu_fifo_config_mutex f write_mutex read_mutex = f\<lparr>mutex_wr := write_mutex, mutex_rd := read_mutex\<rparr>"

definition tu_fifo_depth :: "tu_fifo \<Rightarrow> u16" where
  "tu_fifo_depth f = depth f"

definition tu_fifo_clear :: "tu_fifo \<Rightarrow> fault + (bool \<times> tu_fifo)" where
  "tu_fifo_clear f = rbind (lock_wr f) (\<lambda>f1. rbind (lock_rd f1) (\<lambda>f2.
     Inr (True, unlock_rd (unlock_wr (index_space (depth f2) f2)))))"

definition tu_fifo_set_overwritable :: "tu_fifo \<Rightarrow> bool \<Rightarrow> fault + (bool \<times> tu_fifo)" where
  "tu_fifo_set_overwritable f over = rbind (lock_wr f) (\<lambda>f1. rbind (lock_rd f1) (\<lambda>f2.
     Inr (True, unlock_rd (unlock_wr (f2\<lparr>overwritable := over\<rparr>)))))"

section \<open>Indices\<close>

text \<open>With the depth 0 the loop does not end.\<close>

function ff_mod :: "u16 \<Rightarrow> u16 \<Rightarrow> fault + u16" where
  "ff_mod idx d = (if idx \<ge> d then if d = 0 then Inl Blocked else ff_mod (idx - d) d else Inr idx)"
  by pat_completeness auto
termination
  by (relation "measure (\<lambda>(idx, d). unat idx)") (auto simp: unat_sub word_le_nat_alt word_neq_0_conv word_less_nat_alt)

declare ff_mod.simps [simp del]

definition advance_pointer :: "tu_fifo \<Rightarrow> u16 \<Rightarrow> u16 \<Rightarrow> u16" where
  "advance_pointer f p offset =
     (if p > p + offset \<or> p + offset > max_pointer_idx f then p + offset + non_used_index_space f
      else p + offset)"

definition backward_pointer :: "tu_fifo \<Rightarrow> u16 \<Rightarrow> u16 \<Rightarrow> u16" where
  "backward_pointer f p offset =
     (if p < p - offset \<or> p - offset > max_pointer_idx f then p - offset - non_used_index_space f
      else p - offset)"

definition get_relative_pointer :: "tu_fifo \<Rightarrow> u16 \<Rightarrow> fault + u16" where
  "get_relative_pointer f p = ff_mod p (depth f)"

definition ff_count :: "tu_fifo \<Rightarrow> u16 \<Rightarrow> u16 \<Rightarrow> u16" where
  "ff_count f wAbs rAbs = (if rAbs > wAbs then wAbs - rAbs - non_used_index_space f else wAbs - rAbs)"

definition ff_empty :: "u16 \<Rightarrow> u16 \<Rightarrow> bool" where
  "ff_empty wAbs rAbs \<longleftrightarrow> wAbs = rAbs"

definition ff_full :: "tu_fifo \<Rightarrow> u16 \<Rightarrow> u16 \<Rightarrow> bool" where
  "ff_full f wAbs rAbs \<longleftrightarrow> ff_count f wAbs rAbs = depth f"

definition ff_overflowed :: "tu_fifo \<Rightarrow> u16 \<Rightarrow> u16 \<Rightarrow> bool" where
  "ff_overflowed f wAbs rAbs \<longleftrightarrow> ff_count f wAbs rAbs > depth f"

definition ff_correct_read_pointer :: "tu_fifo \<Rightarrow> u16 \<Rightarrow> tu_fifo" where
  "ff_correct_read_pointer f wAbs = f\<lparr>rd_idx := backward_pointer f wAbs (depth f)\<rparr>"

definition ff_remaining :: "tu_fifo \<Rightarrow> u16 \<Rightarrow> u16 \<Rightarrow> u16" where
  "ff_remaining f wAbs rAbs = depth f - ff_count f wAbs rAbs"

definition tu_fifo_count :: "tu_fifo \<Rightarrow> u16" where
  "tu_fifo_count f = min (ff_count f (wr_idx f) (rd_idx f)) (depth f)"

definition tu_fifo_empty :: "tu_fifo \<Rightarrow> bool" where
  "tu_fifo_empty f = ff_empty (wr_idx f) (rd_idx f)"

definition tu_fifo_full :: "tu_fifo \<Rightarrow> bool" where
  "tu_fifo_full f = ff_full f (wr_idx f) (rd_idx f)"

definition tu_fifo_remaining :: "tu_fifo \<Rightarrow> u16" where
  "tu_fifo_remaining f = ff_remaining f (wr_idx f) (rd_idx f)"

definition tu_fifo_overflowed :: "tu_fifo \<Rightarrow> bool" where
  "tu_fifo_overflowed f = ff_overflowed f (wr_idx f) (rd_idx f)"

definition tu_fifo_correct_read_pointer :: "tu_fifo \<Rightarrow> fault + tu_fifo" where
  "tu_fifo_correct_read_pointer f =
     rbind (lock_rd f) (\<lambda>f1. Inr (unlock_rd (ff_correct_read_pointer f1 (wr_idx f1))))"

definition tu_fifo_advance_write_pointer :: "tu_fifo \<Rightarrow> u16 \<Rightarrow> tu_fifo" where
  "tu_fifo_advance_write_pointer f n = f\<lparr>wr_idx := advance_pointer f (wr_idx f) n\<rparr>"

definition tu_fifo_advance_read_pointer :: "tu_fifo \<Rightarrow> u16 \<Rightarrow> tu_fifo" where
  "tu_fifo_advance_read_pointer f n = f\<lparr>rd_idx := advance_pointer f (rd_idx f) n\<rparr>"

section \<open>Copying\<close>

text \<open>
  The other end of a copy: the bytes of the caller's memory, or the words that go through a
  register, the least significant byte first.
\<close>

datatype tu_fifo_copy_mode = TU_FIFO_COPY_INC | TU_FIFO_COPY_CST_FULL_WORDS

datatype app_buf = Memory "u8 list" | Register "u32 list"

definition word_bytes :: "u32 \<Rightarrow> u8 list" where
  "word_bytes w = [ucast w, ucast (drop_bit 8 w), ucast (drop_bit 16 w), ucast (drop_bit 24 w)]"

definition bytes_word :: "u8 list \<Rightarrow> u32" where
  "bytes_word bs = foldr (\<lambda>b w. push_bit 8 w OR ucast b) bs 0"

fun next_word :: "u32 list \<Rightarrow> fault + (u32 \<times> u32 list)" where
  "next_word [] = Inl Uninitialised"
| "next_word (w # ws) = Inr (w, ws)"

fun push_words :: "nat \<Rightarrow> u8 list \<Rightarrow> nat \<Rightarrow> u32 list \<Rightarrow> fault + (u8 list \<times> u32 list)" where
  "push_words 0 bs p ws = Inr (bs, ws)"
| "push_words (Suc n) bs p ws =
     rbind (next_word ws) (\<lambda>(w, ws1). rbind (write_bytes bs p (word_bytes w)) (\<lambda>bs1.
       push_words n bs1 (p + 4) ws1))"

definition ff_push_const_addr :: "u8 list \<Rightarrow> nat \<Rightarrow> u32 list \<Rightarrow> u16 \<Rightarrow> fault + (u8 list \<times> u32 list)" where
  "ff_push_const_addr bs p ws len =
     (let full_words = unat (drop_bit 2 len); bytes_rem = unat (len AND 3)
      in rbind (push_words full_words bs p ws) (\<lambda>(bs1, ws1).
           if bytes_rem \<noteq> 0 then
             rbind (next_word ws1) (\<lambda>(w, ws2).
             rbind (write_bytes bs1 (p + 4 * full_words) (take bytes_rem (word_bytes w))) (\<lambda>bs2.
               Inr (bs2, ws2)))
           else Inr (bs1, ws1)))"

fun pull_words :: "nat \<Rightarrow> u8 list \<Rightarrow> nat \<Rightarrow> fault + u32 list" where
  "pull_words 0 bs p = Inr []"
| "pull_words (Suc n) bs p =
     rbind (read_bytes bs p 4) (\<lambda>b. rbind (pull_words n bs (p + 4)) (\<lambda>ws. Inr (bytes_word b # ws)))"

definition ff_pull_const_addr :: "u8 list \<Rightarrow> nat \<Rightarrow> u16 \<Rightarrow> fault + u32 list" where
  "ff_pull_const_addr bs p len =
     (let full_words = unat (drop_bit 2 len); bytes_rem = unat (len AND 3)
      in rbind (pull_words full_words bs p) (\<lambda>ws.
           if bytes_rem \<noteq> 0 then
             rbind (read_bytes bs (p + 4 * full_words) bytes_rem) (\<lambda>b. Inr (ws @ [bytes_word b]))
           else Inr ws))"

definition ff_push :: "tu_fifo \<Rightarrow> u8 list \<Rightarrow> u16 \<Rightarrow> fault + tu_fifo" where
  "ff_push f d rel =
     rbind (read_bytes d 0 (unat (item_size f))) (\<lambda>e.
     rbind (write_bytes (ff_buffer f) (unat rel * unat (item_size f)) e) (\<lambda>bs. Inr (f\<lparr>ff_buffer := bs\<rparr>)))"

definition ff_pull :: "tu_fifo \<Rightarrow> u16 \<Rightarrow> fault + u8 list" where
  "ff_pull f rel = read_bytes (ff_buffer f) (unat rel * unat (item_size f)) (unat (item_size f))"

text \<open>
  Where the copy wraps inside a word, the word is split: \<open>rem\<close> bytes at the end of the buffer,
  \<open>remrem\<close> at its start.
\<close>

definition push_wrapped_words :: "u8 list \<Rightarrow> nat \<Rightarrow> u32 list \<Rightarrow> u16 \<Rightarrow> u16 \<Rightarrow> fault + u8 list" where
  "push_wrapped_words bs p ws nLin_bytes nWrap_bytes =
     (let nLin_4n_bytes = nLin_bytes AND 0xFFFC; rem = unat (nLin_bytes AND 3)
      in rbind (ff_push_const_addr bs p ws nLin_4n_bytes) (\<lambda>(bs1, ws1).
         rbind (if rem > 0 then
                  (let remrem = min (unat nWrap_bytes) (4 - rem)
                   in rbind (next_word ws1) (\<lambda>(w, ws2).
                      rbind (write_bytes bs1 (p + unat nLin_4n_bytes) (take rem (word_bytes w))) (\<lambda>bs2.
                      rbind (write_bytes bs2 0 (take remrem (drop rem (word_bytes w)))) (\<lambda>bs3.
                        Inr (bs3, ws2, remrem)))))
                else Inr (bs1, ws1, 0)) (\<lambda>(bs4, ws4, k).
           if nWrap_bytes - of_nat k > 0
           then rbind (ff_push_const_addr bs4 k ws4 (nWrap_bytes - of_nat k)) (\<lambda>(bs5, _). Inr bs5)
           else Inr bs4)))"

definition pull_wrapped_words :: "u8 list \<Rightarrow> nat \<Rightarrow> u16 \<Rightarrow> u16 \<Rightarrow> fault + u32 list" where
  "pull_wrapped_words bs p nLin_bytes nWrap_bytes =
     (let nLin_4n_bytes = nLin_bytes AND 0xFFFC; rem = unat (nLin_bytes AND 3)
      in rbind (ff_pull_const_addr bs p nLin_4n_bytes) (\<lambda>ws1.
         rbind (if rem > 0 then
                  (let remrem = min (unat nWrap_bytes) (4 - rem)
                   in rbind (read_bytes bs (p + unat nLin_4n_bytes) rem) (\<lambda>b1.
                      rbind (read_bytes bs 0 remrem) (\<lambda>b2. Inr ([bytes_word (b1 @ b2)], remrem))))
                else Inr ([], 0)) (\<lambda>(ws2, k).
         rbind (if nWrap_bytes - of_nat k > 0 then ff_pull_const_addr bs k (nWrap_bytes - of_nat k)
                else Inr []) (\<lambda>ws3. Inr (ws1 @ ws2 @ ws3)))))"

definition ff_push_n :: "tu_fifo \<Rightarrow> app_buf \<Rightarrow> u16 \<Rightarrow> u16 \<Rightarrow> fault + tu_fifo" where
  "ff_push_n f src n rel =
     (let nLin = depth f - rel; nWrap = n - nLin;
          nLin_bytes = nLin * item_size f; nWrap_bytes = nWrap * item_size f;
          ff_buf = unat rel * unat (item_size f)
      in rbind (case src of
           Memory d \<Rightarrow>
             if n \<le> nLin then rbind (read_bytes d 0 (unat n * unat (item_size f))) (write_bytes (ff_buffer f) ff_buf)
             else rbind (read_bytes d 0 (unat nLin_bytes)) (\<lambda>b1.
                  rbind (write_bytes (ff_buffer f) ff_buf b1) (\<lambda>bs1.
                  rbind (read_bytes d (unat nLin_bytes) (unat nWrap_bytes)) (write_bytes bs1 0)))
         | Register ws \<Rightarrow>
             if n \<le> nLin then
               rbind (ff_push_const_addr (ff_buffer f) ff_buf ws (n * item_size f)) (\<lambda>(bs, _). Inr bs)
             else push_wrapped_words (ff_buffer f) ff_buf ws nLin_bytes nWrap_bytes) (\<lambda>bs.
           Inr (f\<lparr>ff_buffer := bs\<rparr>)))"

definition ff_pull_n :: "tu_fifo \<Rightarrow> u16 \<Rightarrow> u16 \<Rightarrow> tu_fifo_copy_mode \<Rightarrow> fault + app_buf" where
  "ff_pull_n f n rel copy_mode =
     (let nLin = depth f - rel; nWrap = n - nLin;
          nLin_bytes = nLin * item_size f; nWrap_bytes = nWrap * item_size f;
          ff_buf = unat rel * unat (item_size f)
      in case copy_mode of
           TU_FIFO_COPY_INC \<Rightarrow>
             if n \<le> nLin then rbind (read_bytes (ff_buffer f) ff_buf (unat n * unat (item_size f))) (\<lambda>b. Inr (Memory b))
             else rbind (read_bytes (ff_buffer f) ff_buf (unat nLin_bytes)) (\<lambda>b1.
                  rbind (read_bytes (ff_buffer f) 0 (unat nWrap_bytes)) (\<lambda>b2. Inr (Memory (b1 @ b2))))
         | TU_FIFO_COPY_CST_FULL_WORDS \<Rightarrow>
             rbind (if n \<le> nLin then ff_pull_const_addr (ff_buffer f) ff_buf (n * item_size f)
                    else pull_wrapped_words (ff_buffer f) ff_buf nLin_bytes nWrap_bytes) (\<lambda>ws. Inr (Register ws)))"

section \<open>Reading\<close>

definition ff_peek :: "tu_fifo \<Rightarrow> u16 \<Rightarrow> u16 \<Rightarrow> fault + (u8 list option \<times> tu_fifo)" where
  "ff_peek f wAbs rAbs =
     (let cnt = ff_count f wAbs rAbs;
          (f1, cnt1) = (if cnt > depth f then (ff_correct_read_pointer f wAbs, depth f) else (f, cnt))
      in if cnt1 = 0 then Inr (None, f1)
         else rbind (get_relative_pointer f1 rAbs) (\<lambda>rRel.
              rbind (ff_pull f1 rRel) (\<lambda>b. Inr (Some b, f1))))"

definition ff_peek_n ::
    "tu_fifo \<Rightarrow> u16 \<Rightarrow> u16 \<Rightarrow> u16 \<Rightarrow> tu_fifo_copy_mode \<Rightarrow> fault + (u16 \<times> app_buf option \<times> tu_fifo)" where
  "ff_peek_n f n wAbs rAbs copy_mode =
     (let cnt = ff_count f wAbs rAbs;
          (f1, r, cnt1) = (if cnt > depth f
             then let f1 = ff_correct_read_pointer f wAbs in (f1, rd_idx f1, depth f1) else (f, rAbs, cnt))
      in if cnt1 = 0 then Inr (0, None, f1)
         else let m = (if cnt1 < n then cnt1 else n)
              in rbind (get_relative_pointer f1 r) (\<lambda>rRel.
                 rbind (ff_pull_n f1 m rRel copy_mode) (\<lambda>b. Inr (m, Some b, f1))))"

definition ff_read_n :: "tu_fifo \<Rightarrow> u16 \<Rightarrow> tu_fifo_copy_mode \<Rightarrow> fault + (u16 \<times> app_buf option \<times> tu_fifo)" where
  "ff_read_n f n copy_mode =
     rbind (lock_rd f) (\<lambda>f1.
     rbind (ff_peek_n f1 n (wr_idx f1) (rd_idx f1) copy_mode) (\<lambda>(m, b, f2).
       Inr (m, b, unlock_rd (f2\<lparr>rd_idx := advance_pointer f2 (rd_idx f2) m\<rparr>))))"

definition tu_fifo_read_n :: "tu_fifo \<Rightarrow> u16 \<Rightarrow> fault + (u16 \<times> app_buf option \<times> tu_fifo)" where
  "tu_fifo_read_n f n = ff_read_n f n TU_FIFO_COPY_INC"

definition tu_fifo_read_n_const_addr_full_words :: "tu_fifo \<Rightarrow> u16 \<Rightarrow> fault + (u16 \<times> app_buf option \<times> tu_fifo)" where
  "tu_fifo_read_n_const_addr_full_words f n = ff_read_n f n TU_FIFO_COPY_CST_FULL_WORDS"

definition tu_fifo_read :: "tu_fifo \<Rightarrow> fault + (u8 list option \<times> tu_fifo)" where
  "tu_fifo_read f =
     rbind (lock_rd f) (\<lambda>f1. rbind (ff_peek f1 (wr_idx f1) (rd_idx f1)) (\<lambda>(ret, f2).
       Inr (ret, unlock_rd (f2\<lparr>rd_idx := advance_pointer f2 (rd_idx f2) (if ret \<noteq> None then 1 else 0)\<rparr>))))"

definition tu_fifo_peek :: "tu_fifo \<Rightarrow> fault + (u8 list option \<times> tu_fifo)" where
  "tu_fifo_peek f =
     rbind (lock_rd f) (\<lambda>f1. rbind (ff_peek f1 (wr_idx f1) (rd_idx f1)) (\<lambda>(ret, f2). Inr (ret, unlock_rd f2)))"

text \<open>The count goes through a variable of type \<open>bool\<close>.\<close>

definition tu_fifo_peek_n :: "tu_fifo \<Rightarrow> u16 \<Rightarrow> fault + (u16 \<times> app_buf option \<times> tu_fifo)" where
  "tu_fifo_peek_n f n =
     rbind (lock_rd f) (\<lambda>f1. rbind (ff_peek_n f1 n (wr_idx f1) (rd_idx f1) TU_FIFO_COPY_INC) (\<lambda>(m, b, f2).
       Inr (if m \<noteq> 0 then 1 else 0, b, unlock_rd f2)))"

section \<open>Writing\<close>

text \<open>Moving the source by \<open>k\<close> bytes; past a register lies something else.\<close>

definition skip_source :: "nat \<Rightarrow> app_buf \<Rightarrow> fault + app_buf" where
  "skip_source k src =
     (case src of
        Memory d \<Rightarrow> if k \<le> length d then Inr (Memory (drop k d)) else Inl OutOfBounds
      | Register ws \<Rightarrow> if k = 0 then Inr src else Inl OutOfBounds)"

definition ff_write_n :: "tu_fifo \<Rightarrow> app_buf \<Rightarrow> u16 \<Rightarrow> fault + (u16 \<times> tu_fifo)" where
  "ff_write_n f src n =
     (if n = 0 then Inr (0, f)
      else rbind (lock_wr f) (\<lambda>f1.
        let w = wr_idx f1; r = rd_idx f1
        in rbind (if \<not> overwritable f1 then Inr (src, min n (ff_remaining f1 w r), w)
                  else if n \<ge> depth f1 then
                    rbind (skip_source (unat (n - depth f1) * unat (item_size f1)) src) (\<lambda>src1.
                      Inr (src1, depth f1, r))
                  else Inr (src, n, w)) (\<lambda>(src1, n1, w1).
           rbind (get_relative_pointer f1 w1) (\<lambda>wRel.
           rbind (ff_push_n f1 src1 n1 wRel) (\<lambda>f2.
             Inr (n1, unlock_wr (f2\<lparr>wr_idx := advance_pointer f2 w1 n1\<rparr>)))))))"

definition tu_fifo_write_n :: "tu_fifo \<Rightarrow> u8 list \<Rightarrow> u16 \<Rightarrow> fault + (u16 \<times> tu_fifo)" where
  "tu_fifo_write_n f d n = ff_write_n f (Memory d) n"

definition tu_fifo_write_n_const_addr_full_words :: "tu_fifo \<Rightarrow> u32 list \<Rightarrow> u16 \<Rightarrow> fault + (u16 \<times> tu_fifo)" where
  "tu_fifo_write_n_const_addr_full_words f ws n = ff_write_n f (Register ws) n"

text \<open>A full buffer is left with its mutex locked.\<close>

definition tu_fifo_write :: "tu_fifo \<Rightarrow> u8 list \<Rightarrow> fault + (bool \<times> tu_fifo)" where
  "tu_fifo_write f d =
     rbind (lock_wr f) (\<lambda>f1.
       let w = wr_idx f1
       in if ff_full f1 w (rd_idx f1) \<and> \<not> overwritable f1 then Inr (False, f1)
          else rbind (get_relative_pointer f1 w) (\<lambda>wRel.
               rbind (ff_push f1 d wRel) (\<lambda>f2.
                 Inr (True, unlock_wr (f2\<lparr>wr_idx := advance_pointer f2 w 1\<rparr>)))))"

section \<open>Access without copies\<close>

text \<open>A pointer into the buffer is the offset of its byte.\<close>

record tu_fifo_buffer_info =
  len_lin :: u16
  len_wrap :: u16
  ptr_lin :: "nat option"
  ptr_wrap :: "nat option"

definition no_info :: tu_fifo_buffer_info where
  "no_info = \<lparr>len_lin = 0, len_wrap = 0, ptr_lin = None, ptr_wrap = None\<rparr>"

definition tu_fifo_get_read_info :: "tu_fifo \<Rightarrow> fault + (tu_fifo_buffer_info \<times> tu_fifo)" where
  "tu_fifo_get_read_info f =
     (let w = wr_idx f; r = rd_idx f; cnt = ff_count f w r
      in rbind (if cnt > depth f
                then rbind (lock_rd f) (\<lambda>f1. let f2 = unlock_rd (ff_correct_read_pointer f1 w)
                       in Inr (f2, rd_idx f2, depth f2))
                else Inr (f, r, cnt)) (\<lambda>(f3, r3, cnt3).
           if cnt3 = 0 then Inr (no_info, f3)
           else rbind (get_relative_pointer f3 w) (\<lambda>wRel. rbind (get_relative_pointer f3 r3) (\<lambda>rRel.
             Inr (if wRel > rRel
                  then \<lparr>len_lin = cnt3, len_wrap = 0, ptr_lin = Some (unat rRel), ptr_wrap = None\<rparr>
                  else \<lparr>len_lin = depth f3 - rRel, len_wrap = cnt3 - (depth f3 - rRel),
                        ptr_lin = Some (unat rRel), ptr_wrap = Some 0\<rparr>, f3)))))"

definition tu_fifo_get_write_info :: "tu_fifo \<Rightarrow> fault + tu_fifo_buffer_info" where
  "tu_fifo_get_write_info f =
     (let w = wr_idx f; r = rd_idx f; free = ff_remaining f w r
      in if free = 0 then Inr no_info
         else rbind (get_relative_pointer f w) (\<lambda>wRel. rbind (get_relative_pointer f r) (\<lambda>rRel.
           Inr (if wRel < rRel
                then \<lparr>len_lin = rRel - wRel, len_wrap = 0, ptr_lin = Some (unat wRel), ptr_wrap = None\<rparr>
                else \<lparr>len_lin = depth f - wRel, len_wrap = free - (depth f - wRel),
                      ptr_lin = Some (unat wRel), ptr_wrap = Some 0\<rparr>))))"

end
