(* ===== verification/Usb_Fifo_Copy.thy ===== *)
theory Usb_Fifo_Copy
  imports Usb_Fifo
begin

text \<open>
  What the indices and the copies of the ring buffer do: the indices count modulo twice the depth; a
  copy, by bytes or by words and wrapped or not, is one write into the ring or one read of it.
\<close>

section \<open>Indices\<close>

lemma ff_mod_nat: "unat i < 2 * unat d \<Longrightarrow> ff_mod i d = Inr (word_of_nat (unat i mod unat d))"
proof -
  assume a: "unat i < 2 * unat d"
  then have "d \<noteq> 0" by auto
  have *: "ff_mod j d = Inr j" if "unat j < unat d" for j
    using that by (simp add: ff_mod.simps [of j] word_le_nat_alt)
  show ?thesis
  proof (cases "unat i < unat d")
    case True
    then show ?thesis using * [OF True] by simp
  next
    case False
    then have u: "unat (i - d) = unat i - unat d" by (simp add: unat_sub word_le_nat_alt)
    then have "ff_mod (i - d) d = Inr (i - d)" using a by (intro *) simp
    moreover have "unat (i - d) = unat i mod unat d"
      using u False a mod_wrap [of "unat i" "unat d"] by simp
    then have "i - d = word_of_nat (unat i mod unat d)" by (metis of_nat_unat ucast_id)
    ultimately show ?thesis using False \<open>d \<noteq> 0\<close> by (simp add: ff_mod.simps [of i] word_le_nat_alt)
  qed
qed

text \<open>A FIFO of \<open>d\<close> items of \<open>s\<close> bytes; \<open>unread f\<close> counts what was written and not read, also when
  that is more than there is room for.\<close>

definition fifo_shape :: "nat \<Rightarrow> nat \<Rightarrow> tu_fifo \<Rightarrow> bool" where
  "fifo_shape d s f \<longleftrightarrow> 0 < d \<and> d \<le> 2 ^ 15 \<and> 0 < s \<and> d * s < 2 ^ 16 \<and>
     unat (depth f) = d \<and> unat (item_size f) = s \<and> length (ff_buffer f) = d * s \<and>
     unat (max_pointer_idx f) = 2 * d - 1 \<and> unat (non_used_index_space f) = 2 ^ 16 - 2 * d \<and>
     unat (wr_idx f) < 2 * d \<and> unat (rd_idx f) < 2 * d"

definition ring_count :: "nat \<Rightarrow> nat \<Rightarrow> nat \<Rightarrow> nat" where
  "ring_count d w r = (w + 2 * d - r) mod (2 * d)"

definition unread :: "tu_fifo \<Rightarrow> nat" where
  "unread f = ring_count (unat (depth f)) (unat (wr_idx f)) (unat (rd_idx f))"

lemma u16_add: "unat (a + b :: u16) = (if unat a + unat b < 2 ^ 16 then unat a + unat b else unat a + unat b - 2 ^ 16)"
  using u16_nat [of a] u16_nat [of b] mod_wrap [of "unat a + unat b" "2 ^ 16"] by (simp add: unat_word_ariths)

lemma u16_minus: "unat (a - b :: u16) = (if unat b \<le> unat a then unat a - unat b else unat a + 2 ^ 16 - unat b)"
  using u16_nat [of a] u16_nat [of b] mod_wrap [of "unat a + 2 ^ 16 - unat b" "2 ^ 16"]
  by (auto simp: unat_sub_if')

lemma advance_nat:
  assumes "fifo_shape d s f" "unat p < 2 * d" "unat k < 2 * d"
  shows "unat (advance_pointer f p k) = (unat p + unat k) mod (2 * d)"
  using assms u16_nat [of k] u16_nat [of p] mod_wrap [of "unat p + unat k" "2 * d"]
  by (auto simp: advance_pointer_def fifo_shape_def word_less_nat_alt u16_add split: if_splits)

lemma backward_nat:
  assumes "fifo_shape d s f" "unat p < 2 * d" "unat k < 2 * d"
  shows "unat (backward_pointer f p k) = (unat p + 2 * d - unat k) mod (2 * d)"
  using assms u16_nat [of k] u16_nat [of p] mod_wrap [of "unat p + 2 * d - unat k" "2 * d"]
  by (auto simp: backward_pointer_def fifo_shape_def word_less_nat_alt u16_minus split: if_splits)

lemma count_nat:
  assumes "fifo_shape d s f" "unat w < 2 * d" "unat r < 2 * d"
  shows "unat (ff_count f w r) = ring_count d (unat w) (unat r)"
  using assms u16_nat [of w] u16_nat [of r] mod_wrap [of "unat w + 2 * d - unat r" "2 * d"]
  by (auto simp: ff_count_def ring_count_def fifo_shape_def word_less_nat_alt u16_minus split: if_splits)

section \<open>Bytes\<close>

text \<open>The buffer with \<open>d\<close> written at \<open>p\<close>, round the end.\<close>

definition ring_write :: "u8 list \<Rightarrow> nat \<Rightarrow> u8 list \<Rightarrow> u8 list" where
  "ring_write bs p d =
     (let k = length bs - p
      in if length d \<le> k then take p bs @ d @ drop (p + length d) bs
         else drop k d @ drop (length d - k) (take p bs) @ take k d)"

lemma length_ring_write [simp]: "p \<le> length bs \<Longrightarrow> length d \<le> length bs \<Longrightarrow> length (ring_write bs p d) = length bs"
  by (auto simp: ring_write_def Let_def)

lemma rotate_split: "n \<le> length xs \<Longrightarrow> rotate n xs = drop n xs @ take n xs"
  by (cases "n = length xs") (simp_all add: rotate_drop_take)

lemma rotate_ring_write:
  assumes "p < length bs" "length d \<le> length bs"
  shows "rotate (p + length d) (ring_write bs p d) = drop (length d) (rotate p bs @ d)"
proof -
  let ?L = "length bs" and ?k = "length bs - p"
  have old: "rotate p bs = drop p bs @ take p bs" using assms by (simp add: rotate_split)
  show ?thesis
  proof (cases "length d \<le> ?k")
    case True
    then have "ring_write bs p d = take p bs @ d @ drop (p + length d) bs" by (simp add: ring_write_def Let_def)
    moreover have "p + length d \<le> length (take p bs @ d @ drop (p + length d) bs)" using True assms by simp
    ultimately show ?thesis using True assms by (simp add: rotate_split old add.commute)
  next
    case False
    let ?b = "drop ?k d @ drop (length d - ?k) (take p bs) @ take ?k d"
    have b: "ring_write bs p d = ?b" "length ?b = ?L" using False assms by (simp_all add: ring_write_def Let_def)
    have "p + length d = (length d - ?k) + ?L" using False assms by simp
    then have "(p + length d) mod length ?b = (length d - ?k) mod length ?b" by (metis b(2) mod_add_self2)
    then have "rotate (p + length d) ?b = rotate (length d - ?k) ?b" by (metis rotate_conv_mod)
    also have "\<dots> = drop (length d - ?k) (take p bs) @ take ?k d @ drop ?k d"
      using False assms by (simp add: rotate_split)
    finally show ?thesis using False assms by (simp add: b(1) old)
  qed
qed

text \<open>Words are their bytes, and bytes fill up words.\<close>

definition words_bytes :: "u32 list \<Rightarrow> u8 list" where
  "words_bytes ws = concat (map word_bytes ws)"

lemma length_word_bytes [simp]: "length (word_bytes w) = 4"
  by (simp add: word_bytes_def)

lemma length_words_bytes [simp]: "length (words_bytes ws) = 4 * length ws"
  by (induction ws) (simp_all add: words_bytes_def)

lemma words_bytes_simps [simp]:
  "words_bytes [] = []" "words_bytes (w # ws) = word_bytes w @ words_bytes ws"
  "words_bytes (xs @ ys) = words_bytes xs @ words_bytes ys"
  by (simp_all add: words_bytes_def)

lemma drop_words_bytes: "drop (4 * n) (words_bytes ws) = words_bytes (drop n ws)"
  by (induction n arbitrary: ws) (simp, case_tac ws, simp_all)

lemma word_bytes_Cons: "word_bytes (push_bit 8 w OR ucast b) = b # take 3 (word_bytes w)"
  by (auto simp: word_bytes_def bit_simps intro!: bit_word_eqI) (auto dest: bit_imp_le_length)

lemma bytes_word_bytes: "length bs \<le> 4 \<Longrightarrow> take (length bs) (word_bytes (bytes_word bs)) = bs"
proof (induction bs)
  case (Cons b bs)
  have "bytes_word (b # bs) = push_bit 8 (bytes_word bs) OR ucast b" by (simp add: bytes_word_def)
  then show ?case using Cons by (simp add: word_bytes_Cons min_absorb1)
qed simp

section \<open>Copying\<close>

lemma write_bytes_ok: "p + length d \<le> length bs \<Longrightarrow> write_bytes bs p d = Inr (take p bs @ d @ drop (p + length d) bs)"
  by (simp add: write_bytes_def)

lemma read_bytes_ok: "p + n \<le> length bs \<Longrightarrow> read_bytes bs p n = Inr (take n (drop p bs))"
  by (simp add: read_bytes_def)

lemma write_after:
  assumes "n = length a" "p + n + length b \<le> length bs"
  shows "write_bytes (take p bs @ a @ drop (p + n) bs) (p + n) b = Inr (take p bs @ a @ b @ drop (p + n + length b) bs)"
  using assms by (simp add: write_bytes_def ac_simps)

lemma push_words_writes:
  "n \<le> length ws \<Longrightarrow> p + 4 * n \<le> length bs \<Longrightarrow>
   push_words n bs p ws = Inr (take p bs @ words_bytes (take n ws) @ drop (p + 4 * n) bs, drop n ws)"
proof (induction n arbitrary: bs p ws)
  case (Suc n)
  then obtain w us where w: "ws = w # us" by (cases ws) auto
  let ?bs = "take p bs @ word_bytes w @ drop (p + 4) bs"
  have "push_words (Suc n) bs p ws = push_words n ?bs (p + 4) us"
    using Suc.prems by (simp add: w write_bytes_ok)
  also have "\<dots> = Inr (take (p + 4) ?bs @ words_bytes (take n us) @ drop (p + 4 + 4 * n) ?bs, drop n us)"
    using Suc.prems by (intro Suc.IH) (simp_all add: w)
  also have "take (p + 4) ?bs = take p bs @ word_bytes w" using Suc.prems by simp
  also have "drop (p + 4 + 4 * n) ?bs = drop (p + 4 * Suc n) bs" using Suc.prems by (simp add: algebra_simps)
  finally show ?case by (simp add: w)
qed simp

lemma four_bytes:
  fixes len :: u16
  shows "unat (drop_bit 2 len) = unat len div 4" "unat (len AND 3) = unat len mod 4"
    "unat (len AND 0xFFFC) = 4 * (unat len div 4)"
proof -
  show d: "unat (drop_bit 2 len) = unat len div 4" by (simp only: unat_drop_bit_eq drop_bit_eq_div [where 'a = nat]) simp
  have m: "(3 :: u16) = mask 2" by (simp add: mask_eq_exp_minus_1)
  show "unat (len AND 3) = unat len mod 4"
    by (simp only: m unsigned_take_bit_eq take_bit_eq_mod [where 'a = nat] flip: take_bit_eq_mask) simp
  have "len AND 0xFFFC = push_bit 2 (drop_bit 2 len)"
  proof -
    have "(0xFFFC :: u16) = NOT (mask 2)" by (simp add: mask_eq_exp_minus_1)
    moreover have "len AND NOT (mask 2) = push_bit 2 (drop_bit 2 len)"
      by (rule bit_word_eqI) (simp only: bit_simps not_less, auto simp del: add_2_eq_Suc add_2_eq_Suc')
    ultimately show ?thesis by (simp only:)
  qed
  then have "unat (len AND 0xFFFC) = unat (drop_bit 2 len * 4)" by (simp only: push_bit_eq_mult) simp
  also have "\<dots> = unat len div 4 * unat (4 :: u16) mod 2 ^ LENGTH(16)" by (simp only: unat_word_ariths d)
  also have "\<dots> = 4 * (unat len div 4)" using u16_nat(1) [of len] by simp
  finally show "unat (len AND 0xFFFC) = 4 * (unat len div 4)" .
qed

lemma words_bytes_take: "words_bytes (take n ws) = take (4 * n) (words_bytes ws)"
  by (induction n arbitrary: ws) (simp, case_tac ws, simp_all)

lemma next_word_drop:
  "n < length ws \<Longrightarrow> next_word (drop n ws) = Inr (ws ! n, drop (Suc n) ws)"
  "n < length ws \<Longrightarrow> m \<le> 4 \<Longrightarrow> take (4 * n + m) (words_bytes ws) = take (4 * n) (words_bytes ws) @ take m (word_bytes (ws ! n))"
  by (simp_all add: Cons_nth_drop_Suc [symmetric] take_add drop_words_bytes)

lemma four_bytesE:
  fixes len :: u16
  obtains q r where "unat len = 4 * q + r" "r < 4" "unat (drop_bit 2 len) = q" "unat (len AND 3) = r"
    "unat (len AND 0xFFFC) = 4 * q" "(unat len + 3) div 4 = (if r = 0 then q else Suc q)"
proof
  show "unat len = 4 * (unat len div 4) + unat len mod 4" by simp
  show "(unat len + 3) div 4 = (if unat len mod 4 = 0 then unat len div 4 else Suc (unat len div 4))"
    by presburger
qed (simp_all add: four_bytes)

lemma push_const_addr_writes:
  assumes "unat len \<le> 4 * length ws" "p + unat len \<le> length bs"
  shows "ff_push_const_addr bs p ws len =
    Inr (take p bs @ take (unat len) (words_bytes ws) @ drop (p + unat len) bs, drop ((unat len + 3) div 4) ws)"
proof -
  obtain q r where l: "unat len = 4 * q + r" "r < 4" "unat (drop_bit 2 len) = q" "unat (len AND 3) = r"
    "unat (len AND 0xFFFC) = 4 * q" "(unat len + 3) div 4 = (if r = 0 then q else Suc q)" by (rule four_bytesE)
  have q: "q \<le> length ws" "p + 4 * q \<le> length bs" using assms l by linarith+
  note w = push_words_writes [OF q]
  show ?thesis
  proof (cases "r = 0")
    case True
    then show ?thesis using w l by (simp add: ff_push_const_addr_def words_bytes_take)
  next
    case False
    then have s: "q < length ws" "r \<le> 4" using assms(1) l by linarith+
    have r: "p + 4 * q + r \<le> length bs" "length (take r (word_bytes (ws ! q))) = r" using assms(2) l by simp_all
    have e: "4 * q = length (take (4 * q) (words_bytes ws))" using q(1) by simp
    have "write_bytes (take p bs @ take (4 * q) (words_bytes ws) @ drop (p + 4 * q) bs) (p + 4 * q)
        (take r (word_bytes (ws ! q))) =
      Inr (take p bs @ take (4 * q) (words_bytes ws) @ take r (word_bytes (ws ! q)) @ drop (p + 4 * q + r) bs)"
      using write_after [OF e, of p "take r (word_bytes (ws ! q))" bs] r by (simp only:)
    then show ?thesis using w False l next_word_drop(1) [OF s(1)] next_word_drop(2) [OF s]
      by (simp add: ff_push_const_addr_def words_bytes_take Let_def add.assoc)
  qed
qed

lemma ring_write_split:
  "p \<le> length bs \<Longrightarrow> length d1 = length bs - p \<Longrightarrow> length d2 \<le> p \<Longrightarrow>
   ring_write bs p (d1 @ d2) = d2 @ drop (length d2) (take p bs) @ d1"
  by (cases d2) (auto simp: ring_write_def Let_def)

lemma write_start: "length d \<le> length bs \<Longrightarrow> write_bytes bs 0 d = Inr (d @ drop (length d) bs)"
  by (simp add: write_bytes_def)

lemma push_wrapped_writes:
  fixes a b :: u16
  assumes "p + unat a = length bs" "unat b \<le> p" "unat a + unat b \<le> 4 * length ws"
  shows "push_wrapped_words bs p ws a b = Inr (ring_write bs p (take (unat a + unat b) (words_bytes ws)))"
proof -
  let ?B = "words_bytes ws"
  obtain q r where l: "unat a = 4 * q + r" "r < 4" "unat (drop_bit 2 a) = q" "unat (a AND 3) = r"
    "unat (a AND 0xFFFC) = 4 * q" "(unat a + 3) div 4 = (if r = 0 then q else Suc q)" by (rule four_bytesE)
  have p1: "ff_push_const_addr bs p ws (a AND 0xFFFC) =
    Inr (take p bs @ take (4 * q) ?B @ drop (p + 4 * q) bs, drop q ws)"
    using push_const_addr_writes [of "a AND 0xFFFC" ws p bs] l assms by simp
  have D: "take (unat a + unat b) ?B = take (unat a) ?B @ take (unat b) (drop (unat a) ?B)" by (rule take_add)
  have R: "ring_write bs p (take (unat a + unat b) ?B) =
      take (unat b) (drop (unat a) ?B) @ drop (unat b) (take p bs) @ take (unat a) ?B"
    unfolding D using assms by (subst ring_write_split) (simp_all add: min_absorb2)
  show ?thesis
  proof (cases "r = 0")
    case True
    then have a: "drop (p + 4 * q) bs = []" "unat a = 4 * q" using l assms by simp_all
    show ?thesis
    proof (cases "b = 0")
      case True
      then show ?thesis using p1 l a \<open>r = 0\<close> R by (simp add: push_wrapped_words_def Let_def)
    next
      case False
      have "ff_push_const_addr (take p bs @ take (4 * q) ?B) 0 (drop q ws) b =
        Inr (take (unat b) (drop (4 * q) ?B) @ drop (unat b) (take p bs @ take (4 * q) ?B), drop ((unat b + 3) div 4) (drop q ws))"
        using push_const_addr_writes [of b "drop q ws" 0 "take p bs @ take (4 * q) ?B"] assms a
        by (simp add: drop_words_bytes)
      then show ?thesis using p1 l a False \<open>r = 0\<close> R assms
        by (simp add: push_wrapped_words_def Let_def word_gt_0 min_absorb2)
    qed
  next
    case False
    then have s: "q < length ws" "r \<le> 4" using l assms by linarith+
    let ?w = "word_bytes (ws ! q)" and ?m = "min (unat b) (4 - r)"
    have w: "drop (4 * q) ?B = ?w @ drop (4 * Suc q) ?B"
      by (simp only: drop_words_bytes) (simp add: Cons_nth_drop_Suc [OF s(1), symmetric])
    note ta = next_word_drop(2) [OF s]
    have pl: "min (length bs) p = p" "p \<le> length bs" using assms(1) by simp_all
    let ?X = "take p bs @ take (unat a) ?B"
    have "4 * q = length (take (4 * q) ?B)" using s by simp
    from write_after [OF this, of p "take r ?w" bs] l assms
    have b2: "write_bytes (take p bs @ take (4 * q) ?B @ drop (p + 4 * q) bs) (p + 4 * q) (take r ?w) = Inr ?X"
      by (simp add: ta min_absorb2)
    let ?e = "take ?m (drop r ?w)"
    have e: "length ?e = ?m" by simp
    have b3: "write_bytes ?X 0 ?e = Inr (?e @ drop ?m ?X)"
      using assms e by (subst write_start) (simp_all add: min_le_iff_disj)
    have rest: "drop (unat a) ?B = drop r ?w @ drop (4 * Suc q) ?B"
    proof -
      have "drop (unat a) ?B = drop r (drop (4 * q) ?B)" by (simp only: l(1) drop_drop add.commute)
      also have "\<dots> = drop r ?w @ drop (4 * Suc q) ?B" using s(2) by (simp only: w drop_append) simp
      finally show ?thesis .
    qed
    show ?thesis
    proof (cases "unat b \<le> 4 - r")
      case True
      then have "?m = unat b" by simp
      then show ?thesis using p1 b2 b3 l False R next_word_drop(1) [OF s(1)] assms(2) rest True pl
        by (simp add: push_wrapped_words_def Let_def)
    next
      case b: False
      let ?c = "b - of_nat (4 - r)"
      have k: "unat (of_nat (4 - r) :: u16) = 4 - r"
        by (simp only: unsigned_of_nat) (simp add: take_bit_nat_eq_self)
      have c: "unat ?c = unat b - (4 - r)" using b u16_minus [of b "of_nat (4 - r)"] unfolding k by simp
      then have "0 < unat ?c" using b by linarith
      then have m: "?m = 4 - r" "unat ?c = unat b - (4 - r)" "?c > 0"
        using b c by (simp_all only: word_less_nat_alt unsigned_0)
      have dS: "words_bytes (drop (Suc q) ws) = drop (4 + 4 * q) ?B" using drop_words_bytes [of "Suc q" ws] by simp
      have "length (?e @ drop ?m ?X) = length bs" using assms m(1) b by simp
      with push_const_addr_writes [of ?c "drop (Suc q) ws" "4 - r" "?e @ drop ?m ?X"] m b s assms l dS
      have "ff_push_const_addr (?e @ drop ?m ?X) (4 - r) (drop (Suc q) ws) ?c =
          Inr (drop r ?w @ take (unat b - (4 - r)) (drop (4 * Suc q) ?B) @ drop (unat b) ?X,
               drop ((unat ?c + 3) div 4) (drop (Suc q) ws))"
        by simp
      then show ?thesis using p1 b2 b3 l False R next_word_drop(1) [OF s(1)] assms(2) rest m b pl
        by (simp add: push_wrapped_words_def Let_def)
    qed
  qed
qed

fun words_of :: "u8 list \<Rightarrow> u32 list" where
  "words_of [] = []"
| "words_of (b # bs) = bytes_word (take 4 (b # bs)) # words_of (drop 4 (b # bs))"

lemma words_of_ne: "bs \<noteq> [] \<Longrightarrow> words_of bs = bytes_word (take 4 bs) # words_of (drop 4 bs)"
  by (cases bs) simp_all

lemma words_of_word:
  "xs \<noteq> [] \<Longrightarrow> length xs \<le> 4 \<Longrightarrow> words_of xs = [bytes_word xs]"
  "length xs = 4 \<Longrightarrow> words_of (xs @ ys) = bytes_word xs # words_of ys"
  using words_of_ne [of xs] words_of_ne [of "xs @ ys"] by (simp, cases xs, auto)

lemma words_of_bytes: "take (length bs) (words_bytes (words_of bs)) = bs"
proof (induction bs rule: words_of.induct)
  case (2 b bs)
  let ?x = "b # bs"
  have "take (length (take 4 ?x)) (word_bytes (bytes_word (take 4 ?x))) = take 4 ?x" by (intro bytes_word_bytes) simp
  moreover have "length ?x = length (take 4 ?x) + length (drop 4 ?x)" by simp
  moreover have "length (take 4 ?x) = 4 \<or> drop 4 ?x = []" by auto
  ultimately show ?case using 2 append_take_drop_id [of 4 ?x]
    by (auto simp only: words_of.simps words_bytes_simps take_append length_word_bytes) (auto simp: min_def)
qed simp

lemma words_of_append: "4 dvd length xs \<Longrightarrow> words_of (xs @ ys) = words_of xs @ words_of ys"
proof (induction xs rule: words_of.induct)
  case (2 x xs)
  then have "4 \<le> length (x # xs)" using dvd_imp_le [of 4 "length (x # xs)"] by simp
  moreover from this 2(2) have "4 dvd length (drop 4 (x # xs))" by (metis dvd_diff_nat dvd_refl length_drop)
  ultimately show ?case using 2(1) by (simp add: words_of_ne [of "_ # _"] del: words_of.simps)
qed simp

lemma pull_words_reads: "p + 4 * n \<le> length bs \<Longrightarrow> pull_words n bs p = Inr (words_of (take (4 * n) (drop p bs)))"
proof (induction n arbitrary: p)
  case (Suc n)
  let ?x = "take (4 * Suc n) (drop p bs)"
  have "?x \<noteq> []" "take 4 ?x = take 4 (drop p bs)" "drop 4 ?x = take (4 * n) (drop (p + 4) bs)"
    using Suc.prems by (simp_all add: drop_take add.commute)
  then have "words_of ?x = bytes_word (take 4 (drop p bs)) # words_of (take (4 * n) (drop (p + 4) bs))"
    using words_of_ne [of ?x] by simp
  then show ?case using Suc by (simp add: read_bytes_ok)
qed simp

lemma pull_const_addr_reads:
  assumes "p + unat len \<le> length bs"
  shows "ff_pull_const_addr bs p len = Inr (words_of (take (unat len) (drop p bs)))"
proof -
  obtain q r where l: "unat len = 4 * q + r" "r < 4" "unat (drop_bit 2 len) = q" "unat (len AND 3) = r"
    "unat (len AND 0xFFFC) = 4 * q" "(unat len + 3) div 4 = (if r = 0 then q else Suc q)" by (rule four_bytesE)
  have w: "pull_words q bs p = Inr (words_of (take (4 * q) (drop p bs)))"
    using assms l by (intro pull_words_reads) linarith
  have "take (unat len) (drop p bs) = take (4 * q) (drop p bs) @ take r (drop (p + 4 * q) bs)"
    by (simp only: l(1) take_add drop_drop add.commute [of p])
  moreover have "length (take (4 * q) (drop p bs)) = 4 * q" using assms l by simp
  moreover have "words_of (take r (drop (p + 4 * q) bs)) = (if r = 0 then [] else [bytes_word (take r (drop (p + 4 * q) bs))])"
    using assms l words_of_ne [of "take r (drop (p + 4 * q) bs)"] by (simp add: min_absorb2)
  ultimately show ?thesis using w l assms
    by (simp add: ff_pull_const_addr_def Let_def words_of_append read_bytes_ok)
qed

lemma pull_wrapped_reads:
  fixes a b :: u16
  assumes "p + unat a = length bs" "unat b \<le> p"
  shows "pull_wrapped_words bs p a b = Inr (words_of (drop p bs @ take (unat b) bs))"
proof -
  obtain q r where l: "unat a = 4 * q + r" "r < 4" "unat (drop_bit 2 a) = q" "unat (a AND 3) = r"
    "unat (a AND 0xFFFC) = 4 * q" "(unat a + 3) div 4 = (if r = 0 then q else Suc q)" by (rule four_bytesE)
  let ?x = "take (4 * q) (drop p bs)" and ?y = "drop (p + 4 * q) bs"
  have "?y = drop (4 * q) (drop p bs)" by (simp add: add.commute)
  then have "drop p bs = ?x @ ?y" by (simp only: append_take_drop_id)
  moreover have "length ?x = 4 * q" "length ?y = r" using assms l by simp_all
  ultimately have x: "drop p bs = ?x @ ?y" "4 dvd length ?x" "length ?y = r" by simp_all
  have p1: "ff_pull_const_addr bs p (a AND 0xFFFC) = Inr (words_of ?x)"
    using assms l by (subst pull_const_addr_reads) simp_all
  have R: "words_of (drop p bs @ take (unat b) bs) = words_of ?x @ words_of (?y @ take (unat b) bs)"
    by (subst x(1)) (simp add: words_of_append [OF x(2)])
  show ?thesis
  proof (cases "r = 0")
    case True
    then have "?y = []" using x(3) by simp
    then show ?thesis using True p1 l R assms
      by (cases "b = 0") (simp_all add: pull_wrapped_words_def Let_def word_gt_0 pull_const_addr_reads)
  next
    case False
    let ?m = "min (unat b) (4 - r)"
    have k: "unat (of_nat ?m :: u16) = ?m" by (simp only: unsigned_of_nat) (simp add: take_bit_nat_eq_self)
    then have c: "unat (b - of_nat ?m) = unat b - ?m" using u16_minus [of b "of_nat ?m"] by simp
    have y: "read_bytes bs (p + 4 * q) r = Inr ?y" "read_bytes bs 0 ?m = Inr (take ?m bs)"
      using assms l x(3) by (simp_all add: read_bytes_ok min_le_iff_disj)
    show ?thesis
    proof (cases "unat b \<le> 4 - r")
      case True
      then have m: "?m = unat b" by simp
      have "words_of (?y @ take (unat b) bs) = [bytes_word (?y @ take (unat b) bs)]"
        using False x(3) True assms l(2) by (intro words_of_word(1)) auto
      then show ?thesis using p1 l False R y unfolding m by (simp add: pull_wrapped_words_def Let_def m)
    next
      case b: False
      then have m: "?m = 4 - r" "b - of_nat ?m > 0" using c by (simp_all add: word_less_nat_alt)
      have "take (unat b) bs = take (4 - r) bs @ take (unat b - (4 - r)) (drop (4 - r) bs)"
        using b take_add [of "4 - r" "unat b - (4 - r)" bs] by simp
      moreover have "length (?y @ take (4 - r) bs) = 4" using x(3) b assms l(2) by simp
      ultimately have "words_of (?y @ take (unat b) bs) =
          bytes_word (?y @ take (4 - r) bs) # words_of (take (unat b - (4 - r)) (drop (4 - r) bs))"
        using words_of_word(2) by (metis append.assoc)
      moreover have "ff_pull_const_addr bs ?m (b - of_nat ?m) = Inr (words_of (take (unat b - (4 - r)) (drop (4 - r) bs)))"
        using c m(1) assms b by (subst pull_const_addr_reads) simp_all
      ultimately show ?thesis using p1 l False R y m by (simp add: pull_wrapped_words_def Let_def)
    qed
  qed
qed

end
