(* ===== verification/Usb_Fifo_Facts.thy ===== *)
theory Usb_Fifo_Facts
  imports Usb_Fifo_Copy Sync_Facts
begin

text \<open>
  The ring buffer of the USB stack as a stream: whatever way it is written and read, it behaves as
  a bounded list of bytes. The last bytes written, oldest first, are the buffer rotated to the
  write index; the contents are the end of them.
\<close>

section \<open>Copies into and out of the ring\<close>

fun app_bytes :: "app_buf \<Rightarrow> u8 list" where
  "app_bytes (Memory d) = d"
| "app_bytes (Register ws) = words_bytes ws"

lemma u16_mult: "unat a * unat b < 2 ^ 16 \<Longrightarrow> unat (a * b :: u16) = unat a * unat b"
  by (simp add: unat_word_ariths)

lemma shape_copy:
  assumes "fifo_shape d s f" "unat rel < d" "unat n \<le> d"
  shows "unat (depth f - rel) = d - unat rel" "n \<le> depth f - rel \<longleftrightarrow> unat n \<le> d - unat rel"
    "unat (n * item_size f) = unat n * s" "unat ((depth f - rel) * item_size f) = (d - unat rel) * s"
    "d - unat rel < unat n \<Longrightarrow> unat ((n - (depth f - rel)) * item_size f) = (unat n - (d - unat rel)) * s"
    "unat rel * s < length (ff_buffer f)" "(d - unat rel) * s = length (ff_buffer f) - unat rel * s"
proof -
  have f: "unat (depth f) = d" "unat (item_size f) = s" "length (ff_buffer f) = d * s" "0 < s" "d * s < 2 ^ 16"
    using assms(1) by (simp_all add: fifo_shape_def)
  show l: "unat (depth f - rel) = d - unat rel" using assms f by (simp add: u16_minus)
  then show "n \<le> depth f - rel \<longleftrightarrow> unat n \<le> d - unat rel" by (simp add: word_le_nat_alt)
  have m: "unat (k * item_size f) = unat k * s" if "unat k \<le> d" for k
  proof -
    have "unat k * s \<le> d * s" using that by simp
    then have "unat k * unat (item_size f) < 2 ^ 16" using f(2,5) by (metis le_less_trans)
    then show ?thesis using u16_mult [of k "item_size f"] f by simp
  qed
  show "unat (n * item_size f) = unat n * s" using m assms(3) .
  show "unat ((depth f - rel) * item_size f) = (d - unat rel) * s" using m [of "depth f - rel"] l by simp
  show "unat ((n - (depth f - rel)) * item_size f) = (unat n - (d - unat rel)) * s" if "d - unat rel < unat n"
    using m [of "n - (depth f - rel)"] l that assms(3) by (simp add: u16_minus)
  show "unat rel * s < length (ff_buffer f)" using assms(2) f by simp
  show "(d - unat rel) * s = length (ff_buffer f) - unat rel * s" using f by (simp add: diff_mult_distrib)
qed

lemma wrapped_part:
  assumes "fifo_shape d s f" "unat rel < d" "unat n \<le> d" "d - unat rel < unat n"
  shows "\<exists>x. unat n * s = (d - unat rel) * s + x \<and> x \<le> unat rel * s \<and>
    unat ((n - (depth f - rel)) * item_size f) = x"
proof -
  have "unat n * s = (d - unat rel) * s + (unat n - (d - unat rel)) * s"
    using assms(4) by (simp flip: distrib_right)
  moreover have "(unat n - (d - unat rel)) * s \<le> unat rel * s" using assms(2,3) by (intro mult_le_mono1) linarith
  ultimately show ?thesis using shape_copy(5) [OF assms(1-3)] assms(4) by blast
qed

lemma push_n_writes:
  assumes "fifo_shape d s f" "unat rel < d" "unat n \<le> d" "unat n * s \<le> length (app_bytes src)"
  shows "ff_push_n f src n rel =
    Inr (f\<lparr>ff_buffer := ring_write (ff_buffer f) (unat rel * s) (take (unat n * s) (app_bytes src))\<rparr>)"
proof -
  note c = shape_copy [OF assms(1-3)]
  have f: "unat (item_size f) = s" "length (ff_buffer f) = d * s" using assms(1) by (simp_all add: fifo_shape_def)
  let ?b = "ff_buffer f" and ?p = "unat rel * s" and ?l = "(d - unat rel) * s"
  have le: "unat n * s \<le> ?l" if "unat n \<le> d - unat rel" using that by simp
  show ?thesis
  proof (cases "unat n \<le> d - unat rel")
    case True
    then have fit: "?p + unat n * s \<le> length ?b" using le c(6,7) by linarith
    have R: "ring_write ?b ?p (take (unat n * s) (app_bytes src)) =
        take ?p ?b @ take (unat n * s) (app_bytes src) @ drop (?p + unat n * s) ?b"
      using le [OF True] assms(4) c(7) by (simp add: ring_write_def Let_def min_absorb2)
    show ?thesis
    proof (cases src)
      case (Memory m)
      then show ?thesis using R fit assms(4) True c(2) f(1)
        by (simp add: ff_push_n_def Let_def read_bytes_ok write_bytes_ok min_absorb2)
    next
      case (Register ws)
      then show ?thesis using R fit assms(4) True c(2,3) f(1)
        by (simp add: ff_push_n_def Let_def push_const_addr_writes)
    qed
  next
    case False
    obtain x where x: "unat n * s = ?l + x" "x \<le> ?p" "unat ((n - (depth f - rel)) * item_size f) = x"
      using wrapped_part [OF assms(1-3)] False by (metis not_le)
    obtain p l where p: "?p = p" "?l = l" "p + l = length ?b" using c(6,7) by simp
    note q = x [unfolded p] p c(2,4) False f(1) assms(4)
    show ?thesis
    proof (cases src)
      case (Memory m)
      have "take (l + x) m = take l m @ take x (drop l m)" by (rule take_add)
      moreover have "l + x \<le> length m" using q Memory by simp
      moreover from this have "ring_write ?b p (take l m @ take x (drop l m)) =
          take x (drop l m) @ drop x (take p ?b) @ take l m"
        using q(2,6) by (subst ring_write_split) simp_all
      ultimately show ?thesis using Memory q
        by (simp add: ff_push_n_def Let_def read_bytes_ok write_bytes_ok min_absorb2)
    next
      case (Register ws)
      then show ?thesis using q by (simp add: ff_push_n_def Let_def push_wrapped_writes)
    qed
  qed
qed

definition to_app :: "tu_fifo_copy_mode \<Rightarrow> u8 list \<Rightarrow> app_buf" where
  "to_app mode bs = (case mode of TU_FIFO_COPY_INC \<Rightarrow> Memory bs | TU_FIFO_COPY_CST_FULL_WORDS \<Rightarrow> Register (words_of bs))"

lemma app_bytes_to_app: "take (length bs) (app_bytes (to_app mode bs)) = bs"
  by (cases mode) (simp_all add: to_app_def words_of_bytes)

lemma pull_n_reads:
  assumes "fifo_shape d s f" "unat rel < d" "unat n \<le> d"
  shows "ff_pull_n f n rel mode = Inr (to_app mode (take (unat n * s) (rotate (unat rel * s) (ff_buffer f))))"
proof -
  note c = shape_copy [OF assms]
  have f: "unat (item_size f) = s" "length (ff_buffer f) = d * s" using assms(1) by (simp_all add: fifo_shape_def)
  let ?b = "ff_buffer f" and ?p = "unat rel * s" and ?l = "(d - unat rel) * s"
  have rot: "rotate ?p ?b = drop ?p ?b @ take ?p ?b" using c(6) by (simp add: rotate_split)
  show ?thesis
  proof (cases "unat n \<le> d - unat rel")
    case True
    then have "unat n * s \<le> ?l" by simp
    then have fit: "?p + unat n * s \<le> length ?b" using c(6,7) by linarith
    then have "take (unat n * s) (rotate ?p ?b) = take (unat n * s) (drop ?p ?b)" by (simp add: rot)
    then show ?thesis using fit True c(2,3) f(1)
      by (cases mode) (simp_all add: ff_pull_n_def Let_def read_bytes_ok pull_const_addr_reads to_app_def)
  next
    case False
    obtain x where x: "unat n * s = ?l + x" "x \<le> ?p" "unat ((n - (depth f - rel)) * item_size f) = x"
      using wrapped_part [OF assms] False by (metis not_le)
    obtain p l where p: "?p = p" "?l = l" "p + l = length ?b" using c(6,7) by simp
    note q = x [unfolded p] p c(2,4) False f(1)
    have "length (drop p ?b) = l" using p by simp
    then have "take (l + x) (rotate p ?b) = drop p ?b @ take x ?b"
      using q(2) rot by (simp add: p min_absorb1)
    then show ?thesis using q
      by (cases mode) (simp_all add: ff_pull_n_def Let_def read_bytes_ok pull_wrapped_reads to_app_def)
  qed
qed

section \<open>Contents\<close>

text \<open>The last \<open>k\<close> elements, the bytes of a full buffer, and of those the ones not read.\<close>

definition last_n :: "nat \<Rightarrow> 'x list \<Rightarrow> 'x list" where
  "last_n k xs = drop (length xs - k) xs"

definition past :: "tu_fifo \<Rightarrow> u8 list" where
  "past f = rotate (unat (wr_idx f) * unat (item_size f)) (ff_buffer f)"

definition fifo_content :: "tu_fifo \<Rightarrow> u8 list" where
  "fifo_content f = last_n (min (unread f) (unat (depth f)) * unat (item_size f)) (past f)"

definition unlocked :: "tu_fifo \<Rightarrow> bool" where
  "unlocked f \<longleftrightarrow> mutex_wr f \<noteq> Some True \<and> mutex_rd f \<noteq> Some True"

lemma last_n_append: "length b \<le> k \<Longrightarrow> last_n k (a @ b) = last_n (k - length b) a @ b"
  by (simp add: last_n_def)

lemma last_n_drop: "k + m \<le> length a \<Longrightarrow> last_n k (drop m a) = last_n k a"
  by (simp add: last_n_def)

lemma last_n_last_n: "j \<le> k \<Longrightarrow> last_n j (last_n k a) = last_n j a"
  by (simp add: last_n_def) (rule arg_cong [where f = "\<lambda>n. drop n a"], arith)

lemma last_n_long: "k \<le> length b \<Longrightarrow> last_n k (a @ b) = last_n k b"
  by (simp add: last_n_def)

lemma last_n_written:
  assumes "length p = l" "length b \<le> l" "k \<le> l" "u \<le> l" "k \<le> u + length b" "k = l \<or> k = u + length b"
  shows "last_n k (drop (length b) (p @ b)) = last_n l (last_n u p @ b)"
  using assms(6)
proof
  assume k: "k = l"
  then have "last_n l (last_n u p @ b) = last_n (l - length b) p @ b"
    using assms by (simp add: last_n_append last_n_last_n)
  then show ?thesis using assms k by (simp add: last_n_def)
next
  assume k: "k = u + length b"
  then have "last_n l (last_n u p @ b) = last_n u p @ b" using assms by (simp add: last_n_def)
  then show ?thesis using assms k by (simp add: last_n_def)
qed

lemma last_n_rotate: "k \<le> length b \<Longrightarrow> last_n k (rotate (r + k) b) = take k (rotate r b)"
proof -
  assume k: "k \<le> length b"
  then have "rotate (r + k) b = drop k (rotate r b) @ take k (rotate r b)"
    by (metis add.commute length_rotate rotate_rotate rotate_split)
  then show ?thesis using k by (simp add: last_n_def)
qed

lemma rotate_mod_depth:
  assumes "length b = d * s" "x mod d = y mod d"
  shows "rotate (x * s) b = rotate (y * s) b"
  using assms rotate_conv_mod [of "x * s" b] rotate_conv_mod [of "y * s" b] by simp

lemma mod_two_depths: "x mod (2 * d) mod d = x mod (d :: nat)"
  by (simp add: mod_mod_cancel)

lemma ring_count_simps:
  fixes w r n :: nat
  assumes "w < 2 * d" "r < 2 * d"
  shows "ring_count d w r + n < 2 * d \<Longrightarrow> ring_count d ((w + n) mod (2 * d)) r = ring_count d w r + n"
    and "n \<le> ring_count d w r \<Longrightarrow> ring_count d w ((r + n) mod (2 * d)) = ring_count d w r - n"
    and "n < 2 * d \<Longrightarrow> ring_count d w ((w + 2 * d - n) mod (2 * d)) = n"
    and "ring_count d w r < 2 * d" and "(r + ring_count d w r) mod (2 * d) = w"
  using assms mod_wrap [of "w + 2 * d - r" "2 * d"] mod_wrap [of "w + n" "2 * d"] mod_wrap [of "r + n" "2 * d"]
    mod_wrap [of "w + 2 * d - n" "2 * d"]
  by (auto simp: ring_count_def mod_wrap split: if_splits)

section \<open>Writing\<close>

definition written :: "tu_fifo \<Rightarrow> u16 \<Rightarrow> u16 \<Rightarrow> u8 list \<Rightarrow> tu_fifo" where
  "written f w n b = f\<lparr>ff_buffer := ring_write (ff_buffer f) (unat w mod unat (depth f) * unat (item_size f)) b,
     wr_idx := advance_pointer f w n\<rparr>"

lemma written_result:
  assumes f: "fifo_shape d s f" and w: "unat w < 2 * d" and n: "unat n \<le> d" and b: "length b = unat n * s"
  shows "fifo_shape d s (written f w n b)"
    and "unread (written f w n b) = ring_count d ((unat w + unat n) mod (2 * d)) (unat (rd_idx f))"
    and "past (written f w n b) = drop (length b) (rotate (unat w * s) (ff_buffer f) @ b)"
proof -
  have d: "0 < d" "0 < s" "unat (depth f) = d" "unat (item_size f) = s" "length (ff_buffer f) = d * s"
    using f by (simp_all add: fifo_shape_def)
  have adv: "unat (advance_pointer f w n) = (unat w + unat n) mod (2 * d)"
    using n d by (intro advance_nat [OF f w]) simp
  have le: "length b \<le> length (ff_buffer f)" using b n d by simp
  have p: "unat w mod d * s < length (ff_buffer f)" using d by simp
  show "fifo_shape d s (written f w n b)"
    using f le p adv by (simp add: written_def fifo_shape_def)
  show "unread (written f w n b) = ring_count d ((unat w + unat n) mod (2 * d)) (unat (rd_idx f))"
    by (simp add: unread_def written_def adv d)
  have "past (written f w n b) =
      rotate ((unat w + unat n) mod (2 * d) * s) (ring_write (ff_buffer f) (unat w mod d * s) b)"
    by (simp add: past_def written_def adv d)
  also have "\<dots> = rotate ((unat w mod d + unat n) * s) (ring_write (ff_buffer f) (unat w mod d * s) b)"
    using d le p by (intro rotate_mod_depth [of _ d]) (simp_all add: mod_two_depths mod_add_left_eq)
  also have "\<dots> = rotate (unat w mod d * s + length b) (ring_write (ff_buffer f) (unat w mod d * s) b)"
    by (simp add: b distrib_right)
  also have "\<dots> = drop (length b) (rotate (unat w mod d * s) (ff_buffer f) @ b)"
    by (rule rotate_ring_write [OF p le])
  also have "rotate (unat w mod d * s) (ff_buffer f) = rotate (unat w * s) (ff_buffer f)"
    using d by (intro rotate_mod_depth [of _ d]) simp_all
  finally show "past (written f w n b) = drop (length b) (rotate (unat w * s) (ff_buffer f) @ b)" .
qed

lemma past_length: "fifo_shape d s f \<Longrightarrow> length (past f) = d * s"
  by (simp add: past_def fifo_shape_def)

lemma content_length: "fifo_shape d s f \<Longrightarrow> length (fifo_content f) = min (unread f) d * s"
  by (simp add: fifo_content_def last_n_def past_length) (simp add: fifo_shape_def)

text \<open>Writing behind what is there, and writing the whole buffer anew.\<close>

lemma written_behind:
  assumes f: "fifo_shape d s f" and n: "unat n \<le> d" "unread f + unat n < 2 * d" and b: "length b = unat n * s"
  shows "unread (written f (wr_idx f) n b) = unread f + unat n"
    and "fifo_content (written f (wr_idx f) n b) = last_n (d * s) (fifo_content f @ b)"
proof -
  have d: "unat (wr_idx f) < 2 * d" "unat (rd_idx f) < 2 * d" "unat (depth f) = d" "unat (item_size f) = s"
    using f by (simp_all add: fifo_shape_def)
  note w = written_result [OF f d(1) n(1) b]
  show u: "unread (written f (wr_idx f) n b) = unread f + unat n"
    using ring_count_simps(1) [OF d(1,2)] n(2) w(2) by (simp add: unread_def d)
  let ?k = "min (unread f + unat n) d * s" and ?u = "min (unread f) d * s"
  have "length (past f) = d * s" "length b \<le> d * s" using past_length [OF f] b n(1) by simp_all
  moreover have "?k \<le> d * s" "?k - length b \<le> ?u" "?k \<le> ?u + length b" "?u \<le> d * s"
    using b by (auto simp: min_def simp flip: distrib_right diff_mult_distrib)
  moreover have "?k = d * s \<or> ?k = ?u + length b" using b by (auto simp: min_def distrib_right)
  ultimately have "last_n ?k (drop (length b) (past f @ b)) = last_n (d * s) (last_n ?u (past f) @ b)"
    by (intro last_n_written) simp_all
  moreover have "fifo_content (written f (wr_idx f) n b) = last_n ?k (drop (length b) (past f @ b))"
    using u w(3) by (simp add: fifo_content_def written_def past_def d)
  ultimately show "fifo_content (written f (wr_idx f) n b) = last_n (d * s) (fifo_content f @ b)"
    by (simp add: fifo_content_def d)
qed

lemma written_anew:
  assumes f: "fifo_shape d s f" and n: "unat n = d" and b: "length b = d * s"
  shows "unread (written f (rd_idx f) n b) = d" "fifo_content (written f (rd_idx f) n b) = b"
proof -
  have d: "unat (rd_idx f) < 2 * d" "unat (depth f) = d" "unat (item_size f) = s" "length (ff_buffer f) = d * s" "0 < d"
    using f by (simp_all add: fifo_shape_def)
  have w: "unread (written f (rd_idx f) n b) = ring_count d ((unat (rd_idx f) + d) mod (2 * d)) (unat (rd_idx f))"
    "past (written f (rd_idx f) n b) = b"
    using written_result(2,3) [OF f d(1), of n b] n b d by simp_all
  have "ring_count d (unat (rd_idx f)) (unat (rd_idx f)) = 0" by (simp add: ring_count_def)
  then show u: "unread (written f (rd_idx f) n b) = d"
    using ring_count_simps(1) [OF d(1,1), of d] d w(1) by simp
  show "fifo_content (written f (rd_idx f) n b) = b"
    using u w(2) b by (simp add: fifo_content_def written_def d last_n_def)
qed

lemma relative_pointer:
  assumes "fifo_shape d s f" "unat p < 2 * d"
  shows "get_relative_pointer f p = Inr (word_of_nat (unat p mod d))" "unat (word_of_nat (unat p mod d) :: u16) = unat p mod d"
proof -
  have d: "0 < d" "d \<le> 2 ^ 15" "unat (depth f) = d" using assms(1) by (simp_all add: fifo_shape_def)
  show "get_relative_pointer f p = Inr (word_of_nat (unat p mod d))"
    using ff_mod_nat [of p "depth f"] assms(2) d by (simp add: get_relative_pointer_def)
  have "unat p mod d < d" using d by simp
  then show "unat (word_of_nat (unat p mod d) :: u16) = unat p mod d"
    using d(2) by (simp add: unsigned_of_nat take_bit_nat_eq_self)
qed

lemma locked_shape [simp]: "fifo_shape d s (f\<lparr>mutex_wr := m\<rparr>) = fifo_shape d s f" "fifo_shape d s (f\<lparr>mutex_rd := m\<rparr>) = fifo_shape d s f"
  by (simp_all add: fifo_shape_def)

lemma unlock_same [simp]:
  "fifo_shape d s (unlock_rd f) = fifo_shape d s f" "unread (unlock_rd f) = unread f"
  "fifo_content (unlock_rd f) = fifo_content f" "overwritable (unlock_rd f) = overwritable f"
  by (simp_all add: unlock_rd_def unread_def fifo_content_def past_def)

lemma locked_remaining [simp]: "ff_remaining (f\<lparr>mutex_wr := m\<rparr>) w r = ff_remaining f w r"
  by (simp add: ff_remaining_def ff_count_def)

lemma lock_free:
  assumes "unlocked f"
  shows "lock_wr f = Inr (f\<lparr>mutex_wr := map_option (\<lambda>_. True) (mutex_wr f)\<rparr>)"
    and "lock_rd f = Inr (f\<lparr>mutex_rd := map_option (\<lambda>_. True) (mutex_rd f)\<rparr>)"
    and "map_option (\<lambda>_. False) (mutex_wr f) = mutex_wr f" "map_option (\<lambda>_. False) (mutex_rd f) = mutex_rd f"
  using assms by (auto simp: lock_wr_def lock_rd_def ff_lock_def unlocked_def intro: option.map_ident_strong)

lemma write_tail:
  assumes f: "fifo_shape d s f" and w: "unat w < 2 * d" and n: "unat n \<le> d" "unat n * s \<le> length (app_bytes src)"
    and u: "unlocked f"
  shows "rbind (get_relative_pointer (f\<lparr>mutex_wr := map_option (\<lambda>_. True) (mutex_wr f)\<rparr>) w) (\<lambda>wRel.
      rbind (ff_push_n (f\<lparr>mutex_wr := map_option (\<lambda>_. True) (mutex_wr f)\<rparr>) src n wRel) (\<lambda>f2.
        Inr (n, unlock_wr (f2\<lparr>wr_idx := advance_pointer f2 w n\<rparr>)))) =
    Inr (n, written f w n (take (unat n * s) (app_bytes src)))"
proof -
  let ?f = "f\<lparr>mutex_wr := map_option (\<lambda>_. True) (mutex_wr f)\<rparr>"
  have g: "fifo_shape d s ?f" using f by simp
  have d: "0 < d" "unat (depth f) = d" "unat (item_size f) = s" using f by (simp_all add: fifo_shape_def)
  note r = relative_pointer [OF g w]
  have "unat (word_of_nat (unat w mod d) :: u16) < d" using r(2) d(1) by simp
  from push_n_writes [OF g this n] r
  show ?thesis using lock_free(3) [OF u] d
    by (simp add: written_def unlock_wr_def ff_unlock_def advance_pointer_def option.map_comp o_def)
qed

lemma write_nothing: "fifo_shape d s f \<Longrightarrow> written f (wr_idx f) 0 [] = f"
  by (auto simp: written_def fifo_shape_def advance_pointer_def ring_write_def word_less_nat_alt)

lemma remaining_nat:
  assumes "fifo_shape d s f" "unread f \<le> d"
  shows "unat (ff_remaining f (wr_idx f) (rd_idx f)) = d - unread f"
proof -
  have "unat (ff_count f (wr_idx f) (rd_idx f)) = unread f"
    using count_nat [OF assms(1)] assms(1) by (simp add: fifo_shape_def unread_def)
  then show ?thesis using assms by (simp add: ff_remaining_def u16_minus fifo_shape_def)
qed

lemma write_n_result:
  assumes f: "fifo_shape d s f" "unlocked f" and n: "unat n * s \<le> length (app_bytes src)"
  shows "\<not> overwritable f \<Longrightarrow> unread f \<le> d \<Longrightarrow> \<exists>k. unat k = min (unat n) (d - unread f) \<and>
      ff_write_n f src n = Inr (k, written f (wr_idx f) k (take (unat k * s) (app_bytes src)))"
    and "overwritable f \<Longrightarrow> unat n < d \<Longrightarrow>
      ff_write_n f src n = Inr (n, written f (wr_idx f) n (take (unat n * s) (app_bytes src)))"
    and "overwritable f \<Longrightarrow> d \<le> unat n \<Longrightarrow> src = Memory m \<Longrightarrow>
      ff_write_n f src n = Inr (depth f, written f (rd_idx f) (depth f) (last_n (d * s) (take (unat n * s) m)))"
proof -
  have d: "unat (wr_idx f) < 2 * d" "unat (rd_idx f) < 2 * d" "unat (depth f) = d" "unat (item_size f) = s" "0 < d"
    using f by (simp_all add: fifo_shape_def)
  note l = lock_free(1) [OF f(2)]
  have le: "min n (ff_remaining f (wr_idx f) (rd_idx f)) = n \<or> min n (ff_remaining f (wr_idx f) (rd_idx f)) = ff_remaining f (wr_idx f) (rd_idx f)"
    by (simp add: min_def)
  show "\<exists>k. unat k = min (unat n) (d - unread f) \<and>
      ff_write_n f src n = Inr (k, written f (wr_idx f) k (take (unat k * s) (app_bytes src)))"
    if "\<not> overwritable f" "unread f \<le> d"
  proof (cases "n = 0")
    case True
    then show ?thesis using write_nothing [OF f(1)] by (simp add: ff_write_n_def)
  next
    case False
    let ?k = "min n (ff_remaining f (wr_idx f) (rd_idx f))"
    have k: "unat ?k = min (unat n) (d - unread f)"
      using remaining_nat [OF f(1) that(2)] by (auto simp: min_def word_le_nat_alt)
    then have "unat ?k * s \<le> unat n * s" by simp
    then have "unat ?k * s \<le> length (app_bytes src)" "unat ?k \<le> d" using n k by (linarith, simp)
    from write_tail [OF f(1) d(1) this(2,1) f(2)] show ?thesis
      using False that l k by (intro exI [of _ ?k]) (simp add: ff_write_n_def Let_def)
  qed
  show "ff_write_n f src n = Inr (n, written f (wr_idx f) n (take (unat n * s) (app_bytes src)))"
    if "overwritable f" "unat n < d"
    using write_tail [OF f(1) d(1) _ n f(2)] that l d write_nothing [OF f(1)]
    by (cases "n = 0") (simp_all add: ff_write_n_def Let_def word_le_nat_alt)
  show "ff_write_n f src n = Inr (depth f, written f (rd_idx f) (depth f) (last_n (d * s) (take (unat n * s) m)))"
    if o: "overwritable f" "d \<le> unat n" "src = Memory m"
  proof -
    let ?k = "(unat n - d) * s"
    have nk: "unat n * s = ?k + d * s" using o(2) by (simp flip: distrib_right)
    have u: "unat (n - depth f) = unat n - d" using o(2) d by (simp add: u16_minus)
    have "skip_source ?k src = Inr (Memory (drop ?k m))" using n nk o(3) by (simp add: skip_source_def)
    moreover have "last_n (d * s) (take (unat n * s) m) = take (d * s) (drop ?k m)"
      using n o(3) by (simp add: last_n_def nk drop_take)
    moreover have "d * s \<le> length (app_bytes (Memory (drop ?k m)))" using n nk o(3) by simp
    moreover have "n \<noteq> 0" using o(2) d(5) by auto
    ultimately show ?thesis using write_tail [OF f(1) d(2), of "depth f" "Memory (drop ?k m)"] o l d u f(2)
      by (simp add: ff_write_n_def Let_def word_le_nat_alt)
  qed
qed

section \<open>Reading\<close>

text \<open>The FIFO with the read index where a reader would have it that missed what was overwritten.\<close>

definition caught_up :: "tu_fifo \<Rightarrow> tu_fifo" where
  "caught_up f = (if unread f > unat (depth f) then ff_correct_read_pointer f (wr_idx f) else f)"

lemma caught_up_shape:
  assumes f: "fifo_shape d s f"
  shows "fifo_shape d s (caught_up f)" "unread (caught_up f) = min (unread f) d"
    "fifo_content (caught_up f) = fifo_content f" "unlocked (caught_up f) = unlocked f"
    "overwritable (caught_up f) = overwritable f"
proof -
  have d: "unat (wr_idx f) < 2 * d" "unat (depth f) = d" "0 < d" using f by (simp_all add: fifo_shape_def)
  have b: "unat (backward_pointer f (wr_idx f) (depth f)) = (unat (wr_idx f) + 2 * d - d) mod (2 * d)"
    using backward_nat [OF f d(1), of "depth f"] d by simp
  then show "fifo_shape d s (caught_up f)" using f by (auto simp: caught_up_def ff_correct_read_pointer_def fifo_shape_def)
  show u: "unread (caught_up f) = min (unread f) d"
    using ring_count_simps(3) [OF d(1,1), of d] b d
    by (simp add: caught_up_def ff_correct_read_pointer_def unread_def)
  show "fifo_content (caught_up f) = fifo_content f"
    using u d by (simp add: fifo_content_def past_def caught_up_def ff_correct_read_pointer_def)
qed (simp_all add: caught_up_def ff_correct_read_pointer_def unlocked_def)

lemma content_from:
  assumes f: "fifo_shape d s f" and u: "unread f \<le> d"
  shows "fifo_content f = take (unread f * s) (rotate (unat (rd_idx f) mod d * s) (ff_buffer f))"
proof -
  have d: "unat (wr_idx f) < 2 * d" "unat (rd_idx f) < 2 * d" "unat (depth f) = d" "unat (item_size f) = s"
    "length (ff_buffer f) = d * s" using f by (simp_all add: fifo_shape_def)
  have "(unat (rd_idx f) + unread f) mod (2 * d) = unat (wr_idx f)"
    using ring_count_simps(5) [OF d(1,2)] by (simp add: unread_def d)
  then have "unat (wr_idx f) mod d = (unat (rd_idx f) mod d + unread f) mod d"
    by (metis mod_add_left_eq mod_two_depths)
  then have "past f = rotate ((unat (rd_idx f) mod d + unread f) * s) (ff_buffer f)"
    unfolding past_def d(4) by (intro rotate_mod_depth [OF d(5)])
  then have "past f = rotate (unat (rd_idx f) mod d * s + unread f * s) (ff_buffer f)" by (simp add: distrib_right)
  then show ?thesis using u d by (simp add: fifo_content_def last_n_rotate min_absorb1)
qed

lemma min_word: "(if c < n then c else n) = min n (c :: u16)"
  by (auto simp: min_def)

lemma peek_n_result:
  assumes f: "fifo_shape d s f"
  shows "\<exists>k. unat k = min (unat n) (min (unread f) d) \<and>
    ff_peek_n f n (wr_idx f) (rd_idx f) mode =
      Inr (k, if unread f = 0 then None else Some (to_app mode (take (unat k * s) (fifo_content f))), caught_up f)"
proof -
  let ?f = "caught_up f"
  have d: "unat (depth f) = d" "0 < d" "unat (wr_idx f) < 2 * d" "unat (rd_idx f) < 2 * d"
    using f by (simp_all add: fifo_shape_def)
  note g = caught_up_shape [OF f]
  have c: "unat (ff_count f (wr_idx f) (rd_idx f)) = unread f"
    using count_nat [OF f d(3,4)] by (simp add: unread_def d)
  then have o: "ff_count f (wr_idx f) (rd_idx f) > depth f \<longleftrightarrow> unread f > d" by (simp add: word_less_nat_alt d)
  let ?c = "if unread f > d then depth f else ff_count f (wr_idx f) (rd_idx f)"
  have u: "unat ?c = min (unread f) d" using c d by simp
  have "?c = 0 \<longleftrightarrow> unat ?c = 0" by (simp only: unat_eq_zero)
  then have z: "?c = 0 \<longleftrightarrow> unread f = 0" unfolding u using d(2) by (simp add: min_def)
  have e: "ff_peek_n f n (wr_idx f) (rd_idx f) mode =
      (if ?c = 0 then Inr (0, None, ?f)
       else rbind (get_relative_pointer ?f (rd_idx ?f)) (\<lambda>rRel.
            rbind (ff_pull_n ?f (min n ?c) rRel mode) (\<lambda>b. Inr (min n ?c, Some b, ?f))))"
    using o d(1) by (cases "unread f > d")
      (simp_all add: ff_peek_n_def caught_up_def Let_def ff_correct_read_pointer_def min_word)
  have k: "unat (min n ?c) = min (unat n) (min (unread f) d)"
    using u by (auto simp: min_def word_le_nat_alt)
  show ?thesis
  proof (cases "unread f = 0")
    case True
    then show ?thesis using e z by (intro exI [of _ 0]) simp
  next
    case False
    have r: "unat (rd_idx ?f) < 2 * d" using g(1) by (simp add: fifo_shape_def)
    note p = relative_pointer [OF g(1) r]
    have "unat (word_of_nat (unat (rd_idx ?f) mod d) :: u16) < d" using p(2) d(2) by simp
    moreover have "unat (min n ?c) \<le> d" using k by simp
    ultimately have "ff_pull_n ?f (min n ?c) (word_of_nat (unat (rd_idx ?f) mod d)) mode =
        Inr (to_app mode (take (unat (min n ?c) * s) (rotate (unat (rd_idx ?f) mod d * s) (ff_buffer ?f))))"
      using pull_n_reads [OF g(1), of "word_of_nat (unat (rd_idx ?f) mod d)" "min n ?c" mode] p(2) by simp
    moreover have "take (unat (min n ?c) * s) (rotate (unat (rd_idx ?f) mod d * s) (ff_buffer ?f)) =
        take (unat (min n ?c) * s) (fifo_content f)"
    proof -
      have "min (unat (min n ?c) * s) (min (unread f) d * s) = unat (min n ?c) * s"
        unfolding k by (intro min_absorb1 mult_le_mono1 min.cobounded2)
      then show ?thesis using content_from [OF g(1)] g(2,3) by simp
    qed
    ultimately show ?thesis using e z p(1) False k by (intro exI [of _ "min n ?c"]) simp
  qed
qed

lemma drop_last_n: "m \<le> k \<Longrightarrow> k \<le> length xs \<Longrightarrow> drop m (last_n k xs) = last_n (k - m) xs"
  by (simp add: last_n_def add.commute)

text \<open>After \<open>k\<close> items were read.\<close>

lemma read_on:
  assumes f: "fifo_shape d s f" and u: "unread f \<le> d" "unat k \<le> unread f"
  shows "fifo_shape d s (f\<lparr>rd_idx := advance_pointer f (rd_idx f) k\<rparr>)"
    and "unread (f\<lparr>rd_idx := advance_pointer f (rd_idx f) k\<rparr>) = unread f - unat k"
    and "fifo_content (f\<lparr>rd_idx := advance_pointer f (rd_idx f) k\<rparr>) = drop (unat k * s) (fifo_content f)"
proof -
  let ?f = "f\<lparr>rd_idx := advance_pointer f (rd_idx f) k\<rparr>"
  have d: "unat (wr_idx f) < 2 * d" "unat (rd_idx f) < 2 * d" "unat (depth f) = d" "unat (item_size f) = s" "0 < d"
    using f by (simp_all add: fifo_shape_def)
  have a: "unat (advance_pointer f (rd_idx f) k) = (unat (rd_idx f) + unat k) mod (2 * d)"
    using u d by (intro advance_nat [OF f d(2)]) linarith
  then show "fifo_shape d s ?f" using f by (simp add: fifo_shape_def)
  show v: "unread ?f = unread f - unat k"
    using ring_count_simps(2) [OF d(1,2)] u(2) a by (simp add: unread_def d)
  have "unat k * s \<le> unread f * s" "unread f * s \<le> length (past f)" using u past_length [OF f] by simp_all
  then have "drop (unat k * s) (last_n (unread f * s) (past f)) = last_n ((unread f - unat k) * s) (past f)"
    by (simp add: drop_last_n diff_mult_distrib)
  then show "fifo_content ?f = drop (unat k * s) (fifo_content f)"
    using v u d by (simp add: fifo_content_def past_def min_absorb1)
qed

lemma read_n_result:
  assumes f: "fifo_shape d s f" "unlocked f"
  shows "\<exists>k g. unat k = min (unat n) (min (unread f) d) \<and>
    ff_read_n f n mode =
      Inr (k, if unread f = 0 then None else Some (to_app mode (take (unat k * s) (fifo_content f))), g) \<and>
    fifo_shape d s g \<and> unlocked g \<and> overwritable g = overwritable f \<and> unread g = min (unread f) d - unat k \<and>
    fifo_content g = drop (unat k * s) (fifo_content f)"
proof -
  define f1 where "f1 = f\<lparr>mutex_rd := map_option (\<lambda>_. True) (mutex_rd f)\<rparr>"
  have f1: "fifo_shape d s f1" "unread f1 = unread f" "fifo_content f1 = fifo_content f"
    using f(1) by (simp_all add: f1_def unread_def fifo_content_def past_def)
  obtain k where k: "unat k = min (unat n) (min (unread f1) d)"
    "ff_peek_n f1 n (wr_idx f1) (rd_idx f1) mode =
      Inr (k, if unread f1 = 0 then None else Some (to_app mode (take (unat k * s) (fifo_content f1))), caught_up f1)"
    using peek_n_result [OF f1(1)] by blast
  let ?h = "(caught_up f1)\<lparr>rd_idx := advance_pointer (caught_up f1) (rd_idx (caught_up f1)) k\<rparr>"
  note c = caught_up_shape [OF f1(1)]
  have le: "unat k \<le> unread (caught_up f1)" unfolding c(2) k(1) by (rule min.cobounded2)
  have h: "fifo_shape d s ?h" "unread ?h = min (unread f) d - unat k" "fifo_content ?h = drop (unat k * s) (fifo_content f)"
    using read_on [OF c(1) _ le] c f1 by simp_all
  have m: "mutex_wr ?h = mutex_wr f" "mutex_rd ?h = map_option (\<lambda>_. True) (mutex_rd f)" "overwritable ?h = overwritable f"
    by (simp_all add: caught_up_def ff_correct_read_pointer_def f1_def)
  have "ff_read_n f n mode = Inr (k, if unread f = 0 then None else Some (to_app mode (take (unat k * s) (fifo_content f))), unlock_rd ?h)"
    using k(2) lock_free(2) [OF f(2)] f1 by (simp add: ff_read_n_def flip: f1_def)
  moreover have "fifo_shape d s (unlock_rd ?h)" "unread (unlock_rd ?h) = min (unread f) d - unat k"
    "fifo_content (unlock_rd ?h) = drop (unat k * s) (fifo_content f)" "overwritable (unlock_rd ?h) = overwritable f"
    using h m(3) by simp_all
  moreover have "unlocked (unlock_rd ?h)" using f(2) m by (auto simp: unlocked_def unlock_rd_def ff_unlock_def)
  ultimately show ?thesis using k(1) unfolding f1(2) by blast
qed

section \<open>One item\<close>

lemma write_result:
  assumes f: "fifo_shape d s f" "unlocked f" and b: "s \<le> length b" and r: "overwritable f \<or> unread f < d"
  shows "tu_fifo_write f b = Inr (True, written f (wr_idx f) 1 (take s b))"
proof -
  let ?f = "f\<lparr>mutex_wr := map_option (\<lambda>_. True) (mutex_wr f)\<rparr>"
  have d: "unat (wr_idx f) < 2 * d" "unat (rd_idx f) < 2 * d" "unat (depth f) = d" "unat (item_size f) = s"
    "length (ff_buffer f) = d * s" "0 < d" using f by (simp_all add: fifo_shape_def)
  have g: "fifo_shape d s ?f" using f(1) by simp
  note q = relative_pointer [OF g d(1)]
  have "unat (ff_count f (wr_idx f) (rd_idx f)) = unread f" using count_nat [OF f(1) d(1,2)] by (simp add: unread_def d)
  then have full: "\<not> (ff_full ?f (wr_idx f) (rd_idx f) \<and> \<not> overwritable f)"
    using r d(3) by (auto simp: ff_full_def ff_count_def word_unat_eq_iff split: if_splits)
  have "(unat (wr_idx f) mod d + 1) * s \<le> d * s" using d(6) by (intro mult_le_mono1) (simp add: Suc_le_eq)
  then have fit: "unat (wr_idx f) mod d * s + s \<le> length (ff_buffer f)" by (simp add: d)
  then have "write_bytes (ff_buffer f) (unat (wr_idx f) mod d * s) (take s b) =
      Inr (ring_write (ff_buffer f) (unat (wr_idx f) mod d * s) (take s b))"
    using b by (simp add: write_bytes_ok ring_write_def Let_def min_absorb2)
  then have "ff_push ?f b (word_of_nat (unat (wr_idx f) mod d)) =
      Inr (?f\<lparr>ff_buffer := ring_write (ff_buffer f) (unat (wr_idx f) mod d * s) (take s b)\<rparr>)"
    using b q(2) d by (simp add: ff_push_def read_bytes_ok)
  then show ?thesis using full q(1) lock_free(1,3) [OF f(2)] d
    by (simp add: tu_fifo_write_def Let_def written_def unlock_wr_def ff_unlock_def advance_pointer_def option.map_comp o_def)
qed

lemma read_result:
  assumes f: "fifo_shape d s f" "unlocked f" and u: "unread f \<le> d"
  shows "\<exists>g. tu_fifo_read f = Inr (if unread f = 0 then None else Some (take s (fifo_content f)), g) \<and>
    fifo_shape d s g \<and> unlocked g \<and> overwritable g = overwritable f \<and> unread g = unread f - 1 \<and>
    fifo_content g = drop (min 1 (unread f) * s) (fifo_content f)"
proof -
  let ?f = "f\<lparr>mutex_rd := map_option (\<lambda>_. True) (mutex_rd f)\<rparr>"
  have d: "unat (wr_idx f) < 2 * d" "unat (rd_idx f) < 2 * d" "unat (depth f) = d" "unat (item_size f) = s"
    "length (ff_buffer f) = d * s" "0 < d" using f by (simp_all add: fifo_shape_def)
  have g: "fifo_shape d s ?f" using f(1) by simp
  note q = relative_pointer [OF g d(2)]
  have c: "unat (ff_count f (wr_idx f) (rd_idx f)) = unread f" using count_nat [OF f(1) d(1,2)] by (simp add: unread_def d)
  then have o: "\<not> ff_count ?f (wr_idx f) (rd_idx f) > depth f"
    and z: "ff_count ?f (wr_idx f) (rd_idx f) = 0 \<longleftrightarrow> unread f = 0"
    using u d(3) by (auto simp: ff_count_def word_less_nat_alt word_unat_eq_iff split: if_splits)
  have cont: "fifo_content f = take (unread f * s) (rotate (unat (rd_idx f) mod d * s) (ff_buffer f))"
    by (rule content_from [OF f(1) u])
  have "(unat (rd_idx f) mod d + 1) * s \<le> d * s" using d(6) by (intro mult_le_mono1) (simp add: Suc_le_eq)
  then have fit: "unat (rd_idx f) mod d * s + s \<le> length (ff_buffer f)" by (simp add: d)
  have "ff_pull ?f (word_of_nat (unat (rd_idx f) mod d)) = Inr (take s (drop (unat (rd_idx f) mod d * s) (ff_buffer f)))"
    using fit q(2) d by (simp add: ff_pull_def read_bytes_ok)
  also have "take s (drop (unat (rd_idx f) mod d * s) (ff_buffer f)) = take s (fifo_content f)" if "unread f \<noteq> 0"
    using that fit cont by (simp add: rotate_split min_absorb1)
  finally have pull: "ff_pull ?f (word_of_nat (unat (rd_idx f) mod d)) = Inr (take s (fifo_content f))" if "unread f \<noteq> 0"
    using that by simp
  let ?k = "if unread f = 0 then 0 else 1 :: u16"
  let ?h = "?f\<lparr>rd_idx := advance_pointer ?f (rd_idx ?f) ?k\<rparr>"
  have k: "unat ?k = min 1 (unread f)" by simp
  have e: "tu_fifo_read f = Inr (if unread f = 0 then None else Some (take s (fifo_content f)), unlock_rd ?h)"
    using o z q(1) pull lock_free(2) [OF f(2)] by (simp add: tu_fifo_read_def ff_peek_def Let_def)
  have uf: "unread ?f = unread f" "fifo_content ?f = fifo_content f" by (simp_all add: unread_def fifo_content_def past_def)
  note h = read_on [OF g, unfolded uf, OF u, of ?k, unfolded k]
  have "unlocked (unlock_rd ?h)" using f(2) by (auto simp: unlocked_def unlock_rd_def ff_unlock_def)
  moreover have "fifo_shape d s (unlock_rd ?h)" "unread (unlock_rd ?h) = unread f - min 1 (unread f)"
    "fifo_content (unlock_rd ?h) = drop (min 1 (unread f) * s) (fifo_content f)" "overwritable (unlock_rd ?h) = overwritable f"
    using h by (simp_all only: unlock_same) simp
  ultimately show ?thesis using e by (intro exI [of _ "unlock_rd ?h"]) auto
qed

section \<open>The FIFO is a bounded stream\<close>

datatype fifo_op = Write_bytes "u8 list" u16 | Write_words "u32 list" u16 | Read_bytes u16 | Read_words u16
  | Write_item "u8 list" | Read_item | Clear | Set_overwritable bool

text \<open>The number of items an operation moves and the bytes it returns.\<close>

definition items_got :: "tu_fifo \<Rightarrow> u16 \<times> app_buf option \<times> tu_fifo \<Rightarrow> fault + (nat \<times> u8 list \<times> tu_fifo)" where
  "items_got f = (\<lambda>(k, b, g).
     Inr (unat k, case b of None \<Rightarrow> [] | Some x \<Rightarrow> take (unat k * unat (item_size f)) (app_bytes x), g))"

fun run_fifo_op :: "fifo_op \<Rightarrow> tu_fifo \<Rightarrow> fault + (nat \<times> u8 list \<times> tu_fifo)" where
  "run_fifo_op (Write_bytes b n) f = rbind (tu_fifo_write_n f b n) (\<lambda>(k, g). Inr (unat k, [], g))"
| "run_fifo_op (Write_words ws n) f =
     rbind (tu_fifo_write_n_const_addr_full_words f ws n) (\<lambda>(k, g). Inr (unat k, [], g))"
| "run_fifo_op (Read_bytes n) f = rbind (tu_fifo_read_n f n) (items_got f)"
| "run_fifo_op (Read_words n) f = rbind (tu_fifo_read_n_const_addr_full_words f n) (items_got f)"
| "run_fifo_op (Write_item b) f = rbind (tu_fifo_write f b) (\<lambda>(ok, g). Inr (if ok then 1 else 0, [], g))"
| "run_fifo_op Read_item f =
     rbind (tu_fifo_read f) (\<lambda>(r, g). Inr (case r of None \<Rightarrow> (0, [], g) | Some b \<Rightarrow> (1, b, g)))"
| "run_fifo_op Clear f = rbind (tu_fifo_clear f) (\<lambda>(_, g). Inr (0, [], g))"
| "run_fifo_op (Set_overwritable o1) f = rbind (tu_fifo_set_overwritable f o1) (\<lambda>(_, g). Inr (0, [], g))"

definition fifo_step :: "fifo_op \<Rightarrow> fault + tu_fifo \<Rightarrow> (fault + tu_fifo) \<times> (fault + (nat \<times> u8 list))" where
  "fifo_step x m = (case rbind m (run_fifo_op x) of Inl e \<Rightarrow> (Inl e, Inl e) | Inr (k, b, f) \<Rightarrow> (Inr f, Inr (k, b)))"

text \<open>
  The stream: whether it overwrites, how many items were written and not read, and the bytes that
  can be read, at most \<open>d * s\<close>.
\<close>

type_synonym stream = "bool \<times> nat \<times> u8 list"

fun stream_put :: "nat \<Rightarrow> nat \<Rightarrow> u8 list \<Rightarrow> nat \<Rightarrow> stream \<Rightarrow> stream \<times> (fault + (nat \<times> u8 list))" where
  "stream_put d s b n (over, u, c) =
     (if over then ((over, if n \<ge> d then d else u + n, last_n (d * s) (c @ take (n * s) b)), Inr (min n d, []))
      else (let k = min n (d - u) in ((over, u + k, c @ take (k * s) b), Inr (k, []))))"

fun stream_get :: "nat \<Rightarrow> nat \<Rightarrow> nat \<Rightarrow> stream \<Rightarrow> stream \<times> (fault + (nat \<times> u8 list))" where
  "stream_get d s n (over, u, c) =
     (let k = min n (min u d) in ((over, min u d - k, drop (k * s) c), Inr (k, take (k * s) c)))"

fun stream_step :: "nat \<Rightarrow> nat \<Rightarrow> fifo_op \<Rightarrow> stream \<Rightarrow> stream \<times> (fault + (nat \<times> u8 list))" where
  "stream_step d s (Write_bytes b n) a = stream_put d s b (unat n) a"
| "stream_step d s (Write_words ws n) a = stream_put d s (words_bytes ws) (unat n) a"
| "stream_step d s (Read_bytes n) a = stream_get d s (unat n) a"
| "stream_step d s (Read_words n) a = stream_get d s (unat n) a"
| "stream_step d s (Write_item b) a = stream_put d s b 1 a"
| "stream_step d s Read_item a = stream_get d s 1 a"
| "stream_step d s Clear (over, u, c) = ((over, 0, []), Inr (0, []))"
| "stream_step d s (Set_overwritable o1) (over, u, c) = ((o1, u, c), Inr (0, []))"

text \<open>
  What the operations ask for: as many bytes as are written, no twice the depth unread, and while
  there is more unread than fits neither a single read nor a change to not overwriting.
\<close>

fun stream_allowed :: "nat \<Rightarrow> nat \<Rightarrow> fifo_op \<Rightarrow> stream \<Rightarrow> bool" where
  "stream_allowed d s (Write_bytes b n) (over, u, c) \<longleftrightarrow>
     unat n * s \<le> length b \<and> (over \<longrightarrow> d \<le> unat n \<or> u + unat n < 2 * d)"
| "stream_allowed d s (Write_words ws n) (over, u, c) \<longleftrightarrow>
     unat n * s \<le> 4 * length ws \<and> (over \<longrightarrow> unat n < d \<and> u + unat n < 2 * d)"
| "stream_allowed d s (Write_item b) (over, u, c) \<longleftrightarrow> s \<le> length b \<and> (if over then u + 1 < 2 * d else u < d)"
| "stream_allowed d s Read_item (over, u, c) \<longleftrightarrow> u \<le> d"
| "stream_allowed d s (Set_overwritable o1) (over, u, c) \<longleftrightarrow> o1 \<or> u \<le> d"
| "stream_allowed d s _ (over, u, c) \<longleftrightarrow> True"

definition streams :: "nat \<Rightarrow> nat \<Rightarrow> tu_fifo \<Rightarrow> stream \<Rightarrow> bool" where
  "streams d s f a \<longleftrightarrow> fifo_shape d s f \<and> unlocked f \<and> a = (overwritable f, unread f, fifo_content f) \<and>
     (overwritable f \<or> unread f \<le> d)"

lemma written_same [simp]:
  "unlocked (written f w n b) = unlocked f" "overwritable (written f w n b) = overwritable f"
  by (simp_all add: written_def unlocked_def)

lemma written_streams:
  assumes f: "fifo_shape d s f" "unlocked f" and n: "unat n \<le> d" "unread f + unat n < 2 * d"
    and b: "length b = unat n * s" and o: "overwritable f \<or> unread f + unat n \<le> d"
  shows "streams d s (written f (wr_idx f) n b)
    (overwritable f, unread f + unat n, last_n (d * s) (fifo_content f @ b))"
proof -
  have "unat (wr_idx f) < 2 * d" using f by (simp add: fifo_shape_def)
  with written_behind [OF f(1) n b] written_result(1) [OF f(1) _ n(1) b] show ?thesis
    using f o by (simp add: streams_def)
qed

lemma content_fits: "fifo_shape d s f \<Longrightarrow> unread f + k \<le> d \<Longrightarrow> length b = k * s \<Longrightarrow> last_n (d * s) (fifo_content f @ b) = fifo_content f @ b"
proof -
  assume a: "fifo_shape d s f" "unread f + k \<le> d" "length b = k * s"
  then have "(unread f + k) * s \<le> d * s" by (intro mult_le_mono1)
  then have "length (fifo_content f @ b) \<le> d * s" using a content_length [OF a(1)] by (simp add: min_absorb1 distrib_right)
  then show ?thesis by (simp add: last_n_def)
qed

lemma put_streams:
  assumes f: "streams d s f a" and b: "unat n * s \<le> length (app_bytes src)"
    and o: "overwritable f \<longrightarrow> (d \<le> unat n \<and> src = Memory m) \<or> (unat n < d \<and> unread f + unat n < 2 * d)"
  shows "\<exists>k g. ff_write_n f src n = Inr (k, g) \<and>
    stream_put d s (app_bytes src) (unat n) a = (fst (stream_put d s (app_bytes src) (unat n) a), Inr (unat k, [])) \<and>
    streams d s g (fst (stream_put d s (app_bytes src) (unat n) a))"
proof -
  have sh: "fifo_shape d s f" "unlocked f" and a: "a = (overwritable f, unread f, fifo_content f)"
    and u: "overwritable f \<or> unread f \<le> d" using f by (simp_all add: streams_def)
  have d: "0 < d" "unat (depth f) = d" using sh by (simp_all add: fifo_shape_def)
  consider "\<not> overwritable f" | "overwritable f" "unat n < d" "unread f + unat n < 2 * d"
    | "overwritable f" "d \<le> unat n" "src = Memory m" using o by blast
  then show ?thesis
  proof cases
    case 1
    then obtain k where k: "unat k = min (unat n) (d - unread f)"
      "ff_write_n f src n = Inr (k, written f (wr_idx f) k (take (unat k * s) (app_bytes src)))"
      using write_n_result(1) [OF sh b] u by blast
    have "unat k * s \<le> unat n * s" using k(1) by simp
    then have "unat k * s \<le> length (app_bytes src)" using b by linarith
    then have l: "length (take (unat k * s) (app_bytes src)) = unat k * s" by (simp only: length_take min_absorb2)
    have le: "unread f + unat k \<le> d" using k(1) u 1 by simp
    then have "streams d s (written f (wr_idx f) k (take (unat k * s) (app_bytes src)))
        (overwritable f, unread f + unat k, last_n (d * s) (fifo_content f @ take (unat k * s) (app_bytes src)))"
      using l d(1) by (intro written_streams [OF sh]) simp_all
    then show ?thesis using 1 k le l content_fits [OF sh(1) le l] by (simp add: a Let_def)
  next
    case 2
    have l: "length (take (unat n * s) (app_bytes src)) = unat n * s" using b by simp
    have "streams d s (written f (wr_idx f) n (take (unat n * s) (app_bytes src)))
        (overwritable f, unread f + unat n, last_n (d * s) (fifo_content f @ take (unat n * s) (app_bytes src)))"
      using l 2 by (intro written_streams [OF sh]) simp_all
    then show ?thesis using 2 write_n_result(2) [OF sh b] by (simp add: a)
  next
    case 3
    let ?b = "last_n (d * s) (take (unat n * s) m)"
    have "d * s \<le> unat n * s" "unat n * s \<le> length m" using 3 b by simp_all
    then have l: "length ?b = d * s" by (simp add: last_n_def)
    have e: "last_n (d * s) (fifo_content f @ take (unat n * s) m) = ?b"
      using \<open>d * s \<le> unat n * s\<close> \<open>unat n * s \<le> length m\<close> by (intro last_n_long) simp
    have r: "unat (rd_idx f) < 2 * d" using sh(1) by (simp add: fifo_shape_def)
    have "streams d s (written f (rd_idx f) (depth f) ?b) (overwritable f, d, ?b)"
      using written_anew [OF sh(1) d(2) l] written_result(1) [OF sh(1) r, of "depth f" ?b] l d sh 3(1)
      by (simp add: streams_def)
    then show ?thesis using 3 write_n_result(3) [OF sh b] e d by (simp add: a min_absorb2)
  qed
qed

lemma get_streams:
  assumes f: "streams d s f a"
  shows "\<exists>k b g. ff_read_n f n mode = Inr (k, b, g) \<and>
    (case b of None \<Rightarrow> [] | Some x \<Rightarrow> take (unat k * s) (app_bytes x)) = take (unat k * s) (fifo_content f) \<and>
    stream_get d s (unat n) a = (fst (stream_get d s (unat n) a), Inr (unat k, take (unat k * s) (fifo_content f))) \<and>
    streams d s g (fst (stream_get d s (unat n) a))"
proof -
  have sh: "fifo_shape d s f" "unlocked f" and a: "a = (overwritable f, unread f, fifo_content f)"
    using f by (simp_all add: streams_def)
  obtain k g where k: "unat k = min (unat n) (min (unread f) d)"
    "ff_read_n f n mode = Inr (k, if unread f = 0 then None else Some (to_app mode (take (unat k * s) (fifo_content f))), g)"
    "fifo_shape d s g" "unlocked g" "overwritable g = overwritable f" "unread g = min (unread f) d - unat k"
    "fifo_content g = drop (unat k * s) (fifo_content f)"
    using read_n_result [OF sh, of n mode] by blast
  have "unat k \<le> min (unread f) d" unfolding k(1) by (rule min.cobounded2)
  then have "unat k * s \<le> length (fifo_content f)" unfolding content_length [OF sh(1)] by (rule mult_le_mono1)
  then have "take (unat k * s) (app_bytes (to_app mode (take (unat k * s) (fifo_content f)))) = take (unat k * s) (fifo_content f)"
    using app_bytes_to_app [of "take (unat k * s) (fifo_content f)" mode] by (simp add: min_absorb2)
  then have b: "(case if unread f = 0 then None else Some (to_app mode (take (unat k * s) (fifo_content f))) of
      None \<Rightarrow> [] | Some x \<Rightarrow> take (unat k * s) (app_bytes x)) = take (unat k * s) (fifo_content f)"
    using k(1) by simp
  have g: "stream_get d s (unat n) a = ((overwritable f, min (unread f) d - unat k, drop (unat k * s) (fifo_content f)),
      Inr (unat k, take (unat k * s) (fifo_content f)))" by (simp add: a Let_def k(1))
  have "streams d s g (fst (stream_get d s (unat n) a))" using k by (auto simp: g streams_def)
  then show ?thesis using k(2) b g by auto
qed

lemma index_space_shape:
  assumes "0 < d" "d \<le> 2 ^ 15" "0 < s" "d * s < 2 ^ 16" "unat (depth f) = d" "unat (item_size f) = s"
    "length (ff_buffer f) = d * s"
  shows "fifo_shape d s (index_space (depth f) f)" "unread (index_space (depth f) f) = 0"
    "fifo_content (index_space (depth f) f) = []"
proof -
  have "unat (2 * depth f) = (if d = 2 ^ 15 then 0 else 2 * d)" using assms(2,5) by (auto simp: unat_word_ariths)
  then have m: "unat (2 * depth f - 1) = 2 * d - 1" using assms(1,2) by (auto simp: u16_minus)
  have "unat (0xFFFF - x :: u16) = 65535 - unat x" for x using u16_nat [of x] by (simp add: u16_minus)
  from this [of "2 * depth f - 1"] m have "unat (0xFFFF - (2 * depth f - 1)) = 2 ^ 16 - 2 * d"
    using assms(1) by (simp only:) simp
  then show "fifo_shape d s (index_space (depth f) f)" using m assms by (simp add: index_space_def fifo_shape_def)
  show u: "unread (index_space (depth f) f) = 0" by (simp add: unread_def index_space_def ring_count_def)
  show "fifo_content (index_space (depth f) f) = []" by (simp add: fifo_content_def u last_n_def)
qed

lemma change_both:
  assumes "unlocked f"
  shows "tu_fifo_clear f = Inr (True, index_space (depth f) f)"
    and "tu_fifo_set_overwritable f o1 = Inr (True, f\<lparr>overwritable := o1\<rparr>)"
  using assms by (auto simp: unlocked_def tu_fifo_clear_def tu_fifo_set_overwritable_def lock_wr_def lock_rd_def ff_lock_def
      unlock_wr_def unlock_rd_def ff_unlock_def index_space_def option.map_comp o_def intro!: option.map_ident_strong tu_fifo.equality)

lemma fifo_step_simulates:
  assumes f: "streams d s f a" and x: "stream_allowed d s x a"
  shows "\<exists>g. fifo_step x (Inr f) = (Inr g, snd (stream_step d s x a)) \<and> streams d s g (fst (stream_step d s x a))"
proof -
  have sh: "fifo_shape d s f" "unlocked f" and a: "a = (overwritable f, unread f, fifo_content f)"
    and u: "overwritable f \<or> unread f \<le> d" using f by (simp_all add: streams_def)
  have d: "0 < d" "d \<le> 2 ^ 15" "0 < s" "d * s < 2 ^ 16" "unat (depth f) = d" "unat (item_size f) = s"
    "length (ff_buffer f) = d * s" using sh by (simp_all add: fifo_shape_def)
  show ?thesis
  proof (cases x)
    case (Write_bytes b n)
    with x a have "unat n * s \<le> length (app_bytes (Memory b))"
      "overwritable f \<longrightarrow> (d \<le> unat n \<and> Memory b = Memory b) \<or> (unat n < d \<and> unread f + unat n < 2 * d)" by auto
    from put_streams [OF f this] Write_bytes show ?thesis
      by (auto simp: fifo_step_def tu_fifo_write_n_def prod_eq_iff)
  next
    case (Write_words ws n)
    with x a have "unat n * s \<le> length (app_bytes (Register ws))"
      "overwritable f \<longrightarrow> (d \<le> unat n \<and> Register ws = Memory []) \<or> (unat n < d \<and> unread f + unat n < 2 * d)" by auto
    from put_streams [OF f this] Write_words show ?thesis
      by (auto simp: fifo_step_def tu_fifo_write_n_const_addr_full_words_def prod_eq_iff)
  next
    case (Read_bytes n)
    from get_streams [OF f, of n TU_FIFO_COPY_INC] Read_bytes show ?thesis
      by (auto simp: fifo_step_def tu_fifo_read_n_def items_got_def d prod_eq_iff cong: option.case_cong)
  next
    case (Read_words n)
    from get_streams [OF f, of n TU_FIFO_COPY_CST_FULL_WORDS] Read_words show ?thesis
      by (auto simp: fifo_step_def tu_fifo_read_n_const_addr_full_words_def items_got_def d prod_eq_iff cong: option.case_cong)
  next
    case (Write_item b)
    with x a have b: "s \<le> length b" "overwritable f \<or> unread f < d" "unread f + 1 < 2 * d"
      using d(1) by (auto split: if_splits)
    then have l: "length (take s b) = 1 * s" by (simp add: min_absorb2)
    have w: "streams d s (written f (wr_idx f) 1 (take s b)) (overwritable f, unread f + 1, last_n (d * s) (fifo_content f @ take s b))"
      using written_streams [OF sh, of 1 "take s b"] l b d(1) by auto
    have "\<not> overwritable f \<Longrightarrow> last_n (d * s) (fifo_content f @ take s b) = fifo_content f @ take s b"
      using content_fits [OF sh(1) _ l] b(2) by simp
    moreover have "d = 1 \<and> unread f = 0 \<or> 1 < d" using b(3) d(1) by linarith
    ultimately show ?thesis using w write_result [OF sh b(1,2)] Write_item b x
      by (elim disjE) (auto simp: fifo_step_def a Let_def min_def)
  next
    case Read_item
    with x a have le: "unread f \<le> d" by simp
    from read_result [OF sh le] Read_item le d(1) show ?thesis
      by (auto simp: fifo_step_def a Let_def streams_def min_def split: if_splits)
  next
    case Clear
    then show ?thesis using change_both(1) [OF sh(2)] index_space_shape [OF d] sh(2)
      by (simp add: fifo_step_def a streams_def) (simp add: index_space_def unlocked_def)
  next
    case (Set_overwritable o1)
    then show ?thesis using change_both(2) [OF sh(2)] sh u x
      by (simp add: fifo_step_def a streams_def fifo_shape_def unlocked_def unread_def fifo_content_def past_def)
  qed
qed

definition fifo_rel :: "nat \<Rightarrow> nat \<Rightarrow> fault + tu_fifo \<Rightarrow> stream \<Rightarrow> bool" where
  "fifo_rel d s m a \<longleftrightarrow> (\<exists>f. m = Inr f \<and> streams d s f a)"

interpretation usb_fifo: simulation fifo_step "stream_step d s" "fifo_rel d s" "stream_allowed d s" for d s
proof
  fix m :: "fault + tu_fifo" and a x
  assume "fifo_rel d s m a" and x: "stream_allowed d s x a"
  then obtain f where f: "m = Inr f" "streams d s f a" by (auto simp: fifo_rel_def)
  from fifo_step_simulates [OF f(2) x] f(1) show "fifo_rel d s (fst (fifo_step x m)) (fst (stream_step d s x a)) \<and> snd (fifo_step x m) = snd (stream_step d s x a)"
    by (auto simp: fifo_rel_def)
qed


definition new_fifo :: "u16 \<Rightarrow> bool \<Rightarrow> tu_fifo" where
  "new_fifo d over = \<lparr>ff_buffer = replicate (unat d) 0, depth = d, item_size = 1, overwritable = over,
     non_used_index_space = 0xFFFF - (2 * d - 1), max_pointer_idx = 2 * d - 1, wr_idx = 0, rd_idx = 0,
     mutex_wr = Some False, mutex_rd = None\<rparr>"

lemma new_fifo_config:
  "d \<le> 0x8000 \<Longrightarrow> tu_fifo_config (new_fifo d over) (replicate (unat d) 0) d 1 over = Inr (True, new_fifo d over)"
  by (simp add: tu_fifo_config_def new_fifo_def lock_wr_def lock_rd_def ff_lock_def unlock_wr_def unlock_rd_def
      ff_unlock_def index_space_def not_less)


section \<open>Outside the contract\<close>

text \<open>Three pieces of three bytes in an overwriting FIFO of four leave one byte instead of four.\<close>

lemma overwriting_forgets:
  "(let w = (\<lambda>b r. rbind r (\<lambda>(_ :: u16, f). tu_fifo_write_n f b 3))
    in rbind (w [7, 8, 9] (w [4, 5, 6] (w [1, 2, 3] (Inr (0, new_fifo 4 True))))) (\<lambda>(_, f). Inr (tu_fifo_count f))) = Inr 1"
  by code_simp

text \<open>After an overflow a single read takes an item that is not the oldest: 5 where 3 is due.\<close>

lemma single_read_out_of_order:
  "rbind (tu_fifo_write_n (new_fifo 4 True) [1, 2, 3] 3) (\<lambda>(_, f).
   rbind (tu_fifo_write_n f [4, 5, 6] 3) (\<lambda>(_, f).
   rbind (tu_fifo_read f) (\<lambda>(x, _). rbind (tu_fifo_read_n f 1) (\<lambda>(_, y, _). Inr (x, y))))) =
   Inr (Some [5], Some (Memory [3]))"
  by code_simp

text \<open>A write of an item into a full FIFO leaves the mutex locked, and the next write waits for ever.\<close>

lemma full_write_locks:
  "rbind (tu_fifo_write_n (new_fifo 2 False) [1, 2] 2) (\<lambda>(_, f).
   rbind (tu_fifo_write f [3]) (\<lambda>(ok, f). if ok then Inr (0, f) else tu_fifo_write_n f [4] 1)) = Inl Blocked"
  by code_simp

text \<open>Looking at two bytes reports one.\<close>

lemma peek_counts_one:
  "rbind (tu_fifo_write_n (new_fifo 4 False) [1, 2, 3] 3) (\<lambda>(_, f).
   rbind (tu_fifo_peek_n f 2) (\<lambda>(k, b, _). Inr (k, b))) = Inr (1, Some (Memory [1, 2]))"
  by code_simp

end
