(* ===== verification/Usb_Controller.thy ===== *)
theory Usb_Controller
  imports Queue Clocks
begin

text \<open>
  The USB controller of the RP2040 as a device (\<open>portable/raspberrypi/rp2040/rp2040_usb.c\<close> and the
  controller API of \<open>dcd_rp2040.c\<close>): endpoints, their buffers in the memory shared with the
  controller, transfers cut into packets. A pointer to a register is the endpoint whose register it
  is; the null pointer reads the first word of the ROM, and a write through it has no effect. The
  memory of the stack that transfers use is three buffers; \<open>chip\<close> holds the reset controller, the
  interrupt controller and the watchdog. What the controller and the host do
  between two accesses is not here: they change the buffer control words and the shared memory.
\<close>

section \<open>Endpoints and registers\<close>

datatype tusb_dir = TUSB_DIR_OUT | TUSB_DIR_IN

type_synonym ep_id = "nat \<times> tusb_dir"

datatype usb_buf = Usbd_Ctrl_Buf | Epout_Buf | Epin_Buf

type_synonym buf_ptr = "(usb_buf \<times> nat) option"

record hw_endpoint =
  rx :: bool
  hw_ep_addr :: u8
  next_pid :: u8
  endpoint_control :: "ep_id option"
  buffer_control :: "ep_id option"
  hw_data_buf :: "nat option"
  active :: bool
  remaining_len :: u16
  xferred_len :: u16
  user_buf :: buf_ptr
  wMaxPacketSize :: u16
  transfer_type :: u8

record usb_ctl =
  hw_endpoints :: "ep_id \<Rightarrow> hw_endpoint"
  next_buffer_ptr :: nat
  ep_ctrl :: "ep_id \<Rightarrow> u32"
  ep_buf_ctrl :: "ep_id \<Rightarrow> u32"
  dpram :: "nat \<Rightarrow> u8"
  dev_addr_ctrl :: u32
  main_ctrl :: u32
  sie_ctrl :: u32
  sie_status :: u32
  buf_status :: u32
  ep_stall_arm :: u32
  usb_inte :: u32
  usb_pwr :: u32
  muxing :: u32
  rom_word :: u32
  chip :: clocks
  ram :: "usb_buf \<Rightarrow> u8 list"

definition USB_BUF_CTRL_FULL :: u32 where "USB_BUF_CTRL_FULL = 0x8000"
definition USB_BUF_CTRL_LAST :: u32 where "USB_BUF_CTRL_LAST = 0x4000"
definition USB_BUF_CTRL_DATA1_PID :: u32 where "USB_BUF_CTRL_DATA1_PID = 0x2000"
definition USB_BUF_CTRL_SEL :: u32 where "USB_BUF_CTRL_SEL = 0x1000"
definition USB_BUF_CTRL_STALL :: u32 where "USB_BUF_CTRL_STALL = 0x800"
definition USB_BUF_CTRL_AVAIL :: u32 where "USB_BUF_CTRL_AVAIL = 0x400"
definition USB_BUF_CTRL_LEN_MASK :: u32 where "USB_BUF_CTRL_LEN_MASK = 0x3FF"

definition EP_CTRL_ENABLE_BITS :: u32 where "EP_CTRL_ENABLE_BITS = 0x80000000"
definition EP_CTRL_DOUBLE_BUFFERED_BITS :: u32 where "EP_CTRL_DOUBLE_BUFFERED_BITS = 0x40000000"
definition EP_CTRL_INTERRUPT_PER_BUFFER :: u32 where "EP_CTRL_INTERRUPT_PER_BUFFER = 0x20000000"
definition EP_CTRL_INTERRUPT_PER_DOUBLE_BUFFER :: u32 where "EP_CTRL_INTERRUPT_PER_DOUBLE_BUFFER = 0x10000000"

lemmas usb_bits = USB_BUF_CTRL_FULL_def USB_BUF_CTRL_LAST_def USB_BUF_CTRL_DATA1_PID_def USB_BUF_CTRL_SEL_def
  USB_BUF_CTRL_STALL_def USB_BUF_CTRL_AVAIL_def USB_BUF_CTRL_LEN_MASK_def EP_CTRL_ENABLE_BITS_def
  EP_CTRL_DOUBLE_BUFFERED_BITS_def EP_CTRL_INTERRUPT_PER_BUFFER_def EP_CTRL_INTERRUPT_PER_DOUBLE_BUFFER_def

definition USB_MAX_ENDPOINTS :: nat where "USB_MAX_ENDPOINTS = 16"
definition USB_DPRAM_MAX :: nat where "USB_DPRAM_MAX = 4096"

text \<open>The offsets of \<open>ep0_buf_a\<close> and \<open>epx_data\<close> in the shared memory.\<close>

definition ep0_buf_a :: nat where "ep0_buf_a = 0x100"
definition epx_data :: nat where "epx_data = 0x180"

definition tu_edpt_dir :: "u8 \<Rightarrow> tusb_dir" where
  "tu_edpt_dir addr = (if addr AND 0x80 \<noteq> 0 then TUSB_DIR_IN else TUSB_DIR_OUT)"

definition tu_edpt_number :: "u8 \<Rightarrow> u8" where
  "tu_edpt_number addr = addr AND 0x7F"

definition hw_endpoint_get_by_num :: "u8 \<Rightarrow> tusb_dir \<Rightarrow> fault + ep_id" where
  "hw_endpoint_get_by_num num d = (if unat num < USB_MAX_ENDPOINTS then Inr (unat num, d) else Inl OutOfBounds)"

definition hw_endpoint_get_by_addr :: "u8 \<Rightarrow> fault + ep_id" where
  "hw_endpoint_get_by_addr addr = hw_endpoint_get_by_num (tu_edpt_number addr) (tu_edpt_dir addr)"

definition put_ep :: "ep_id \<Rightarrow> hw_endpoint \<Rightarrow> usb_ctl \<Rightarrow> usb_ctl" where
  "put_ep e ep c = c\<lparr>hw_endpoints := (hw_endpoints c)(e := ep)\<rparr>"

definition read_ptr :: "(ep_id \<Rightarrow> u32) \<Rightarrow> ep_id option \<Rightarrow> usb_ctl \<Rightarrow> u32" where
  "read_ptr regs p c = (case p of None \<Rightarrow> rom_word c | Some r \<Rightarrow> regs r)"

definition get_ep_ctrl :: "hw_endpoint \<Rightarrow> usb_ctl \<Rightarrow> u32" where
  "get_ep_ctrl ep c = read_ptr (ep_ctrl c) (endpoint_control ep) c"

definition put_ep_ctrl :: "hw_endpoint \<Rightarrow> u32 \<Rightarrow> usb_ctl \<Rightarrow> usb_ctl" where
  "put_ep_ctrl ep v c = (case endpoint_control ep of None \<Rightarrow> c | Some r \<Rightarrow> c\<lparr>ep_ctrl := (ep_ctrl c)(r := v)\<rparr>)"

definition put_buf_ctrl :: "hw_endpoint \<Rightarrow> u32 \<Rightarrow> usb_ctl \<Rightarrow> usb_ctl" where
  "put_buf_ctrl ep v c =
     (case buffer_control ep of None \<Rightarrow> c | Some r \<Rightarrow> c\<lparr>ep_buf_ctrl := (ep_buf_ctrl c)(r := v)\<rparr>)"

definition hw_endpoint_buffer_control_get_value32 :: "hw_endpoint \<Rightarrow> usb_ctl \<Rightarrow> u32" where
  "hw_endpoint_buffer_control_get_value32 ep c = read_ptr (ep_buf_ctrl c) (buffer_control ep) c"

text \<open>The word is first written without the bit that starts the transfer, and then with it.\<close>

definition hw_endpoint_buffer_control_update32 :: "hw_endpoint \<Rightarrow> u32 \<Rightarrow> u32 \<Rightarrow> usb_ctl \<Rightarrow> fault + usb_ctl" where
  "hw_endpoint_buffer_control_update32 ep and_mask or_mask c =
     (let old = hw_endpoint_buffer_control_get_value32 ep c;
          v = (if and_mask \<noteq> 0 then old AND and_mask else 0);
          v1 = (if or_mask \<noteq> 0 then v OR or_mask else v)
      in if or_mask AND USB_BUF_CTRL_AVAIL \<noteq> 0 then
           (if old AND USB_BUF_CTRL_AVAIL \<noteq> 0 then Inl Panic
            else Inr (put_buf_ctrl ep v1 (put_buf_ctrl ep (v1 AND NOT USB_BUF_CTRL_AVAIL) c)))
         else Inr (put_buf_ctrl ep v1 c))"

definition hw_endpoint_buffer_control_set_value32 :: "hw_endpoint \<Rightarrow> u32 \<Rightarrow> usb_ctl \<Rightarrow> fault + usb_ctl" where
  "hw_endpoint_buffer_control_set_value32 ep v = hw_endpoint_buffer_control_update32 ep 0 v"

definition hw_endpoint_buffer_control_set_mask32 :: "hw_endpoint \<Rightarrow> u32 \<Rightarrow> usb_ctl \<Rightarrow> fault + usb_ctl" where
  "hw_endpoint_buffer_control_set_mask32 ep v = hw_endpoint_buffer_control_update32 ep (NOT v) v"

definition hw_endpoint_buffer_control_clear_mask32 :: "hw_endpoint \<Rightarrow> u32 \<Rightarrow> usb_ctl \<Rightarrow> fault + usb_ctl" where
  "hw_endpoint_buffer_control_clear_mask32 ep v = hw_endpoint_buffer_control_update32 ep (NOT v) 0"

section \<open>Transfers\<close>

definition put_dpram :: "nat \<Rightarrow> u8 list \<Rightarrow> usb_ctl \<Rightarrow> fault + usb_ctl" where
  "put_dpram p bs c =
     (if p + length bs \<le> USB_DPRAM_MAX
      then Inr (c\<lparr>dpram := (\<lambda>i. if p \<le> i \<and> i < p + length bs then bs ! (i - p) else dpram c i)\<rparr>)
      else Inl BufferOverflow)"

definition get_dpram :: "nat \<Rightarrow> nat \<Rightarrow> usb_ctl \<Rightarrow> u8 list" where
  "get_dpram p n c = map (dpram c) [p ..< p + n]"

text \<open>Copies of \<open>n\<close> bytes; of no bytes, whatever the pointers are.\<close>

definition copy_to_dpram :: "nat option \<Rightarrow> nat \<Rightarrow> buf_ptr \<Rightarrow> nat \<Rightarrow> usb_ctl \<Rightarrow> fault + usb_ctl" where
  "copy_to_dpram d k src n c =
     (if n = 0 then Inr c
      else case (d, src) of
        (Some p, Some (b, off)) \<Rightarrow> rbind (read_bytes (ram c b) off n) (\<lambda>bs. put_dpram (p + k) bs c)
      | _ \<Rightarrow> Inl NullPointer)"

definition copy_from_dpram :: "buf_ptr \<Rightarrow> nat option \<Rightarrow> nat \<Rightarrow> nat \<Rightarrow> usb_ctl \<Rightarrow> fault + usb_ctl" where
  "copy_from_dpram dst s k n c =
     (if n = 0 then Inr c
      else case (dst, s) of
        (Some (b, off), Some p) \<Rightarrow>
          if p + k + n \<le> USB_DPRAM_MAX then
            rbind (write_bytes (ram c b) off (get_dpram (p + k) n c)) (\<lambda>m. Inr (c\<lparr>ram := (ram c)(b := m)\<rparr>))
          else Inl OutOfBounds
      | _ \<Rightarrow> Inl NullPointer)"

definition advance_buf :: "buf_ptr \<Rightarrow> nat \<Rightarrow> buf_ptr" where
  "advance_buf p n = map_option (\<lambda>(b, off). (b, off + n)) p"

definition hw_endpoint_reset_transfer :: "ep_id \<Rightarrow> usb_ctl \<Rightarrow> usb_ctl" where
  "hw_endpoint_reset_transfer e c =
     put_ep e ((hw_endpoints c e)\<lparr>active := False, remaining_len := 0, xferred_len := 0, user_buf := None\<rparr>) c"

definition prepare_ep_buffer :: "ep_id \<Rightarrow> nat \<Rightarrow> usb_ctl \<Rightarrow> fault + (u32 \<times> usb_ctl)" where
  "prepare_ep_buffer e buf_id c =
     (let ep = hw_endpoints c e;
          buflen = min (remaining_len ep) (wMaxPacketSize ep);
          ep1 = ep\<lparr>remaining_len := remaining_len ep - buflen, next_pid := next_pid ep XOR 1\<rparr>;
          ctl = ucast buflen OR USB_BUF_CTRL_AVAIL OR (if next_pid ep \<noteq> 0 then USB_BUF_CTRL_DATA1_PID else 0)
      in rbind (if \<not> rx ep then
                  rbind (copy_to_dpram (hw_data_buf ep) (buf_id * 64) (user_buf ep) (unat buflen) c) (\<lambda>c1.
                    Inr (ctl OR USB_BUF_CTRL_FULL,
                         put_ep e (ep1\<lparr>user_buf := advance_buf (user_buf ep) (unat buflen)\<rparr>) c1))
                else Inr (ctl, put_ep e ep1 c)) (\<lambda>(ctl1, c2).
         let ctl2 = (if remaining_len ep1 = 0 then ctl1 OR USB_BUF_CTRL_LAST else ctl1)
         in Inr (if buf_id \<noteq> 0 then push_bit 16 ctl2 else ctl2, c2)))"

definition hw_endpoint_start_next_buffer :: "ep_id \<Rightarrow> usb_ctl \<Rightarrow> fault + usb_ctl" where
  "hw_endpoint_start_next_buffer e c =
     (let v = get_ep_ctrl (hw_endpoints c e) c
      in rbind (prepare_ep_buffer e 0 c) (\<lambda>(b0, c1).
         let b = b0 OR USB_BUF_CTRL_SEL;
             force_single = (main_ctrl c1 AND 2 = 0 \<and> tu_edpt_dir (hw_ep_addr (hw_endpoints c1 e)) = TUSB_DIR_OUT)
         in rbind (if remaining_len (hw_endpoints c1 e) \<noteq> 0 \<and> \<not> force_single then
                     rbind (prepare_ep_buffer e 1 c1) (\<lambda>(b1, c2).
                       Inr (b OR b1, (v AND NOT EP_CTRL_INTERRUPT_PER_BUFFER) OR
                         (EP_CTRL_DOUBLE_BUFFERED_BITS OR EP_CTRL_INTERRUPT_PER_DOUBLE_BUFFER), c2))
                   else Inr (b, (v AND NOT (EP_CTRL_DOUBLE_BUFFERED_BITS OR EP_CTRL_INTERRUPT_PER_DOUBLE_BUFFER))
                         OR EP_CTRL_INTERRUPT_PER_BUFFER, c1)) (\<lambda>(b2, v2, c3).
              hw_endpoint_buffer_control_set_value32 (hw_endpoints c3 e) b2
                (put_ep_ctrl (hw_endpoints c3 e) v2 c3))))"

definition hw_endpoint_xfer_start :: "ep_id \<Rightarrow> buf_ptr \<Rightarrow> u16 \<Rightarrow> usb_ctl \<Rightarrow> fault + usb_ctl" where
  "hw_endpoint_xfer_start e buffer total_len c =
     (let c1 = (if active (hw_endpoints c e) then hw_endpoint_reset_transfer e c else c)
      in hw_endpoint_start_next_buffer e
           (put_ep e ((hw_endpoints c1 e)\<lparr>remaining_len := total_len, xferred_len := 0, active := True,
              user_buf := buffer\<rparr>) c1))"

definition sync_ep_buffer :: "ep_id \<Rightarrow> nat \<Rightarrow> usb_ctl \<Rightarrow> fault + (u16 \<times> usb_ctl)" where
  "sync_ep_buffer e buf_id c =
     (let ep = hw_endpoints c e;
          v = hw_endpoint_buffer_control_get_value32 ep c;
          v1 = (if buf_id \<noteq> 0 then drop_bit 16 v else v);
          n = (ucast (v1 AND USB_BUF_CTRL_LEN_MASK) :: u16);
          ep1 = ep\<lparr>xferred_len := xferred_len ep + n\<rparr>
      in rbind (if \<not> rx ep then Inr (ep1, c)
                else rbind (copy_from_dpram (user_buf ep) (hw_data_buf ep) (buf_id * 64) (unat n) c) (\<lambda>c1.
                       Inr (ep1\<lparr>user_buf := advance_buf (user_buf ep) (unat n)\<rparr>, c1))) (\<lambda>(ep2, c2).
           Inr (n, put_ep e (if n < wMaxPacketSize ep then ep2\<lparr>remaining_len := 0\<rparr> else ep2) c2)))"

definition hw_endpoint_xfer_sync :: "ep_id \<Rightarrow> usb_ctl \<Rightarrow> fault + usb_ctl" where
  "hw_endpoint_xfer_sync e c =
     rbind (sync_ep_buffer e 0 c) (\<lambda>(buf0_bytes, c1).
       if get_ep_ctrl (hw_endpoints c1 e) c1 AND EP_CTRL_DOUBLE_BUFFERED_BITS \<noteq> 0
          \<and> buf0_bytes = wMaxPacketSize (hw_endpoints c1 e)
       then rbind (sync_ep_buffer e 1 c1) (\<lambda>(_, c2). Inr c2)
       else Inr c1)"

definition hw_endpoint_xfer_continue :: "ep_id \<Rightarrow> usb_ctl \<Rightarrow> fault + (bool \<times> usb_ctl)" where
  "hw_endpoint_xfer_continue e c =
     (if \<not> active (hw_endpoints c e) then Inl Panic
      else rbind (hw_endpoint_xfer_sync e c) (\<lambda>c1.
        if remaining_len (hw_endpoints c1 e) = 0 then Inr (True, c1)
        else rbind (hw_endpoint_start_next_buffer e c1) (\<lambda>c2. Inr (False, c2))))"

section \<open>The controller API\<close>

definition zero_endpoint :: hw_endpoint where
  "zero_endpoint = \<lparr>rx = False, hw_ep_addr = 0, next_pid = 0, endpoint_control = None, buffer_control = None,
     hw_data_buf = None, active = False, remaining_len = 0, xferred_len = 0, user_buf = None, wMaxPacketSize = 0,
     transfer_type = 0\<rparr>"

definition RESETS_RESET_USBCTRL_BITS :: u32 where "RESETS_RESET_USBCTRL_BITS = 0x1000000"
definition USBCTRL_IRQ :: nat where "USBCTRL_IRQ = 5"
definition dcd_rp2040_irq_code :: u32 where "dcd_rp2040_irq_code = 0x10001001"

definition rp2040_usb_init :: "nat \<Rightarrow> environment \<Rightarrow> usb_ctl \<Rightarrow> fault + usb_ctl" where
  "rp2040_usb_init fuel hw c =
     rbind (unreset_block_wait fuel hw RESETS_RESET_USBCTRL_BITS (reset_block RESETS_RESET_USBCTRL_BITS (chip c))) (\<lambda>h.
     Inr (c\<lparr>chip := h, ep_ctrl := (\<lambda>_. 0), ep_buf_ctrl := (\<lambda>_. 0), dpram := (\<lambda>_. 0), dev_addr_ctrl := 0,
     main_ctrl := 0, sie_ctrl := 0, sie_status := 0, buf_status := 0, ep_stall_arm := 0, usb_inte := 0,
     usb_pwr := 0, muxing := 0x1 OR 0x8\<rparr>))"

definition TUSB_XFER_BULK :: u8 where "TUSB_XFER_BULK = 2"

definition hw_endpoint_alloc :: "ep_id \<Rightarrow> u8 \<Rightarrow> usb_ctl \<Rightarrow> usb_ctl" where
  "hw_endpoint_alloc e xfer_type c =
     (let ep = hw_endpoints c e;
          size = (unat (wMaxPacketSize ep) + 63) div 64 * 64;
          size1 = (if xfer_type = TUSB_XFER_BULK then size * 2 else size);
          c1 = (put_ep e (ep\<lparr>hw_data_buf := Some (next_buffer_ptr c)\<rparr>) c)\<lparr>next_buffer_ptr := next_buffer_ptr c + size1\<rparr>
      in put_ep_ctrl ep (EP_CTRL_ENABLE_BITS OR push_bit 26 (ucast xfer_type) OR of_nat (next_buffer_ptr c)) c1)"

definition hw_endpoint_init :: "u8 \<Rightarrow> u16 \<Rightarrow> u8 \<Rightarrow> usb_ctl \<Rightarrow> fault + usb_ctl" where
  "hw_endpoint_init addr max_size xfer_type c =
     rbind (hw_endpoint_get_by_addr addr) (\<lambda>e.
       let num = tu_edpt_number addr;
           ep = (hw_endpoints c e)\<lparr>hw_ep_addr := addr, rx := (tu_edpt_dir addr = TUSB_DIR_OUT), next_pid := 0,
             wMaxPacketSize := max_size, transfer_type := xfer_type, buffer_control := Some e\<rparr>;
           c1 = put_buf_ctrl ep 0 (put_ep e ep c)
       in Inr (if num = 0 then put_ep e (ep\<lparr>endpoint_control := None, hw_data_buf := Some ep0_buf_a\<rparr>) c1
               else hw_endpoint_alloc e xfer_type (put_ep e (ep\<lparr>endpoint_control := Some e\<rparr>) c1)))"

definition hw_endpoint_xfer :: "u8 \<Rightarrow> buf_ptr \<Rightarrow> u16 \<Rightarrow> usb_ctl \<Rightarrow> fault + usb_ctl" where
  "hw_endpoint_xfer addr buffer total_bytes c =
     rbind (hw_endpoint_get_by_addr addr) (\<lambda>e. hw_endpoint_xfer_start e buffer total_bytes c)"

definition reset_ep0_pid :: "usb_ctl \<Rightarrow> usb_ctl" where
  "reset_ep0_pid c =
     (let c1 = put_ep (0, TUSB_DIR_OUT) ((hw_endpoints c (0, TUSB_DIR_OUT))\<lparr>next_pid := 1\<rparr>) c
      in put_ep (0, TUSB_DIR_IN) ((hw_endpoints c1 (0, TUSB_DIR_IN))\<lparr>next_pid := 1\<rparr>) c1)"

definition reset_non_control_endpoints :: "usb_ctl \<Rightarrow> usb_ctl" where
  "reset_non_control_endpoints c = c\<lparr>ep_ctrl := (\<lambda>(n, d). if 1 \<le> n \<and> n < USB_MAX_ENDPOINTS then 0 else ep_ctrl c (n, d)),
     hw_endpoints := (\<lambda>(n, d). if 1 \<le> n \<and> n < USB_MAX_ENDPOINTS then zero_endpoint else hw_endpoints c (n, d)),
     next_buffer_ptr := epx_data\<rparr>"

definition PULLUP_EN_BITS :: u32 where "PULLUP_EN_BITS = 0x10000"

definition dcd_connect :: "usb_ctl \<Rightarrow> usb_ctl" where
  "dcd_connect c = c\<lparr>sie_ctrl := sie_ctrl c OR PULLUP_EN_BITS\<rparr>"

definition dcd_disconnect :: "usb_ctl \<Rightarrow> usb_ctl" where
  "dcd_disconnect c = c\<lparr>sie_ctrl := sie_ctrl c AND NOT PULLUP_EN_BITS\<rparr>"

definition dcd_remote_wakeup :: "usb_ctl \<Rightarrow> usb_ctl" where
  "dcd_remote_wakeup c = c\<lparr>sie_ctrl := sie_ctrl c OR 0x1000\<rparr>"

definition USB_INTS_BUFF_STATUS_BITS :: u32 where "USB_INTS_BUFF_STATUS_BITS = 0x10"
definition USB_INTS_BUS_RESET_BITS :: u32 where "USB_INTS_BUS_RESET_BITS = 0x1000"
definition USB_INTS_DEV_SUSPEND_BITS :: u32 where "USB_INTS_DEV_SUSPEND_BITS = 0x4000"
definition USB_INTS_DEV_RESUME_FROM_HOST_BITS :: u32 where "USB_INTS_DEV_RESUME_FROM_HOST_BITS = 0x8000"
definition USB_INTS_SETUP_REQ_BITS :: u32 where "USB_INTS_SETUP_REQ_BITS = 0x10000"

lemmas usb_ints = USB_INTS_BUFF_STATUS_BITS_def USB_INTS_BUS_RESET_BITS_def USB_INTS_DEV_SUSPEND_BITS_def
  USB_INTS_DEV_RESUME_FROM_HOST_BITS_def USB_INTS_SETUP_REQ_BITS_def

definition dcd_init :: "nat \<Rightarrow> environment \<Rightarrow> usb_ctl \<Rightarrow> fault + usb_ctl" where
  "dcd_init fuel hw c =
     rbind (rp2040_usb_init fuel hw c) (\<lambda>c0.
     rbind (irq_set_exclusive_handler USBCTRL_IRQ dcd_rp2040_irq_code (clock_irqs (chip c0))) (\<lambda>q.
     let c1 = c0\<lparr>usb_pwr := 0x4 OR 0x8, chip := (chip c0)\<lparr>clock_irqs := q\<rparr>\<rparr>;
          c2 = put_ep (0, TUSB_DIR_IN) zero_endpoint (put_ep (0, TUSB_DIR_OUT) zero_endpoint c1)
      in rbind (hw_endpoint_init 0x00 64 0 c2) (\<lambda>c3. rbind (hw_endpoint_init 0x80 64 0 c3) (\<lambda>c4.
         let c5 = reset_non_control_endpoints c4
         in Inr (dcd_connect (c5\<lparr>main_ctrl := 1, sie_ctrl := 0x20000000,
              usb_inte := USB_INTS_BUFF_STATUS_BITS OR USB_INTS_BUS_RESET_BITS OR USB_INTS_SETUP_REQ_BITS OR
                USB_INTS_DEV_SUSPEND_BITS OR USB_INTS_DEV_RESUME_FROM_HOST_BITS\<rparr>))))))"

definition dcd_int_enable :: "usb_ctl \<Rightarrow> usb_ctl" where
  "dcd_int_enable c = c\<lparr>chip := (chip c)\<lparr>clock_irqs := irq_set_enabled USBCTRL_IRQ True (clock_irqs (chip c))\<rparr>\<rparr>"

definition dcd_int_disable :: "usb_ctl \<Rightarrow> usb_ctl" where
  "dcd_int_disable c = c\<lparr>chip := (chip c)\<lparr>clock_irqs := irq_set_enabled USBCTRL_IRQ False (clock_irqs (chip c))\<rparr>\<rparr>"

text \<open>The address itself is written when the status has been sent.\<close>

definition dcd_set_address :: "u8 \<Rightarrow> usb_ctl \<Rightarrow> fault + usb_ctl" where
  "dcd_set_address dev_addr = hw_endpoint_xfer 0x80 None 0"

definition dcd_edpt_open :: "u8 \<Rightarrow> u16 \<Rightarrow> u8 \<Rightarrow> usb_ctl \<Rightarrow> fault + (bool \<times> usb_ctl)" where
  "dcd_edpt_open addr max_size xfer_type c = rbind (hw_endpoint_init addr max_size xfer_type c) (\<lambda>c1. Inr (True, c1))"

definition dcd_edpt_close_all :: "usb_ctl \<Rightarrow> usb_ctl" where
  "dcd_edpt_close_all c = reset_non_control_endpoints c"

definition dcd_edpt_xfer :: "u8 \<Rightarrow> buf_ptr \<Rightarrow> u16 \<Rightarrow> usb_ctl \<Rightarrow> fault + (bool \<times> usb_ctl)" where
  "dcd_edpt_xfer addr buffer total_bytes c =
     rbind (hw_endpoint_xfer addr buffer total_bytes c) (\<lambda>c1. Inr (True, c1))"

definition dcd_edpt_stall :: "u8 \<Rightarrow> usb_ctl \<Rightarrow> fault + usb_ctl" where
  "dcd_edpt_stall addr c =
     (let c1 = (if tu_edpt_number addr = 0
                then c\<lparr>ep_stall_arm := ep_stall_arm c OR (if tu_edpt_dir addr = TUSB_DIR_IN then 1 else 2)\<rparr> else c)
      in rbind (hw_endpoint_get_by_addr addr) (\<lambda>e.
           hw_endpoint_buffer_control_set_value32 (hw_endpoints c1 e) USB_BUF_CTRL_STALL c1))"

definition dcd_edpt_clear_stall :: "u8 \<Rightarrow> usb_ctl \<Rightarrow> fault + usb_ctl" where
  "dcd_edpt_clear_stall addr c =
     (if tu_edpt_number addr \<noteq> 0 then
        rbind (hw_endpoint_get_by_addr addr) (\<lambda>e.
          let c1 = put_ep e ((hw_endpoints c e)\<lparr>next_pid := 0\<rparr>) c
          in hw_endpoint_buffer_control_clear_mask32 (hw_endpoints c1 e) USB_BUF_CTRL_STALL c1)
      else Inr c)"

definition dcd_edpt_close :: "u8 \<Rightarrow> usb_ctl \<Rightarrow> usb_ctl" where
  "dcd_edpt_close addr c = c"

end
