(* ===== verification/Usb_Packets.thy ===== *)
theory Usb_Packets
  imports Usb_Controller Usb_Fifo_Copy
begin

text \<open>
  Transfers through the controller. The other side is \<open>host_takes\<close> and \<open>host_gives\<close>, what the controller
  does by its documentation when the host asks for the packets that are ready, or sends some: it reads or
  writes the shared memory where the control register of the endpoint says, and clears or sets the bits
  of the buffers. A packet is its data toggle and its bytes.
\<close>

section \<open>Buffer control words\<close>

definition buffer_word :: "u16 \<Rightarrow> u8 \<Rightarrow> bool \<Rightarrow> bool \<Rightarrow> u32" where
  "buffer_word n pid full fin = (ucast n OR USB_BUF_CTRL_AVAIL OR (if pid \<noteq> 0 then USB_BUF_CTRL_DATA1_PID else 0))
     OR (if full then USB_BUF_CTRL_FULL else 0) OR (if fin then USB_BUF_CTRL_LAST else 0)"

lemma ucast_len:
  fixes n :: u16
  assumes "unat n < 1024"
  shows "(ucast n :: u32) AND 0x3FF = ucast n" "(ucast n :: u32) AND k = ucast n AND (k AND 0x3FF)"
proof -
  have "take_bit 10 (ucast n :: u32) = ucast n" using assms
    by (intro word_unat_eq_iff [THEN iffD2]) (simp add: unsigned_take_bit_eq unsigned_ucast_eq take_bit_nat_eq_self take_bit_nat_eq_self_iff)
  moreover have "(0x3FF :: u32) = mask 10" by (simp add: mask_eq_exp_minus_1)
  ultimately show e: "(ucast n :: u32) AND 0x3FF = ucast n" by (simp add: take_bit_eq_mask)
  show "(ucast n :: u32) AND k = ucast n AND (k AND 0x3FF)"
    by (metis e and.commute and.left_commute)
qed

lemma len_ands:
  fixes n :: u16
  assumes "unat n < 1024"
  shows "(ucast n :: u32) AND 0xFFFF = ucast n" "(ucast n :: u32) AND 0x3FF = ucast n"
    "(ucast n :: u32) AND 0x7BFF7BFF = ucast n" "(ucast n :: u32) AND 0x400 = 0" "(ucast n :: u32) AND 0x2000 = 0"
    "drop_bit 16 (ucast n :: u32) = 0"
proof -
  note l = ucast_len [OF assms]
  show "(ucast n :: u32) AND 0xFFFF = ucast n" "(ucast n :: u32) AND 0x3FF = ucast n"
    "(ucast n :: u32) AND 0x7BFF7BFF = ucast n" "(ucast n :: u32) AND 0x400 = 0" "(ucast n :: u32) AND 0x2000 = 0"
    using l l(2) [of "0xFFFF"] l(2) [of "0x7BFF7BFF"] l(2) [of "0x400"] l(2) [of "0x2000"] by simp_all
  show "drop_bit 16 (ucast n :: u32) = 0" using assms
    by (intro word_unat_eq_iff [THEN iffD2])
      (simp add: unsigned_drop_bit_eq unsigned_ucast_eq drop_bit_eq_div [where 'a = nat] take_bit_eq_mod [where 'a = nat])
qed

lemma buffer_word_ands:
  assumes "unat n < 1024"
  shows "buffer_word n pid full fin AND 0xFFFF = buffer_word n pid full fin"
    "buffer_word n pid full fin AND 0x3FF = ucast n"
    "buffer_word n pid full fin AND 0x400 = 0x400"
    "(buffer_word n pid full fin AND 0x2000 \<noteq> 0) = (pid \<noteq> 0)"
    "drop_bit 16 (buffer_word n pid full fin) = 0"
  using len_ands [OF assms]
  by (simp_all add: buffer_word_def usb_bits bit.conj_disj_distrib2)

lemma high_half:
  fixes w :: u32
  shows "push_bit 16 w AND 0xFFFF = 0" "w AND 0xFFFF = w \<Longrightarrow> drop_bit 16 (push_bit 16 w) = w"
proof -
  have m: "(0xFFFF :: u32) = mask 16" by (simp add: mask_eq_exp_minus_1)
  show "push_bit 16 w AND 0xFFFF = 0" unfolding m by (rule bit_eqI) (auto simp: bit_simps)
  show "drop_bit 16 (push_bit 16 w) = w" if "w AND 0xFFFF = w"
  proof (rule bit_eqI)
    fix i
    have "bit w i \<Longrightarrow> i < 16" using that unfolding m by (metis bit_and_iff bit_mask_iff)
    then show "bit (drop_bit 16 (push_bit 16 w)) i = bit w i" by (auto simp: bit_simps dest: bit_imp_le_length)
  qed
qed

lemma high_ands:
  fixes w :: u32
  shows "push_bit 16 w AND 0x3FF = 0" "push_bit 16 w AND 0x400 = 0" "push_bit 16 w AND 0x2000 = 0"
proof -
  have "push_bit 16 w AND k = 0" if "0xFFFF AND k = k" for k :: u32
  proof -
    have "push_bit 16 w AND (0xFFFF AND k) = 0" by (simp add: high_half(1) flip: and.assoc)
    then show ?thesis by (simp only: that)
  qed
  then show "push_bit 16 w AND 0x3FF = 0" "push_bit 16 w AND 0x400 = 0" "push_bit 16 w AND 0x2000 = 0" by simp_all
qed

text \<open>What the controller leaves of the word of buffers that have been sent, or the word of empty ones.\<close>

definition released :: "u32 \<Rightarrow> u32" where
  "released v = v AND 0x7BFF7BFF"

lemma single_word:
  assumes "unat n < 1024"
  shows "(buffer_word n p full fin OR 0x1000) AND 0x3FF = ucast n" "(buffer_word n p full fin OR 0x1000) AND 0x400 = 0x400"
    "released (buffer_word n p full fin OR 0x1000) AND 0x3FF = ucast n"
    "released (buffer_word n p full fin OR 0x1000) AND 0x400 = 0"
    "((buffer_word n p full fin OR 0x1000) AND 0x2000 \<noteq> 0) = (p \<noteq> 0)"
  using buffer_word_ands [OF assms] by (simp_all add: bit.conj_disj_distrib2 released_def and.assoc)

lemma double_word:
  assumes "unat n < 1024" "unat m < 1024"
    and v: "v = buffer_word n p full fin OR 0x1000 OR push_bit 16 (buffer_word m q full' fin')"
  shows "v AND 0x3FF = ucast n" "v AND 0x400 = 0x400" "(v AND 0x2000 \<noteq> 0) = (p \<noteq> 0)"
    "drop_bit 16 v AND 0x3FF = ucast m" "drop_bit 16 v AND 0x400 = 0x400" "(drop_bit 16 v AND 0x2000 \<noteq> 0) = (q \<noteq> 0)"
    "released v AND 0x3FF = ucast n" "released v AND 0x400 = 0" "drop_bit 16 (released v) AND 0x3FF = ucast m"
proof -
  note a = buffer_word_ands [OF assms(1)] and b = buffer_word_ands [OF assms(2)]
  have h: "drop_bit 16 v = buffer_word m q full' fin'"
    using a(5) high_half(2) [OF b(1)] by (simp add: v drop_bit_or)
  show "v AND 0x3FF = ucast n" "v AND 0x400 = 0x400" "(v AND 0x2000 \<noteq> 0) = (p \<noteq> 0)"
    using a by (simp_all add: v bit.conj_disj_distrib2 high_ands)
  then show "released v AND 0x3FF = ucast n" "released v AND 0x400 = 0"
    by (simp_all add: released_def and.assoc)
  show "drop_bit 16 v AND 0x3FF = ucast m" "drop_bit 16 v AND 0x400 = 0x400" "(drop_bit 16 v AND 0x2000 \<noteq> 0) = (q \<noteq> 0)"
    using b by (simp_all add: h)
  then show "drop_bit 16 (released v) AND 0x3FF = ucast m"
    by (simp add: released_def drop_bit_and and.assoc)
qed

section \<open>The host\<close>

type_synonym packet = "bool \<times> u8 list"

definition buffer_at :: "ep_id \<Rightarrow> usb_ctl \<Rightarrow> nat" where
  "buffer_at e c = (if fst e = 0 then ep0_buf_a else unat (ep_ctrl c e AND 0xFFC0))"

definition double_buffered :: "ep_id \<Rightarrow> usb_ctl \<Rightarrow> bool" where
  "double_buffered e c \<longleftrightarrow> fst e \<noteq> 0 \<and> ep_ctrl c e AND EP_CTRL_DOUBLE_BUFFERED_BITS \<noteq> 0"

definition packet_at :: "u32 \<Rightarrow> nat \<Rightarrow> usb_ctl \<Rightarrow> packet" where
  "packet_at v p c = (v AND 0x2000 \<noteq> 0, get_dpram p (unat (v AND 0x3FF)) c)"

definition host_takes :: "ep_id \<Rightarrow> usb_ctl \<Rightarrow> packet list \<times> usb_ctl" where
  "host_takes e c =
     (let v = ep_buf_ctrl c e; p = buffer_at e c
      in (packet_at v p c # (if double_buffered e c then [packet_at (drop_bit 16 v) (p + 64) c] else []),
          c\<lparr>ep_buf_ctrl := (ep_buf_ctrl c)(e := released v)\<rparr>))"

text \<open>The host takes packets until the driver says that the transfer is complete.\<close>

fun in_packets :: "nat \<Rightarrow> ep_id \<Rightarrow> usb_ctl \<Rightarrow> fault + (packet list \<times> usb_ctl)" where
  "in_packets 0 e c = Inl Exhausted"
| "in_packets (Suc n) e c =
     (if ep_buf_ctrl c e AND USB_BUF_CTRL_AVAIL = 0 then Inl Blocked
      else let (ps, c1) = host_takes e c
           in rbind (hw_endpoint_xfer_continue e c1) (\<lambda>(complete, c2).
                if complete then Inr (ps, c2)
                else rbind (in_packets n e c2) (\<lambda>(qs, c3). Inr (ps @ qs, c3))))"

section \<open>Copies\<close>

definition overlay :: "nat \<Rightarrow> u8 list \<Rightarrow> (nat \<Rightarrow> u8) \<Rightarrow> nat \<Rightarrow> u8" where
  "overlay p bs d = (\<lambda>i. if p \<le> i \<and> i < p + length bs then bs ! (i - p) else d i)"

lemma overlay_Nil [simp]: "overlay p [] d = d"
  by (rule ext) (auto simp: overlay_def)

lemma read_overlay: "length bs = n \<Longrightarrow> map (overlay p bs d) [p ..< p + n] = bs"
  by (rule nth_equalityI) (simp_all add: overlay_def)

lemma read_below_overlay: "p + n \<le> q \<Longrightarrow> map (overlay q bs d) [p ..< p + n] = map d [p ..< p + n]"
  by (simp add: overlay_def)

lemma copy_to:
  assumes "off + n \<le> length (ram c b)" "p + k + n \<le> 4096"
  shows "copy_to_dpram (Some p) k (Some (b, off)) n c =
    Inr (c\<lparr>dpram := overlay (p + k) (take n (drop off (ram c b))) (dpram c)\<rparr>)"
proof (cases "n = 0")
  case True
  then show ?thesis by (simp add: copy_to_dpram_def)
next
  case False
  then show ?thesis using assms by (simp add: copy_to_dpram_def read_bytes_def put_dpram_def USB_DPRAM_MAX_def overlay_def)
qed

section \<open>Sending\<close>

definition in_endpoint :: "ep_id \<Rightarrow> nat \<Rightarrow> nat \<Rightarrow> usb_ctl \<Rightarrow> bool" where
  "in_endpoint e p m c \<longleftrightarrow> fst e \<noteq> 0 \<and> \<not> rx (hw_endpoints c e) \<and> endpoint_control (hw_endpoints c e) = Some e \<and>
     buffer_control (hw_endpoints c e) = Some e \<and> hw_data_buf (hw_endpoints c e) = Some p \<and>
     unat (wMaxPacketSize (hw_endpoints c e)) = m \<and> 0 < m \<and> m \<le> 64 \<and> p + 128 \<le> 4096 \<and>
     unat (ep_ctrl c e AND 0xFFC0) = p \<and> tu_edpt_dir (hw_ep_addr (hw_endpoints c e)) = TUSB_DIR_IN \<and>
     next_pid (hw_endpoints c e) \<in> {0, 1}"

definition sending :: "ep_id \<Rightarrow> nat \<Rightarrow> nat \<Rightarrow> u8 list \<Rightarrow> u8 \<Rightarrow> nat \<Rightarrow> usb_ctl \<Rightarrow> bool" where
  "sending e p m bs pid t c \<longleftrightarrow> in_endpoint e p m c \<and> active (hw_endpoints c e) \<and>
     unat (remaining_len (hw_endpoints c e)) = length bs \<and> next_pid (hw_endpoints c e) = pid \<and>
     (\<exists>b off. user_buf (hw_endpoints c e) = Some (b, off) \<and> off + length bs \<le> length (ram c b) \<and>
        take (length bs) (drop off (ram c b)) = bs) \<and>
     unat (xferred_len (hw_endpoints c e)) = t \<and> t + length bs < 2 ^ 16"

lemma le1_cases: "k \<le> (1 :: nat) \<Longrightarrow> (k = 0 \<Longrightarrow> P) \<Longrightarrow> (k = 1 \<Longrightarrow> P) \<Longrightarrow> P"
  by linarith

lemma prepare_in:
  assumes "sending e p m bs pid t c" "k \<le> 1"
  defines "n \<equiv> min (length bs) m"
  shows "\<exists>ep. prepare_ep_buffer e k c =
    Inr (push_bit (16 * k) (buffer_word (of_nat n) pid True (length bs \<le> m)),
         put_ep e ep (c\<lparr>dpram := overlay (p + 64 * k) (take m bs) (dpram c)\<rparr>)) \<and>
    sending e p m (drop m bs) (pid XOR 1) t
      (put_ep e ep (c\<lparr>dpram := overlay (p + 64 * k) (take m bs) (dpram c)\<rparr>)) \<and> fst e \<noteq> 0"
proof -
  let ?ep = "hw_endpoints c e"
  obtain b off where b: "user_buf ?ep = Some (b, off)" "off + length bs \<le> length (ram c b)"
    "take (length bs) (drop off (ram c b)) = bs"
    using assms(1) by (auto simp: sending_def)
  have e: "in_endpoint e p m c" "unat (remaining_len ?ep) = length bs" "next_pid ?ep = pid"
    using assms(1) by (simp_all add: sending_def)
  have m: "unat (wMaxPacketSize ?ep) = m" "0 < m" "m \<le> 64" "p + 128 \<le> 4096" "hw_data_buf ?ep = Some p" "\<not> rx ?ep" "fst e \<noteq> 0"
    using e(1) by (simp_all add: in_endpoint_def)
  have n: "unat (min (remaining_len ?ep) (wMaxPacketSize ?ep)) = n"
    using e(2) m(1) by (auto simp: min_def word_le_nat_alt n_def)
  then have n': "min (remaining_len ?ep) (wMaxPacketSize ?ep) = of_nat n" by (metis of_nat_unat ucast_id)
  have rem: "unat (remaining_len ?ep - of_nat n) = length (drop m bs)"
    using e(2) n unfolding n' [symmetric] by (simp add: unat_sub n_def)
  have k: "k * 64 + n \<le> 128" using assms(2) m(3) by (simp add: n_def)
  have tk: "take n (drop off (ram c b)) = take m bs"
    using b(3) by (metis n_def take_take min.commute)
  have cp: "copy_to_dpram (Some p) (k * 64) (Some (b, off)) n c =
      Inr (c\<lparr>dpram := overlay (p + 64 * k) (take m bs) (dpram c)\<rparr>)"
    using copy_to [of off n c b p "k * 64"] b(2) k m(4) tk by (simp add: n_def mult.commute)
  let ?ep1 = "?ep\<lparr>remaining_len := remaining_len ?ep - of_nat n, next_pid := pid XOR 1,
    user_buf := Some (b, off + n)\<rparr>"
  have un: "unat (of_nat n :: u16) = n" using n n' by simp
  have z: "(remaining_len ?ep = of_nat n) = (length bs \<le> m)"
    using e(2) un by (auto simp: word_unat_eq_iff n_def)
  have "prepare_ep_buffer e k c =
    Inr (push_bit (16 * k) (buffer_word (of_nat n) pid True (length bs \<le> m)),
         put_ep e ?ep1 (c\<lparr>dpram := overlay (p + 64 * k) (take m bs) (dpram c)\<rparr>))"
    using assms(2) b(1) m e(3) cp un by (elim le1_cases) (auto simp: prepare_ep_buffer_def Let_def n' z advance_buf_def buffer_word_def or.assoc)
  moreover have "sending e p m (drop m bs) (pid XOR 1) t
      (put_ep e ?ep1 (c\<lparr>dpram := overlay (p + 64 * k) (take m bs) (dpram c)\<rparr>))"
  proof -
    have "length bs - m = length bs - n" by (simp add: n_def)
    moreover have "drop n bs = drop m bs" by (simp add: n_def min_def)
    then have "take (length bs - n) (drop (off + n) (ram c b)) = drop m bs"
      using drop_take [of n "length bs" "drop off (ram c b)"] b(3) by (simp add: add.commute)
    ultimately show ?thesis using assms(1) rem b(2) e(1)
      by (auto simp: sending_def in_endpoint_def put_ep_def n_def)
  qed
  ultimately show ?thesis using m(7) by blast
qed

lemma set_word:
  assumes "in_endpoint e p m c" "ep_buf_ctrl c e AND 0x400 = 0"
  shows "hw_endpoint_buffer_control_set_value32 (hw_endpoints c e) w (put_ep_ctrl (hw_endpoints c e) v c) =
    Inr (c\<lparr>ep_ctrl := (ep_ctrl c)(e := v), ep_buf_ctrl := (ep_buf_ctrl c)(e := w)\<rparr>)"
  using assms
  by (simp add: hw_endpoint_buffer_control_set_value32_def hw_endpoint_buffer_control_update32_def Let_def in_endpoint_def
      hw_endpoint_buffer_control_get_value32_def read_ptr_def put_buf_ctrl_def put_ep_ctrl_def usb_bits)

text \<open>What \<open>sending\<close> needs of the words of the endpoint is where its buffer is.\<close>

lemma sending_words:
  assumes "sending e p m bs pid t c" "unat (v AND 0xFFC0) = p"
  shows "sending e p m bs pid t (c\<lparr>ep_ctrl := (ep_ctrl c)(e := v), ep_buf_ctrl := (ep_buf_ctrl c)(e := w)\<rparr>)"
  using assms by (auto simp: sending_def in_endpoint_def)

definition single_ctrl :: "u32 \<Rightarrow> u32" where
  "single_ctrl v = (v AND NOT (EP_CTRL_DOUBLE_BUFFERED_BITS OR EP_CTRL_INTERRUPT_PER_DOUBLE_BUFFER)) OR EP_CTRL_INTERRUPT_PER_BUFFER"

definition double_ctrl :: "u32 \<Rightarrow> u32" where
  "double_ctrl v = (v AND NOT EP_CTRL_INTERRUPT_PER_BUFFER) OR (EP_CTRL_DOUBLE_BUFFERED_BITS OR EP_CTRL_INTERRUPT_PER_DOUBLE_BUFFER)"

lemma ctrl_words:
  "single_ctrl v AND 0xFFC0 = v AND 0xFFC0" "double_ctrl v AND 0xFFC0 = v AND 0xFFC0"
  "single_ctrl v AND EP_CTRL_DOUBLE_BUFFERED_BITS = 0" "double_ctrl v AND EP_CTRL_DOUBLE_BUFFERED_BITS \<noteq> 0"
  by (simp_all add: single_ctrl_def double_ctrl_def usb_bits bit.conj_disj_distrib2 and.assoc)

lemma start_single:
  assumes "sending e p m bs pid t c" "length bs \<le> m" "ep_buf_ctrl c e AND 0x400 = 0"
  shows "\<exists>c1. hw_endpoint_start_next_buffer e c =
      Inr (c1\<lparr>ep_ctrl := (ep_ctrl c1)(e := single_ctrl (ep_ctrl c1 e)),
        ep_buf_ctrl := (ep_buf_ctrl c1)(e := buffer_word (of_nat (length bs)) pid True True OR 0x1000)\<rparr>) \<and>
    sending e p m [] (pid XOR 1) t c1 \<and> get_dpram p (length bs) c1 = bs"
proof -
  from prepare_in [OF assms(1), of 0] assms(2) obtain ep c1 where c1:
    "prepare_ep_buffer e 0 c = Inr (buffer_word (of_nat (length bs)) pid True True, c1)"
    "c1 = put_ep e ep (c\<lparr>dpram := overlay p bs (dpram c)\<rparr>)" "sending e p m [] (pid XOR 1) t c1"
    by (auto simp: min_absorb1)
  have i: "in_endpoint e p m c1" "remaining_len (hw_endpoints c1 e) = 0" using c1(3) by (simp_all add: sending_def word_unat_eq_iff)
  have b: "ep_buf_ctrl c1 e AND 0x400 = 0" "ep_ctrl c1 = ep_ctrl c" "get_dpram p (length bs) c1 = bs"
    using assms(3) by (simp_all add: c1(2) put_ep_def get_dpram_def read_overlay)
  have "get_ep_ctrl (hw_endpoints c e) c = ep_ctrl c1 e"
    using assms(1) b(2) by (simp add: get_ep_ctrl_def read_ptr_def sending_def in_endpoint_def)
  then have "hw_endpoint_start_next_buffer e c =
      Inr (c1\<lparr>ep_ctrl := (ep_ctrl c1)(e := single_ctrl (ep_ctrl c1 e)),
        ep_buf_ctrl := (ep_buf_ctrl c1)(e := buffer_word (of_nat (length bs)) pid True True OR 0x1000)\<rparr>)"
    using i(2) set_word [OF i(1) b(1)] c1(1)
    by (simp add: hw_endpoint_start_next_buffer_def Let_def single_ctrl_def USB_BUF_CTRL_SEL_def)
  then show ?thesis using c1(3) b(3) by blast
qed

lemma start_double:
  assumes "sending e p m bs pid t c" "m < length bs" "ep_buf_ctrl c e AND 0x400 = 0"
  shows "\<exists>c1. hw_endpoint_start_next_buffer e c =
      Inr (c1\<lparr>ep_ctrl := (ep_ctrl c1)(e := double_ctrl (ep_ctrl c1 e)),
        ep_buf_ctrl := (ep_buf_ctrl c1)(e := buffer_word (of_nat m) pid True False OR 0x1000 OR
          push_bit 16 (buffer_word (of_nat (min (length bs - m) m)) (pid XOR 1) True (length bs \<le> 2 * m)))\<rparr>) \<and>
    sending e p m (drop (2 * m) bs) pid t c1 \<and> get_dpram p m c1 = take m bs \<and>
    get_dpram (p + 64) (min (length bs - m) m) c1 = take m (drop m bs)"
proof -
  have m: "m \<le> 64" using assms(1) by (simp add: sending_def in_endpoint_def)
  from prepare_in [OF assms(1), of 0] assms(2) obtain ep c1 where c1:
    "prepare_ep_buffer e 0 c = Inr (buffer_word (of_nat m) pid True False, c1)"
    "c1 = put_ep e ep (c\<lparr>dpram := overlay p (take m bs) (dpram c)\<rparr>)" "sending e p m (drop m bs) (pid XOR 1) t c1"
    by (auto simp: min_absorb2)
  from prepare_in [OF c1(3), of 1] obtain ep' c2 where c2:
    "prepare_ep_buffer e 1 c1 = Inr (push_bit 16 (buffer_word (of_nat (min (length bs - m) m)) (pid XOR 1) True (length bs \<le> 2 * m)), c2)"
    "c2 = put_ep e ep' (c1\<lparr>dpram := overlay (p + 64) (take m (drop m bs)) (dpram c1)\<rparr>)"
    "sending e p m (drop (2 * m) bs) pid t c2"
    by (auto simp: xor.assoc le_diff_conv mult_2)
  have i: "in_endpoint e p m c2" "remaining_len (hw_endpoints c1 e) \<noteq> 0"
    "tu_edpt_dir (hw_ep_addr (hw_endpoints c1 e)) = TUSB_DIR_IN"
    using c2(3) c1(3) assms(2) by (auto simp: sending_def in_endpoint_def)
  have b: "ep_buf_ctrl c2 e AND 0x400 = 0" "ep_ctrl c2 = ep_ctrl c" "get_dpram p m c2 = take m bs"
    "get_dpram (p + 64) (min (length bs - m) m) c2 = take m (drop m bs)"
    using assms(2,3) m by (simp_all add: c2(2) c1(2) put_ep_def get_dpram_def read_overlay read_below_overlay)
  have g: "get_ep_ctrl (hw_endpoints c e) c = ep_ctrl c2 e"
    using assms(1) b(2) by (simp add: get_ep_ctrl_def read_ptr_def sending_def in_endpoint_def)
  have "hw_endpoint_start_next_buffer e c =
      Inr (c2\<lparr>ep_ctrl := (ep_ctrl c2)(e := double_ctrl (ep_ctrl c2 e)),
        ep_buf_ctrl := (ep_buf_ctrl c2)(e := buffer_word (of_nat m) pid True False OR 0x1000 OR
          push_bit 16 (buffer_word (of_nat (min (length bs - m) m)) (pid XOR 1) True (length bs \<le> 2 * m)))\<rparr>)"
    using i(2,3) set_word [OF i(1) b(1)] c1(1) c2(1) g
    by (simp add: hw_endpoint_start_next_buffer_def Let_def double_ctrl_def USB_BUF_CTRL_SEL_def or.assoc)
  then show ?thesis using c2(3) b(3,4) by blast
qed

text \<open>One round: the host takes what is ready, the driver accounts for it.\<close>

lemma sync_in:
  assumes "in_endpoint e p m c" "unat n \<le> m"
    and "(if k = 0 then ep_buf_ctrl c e else drop_bit 16 (ep_buf_ctrl c e)) AND 0x3FF = ucast n"
  shows "sync_ep_buffer e k c = Inr (n, put_ep e ((hw_endpoints c e)\<lparr>xferred_len := xferred_len (hw_endpoints c e) + n,
    remaining_len := (if unat n < m then 0 else remaining_len (hw_endpoints c e))\<rparr>) c)"
proof -
  have "unat n < 2 ^ 32" using assms(1,2) by (auto simp: in_endpoint_def)
  then have "ucast (ucast n :: u32) = n"
    by (intro word_unat_eq_iff [THEN iffD2]) (simp add: unsigned_ucast_eq unsigned_take_bit_eq take_bit_nat_eq_self)
  then show ?thesis using assms
    by (auto simp: sync_ep_buffer_def Let_def in_endpoint_def hw_endpoint_buffer_control_get_value32_def read_ptr_def
      usb_bits word_less_nat_alt)
qed

lemma host_takes_one:
  assumes "in_endpoint e p m c" "ep_ctrl c e AND EP_CTRL_DOUBLE_BUFFERED_BITS = 0"
    "ep_buf_ctrl c e = buffer_word n pid full fin OR 0x1000" "unat n < 1024"
  shows "host_takes e c = ([(pid \<noteq> 0, get_dpram p (unat n) c)],
    c\<lparr>ep_buf_ctrl := (ep_buf_ctrl c)(e := released (ep_buf_ctrl c e))\<rparr>)"
  using single_word [OF assms(4), of pid full fin] assms(1-4)
  by (simp add: host_takes_def Let_def double_buffered_def buffer_at_def packet_at_def in_endpoint_def unsigned_ucast_eq
      take_bit_nat_eq_self)

lemma host_takes_two:
  assumes "in_endpoint e p m c" "ep_ctrl c e AND EP_CTRL_DOUBLE_BUFFERED_BITS \<noteq> 0"
    "ep_buf_ctrl c e = buffer_word n pid full fin OR 0x1000 OR push_bit 16 (buffer_word n' pid' full' fin')"
    "unat n < 1024" "unat n' < 1024"
  shows "host_takes e c = ([(pid \<noteq> 0, get_dpram p (unat n) c), (pid' \<noteq> 0, get_dpram (p + 64) (unat n') c)],
    c\<lparr>ep_buf_ctrl := (ep_buf_ctrl c)(e := released (ep_buf_ctrl c e))\<rparr>)"
  using double_word [OF assms(4,5,3)] assms(1-5)
  by (simp add: host_takes_def Let_def double_buffered_def buffer_at_def packet_at_def in_endpoint_def unsigned_ucast_eq
      take_bit_nat_eq_self)

lemma single_round:
  assumes "sending e p m bs pid t c" "length bs \<le> m" "ep_buf_ctrl c e AND 0x400 = 0"
  shows "\<exists>c1 c2. hw_endpoint_start_next_buffer e c = Inr c1 \<and> ep_buf_ctrl c1 e AND 0x400 \<noteq> 0 \<and>
    hw_endpoint_xfer_continue e (snd (host_takes e c1)) = Inr (True, c2) \<and>
    fst (host_takes e c1) = [(pid \<noteq> 0, bs)] \<and> unat (xferred_len (hw_endpoints c2 e)) = t + length bs"
proof -
  obtain c0 where c0: "hw_endpoint_start_next_buffer e c =
      Inr (c0\<lparr>ep_ctrl := (ep_ctrl c0)(e := single_ctrl (ep_ctrl c0 e)),
        ep_buf_ctrl := (ep_buf_ctrl c0)(e := buffer_word (of_nat (length bs)) pid True True OR 0x1000)\<rparr>)"
    "sending e p m [] (pid XOR 1) t c0" "get_dpram p (length bs) c0 = bs"
    using start_single [OF assms] by blast
  let ?n = "of_nat (length bs) :: u16"
  define c1 where "c1 = c0\<lparr>ep_ctrl := (ep_ctrl c0)(e := single_ctrl (ep_ctrl c0 e)),
        ep_buf_ctrl := (ep_buf_ctrl c0)(e := buffer_word ?n pid True True OR 0x1000)\<rparr>"
  have m: "m \<le> 64" "unat (ep_ctrl c0 e AND 0xFFC0) = p" using c0(2) by (simp_all add: sending_def in_endpoint_def)
  then have n: "unat ?n = length bs" "unat ?n < 1024" using assms(2) by (simp_all add: unat_of_nat)
  have s: "sending e p m [] (pid XOR 1) t c1"
    unfolding c1_def by (rule sending_words [OF c0(2)]) (simp add: ctrl_words m)
  let ?c = "c1\<lparr>ep_buf_ctrl := (ep_buf_ctrl c1)(e := released (ep_buf_ctrl c1 e))\<rparr>"
  have h: "host_takes e c1 = ([(pid \<noteq> 0, bs)], ?c)"
    using host_takes_one [of e p m c1 ?n pid True True] s n c0(3)
    by (simp add: sending_def c1_def ctrl_words get_dpram_def)
  have i: "in_endpoint e p m ?c" using s by (auto simp: sending_def in_endpoint_def)
  have "sync_ep_buffer e 0 ?c = Inr (?n, put_ep e ((hw_endpoints c1 e)\<lparr>xferred_len := xferred_len (hw_endpoints c1 e) + ?n,
    remaining_len := (if unat ?n < m then 0 else remaining_len (hw_endpoints c1 e))\<rparr>) ?c)" (is "_ = Inr (_, ?d)")
    using sync_in [OF i, of ?n 0] n assms(2) single_word(3) [OF n(2)] by (simp add: c1_def)
  moreover have "get_ep_ctrl (hw_endpoints ?d e) ?d AND EP_CTRL_DOUBLE_BUFFERED_BITS = 0"
    using i by (simp add: get_ep_ctrl_def read_ptr_def put_ep_def in_endpoint_def c1_def ctrl_words)
  ultimately have "hw_endpoint_xfer_sync e ?c = Inr ?d" by (simp add: hw_endpoint_xfer_sync_def)
  moreover have "remaining_len (hw_endpoints ?d e) = 0" using s by (simp add: put_ep_def sending_def word_unat_eq_iff)
  moreover have "active (hw_endpoints c1 e)" using s by (simp add: sending_def)
  ultimately have r: "hw_endpoint_xfer_continue e ?c = Inr (True, ?d)" by (simp add: hw_endpoint_xfer_continue_def)
  have t: "unat (xferred_len (hw_endpoints c1 e)) = t" "t + length bs < 2 ^ 16"
    using s assms(1) by (simp_all add: sending_def)
  have "unat (xferred_len (hw_endpoints ?d e)) = t + length bs" using t n by (simp add: put_ep_def u16_add)
  moreover have "ep_buf_ctrl c1 e AND 0x400 \<noteq> 0" using single_word(2) [OF n(2)] by (simp add: c1_def)
  ultimately show ?thesis using c0(1) r h by (auto simp: c1_def)
qed

lemma double_round:
  assumes "sending e p m bs pid t c" "m < length bs" "ep_buf_ctrl c e AND 0x400 = 0"
  shows "\<exists>c1 c2. hw_endpoint_start_next_buffer e c = Inr c1 \<and> ep_buf_ctrl c1 e AND 0x400 \<noteq> 0 \<and>
    hw_endpoint_xfer_sync e (snd (host_takes e c1)) = Inr c2 \<and> active (hw_endpoints (snd (host_takes e c1)) e) \<and>
    fst (host_takes e c1) = [(pid \<noteq> 0, take m bs), (pid = 0, take m (drop m bs))] \<and>
    sending e p m (drop (2 * m) bs) pid (t + min (length bs) (2 * m)) c2 \<and> ep_buf_ctrl c2 e AND 0x400 = 0"
proof -
  let ?n = "of_nat m :: u16" and ?k = "min (length bs - m) m"
  let ?n' = "of_nat ?k :: u16"
  define w where "w = buffer_word ?n pid True False OR 0x1000 OR
    push_bit 16 (buffer_word ?n' (pid XOR 1) True (length bs \<le> 2 * m))"
  obtain c0 where c0: "hw_endpoint_start_next_buffer e c =
      Inr (c0\<lparr>ep_ctrl := (ep_ctrl c0)(e := double_ctrl (ep_ctrl c0 e)), ep_buf_ctrl := (ep_buf_ctrl c0)(e := w)\<rparr>)"
    "sending e p m (drop (2 * m) bs) pid t c0" "get_dpram p m c0 = take m bs"
    "get_dpram (p + 64) ?k c0 = take m (drop m bs)"
    using start_double [OF assms] unfolding w_def by blast
  define c1 where "c1 = c0\<lparr>ep_ctrl := (ep_ctrl c0)(e := double_ctrl (ep_ctrl c0 e)), ep_buf_ctrl := (ep_buf_ctrl c0)(e := w)\<rparr>"
  have m: "m \<le> 64" "unat (ep_ctrl c0 e AND 0xFFC0) = p" "pid \<in> {0, 1}"
    using c0(2) by (auto simp: sending_def in_endpoint_def)
  then have n: "unat ?n = m" "unat ?n' = ?k" "unat ?n < 1024" "unat ?n' < 1024" by (simp_all add: unat_of_nat)
  note dw = double_word [OF n(3,4) w_def]
  have s: "sending e p m (drop (2 * m) bs) pid t c1"
    unfolding c1_def by (rule sending_words [OF c0(2)]) (simp add: ctrl_words m)
  let ?c = "c1\<lparr>ep_buf_ctrl := (ep_buf_ctrl c1)(e := released (ep_buf_ctrl c1 e))\<rparr>"
  have "((pid XOR 1) \<noteq> 0) = (pid = 0)" using m(3) by auto
  then have h: "host_takes e c1 = ([(pid \<noteq> 0, take m bs), (pid = 0, take m (drop m bs))], ?c)"
    using host_takes_two [of e p m c1 ?n pid True False ?n' "pid XOR 1" True "length bs \<le> 2 * m"] s n c0(3,4)
    by (simp add: sending_def c1_def ctrl_words get_dpram_def flip: w_def)
  have i: "in_endpoint e p m ?c" using s by (auto simp: sending_def in_endpoint_def)
  let ?x = "xferred_len (hw_endpoints c1 e)"
  have y1: "sync_ep_buffer e 0 ?c = Inr (?n, put_ep e ((hw_endpoints c1 e)\<lparr>xferred_len := ?x + ?n\<rparr>) ?c)"
    (is "_ = Inr (_, ?d)") using sync_in [OF i, of ?n 0] n dw(7) by (simp add: c1_def)
  have i1: "in_endpoint e p m ?d" using i by (simp add: put_ep_def in_endpoint_def)
  have y2: "sync_ep_buffer e 1 ?d = Inr (?n', put_ep e ((hw_endpoints c1 e)\<lparr>xferred_len := ?x + ?n + ?n',
    remaining_len := (if ?k < m then 0 else remaining_len (hw_endpoints c1 e))\<rparr>) ?c)" (is "_ = Inr (_, ?d')")
    using sync_in [OF i1, of ?n' 1] n dw(9) by (simp add: c1_def put_ep_def)
  have "get_ep_ctrl (hw_endpoints ?d e) ?d AND EP_CTRL_DOUBLE_BUFFERED_BITS \<noteq> 0"
    using i by (simp add: get_ep_ctrl_def read_ptr_def put_ep_def in_endpoint_def c1_def ctrl_words)
  moreover have "?n = wMaxPacketSize (hw_endpoints ?d e)" using i n(1) by (simp add: put_ep_def in_endpoint_def word_unat_eq_iff)
  ultimately have y: "hw_endpoint_xfer_sync e ?c = Inr ?d'" using y1 y2 by (simp add: hw_endpoint_xfer_sync_def)
  have t: "unat ?x = t" "t + length bs < 2 ^ 16" using s assms(1) by (simp_all add: sending_def)
  have "unat (?x + ?n + ?n') = t + min (length bs) (2 * m)" using t n assms(2)
    by (auto simp: u16_add min_def)
  moreover have "?k < m \<Longrightarrow> drop (2 * m) bs = []" by simp
  ultimately have "sending e p m (drop (2 * m) bs) pid (t + min (length bs) (2 * m)) ?d'"
    using s t(2) by (auto simp: sending_def in_endpoint_def put_ep_def)
  moreover have "ep_buf_ctrl ?d' e AND 0x400 = 0" using dw(8) by (simp add: put_ep_def c1_def)
  moreover have "ep_buf_ctrl c1 e AND 0x400 \<noteq> 0" using dw(2) by (simp add: c1_def)
  moreover have "active (hw_endpoints c1 e)" using s by (simp add: sending_def)
  ultimately show ?thesis using c0(1) h y by (auto simp: c1_def)
qed

text \<open>The packets of a transfer, and their toggles.\<close>

function packets :: "nat \<Rightarrow> u8 list \<Rightarrow> u8 list list" where
  "packets m bs = (if m = 0 \<or> length bs \<le> m then [bs] else take m bs # packets m (drop m bs))"
  by pat_completeness auto
termination
  by (relation "measure (\<lambda>(m, bs). length bs)") auto

declare packets.simps [simp del]

fun toggled :: "bool \<Rightarrow> u8 list list \<Rightarrow> packet list" where
  "toggled b [] = []"
| "toggled b (x # xs) = (b, x) # toggled (\<not> b) xs"

lemma concat_packets: "concat (packets m bs) = bs"
  by (induction m bs rule: packets.induct) (subst packets.simps, simp)

lemma packet_sizes: "m > 0 \<Longrightarrow> x \<in> set (packets m bs) \<Longrightarrow> length x \<le> m"
  by (induction m bs rule: packets.induct) (subst (asm) packets.simps, auto split: if_splits)

lemma packets_run:
  assumes "sending e p m bs pid t c" "ep_buf_ctrl c e AND 0x400 = 0" "length bs < n"
  shows "\<exists>c'. rbind (hw_endpoint_start_next_buffer e c) (in_packets n e) = Inr (toggled (pid \<noteq> 0) (packets m bs), c') \<and>
    unat (xferred_len (hw_endpoints c' e)) = t + length bs"
  using assms
proof (induction n arbitrary: bs t c)
  case (Suc n)
  have m: "0 < m" using Suc.prems(1) by (simp add: sending_def in_endpoint_def)
  show ?case
  proof (cases "length bs \<le> m")
    case True
    obtain c1 c2 where "hw_endpoint_start_next_buffer e c = Inr c1" "ep_buf_ctrl c1 e AND 0x400 \<noteq> 0"
      "hw_endpoint_xfer_continue e (snd (host_takes e c1)) = Inr (True, c2)"
      "fst (host_takes e c1) = [(pid \<noteq> 0, bs)]" "unat (xferred_len (hw_endpoints c2 e)) = t + length bs"
      using single_round [OF Suc.prems(1) True Suc.prems(2)] by blast
    then show ?thesis using True
      by (subst packets.simps) (auto simp: USB_BUF_CTRL_AVAIL_def split: prod.split)
  next
    case False
    then have "m < length bs" by simp
    from double_round [OF Suc.prems(1) this Suc.prems(2)] obtain c1 c2 where r:
      "hw_endpoint_start_next_buffer e c = Inr c1" "ep_buf_ctrl c1 e AND 0x400 \<noteq> 0"
      "hw_endpoint_xfer_sync e (snd (host_takes e c1)) = Inr c2" "active (hw_endpoints (snd (host_takes e c1)) e)"
      "fst (host_takes e c1) = [(pid \<noteq> 0, take m bs), (pid = 0, take m (drop m bs))]"
      "sending e p m (drop (2 * m) bs) pid (t + min (length bs) (2 * m)) c2" "ep_buf_ctrl c2 e AND 0x400 = 0"
      by blast
    have rem: "unat (remaining_len (hw_endpoints c2 e)) = length bs - 2 * m" using r(6) by (simp add: sending_def)
    show ?thesis
    proof (cases "length bs \<le> 2 * m")
      case True
      then have "hw_endpoint_xfer_continue e (snd (host_takes e c1)) = Inr (True, c2)"
        using r(3,4) rem by (simp add: hw_endpoint_xfer_continue_def word_unat_eq_iff)
      moreover have "packets m bs = [take m bs, take m (drop m bs)]"
        using False True m by (subst packets.simps, subst packets.simps) auto
      moreover have "unat (xferred_len (hw_endpoints c2 e)) = t + length bs"
        using r(6) True by (simp add: sending_def min_absorb1)
      ultimately show ?thesis using r(1,2,5) by (auto simp: USB_BUF_CTRL_AVAIL_def split: prod.split)
    next
      case long: False
      then have "hw_endpoint_xfer_continue e (snd (host_takes e c1)) =
          rbind (hw_endpoint_start_next_buffer e c2) (\<lambda>c. Inr (False, c))"
        using r(3,4) rem by (auto simp: hw_endpoint_xfer_continue_def word_unat_eq_iff)
      moreover have "length (drop (2 * m) bs) < n" using Suc.prems(3) long m by simp
      from Suc.IH [OF r(6,7) this] obtain c' where
        "rbind (hw_endpoint_start_next_buffer e c2) (in_packets n e) =
          Inr (toggled (pid \<noteq> 0) (packets m (drop (2 * m) bs)), c')"
        "unat (xferred_len (hw_endpoints c' e)) = t + length bs"
        using long by auto
      moreover have "packets m bs = take m bs # take m (drop m bs) # packets m (drop (2 * m) bs)"
        using False long m by (subst packets.simps, subst packets.simps) (auto simp: mult_2)
      ultimately show ?thesis using r(1,2,5)
        by (auto simp: USB_BUF_CTRL_AVAIL_def split: prod.split elim!: rbind_eq_InrE)
    qed
  qed
qed simp

end
