(* ===== verification/Usb_Transfers.thy ===== *)
theory Usb_Transfers
  imports Usb_Packets
begin

text \<open>
  Whole transfers on an endpoint that has been opened: to the host, and from it.
\<close>

section \<open>Opening an endpoint\<close>

lemma buffer_offset:
  assumes "p mod 64 = 0" "p < 4096"
  shows "unat ((EP_CTRL_ENABLE_BITS OR push_bit 26 x OR of_nat p) AND 0xFFC0 :: u32) = p"
proof -
  obtain q where q: "p = 64 * q" "q < 64" using assms by auto
  have m: "(0xFFC0 :: u32) = push_bit 6 (mask 10)" by (simp add: mask_eq_exp_minus_1 push_bit_eq_mult)
  have "(of_nat p :: u32) = push_bit 6 (of_nat q)" by (simp add: q(1) push_bit_eq_mult)
  then have "(of_nat p :: u32) AND 0xFFC0 = push_bit 6 (take_bit 10 (of_nat q))"
    unfolding m by (simp add: take_bit_eq_mask flip: push_bit_and)
  also have "take_bit 10 (of_nat q :: u32) = of_nat q"
    using q(2) by (intro word_unat_eq_iff [THEN iffD2]) (simp add: unsigned_take_bit_eq unat_of_nat take_bit_nat_eq_self)
  finally have "(of_nat p :: u32) AND 0xFFC0 = of_nat p" by (simp add: q(1) push_bit_eq_mult)
  moreover have "push_bit 26 x AND 0xFFC0 = 0"
    unfolding m by (rule bit_eqI) (auto simp: bit_simps)
  ultimately show ?thesis using assms(2) by (simp add: bit.conj_disj_distrib2 EP_CTRL_ENABLE_BITS_def unat_of_nat)
qed

definition endpoint_of :: "u8 \<Rightarrow> ep_id" where
  "endpoint_of addr = (unat (tu_edpt_number addr), tu_edpt_dir addr)"

lemma get_by_addr:
  "unat (tu_edpt_number addr) < 16 \<Longrightarrow> hw_endpoint_get_by_addr addr = Inr (endpoint_of addr)"
  by (simp add: hw_endpoint_get_by_addr_def hw_endpoint_get_by_num_def USB_MAX_ENDPOINTS_def endpoint_of_def)

text \<open>The state after an endpoint other than zero has been opened; \<open>p\<close> is its part of the memory.\<close>

lemma opened:
  assumes "0 < unat (tu_edpt_number addr)" "unat (tu_edpt_number addr) < 16"
    and "dcd_edpt_open addr mps kind c = Inr (ok, c')"
  defines "e \<equiv> endpoint_of addr" and "p \<equiv> next_buffer_ptr c"
  shows "ok" "hw_endpoints c' e = (hw_endpoints c e)\<lparr>hw_ep_addr := addr, rx := (tu_edpt_dir addr = TUSB_DIR_OUT),
      next_pid := 0, wMaxPacketSize := mps, transfer_type := kind, buffer_control := Some e,
      endpoint_control := Some e, hw_data_buf := Some p\<rparr>"
    "ep_ctrl c' e = EP_CTRL_ENABLE_BITS OR push_bit 26 (ucast kind) OR of_nat p" "ep_buf_ctrl c' e = 0"
    "ram c' = ram c" "fst e \<noteq> 0" "main_ctrl c' = main_ctrl c"
proof -
  have "tu_edpt_number addr \<noteq> 0" using assms(1) by auto
  then show "ok" "hw_endpoints c' e = (hw_endpoints c e)\<lparr>hw_ep_addr := addr, rx := (tu_edpt_dir addr = TUSB_DIR_OUT),
      next_pid := 0, wMaxPacketSize := mps, transfer_type := kind, buffer_control := Some e,
      endpoint_control := Some e, hw_data_buf := Some p\<rparr>"
    "ep_ctrl c' e = EP_CTRL_ENABLE_BITS OR push_bit 26 (ucast kind) OR of_nat p" "ep_buf_ctrl c' e = 0"
    "ram c' = ram c" "fst e \<noteq> 0" "main_ctrl c' = main_ctrl c"
    using assms(3) get_by_addr [OF assms(2)] assms(1)
    by (auto simp: dcd_edpt_open_def hw_endpoint_init_def Let_def hw_endpoint_alloc_def put_ep_def put_ep_ctrl_def
        put_buf_ctrl_def e_def p_def endpoint_of_def)
qed

lemma open_in:
  assumes "0 < unat (tu_edpt_number addr)" "unat (tu_edpt_number addr) < 16" "tu_edpt_dir addr = TUSB_DIR_IN"
    and "0 < unat mps" "unat mps \<le> 64" "next_buffer_ptr c mod 64 = 0" "next_buffer_ptr c + 128 \<le> 4096"
    and "dcd_edpt_open addr mps kind c = Inr (ok, c')"
  shows "in_endpoint (endpoint_of addr) (next_buffer_ptr c) (unat mps) c'" "ep_buf_ctrl c' (endpoint_of addr) = 0"
  using opened [OF assms(1,2,8)] assms(3-7) buffer_offset [OF assms(6)] by (simp_all add: in_endpoint_def)

lemma start_in:
  assumes "in_endpoint e p m c" "off + unat n \<le> length (ram c b)"
  obtains c1 where "hw_endpoint_xfer_start e (Some (b, off)) n c = hw_endpoint_start_next_buffer e c1"
    "sending e p m (take (unat n) (drop off (ram c b))) (next_pid (hw_endpoints c e)) 0 c1"
    "ep_buf_ctrl c1 = ep_buf_ctrl c"
proof
  let ?c = "if active (hw_endpoints c e) then hw_endpoint_reset_transfer e c else c"
  let ?c1 = "put_ep e ((hw_endpoints ?c e)\<lparr>remaining_len := n, xferred_len := 0, active := True,
      user_buf := Some (b, off)\<rparr>) ?c"
  show "hw_endpoint_xfer_start e (Some (b, off)) n c = hw_endpoint_start_next_buffer e ?c1"
    by (simp add: hw_endpoint_xfer_start_def Let_def)
  have "unat n < 2 ^ LENGTH(16)" by (rule unsigned_less)
  then show "sending e p m (take (unat n) (drop off (ram c b))) (next_pid (hw_endpoints c e)) 0 ?c1"
    using assms by (simp add: sending_def in_endpoint_def put_ep_def hw_endpoint_reset_transfer_def min_absorb2)
  show "ep_buf_ctrl ?c1 = ep_buf_ctrl c" by (simp add: put_ep_def hw_endpoint_reset_transfer_def)
qed

text \<open>
  C35: A transfer to the host sends the buffer as it was given: on an endpoint that has just been opened with
  packets of up to 64 bytes, \<open>n\<close> bytes go out in full packets and one that holds the rest, their
  toggles alternate from DATA0, and when the controller has sent the last one the driver reports \<open>n\<close> bytes.
  A transfer of no bytes is an empty packet.
\<close>

theorem transfer_in_packets:
  assumes "0 < unat (tu_edpt_number addr)" "unat (tu_edpt_number addr) < 16" "tu_edpt_dir addr = TUSB_DIR_IN"
    and "0 < unat mps" "unat mps \<le> 64" "next_buffer_ptr c0 mod 64 = 0" "next_buffer_ptr c0 + 128 \<le> 4096"
    and "dcd_edpt_open addr mps kind c0 = Inr (True, c)" "off + unat n \<le> length (ram c b)" "unat n < k"
  shows "\<exists>c'. rbind (dcd_edpt_xfer addr (Some (b, off)) n c) (\<lambda>(_, c1). in_packets k (endpoint_of addr) c1) =
      Inr (toggled False (packets (unat mps) (take (unat n) (drop off (ram c b)))), c') \<and>
    xferred_len (hw_endpoints c' (endpoint_of addr)) = n"
proof -
  let ?e = "endpoint_of addr"
  note i = open_in [OF assms(1-8)]
  have pid: "next_pid (hw_endpoints c ?e) = 0" using opened [OF assms(1,2,8)] by simp
  obtain c1 where c1: "hw_endpoint_xfer_start ?e (Some (b, off)) n c = hw_endpoint_start_next_buffer ?e c1"
    "sending ?e (next_buffer_ptr c0) (unat mps) (take (unat n) (drop off (ram c b))) 0 0 c1"
    "ep_buf_ctrl c1 = ep_buf_ctrl c" using start_in [OF i(1) assms(9)] pid by metis
  have "length (take (unat n) (drop off (ram c b))) = unat n" using assms(9) by simp
  with packets_run [OF c1(2), of k] assms(10) c1(3) i(2) show ?thesis
    by (auto simp: dcd_edpt_xfer_def hw_endpoint_xfer_def get_by_addr [OF assms(2)] c1(1) rbind_assoc word_unat_eq_iff)
qed

theorem transfer_in_packets_witness:
  "\<forall>c :: usb_ctl. let c0 = c\<lparr>next_buffer_ptr := 0x180, ram := (\<lambda>_. replicate 64 7)\<rparr>
     in \<exists>c1 c'. dcd_edpt_open 0x82 64 2 c0 = Inr (True, c1) \<and>
        rbind (dcd_edpt_xfer 0x82 (Some (Epin_Buf, 1)) 3 c1) (\<lambda>(_, c2). in_packets 4 (endpoint_of 0x82) c2) =
          Inr ([(False, [7, 7, 7])], c')"
proof
  fix c :: usb_ctl
  define c0 where "c0 = c\<lparr>next_buffer_ptr := 0x180, ram := (\<lambda>_. replicate 64 7)\<rparr>"
  have a: "unat (tu_edpt_number 0x82) = 2" "tu_edpt_dir 0x82 = TUSB_DIR_IN" by (simp_all add: tu_edpt_number_def tu_edpt_dir_def)
  obtain c1 where o: "dcd_edpt_open 0x82 64 2 c0 = Inr (True, c1)"
    using get_by_addr [where addr = "0x82"] a by (simp add: dcd_edpt_open_def hw_endpoint_init_def Let_def)
  have three: "replicate 3 (7 :: u8) = [7, 7, 7]" by (simp add: numeral_3_eq_3)
  have r: "ram c1 = ram c0" using opened(5) [OF _ _ o] a by simp
  have "\<exists>c'. rbind (dcd_edpt_xfer 0x82 (Some (Epin_Buf, 1)) 3 c1) (\<lambda>(_, c2). in_packets 4 (endpoint_of 0x82) c2) =
          Inr ([(False, [7, 7, 7])], c')"
    using transfer_in_packets [OF _ _ _ _ _ _ _ o, where off = 1 and n = 3 and b = Epin_Buf and k = 4] a r
      packets.simps [of 64 "[7, 7, 7]"] three by (auto simp: c0_def)
  then show "let c0 = c\<lparr>next_buffer_ptr := 0x180, ram := (\<lambda>_. replicate 64 7)\<rparr>
     in \<exists>c1 c'. dcd_edpt_open 0x82 64 2 c0 = Inr (True, c1) \<and>
        rbind (dcd_edpt_xfer 0x82 (Some (Epin_Buf, 1)) 3 c1) (\<lambda>(_, c2). in_packets 4 (endpoint_of 0x82) c2) =
          Inr ([(False, [7, 7, 7])], c')"
    using o unfolding c0_def Let_def by blast
qed

section \<open>Receiving\<close>

definition host_gives :: "ep_id \<Rightarrow> u8 list \<Rightarrow> usb_ctl \<Rightarrow> usb_ctl" where
  "host_gives e d c = c\<lparr>dpram := overlay (buffer_at e c) d (dpram c),
     ep_buf_ctrl := (ep_buf_ctrl c)(e := (ep_buf_ctrl c e AND NOT 0x7FF) OR 0x8000 OR of_nat (length d))\<rparr>"

text \<open>The host sends packets, as long as the driver has a buffer for them.\<close>

fun out_packets :: "ep_id \<Rightarrow> u8 list list \<Rightarrow> usb_ctl \<Rightarrow> fault + (bool \<times> usb_ctl)" where
  "out_packets e [] c = Inr (False, c)"
| "out_packets e (d # ds) c =
     (if ep_buf_ctrl c e AND USB_BUF_CTRL_AVAIL = 0 then Inl Blocked
      else rbind (hw_endpoint_xfer_continue e (host_gives e d c)) (\<lambda>(complete, c1).
        if complete then (if ds = [] then Inr (True, c1) else Inl Blocked) else out_packets e ds c1))"

definition out_endpoint :: "ep_id \<Rightarrow> nat \<Rightarrow> nat \<Rightarrow> usb_ctl \<Rightarrow> bool" where
  "out_endpoint e p m c \<longleftrightarrow> fst e \<noteq> 0 \<and> rx (hw_endpoints c e) \<and> endpoint_control (hw_endpoints c e) = Some e \<and>
     buffer_control (hw_endpoints c e) = Some e \<and> hw_data_buf (hw_endpoints c e) = Some p \<and>
     unat (wMaxPacketSize (hw_endpoints c e)) = m \<and> 0 < m \<and> m \<le> 64 \<and> p + 64 \<le> 4096 \<and>
     unat (ep_ctrl c e AND 0xFFC0) = p \<and> tu_edpt_dir (hw_ep_addr (hw_endpoints c e)) = TUSB_DIR_OUT \<and>
     main_ctrl c AND 2 = 0"

text \<open>\<open>r\<close> bytes are still to come, at \<open>off\<close> of buffer \<open>b\<close>; \<open>t\<close> have come.\<close>

definition receiving :: "ep_id \<Rightarrow> nat \<Rightarrow> nat \<Rightarrow> usb_buf \<Rightarrow> nat \<Rightarrow> nat \<Rightarrow> nat \<Rightarrow> usb_ctl \<Rightarrow> bool" where
  "receiving e p m b off r t c \<longleftrightarrow> out_endpoint e p m c \<and> active (hw_endpoints c e) \<and>
     unat (remaining_len (hw_endpoints c e)) = r \<and> user_buf (hw_endpoints c e) = Some (b, off) \<and>
     unat (xferred_len (hw_endpoints c e)) = t \<and> t + r < 2 ^ 16"

lemma start_out:
  assumes "receiving e p m b off r t c" "ep_buf_ctrl c e AND 0x400 = 0"
  shows "\<exists>c1. hw_endpoint_start_next_buffer e c = Inr c1 \<and> ep_buf_ctrl c1 e AND 0x400 \<noteq> 0 \<and>
    receiving e p m b off (r - min r m) t c1 \<and> ep_ctrl c1 e AND EP_CTRL_DOUBLE_BUFFERED_BITS = 0 \<and> ram c1 = ram c"
proof -
  let ?ep = "hw_endpoints c e"
  have o: "out_endpoint e p m c" "unat (remaining_len ?ep) = r" using assms(1) by (simp_all add: receiving_def)
  then have f: "unat (wMaxPacketSize ?ep) = m" "m \<le> 64" "rx ?ep" "unat (ep_ctrl c e AND 0xFFC0) = p"
    by (simp_all add: out_endpoint_def)
  let ?n = "min (remaining_len ?ep) (wMaxPacketSize ?ep)"
  have n: "unat ?n = min r m" using o(2) f(1) by (auto simp: min_def word_le_nat_alt)
  then have rem: "unat (remaining_len ?ep - ?n) = r - min r m" using o(2) by (simp add: unat_sub word_le_nat_alt)
  let ?w = "buffer_word ?n (next_pid ?ep) False (remaining_len ?ep - ?n = 0) OR 0x1000"
  let ?c0 = "put_ep e (?ep\<lparr>remaining_len := remaining_len ?ep - ?n, next_pid := next_pid ?ep XOR 1\<rparr>) c"
  let ?c1 = "?c0\<lparr>ep_ctrl := (ep_ctrl c)(e := single_ctrl (ep_ctrl c e)), ep_buf_ctrl := (ep_buf_ctrl c)(e := ?w)\<rparr>"
  have "prepare_ep_buffer e 0 c = Inr (buffer_word ?n (next_pid ?ep) False (remaining_len ?ep - ?n = 0), ?c0)"
    using f(3) by (simp add: prepare_ep_buffer_def Let_def buffer_word_def)
  then have "hw_endpoint_start_next_buffer e c = Inr ?c1"
    using o(1) assms(2)
    by (simp add: hw_endpoint_start_next_buffer_def Let_def put_ep_def out_endpoint_def get_ep_ctrl_def read_ptr_def
        put_ep_ctrl_def hw_endpoint_buffer_control_set_value32_def hw_endpoint_buffer_control_update32_def
        hw_endpoint_buffer_control_get_value32_def put_buf_ctrl_def single_ctrl_def usb_bits del: min.absorb1 min.absorb2)
  moreover have "?w AND 0x400 \<noteq> 0" using single_word(2) [of ?n] n f(2) by simp
  moreover have "receiving e p m b off (r - min r m) t ?c1"
    using assms(1) rem f(4) by (auto simp: receiving_def out_endpoint_def put_ep_def ctrl_words)
  ultimately show ?thesis by (intro exI [of _ ?c1]) (simp add: ctrl_words put_ep_def)
qed

definition overwrite :: "nat \<Rightarrow> u8 list \<Rightarrow> u8 list \<Rightarrow> u8 list" where
  "overwrite off bs xs = take off xs @ bs @ drop (off + length bs) xs"

lemma overwrite_Nil [simp]: "overwrite off [] xs = xs"
  by (simp add: overwrite_def)

lemma overwrite_append:
  "off + length (a @ b) \<le> length xs \<Longrightarrow> overwrite (off + length a) b (overwrite off a xs) = overwrite off (a @ b) xs"
  by (simp add: overwrite_def ac_simps)

lemma length_overwrite [simp]: "off + length bs \<le> length xs \<Longrightarrow> length (overwrite off bs xs) = length xs"
  by (simp add: overwrite_def)

lemma given_word:
  assumes "n \<le> 64"
  shows "((v AND NOT 0x7FF) OR 0x8000 OR of_nat n) AND 0x3FF = (of_nat n :: u32)"
    "((v AND NOT 0x7FF) OR 0x8000 OR of_nat n) AND 0x400 = (0 :: u32)"
proof -
  have u: "unat (of_nat n :: u16) = n" using assms by (simp add: unat_of_nat)
  have e: "(ucast (of_nat n :: u16) :: u32) = of_nat n"
    using assms by (intro word_unat_eq_iff [THEN iffD2]) (simp add: unsigned_ucast_eq unat_of_nat take_bit_nat_eq_self)
  have "unat (of_nat n :: u16) < 1024" using u assms by simp
  from len_ands(2,4) [OF this] show
    "((v AND NOT 0x7FF) OR 0x8000 OR of_nat n) AND 0x3FF = (of_nat n :: u32)"
    "((v AND NOT 0x7FF) OR 0x8000 OR of_nat n) AND 0x400 = (0 :: u32)"
    unfolding e by (simp_all add: bit.conj_disj_distrib2 and.assoc)
qed

lemma sync_out:
  assumes "receiving e p m b off r t c" "ep_ctrl c e AND EP_CTRL_DOUBLE_BUFFERED_BITS = 0"
    "length d \<le> m" "off + length d \<le> length (ram c b)" "t + length d + r < 2 ^ 16"
  shows "\<exists>c1. hw_endpoint_xfer_sync e (host_gives e d c) = Inr c1 \<and> active (hw_endpoints (host_gives e d c) e) \<and>
    receiving e p m b (off + length d) (if length d < m then 0 else r) (t + length d) c1 \<and>
    ep_buf_ctrl c1 e AND 0x400 = 0 \<and> ram c1 = (ram c)(b := overwrite off d (ram c b))"
proof -
  let ?h = "host_gives e d c" and ?n = "of_nat (length d) :: u16"
  have o: "out_endpoint e p m c" using assms(1) by (simp add: receiving_def)
  then have f: "fst e \<noteq> 0" "unat (ep_ctrl c e AND 0xFFC0) = p" "m \<le> 64" "p + 64 \<le> 4096" "rx (hw_endpoints c e)"
    "hw_data_buf (hw_endpoints c e) = Some p" "buffer_control (hw_endpoints c e) = Some e"
    "endpoint_control (hw_endpoints c e) = Some e" "unat (wMaxPacketSize (hw_endpoints c e)) = m"
    by (simp_all add: out_endpoint_def)
  have u: "user_buf (hw_endpoints c e) = Some (b, off)" "unat (xferred_len (hw_endpoints c e)) = t"
    "unat (remaining_len (hw_endpoints c e)) = r" using assms(1) by (simp_all add: receiving_def)
  have l: "length d \<le> 64" using assms(3) f(3) by simp
  have n: "unat ?n = length d" using l by (simp add: unat_of_nat)
  note g = given_word [OF l, of "ep_buf_ctrl c e"]
  have h: "ram ?h = ram c" "hw_endpoints ?h = hw_endpoints c" "ep_ctrl ?h = ep_ctrl c" "main_ctrl ?h = main_ctrl c"
    "ep_buf_ctrl ?h e AND 0x3FF = of_nat (length d)" "ep_buf_ctrl ?h e AND 0x400 = 0"
    "get_dpram p (length d) ?h = d"
    using g f(1,2) by (simp_all add: host_gives_def get_dpram_def read_overlay buffer_at_def)
  have nn: "ucast (of_nat (length d) :: u32) = ?n"
    using l by (intro word_unat_eq_iff [THEN iffD2]) (simp add: unsigned_ucast_eq unat_of_nat take_bit_nat_eq_self)
  have "copy_from_dpram (Some (b, off)) (Some p) 0 (length d) ?h =
      Inr (?h\<lparr>ram := (ram c)(b := overwrite off d (ram c b))\<rparr>)"
    using f(4) l assms(4) h(1,7)
    by (cases "d = []") (auto simp: copy_from_dpram_def USB_DPRAM_MAX_def write_bytes_def overwrite_def host_gives_def)
  then have s: "sync_ep_buffer e 0 ?h = Inr (?n, put_ep e ((hw_endpoints c e)\<lparr>xferred_len := xferred_len (hw_endpoints c e) + ?n,
     user_buf := Some (b, off + length d), remaining_len := (if length d < m then 0 else remaining_len (hw_endpoints c e))\<rparr>)
     (?h\<lparr>ram := (ram c)(b := overwrite off d (ram c b))\<rparr>))" (is "_ = Inr (_, ?d)")
    using f u h n by (simp add: sync_ep_buffer_def Let_def hw_endpoint_buffer_control_get_value32_def read_ptr_def
        usb_bits nn advance_buf_def word_less_nat_alt)
  have "get_ep_ctrl (hw_endpoints ?d e) ?d AND EP_CTRL_DOUBLE_BUFFERED_BITS = 0"
    using assms(2) f(8) h(3) by (simp add: get_ep_ctrl_def read_ptr_def put_ep_def)
  then have "hw_endpoint_xfer_sync e ?h = Inr ?d" using s by (simp add: hw_endpoint_xfer_sync_def)
  moreover have "receiving e p m b (off + length d) (if length d < m then 0 else r) (t + length d) ?d"
    using assms(1,5) o h u n by (auto simp: receiving_def out_endpoint_def put_ep_def u16_add)
  moreover have "active (hw_endpoints ?h e)" using assms(1) h(2) by (simp add: receiving_def)
  ultimately show ?thesis using h(6) by (intro exI [of _ ?d]) (simp add: put_ep_def)
qed

text \<open>
  What the host sends is a transfer for a buffer of \<open>r\<close> bytes if it fills the buffer or ends with a packet
  that is not full.
\<close>

definition whole_transfer :: "nat \<Rightarrow> nat \<Rightarrow> u8 list \<Rightarrow> bool" where
  "whole_transfer m r bs \<longleftrightarrow> length bs = r \<or> length bs < r \<and> (bs = [] \<or> \<not> m dvd length bs)"

lemma packets_received:
  assumes "receiving e p m b off r t c" "ep_buf_ctrl c e AND 0x400 = 0"
    and "whole_transfer m r bs" "off + r \<le> length (ram c b)"
  shows "\<exists>c'. rbind (hw_endpoint_start_next_buffer e c) (out_packets e (packets m bs)) = Inr (True, c') \<and>
    ram c' = (ram c)(b := overwrite off bs (ram c b)) \<and> unat (xferred_len (hw_endpoints c' e)) = t + length bs"
  using assms
proof (induction m bs arbitrary: off r t c rule: packets.induct)
  case (1 m bs)
  have m: "0 < m" "t + r < 2 ^ 16" using 1(2) by (simp_all add: receiving_def out_endpoint_def)
  have len: "length bs \<le> r" using 1(4) by (auto simp: whole_transfer_def)
  obtain c1 where c1: "hw_endpoint_start_next_buffer e c = Inr c1" "ep_buf_ctrl c1 e AND 0x400 \<noteq> 0"
    "receiving e p m b off (r - min r m) t c1" "ep_ctrl c1 e AND EP_CTRL_DOUBLE_BUFFERED_BITS = 0" "ram c1 = ram c"
    using start_out [OF 1(2,3)] by blast
  show ?case
  proof (cases "length bs \<le> m")
    case True
    have "t + length bs + (r - min r m) < 2 ^ 16" "off + length bs \<le> length (ram c1 b)"
      using 1(5) len m True c1(5) by (auto simp: min_def)
    then obtain c2 where c2: "hw_endpoint_xfer_sync e (host_gives e bs c1) = Inr c2" "active (hw_endpoints (host_gives e bs c1) e)"
      "receiving e p m b (off + length bs) (if length bs < m then 0 else r - min r m) (t + length bs) c2"
      "ram c2 = (ram c)(b := overwrite off bs (ram c b))"
      using sync_out [OF c1(3,4) True] c1(5) by auto
    have "length bs = m \<Longrightarrow> r = m" using 1(4) m by (auto simp: whole_transfer_def)
    then have "unat (remaining_len (hw_endpoints c2 e)) = 0" using c2(3) True by (auto simp: receiving_def split: if_splits)
    then have "hw_endpoint_xfer_continue e (host_gives e bs c1) = Inr (True, c2)"
      using c2(1,2) by (simp add: hw_endpoint_xfer_continue_def word_unat_eq_iff)
    moreover have "unat (xferred_len (hw_endpoints c2 e)) = t + length bs" using c2(3) by (simp add: receiving_def)
    ultimately show ?thesis using True c1(1,2) c2(4) by (subst packets.simps) (simp add: USB_BUF_CTRL_AVAIL_def)
  next
    case False
    then have l: "length (take m bs) = m" "m < r" using len by simp_all
    then obtain c2 where c2: "hw_endpoint_xfer_sync e (host_gives e (take m bs) c1) = Inr c2"
      "active (hw_endpoints (host_gives e (take m bs) c1) e)" "receiving e p m b (off + m) (r - m) (t + m) c2"
      "ep_buf_ctrl c2 e AND 0x400 = 0" "ram c2 = (ram c)(b := overwrite off (take m bs) (ram c b))"
      using sync_out [OF c1(3,4), of "take m bs"] 1(5) m c1(5) by (auto simp: min_absorb2 less_imp_le)
    have "remaining_len (hw_endpoints c2 e) \<noteq> 0" using c2(3) l(2) by (auto simp: receiving_def)
    then have "hw_endpoint_xfer_continue e (host_gives e (take m bs) c1) =
        rbind (hw_endpoint_start_next_buffer e c2) (\<lambda>c. Inr (False, c))"
      using c2(1,2) by (simp add: hw_endpoint_xfer_continue_def)
    moreover have wt: "whole_transfer m (r - m) (drop m bs)"
      using 1(4) False l(2) by (auto simp: whole_transfer_def dvd_minus_self)
    moreover have le: "off + m + (r - m) \<le> length (ram c2 b)" using 1(5) l by (simp add: c2(5))
    have nt: "\<not> (m = 0 \<or> length bs \<le> m)" using False m by simp
    from 1(1) [OF nt c2(3,4) wt le] obtain c' where
      "rbind (hw_endpoint_start_next_buffer e c2) (out_packets e (packets m (drop m bs))) = Inr (True, c')"
      "ram c' = (ram c2)(b := overwrite (off + m) (drop m bs) (ram c2 b))"
      "unat (xferred_len (hw_endpoints c' e)) = t + m + length (drop m bs)"
      by blast
    moreover have "overwrite (off + m) (drop m bs) (overwrite off (take m bs) (ram c b)) = overwrite off bs (ram c b)"
      using overwrite_append [of off "take m bs" "drop m bs" "ram c b"] l 1(5) len by simp
    moreover have "packets m bs = take m bs # packets m (drop m bs)" using False m by (subst packets.simps) simp
    ultimately show ?thesis using c1(1,2) c2(5) False
      by (auto simp: USB_BUF_CTRL_AVAIL_def elim!: rbind_eq_InrE)
  qed
qed

lemma open_out:
  assumes "0 < unat (tu_edpt_number addr)" "unat (tu_edpt_number addr) < 16" "tu_edpt_dir addr = TUSB_DIR_OUT"
    and "0 < unat mps" "unat mps \<le> 64" "next_buffer_ptr c mod 64 = 0" "next_buffer_ptr c + 64 \<le> 4096"
    and "dcd_edpt_open addr mps kind c = Inr (ok, c')" "main_ctrl c AND 2 = 0"
  shows "out_endpoint (endpoint_of addr) (next_buffer_ptr c) (unat mps) c'" "ep_buf_ctrl c' (endpoint_of addr) = 0"
  using opened [OF assms(1,2,8)] assms(3-7,9) buffer_offset [OF assms(6)] by (simp_all add: out_endpoint_def)

text \<open>
  C36: A transfer from the host fills the buffer: on an endpoint that has just been opened, in device mode,
  the bytes the host sends in packets of the endpoint's size arrive in the buffer in their order, nothing else
  in memory changes, and the driver reports the transfer complete with their number after a packet that is not
  full or when the buffer is, and not before.
\<close>

theorem transfer_out_packets:
  assumes "0 < unat (tu_edpt_number addr)" "unat (tu_edpt_number addr) < 16" "tu_edpt_dir addr = TUSB_DIR_OUT"
    and "0 < unat mps" "unat mps \<le> 64" "next_buffer_ptr c0 mod 64 = 0" "next_buffer_ptr c0 + 64 \<le> 4096"
    and "main_ctrl c0 AND 2 = 0" "dcd_edpt_open addr mps kind c0 = Inr (True, c)"
    and "off + unat n \<le> length (ram c b)" "whole_transfer (unat mps) (unat n) bs"
  shows "\<exists>c'. rbind (dcd_edpt_xfer addr (Some (b, off)) n c) (\<lambda>(_, c1). out_packets (endpoint_of addr) (packets (unat mps) bs) c1) =
      Inr (True, c') \<and> ram c' = (ram c)(b := take off (ram c b) @ bs @ drop (off + length bs) (ram c b)) \<and>
    unat (xferred_len (hw_endpoints c' (endpoint_of addr))) = length bs"
proof -
  let ?e = "endpoint_of addr" and ?m = "unat mps"
  note i = open_out [OF assms(1-7,9,8)]
  define c1 where "c1 = (if active (hw_endpoints c ?e) then hw_endpoint_reset_transfer ?e c else c)"
  define c2 where "c2 = put_ep ?e ((hw_endpoints c1 ?e)\<lparr>remaining_len := n, xferred_len := 0, active := True,
      user_buf := Some (b, off)\<rparr>) c1"
  have s: "hw_endpoint_xfer_start ?e (Some (b, off)) n c = hw_endpoint_start_next_buffer ?e c2"
    by (simp add: hw_endpoint_xfer_start_def Let_def c1_def c2_def)
  have "unat n < 2 ^ LENGTH(16)" by (rule unsigned_less)
  then have r: "receiving ?e (next_buffer_ptr c0) ?m b off (unat n) 0 c2"
    using i(1) by (simp add: receiving_def out_endpoint_def c1_def c2_def put_ep_def hw_endpoint_reset_transfer_def)
  have c2: "ram c2 = ram c" "ep_buf_ctrl c2 = ep_buf_ctrl c"
    by (simp_all add: c1_def c2_def put_ep_def hw_endpoint_reset_transfer_def)
  from packets_received [OF r _ assms(11)] i(2) c2 assms(10) show ?thesis
    by (auto simp: dcd_edpt_xfer_def hw_endpoint_xfer_def get_by_addr [OF assms(2)] s rbind_assoc overwrite_def)
qed

theorem transfer_out_packets_witness:
  "\<forall>c :: usb_ctl. let c0 = c\<lparr>next_buffer_ptr := 0x180, ram := (\<lambda>_. replicate 64 7), main_ctrl := 1\<rparr>
     in \<exists>c1 c'. dcd_edpt_open 0x02 64 2 c0 = Inr (True, c1) \<and>
        rbind (dcd_edpt_xfer 0x02 (Some (Epout_Buf, 0)) 64 c1) (\<lambda>(_, c2). out_packets (endpoint_of 0x02) [[1, 2, 3]] c2) =
          Inr (True, c') \<and> take 4 (ram c' Epout_Buf) = [1, 2, 3, 7]"
proof
  fix c :: usb_ctl
  define c0 where "c0 = c\<lparr>next_buffer_ptr := 0x180, ram := (\<lambda>_. replicate 64 7), main_ctrl := 1\<rparr>"
  have a: "unat (tu_edpt_number 0x02) = 2" "tu_edpt_dir 0x02 = TUSB_DIR_OUT" by (simp_all add: tu_edpt_number_def tu_edpt_dir_def)
  obtain c1 where o: "dcd_edpt_open 0x02 64 2 c0 = Inr (True, c1)"
    using get_by_addr [where addr = "0x02"] a by (simp add: dcd_edpt_open_def hw_endpoint_init_def Let_def)
  have r: "ram c1 = ram c0" using opened(5) [OF _ _ o] a by simp
  have w: "whole_transfer (unat (64 :: u16)) (unat (64 :: u16)) [1, 2, 3]" by (auto simp: whole_transfer_def dest: dvd_imp_le)
  have "\<exists>c'. rbind (dcd_edpt_xfer 0x02 (Some (Epout_Buf, 0)) 64 c1) (\<lambda>(_, c2). out_packets (endpoint_of 0x02) [[1, 2, 3]] c2) =
          Inr (True, c') \<and> take 4 (ram c' Epout_Buf) = [1, 2, 3, 7]"
    using transfer_out_packets [OF _ _ _ _ _ _ _ _ o _ w, where off = 0 and b = Epout_Buf] a r
      packets.simps [of 64 "[1, 2, 3]"] by (auto simp: c0_def)
  then show "let c0 = c\<lparr>next_buffer_ptr := 0x180, ram := (\<lambda>_. replicate 64 7), main_ctrl := 1\<rparr>
     in \<exists>c1 c'. dcd_edpt_open 0x02 64 2 c0 = Inr (True, c1) \<and>
        rbind (dcd_edpt_xfer 0x02 (Some (Epout_Buf, 0)) 64 c1) (\<lambda>(_, c2). out_packets (endpoint_of 0x02) [[1, 2, 3]] c2) =
          Inr (True, c') \<and> take 4 (ram c' Epout_Buf) = [1, 2, 3, 7]"
    using o unfolding c0_def Let_def by blast
qed

end
