(* ===== verification/Usb_Ports.thy ===== *)
theory Usb_Ports
  imports Usb_Transfers
begin

text \<open>
  Single packets through an endpoint: the endpoint is free, armed with a packet, or the host has
  taken or given one and the interrupt is due. Every operation leaves the rest of the
  controller as it was.
\<close>

section \<open>What an operation on an endpoint changes\<close>

definition touched :: "ep_id \<Rightarrow> hw_endpoint \<Rightarrow> nat \<Rightarrow> u8 list \<Rightarrow> u32 \<Rightarrow> u32 \<Rightarrow> usb_ctl \<Rightarrow> usb_ctl" where
  "touched e ep p bs v w c = c\<lparr>hw_endpoints := (hw_endpoints c)(e := ep), dpram := overlay p bs (dpram c),
     ep_ctrl := (ep_ctrl c)(e := v), ep_buf_ctrl := (ep_buf_ctrl c)(e := w)\<rparr>"

definition same_but :: "ep_id \<Rightarrow> nat \<Rightarrow> usb_ctl \<Rightarrow> usb_ctl \<Rightarrow> bool" where
  "same_but e p c c' \<longleftrightarrow> (\<exists>ep bs v w. c' = touched e ep p bs v w c \<and> length bs \<le> 64 \<and>
     hw_ep_addr ep = hw_ep_addr (hw_endpoints c e))"

lemma touched_same:
  "length bs \<le> 64 \<Longrightarrow> hw_ep_addr ep = hw_ep_addr (hw_endpoints c e) \<Longrightarrow> same_but e p c (touched e ep p bs v w c)"
  by (auto simp: same_but_def)

lemma touched_fields [simp]:
  "hw_endpoints (touched e ep p bs v w c) = (hw_endpoints c)(e := ep)" "dpram (touched e ep p bs v w c) = overlay p bs (dpram c)"
  "ep_ctrl (touched e ep p bs v w c) = (ep_ctrl c)(e := v)" "ep_buf_ctrl (touched e ep p bs v w c) = (ep_buf_ctrl c)(e := w)"
  "ram (touched e ep p bs v w c) = ram c" "main_ctrl (touched e ep p bs v w c) = main_ctrl c"
  "buf_status (touched e ep p bs v w c) = buf_status c"
  by (simp_all add: touched_def)

lemma same_but_fields:
  assumes "same_but e p c c'"
  shows "ram c' = ram c" "main_ctrl c' = main_ctrl c" "buf_status c' = buf_status c"
    "hw_ep_addr (hw_endpoints c' e') = hw_ep_addr (hw_endpoints c e')"
    "e' \<noteq> e \<Longrightarrow> hw_endpoints c' e' = hw_endpoints c e'" "e' \<noteq> e \<Longrightarrow> ep_ctrl c' e' = ep_ctrl c e'"
    "e' \<noteq> e \<Longrightarrow> ep_buf_ctrl c' e' = ep_buf_ctrl c e'"
  using assms by (auto simp: same_but_def)

definition apart :: "nat \<Rightarrow> nat \<Rightarrow> bool" where
  "apart p q \<longleftrightarrow> p + 64 \<le> q \<or> q + 64 \<le> p"

lemma same_but_dpram:
  assumes "same_but e p c c'" "apart p q" "n \<le> 64"
  shows "get_dpram q n c' = get_dpram q n c"
proof -
  obtain bs where "dpram c' = overlay p bs (dpram c)" "length bs \<le> 64" using assms(1) by (auto simp: same_but_def)
  then show ?thesis using assms(2,3) by (auto simp: get_dpram_def apart_def overlay_def)
qed

section \<open>Sending a packet\<close>

definition in_free :: "ep_id \<Rightarrow> nat \<Rightarrow> usb_ctl \<Rightarrow> bool" where
  "in_free e p c \<longleftrightarrow> in_endpoint e p 64 c \<and> ep_buf_ctrl c e AND 0x400 = 0"

definition in_busy :: "ep_id \<Rightarrow> nat \<Rightarrow> nat \<Rightarrow> usb_ctl \<Rightarrow> bool" where
  "in_busy e p n c \<longleftrightarrow> in_endpoint e p 64 c \<and> active (hw_endpoints c e) \<and> remaining_len (hw_endpoints c e) = 0 \<and>
     xferred_len (hw_endpoints c e) = 0 \<and> ep_ctrl c e AND EP_CTRL_DOUBLE_BUFFERED_BITS = 0 \<and> n \<le> 64 \<and>
     ep_buf_ctrl c e AND 0x3FF = of_nat n"

definition in_armed :: "ep_id \<Rightarrow> nat \<Rightarrow> u8 list \<Rightarrow> usb_ctl \<Rightarrow> bool" where
  "in_armed e p d c \<longleftrightarrow> in_busy e p (length d) c \<and> ep_buf_ctrl c e AND 0x400 \<noteq> 0 \<and> get_dpram p (length d) c = d"

definition in_taken :: "ep_id \<Rightarrow> nat \<Rightarrow> nat \<Rightarrow> usb_ctl \<Rightarrow> bool" where
  "in_taken e p n c \<longleftrightarrow> in_busy e p n c \<and> ep_buf_ctrl c e AND 0x400 = 0"

definition source_bytes :: "buf_ptr \<Rightarrow> nat \<Rightarrow> usb_ctl \<Rightarrow> u8 list" where
  "source_bytes b n c = (if n = 0 then [] else case b of None \<Rightarrow> [] | Some (m, off) \<Rightarrow> take n (drop off (ram c m)))"

lemma copy_source:
  assumes "length (source_bytes b n c) = n" "p + n \<le> 4096"
  shows "copy_to_dpram (Some p) 0 b n c = Inr (c\<lparr>dpram := overlay p (source_bytes b n c) (dpram c)\<rparr>)"
proof (cases "n = 0")
  case True
  then show ?thesis by (simp add: copy_to_dpram_def source_bytes_def)
next
  case False
  then obtain m off where b: "b = Some (m, off)" "off + n \<le> length (ram c m)"
    using assms(1) by (auto simp: source_bytes_def split: option.splits prod.splits)
  then show ?thesis using False copy_to [of off n c m p 0] assms(2) by (simp add: source_bytes_def)
qed

lemma len_u16:
  assumes "n \<le> 64"
  shows "unat (of_nat n :: u16) = n" "ucast (of_nat n :: u16) = (of_nat n :: u32)" "(of_nat n = (0 :: u16)) = (n = 0)"
    "of_nat n \<le> (0x40 :: u16)" "unat (of_nat n :: u32) = n"
proof -
  show u: "unat (of_nat n :: u16) = n" "unat (of_nat n :: u32) = n" using assms by (simp_all add: unat_of_nat)
  then show "ucast (of_nat n :: u16) = (of_nat n :: u32)"
    using assms by (intro word_unat_eq_iff [THEN iffD2]) (simp add: unsigned_ucast_eq take_bit_nat_eq_self)
  show "(of_nat n = (0 :: u16)) = (n = 0)" "of_nat n \<le> (0x40 :: u16)"
    using u assms by (simp_all add: word_unat_eq_iff word_le_nat_alt)
qed

lemma start_in_packet:
  assumes "in_free e p c" "n \<le> 64" "length (source_bytes b n c) = n"
  shows "\<exists>c'. hw_endpoint_xfer_start e b (of_nat n) c = Inr c' \<and> in_armed e p (source_bytes b n c) c' \<and> same_but e p c c'"
proof -
  define c0 where "c0 = put_ep e ((hw_endpoints c e)\<lparr>remaining_len := of_nat n, xferred_len := 0, active := True, user_buf := b\<rparr>)
    (if active (hw_endpoints c e) then hw_endpoint_reset_transfer e c else c)"
  let ?ep = "hw_endpoints c0 e"
  have s: "hw_endpoint_xfer_start e b (of_nat n) c = hw_endpoint_start_next_buffer e c0"
    unfolding c0_def by (auto simp: hw_endpoint_xfer_start_def Let_def hw_endpoint_reset_transfer_def put_ep_def
        intro!: arg_cong [where f = "hw_endpoint_start_next_buffer e"])
  have c0: "c0 = c\<lparr>hw_endpoints := (hw_endpoints c)(e := ?ep)\<rparr>" "hw_ep_addr ?ep = hw_ep_addr (hw_endpoints c e)"
    by (simp_all add: c0_def put_ep_def hw_endpoint_reset_transfer_def)
  have k: "ram c0 = ram c" "ep_buf_ctrl c0 = ep_buf_ctrl c" "ep_ctrl c0 = ep_ctrl c" "dpram c0 = dpram c"
    by (simp_all add: c0_def put_ep_def hw_endpoint_reset_transfer_def)
  have ep: "active ?ep" "remaining_len ?ep = of_nat n" "xferred_len ?ep = 0" "user_buf ?ep = b"
    by (simp_all add: c0_def put_ep_def)
  have i: "in_endpoint e p 64 c0" using assms(1)
    by (auto simp: in_free_def in_endpoint_def c0_def put_ep_def hw_endpoint_reset_transfer_def)
  then have m: "wMaxPacketSize ?ep = 0x40" "hw_data_buf ?ep = Some p" "\<not> rx ?ep" "p + 128 \<le> 4096" "fst e \<noteq> 0"
    "unat (ep_ctrl c0 e AND 0xFFC0) = p" "endpoint_control ?ep = Some e" "tu_edpt_dir (hw_ep_addr ?ep) = TUSB_DIR_IN"
    by (simp_all add: in_endpoint_def word_unat_eq_iff)
  note l = len_u16 [OF assms(2)]
  let ?bs = "source_bytes b n c" and ?w = "buffer_word (of_nat n) (next_pid ?ep) True True"
  have src: "source_bytes b n c0 = ?bs" by (simp only: source_bytes_def k)
  have cp: "copy_to_dpram (Some p) 0 b n c0 = Inr (c0\<lparr>dpram := overlay p ?bs (dpram c0)\<rparr>)"
    using copy_source [of b n c0 p] assms(2,3) m(4) src by simp
  define ep1 where "ep1 = ?ep\<lparr>remaining_len := 0, next_pid := next_pid ?ep XOR 1, user_buf := advance_buf b n\<rparr>"
  define c1 where "c1 = put_ep e ep1 (c0\<lparr>dpram := overlay p ?bs (dpram c0)\<rparr>)"
  have prep: "prepare_ep_buffer e 0 c0 = Inr (?w, c1)"
    using l m ep cp by (simp add: prepare_ep_buffer_def Let_def buffer_word_def ep1_def c1_def min_absorb1 or.assoc)
  have i1: "in_endpoint e p 64 c1" using i by (auto simp: in_endpoint_def c1_def ep1_def put_ep_def)
  have f1: "remaining_len (hw_endpoints c1 e) = 0" "ep_buf_ctrl c1 = ep_buf_ctrl c" "ep_ctrl c1 = ep_ctrl c0"
    by (simp_all add: c1_def ep1_def put_ep_def k)
  have g: "get_ep_ctrl ?ep c0 = ep_ctrl c0 e" using m by (simp add: get_ep_ctrl_def read_ptr_def)
  let ?c' = "c1\<lparr>ep_ctrl := (ep_ctrl c1)(e := single_ctrl (ep_ctrl c0 e)), ep_buf_ctrl := (ep_buf_ctrl c1)(e := ?w OR 0x1000)\<rparr>"
  have av: "ep_buf_ctrl c1 e AND 0x400 = 0" using assms(1) by (simp add: in_free_def f1)
  have st: "hw_endpoint_start_next_buffer e c0 = Inr ?c'"
    using prep f1(1) g set_word [OF i1 av]
    by (simp add: hw_endpoint_start_next_buffer_def Let_def USB_BUF_CTRL_SEL_def single_ctrl_def)
  have sm: "?c' = touched e ep1 p ?bs (single_ctrl (ep_ctrl c0 e)) (?w OR 0x1000) c"
    by (subst c1_def, subst (2) c0(1)) (simp add: touched_def put_ep_def c1_def k)
  have n10: "unat (of_nat n :: u16) < 1024" using l(1) assms(2) by simp
  have "in_endpoint e p 64 ?c'" using i1 m(6) by (auto simp: in_endpoint_def ctrl_words)
  then have "in_armed e p ?bs ?c'"
    using single_word [OF n10, of "next_pid ?ep" True True] l assms(2,3) ep(1,3)
    by (simp add: in_armed_def in_busy_def ctrl_words c1_def ep1_def put_ep_def get_dpram_def read_overlay)
  moreover have "same_but e p c ?c'"
    unfolding sm using assms(2,3) c0(2) by (intro touched_same) (simp_all add: ep1_def)
  ultimately show ?thesis using s st by auto
qed

lemma released_bits:
  "released v AND 0x3FF = v AND 0x3FF" "released v AND 0x400 = 0"
  by (simp_all add: released_def and.assoc)

lemma packet_taken:
  assumes "in_armed e p d c"
  shows "concat (map snd (fst (host_takes e c))) = d" "in_taken e p (length d) (snd (host_takes e c))"
    "same_but e p c (snd (host_takes e c))"
proof -
  have i: "in_endpoint e p 64 c" "length d \<le> 64" "ep_buf_ctrl c e AND 0x3FF = of_nat (length d)" "get_dpram p (length d) c = d"
    "ep_ctrl c e AND EP_CTRL_DOUBLE_BUFFERED_BITS = 0"
    using assms by (simp_all add: in_armed_def in_busy_def)
  have b: "buffer_at e c = p" "\<not> double_buffered e c" using i(1,5) by (simp_all add: buffer_at_def double_buffered_def in_endpoint_def)
  show "concat (map snd (fst (host_takes e c))) = d"
    using i b len_u16(5) [OF i(2)] by (simp add: host_takes_def Let_def packet_at_def)
  show "in_taken e p (length d) (snd (host_takes e c))"
    using assms by (auto simp: in_taken_def in_armed_def in_busy_def host_takes_def Let_def in_endpoint_def released_bits)
  have "snd (host_takes e c) = touched e (hw_endpoints c e) p [] (ep_ctrl c e) (released (ep_buf_ctrl c e)) c"
    by (simp add: host_takes_def Let_def touched_def)
  then show "same_but e p c (snd (host_takes e c))" by (simp add: touched_same)
qed

lemma packet_sent:
  assumes "in_taken e p n c"
  shows "\<exists>c'. hw_endpoint_xfer_continue e c = Inr (True, c') \<and> xferred_len (hw_endpoints c' e) = of_nat n \<and>
    in_free e p (hw_endpoint_reset_transfer e c') \<and> same_but e p c c' \<and> same_but e p c (hw_endpoint_reset_transfer e c')"
proof -
  have i: "in_endpoint e p 64 c" "n \<le> 64" "ep_buf_ctrl c e AND 0x3FF = of_nat n" "active (hw_endpoints c e)"
    "remaining_len (hw_endpoints c e) = 0" "xferred_len (hw_endpoints c e) = 0" "ep_ctrl c e AND EP_CTRL_DOUBLE_BUFFERED_BITS = 0"
    "ep_buf_ctrl c e AND 0x400 = 0"
    using assms by (simp_all add: in_taken_def in_busy_def)
  define ep where "ep = (hw_endpoints c e)\<lparr>xferred_len := of_nat n, remaining_len := 0\<rparr>"
  let ?c' = "put_ep e ep c"
  have "sync_ep_buffer e 0 c = Inr (of_nat n, ?c')"
    using sync_in [OF i(1), of "of_nat n" 0] i len_u16 [OF i(2)] by (simp add: ep_def)
  moreover have "get_ep_ctrl ep ?c' AND EP_CTRL_DOUBLE_BUFFERED_BITS = 0"
    using i(1,7) by (simp add: get_ep_ctrl_def read_ptr_def put_ep_def ep_def in_endpoint_def)
  ultimately have "hw_endpoint_xfer_continue e c = Inr (True, ?c')"
    using i(4) by (simp add: hw_endpoint_xfer_continue_def hw_endpoint_xfer_sync_def put_ep_def ep_def)
  moreover have "in_free e p (hw_endpoint_reset_transfer e ?c')"
    using i by (auto simp: in_free_def hw_endpoint_reset_transfer_def put_ep_def ep_def in_endpoint_def)
  moreover have "?c' = touched e ep p [] (ep_ctrl c e) (ep_buf_ctrl c e) c"
    "hw_endpoint_reset_transfer e ?c' = touched e (ep\<lparr>active := False, remaining_len := 0, xferred_len := 0, user_buf := None\<rparr>)
       p [] (ep_ctrl c e) (ep_buf_ctrl c e) c"
    by (simp_all add: touched_def put_ep_def hw_endpoint_reset_transfer_def)
  ultimately show ?thesis by (auto simp: put_ep_def ep_def intro!: exI [of _ ?c'] touched_same)
qed

lemma in_elsewhere:
  assumes "same_but e' q c c'" "e \<noteq> e'" "apart q p"
  shows "in_free e p c \<Longrightarrow> in_free e p c'" "in_armed e p d c \<Longrightarrow> in_armed e p d c'" "in_taken e p n c \<Longrightarrow> in_taken e p n c'"
  using same_but_fields [OF assms(1)] same_but_dpram [OF assms(1,3), of "length d"] assms(2)
  by (auto simp: in_free_def in_armed_def in_taken_def in_busy_def in_endpoint_def)

section \<open>Receiving a packet\<close>

definition out_free :: "ep_id \<Rightarrow> nat \<Rightarrow> usb_ctl \<Rightarrow> bool" where
  "out_free e q c \<longleftrightarrow> out_endpoint e q 64 c \<and> ep_buf_ctrl c e AND 0x400 = 0"

definition out_busy :: "ep_id \<Rightarrow> nat \<Rightarrow> usb_buf \<Rightarrow> usb_ctl \<Rightarrow> bool" where
  "out_busy e q b c \<longleftrightarrow> out_endpoint e q 64 c \<and> active (hw_endpoints c e) \<and> remaining_len (hw_endpoints c e) = 0 \<and>
     xferred_len (hw_endpoints c e) = 0 \<and> user_buf (hw_endpoints c e) = Some (b, 0) \<and> length (ram c b) = 64 \<and>
     ep_ctrl c e AND EP_CTRL_DOUBLE_BUFFERED_BITS = 0"

definition out_armed :: "ep_id \<Rightarrow> nat \<Rightarrow> usb_buf \<Rightarrow> usb_ctl \<Rightarrow> bool" where
  "out_armed e q b c \<longleftrightarrow> out_busy e q b c \<and> ep_buf_ctrl c e AND 0x400 \<noteq> 0"

definition out_given :: "ep_id \<Rightarrow> nat \<Rightarrow> usb_buf \<Rightarrow> u8 list \<Rightarrow> usb_ctl \<Rightarrow> bool" where
  "out_given e q b d c \<longleftrightarrow> out_busy e q b c \<and> ep_buf_ctrl c e AND 0x400 = 0 \<and>
     ep_buf_ctrl c e AND 0x3FF = of_nat (length d) \<and> get_dpram q (length d) c = d \<and> length d \<le> 64"

lemma start_out_packet:
  assumes "out_free e q c" "length (ram c b) = 64"
  shows "\<exists>c'. hw_endpoint_xfer_start e (Some (b, 0)) 0x40 c = Inr c' \<and> out_armed e q b c' \<and> same_but e q c c'"
proof -
  define c0 where "c0 = put_ep e ((hw_endpoints c e)\<lparr>remaining_len := 0x40, xferred_len := 0, active := True, user_buf := Some (b, 0)\<rparr>)
    (if active (hw_endpoints c e) then hw_endpoint_reset_transfer e c else c)"
  let ?ep = "hw_endpoints c0 e"
  have s: "hw_endpoint_xfer_start e (Some (b, 0)) 0x40 c = hw_endpoint_start_next_buffer e c0"
    unfolding c0_def by (auto simp: hw_endpoint_xfer_start_def Let_def hw_endpoint_reset_transfer_def put_ep_def
        intro!: arg_cong [where f = "hw_endpoint_start_next_buffer e"])
  have c0: "c0 = c\<lparr>hw_endpoints := (hw_endpoints c)(e := ?ep)\<rparr>" "hw_ep_addr ?ep = hw_ep_addr (hw_endpoints c e)"
    by (simp_all add: c0_def put_ep_def hw_endpoint_reset_transfer_def)
  have k: "ram c0 = ram c" "ep_buf_ctrl c0 = ep_buf_ctrl c" "ep_ctrl c0 = ep_ctrl c" "dpram c0 = dpram c"
    "main_ctrl c0 = main_ctrl c"
    by (simp_all add: c0_def put_ep_def hw_endpoint_reset_transfer_def)
  have ep: "active ?ep" "remaining_len ?ep = 0x40" "xferred_len ?ep = 0" "user_buf ?ep = Some (b, 0)"
    by (simp_all add: c0_def put_ep_def)
  have o: "out_endpoint e q 64 c0" using assms(1)
    by (auto simp: out_free_def out_endpoint_def c0_def put_ep_def hw_endpoint_reset_transfer_def)
  then have m: "wMaxPacketSize ?ep = 0x40" "rx ?ep" "fst e \<noteq> 0" "buffer_control ?ep = Some e" "main_ctrl c0 AND 2 = 0"
    "unat (ep_ctrl c0 e AND 0xFFC0) = q" "endpoint_control ?ep = Some e" "tu_edpt_dir (hw_ep_addr ?ep) = TUSB_DIR_OUT"
    by (simp_all add: out_endpoint_def word_unat_eq_iff)
  let ?w = "buffer_word 0x40 (next_pid ?ep) False True"
  define ep1 where "ep1 = ?ep\<lparr>remaining_len := 0, next_pid := next_pid ?ep XOR 1\<rparr>"
  have prep: "prepare_ep_buffer e 0 c0 = Inr (?w, put_ep e ep1 c0)"
    using m ep by (simp add: prepare_ep_buffer_def Let_def buffer_word_def ep1_def or.assoc)
  let ?c' = "(put_ep e ep1 c0)\<lparr>ep_ctrl := (ep_ctrl c0)(e := single_ctrl (ep_ctrl c0 e)), ep_buf_ctrl := (ep_buf_ctrl c0)(e := ?w OR 0x1000)\<rparr>"
  have "ep_buf_ctrl c0 e AND 0x400 = 0" using assms(1) by (simp add: out_free_def k)
  then have st: "hw_endpoint_start_next_buffer e c0 = Inr ?c'"
    using prep m
    by (simp add: hw_endpoint_start_next_buffer_def Let_def put_ep_def get_ep_ctrl_def read_ptr_def ep1_def
        put_ep_ctrl_def hw_endpoint_buffer_control_set_value32_def hw_endpoint_buffer_control_update32_def
        hw_endpoint_buffer_control_get_value32_def put_buf_ctrl_def single_ctrl_def usb_bits)
  have sm: "?c' = touched e ep1 q [] (single_ctrl (ep_ctrl c0 e)) (?w OR 0x1000) c"
    by (subst (1) c0(1)) (simp add: touched_def put_ep_def k)
  have "out_endpoint e q 64 ?c'" using o m(6) by (auto simp: out_endpoint_def ctrl_words put_ep_def ep1_def)
  then have "out_armed e q b ?c'"
    using single_word(2) [of "0x40" "next_pid ?ep" False True] ep assms(2)
    by (simp add: out_armed_def out_busy_def ctrl_words ep1_def put_ep_def k)
  moreover have "same_but e q c ?c'"
    unfolding sm using c0(2) by (intro touched_same) (simp_all add: ep1_def)
  ultimately show ?thesis using s st by auto
qed

lemma packet_given:
  assumes "out_armed e q b c" "length d \<le> 64"
  shows "out_given e q b d (host_gives e d c)" "same_but e q c (host_gives e d c)"
proof -
  have o: "out_busy e q b c" "fst e \<noteq> 0" "unat (ep_ctrl c e AND 0xFFC0) = q"
    using assms(1) by (simp_all add: out_armed_def out_busy_def out_endpoint_def)
  then have b: "buffer_at e c = q" by (simp add: buffer_at_def)
  have h: "host_gives e d c = touched e (hw_endpoints c e) q d (ep_ctrl c e) ((ep_buf_ctrl c e AND NOT 0x7FF) OR 0x8000 OR of_nat (length d)) c"
    by (simp add: host_gives_def touched_def b)
  show "out_given e q b d (host_gives e d c)"
    using given_word [OF assms(2), of "ep_buf_ctrl c e"] o assms(2)
    by (simp add: h out_given_def out_busy_def out_endpoint_def get_dpram_def read_overlay)
  show "same_but e q c (host_gives e d c)" unfolding h using assms(2) by (intro touched_same) simp_all
qed

text \<open>The state when the driver has copied the packet, but for the buffer.\<close>

lemma packet_copied:
  assumes "out_given e q b d c"
  shows "\<exists>c'. hw_endpoint_xfer_continue e c = Inr (True, c'\<lparr>ram := (ram c)(b := overwrite 0 d (ram c b))\<rparr>) \<and>
    xferred_len (hw_endpoints c' e) = of_nat (length d) \<and>
    out_free e q (hw_endpoint_reset_transfer e c') \<and> same_but e q c c'"
proof -
  have o: "out_endpoint e q 64 c" "length d \<le> 64" "ep_buf_ctrl c e AND 0x3FF = of_nat (length d)" "get_dpram q (length d) c = d"
    "active (hw_endpoints c e)" "remaining_len (hw_endpoints c e) = 0" "xferred_len (hw_endpoints c e) = 0"
    "user_buf (hw_endpoints c e) = Some (b, 0)" "length (ram c b) = 64" "ep_ctrl c e AND EP_CTRL_DOUBLE_BUFFERED_BITS = 0"
    "ep_buf_ctrl c e AND 0x400 = 0"
    using assms by (simp_all add: out_given_def out_busy_def)
  then have f: "rx (hw_endpoints c e)" "hw_data_buf (hw_endpoints c e) = Some q" "q + 64 \<le> 4096"
    "buffer_control (hw_endpoints c e) = Some e" "endpoint_control (hw_endpoints c e) = Some e"
    by (simp_all add: out_endpoint_def)
  note l = len_u16 [OF o(2)]
  define ep where "ep = (hw_endpoints c e)\<lparr>xferred_len := of_nat (length d), user_buf := Some (b, length d)\<rparr>"
  have r: "ep\<lparr>remaining_len := 0\<rparr> = ep" using o(6) by (intro hw_endpoint.equality) (simp_all add: ep_def)
  let ?m = "(ram c)(b := overwrite 0 d (ram c b))" and ?c' = "put_ep e ep c"
  have u: "ucast (of_nat (length d) :: u32) = (of_nat (length d) :: u16)"
    using o(2) by (intro word_unat_eq_iff [THEN iffD2]) (simp add: unsigned_ucast_eq unat_of_nat take_bit_nat_eq_self)
  have cp: "copy_from_dpram (Some (b, 0)) (Some q) 0 (length d) c = Inr (c\<lparr>ram := ?m\<rparr>)"
    using o(2,4,9) f(3)
    by (cases "d = []") (auto simp: copy_from_dpram_def USB_DPRAM_MAX_def write_bytes_def overwrite_def)
  have "sync_ep_buffer e 0 c = Inr (of_nat (length d), ?c'\<lparr>ram := ?m\<rparr>)"
    using o f l u cp by (simp add: r [unfolded ep_def] sync_ep_buffer_def Let_def hw_endpoint_buffer_control_get_value32_def
        read_ptr_def usb_bits advance_buf_def put_ep_def ep_def)
  moreover have "get_ep_ctrl ep (?c'\<lparr>ram := ?m\<rparr>) AND EP_CTRL_DOUBLE_BUFFERED_BITS = 0"
    using o(10) f by (simp add: get_ep_ctrl_def read_ptr_def put_ep_def ep_def)
  ultimately have "hw_endpoint_xfer_continue e c = Inr (True, ?c'\<lparr>ram := ?m\<rparr>)"
    using o(5,6) by (simp add: hw_endpoint_xfer_continue_def hw_endpoint_xfer_sync_def put_ep_def ep_def)
  moreover have "out_free e q (hw_endpoint_reset_transfer e ?c')"
    using o by (auto simp: out_free_def hw_endpoint_reset_transfer_def put_ep_def ep_def out_endpoint_def)
  moreover have "?c' = touched e ep q [] (ep_ctrl c e) (ep_buf_ctrl c e) c" by (simp add: touched_def put_ep_def)
  then have "same_but e q c ?c'" by (auto simp: ep_def intro!: touched_same)
  ultimately show ?thesis by (auto simp: put_ep_def ep_def intro!: exI [of _ ?c'])
qed

lemma out_elsewhere:
  assumes "same_but e' p c c'" "e \<noteq> e'" "apart p q"
  shows "out_free e q c \<Longrightarrow> out_free e q c'" "out_armed e q b c \<Longrightarrow> out_armed e q b c'"
    "out_given e q b d c \<Longrightarrow> out_given e q b d c'"
  using same_but_fields [OF assms(1)] same_but_dpram [OF assms(1,3), of "length d"] assms(2)
  by (auto simp: out_free_def out_armed_def out_given_def out_busy_def out_endpoint_def)

end
