(* ===== verification/Usbd.thy ===== *)
theory Usbd
  imports Usb_Controller Usb_Fifo
begin

text \<open>
  The core of the USB device stack: its state, control transfers (\<open>device/usbd_control.c\<close>), the endpoint
  interface that class drivers use (\<open>device/usbd.c\<close>, \<open>tusb.c\<close>), the queue of events
  (\<open>osal/osal_pico.h\<close>, a FIFO of 16 events, kept as a list) and the interrupt of the controller, which fills it.
  The program has one port and two class drivers, CDC and the reset interface. A pointer of a control
  transfer is the data it points to, or a place in the line coding of the CDC interface. The fields
  \<open>host_rx\<close> and \<open>host_tx\<close> are not of the program: what the host has received and sent on the serial line.
\<close>

section \<open>State\<close>

datatype class_driver = Resetd | Cdcd

record ep_status =
  ep_busy :: bool
  ep_stalled :: bool
  ep_claimed :: bool

record usbd_device =
  dev_connected :: bool
  dev_addressed :: bool
  dev_suspended :: bool
  remote_wakeup_en :: bool
  remote_wakeup_support :: bool
  self_powered :: bool
  cfg_num :: u8
  dev_speed :: u8
  itf2drv :: "u8 list"
  ep2drv :: "ep_id \<Rightarrow> u8"
  ep_status :: "ep_id \<Rightarrow> ep_status"

record tusb_control_request =
  bmRequestType :: u8
  bRequest :: u8
  wValue :: u16
  wIndex :: u16
  wLength :: u16

datatype ctrl_ptr = Null | Data "u8 list" | Line_Coding nat

record usbd_control_xfer =
  ctrl_request :: tusb_control_request
  ctrl_buffer :: ctrl_ptr
  data_len :: u16
  total_xferred :: u16
  complete_cb :: "class_driver option"

datatype dcd_event =
    DCD_EVENT_BUS_RESET u8
  | DCD_EVENT_UNPLUGGED
  | DCD_EVENT_SOF
  | DCD_EVENT_SUSPEND
  | DCD_EVENT_RESUME
  | DCD_EVENT_SETUP_RECEIVED tusb_control_request
  | DCD_EVENT_XFER_COMPLETE u8 u32 u8

record cdcd_interface =
  itf_num :: u8
  ep_notif :: u8
  ep_in :: u8
  ep_out :: u8
  line_state :: u8
  wanted_char :: u8
  line_coding :: "u8 list"
  rx_ff :: tu_fifo
  tx_ff :: tu_fifo

record usb =
  hc :: usb_ctl
  usbd_dev :: usbd_device
  ctrl_xfer :: usbd_control_xfer
  usbd_q :: "dcd_event list"
  usbd_initialized :: bool
  app_driver :: "class_driver list"
  cdcd_itf :: cdcd_interface
  reset_itf_num :: u8
  board_id :: "u8 list"
  usbd_serial_str :: "u8 list"
  host_rx :: "u8 list"
  host_tx :: "u8 list"

definition on_hc :: "(usb_ctl \<Rightarrow> fault + usb_ctl) \<Rightarrow> usb \<Rightarrow> fault + usb" where
  "on_hc f u = rbind (f (hc u)) (\<lambda>c. Inr (u\<lparr>hc := c\<rparr>))"

definition on_dev :: "(usbd_device \<Rightarrow> usbd_device) \<Rightarrow> usb \<Rightarrow> usb" where
  "on_dev f u = u\<lparr>usbd_dev := f (usbd_dev u)\<rparr>"

definition on_ctrl :: "(usbd_control_xfer \<Rightarrow> usbd_control_xfer) \<Rightarrow> usb \<Rightarrow> usb" where
  "on_ctrl f u = u\<lparr>ctrl_xfer := f (ctrl_xfer u)\<rparr>"

definition on_cdc :: "(cdcd_interface \<Rightarrow> cdcd_interface) \<Rightarrow> usb \<Rightarrow> usb" where
  "on_cdc f u = u\<lparr>cdcd_itf := f (cdcd_itf u)\<rparr>"

definition CFG_TUD_ENDPPOINT_MAX :: nat where "CFG_TUD_ENDPPOINT_MAX = 16"
definition CFG_TUD_ENDPOINT0_SIZE :: u16 where "CFG_TUD_ENDPOINT0_SIZE = 64"
definition CFG_TUD_TASK_QUEUE_SZ :: nat where "CFG_TUD_TASK_QUEUE_SZ = 16"
definition DRVID_INVALID :: u8 where "DRVID_INVALID = 0xFF"
definition TUSB_SPEED_FULL :: u8 where "TUSB_SPEED_FULL = 0"
definition TUSB_SPEED_HIGH :: u8 where "TUSB_SPEED_HIGH = 2"
definition EDPT_CTRL_OUT :: u8 where "EDPT_CTRL_OUT = 0x00"
definition EDPT_CTRL_IN :: u8 where "EDPT_CTRL_IN = 0x80"

section \<open>Requests\<close>

definition req_recipient :: "tusb_control_request \<Rightarrow> u8" where
  "req_recipient r = bmRequestType r AND 0x1F"

definition req_type :: "tusb_control_request \<Rightarrow> u8" where
  "req_type r = drop_bit 5 (bmRequestType r) AND 3"

definition req_direction :: "tusb_control_request \<Rightarrow> tusb_dir" where
  "req_direction r = (if bmRequestType r AND 0x80 \<noteq> 0 then TUSB_DIR_IN else TUSB_DIR_OUT)"

definition le16 :: "u8 \<Rightarrow> u8 \<Rightarrow> u16" where
  "le16 lo hi = ucast lo OR push_bit 8 (ucast hi)"

definition tu_u16_low :: "u16 \<Rightarrow> u8" where "tu_u16_low w = ucast w"
definition tu_u16_high :: "u16 \<Rightarrow> u8" where "tu_u16_high w = ucast (drop_bit 8 w)"

text \<open>The eight bytes of a setup packet.\<close>

definition setup_request :: "u8 list \<Rightarrow> tusb_control_request" where
  "setup_request b = \<lparr>bmRequestType = b ! 0, bRequest = b ! 1, wValue = le16 (b ! 2) (b ! 3),
     wIndex = le16 (b ! 4) (b ! 5), wLength = le16 (b ! 6) (b ! 7)\<rparr>"

section \<open>Events\<close>

definition osal_queue_send :: "dcd_event \<Rightarrow> usb \<Rightarrow> bool \<times> usb" where
  "osal_queue_send ev u =
     (if length (usbd_q u) < CFG_TUD_TASK_QUEUE_SZ then (True, u\<lparr>usbd_q := usbd_q u @ [ev]\<rparr>) else (False, u))"

definition osal_queue_receive :: "usb \<Rightarrow> dcd_event option \<times> usb" where
  "osal_queue_receive u = (case usbd_q u of [] \<Rightarrow> (None, u) | ev # q \<Rightarrow> (Some ev, u\<lparr>usbd_q := q\<rparr>))"

definition osal_queue_empty :: "usb \<Rightarrow> bool" where
  "osal_queue_empty u \<longleftrightarrow> usbd_q u = []"

text \<open>The result of sending is not looked at: an event that finds the queue full is lost.\<close>

definition dcd_event_handler :: "dcd_event \<Rightarrow> usb \<Rightarrow> usb" where
  "dcd_event_handler ev u =
     (case ev of
        DCD_EVENT_UNPLUGGED \<Rightarrow> snd (osal_queue_send ev
          (on_dev (\<lambda>d. d\<lparr>dev_connected := False, dev_addressed := False, cfg_num := 0, dev_suspended := False\<rparr>) u))
      | DCD_EVENT_SUSPEND \<Rightarrow>
          if dev_connected (usbd_dev u)
          then snd (osal_queue_send ev (on_dev (\<lambda>d. d\<lparr>dev_suspended := True\<rparr>) u)) else u
      | DCD_EVENT_RESUME \<Rightarrow>
          if dev_connected (usbd_dev u)
          then snd (osal_queue_send ev (on_dev (\<lambda>d. d\<lparr>dev_suspended := False\<rparr>) u)) else u
      | DCD_EVENT_SOF \<Rightarrow>
          if dev_suspended (usbd_dev u)
          then snd (osal_queue_send DCD_EVENT_RESUME (on_dev (\<lambda>d. d\<lparr>dev_suspended := False\<rparr>) u)) else u
      | _ \<Rightarrow> snd (osal_queue_send ev u))"

definition dcd_event_bus_signal :: "dcd_event \<Rightarrow> usb \<Rightarrow> usb" where
  "dcd_event_bus_signal eid u = dcd_event_handler eid u"

definition dcd_event_bus_reset :: "u8 \<Rightarrow> usb \<Rightarrow> usb" where
  "dcd_event_bus_reset speed u = dcd_event_handler (DCD_EVENT_BUS_RESET speed) u"

definition dcd_event_setup_received :: "u8 list \<Rightarrow> usb \<Rightarrow> usb" where
  "dcd_event_setup_received setup u = dcd_event_handler (DCD_EVENT_SETUP_RECEIVED (setup_request setup)) u"

definition dcd_event_xfer_complete :: "u8 \<Rightarrow> u32 \<Rightarrow> u8 \<Rightarrow> usb \<Rightarrow> usb" where
  "dcd_event_xfer_complete ep_addr xferred_bytes result u =
     dcd_event_handler (DCD_EVENT_XFER_COMPLETE ep_addr xferred_bytes result) u"

section \<open>The interrupt of the controller\<close>

fun buff_status_loop :: "nat \<Rightarrow> nat \<Rightarrow> u32 \<Rightarrow> usb \<Rightarrow> fault + usb" where
  "buff_status_loop 0 i remaining u = Inr u"
| "buff_status_loop (Suc n) i remaining u =
     (if remaining = 0 then Inr u
      else if remaining AND push_bit i 1 \<noteq> 0 then
        let u1 = u\<lparr>hc := (hc u)\<lparr>buf_status := buf_status (hc u) AND NOT (push_bit i 1)\<rparr>\<rparr>
        in rbind (hw_endpoint_get_by_num (of_nat (i div 2)) (if even i then TUSB_DIR_IN else TUSB_DIR_OUT)) (\<lambda>e.
           rbind (hw_endpoint_xfer_continue e (hc u1)) (\<lambda>(complete, c).
             let u2 = u1\<lparr>hc := c\<rparr>; ep = hw_endpoints c e;
                 u3 = (if complete then
                         let u4 = dcd_event_xfer_complete (hw_ep_addr ep) (ucast (xferred_len ep)) 0 u2
                         in u4\<lparr>hc := hw_endpoint_reset_transfer e (hc u4)\<rparr>
                       else u2)
             in buff_status_loop n (Suc i) (remaining AND NOT (push_bit i 1)) u3))
      else buff_status_loop n (Suc i) remaining u)"

definition hw_handle_buff_status :: "usb \<Rightarrow> fault + usb" where
  "hw_handle_buff_status u = buff_status_loop (USB_MAX_ENDPOINTS * 2) 0 (buf_status (hc u)) u"

definition clear_sie_status :: "u32 \<Rightarrow> usb \<Rightarrow> usb" where
  "clear_sie_status bits u = u\<lparr>hc := (hc u)\<lparr>sie_status := sie_status (hc u) AND NOT bits\<rparr>\<rparr>"

text \<open>\<open>status\<close> is what the register of pending interrupts reads.\<close>

definition dcd_rp2040_irq :: "u32 \<Rightarrow> usb \<Rightarrow> fault + usb" where
  "dcd_rp2040_irq status u =
     (let u1 = (if status AND USB_INTS_SETUP_REQ_BITS \<noteq> 0 then
                  let v = u\<lparr>hc := reset_ep0_pid (hc u)\<rparr>
                  in clear_sie_status 0x20000 (dcd_event_setup_received (get_dpram 0 8 (hc v)) v)
                else u)
      in rbind (if status AND USB_INTS_BUFF_STATUS_BITS \<noteq> 0 then hw_handle_buff_status u1 else Inr u1) (\<lambda>u2.
         let u3 = (if status AND USB_INTS_BUS_RESET_BITS \<noteq> 0 then
                     let v = u2\<lparr>hc := reset_non_control_endpoints ((hc u2)\<lparr>dev_addr_ctrl := 0\<rparr>)\<rparr>
                     in clear_sie_status 0x80000 (dcd_event_bus_reset TUSB_SPEED_FULL v)
                   else u2);
             u4 = (if status AND USB_INTS_DEV_SUSPEND_BITS \<noteq> 0
                   then clear_sie_status 0x10 (dcd_event_bus_signal DCD_EVENT_SUSPEND u3) else u3);
             u5 = (if status AND USB_INTS_DEV_RESUME_FROM_HOST_BITS \<noteq> 0
                   then clear_sie_status 0x800 (dcd_event_bus_signal DCD_EVENT_RESUME u4) else u4);
             handled = status AND (USB_INTS_SETUP_REQ_BITS OR USB_INTS_BUFF_STATUS_BITS OR USB_INTS_BUS_RESET_BITS OR
               USB_INTS_DEV_SUSPEND_BITS OR USB_INTS_DEV_RESUME_FROM_HOST_BITS)
         in if status XOR handled \<noteq> 0 then Inl Panic else Inr u5))"

section \<open>Endpoints\<close>

definition edpt_slot :: "u8 \<Rightarrow> fault + ep_id" where
  "edpt_slot addr =
     (if unat (tu_edpt_number addr) < CFG_TUD_ENDPPOINT_MAX then Inr (unat (tu_edpt_number addr), tu_edpt_dir addr)
      else Inl OutOfBounds)"

definition put_status :: "ep_id \<Rightarrow> (ep_status \<Rightarrow> ep_status) \<Rightarrow> usb \<Rightarrow> usb" where
  "put_status e f u = on_dev (\<lambda>d. d\<lparr>ep_status := (ep_status d)(e := f (ep_status d e))\<rparr>) u"

definition status_of :: "ep_id \<Rightarrow> usb \<Rightarrow> ep_status" where
  "status_of e u = ep_status (usbd_dev u) e"

definition usbd_edpt_claim :: "u8 \<Rightarrow> usb \<Rightarrow> fault + (bool \<times> usb)" where
  "usbd_edpt_claim ep_addr u =
     rbind (edpt_slot ep_addr) (\<lambda>e.
       let ret = (\<not> ep_busy (status_of e u) \<and> \<not> ep_claimed (status_of e u))
       in Inr (ret, if ret then put_status e (\<lambda>s. s\<lparr>ep_claimed := True\<rparr>) u else u))"

definition usbd_edpt_release :: "u8 \<Rightarrow> usb \<Rightarrow> fault + (bool \<times> usb)" where
  "usbd_edpt_release ep_addr u =
     rbind (edpt_slot ep_addr) (\<lambda>e.
       let ret = (\<not> ep_busy (status_of e u) \<and> ep_claimed (status_of e u))
       in Inr (ret, if ret then put_status e (\<lambda>s. s\<lparr>ep_claimed := False\<rparr>) u else u))"

definition usbd_edpt_xfer :: "u8 \<Rightarrow> buf_ptr \<Rightarrow> u16 \<Rightarrow> usb \<Rightarrow> fault + (bool \<times> usb)" where
  "usbd_edpt_xfer ep_addr buffer total_bytes u =
     rbind (edpt_slot ep_addr) (\<lambda>e.
       if ep_busy (status_of e u) then Inr (False, u)
       else let u1 = put_status e (\<lambda>s. s\<lparr>ep_busy := True\<rparr>) u
            in rbind (dcd_edpt_xfer ep_addr buffer total_bytes (hc u1)) (\<lambda>(ok, c).
                 let u2 = u1\<lparr>hc := c\<rparr>
                 in if ok then Inr (True, u2)
                    else Inr (False, put_status e (\<lambda>s. s\<lparr>ep_busy := False, ep_claimed := False\<rparr>) u2)))"

definition usbd_edpt_busy :: "u8 \<Rightarrow> usb \<Rightarrow> fault + bool" where
  "usbd_edpt_busy ep_addr u = rbind (edpt_slot ep_addr) (\<lambda>e. Inr (ep_busy (status_of e u)))"

definition usbd_edpt_stall :: "u8 \<Rightarrow> usb \<Rightarrow> fault + usb" where
  "usbd_edpt_stall ep_addr u =
     rbind (edpt_slot ep_addr) (\<lambda>e.
       if \<not> ep_stalled (status_of e u) then
         rbind (on_hc (dcd_edpt_stall ep_addr) u) (\<lambda>u1.
           Inr (put_status e (\<lambda>s. s\<lparr>ep_stalled := True, ep_busy := True\<rparr>) u1))
       else Inr u)"

definition usbd_edpt_clear_stall :: "u8 \<Rightarrow> usb \<Rightarrow> fault + usb" where
  "usbd_edpt_clear_stall ep_addr u =
     rbind (edpt_slot ep_addr) (\<lambda>e.
       if ep_stalled (status_of e u) then
         rbind (on_hc (dcd_edpt_clear_stall ep_addr) u) (\<lambda>u1.
           Inr (put_status e (\<lambda>s. s\<lparr>ep_stalled := False, ep_busy := False\<rparr>) u1))
       else Inr u)"

definition usbd_edpt_stalled :: "u8 \<Rightarrow> usb \<Rightarrow> fault + bool" where
  "usbd_edpt_stalled ep_addr u = rbind (edpt_slot ep_addr) (\<lambda>e. Inr (ep_stalled (status_of e u)))"

definition usbd_edpt_close :: "u8 \<Rightarrow> usb \<Rightarrow> fault + usb" where
  "usbd_edpt_close ep_addr u =
     rbind (edpt_slot ep_addr) (\<lambda>e.
       Inr (put_status e (\<lambda>s. s\<lparr>ep_stalled := False, ep_busy := False, ep_claimed := False\<rparr>)
         (u\<lparr>hc := dcd_edpt_close ep_addr (hc u)\<rparr>)))"

section \<open>Descriptors\<close>

text \<open>A descriptor is at a place in the bytes of the configuration.\<close>

definition desc_byte :: "u8 list \<Rightarrow> nat \<Rightarrow> fault + u8" where
  "desc_byte d p = (if p < length d then Inr (d ! p) else Inl OutOfBounds)"

definition tu_desc_len :: "u8 list \<Rightarrow> nat \<Rightarrow> fault + u8" where
  "tu_desc_len d p = desc_byte d p"

definition tu_desc_type :: "u8 list \<Rightarrow> nat \<Rightarrow> fault + u8" where
  "tu_desc_type d p = desc_byte d (p + 1)"

definition tu_desc_next :: "u8 list \<Rightarrow> nat \<Rightarrow> fault + nat" where
  "tu_desc_next d p = rbind (desc_byte d p) (\<lambda>l. Inr (p + unat l))"

definition TUSB_DESC_CONFIGURATION :: u8 where "TUSB_DESC_CONFIGURATION = 2"
definition TUSB_DESC_INTERFACE :: u8 where "TUSB_DESC_INTERFACE = 4"
definition TUSB_DESC_ENDPOINT :: u8 where "TUSB_DESC_ENDPOINT = 5"
definition TUSB_DESC_INTERFACE_ASSOCIATION :: u8 where "TUSB_DESC_INTERFACE_ASSOCIATION = 0x0B"
definition TUSB_DESC_CS_INTERFACE :: u8 where "TUSB_DESC_CS_INTERFACE = 0x24"

definition desc_word :: "u8 list \<Rightarrow> nat \<Rightarrow> fault + u16" where
  "desc_word d p = rbind (desc_byte d p) (\<lambda>lo. rbind (desc_byte d (p + 1)) (\<lambda>hi. Inr (le16 lo hi)))"

text \<open>The type of transfer and the packet size of an endpoint descriptor; the size has 11 bits.\<close>

definition desc_xfer :: "u8 list \<Rightarrow> nat \<Rightarrow> fault + u8" where
  "desc_xfer d p = rbind (desc_byte d (p + 3)) (\<lambda>b. Inr (b AND 3))"

definition desc_size :: "u8 list \<Rightarrow> nat \<Rightarrow> fault + u16" where
  "desc_size d p = rbind (desc_word d (p + 4)) (\<lambda>w. Inr (w AND 0x7FF))"

definition tu_edpt_validate :: "u8 \<Rightarrow> u16 \<Rightarrow> u8 \<Rightarrow> bool" where
  "tu_edpt_validate xfer max_packet_size speed =
     (if xfer = 1 then max_packet_size \<le> (if speed = TUSB_SPEED_HIGH then 1024 else 1023)
      else if xfer = TUSB_XFER_BULK then
        (if speed = TUSB_SPEED_HIGH then max_packet_size = 512 else max_packet_size \<le> 64)
      else if xfer = 3 then max_packet_size \<le> (if speed = TUSB_SPEED_HIGH then 1024 else 64)
      else False)"

definition usbd_edpt_open :: "u8 list \<Rightarrow> nat \<Rightarrow> usb \<Rightarrow> fault + (bool \<times> usb)" where
  "usbd_edpt_open d p u =
     rbind (desc_byte d (p + 2)) (\<lambda>addr. rbind (desc_xfer d p) (\<lambda>xfer. rbind (desc_size d p) (\<lambda>sz.
       if unat (tu_edpt_number addr) \<ge> CFG_TUD_ENDPPOINT_MAX then Inr (False, u)
       else if \<not> tu_edpt_validate xfer sz (dev_speed (usbd_dev u)) then Inr (False, u)
       else rbind (dcd_edpt_open addr sz xfer (hc u)) (\<lambda>(ok, c). Inr (ok, u\<lparr>hc := c\<rparr>)))))"

fun usbd_open_edpt_pair ::
    "u8 list \<Rightarrow> nat \<Rightarrow> nat \<Rightarrow> u8 \<Rightarrow> u8 \<Rightarrow> u8 \<Rightarrow> usb \<Rightarrow> fault + (bool \<times> u8 \<times> u8 \<times> usb)" where
  "usbd_open_edpt_pair d p 0 xfer_type epout epin u = Inr (True, epout, epin, u)"
| "usbd_open_edpt_pair d p (Suc n) xfer_type epout epin u =
     rbind (tu_desc_type d p) (\<lambda>ty. rbind (desc_xfer d p) (\<lambda>xfer.
       if \<not> (ty = TUSB_DESC_ENDPOINT \<and> xfer = xfer_type) then Inr (False, epout, epin, u)
       else rbind (usbd_edpt_open d p u) (\<lambda>(ok, u1).
         if \<not> ok then Inr (False, epout, epin, u1)
         else rbind (desc_byte d (p + 2)) (\<lambda>addr. rbind (tu_desc_next d p) (\<lambda>p1.
           if tu_edpt_dir addr = TUSB_DIR_IN then usbd_open_edpt_pair d p1 n xfer_type epout addr u1
           else usbd_open_edpt_pair d p1 n xfer_type addr epin u1)))))"

text \<open>\<open>n\<close> bounds the number of descriptors; each has at least one byte.\<close>

fun bind_driver :: "nat \<Rightarrow> u8 list \<Rightarrow> nat \<Rightarrow> u16 \<Rightarrow> u16 \<Rightarrow> u8 \<Rightarrow> usb \<Rightarrow> fault + usb" where
  "bind_driver 0 d p len desc_len drv u = Inl Exhausted"
| "bind_driver (Suc n) d p len desc_len drv u =
     (if \<not> len < desc_len then Inr u
      else rbind (tu_desc_type d p) (\<lambda>ty.
           rbind (if ty = TUSB_DESC_ENDPOINT
                  then rbind (desc_byte d (p + 2)) (\<lambda>addr. rbind (edpt_slot addr) (\<lambda>e.
                         Inr (on_dev (\<lambda>v. v\<lparr>ep2drv := (ep2drv v)(e := drv)\<rparr>) u)))
                  else Inr u) (\<lambda>u1.
           rbind (tu_desc_len d p) (\<lambda>l. rbind (tu_desc_next d p) (\<lambda>p1.
             bind_driver n d p1 (len + ucast l) desc_len drv u1)))))"

definition tu_edpt_bind_driver :: "u8 list \<Rightarrow> nat \<Rightarrow> u16 \<Rightarrow> u8 \<Rightarrow> usb \<Rightarrow> fault + usb" where
  "tu_edpt_bind_driver d p desc_len drv u = bind_driver (Suc (unat desc_len)) d p 0 desc_len drv u"

section \<open>Control transfers\<close>

definition get_ctrl_data :: "ctrl_ptr \<Rightarrow> nat \<Rightarrow> usb \<Rightarrow> fault + u8 list" where
  "get_ctrl_data p n u =
     (case p of
        Null \<Rightarrow> Inl NullPointer
      | Data bs \<Rightarrow> read_bytes bs 0 n
      | Line_Coding off \<Rightarrow> read_bytes (line_coding (cdcd_itf u)) off n)"

text \<open>Data of a request lies in constants, or on the stack of a function that has returned.\<close>

definition put_ctrl_data :: "ctrl_ptr \<Rightarrow> u8 list \<Rightarrow> usb \<Rightarrow> fault + usb" where
  "put_ctrl_data p bs u =
     (case p of
        Null \<Rightarrow> Inl NullPointer
      | Data _ \<Rightarrow> if bs = [] then Inr u else Inl BufferOverflow
      | Line_Coding off \<Rightarrow> rbind (write_bytes (line_coding (cdcd_itf u)) off bs) (\<lambda>l.
          Inr (on_cdc (\<lambda>c. c\<lparr>line_coding := l\<rparr>) u)))"

definition advance_ctrl :: "ctrl_ptr \<Rightarrow> nat \<Rightarrow> ctrl_ptr" where
  "advance_ctrl p n = (case p of Null \<Rightarrow> Null | Data bs \<Rightarrow> Data (drop n bs) | Line_Coding off \<Rightarrow> Line_Coding (off + n))"

definition status_stage_xact :: "tusb_control_request \<Rightarrow> usb \<Rightarrow> fault + (bool \<times> usb)" where
  "status_stage_xact r u =
     usbd_edpt_xfer (if req_direction r = TUSB_DIR_IN then EDPT_CTRL_OUT else EDPT_CTRL_IN) None 0 u"

definition tud_control_status :: "tusb_control_request \<Rightarrow> usb \<Rightarrow> fault + (bool \<times> usb)" where
  "tud_control_status r u =
     status_stage_xact r (on_ctrl (\<lambda>x. x\<lparr>ctrl_request := r, ctrl_buffer := Null, total_xferred := 0, data_len := 0\<rparr>) u)"

definition data_stage_xact :: "usb \<Rightarrow> fault + (bool \<times> usb)" where
  "data_stage_xact u =
     (let x = ctrl_xfer u; xact_len = min (data_len x - total_xferred x) CFG_TUD_ENDPOINT0_SIZE;
          buf = (if xact_len \<noteq> 0 then Some (Usbd_Ctrl_Buf, 0) else None)
      in if req_direction (ctrl_request x) = TUSB_DIR_IN then
           rbind (if xact_len \<noteq> 0 then
                    rbind (get_ctrl_data (ctrl_buffer x) (unat xact_len) u) (\<lambda>bs.
                    rbind (write_bytes (ram (hc u) Usbd_Ctrl_Buf) 0 bs) (\<lambda>m.
                      Inr (u\<lparr>hc := (hc u)\<lparr>ram := (ram (hc u))(Usbd_Ctrl_Buf := m)\<rparr>\<rparr>)))
                  else Inr u) (\<lambda>u1. usbd_edpt_xfer EDPT_CTRL_IN buf xact_len u1)
         else usbd_edpt_xfer EDPT_CTRL_OUT buf xact_len u)"

definition tud_control_xfer :: "tusb_control_request \<Rightarrow> ctrl_ptr \<Rightarrow> u16 \<Rightarrow> usb \<Rightarrow> fault + (bool \<times> usb)" where
  "tud_control_xfer r buffer len u =
     (let u1 = on_ctrl (\<lambda>x. x\<lparr>ctrl_request := r, ctrl_buffer := buffer, total_xferred := 0,
                 data_len := min len (wLength r)\<rparr>) u
      in if wLength r > 0 then
           (if data_len (ctrl_xfer u1) > 0 \<and> buffer = Null then Inr (False, u1) else data_stage_xact u1)
         else status_stage_xact r u1)"

definition no_request :: tusb_control_request where
  "no_request = \<lparr>bmRequestType = 0, bRequest = 0, wValue = 0, wIndex = 0, wLength = 0\<rparr>"

definition usbd_control_reset :: "usb \<Rightarrow> usb" where
  "usbd_control_reset u = u\<lparr>ctrl_xfer := \<lparr>ctrl_request = no_request, ctrl_buffer = Null, data_len = 0,
     total_xferred = 0, complete_cb = None\<rparr>\<rparr>"

definition usbd_control_set_complete_callback :: "class_driver option \<Rightarrow> usb \<Rightarrow> usb" where
  "usbd_control_set_complete_callback fp u = on_ctrl (\<lambda>x. x\<lparr>complete_cb := fp\<rparr>) u"

definition usbd_control_set_request :: "tusb_control_request \<Rightarrow> usb \<Rightarrow> usb" where
  "usbd_control_set_request r u =
     on_ctrl (\<lambda>x. x\<lparr>ctrl_request := r, ctrl_buffer := Null, total_xferred := 0, data_len := 0\<rparr>) u"

definition dcd_edpt0_status_complete :: "tusb_control_request \<Rightarrow> usb_ctl \<Rightarrow> usb_ctl" where
  "dcd_edpt0_status_complete r c =
     (if req_recipient r = 0 \<and> req_type r = 0 \<and> bRequest r = 5
      then c\<lparr>dev_addr_ctrl := ucast (ucast (wValue r) :: u8)\<rparr> else c)"

section \<open>The device\<close>

definition tud_connected :: "usb \<Rightarrow> bool" where "tud_connected u = dev_connected (usbd_dev u)"
definition tud_mounted :: "usb \<Rightarrow> bool" where "tud_mounted u \<longleftrightarrow> cfg_num (usbd_dev u) \<noteq> 0"
definition tud_suspended :: "usb \<Rightarrow> bool" where "tud_suspended u = dev_suspended (usbd_dev u)"
definition tud_speed_get :: "usb \<Rightarrow> u8" where "tud_speed_get u = dev_speed (usbd_dev u)"

definition tud_ready :: "usb \<Rightarrow> bool" where
  "tud_ready u \<longleftrightarrow> tud_mounted u \<and> \<not> tud_suspended u"

definition tud_remote_wakeup :: "usb \<Rightarrow> bool \<times> usb" where
  "tud_remote_wakeup u =
     (let d = usbd_dev u
      in if dev_suspended d \<and> remote_wakeup_support d \<and> remote_wakeup_en d
         then (True, u\<lparr>hc := dcd_remote_wakeup (hc u)\<rparr>) else (False, u))"

definition tud_disconnect :: "usb \<Rightarrow> bool \<times> usb" where
  "tud_disconnect u = (True, u\<lparr>hc := dcd_disconnect (hc u)\<rparr>)"

definition tud_connect :: "usb \<Rightarrow> bool \<times> usb" where
  "tud_connect u = (True, u\<lparr>hc := dcd_connect (hc u)\<rparr>)"

definition tud_inited :: "usb \<Rightarrow> bool" where "tud_inited u = usbd_initialized u"
definition tusb_inited :: "usb \<Rightarrow> bool" where "tusb_inited u = tud_inited u"

end
