(* ===== verification/Usb_Cdc.thy ===== *)
theory Usb_Cdc
  imports Usbd
begin

text \<open>
  The serial line over USB (\<open>class/cdc/cdc_device.c\<close>): two FIFOs of 256 bytes between the program and the
  endpoints. There is one interface. The callbacks of the class are not defined by the program, but for
  the one of \<open>pico_stdio_usb/reset_interface.c\<close> that restarts the chip when the host sets 1200 baud.
\<close>

definition BULK_PACKET_SIZE :: u16 where "BULK_PACKET_SIZE = 64"
definition CFG_TUD_CDC_EP_BUFSIZE :: u16 where "CFG_TUD_CDC_EP_BUFSIZE = 64"
definition CFG_TUD_CDC_RX_BUFSIZE :: u16 where "CFG_TUD_CDC_RX_BUFSIZE = 256"
definition CFG_TUD_CDC_TX_BUFSIZE :: u16 where "CFG_TUD_CDC_TX_BUFSIZE = 256"

definition set_rx_ff :: "tu_fifo \<Rightarrow> usb \<Rightarrow> usb" where
  "set_rx_ff f u = on_cdc (\<lambda>c. c\<lparr>rx_ff := f\<rparr>) u"

definition set_tx_ff :: "tu_fifo \<Rightarrow> usb \<Rightarrow> usb" where
  "set_tx_ff f u = on_cdc (\<lambda>c. c\<lparr>tx_ff := f\<rparr>) u"

definition bytes_read :: "app_buf option \<Rightarrow> u8 list" where
  "bytes_read b = (case b of Some (Memory bs) \<Rightarrow> bs | _ \<Rightarrow> [])"

section \<open>Reading\<close>

definition prep_out_transaction :: "usb \<Rightarrow> fault + usb" where
  "prep_out_transaction u =
     (if tu_fifo_remaining (rx_ff (cdcd_itf u)) < CFG_TUD_CDC_EP_BUFSIZE then Inr u
      else rbind (usbd_edpt_claim (ep_out (cdcd_itf u)) u) (\<lambda>(claimed, u1).
        if \<not> claimed then Inr u1
        else if tu_fifo_remaining (rx_ff (cdcd_itf u1)) \<ge> CFG_TUD_CDC_EP_BUFSIZE then
          rbind (usbd_edpt_xfer (ep_out (cdcd_itf u1)) (Some (Epout_Buf, 0)) CFG_TUD_CDC_EP_BUFSIZE u1) (\<lambda>(_, u2). Inr u2)
        else rbind (usbd_edpt_release (ep_out (cdcd_itf u1)) u1) (\<lambda>(_, u2). Inr u2)))"

definition tud_cdc_n_connected :: "usb \<Rightarrow> bool" where
  "tud_cdc_n_connected u \<longleftrightarrow> tud_ready u \<and> line_state (cdcd_itf u) AND 1 \<noteq> 0"

definition tud_cdc_n_get_line_state :: "usb \<Rightarrow> u8" where
  "tud_cdc_n_get_line_state u = line_state (cdcd_itf u)"

definition tud_cdc_n_get_line_coding :: "usb \<Rightarrow> u8 list" where
  "tud_cdc_n_get_line_coding u = line_coding (cdcd_itf u)"

definition tud_cdc_n_set_wanted_char :: "u8 \<Rightarrow> usb \<Rightarrow> usb" where
  "tud_cdc_n_set_wanted_char wanted u = on_cdc (\<lambda>c. c\<lparr>wanted_char := wanted\<rparr>) u"

definition tud_cdc_n_available :: "usb \<Rightarrow> u32" where
  "tud_cdc_n_available u = ucast (tu_fifo_count (rx_ff (cdcd_itf u)))"

text \<open>The FIFO takes the low 16 bits of the size.\<close>

definition tud_cdc_n_read :: "u32 \<Rightarrow> usb \<Rightarrow> fault + (u32 \<times> u8 list \<times> usb)" where
  "tud_cdc_n_read bufsize u =
     rbind (tu_fifo_read_n (rx_ff (cdcd_itf u)) (ucast bufsize)) (\<lambda>(num_read, b, f).
     rbind (prep_out_transaction (set_rx_ff f u)) (\<lambda>u1. Inr (ucast num_read, bytes_read b, u1)))"

definition tud_cdc_n_read_char :: "usb \<Rightarrow> fault + (u8 option \<times> usb)" where
  "tud_cdc_n_read_char u =
     rbind (tud_cdc_n_read 1 u) (\<lambda>(n, b, u1).
       if n = 0 then Inr (None, u1) else case b of [] \<Rightarrow> Inl Uninitialised | c # _ \<Rightarrow> Inr (Some c, u1))"

definition tud_cdc_n_peek :: "usb \<Rightarrow> fault + (u8 list option \<times> usb)" where
  "tud_cdc_n_peek u = rbind (tu_fifo_peek (rx_ff (cdcd_itf u))) (\<lambda>(b, f). Inr (b, set_rx_ff f u))"

definition tud_cdc_n_read_flush :: "usb \<Rightarrow> fault + usb" where
  "tud_cdc_n_read_flush u =
     rbind (tu_fifo_clear (rx_ff (cdcd_itf u))) (\<lambda>(_, f). prep_out_transaction (set_rx_ff f u))"

section \<open>Writing\<close>

definition tud_cdc_n_write_flush :: "usb \<Rightarrow> fault + (u32 \<times> usb)" where
  "tud_cdc_n_write_flush u =
     (if \<not> tud_ready u then Inr (0, u)
      else if tu_fifo_count (tx_ff (cdcd_itf u)) = 0 then Inr (0, u)
      else rbind (usbd_edpt_claim (ep_in (cdcd_itf u)) u) (\<lambda>(claimed, u1).
        if \<not> claimed then Inr (0, u1)
        else rbind (tu_fifo_read_n (tx_ff (cdcd_itf u1)) CFG_TUD_CDC_EP_BUFSIZE) (\<lambda>(count, b, f).
             rbind (write_bytes (ram (hc u1) Epin_Buf) 0 (bytes_read b)) (\<lambda>m.
             let u2 = (set_tx_ff f u1)\<lparr>hc := (hc u1)\<lparr>ram := (ram (hc u1))(Epin_Buf := m)\<rparr>\<rparr>
             in if count \<noteq> 0 then
                  rbind (usbd_edpt_xfer (ep_in (cdcd_itf u2)) (Some (Epin_Buf, 0)) count u2) (\<lambda>(ok, u3).
                    Inr (if ok then ucast count else 0, u3))
                else rbind (usbd_edpt_release (ep_in (cdcd_itf u2)) u2) (\<lambda>(_, u3). Inr (0, u3))))))"

definition tud_cdc_n_write :: "u8 list \<Rightarrow> u32 \<Rightarrow> usb \<Rightarrow> fault + (u32 \<times> usb)" where
  "tud_cdc_n_write buffer bufsize u =
     rbind (tu_fifo_write_n (tx_ff (cdcd_itf u)) buffer (ucast bufsize)) (\<lambda>(ret, f).
     let u1 = set_tx_ff f u
     in rbind (if tu_fifo_count (tx_ff (cdcd_itf u1)) \<ge> BULK_PACKET_SIZE
               then rbind (tud_cdc_n_write_flush u1) (\<lambda>(_, u2). Inr u2) else Inr u1) (\<lambda>u3.
          Inr (ucast ret, u3)))"

definition tud_cdc_n_write_char :: "u8 \<Rightarrow> usb \<Rightarrow> fault + (u32 \<times> usb)" where
  "tud_cdc_n_write_char ch u = tud_cdc_n_write [ch] 1 u"

definition tud_cdc_n_write_available :: "usb \<Rightarrow> u32" where
  "tud_cdc_n_write_available u = ucast (tu_fifo_remaining (tx_ff (cdcd_itf u)))"

definition tud_cdc_n_write_clear :: "usb \<Rightarrow> fault + (bool \<times> usb)" where
  "tud_cdc_n_write_clear u = rbind (tu_fifo_clear (tx_ff (cdcd_itf u))) (\<lambda>(ok, f). Inr (ok, set_tx_ff f u))"

section \<open>The class driver\<close>

definition zero_fifo :: tu_fifo where
  "zero_fifo = \<lparr>ff_buffer = [], depth = 0, item_size = 0, overwritable = False, non_used_index_space = 0,
     max_pointer_idx = 0, wr_idx = 0, rd_idx = 0, mutex_wr = None, mutex_rd = None\<rparr>"

definition cdcd_init :: "usb \<Rightarrow> fault + usb" where
  "cdcd_init u =
     rbind (tu_fifo_config zero_fifo (replicate (unat CFG_TUD_CDC_RX_BUFSIZE) 0) CFG_TUD_CDC_RX_BUFSIZE 1 False) (\<lambda>(_, rx).
     rbind (tu_fifo_config zero_fifo (replicate (unat CFG_TUD_CDC_TX_BUFSIZE) 0) CFG_TUD_CDC_TX_BUFSIZE 1 True) (\<lambda>(_, tx).
       Inr (u\<lparr>hc := (hc u)\<lparr>ram := (ram (hc u))(Epout_Buf := replicate 64 0, Epin_Buf := replicate 64 0)\<rparr>,
          cdcd_itf := \<lparr>itf_num = 0, ep_notif = 0, ep_in = 0, ep_out = 0, line_state = 0,
          wanted_char = 0xFF, line_coding = [0x00, 0xC2, 0x01, 0x00, 0, 0, 8],
          rx_ff = tu_fifo_config_mutex rx None (Some False), tx_ff = tu_fifo_config_mutex tx (Some False) None\<rparr>\<rparr>)))"

definition cdcd_reset :: "usb \<Rightarrow> fault + usb" where
  "cdcd_reset u =
     (let u1 = on_cdc (\<lambda>c. c\<lparr>itf_num := 0, ep_notif := 0, ep_in := 0, ep_out := 0, line_state := 0\<rparr>) u
      in rbind (tu_fifo_clear (rx_ff (cdcd_itf u1))) (\<lambda>(_, rx).
         rbind (tu_fifo_clear (tx_ff (cdcd_itf u1))) (\<lambda>(_, tx).
         rbind (tu_fifo_set_overwritable tx True) (\<lambda>(_, tx1).
           Inr (set_tx_ff tx1 (set_rx_ff rx u1))))))"

text \<open>The functional descriptors after the interface; \<open>n\<close> bounds their number.\<close>

fun skip_functional :: "nat \<Rightarrow> u8 list \<Rightarrow> nat \<Rightarrow> u16 \<Rightarrow> u16 \<Rightarrow> fault + (nat \<times> u16)" where
  "skip_functional 0 d p drv_len max_len = Inl Exhausted"
| "skip_functional (Suc n) d p drv_len max_len =
     rbind (tu_desc_type d p) (\<lambda>ty.
       if ty = TUSB_DESC_CS_INTERFACE \<and> drv_len \<le> max_len then
         rbind (tu_desc_len d p) (\<lambda>l. rbind (tu_desc_next d p) (\<lambda>p1. skip_functional n d p1 (drv_len + ucast l) max_len))
       else Inr (p, drv_len))"

definition TUSB_CLASS_CDC :: u8 where "TUSB_CLASS_CDC = 2"
definition TUSB_CLASS_CDC_DATA :: u8 where "TUSB_CLASS_CDC_DATA = 10"
definition CDC_COMM_SUBCLASS_ABSTRACT_CONTROL_MODEL :: u8 where "CDC_COMM_SUBCLASS_ABSTRACT_CONTROL_MODEL = 2"

definition cdcd_open :: "u8 list \<Rightarrow> nat \<Rightarrow> u16 \<Rightarrow> usb \<Rightarrow> fault + (u16 \<times> usb)" where
  "cdcd_open d p max_len u =
     rbind (desc_byte d (p + 5)) (\<lambda>cls. rbind (desc_byte d (p + 6)) (\<lambda>subcls.
     if \<not> (cls = TUSB_CLASS_CDC \<and> subcls = CDC_COMM_SUBCLASS_ABSTRACT_CONTROL_MODEL) then Inr (0, u)
     else if ep_in (cdcd_itf u) \<noteq> 0 then Inr (0, u)
     else
       rbind (desc_byte d (p + 2)) (\<lambda>num. let u1 = on_cdc (\<lambda>c. c\<lparr>itf_num := num\<rparr>) u in
       rbind (tu_desc_next d p) (\<lambda>p1. rbind (skip_functional (Suc (length d)) d p1 9 max_len) (\<lambda>(p2, len2).
       rbind (tu_desc_type d p2) (\<lambda>ty2.
       rbind (if ty2 = TUSB_DESC_ENDPOINT then
                rbind (usbd_edpt_open d p2 u1) (\<lambda>(ok, u2).
                  if \<not> ok then Inr (False, p2, len2, u2)
                  else rbind (desc_byte d (p2 + 2)) (\<lambda>addr. rbind (tu_desc_len d p2) (\<lambda>l. rbind (tu_desc_next d p2) (\<lambda>p3.
                    Inr (True, p3, len2 + ucast l, on_cdc (\<lambda>c. c\<lparr>ep_notif := addr\<rparr>) u2)))))
              else Inr (True, p2, len2, u1)) (\<lambda>(ok, p3, len3, u3).
       if \<not> ok then Inr (0, u3)
       else rbind (tu_desc_type d p3) (\<lambda>ty3. rbind (if ty3 = TUSB_DESC_INTERFACE then desc_byte d (p3 + 5) else Inr 0) (\<lambda>cls3.
       rbind (if ty3 = TUSB_DESC_INTERFACE \<and> cls3 = TUSB_CLASS_CDC_DATA then
                rbind (tu_desc_len d p3) (\<lambda>l. rbind (tu_desc_next d p3) (\<lambda>p4.
                rbind (usbd_open_edpt_pair d p4 2 TUSB_XFER_BULK (ep_out (cdcd_itf u3)) (ep_in (cdcd_itf u3)) u3)
                  (\<lambda>(ok, eo, ei, u4).
                  Inr (ok, len3 + ucast l + 14, on_cdc (\<lambda>c. c\<lparr>ep_out := eo, ep_in := ei\<rparr>) u4))))
              else Inr (True, len3, u3)) (\<lambda>(ok, len4, u4).
       if \<not> ok then Inr (0, u4)
       else rbind (prep_out_transaction u4) (\<lambda>u5. Inr (len4, u5))))))))))))"

datatype control_stage = CONTROL_STAGE_SETUP | CONTROL_STAGE_DATA | CONTROL_STAGE_ACK

definition PICO_STDIO_USB_RESET_MAGIC_BAUD_RATE :: u32 where "PICO_STDIO_USB_RESET_MAGIC_BAUD_RATE = 1200"

definition bit_rate :: "u8 list \<Rightarrow> u32" where
  "bit_rate l = bytes_word (take 4 l)"

definition tud_cdc_line_coding_cb :: "u8 list \<Rightarrow> usb \<Rightarrow> fault + usb" where
  "tud_cdc_line_coding_cb l u = (if bit_rate l = PICO_STDIO_USB_RESET_MAGIC_BAUD_RATE then Inl (Bootsel 0 0) else Inr u)"

definition cdcd_control_xfer_cb :: "control_stage \<Rightarrow> tusb_control_request \<Rightarrow> usb \<Rightarrow> fault + (bool \<times> usb)" where
  "cdcd_control_xfer_cb stage r u =
     (if req_type r \<noteq> 1 then Inr (False, u)
      else if ucast (itf_num (cdcd_itf u)) \<noteq> wIndex r then Inr (False, u)
      else if bRequest r = 0x20 then
        (case stage of
           CONTROL_STAGE_SETUP \<Rightarrow> rbind (tud_control_xfer r (Line_Coding 0) 7 u) (\<lambda>(_, u1). Inr (True, u1))
         | CONTROL_STAGE_DATA \<Rightarrow> Inr (True, u)
         | CONTROL_STAGE_ACK \<Rightarrow> rbind (tud_cdc_line_coding_cb (line_coding (cdcd_itf u)) u) (\<lambda>u1. Inr (True, u1)))
      else if bRequest r = 0x21 then
        (if stage = CONTROL_STAGE_SETUP
         then rbind (tud_control_xfer r (Line_Coding 0) 7 u) (\<lambda>(_, u1). Inr (True, u1)) else Inr (True, u))
      else if bRequest r = 0x22 then
        (case stage of
           CONTROL_STAGE_SETUP \<Rightarrow> rbind (tud_control_status r u) (\<lambda>(_, u1). Inr (True, u1))
         | CONTROL_STAGE_DATA \<Rightarrow> Inr (True, u)
         | CONTROL_STAGE_ACK \<Rightarrow>
             let dtr = (wValue r AND 1 \<noteq> 0); u1 = on_cdc (\<lambda>c. c\<lparr>line_state := ucast (wValue r)\<rparr>) u
             in rbind (tu_fifo_set_overwritable (tx_ff (cdcd_itf u1)) (\<not> dtr)) (\<lambda>(_, f). Inr (True, set_tx_ff f u1)))
      else if bRequest r = 0x23 then
        (if stage = CONTROL_STAGE_SETUP
         then rbind (tud_control_status r u) (\<lambda>(_, u1). Inr (True, u1)) else Inr (True, u))
      else Inr (False, u))"

definition cdcd_xfer_cb :: "u8 \<Rightarrow> u32 \<Rightarrow> usb \<Rightarrow> fault + (bool \<times> usb)" where
  "cdcd_xfer_cb ep_addr xferred_bytes u =
     (if ep_addr \<noteq> ep_out (cdcd_itf u) \<and> ep_addr \<noteq> ep_in (cdcd_itf u) then Inr (False, u)
      else
        rbind (if ep_addr = ep_out (cdcd_itf u) then
                 rbind (tu_fifo_write_n (rx_ff (cdcd_itf u)) (ram (hc u) Epout_Buf) (ucast xferred_bytes)) (\<lambda>(_, f).
                   prep_out_transaction (set_rx_ff f u))
               else Inr u) (\<lambda>u1.
        rbind (if ep_addr = ep_in (cdcd_itf u1) then
                 rbind (tud_cdc_n_write_flush u1) (\<lambda>(n, u2).
                   if n = 0 \<and> tu_fifo_count (tx_ff (cdcd_itf u2)) = 0 \<and> xferred_bytes \<noteq> 0 \<and>
                      xferred_bytes AND 63 = 0 then
                     rbind (usbd_edpt_claim (ep_in (cdcd_itf u2)) u2) (\<lambda>(claimed, u3).
                       if claimed then rbind (usbd_edpt_xfer (ep_in (cdcd_itf u3)) None 0 u3) (\<lambda>(_, u4). Inr u4)
                       else Inr u3)
                   else Inr u2)
               else Inr u1) (\<lambda>u5.
          Inr (True, u5))))"

end
