(* ===== verification/Usb_Descriptors.thy ===== *)
theory Usb_Descriptors
  imports Usb_Cdc
begin

text \<open>
  The descriptors of the device (\<open>pico_stdio_usb/stdio_usb_descriptors.c\<close>) and its second class driver,
  through which the host restarts the chip (\<open>pico_stdio_usb/reset_interface.c\<close>). The
  identifier of the board is read from the flash at startup (\<open>board_id\<close>).
\<close>

section \<open>Descriptors\<close>

definition USBD_ITF_CDC :: u8 where "USBD_ITF_CDC = 0"
definition USBD_ITF_RPI_RESET :: u8 where "USBD_ITF_RPI_RESET = 2"
definition USBD_CDC_EP_CMD :: u8 where "USBD_CDC_EP_CMD = 0x81"
definition USBD_CDC_EP_OUT :: u8 where "USBD_CDC_EP_OUT = 0x02"
definition USBD_CDC_EP_IN :: u8 where "USBD_CDC_EP_IN = 0x82"

definition usbd_desc_device :: "u8 list" where
  "usbd_desc_device = [18, 1, 0x00, 0x02, 0xEF, 2, 1, 64, 0x8A, 0x2E, 0x0A, 0x00, 0x00, 0x01, 1, 2, 3, 1]"

definition TUD_CONFIG_DESCRIPTOR :: "u8 \<Rightarrow> u8 \<Rightarrow> u8 \<Rightarrow> u16 \<Rightarrow> u8 \<Rightarrow> nat \<Rightarrow> u8 list" where
  "TUD_CONFIG_DESCRIPTOR config_num itfcount stridx total_len attribute power_ma =
     [9, TUSB_DESC_CONFIGURATION, tu_u16_low total_len, tu_u16_high total_len, itfcount, config_num, stridx,
      0x80 OR attribute, of_nat (power_ma div 2)]"

definition TUD_CDC_DESCRIPTOR :: "u8 \<Rightarrow> u8 \<Rightarrow> u8 \<Rightarrow> u16 \<Rightarrow> u8 \<Rightarrow> u8 \<Rightarrow> u16 \<Rightarrow> u8 list" where
  "TUD_CDC_DESCRIPTOR itfnum stridx notif notif_size epout epin epsize =
     [8, TUSB_DESC_INTERFACE_ASSOCIATION, itfnum, 2, TUSB_CLASS_CDC, CDC_COMM_SUBCLASS_ABSTRACT_CONTROL_MODEL, 0, 0,
      9, TUSB_DESC_INTERFACE, itfnum, 0, 1, TUSB_CLASS_CDC, CDC_COMM_SUBCLASS_ABSTRACT_CONTROL_MODEL, 0, stridx,
      5, TUSB_DESC_CS_INTERFACE, 0, 0x20, 0x01,
      5, TUSB_DESC_CS_INTERFACE, 1, 0, itfnum + 1,
      4, TUSB_DESC_CS_INTERFACE, 2, 2,
      5, TUSB_DESC_CS_INTERFACE, 6, itfnum, itfnum + 1,
      7, TUSB_DESC_ENDPOINT, notif, 3, tu_u16_low notif_size, tu_u16_high notif_size, 16,
      9, TUSB_DESC_INTERFACE, itfnum + 1, 0, 2, TUSB_CLASS_CDC_DATA, 0, 0, 0,
      7, TUSB_DESC_ENDPOINT, epout, TUSB_XFER_BULK, tu_u16_low epsize, tu_u16_high epsize, 0,
      7, TUSB_DESC_ENDPOINT, epin, TUSB_XFER_BULK, tu_u16_low epsize, tu_u16_high epsize, 0]"

definition TUSB_CLASS_VENDOR_SPECIFIC :: u8 where "TUSB_CLASS_VENDOR_SPECIFIC = 0xFF"
definition RESET_INTERFACE_SUBCLASS :: u8 where "RESET_INTERFACE_SUBCLASS = 0x00"
definition RESET_INTERFACE_PROTOCOL :: u8 where "RESET_INTERFACE_PROTOCOL = 0x01"
definition RESET_REQUEST_BOOTSEL :: u8 where "RESET_REQUEST_BOOTSEL = 0x01"
definition RESET_REQUEST_FLASH :: u8 where "RESET_REQUEST_FLASH = 0x02"

definition TUD_RPI_RESET_DESCRIPTOR :: "u8 \<Rightarrow> u8 \<Rightarrow> u8 list" where
  "TUD_RPI_RESET_DESCRIPTOR itfnum stridx =
     [9, TUSB_DESC_INTERFACE, itfnum, 0, 0, TUSB_CLASS_VENDOR_SPECIFIC, RESET_INTERFACE_SUBCLASS,
      RESET_INTERFACE_PROTOCOL, stridx]"

definition USBD_DESC_LEN :: u16 where "USBD_DESC_LEN = 9 + (8 + 9 + 5 + 5 + 4 + 5 + 7 + 9 + 7 + 7) + 9"

definition usbd_desc_cfg :: "u8 list" where
  "usbd_desc_cfg = TUD_CONFIG_DESCRIPTOR 1 3 0 USBD_DESC_LEN 0 250 @
     TUD_CDC_DESCRIPTOR USBD_ITF_CDC 4 USBD_CDC_EP_CMD 8 USBD_CDC_EP_OUT USBD_CDC_EP_IN 64 @
     TUD_RPI_RESET_DESCRIPTOR USBD_ITF_RPI_RESET 5"

definition tud_descriptor_device_cb :: "u8 list" where "tud_descriptor_device_cb = usbd_desc_device"

definition tud_descriptor_configuration_cb :: "u8 \<Rightarrow> u8 list" where
  "tud_descriptor_configuration_cb index = usbd_desc_cfg"

definition hex_digit :: "u8 \<Rightarrow> u8" where
  "hex_digit nibble = (if nibble < 10 then nibble + 48 else nibble + 65 - 10)"

definition pico_get_unique_board_id_string :: "u8 list \<Rightarrow> nat \<Rightarrow> u8 list" where
  "pico_get_unique_board_id_string ident len =
     map (\<lambda>i. hex_digit (drop_bit (4 - 4 * (i mod 2)) (ident ! (i div 2)) AND 0xF)) [0 ..< min (len - 1) 16] @ [0]"

definition chars :: "string \<Rightarrow> u8 list" where
  "chars s = map (\<lambda>c. of_nat (of_char c)) s @ [0]"

definition usbd_desc_str :: "u8 \<Rightarrow> usb \<Rightarrow> u8 list" where
  "usbd_desc_str index u =
     (if index = 1 then chars ''Raspberry Pi''
      else if index = 2 then chars ''Pico''
      else if index = 3 then usbd_serial_str u
      else if index = 4 then chars ''Board CDC''
      else chars ''Reset'')"

definition DESC_STR_MAX :: nat where "DESC_STR_MAX = 20"

definition utf16 :: "u8 list \<Rightarrow> u8 list" where
  "utf16 cs = concat (map (\<lambda>c. [c, 0]) cs)"

text \<open>The bytes of the descriptor, of at most 19 characters.\<close>

definition string_descriptor :: "u8 list \<Rightarrow> u8 list" where
  "string_descriptor body = [of_nat (length body + 2), 3] @ body"

definition tud_descriptor_string_cb :: "u8 \<Rightarrow> usb \<Rightarrow> u8 list option \<times> usb" where
  "tud_descriptor_string_cb index u =
     (let u1 = (if usbd_serial_str u ! 0 = 0
                then u\<lparr>usbd_serial_str := pico_get_unique_board_id_string (board_id u) 17\<rparr> else u)
      in if index = 0 then (Some (string_descriptor [0x09, 0x04]), u1)
         else if index \<ge> 6 then (None, u1)
         else (Some (string_descriptor (utf16 (take (DESC_STR_MAX - 1) (takeWhile (\<lambda>c. c \<noteq> 0) (usbd_desc_str index u1))))), u1))"

section \<open>The reset interface\<close>

definition resetd_init :: "usb \<Rightarrow> fault + usb" where "resetd_init u = Inr u"

definition resetd_reset :: "usb \<Rightarrow> fault + usb" where "resetd_reset u = Inr (u\<lparr>reset_itf_num := 0\<rparr>)"

definition resetd_open :: "u8 list \<Rightarrow> nat \<Rightarrow> u16 \<Rightarrow> usb \<Rightarrow> fault + (u16 \<times> usb)" where
  "resetd_open d p max_len u =
     rbind (desc_byte d (p + 5)) (\<lambda>cls. rbind (desc_byte d (p + 6)) (\<lambda>subcls. rbind (desc_byte d (p + 7)) (\<lambda>protocol.
       if \<not> (cls = TUSB_CLASS_VENDOR_SPECIFIC \<and> subcls = RESET_INTERFACE_SUBCLASS \<and>
             protocol = RESET_INTERFACE_PROTOCOL) then Inr (0, u)
       else if max_len < 9 then Inr (0, u)
       else rbind (desc_byte d (p + 2)) (\<lambda>num. Inr (9, u\<lparr>reset_itf_num := num\<rparr>)))))"

definition PICO_STDIO_USB_RESET_RESET_TO_FLASH_DELAY_MS :: u32 where
  "PICO_STDIO_USB_RESET_RESET_TO_FLASH_DELAY_MS = 100"

text \<open>The pin of the activity light is in the upper bits of \<open>wValue\<close>.\<close>

definition resetd_control_xfer_cb :: "control_stage \<Rightarrow> tusb_control_request \<Rightarrow> usb \<Rightarrow> fault + (bool \<times> usb)" where
  "resetd_control_xfer_cb stage r u =
     (if stage \<noteq> CONTROL_STAGE_SETUP then Inr (True, u)
      else if wIndex r = ucast (reset_itf_num u) then
        (if bRequest r = RESET_REQUEST_BOOTSEL then
           (if wValue r AND 0x100 \<noteq> 0 then
              (if unat (drop_bit 9 (wValue r)) \<ge> 32 then Inl BadShift
               else Inl (Bootsel (push_bit (unat (drop_bit 9 (wValue r))) 1) (ucast (wValue r) AND 0x7F)))
            else Inl (Bootsel 0 (ucast (wValue r) AND 0x7F)))
         else if bRequest r = RESET_REQUEST_FLASH then
           Inr (True, u\<lparr>hc := (hc u)\<lparr>chip := (chip (hc u))\<lparr>watchdog :=
             watchdog_reboot 0 0 PICO_STDIO_USB_RESET_RESET_TO_FLASH_DELAY_MS (watchdog (chip (hc u)))\<rparr>\<rparr>\<rparr>)
         else Inr (False, u))
      else Inr (False, u))"

definition resetd_xfer_cb :: "u8 \<Rightarrow> u32 \<Rightarrow> usb \<Rightarrow> fault + (bool \<times> usb)" where
  "resetd_xfer_cb ep_addr xferred_bytes u = Inr (True, u)"

definition usbd_app_driver_get_cb :: "class_driver list" where
  "usbd_app_driver_get_cb = [Resetd]"

end
