(* ===== verification/Usb_Device.thy ===== *)
theory Usb_Device
  imports Usb_Descriptors
begin

text \<open>
  The device task (\<open>device/usbd.c\<close>, the end of a control transfer in \<open>device/usbd_control.c\<close>): events are taken
  from the queue, requests of the host answered, the class drivers opened and called. What interrupts do
  before each look at the queue is the parameter \<open>isr\<close>. Of the callbacks of the program only those
  of the reset interface are defined; the others are absent, as in the program.
\<close>

section \<open>Class drivers\<close>

definition BUILTIN_DRIVER_COUNT :: nat where "BUILTIN_DRIVER_COUNT = 1"

definition get_driver :: "u8 \<Rightarrow> usb \<Rightarrow> class_driver option" where
  "get_driver drvid u =
     (if unat drvid < length (app_driver u) then Some (app_driver u ! unat drvid)
      else if unat (drvid - of_nat (length (app_driver u))) < BUILTIN_DRIVER_COUNT then Some Cdcd else None)"

definition TOTAL_DRIVER_COUNT :: "usb \<Rightarrow> nat" where
  "TOTAL_DRIVER_COUNT u = length (app_driver u) + BUILTIN_DRIVER_COUNT"

definition driver_init :: "class_driver \<Rightarrow> usb \<Rightarrow> fault + usb" where
  "driver_init drv = (case drv of Resetd \<Rightarrow> resetd_init | Cdcd \<Rightarrow> cdcd_init)"

definition driver_reset :: "class_driver \<Rightarrow> usb \<Rightarrow> fault + usb" where
  "driver_reset drv = (case drv of Resetd \<Rightarrow> resetd_reset | Cdcd \<Rightarrow> cdcd_reset)"

definition driver_open :: "class_driver \<Rightarrow> u8 list \<Rightarrow> nat \<Rightarrow> u16 \<Rightarrow> usb \<Rightarrow> fault + (u16 \<times> usb)" where
  "driver_open drv = (case drv of Resetd \<Rightarrow> resetd_open | Cdcd \<Rightarrow> cdcd_open)"

definition driver_control_xfer_cb ::
    "class_driver \<Rightarrow> control_stage \<Rightarrow> tusb_control_request \<Rightarrow> usb \<Rightarrow> fault + (bool \<times> usb)" where
  "driver_control_xfer_cb drv = (case drv of Resetd \<Rightarrow> resetd_control_xfer_cb | Cdcd \<Rightarrow> cdcd_control_xfer_cb)"

definition driver_xfer_cb :: "class_driver \<Rightarrow> u8 \<Rightarrow> u32 \<Rightarrow> usb \<Rightarrow> fault + (bool \<times> usb)" where
  "driver_xfer_cb drv = (case drv of Resetd \<Rightarrow> resetd_xfer_cb | Cdcd \<Rightarrow> cdcd_xfer_cb)"

fun for_drivers :: "(class_driver \<Rightarrow> usb \<Rightarrow> fault + usb) \<Rightarrow> nat \<Rightarrow> u8 \<Rightarrow> usb \<Rightarrow> fault + usb" where
  "for_drivers f 0 i u = Inr u"
| "for_drivers f (Suc n) i u =
     (case get_driver i u of None \<Rightarrow> Inl NullPointer
      | Some drv \<Rightarrow> rbind (f drv u) (\<lambda>u1. for_drivers f n (i + 1) u1))"

section \<open>Start and reset\<close>

definition no_status :: ep_status where
  "no_status = \<lparr>ep_busy = False, ep_stalled = False, ep_claimed = False\<rparr>"

definition cleared_device :: "u8 \<Rightarrow> usbd_device" where
  "cleared_device drv = \<lparr>dev_connected = False, dev_addressed = False, dev_suspended = False, remote_wakeup_en = False,
     remote_wakeup_support = False, self_powered = False, cfg_num = 0, dev_speed = 0, itf2drv = replicate 16 drv,
     ep2drv = (\<lambda>_. drv), ep_status = (\<lambda>_. no_status)\<rparr>"

definition tud_init :: "nat \<Rightarrow> environment \<Rightarrow> usb \<Rightarrow> fault + (bool \<times> usb)" where
  "tud_init fuel hw u =
     (if usbd_initialized u then Inr (True, u)
      else
        let u1 = u\<lparr>usbd_dev := cleared_device 0, usbd_q := [], app_driver := usbd_app_driver_get_cb\<rparr>
        in rbind (for_drivers driver_init (TOTAL_DRIVER_COUNT u1) 0 u1) (\<lambda>u2.
           rbind (dcd_init fuel hw (hc u2)) (\<lambda>c.
             Inr (True, u2\<lparr>hc := dcd_int_enable c, usbd_initialized := True\<rparr>))))"

definition tusb_init :: "nat \<Rightarrow> environment \<Rightarrow> usb \<Rightarrow> fault + (bool \<times> usb)" where
  "tusb_init fuel hw u = rbind (tud_init fuel hw u) (\<lambda>(ok, u1). Inr (ok, u1))"

definition configuration_reset :: "usb \<Rightarrow> fault + usb" where
  "configuration_reset u =
     rbind (for_drivers driver_reset (TOTAL_DRIVER_COUNT u) 0 u) (\<lambda>u1.
       Inr (u1\<lparr>usbd_dev := cleared_device DRVID_INVALID\<rparr>))"

definition usbd_reset :: "usb \<Rightarrow> fault + usb" where
  "usbd_reset u = rbind (configuration_reset u) (\<lambda>u1. Inr (usbd_control_reset u1))"

section \<open>Configuration\<close>

fun open_driver :: "nat \<Rightarrow> u8 \<Rightarrow> u8 list \<Rightarrow> nat \<Rightarrow> u16 \<Rightarrow> usb \<Rightarrow> fault + ((u8 \<times> class_driver \<times> u16) option \<times> usb)" where
  "open_driver 0 drv_id d p rem_len u = Inr (None, u)"
| "open_driver (Suc n) drv_id d p rem_len u =
     (case get_driver drv_id u of None \<Rightarrow> Inl NullPointer
      | Some drv \<Rightarrow> rbind (driver_open drv d p rem_len u) (\<lambda>(drv_len, u1).
          if 9 \<le> drv_len \<and> drv_len \<le> rem_len then Inr (Some (drv_id, drv, drv_len), u1)
          else open_driver n (drv_id + 1) d p rem_len u1))"

fun bind_interfaces :: "nat \<Rightarrow> u8 \<Rightarrow> u8 \<Rightarrow> usb \<Rightarrow> fault + (bool \<times> usb)" where
  "bind_interfaces 0 num drv_id u = Inr (True, u)"
| "bind_interfaces (Suc n) num drv_id u =
     (if unat num \<ge> length (itf2drv (usbd_dev u)) then Inl OutOfBounds
      else if itf2drv (usbd_dev u) ! unat num \<noteq> DRVID_INVALID then Inr (False, u)
      else bind_interfaces n (num + 1) drv_id (on_dev (\<lambda>v. v\<lparr>itf2drv := (itf2drv v)[unat num := drv_id]\<rparr>) u))"

text \<open>\<open>n\<close> bounds the number of interfaces; a driver takes at least nine bytes for one.\<close>

fun open_interfaces :: "nat \<Rightarrow> u8 list \<Rightarrow> nat \<Rightarrow> nat \<Rightarrow> usb \<Rightarrow> fault + (bool \<times> usb)" where
  "open_interfaces 0 d p desc_end u = Inl Exhausted"
| "open_interfaces (Suc n) d p desc_end u =
     (if \<not> p < desc_end then Inr (True, u)
      else
        rbind (tu_desc_type d p) (\<lambda>ty.
        rbind (if ty = TUSB_DESC_INTERFACE_ASSOCIATION
               then rbind (desc_byte d (p + 3)) (\<lambda>c. rbind (tu_desc_next d p) (\<lambda>p1. Inr (c, p1)))
               else Inr (1, p)) (\<lambda>(assoc_itf_count, p1).
        rbind (tu_desc_type d p1) (\<lambda>ty1.
        if ty1 \<noteq> TUSB_DESC_INTERFACE then Inr (False, u)
        else
          rbind (open_driver (TOTAL_DRIVER_COUNT u) 0 d p1 (of_nat (desc_end - p1)) u) (\<lambda>(found, u1).
          case found of None \<Rightarrow> Inr (False, u1)
          | Some (drv_id, drv, drv_len) \<Rightarrow>
              let itf_count = (if assoc_itf_count = 1 \<and> drv = Cdcd then 2 else assoc_itf_count)
              in rbind (desc_byte d (p1 + 2)) (\<lambda>num.
                 rbind (bind_interfaces (unat itf_count) num drv_id u1) (\<lambda>(ok, u2).
                 if \<not> ok then Inr (False, u2)
                 else rbind (tu_edpt_bind_driver d p1 drv_len drv_id u2) (\<lambda>u3.
                   open_interfaces n d (p1 + unat drv_len) desc_end u3)))))))) "

definition process_set_config :: "u8 \<Rightarrow> usb \<Rightarrow> fault + (bool \<times> usb)" where
  "process_set_config num u =
     (let d = tud_descriptor_configuration_cb (num - 1)
      in rbind (tu_desc_type d 0) (\<lambda>ty.
         if ty \<noteq> TUSB_DESC_CONFIGURATION then Inr (False, u)
         else rbind (desc_byte d 7) (\<lambda>attr. rbind (desc_word d 2) (\<lambda>total.
           open_interfaces (Suc (unat total)) d 9 (unat total)
             (on_dev (\<lambda>v. v\<lparr>remote_wakeup_support := (attr AND 0x20 \<noteq> 0), self_powered := (attr AND 0x40 \<noteq> 0)\<rparr>) u)))))"

text \<open>The buffer of endpoint 0 holds the whole device descriptor.\<close>

definition process_get_descriptor :: "tusb_control_request \<Rightarrow> usb \<Rightarrow> fault + (bool \<times> usb)" where
  "process_get_descriptor r u =
     (let desc_type = tu_u16_high (wValue r); desc_index = tu_u16_low (wValue r)
      in if desc_type = 1 then tud_control_xfer r (Data tud_descriptor_device_cb) 18 u
         else if desc_type = 2 then
           rbind (desc_word (tud_descriptor_configuration_cb desc_index) 2) (\<lambda>total_len.
             tud_control_xfer r (Data (tud_descriptor_configuration_cb desc_index)) total_len u)
         else if desc_type = 3 then
           (case tud_descriptor_string_cb desc_index u of
              (None, u1) \<Rightarrow> Inr (False, u1)
            | (Some s, u1) \<Rightarrow> tud_control_xfer r (Data s) (ucast (s ! 0)) u1)
         else Inr (False, u))"

section \<open>Requests\<close>

definition invoke_class_control :: "class_driver \<Rightarrow> tusb_control_request \<Rightarrow> usb \<Rightarrow> fault + (bool \<times> usb)" where
  "invoke_class_control drv r u =
     driver_control_xfer_cb drv CONTROL_STAGE_SETUP r (usbd_control_set_complete_callback (Some drv) u)"

definition answered :: "fault + (bool \<times> usb) \<Rightarrow> fault + (bool \<times> usb)" where
  "answered m = rbind m (\<lambda>(_, u). Inr (True, u))"

definition itf_driver :: "tusb_control_request \<Rightarrow> usb \<Rightarrow> class_driver option" where
  "itf_driver r u =
     (if unat (tu_u16_low (wIndex r)) < length (itf2drv (usbd_dev u))
      then get_driver (itf2drv (usbd_dev u) ! unat (tu_u16_low (wIndex r))) u else None)"

definition set_configuration :: "tusb_control_request \<Rightarrow> usb \<Rightarrow> fault + (bool \<times> usb)" where
  "set_configuration r u =
     (let num = ucast (wValue r)
      in rbind (if cfg_num (usbd_dev u) \<noteq> num then
                  rbind (if cfg_num (usbd_dev u) \<noteq> 0 then
                           let u1 = u\<lparr>hc := dcd_edpt_close_all (hc u)\<rparr>; speed = dev_speed (usbd_dev u1)
                           in rbind (configuration_reset u1) (\<lambda>u2. Inr (on_dev (\<lambda>v. v\<lparr>dev_speed := speed\<rparr>) u2))
                         else Inr u) (\<lambda>u3.
                  if num \<noteq> 0 then process_set_config num u3 else Inr (True, u3))
                else Inr (True, u)) (\<lambda>(ok, u4).
         if \<not> ok then Inr (False, u4)
         else answered (tud_control_status r (on_dev (\<lambda>v. v\<lparr>cfg_num := num\<rparr>) u4))))"

definition device_request :: "tusb_control_request \<Rightarrow> usb \<Rightarrow> fault + (bool \<times> usb)" where
  "device_request r u =
     (if req_type r = 1 then
        (case itf_driver r u of None \<Rightarrow> Inr (False, u) | Some drv \<Rightarrow> invoke_class_control drv r u)
      else if bRequest r = 5 then
        rbind (on_hc (dcd_set_address (ucast (wValue r))) (usbd_control_set_request r u)) (\<lambda>u1.
          Inr (True, on_dev (\<lambda>v. v\<lparr>dev_addressed := True\<rparr>) u1))
      else if bRequest r = 8 then answered (tud_control_xfer r (Data [cfg_num (usbd_dev u)]) 1 u)
      else if bRequest r = 9 then set_configuration r u
      else if bRequest r = 6 then process_get_descriptor r u
      else if bRequest r = 3 \<or> bRequest r = 1 then
        (if wValue r \<noteq> 1 then Inr (False, u)
         else answered (tud_control_status r (on_dev (\<lambda>v. v\<lparr>remote_wakeup_en := (bRequest r = 3)\<rparr>) u)))
      else if bRequest r = 0 then
        answered (tud_control_xfer r (Data [(if self_powered (usbd_dev u) then 1 else 0) OR
          (if remote_wakeup_en (usbd_dev u) then 2 else 0), 0]) 2 u)
      else Inr (False, u))"

definition interface_request :: "tusb_control_request \<Rightarrow> usb \<Rightarrow> fault + (bool \<times> usb)" where
  "interface_request r u =
     (case itf_driver r u of None \<Rightarrow> Inr (False, u)
      | Some drv \<Rightarrow> rbind (invoke_class_control drv r u) (\<lambda>(ok, u1).
          if ok then Inr (True, u1)
          else if req_type r \<noteq> 0 then Inr (False, u1)
          else if bRequest r = 10 then
            answered (tud_control_xfer r (Data [0]) 1 (usbd_control_set_complete_callback None u1))
          else if bRequest r = 11 then answered (tud_control_status r (usbd_control_set_complete_callback None u1))
          else Inr (False, u1)))"

text \<open>A feature of an endpoint that no driver has is set without an answer to the host.\<close>

definition endpoint_request :: "tusb_control_request \<Rightarrow> usb \<Rightarrow> fault + (bool \<times> usb)" where
  "endpoint_request r u =
     (let ep_addr = tu_u16_low (wIndex r)
      in if unat (tu_edpt_number ep_addr) \<ge> CFG_TUD_ENDPPOINT_MAX then Inr (False, u)
         else
           let drv = get_driver (ep2drv (usbd_dev u) (unat (tu_edpt_number ep_addr), tu_edpt_dir ep_addr)) u
           in if req_type r \<noteq> 0 then
                (case drv of None \<Rightarrow> Inr (False, u) | Some dr \<Rightarrow> invoke_class_control dr r u)
              else if bRequest r = 0 then
                rbind (usbd_edpt_stalled ep_addr u) (\<lambda>b. answered (tud_control_xfer r (Data [if b then 1 else 0, 0]) 2 u))
              else if bRequest r = 1 \<or> bRequest r = 3 then
                rbind (if wValue r = 0 then
                         (if bRequest r = 1 then usbd_edpt_clear_stall ep_addr u else usbd_edpt_stall ep_addr u)
                       else Inr u) (\<lambda>u1.
                case drv of None \<Rightarrow> Inr (True, u1)
                | Some dr \<Rightarrow> rbind (invoke_class_control dr r u1) (\<lambda>(_, u2).
                    let u3 = usbd_control_set_complete_callback None u2
                    in if \<not> ep_busy (status_of (0, TUSB_DIR_IN) u3) then answered (tud_control_status r u3)
                       else Inr (True, u3)))
              else Inr (False, u))"

definition process_control_request :: "tusb_control_request \<Rightarrow> usb \<Rightarrow> fault + (bool \<times> usb)" where
  "process_control_request r u =
     (let u1 = usbd_control_set_complete_callback None u
      in if req_type r \<ge> 3 then Inr (False, u1)
         else if req_type r = 2 then Inr (False, u1)
         else if req_recipient r = 0 then device_request r u1
         else if req_recipient r = 1 then interface_request r u1
         else if req_recipient r = 2 then endpoint_request r u1
         else Inr (False, u1))"

section \<open>The end of a control transfer\<close>

definition stall_control :: "usb \<Rightarrow> fault + usb" where
  "stall_control u = rbind (on_hc (dcd_edpt_stall EDPT_CTRL_OUT) u) (on_hc (dcd_edpt_stall EDPT_CTRL_IN))"

definition usbd_control_xfer_cb :: "u8 \<Rightarrow> u32 \<Rightarrow> usb \<Rightarrow> fault + (bool \<times> usb)" where
  "usbd_control_xfer_cb ep_addr xferred_bytes u =
     (let r = ctrl_request (ctrl_xfer u)
      in if tu_edpt_dir ep_addr \<noteq> req_direction r then
           (if xferred_bytes \<noteq> 0 then Inr (False, u)
            else
              let u1 = u\<lparr>hc := dcd_edpt0_status_complete r (hc u)\<rparr>
              in case complete_cb (ctrl_xfer u1) of
                   None \<Rightarrow> Inr (True, u1)
                 | Some drv \<Rightarrow> answered (driver_control_xfer_cb drv CONTROL_STAGE_ACK r u1))
         else if req_direction r = TUSB_DIR_OUT \<and> ctrl_buffer (ctrl_xfer u) = Null then Inr (False, u)
         else
           rbind (if req_direction r = TUSB_DIR_OUT
                  then rbind (read_bytes (ram (hc u) Usbd_Ctrl_Buf) 0 (unat xferred_bytes)) (\<lambda>bs.
                         put_ctrl_data (ctrl_buffer (ctrl_xfer u)) bs u)
                  else Inr u) (\<lambda>u1.
           let u2 = on_ctrl (\<lambda>x. x\<lparr>total_xferred := total_xferred x + ucast xferred_bytes,
                      ctrl_buffer := advance_ctrl (ctrl_buffer x) (unat xferred_bytes)\<rparr>) u1
           in if wLength r = total_xferred (ctrl_xfer u2) \<or> xferred_bytes < ucast CFG_TUD_ENDPOINT0_SIZE then
                rbind (case complete_cb (ctrl_xfer u2) of
                         None \<Rightarrow> Inr (True, u2)
                       | Some drv \<Rightarrow> driver_control_xfer_cb drv CONTROL_STAGE_DATA r u2) (\<lambda>(is_ok, u3).
                if is_ok then status_stage_xact (ctrl_request (ctrl_xfer u3)) u3
                else rbind (stall_control u3) (\<lambda>u4. Inr (True, u4)))
              else data_stage_xact u2))"

section \<open>The task\<close>

definition setup_received :: "tusb_control_request \<Rightarrow> usb \<Rightarrow> fault + usb" where
  "setup_received r u =
     (let free = (\<lambda>s. s\<lparr>ep_busy := False, ep_claimed := False\<rparr>);
          u1 = put_status (0, TUSB_DIR_IN) free (put_status (0, TUSB_DIR_OUT) free
                 (on_dev (\<lambda>v. v\<lparr>dev_connected := True\<rparr>) u))
      in rbind (process_control_request r u1) (\<lambda>(ok, u2). if ok then Inr u2 else stall_control u2))"

text \<open>The result is whether the task goes on with the next event.\<close>

definition xfer_complete :: "u8 \<Rightarrow> u32 \<Rightarrow> usb \<Rightarrow> fault + (bool \<times> usb)" where
  "xfer_complete ep_addr len u =
     rbind (edpt_slot ep_addr) (\<lambda>e.
       let u1 = put_status e (\<lambda>s. s\<lparr>ep_busy := False, ep_claimed := False\<rparr>) u
       in if tu_edpt_number ep_addr = 0 then answered (usbd_control_xfer_cb ep_addr len u1)
          else case get_driver (ep2drv (usbd_dev u1) e) u1 of
                 None \<Rightarrow> Inr (False, u1)
               | Some drv \<Rightarrow> answered (driver_xfer_cb drv ep_addr len u1))"

definition handle_event :: "dcd_event \<Rightarrow> usb \<Rightarrow> fault + (bool \<times> usb)" where
  "handle_event ev u =
     (case ev of
        DCD_EVENT_BUS_RESET speed \<Rightarrow> rbind (usbd_reset u) (\<lambda>u1. Inr (True, on_dev (\<lambda>v. v\<lparr>dev_speed := speed\<rparr>) u1))
      | DCD_EVENT_UNPLUGGED \<Rightarrow> rbind (usbd_reset u) (\<lambda>u1. Inr (True, u1))
      | DCD_EVENT_SETUP_RECEIVED r \<Rightarrow> rbind (setup_received r u) (\<lambda>u1. Inr (True, u1))
      | DCD_EVENT_XFER_COMPLETE ep_addr len result \<Rightarrow> xfer_complete ep_addr len u
      | DCD_EVENT_SUSPEND \<Rightarrow> Inr (True, u)
      | DCD_EVENT_RESUME \<Rightarrow> Inr (True, u)
      | DCD_EVENT_SOF \<Rightarrow> Inr (True, u))"

fun task_loop :: "nat \<Rightarrow> (nat \<Rightarrow> usb \<Rightarrow> fault + usb) \<Rightarrow> usb \<Rightarrow> fault + usb" where
  "task_loop 0 isr u = Inl Exhausted"
| "task_loop (Suc n) isr u =
     rbind (isr n u) (\<lambda>u0.
       case osal_queue_receive u0 of
         (None, u1) \<Rightarrow> Inr u1
       | (Some ev, u1) \<Rightarrow> rbind (handle_event ev u1) (\<lambda>(more, u2). if more then task_loop n isr u2 else Inr u2))"

definition tud_task :: "nat \<Rightarrow> (nat \<Rightarrow> usb \<Rightarrow> fault + usb) \<Rightarrow> usb \<Rightarrow> fault + usb" where
  "tud_task fuel isr u = (if \<not> tusb_inited u then Inr u else task_loop fuel isr u)"

definition tud_task_event_ready :: "usb \<Rightarrow> bool" where
  "tud_task_event_ready u \<longleftrightarrow> tusb_inited u \<and> \<not> osal_queue_empty u"

end
