(* ===== verification/Stdio_Usb.thy ===== *)
theory Stdio_Usb
  imports Usb_Device Stdio
begin

text \<open>
  Standard input and output over USB (\<open>pico_stdio_usb/stdio_usb.c\<close>): the console of the firmware. The driver
  holds a mutex while it runs the device task; otherwise the task runs in an interrupt of low priority,
  which the interrupt of the controller or an alarm makes pending. \<open>isr\<close> says what interrupts do
  during the task: \<open>isr k\<close> in the task that is called with \<open>k\<close> rounds of the loop left.
\<close>

record usb_console =
  con_usb :: usb
  stdio_usb_mutex :: mutex
  last_avail_time :: u64
  low_priority_irq_num :: u8
  con_time :: time_world

definition PICO_STDIO_USB_STDOUT_TIMEOUT_US :: u64 where "PICO_STDIO_USB_STDOUT_TIMEOUT_US = 500000"
definition PICO_STDIO_USB_TASK_INTERVAL_US :: u64 where "PICO_STDIO_USB_TASK_INTERVAL_US = 1000"

text \<open>The code addresses of the two handlers, and the number of the callback of the alarm.\<close>

definition low_priority_worker_irq_code :: u32 where "low_priority_worker_irq_code = 0x10001101"
definition usb_irq_code :: u32 where "usb_irq_code = 0x10001201"
definition timer_task_code :: nat where "timer_task_code = 0x10001301"

definition with_usb :: "(usb \<Rightarrow> fault + usb) \<Rightarrow> usb_console \<Rightarrow> fault + usb_console" where
  "with_usb f s = rbind (f (con_usb s)) (\<lambda>u. Inr (s\<lparr>con_usb := u\<rparr>))"

definition con_now :: "usb_console \<Rightarrow> fault + (u64 \<times> usb_console)" where
  "con_now s = rbind (time_us_64 read_fuel (timer (con_time s))) (\<lambda>(t, tm).
     Inr (t, s\<lparr>con_time := (con_time s)\<lparr>timer := tm\<rparr>\<rparr>))"

definition stdio_usb_connected :: "usb_console \<Rightarrow> bool" where
  "stdio_usb_connected s = tud_cdc_n_connected (con_usb s)"

text \<open>Entering the mutex: whether the call goes on, or would wait for its own core.\<close>

definition enter_console :: "core \<Rightarrow> usb_console \<Rightarrow> fault + (bool \<times> usb_console)" where
  "enter_console k s =
     (case mutex_try_enter (caller_id k) (stdio_usb_mutex s) of
        ((True, _), m) \<Rightarrow> Inr (True, s\<lparr>stdio_usb_mutex := m\<rparr>)
      | ((False, o_id), m) \<Rightarrow>
          if o_id = Some (scast (caller_id k)) then Inr (False, s)
          else rbind (mutex_enter_blocking (patience k) (waits k) (caller_id k) m) (\<lambda>m'.
                 Inr (True, s\<lparr>stdio_usb_mutex := m'\<rparr>)))"

definition leave_console :: "usb_console \<Rightarrow> usb_console" where
  "leave_console s = s\<lparr>stdio_usb_mutex := fst (mutex_exit (stdio_usb_mutex s))\<rparr>"

definition task_and_flush :: "nat \<Rightarrow> (nat \<Rightarrow> usb \<Rightarrow> fault + usb) \<Rightarrow> usb \<Rightarrow> fault + usb" where
  "task_and_flush fuel isr u = rbind (tud_task fuel isr u) (\<lambda>u1. rbind (tud_cdc_n_write_flush u1) (\<lambda>(_, u2). Inr u2))"

fun out_loop :: "nat \<Rightarrow> nat \<Rightarrow> (nat \<Rightarrow> nat \<Rightarrow> usb \<Rightarrow> fault + usb) \<Rightarrow> u8 list \<Rightarrow> nat \<Rightarrow> usb_console \<Rightarrow> fault + usb_console" where
  "out_loop 0 fuel isr buf i s = Inl Exhausted"
| "out_loop (Suc k) fuel isr buf i s =
     (if \<not> i < length buf then Inr s
      else
        let n = min (length buf - i) (unat (tud_cdc_n_write_available (con_usb s)))
        in if n \<noteq> 0 then
             rbind (tud_cdc_n_write (drop i buf) (of_nat n) (con_usb s)) (\<lambda>(n2, u1).
             rbind (task_and_flush fuel (isr k) u1) (\<lambda>u2.
             rbind (con_now (s\<lparr>con_usb := u2\<rparr>)) (\<lambda>(t, s1).
               out_loop k fuel isr buf (i + unat n2) (s1\<lparr>last_avail_time := t\<rparr>))))
           else
             rbind (task_and_flush fuel (isr k) (con_usb s)) (\<lambda>u2.
             let s1 = s\<lparr>con_usb := u2\<rparr>
             in if \<not> tud_cdc_n_connected u2 then Inr s1
                else if tud_cdc_n_write_available u2 = 0 then
                  rbind (con_now s1) (\<lambda>(t, s2).
                    if t > last_avail_time s2 + PICO_STDIO_USB_STDOUT_TIMEOUT_US then Inr s2
                    else out_loop k fuel isr buf i s2)
                else out_loop k fuel isr buf i s1))"

definition usb_byte :: "char \<Rightarrow> u8" where "usb_byte c = of_char c"

definition stdio_usb_out_chars ::
    "core \<Rightarrow> nat \<Rightarrow> (nat \<Rightarrow> nat \<Rightarrow> usb \<Rightarrow> fault + usb) \<Rightarrow> char list \<Rightarrow> usb_console \<Rightarrow> fault + usb_console" where
  "stdio_usb_out_chars k fuel isr buf s =
     rbind (enter_console k s) (\<lambda>(entered, s1).
       if \<not> entered then Inr s1
       else rbind (if tud_cdc_n_connected (con_usb s1) then out_loop fuel fuel isr (map usb_byte buf) 0 s1
                   else Inr (s1\<lparr>last_avail_time := 0\<rparr>)) (\<lambda>s2.
            Inr (leave_console s2)))"

definition stdio_usb_in_chars :: "core \<Rightarrow> nat \<Rightarrow> usb_console \<Rightarrow> fault + (int \<times> char list \<times> usb_console)" where
  "stdio_usb_in_chars k len s =
     rbind (enter_console k s) (\<lambda>(entered, s1).
       if \<not> entered then Inr (PICO_ERROR_NO_DATA, [], s1)
       else rbind (if tud_cdc_n_connected (con_usb s1) \<and> tud_cdc_n_available (con_usb s1) \<noteq> 0 then
                     rbind (tud_cdc_n_read (of_nat len) (con_usb s1)) (\<lambda>(count, b, u).
                       Inr (if count \<noteq> 0 then int (unat count) else PICO_ERROR_NO_DATA, map (\<lambda>c. char_of (unat c)) b, s1\<lparr>con_usb := u\<rparr>))
                   else Inr (PICO_ERROR_NO_DATA, [], s1)) (\<lambda>(rc, cs, s2).
            Inr (rc, cs, leave_console s2)))"

section \<open>The task in the background\<close>

definition low_priority_worker_irq :: "core \<Rightarrow> nat \<Rightarrow> (nat \<Rightarrow> usb \<Rightarrow> fault + usb) \<Rightarrow> usb_console \<Rightarrow> fault + usb_console" where
  "low_priority_worker_irq k fuel isr s =
     (case mutex_try_enter (caller_id k) (stdio_usb_mutex s) of
        ((True, _), m) \<Rightarrow>
          rbind (with_usb (tud_task fuel isr) (s\<lparr>stdio_usb_mutex := m\<rparr>)) (\<lambda>s1. Inr (leave_console s1))
      | ((False, _), _) \<Rightarrow> Inr s)"

definition on_irqs :: "(irq_state \<Rightarrow> irq_state) \<Rightarrow> usb_console \<Rightarrow> usb_console" where
  "on_irqs f s = s\<lparr>con_usb := (con_usb s)\<lparr>hc := (hc (con_usb s))\<lparr>chip := (chip (hc (con_usb s)))\<lparr>
     clock_irqs := f (clock_irqs (chip (hc (con_usb s))))\<rparr>\<rparr>\<rparr>\<rparr>"

definition usb_irq :: "usb_console \<Rightarrow> usb_console" where
  "usb_irq s = on_irqs (irq_set_pending (unat (low_priority_irq_num s))) s"

definition timer_task :: "usb_console \<Rightarrow> u64 \<times> usb_console" where
  "timer_task s = (PICO_STDIO_USB_TASK_INTERVAL_US, on_irqs (irq_set_pending (unat (low_priority_irq_num s))) s)"

section \<open>Initialisation\<close>

definition stdio_usb :: "core \<Rightarrow> nat \<Rightarrow> (nat \<Rightarrow> nat \<Rightarrow> usb \<Rightarrow> fault + usb) \<Rightarrow> usb_console \<Rightarrow> usb_console stdio_driver" where
  "stdio_usb k fuel isr s = \<lparr>out_chars = Some (stdio_usb_out_chars k fuel isr), out_flush = None,
     in_chars = Some (stdio_usb_in_chars k), last_ended_with_cr = False, crlf_enabled = True, device = s\<rparr>"

definition console_irqs :: "usb_console \<Rightarrow> irq_state" where
  "console_irqs s = clock_irqs (chip (hc (con_usb s)))"

text \<open>
  The result of adding the alarm, an identifier or -1, becomes a \<open>bool\<close>. \<open>run\<close> are the callbacks of the
  alarms; \<open>i\<close> is the number of the driver.
\<close>

definition stdio_usb_init ::
    "nat \<Rightarrow> environment \<Rightarrow> callbacks \<Rightarrow> nat \<Rightarrow> usb_console stdio \<Rightarrow> sync_state \<Rightarrow>
     fault + (bool \<times> usb_console stdio \<times> sync_state)" where
  "stdio_usb_init fuel hw run i st sy =
     (let s = device (driver st i)
      in rbind (tusb_init fuel hw (con_usb s)) (\<lambda>(_, u).
         let (m, sy1) = mutex_init (stdio_usb_mutex s) sy; s1 = s\<lparr>con_usb := u, stdio_usb_mutex := m\<rparr>
         in rbind (user_irq_claim_unused True (console_irqs s1)) (\<lambda>(q1, num).
            let s2 = (on_irqs (\<lambda>_. q1) s1)\<lparr>low_priority_irq_num := of_int num\<rparr>; irq = unat (low_priority_irq_num s2)
            in rbind (irq_set_exclusive_handler irq low_priority_worker_irq_code (console_irqs s2)) (\<lambda>q2.
               let s3 = on_irqs (irq_set_enabled irq True) (on_irqs (\<lambda>_. q2) s2)
               in rbind (if irq_has_shared_handler USBCTRL_IRQ (console_irqs s3) then
                           rbind (irq_add_shared_handler USBCTRL_IRQ usb_irq_code 0 (console_irqs s3)) (\<lambda>q3.
                             Inr (True, on_irqs (\<lambda>_. q3) s3))
                         else
                           rbind (add_alarm_in_us fuel run PICO_STDIO_USB_TASK_INTERVAL_US timer_task_code 0 True (con_time s3))
                             (\<lambda>(a, w). Inr (a \<noteq> 0, s3\<lparr>con_time := w\<rparr>))) (\<lambda>(rc, s4).
                  let st1 = put_driver i ((driver st i)\<lparr>device := s4\<rparr>) st
                  in Inr (rc, if rc then stdio_set_driver_enabled i True st1 else st1, sy1))))))"

end
