(* ===== verification/Spec2Isabelle.thy ===== *)
theory Spec2Isabelle
  imports Chain Example_Cells Round_Trips Guarantees Queue Alarm_Facts Sync_Facts Sync_Steps Pio_Pins Clock_Startup Stdio_Facts Usb_Fifo_Facts Usb_Ports Stdio_Usb
begin

text \<open>
  SCBS is a simulator of a single battery cell. The program under \<open>src/firmware/firmware\<close> runs on an
  RP2040 with the SDK under \<open>src/firmware/modules/pico-sdk\<close>; below, \<open>sdk\<close> is its \<open>src\<close> directory.
  A host sends a line over a serial link to the first cell, and every cell handles the line and
  sends one on to the next, so that the answers come back at the end of the chain. A line is a
  packet, \<open>$BSxxx,...*hh\<close>: six types, to discover and number the cells, to read or write a
  register of all of them (\<open>MRD\<close>, \<open>MWR\<close>) or of one (\<open>SRD\<close>, \<open>SWR\<close>), and to answer (\<open>SRS\<close>).

  \<^bold>\<open>The program and its theories.\<close> The order is that of the calls, the lowest first; for every
  theory the files it models are named. Definitions keep the names of the functions.

  \<^item> \<open>Prelude\<close>: the faults that end or make undefined a run of the C code (\<open>fault\<close>: null pointer,
    out of bounds, overflow of a buffer or a signed number, use of an indeterminate byte, panic,
    waiting for ever, lack of fuel), the result type \<open>fault + 'a\<close> with its bind, the integer types.
  \<^item> \<open>C_Strings\<close>, \<open>Strtof\<close>, \<open>Floats\<close>: what the code uses of the C library and of floating point. A buffer
    is a list of cells that hold a byte or nothing yet, so reading uninitialised memory, running
    over an end or missing a terminator is a fault. Floats are exact rationals with the roundings
    of the two formats, infinities and NaN.
  \<^item> \<open>Registers\<close>, \<open>Gpio\<close>, \<open>Uart\<close>, \<open>Pwm\<close>, \<open>Adc\<close>: the drivers (\<open>hardware_gpio\<close>, \<open>hardware_uart\<close>,
    \<open>hardware/pwm.h\<close>, \<open>hardware_adc\<close>), each over a record of the registers it uses. What a device does
    between two accesses (a byte arrives, a conversion ends) is an argument.
  \<^item> \<open>Printf\<close>, \<open>Printf_Facts\<close>, \<open>Show_Fixed\<close>: \<open>pico_printf/printf.c\<close>, the whole formatter, and what it
    prints: every integer conversion is one \<open>emit\<close> of the digits, and \<open>%.2f\<close> stays in its buffer.
  \<^item> \<open>BSPacket\<close>, \<open>Packets\<close>: class \<open>BSPacket\<close> and the six packet classes of \<open>scbs_comms.cc\<close>: constructors,
    parsers, formatters, checksum.
  \<^item> \<open>Scbs\<close>: class \<open>SCBS\<close> of \<open>scbs.cc\<close> and the loop of \<open>main.cpp\<close>. The record \<open>scbs\<close> has the fields of the
    class and the devices it drives; \<open>SCBS_Update\<close> is one pass of the loop.
  \<^item> \<open>Claim\<close>, \<open>Irq\<close>, \<open>Timer\<close> with \<open>Irq_Chains\<close>, \<open>Timer_Facts\<close>: \<open>hardware_claim\<close>, \<open>hardware_sync\<close>,
    \<open>hardware_irq\<close>, \<open>hardware_timer\<close>. A chain of shared handlers is kept as the code does, in slots
    that hold links and branch instructions. The timer counts on with every access to it.
  \<^item> \<open>Pheap\<close>, \<open>Pheap_Facts\<close>, \<open>Queue\<close>: \<open>pico_util/pheap.c\<close>, a pairing heap in an array of nodes with three
    links, and \<open>pico_util/queue.c\<close>, a ring buffer of bytes.
  \<^item> \<open>Alarms\<close>, \<open>Alarm_Facts\<close>: \<open>pico_time\<close>: timestamps, alarm pools over the heap and the timer, their
    interrupt, repeating timers, sleeping, timeouts.
  \<^item> \<open>Sync\<close>, \<open>Sync_Facts\<close>, \<open>Sync_Steps\<close>: \<open>pico_sync\<close>: mutexes, recursive mutexes, semaphores, critical
    sections; in \<open>Sync_Steps\<close> two cores interleave at every access to a spin lock, the owner and the
    event registers.
  \<^item> \<open>Pio_Instructions\<close>, \<open>Pio\<close>, \<open>Pio_Programs\<close>: the instruction encoders, the configurations and FIFOs
    and the operations of the PIO driver (\<open>hardware_pio\<close>); \<open>Pio_Facts\<close> shows that the programs
    loaded into a block never overlap, \<open>Pio_Pins\<close> which pins forced execution sets.
  \<^item> \<open>Watchdog\<close>, \<open>Clocks\<close>: \<open>hardware_watchdog\<close>; \<open>hardware_clocks\<close> with \<open>hardware_pll\<close>, \<open>hardware_xosc\<close>,
    \<open>hardware_resets\<close> and the system clock of \<open>pico_stdlib\<close>. \<open>Clock_Facts\<close> shows that no clock is too fast
    while it is reconfigured, \<open>Clock_Startup\<close> what start-up and the choice of a system clock give.
  \<^item> \<open>Stdio\<close>, with \<open>Printf_Text\<close> and \<open>Stdio_Facts\<close>: \<open>pico_stdio\<close> and its UART driver: output to every enabled
    driver under the mutex, line ends, the buffered \<open>printf\<close>, input. The facts show that the drivers
    get one stream, however it is cut.
  \<^item> \<open>Usb_Fifo\<close>, with \<open>Usb_Fifo_Copy\<close> and \<open>Usb_Fifo_Facts\<close>: the ring buffer of the USB stack
    (\<open>common/tusb_fifo.c\<close> of \<open>tinyusb\<close>), which carries the console of the firmware. It is shown to be
    a bounded stream of bytes, and where it is not.

  \<^bold>\<open>How the proofs are layered.\<close> \<open>Frames\<close> and \<open>Messages\<close> give the abstract values: a message, and
  \<open>wire m\<close>, the text of its packet. \<open>Codec\<close> states the contract of a packet class as the locale
  \<open>packet_class\<close> and discharges it for the classes of the code; \<open>Constructors\<close> and \<open>Round_Trips\<close> use it.
  \<open>Node\<close> is the abstract cell, a number, a voltage and a current with \<open>react\<close>, and shows that every
  handler implements it; \<open>Receive\<close> shows what a pass of reception does, \<open>Cell\<close> puts both together
  for \<open>SCBS_Update\<close> and shows the invariant of the loop, \<open>Chain\<close> connects cells.
  \<open>Analog\<close> and \<open>Guarantees\<close> hold the properties of the outputs and the drivers. The other interfaces:
  \<open>rounding\<close> in \<open>Floats\<close> for the two formats, \<open>fifo\<close> in \<open>Queue\<close>, \<open>weak_order\<close> in
  \<open>Pheap_Facts\<close> for the comparison that orders a heap (interpreted there for numbers and in
  \<open>Alarm_Facts\<close> for the targets of alarms), \<open>simulation\<close> in \<open>Sync_Facts\<close> for a machine that answers as
  its specification (semaphores, recursive mutexes).

  \<^bold>\<open>What is shown.\<close> This theory: a cell's update refines \<open>react\<close>; discovery, reads, writes and
  collection along a chain of any length; a safety invariant of every state the loop can reach,
  whatever bytes arrive; damaged lines are dropped; reception stays in its buffer, and a cell
  that has counted 199 characters without a line end is deaf for ever. The properties of the
  other theories are the texts that begin with C and a number there.

  \<^bold>\<open>Fuel and bounds.\<close> A loop whose end depends on a device or another core has a fuel argument and
  the fault \<open>Exhausted\<close>; each property that has such a loop below it shows that it returns for a
  fuel it names, or for any large enough. Reading the time needs fuel 2 on a clock whose high
  word does not change twice in five accesses; the recursion over a heap at most one more than
  its nodes; the interrupt of an alarm pool two for each alarm and one more. Lines have at most
  199 characters, a packet 100, its fields 20, as in the code.

  \<^bold>\<open>Conventions.\<close> A section under a spin lock is one step (but in \<open>Sync_Steps\<close>); assertions are compiled
  out, as in a release build, except where the code would then use an index out of its array,
  which is the fault \<open>OutOfBounds\<close>; pointers to functions are numbers, zero the null pointer.
  Evaluation order of arguments is left to right where C leaves it open and it does not matter.

  \<^bold>\<open>Not modelled.\<close> The console messages of the firmware (they only print); \<open>malloc\<close> and \<open>free\<close> but for the
  sizes; assembler (the code that runs a chain of handlers, \<open>pico_mem_ops\<close>, \<open>pico_divider\<close>, the ROM
  calls of \<open>pico_float\<close> and \<open>pico_double\<close>); the register headers of the RP2040, whose offsets appear as the
  values they define; the rest of \<open>tinyusb\<close>, \<open>lwip\<close>, \<open>cyw43\<close> and \<open>googletest\<close>, which are other projects' code; the unit
  tests; the host's Python scripts and the hardware designs. The list of components in the manifest
  names the libraries of the SDK that are left.
\<close>

text \<open>
  C1: a cell that waits for input answers a message as the abstract node does: one update
  consumes the line, sends the line of the reply, and leaves the cell in the node's new state,
  with the measured current refreshed, ready for the next line.
\<close>

theorem update_answers_message:
  assumes "idle s" "ok_message m" "react m (node_of s) = Some (m', n')" "ok_message m'"
  shows "\<exists>s'. SCBS_Update (feed (line m) s) = Inr s' \<and> node_of s' = n'\<lparr>amps := amps_read s\<rparr> \<and>
    sent (my_uart s') = sent (my_uart s) @ map of_char (wire m' @ crlf_end) \<and>
    holds s' [] \<and> rx_fifo (my_uart s') = [] \<and> safe s'"
proof -
  note f = idle_feed [OF assms(1), of "line m"]
  have "rx_fifo (my_uart (feed (line m) s)) = map of_char (wire m @ crlf_end) @ []"
    using f(4) by (simp add: line_def)
  from SCBS_Update_reacts [OF f(1-3) this assms(2) _ assms(4)] show ?thesis
    using f(5-7) assms(3) by simp
qed

theorem update_answers_message_witness:
  "\<exists>s'. SCBS_Update (feed (line (MSRD 7 0x3000)) (example_cell 7)) = Inr s' \<and>
    sent (my_uart s') = sent (my_uart (example_cell 7)) @
      map of_char (wire (MSRS 7 ''scbs_pico-0.1.0'') @ crlf_end)"
  using update_answers_message [OF example_idle, of "MSRD 7 0x3000" 7 "MSRS 7 ''scbs_pico-0.1.0''"]
  by (fastforce simp: status_def read_reg_def)

text \<open>
  C2: discovery. One discover packet with the number zero, sent into a chain of cells, numbers
  them from 1 upwards in the order of the chain, and comes back with the number of cells.
\<close>

theorem chain_discovery:
  assumes "list_all idle ss"
  shows "\<exists>ss'. pass_line (line (MDIS 0)) ss = Inr (line (MDIS (of_nat (length ss))), ss') \<and>
    length ss' = length ss \<and> (\<forall>k < length ss. cell_id (ss' ! k) = Some (1 + of_nat k))"
  using assms by (rule chain_discovers)

theorem chain_discovery_witness:
  "\<exists>ss'. pass_line (line (MDIS 0)) [example_cell 9, example_cell 9] = Inr (line (MDIS 2), ss') \<and>
    cell_id (ss' ! 0) = Some 1 \<and> cell_id (ss' ! 1) = Some 2"
  using chain_discovery [of "[example_cell 9, example_cell 9]"] by force

text \<open>
  C7: in every state the main loop can reach, whatever bytes have arrived, the voltage is within
  the rails, the PWM level within the counter's range, and the receive buffer intact.
\<close>

theorem reachable_is_safe:
  assumes "reachable s"
  shows "fp_finite (output_voltage s) \<and> 0 \<le> fp_val (output_voltage s) \<and>
    fp_val (output_voltage s) \<le> 9 / 2 \<and> unat (duty_level s) \<le> 1000 \<and>
    unat (uart_rx_buf_len s) \<le> 199 \<and> length (uart_rx_buf s) = kMaxUARTBufLen"
  using reachable_safe [OF assms]
  by (auto simp: safe_def railed_def buffered_def buf_def kMaxUARTBufLen_def)

theorem reachable_is_safe_witness:
  "\<exists>s. SCBS_Init (SCBS_new default_config (machine.truncate (example_cell 1))) = Inr s \<and>
    fp_val (output_voltage s) \<le> 9 / 2"
proof -
  obtain s where s: "SCBS_Init (SCBS_new default_config (machine.truncate (example_cell 1))) = Inr s"
    using Init_returns by blast
  then show ?thesis using reachable_is_safe [OF reachable.init [OF s]] by blast
qed



text \<open>
  C6: a broadcast write of the output voltage reaches every cell of the chain, each of which
  sets the railed voltage, and comes back to the host unchanged.
\<close>

theorem chain_broadcast:
  assumes "list_all idle ss" "ok_value v" "strtof v \<noteq> NaN"
  shows "\<exists>ss'. pass_line (line (MMWR 0x1000 v)) ss = Inr (line (MMWR 0x1000 v), ss') \<and>
    map output_voltage ss' = replicate (length ss) (clamp_output (strtof v)) \<and>
    map cell_id ss' = map cell_id ss"
  using pass_line_effect [OF assms(1) relay_broadcast [OF assms(2,3)]] assms(2)
  by (auto simp: comp_def map_replicate_const)

theorem chain_broadcast_witness:
  "\<exists>ss'. pass_line (line (MMWR 0x1000 ''9'')) [example_cell 1, example_cell 2] =
    Inr (line (MMWR 0x1000 ''9''), ss') \<and> map output_voltage ss' = [Num (9 / 2), Num (9 / 2)]"
proof -
  have f: "strtof ''9'' = Num 9" by code_simp
  have v: "ok_value ''9''" by (simp add: ok_value_def)
  have c: "clamp_output (Num 9) = Num (9 / 2)" by code_simp
  show ?thesis
    using chain_broadcast [OF _ v, of "[example_cell 1, example_cell 2]"] f c
    by (auto simp: numeral_eq_Suc)
qed

text \<open>
  C5: a multiple read collects the register of every cell in the order of the chain, as long
  as the line has room; the cells keep their numbers and voltages.
\<close>

theorem chain_collection:
  assumes "list_all idle ss" "list_all2 (\<lambda>s t. read_reg a (node_of s) = Some t) ss ts" "fits a ts"
  shows "\<exists>ss'. pass_line (line (MMRD a [])) ss = Inr (line (MMRD a ts), ss') \<and>
    map cell_id ss' = map cell_id ss \<and> map output_voltage ss' = map output_voltage ss"
proof -
  have "list_all2 (\<lambda>n t. able n \<and> read_reg a n = Some t) (map node_of ss) ts"
    using assms(1,2) by (auto simp: list_all2_conv_all_nth list_all_length idle_def ready_def)
  from relay_collect [OF this, of "[]"] fits_prefix [of a "[]" ts] show ?thesis
    using pass_line_effect [OF assms(1), of "MMRD a []"] assms(3) by (auto simp: comp_def)
qed

theorem chain_collection_witness:
  "\<exists>ss'. pass_line (line (MMRD 0x3000 [])) [example_cell 1, example_cell 2] =
    Inr (line (MMRD 0x3000 [''scbs_pico-0.1.0'', ''scbs_pico-0.1.0'']), ss')"
proof -
  have "length (hex (uint (0x3000 :: u32))) \<le> 8" by (rule hex_u32_length)
  then have "fits 0x3000 [''scbs_pico-0.1.0'', ''scbs_pico-0.1.0'']" by (simp add: fits_def kMaxNumValues_def)
  then show ?thesis
    using chain_collection [of "[example_cell 1, example_cell 2]" "0x3000"] by (fastforce simp: read_reg_def)
qed

text \<open>
  C4: a single read addressed to a cell of the chain comes back as that cell's response with
  the text of its register; the cells in front pass the request on, those behind the response.
\<close>

theorem chain_read:
  assumes "list_all idle (us @ s # ws)" "list_all (\<lambda>u. cell_id u \<notin> {None, Some k}) us"
    and "cell_id s = Some k" "read_reg a (node_of s) = Some t"
  shows "\<exists>ss'. pass_line (line (MSRD k a)) (us @ s # ws) = Inr (line (MSRS k t), ss') \<and>
    map cell_id ss' = map cell_id (us @ s # ws) \<and>
    map output_voltage ss' = map output_voltage (us @ s # ws)"
proof -
  have "list_all (\<lambda>n. node_id n \<noteq> None \<and> node_id n \<noteq> Some k) (map node_of us)"
    using assms(2) by (simp add: list_all_iff)
  moreover have "able (node_of s)" using assms(1) by (simp add: idle_def ready_def)
  ultimately have "relay (MSRD k a) (map node_of (us @ s # ws)) =
      Some (MSRS k t, map node_of (us @ s # ws))"
    using relay_read [of k "map node_of us" "node_of s" a t] assms(3,4) by simp
  from pass_line_effect [OF assms(1) this] show ?thesis by (simp add: comp_def)
qed

theorem chain_read_witness:
  "\<exists>ss'. pass_line (line (MSRD 2 0x3000)) [example_cell 1, example_cell 2, example_cell 3] =
    Inr (line (MSRS 2 ''scbs_pico-0.1.0''), ss')"
  using chain_read [of "[example_cell 1]" "example_cell 2" "[example_cell 3]" 2 "0x3000"]
  by (fastforce simp: read_reg_def)

text \<open>
  C3: a single write of the output voltage sets it, railed, in the addressed cell and in no
  other, and the host receives that cell's \<open>OK\<close>.
\<close>

theorem chain_write:
  assumes "list_all idle (us @ s # ws)" "list_all (\<lambda>u. cell_id u \<notin> {None, Some k}) us"
    and "cell_id s = Some k" "ok_value v" "strtof v \<noteq> NaN"
  shows "\<exists>ss'. pass_line (line (MSWR k 0x1000 v)) (us @ s # ws) = Inr (line (MSRS k ''OK''), ss') \<and>
    map cell_id ss' = map cell_id (us @ s # ws) \<and>
    map output_voltage ss' =
      map output_voltage us @ clamp_output (strtof v) # map output_voltage ws"
proof -
  have "list_all (\<lambda>n. node_id n \<noteq> None \<and> node_id n \<noteq> Some k) (map node_of us)"
    using assms(2) by (simp add: list_all_iff)
  moreover have "write_reg 0x1000 v (node_of s) = Some (0, (node_of s)\<lparr>volts := clamp_output (strtof v)\<rparr>)"
    using assms(5) by (simp add: write_reg_def)
  ultimately have "relay (MSWR k 0x1000 v) (map node_of (us @ s # ws)) =
      Some (MSRS k ''OK'', map node_of us @ (node_of s)\<lparr>volts := clamp_output (strtof v)\<rparr> # map node_of ws)"
    using relay_write [of k "map node_of us" "node_of s" "0x1000" v] assms(3,4) by (simp add: err_text_def)
  from pass_line_effect [OF assms(1) this] show ?thesis using assms(4) by (simp add: comp_def)
qed

theorem chain_write_witness:
  "\<exists>ss'. pass_line (line (MSWR 2 0x1000 ''9'')) [example_cell 1, example_cell 2, example_cell 3] =
    Inr (line (MSRS 2 ''OK''), ss') \<and> map output_voltage ss' = [Zero False, Num (9 / 2), Zero False]"
proof -
  have f: "strtof ''9'' = Num 9" by code_simp
  have v: "ok_value ''9''" by (simp add: ok_value_def)
  have c: "clamp_output (Num 9) = Num (9 / 2)" by code_simp
  show ?thesis
    using chain_write [of "[example_cell 1]" "example_cell 2" "[example_cell 3]" 2 "''9''"] f c v
    by (fastforce simp: example_fields)
qed

text \<open>
  C9: whatever bytes are waiting, reception returns without writing outside its buffer, and
  leaves a terminated text of at most 199 characters in it.
\<close>

theorem reception_stays_in_buffer:
  assumes "reachable s"
  shows "\<exists>n s' t. ReceivePacket s = Inr (n, s') \<and> c_string (uart_rx_buf s') = Inr t \<and> length t \<le> 199"
proof -
  have "buffered s" using reachable_safe [OF assms] by (simp add: safe_def)
  then obtain n s' where "ReceivePacket s = Inr (n, s')" "buffered s'"
    using ReceivePacket_buffered by blast
  then show ?thesis using buffered_text by metis
qed

theorem reception_stays_in_buffer_witness:
  "\<exists>s n s' t. SCBS_Init (SCBS_new default_config (machine.truncate (example_cell 1))) = Inr s \<and>
    ReceivePacket s = Inr (n, s') \<and> c_string (uart_rx_buf s') = Inr t"
proof -
  obtain s where s: "SCBS_Init (SCBS_new default_config (machine.truncate (example_cell 1))) = Inr s"
    using Init_returns by blast
  then show ?thesis using reception_stays_in_buffer [OF reachable.init [OF s]] by blast
qed

text \<open>
  C10: a cell that has received 199 characters without a line end never listens again: whatever
  happens afterwards, its count stays at 199, it sends nothing, and its number and voltage stay.
\<close>

theorem deaf_after_long_line:
  assumes "safe s" "unat (uart_rx_buf_len s) = 199" "cell_step\<^sup>*\<^sup>* s s'"
  shows "unat (uart_rx_buf_len s') = 199 \<and> cell_id s' = cell_id s \<and>
    output_voltage s' = output_voltage s \<and> sent (my_uart s') = sent (my_uart s)"
  using assms by (rule deaf_for_ever)

theorem deaf_after_long_line_witness:
  "\<exists>s s'. ReceivePacket (feed (map of_char (replicate 199 CHR ''x'')) (example_cell 1)) = Inr (0, s) \<and>
    SCBS_Update s = Inr s' \<and> unat (uart_rx_buf_len s') = 199"
proof -
  let ?f = "feed (map of_char (replicate 199 CHR ''x'')) (example_cell 1)"
  let ?s = "with_rx [] (replicate 199 CHR ''x'') ?f"
  have "ReceivePacket ?f = Inr (0, with_rx [] ([] @ replicate 199 CHR ''x'') ?f)"
    by (rule ReceivePacket_partial) (simp_all del: replicate.simps)
  then have r: "ReceivePacket ?f = Inr (0, ?s)" by simp
  have l: "unat (uart_rx_buf_len ?s) = 199" by (simp add: small_u16 del: replicate.simps)
  have "buffered ?s \<and> same_but_rx ?f ?s" using ReceivePacket_buffered [of ?f] r
    by (simp add: safe_def [symmetric] example_buffered)
  then have safe: "safe ?s" using same_but_rx_railed [of ?f ?s] example_input(1)
    by (simp add: safe_def)
  obtain s' where u: "SCBS_Update ?s = Inr s'" using SCBS_Update_deaf [OF safe l] by blast
  then have "cell_step\<^sup>*\<^sup>* ?s s'" by (intro r_into_rtranclp cell_step.update)
  then show ?thesis using deaf_after_long_line [OF safe l] r u by blast
qed

end
